(* ===== verification/Prelude.thy ===== *)
theory Prelude
  imports Complex_Main "HOL-Library.Multiset"
begin

text \<open>
  What every component of the development shares.

  \<^item> JavaScript array operations on HOL lists: \<open>Array.prototype.slice\<close> with the clamping of
    negative and too large indices that the language specifies.
  \<^item> The contract of a \<^emph>\<open>capped buffer\<close>, the locale \<open>bounded_buffer\<close>. The console keeps all its
    histories (event stream, parsed log markers, log lines, simulation timeline and stdout) in
    arrays that are cut to a fixed length at every push, with two different idioms. Each of
    these push functions is shown in its own theory to satisfy the contract, and what follows
    from the contract is proved once here.
  \<^item> The collections \<open>buffer_simps\<close> and \<open>slice_simps\<close> and a few list lemmas.
\<close>

named_theorems buffer_simps \<open>definitions of the capped push functions\<close>
named_theorems slice_simps \<open>evaluation of array slices\<close>

section \<open>Arrays\<close>

text \<open>
  \<open>xs.slice(i)\<close> and \<open>xs.slice(i, j)\<close>: a negative index counts from the end, and both indices are
  clamped to the bounds of the array.
\<close>

definition slice_index :: "'a list \<Rightarrow> int \<Rightarrow> nat" where
  "slice_index xs i =
     (if i < 0 then nat (max 0 (int (length xs) + i)) else min (nat i) (length xs))"

definition slice_from :: "int \<Rightarrow> 'a list \<Rightarrow> 'a list" where
  "slice_from i xs = drop (slice_index xs i) xs"

definition slice :: "int \<Rightarrow> int \<Rightarrow> 'a list \<Rightarrow> 'a list" where
  "slice i j xs = take (slice_index xs j - slice_index xs i) (drop (slice_index xs i) xs)"

text \<open>The last \<open>n\<close> elements.\<close>

definition lastn :: "nat \<Rightarrow> 'a list \<Rightarrow> 'a list" where
  "lastn n xs = drop (length xs - n) xs"

text \<open>\<open>xs[xs.length - 1] ?? null\<close>.\<close>

definition last_or_null :: "'a list \<Rightarrow> 'a option" where
  "last_or_null xs = (if xs = [] then None else Some (last xs))"

lemma slice_from_neg [slice_simps]: "0 < k \<Longrightarrow> slice_from (- int k) xs = lastn k xs"
  by (auto simp: slice_from_def slice_index_def lastn_def nat_diff_distrib' max_def)

lemma slice_from_neg_numeral [slice_simps]:
  "slice_from (- numeral k) xs = lastn (numeral k) xs"
  using slice_from_neg [of "numeral k" xs] by simp

lemma slice_0 [slice_simps]: "0 \<le> n \<Longrightarrow> slice 0 n xs = take (nat n) xs"
  by (simp add: slice_def slice_index_def min_def)

lemma length_lastn [simp]: "length (lastn n xs) = min n (length xs)"
  by (simp add: lastn_def min_def)

lemma lastn_all [simp]: "length xs \<le> n \<Longrightarrow> lastn n xs = xs"
  by (simp add: lastn_def)

lemma lastn_0 [simp]: "lastn 0 xs = []"
  by (simp add: lastn_def)

lemma set_lastn: "set (lastn n xs) \<subseteq> set xs"
  by (simp add: lastn_def set_drop_subset)

lemma lastn_snoc: "0 < n \<Longrightarrow> lastn n (xs @ [x]) = lastn (n - 1) xs @ [x]"
  by (cases n) (auto simp: lastn_def Suc_diff_le)

lemma lastn_lastn: "m \<le> n \<Longrightarrow> lastn m (lastn n xs) = lastn m xs"
proof -
  assume "m \<le> n"
  then have "length xs - n + (length (lastn n xs) - m) = length xs - m" by (simp add: min_def)
  then show ?thesis by (simp add: lastn_def add.commute)
qed

lemma lastn_lastn_snoc: "lastn n (lastn n xs @ [x]) = lastn n (xs @ [x])"
  by (cases "n = 0") (simp_all add: lastn_snoc lastn_lastn)

lemma map_lastn: "map f (lastn n xs) = lastn n (map f xs)"
  by (simp add: lastn_def drop_map)

lemma sorted_wrt_lastn: "sorted_wrt P xs \<Longrightarrow> sorted_wrt P (lastn n xs)"
  by (simp add: lastn_def sorted_wrt_drop)

lemma distinct_lastn: "distinct xs \<Longrightarrow> distinct (lastn n xs)"
  by (simp add: lastn_def)

lemma sorted_wrt_snoc: "sorted_wrt P (xs @ [x]) \<longleftrightarrow> sorted_wrt P xs \<and> (\<forall>y\<in>set xs. P y x)"
  by (simp add: sorted_wrt_append)

lemma sorted_wrt_less_distinct: "sorted_wrt (<) (xs :: 'a :: linorder list) \<Longrightarrow> distinct xs"
  by (induction xs) auto

lemma last_or_null_None [simp]: "last_or_null xs = None \<longleftrightarrow> xs = []"
  by (simp add: last_or_null_def)

lemma last_or_null_Nil [simp]: "last_or_null [] = None"
  by (simp add: last_or_null_def)

lemma last_or_null_snoc [simp]: "last_or_null (xs @ [x]) = Some x"
  by (simp add: last_or_null_def)

section \<open>Capped buffers\<close>

text \<open>
  The contract of a push function that keeps the last \<open>cap\<close> elements.
\<close>

locale bounded_buffer =
  fixes push :: "'a list \<Rightarrow> 'a \<Rightarrow> 'a list"
    and cap :: nat
  assumes cap_pos: "0 < cap"
    and push_lastn: "push xs x = lastn cap (xs @ [x])"
begin

lemma push_nonempty: "push xs x \<noteq> []"
  using cap_pos by (simp add: push_lastn lastn_snoc)

lemma last_push: "last (push xs x) = x"
  using cap_pos by (simp add: push_lastn lastn_snoc)

lemma length_push_le: "length (push xs x) \<le> cap"
  by (simp add: push_lastn)

lemma length_push: "length (push xs x) = min cap (Suc (length xs))"
  by (simp add: push_lastn)

lemma push_below_cap: "length xs < cap \<Longrightarrow> push xs x = xs @ [x]"
  by (simp add: push_lastn)

lemma push_push: "1 < cap \<Longrightarrow> push (push xs x) y = lastn (cap - 2) xs @ [x, y]"
proof -
  assume cap: "1 < cap"
  have "push (push xs x) y = lastn (cap - 1) (lastn (cap - 1) xs @ [x]) @ [y]"
    using cap by (simp only: push_lastn lastn_snoc cap_pos)
  also have "lastn (cap - 1) (lastn (cap - 1) xs @ [x]) = lastn (cap - 1 - 1) (lastn (cap - 1) xs) @ [x]"
    using cap by (intro lastn_snoc) simp
  also have "\<dots> = lastn (cap - 2) xs @ [x]" by (simp add: lastn_lastn numeral_2_eq_2)
  finally show ?thesis by simp
qed

lemma set_push: "set (push xs x) \<subseteq> insert x (set xs)"
  using set_lastn [of cap "xs @ [x]"] by (auto simp: push_lastn)

lemma sorted_wrt_push:
  "sorted_wrt P xs \<Longrightarrow> (\<And>y. y \<in> set xs \<Longrightarrow> P y x) \<Longrightarrow> sorted_wrt P (push xs x)"
  unfolding push_lastn by (rule sorted_wrt_lastn) (simp add: sorted_wrt_snoc)

lemma distinct_map_push:
  "distinct (map f xs) \<Longrightarrow> f x \<notin> f ` set xs \<Longrightarrow> distinct (map f (push xs x))"
  unfolding push_lastn map_lastn by (rule distinct_lastn) simp

text \<open>
  Pushing a whole sequence leaves its last \<open>cap\<close> elements, in order: nothing recent is lost,
  nothing is duplicated or reordered.
\<close>

lemma foldl_push_lastn: "foldl push (lastn cap zs) xs = lastn cap (zs @ xs)"
proof (induction xs arbitrary: zs)
  case (Cons x xs)
  have "push (lastn cap zs) x = lastn cap (zs @ [x])"
    by (simp add: push_lastn lastn_lastn_snoc)
  with Cons.IH [of "zs @ [x]"] show ?case by simp
qed simp

lemma foldl_push: "foldl push [] xs = lastn cap xs"
  using foldl_push_lastn [of "[]" xs] by simp

end

end
