(* ===== verification/JsText.thy ===== *)
theory JsText
  imports Prelude
begin

text \<open>
  JavaScript text: strings as sequences of UTF-16 code units, the numeric conversions the
  console uses (\<open>String(n)\<close>, \<open>toString(16)\<close>, \<open>toFixed\<close>, \<open>parseInt(s, 10)\<close>, \<open>parseFloat\<close>) and the part of
  the regular expression language that its patterns are written in, with JavaScript's leftmost,
  greedy, backtracking semantics.

  A code unit is \<open>Ch c\<close> when it is below 256 and \<open>Uni n\<close> (with \<open>256 \<le> n\<close>) otherwise, so that an
  ASCII literal is \<open>js ''...''\<close> and the length of a string is the length JavaScript counts.
  Numbers are mathematical: integers where the code counts, reals elsewhere. Rounding of
  double arithmetic is not modelled; counters are assumed to stay below \<open>2^53\<close>.
\<close>

named_theorems text_simps \<open>evaluation of text functions on literals\<close>

section \<open>Strings\<close>

datatype jschar = Ch char | Uni nat

type_synonym jsstring = "jschar list"

definition js :: "string \<Rightarrow> jsstring" where
  "js s = map Ch s"

text \<open>The character U+2026 that shortened identifiers end with.\<close>

definition ellipsis :: jschar where
  "ellipsis = Uni 8230"

definition startsWith :: "jsstring \<Rightarrow> jsstring \<Rightarrow> bool" where
  "startsWith s p = (take (length p) s = p)"

definition endsWith :: "jsstring \<Rightarrow> jsstring \<Rightarrow> bool" where
  "endsWith s p = (length p \<le> length s \<and> drop (length s - length p) s = p)"

definition padStart :: "nat \<Rightarrow> jschar \<Rightarrow> jsstring \<Rightarrow> jsstring" where
  "padStart n c s = replicate (n - length s) c @ s"

text \<open>\<open>s.split(c)\<close> for a separator of one code unit: never an empty array.\<close>

fun split_on :: "'a \<Rightarrow> 'a list \<Rightarrow> 'a list list" where
  "split_on c [] = [[]]"
| "split_on c (x # xs) =
     (if x = c then [] # split_on c xs
      else (case split_on c xs of [] \<Rightarrow> [[x]] | y # ys \<Rightarrow> (x # y) # ys))"

lemma js_simps [text_simps]:
  "js [] = []" "js (c # s) = Ch c # js s" "js (s @ t) = js s @ js t"
  by (simp_all add: js_def)

lemma length_js [simp]: "length (js s) = length s"
  by (simp add: js_def)

lemma js_Nil_iff [simp]: "js s = [] \<longleftrightarrow> s = []"
  by (simp add: js_def)

lemma js_inject: "js s = js t \<longleftrightarrow> s = t"
  unfolding js_def by (rule inj_map_eq_map) (simp add: inj_def)

lemma startsWith_iff: "startsWith s p \<longleftrightarrow> (\<exists>t. s = p @ t)"
  by (auto simp: startsWith_def) (metis append_take_drop_id)

lemma endsWith_iff: "endsWith s p \<longleftrightarrow> (\<exists>t. s = t @ p)"
  by (auto simp: endsWith_def) (metis append_take_drop_id)

lemma split_on_nonempty [simp]: "split_on c s \<noteq> []"
  by (cases s) (auto split: list.splits)

lemma split_on_append:
  "c \<notin> set a \<Longrightarrow> split_on c (a @ c # s) = a # split_on c s"
  by (induction a) auto

lemma split_on_single: "c \<notin> set a \<Longrightarrow> split_on c a = [a]"
  by (induction a) auto

section \<open>Decimal numerals\<close>

definition digit_table :: "(jschar \<times> nat) list" where
  "digit_table =
     [(Ch (CHR ''0''), 0), (Ch (CHR ''1''), 1), (Ch (CHR ''2''), 2), (Ch (CHR ''3''), 3),
      (Ch (CHR ''4''), 4), (Ch (CHR ''5''), 5), (Ch (CHR ''6''), 6), (Ch (CHR ''7''), 7),
      (Ch (CHR ''8''), 8), (Ch (CHR ''9''), 9)]"

definition digit_val :: "jschar \<Rightarrow> nat option" where
  "digit_val c = map_of digit_table c"

definition is_digit :: "jschar \<Rightarrow> bool" where
  "is_digit c = (digit_val c \<noteq> None)"

definition digit_char :: "nat \<Rightarrow> jschar" where
  "digit_char d = Ch (''0123456789abcdef'' ! d)"

fun nat_str :: "nat \<Rightarrow> jsstring" where
  "nat_str n = (if n < 10 then [digit_char n] else nat_str (n div 10) @ [digit_char (n mod 10)])"

fun hex_str :: "nat \<Rightarrow> jsstring" where
  "hex_str n = (if n < 16 then [digit_char n] else hex_str (n div 16) @ [digit_char (n mod 16)])"

declare nat_str.simps [simp del] hex_str.simps [simp del]
declare nat_str.simps [text_simps] hex_str.simps [text_simps]

definition int_str :: "int \<Rightarrow> jsstring" where
  "int_str i = (if i < 0 then js ''-'' @ nat_str (nat (- i)) else nat_str (nat i))"

definition read_nat :: "jsstring \<Rightarrow> nat" where
  "read_nat s = foldl (\<lambda>n c. 10 * n + (case digit_val c of None \<Rightarrow> 0 | Some d \<Rightarrow> d)) 0 s"

lemma digit_table_simps [simp]:
  "digit_val (Ch (CHR ''0'')) = Some 0" "digit_val (Ch (CHR ''1'')) = Some 1"
  "digit_val (Ch (CHR ''2'')) = Some 2" "digit_val (Ch (CHR ''3'')) = Some 3"
  "digit_val (Ch (CHR ''4'')) = Some 4" "digit_val (Ch (CHR ''5'')) = Some 5"
  "digit_val (Ch (CHR ''6'')) = Some 6" "digit_val (Ch (CHR ''7'')) = Some 7"
  "digit_val (Ch (CHR ''8'')) = Some 8" "digit_val (Ch (CHR ''9'')) = Some 9"
  by (simp_all add: digit_val_def digit_table_def)

lemma digit_val_digit_char [simp]: "d < 10 \<Longrightarrow> digit_val (digit_char d) = Some d"
  by (auto simp: digit_char_def less_Suc_eq numeral_eq_Suc)

lemma is_digit_digit_char [simp]: "d < 10 \<Longrightarrow> is_digit (digit_char d)"
  by (simp add: is_digit_def)

lemma nat_str_nonempty [simp]: "nat_str n \<noteq> []"
  by (subst nat_str.simps) simp

lemma nat_str_digits: "c \<in> set (nat_str n) \<Longrightarrow> is_digit c"
proof (induction n rule: nat_str.induct)
  case (1 n)
  then show ?case by (cases "n < 10") (auto simp: nat_str.simps [of n])
qed

lemma read_nat_snoc [simp]:
  "read_nat (s @ [c]) = 10 * read_nat s + (case digit_val c of None \<Rightarrow> 0 | Some d \<Rightarrow> d)"
  by (simp add: read_nat_def)

lemma read_nat_nat_str [simp]: "read_nat (nat_str n) = n"
proof (induction n rule: nat_str.induct)
  case (1 n)
  show ?case
  proof (cases "n < 10")
    case True
    then show ?thesis by (subst nat_str.simps) (simp add: read_nat_def)
  next
    case False
    with "1.IH" show ?thesis by (subst nat_str.simps) simp
  qed
qed

lemma nat_str_inject [simp]: "nat_str m = nat_str n \<longleftrightarrow> m = n"
  by (metis read_nat_nat_str)

lemma read_nat_zeros [simp]: "read_nat (replicate k (Ch (CHR ''0'')) @ s) = read_nat s"
proof (induction k)
  case (Suc k)
  then show ?case by (simp add: read_nat_def)
qed simp

lemma int_str_of_nat [simp]: "int_str (int n) = nat_str n"
  by (simp add: int_str_def)

section \<open>toFixed and parseFloat\<close>

text \<open>
  \<open>fixed_str f n\<close> writes the number \<open>n / 10^f\<close> with exactly \<open>f\<close> fraction digits. \<open>toFixed f x\<close> picks
  the \<open>n\<close> with \<open>n / 10^f\<close> closest to \<open>|x|\<close>, the larger of two, and puts a sign before it when
  \<open>x\<close> is negative (so \<open>(-0.04).toFixed(1)\<close> is \<open>-0.0\<close>). Values of \<open>10^21\<close> and more, which
  JavaScript prints in exponent form, are outside the model.
\<close>

definition fixed_str :: "nat \<Rightarrow> nat \<Rightarrow> jsstring" where
  "fixed_str f n =
     (let s = padStart (Suc f) (Ch (CHR ''0'')) (nat_str n)
      in if f = 0 then s else take (length s - f) s @ js ''.'' @ drop (length s - f) s)"

definition toFixed :: "nat \<Rightarrow> real \<Rightarrow> jsstring" where
  "toFixed f x =
     (if x < 0 then js ''-'' @ fixed_str f (nat \<lfloor>- x * 10 ^ f + 1 / 2\<rfloor>)
      else fixed_str f (nat \<lfloor>x * 10 ^ f + 1 / 2\<rfloor>))"

text \<open>
  \<open>parseFloat\<close> on the alphabet \<open>[0-9.]\<close> that the patterns capture: the longest prefix that is a
  decimal literal, \<open>None\<close> for \<open>NaN\<close>. \<open>parseInt(s, 10)\<close> on a string of digits.
\<close>

definition parseFloat :: "jsstring \<Rightarrow> real option" where
  "parseFloat s =
     (let ip = takeWhile is_digit s; r = dropWhile is_digit s;
          fp = (case r of [] \<Rightarrow> [] | c # t \<Rightarrow> if c = Ch (CHR ''.'') then takeWhile is_digit t else [])
      in if ip = [] \<and> fp = [] then None
         else Some (real (read_nat (ip @ fp)) / 10 ^ length fp))"

definition parseInt10 :: "jsstring \<Rightarrow> int option" where
  "parseInt10 s =
     (let d = takeWhile is_digit s in if d = [] then None else Some (int (read_nat d)))"

lemma padStart_digits: "c \<in> set (padStart k (Ch (CHR ''0'')) (nat_str n)) \<Longrightarrow> is_digit c"
  by (auto simp: padStart_def is_digit_def dest: nat_str_digits)

lemma not_digit_dot [simp]: "\<not> is_digit (Ch (CHR ''.''))"
  by (simp add: is_digit_def digit_val_def digit_table_def)

lemma takeWhile_all_append:
  "(\<And>x. x \<in> set a \<Longrightarrow> P x) \<Longrightarrow> b = [] \<or> \<not> P (hd b) \<Longrightarrow> takeWhile P (a @ b) = a"
  by (induction a) (cases b; auto)+

lemma dropWhile_all_append:
  "(\<And>x. x \<in> set a \<Longrightarrow> P x) \<Longrightarrow> b = [] \<or> \<not> P (hd b) \<Longrightarrow> dropWhile P (a @ b) = b"
  by (induction a) (cases b; auto)+

lemma takeWhile_digits: "(\<And>c. c \<in> set s \<Longrightarrow> is_digit c) \<Longrightarrow> takeWhile is_digit s = s"
  by (rule takeWhile_eq_all_conv [THEN iffD2]) blast

lemma parseFloat_decimal:
  assumes ip: "\<And>c. c \<in> set ip \<Longrightarrow> is_digit c" "ip \<noteq> []" and fp: "\<And>c. c \<in> set fp \<Longrightarrow> is_digit c"
  shows "parseFloat (ip @ Ch (CHR ''.'') # fp) = Some (real (read_nat (ip @ fp)) / 10 ^ length fp)"
proof -
  have "takeWhile is_digit (ip @ Ch (CHR ''.'') # fp) = ip"
    and "dropWhile is_digit (ip @ Ch (CHR ''.'') # fp) = Ch (CHR ''.'') # fp"
    using ip by (auto intro: takeWhile_all_append dropWhile_all_append)
  with ip(2) fp show ?thesis by (simp add: parseFloat_def takeWhile_digits)
qed

text \<open>The value printed with \<open>f\<close> digits is the value read back.\<close>

lemma fixed_str_split:
  assumes "0 < f"
  obtains ip fp where "fixed_str f n = ip @ Ch (CHR ''.'') # fp" "ip \<noteq> []" "length fp = f"
    "\<And>c. c \<in> set ip \<Longrightarrow> is_digit c" "\<And>c. c \<in> set fp \<Longrightarrow> is_digit c" "read_nat (ip @ fp) = n"
proof -
  let ?s = "padStart (Suc f) (Ch (CHR ''0'')) (nat_str n)"
  have len: "f < length ?s" by (auto simp: padStart_def)
  show thesis
  proof
    show "fixed_str f n = take (length ?s - f) ?s @ Ch (CHR ''.'') # drop (length ?s - f) ?s"
      using assms by (simp add: fixed_str_def Let_def js_simps)
    show "take (length ?s - f) ?s \<noteq> []" using len by auto
    show "length (drop (length ?s - f) ?s) = f" using len by simp
    show "is_digit c" if "c \<in> set (take (length ?s - f) ?s)" for c
      using that padStart_digits by (meson in_set_takeD)
    show "is_digit c" if "c \<in> set (drop (length ?s - f) ?s)" for c
      using that padStart_digits by (meson in_set_dropD)
    show "read_nat (take (length ?s - f) ?s @ drop (length ?s - f) ?s) = n"
      by (simp only: append_take_drop_id) (simp add: padStart_def)
  qed
qed

lemma parseFloat_fixed_str: "0 < f \<Longrightarrow> parseFloat (fixed_str f n) = Some (real n / 10 ^ f)"
  by (metis fixed_str_split parseFloat_decimal)

lemma parseInt10_nat_str [simp]: "parseInt10 (nat_str n) = Some (int n)"
  by (simp add: parseInt10_def takeWhile_digits nat_str_digits)

lemma toFixed_nonneg: "0 \<le> x \<Longrightarrow> toFixed f x = fixed_str f (nat \<lfloor>x * 10 ^ f + 1 / 2\<rfloor>)"
  by (simp add: toFixed_def)

end
