(* ===== verification/Design.thy ===== *)
theory Design
  imports JsText
begin

text \<open>
  The data the console receives from the control plane (\<open>frontend/src/types.ts\<close>) and its styling
  maps and formatters (\<open>frontend/src/design.ts\<close>). Field names carry a two letter prefix per
  interface; the state unions are datatypes with the constructors of the source (prefixed by
  \<open>CK_\<close> for checkpoints, whose union shares names with that of runs).
\<close>

section \<open>Types\<close>

datatype RunState =
    CREATED | RUNNING | CHECKPOINTING | COMMITTED | FAILED | RECOVERING | CANCELLED | COMPLETED

record RunStatus =
  rs_run_id :: jsstring
  rs_name :: jsstring
  rs_state :: RunState
  rs_current_step :: int
  rs_active_workers :: int
  rs_created_at :: jsstring
  rs_updated_at :: jsstring
  rs_error_message :: "jsstring option"

record RunConfig =
  rc_name :: jsstring
  rc_num_workers :: int
  rc_checkpoint_interval_steps :: int

datatype CheckpointState = CK_PENDING | CK_IN_PROGRESS | CK_COMMITTED | CK_FAILED

record CheckpointInfo =
  ci_checkpoint_id :: jsstring
  ci_run_id :: jsstring
  ci_step :: int
  ci_state :: CheckpointState
  ci_num_shards :: int
  ci_total_bytes :: int
  ci_created_at :: jsstring
  ci_shard_ids :: "jsstring list"

record WorkerInfo =
  wi_worker_id :: jsstring
  wi_run_id :: jsstring
  wi_rank :: int
  wi_status :: jsstring
  wi_last_heartbeat :: jsstring
  wi_current_step :: int

datatype HealthLevel = HEALTHY | DEGRADED | UNHEALTHY

record HealthStatus =
  hs_status :: HealthLevel
  hs_version :: jsstring
  hs_uptime_seconds :: real
  hs_active_runs :: int
  hs_etcd_connected :: bool

record MetricsSummary =
  ms_total_runs :: int
  ms_active_runs :: int
  ms_total_checkpoints :: int
  ms_total_checkpoint_bytes :: int
  ms_total_workers :: int
  ms_active_workers :: int
  ms_checkpoint_success_rate :: real

record RunEvent =
  re_id :: "jsstring option"
  re_type :: jsstring
  re_data :: jsstring
  re_timestamp :: jsstring

section \<open>Styling maps\<close>

record state_config =
  sc_bg :: string
  sc_text :: string
  sc_dot :: string
  sc_label :: string
  sc_desc :: string

fun RUN_STATE_CONFIG :: "RunState \<Rightarrow> state_config" where
  "RUN_STATE_CONFIG CREATED =
     \<lparr>sc_bg = ''bg-muted-bg'', sc_text = ''text-muted'', sc_dot = ''bg-muted'',
      sc_label = ''Created'', sc_desc = ''Waiting to start''\<rparr>"
| "RUN_STATE_CONFIG RUNNING =
     \<lparr>sc_bg = ''bg-ok-muted'', sc_text = ''text-ok'', sc_dot = ''bg-ok'',
      sc_label = ''Running'', sc_desc = ''Training in progress''\<rparr>"
| "RUN_STATE_CONFIG CHECKPOINTING =
     \<lparr>sc_bg = ''bg-warn-muted'', sc_text = ''text-warn'', sc_dot = ''bg-warn'',
      sc_label = ''Saving'', sc_desc = ''Saving a checkpoint''\<rparr>"
| "RUN_STATE_CONFIG COMMITTED =
     \<lparr>sc_bg = ''bg-info-muted'', sc_text = ''text-info'', sc_dot = ''bg-info'',
      sc_label = ''Saved'', sc_desc = ''Checkpoint saved successfully''\<rparr>"
| "RUN_STATE_CONFIG FAILED =
     \<lparr>sc_bg = ''bg-err-muted'', sc_text = ''text-err'', sc_dot = ''bg-err'',
      sc_label = ''Failed'', sc_desc = ''A worker crashed''\<rparr>"
| "RUN_STATE_CONFIG RECOVERING =
     \<lparr>sc_bg = ''bg-recover-muted'', sc_text = ''text-recover'', sc_dot = ''bg-recover'',
      sc_label = ''Recovering'', sc_desc = ''Loading last save...''\<rparr>"
| "RUN_STATE_CONFIG CANCELLED =
     \<lparr>sc_bg = ''bg-muted-bg'', sc_text = ''text-muted'', sc_dot = ''bg-muted'',
      sc_label = ''Cancelled'', sc_desc = ''Stopped by user''\<rparr>"
| "RUN_STATE_CONFIG COMPLETED =
     \<lparr>sc_bg = ''bg-info-muted'', sc_text = ''text-info'', sc_dot = ''bg-info'',
      sc_label = ''Done'', sc_desc = ''Training finished''\<rparr>"

fun CKPT_STATE_CONFIG :: "CheckpointState \<Rightarrow> string \<times> string" where
  "CKPT_STATE_CONFIG CK_PENDING = (''bg-muted-bg'', ''text-muted'')"
| "CKPT_STATE_CONFIG CK_IN_PROGRESS = (''bg-warn-muted'', ''text-warn'')"
| "CKPT_STATE_CONFIG CK_COMMITTED = (''bg-ok-muted'', ''text-ok'')"
| "CKPT_STATE_CONFIG CK_FAILED = (''bg-err-muted'', ''text-err'')"

definition WORKER_DOT :: "(jsstring \<times> string) list" where
  "WORKER_DOT =
     [(js ''ACTIVE'', ''bg-ok''), (js ''active'', ''bg-ok''),
      (js ''DEAD'', ''bg-err''), (js ''dead'', ''bg-err''),
      (js ''DRAINING'', ''bg-warn''),
      (js ''IDLE'', ''bg-muted''), (js ''idle'', ''bg-muted'')]"

section \<open>Formatters\<close>

text \<open>\<open>xs[i]\<close> in a template string: out of range it reads \<open>undefined\<close>.\<close>

definition index_or_undefined :: "string list \<Rightarrow> int \<Rightarrow> jsstring" where
  "index_or_undefined xs i =
     (if 0 \<le> i \<and> i < int (length xs) then js (xs ! nat i) else js ''undefined'')"

definition byte_sizes :: "string list" where
  "byte_sizes = [''B'', ''KB'', ''MB'', ''GB'', ''TB'']"

text \<open>
  The logarithm of a negative number is \<open>NaN\<close>, which makes the quotient \<open>NaN\<close> and the index
  invalid.
\<close>

definition formatBytes :: "real \<Rightarrow> jsstring" where
  "formatBytes bytes =
     (if bytes = 0 then js ''0 B''
      else if bytes < 0 then js ''NaN undefined''
      else let i = \<lfloor>ln bytes / ln 1024\<rfloor>
           in toFixed 1 (bytes / 1024 powi i) @ js '' '' @ index_or_undefined byte_sizes i)"

text \<open>JavaScript's \<open>%\<close> takes the sign of the dividend.\<close>

definition js_rem :: "real \<Rightarrow> real \<Rightarrow> real" where
  "js_rem a b = (if 0 \<le> a then a - b * \<lfloor>a / b\<rfloor> else a - b * \<lceil>a / b\<rceil>)"

definition formatUptime :: "real \<Rightarrow> jsstring" where
  "formatUptime seconds =
     (let d = \<lfloor>seconds / 86400\<rfloor>;
          h = \<lfloor>js_rem seconds 86400 / 3600\<rfloor>;
          m = \<lfloor>js_rem seconds 3600 / 60\<rfloor>
      in if d > 0 then int_str d @ js ''d '' @ int_str h @ js ''h '' @ int_str m @ js ''m''
         else if h > 0 then int_str h @ js ''h '' @ int_str m @ js ''m''
         else int_str m @ js ''m'')"

definition shortId :: "jsstring \<Rightarrow> nat \<Rightarrow> jsstring" where
  "shortId ident len =
     (if length ident > len then slice 0 (int len) ident @ [ellipsis] else ident)"

section \<open>Lemmas on the formatters\<close>

lemma floor_log_1024:
  assumes "0 < b" "1024 powi k \<le> b" "b < 1024 powi (k + 1)"
  shows "\<lfloor>ln b / ln (1024::real)\<rfloor> = k"
proof -
  have ln_powi: "ln (1024 powi j :: real) = of_int j * ln 1024" for j
    by (simp add: ln_powr flip: powr_real_of_int')
  have pos: "0 < ln (1024::real)" by simp
  from assms(1,2) have "of_int k * ln 1024 \<le> ln b"
    by (metis ln_powi ln_mono zero_less_power_int zero_less_numeral)
  moreover from assms(1,3) have "ln b < of_int (k + 1) * ln 1024"
    by (metis ln_powi ln_less_cancel_iff zero_less_power_int zero_less_numeral)
  ultimately show ?thesis
    using pos by (intro floor_unique) (simp_all add: pos_le_divide_eq pos_divide_less_eq)
qed

lemma floor_log_nonneg: "0 < b \<Longrightarrow> 0 \<le> \<lfloor>ln b / ln (1024::real)\<rfloor> \<longleftrightarrow> 1 \<le> b"
  by (simp add: zero_le_divide_iff ln_ge_zero_iff)

lemma floor_log_less_5: "0 < b \<Longrightarrow> \<lfloor>ln b / ln (1024::real)\<rfloor> < 5 \<longleftrightarrow> b < 1024 ^ 5"
proof -
  assume b: "0 < b"
  have "ln ((1024::real) ^ 5) = 5 * ln 1024" by (subst ln_realpow) simp_all
  moreover have "b < 1024 ^ 5 \<longleftrightarrow> ln b < ln ((1024::real) ^ 5)" using b by (subst ln_less_cancel_iff) simp_all
  moreover have "\<lfloor>ln b / ln (1024::real)\<rfloor> < 5 \<longleftrightarrow> ln b / ln 1024 < 5" by (rule floor_less_numeral)
  ultimately show ?thesis by (simp add: pos_divide_less_eq)
qed

lemma index_byte_sizes:
  "0 \<le> i \<Longrightarrow> i < 5 \<Longrightarrow> \<exists>p. index_or_undefined byte_sizes i = p @ js ''B''"
proof -
  assume "0 \<le> i" "i < 5"
  then consider "i = 0" | "i = 1" | "i = 2" | "i = 3" | "i = 4" by linarith
  then show ?thesis
    by cases (simp_all add: index_or_undefined_def byte_sizes_def js_simps)
qed

lemma js_rem_floor: "0 \<le> s \<Longrightarrow> 0 < b \<Longrightarrow> 0 \<le> js_rem s b \<and> js_rem s b < b"
  using floor_divide_lower [of b s] floor_divide_upper [of b s]
  by (simp add: js_rem_def algebra_simps)

text \<open>Hours and minutes of the uptime are the remainders of the days and hours before them.\<close>

lemma uptime_parts:
  fixes s :: real
  assumes "0 \<le> s"
  defines "d \<equiv> \<lfloor>s / 86400\<rfloor>" and "h \<equiv> \<lfloor>js_rem s 86400 / 3600\<rfloor>" and "m \<equiv> \<lfloor>js_rem s 3600 / 60\<rfloor>"
  shows "0 \<le> d" "0 \<le> h" "h < 24" "0 \<le> m" "m < 60"
    "of_int (86400 * d + 3600 * h + 60 * m) \<le> s" "s < of_int (86400 * d + 3600 * h + 60 * m + 60)"
proof -
  have r1: "0 \<le> js_rem s 86400" "js_rem s 86400 < 86400"
    and r2: "0 \<le> js_rem s 3600" "js_rem s 3600 < 3600"
    using js_rem_floor assms(1) by auto
  show "0 \<le> d" using assms(1) by (simp add: d_def)
  show "0 \<le> h" "h < 24" using r1 by (simp_all add: h_def floor_less_iff)
  show "0 \<le> m" "m < 60" using r2 by (simp_all add: m_def floor_less_iff)
  have "s / 3600 = js_rem s 86400 / 3600 + of_int (24 * d)"
    using assms(1) by (simp add: js_rem_def d_def diff_divide_distrib)
  then have "\<lfloor>s / 3600\<rfloor> = h + 24 * d" by (simp only: floor_add_int [symmetric] h_def)
  then have s: "s = js_rem s 3600 + 3600 * (h + 24 * d)"
    using assms(1) by (simp add: js_rem_def)
  have "60 * m \<le> js_rem s 3600" "js_rem s 3600 < 60 * m + 60"
    using floor_divide_lower [of 60 "js_rem s 3600"] floor_divide_upper [of 60 "js_rem s 3600"]
    by (simp_all add: m_def algebra_simps)
  with s show "of_int (86400 * d + 3600 * h + 60 * m) \<le> s" "s < of_int (86400 * d + 3600 * h + 60 * m + 60)"
    by (simp_all add: algebra_simps)
qed

text \<open>
  The sizes for which \<open>formatBytes\<close> shows no unit at all are the negative ones, those strictly
  between 0 and 1 and those of 1 PB and more.
\<close>

lemma formatBytes_undefined_iff:
  "endsWith (formatBytes b) (js ''undefined'') \<longleftrightarrow> b < 0 \<or> (0 < b \<and> b < 1) \<or> 1024 ^ 5 \<le> b"
proof (cases "0 < b")
  case pos: True
  let ?i = "\<lfloor>ln b / ln (1024::real)\<rfloor>"
  show ?thesis
  proof (cases "1 \<le> b \<and> b < 1024 ^ 5")
    case True
    with pos have "0 \<le> ?i" "?i < 5" using floor_log_nonneg floor_log_less_5 by auto
    then obtain p where "index_or_undefined byte_sizes ?i = p @ js ''B''"
      using index_byte_sizes by blast
    then have "last (formatBytes b) = Ch (CHR ''B'')" using pos by (simp add: formatBytes_def js_simps)
    then have "\<not> endsWith (formatBytes b) (js ''undefined'')" by (auto simp: endsWith_iff js_simps)
    with True pos show ?thesis by simp
  next
    case False
    with pos have "\<not> (0 \<le> ?i \<and> ?i < 5)" using floor_log_nonneg floor_log_less_5 by auto
    then have "index_or_undefined byte_sizes ?i = js ''undefined''"
      by (auto simp: index_or_undefined_def byte_sizes_def)
    then have "endsWith (formatBytes b) (js ''undefined'')"
      using pos unfolding endsWith_iff by (simp add: formatBytes_def Let_def)
    with False pos show ?thesis by auto
  qed
next
  case False
  then show ?thesis
    by (cases "b = 0") (simp_all add: formatBytes_def endsWith_def js_simps)
qed

section \<open>Properties\<close>

text \<open>
  From 1 byte up to (excluding) \<open>1024^5\<close> bytes, \<open>formatBytes\<close> shows the size in the largest
  unit that does not exceed it: the printed number is the size divided by \<open>1024^k\<close>, rounded to one
  digit, and the unit is the \<open>k\<close>-th of \<open>B\<close>, \<open>KB\<close>, \<open>MB\<close>, \<open>GB\<close>, \<open>TB\<close>.
\<close>

theorem formatBytes_unit:
  assumes "k < 5" and "1024 ^ k \<le> b" and "b < 1024 ^ (k + 1)"
  shows "formatBytes b = toFixed 1 (b / 1024 ^ k) @ js '' '' @ js (byte_sizes ! k)"
proof -
  have pos: "0 < b" using assms(2) zero_less_power [of "1024::real" k] by linarith
  have "\<lfloor>ln b / ln (1024::real)\<rfloor> = int k"
    using pos assms(2,3) floor_log_1024 [of b "int k"] by (simp add: power_int_add)
  with pos assms(1) show ?thesis
    by (simp add: formatBytes_def index_or_undefined_def byte_sizes_def)
qed

theorem formatBytes_unit_witness:
  "formatBytes 3985408 = toFixed 1 (3985408 / 1024 ^ 2) @ js '' '' @ js (byte_sizes ! 2)
   \<and> toFixed 1 (3985408 / 1024 ^ 2) = js ''3.8''"
proof
  show "formatBytes 3985408 = toFixed 1 (3985408 / 1024 ^ 2) @ js '' '' @ js (byte_sizes ! 2)"
    by (rule formatBytes_unit) simp_all
  show "toFixed 1 (3985408 / 1024 ^ 2) = js ''3.8''"
    by (simp add: toFixed_def fixed_str_def padStart_def digit_char_def text_simps)
qed

text \<open>
  For a non-negative uptime \<open>formatUptime\<close> shows whole days, hours below 24 and minutes below
  60 that account for the uptime up to less than one minute, and leaves out the leading parts
  that are zero.
\<close>

theorem formatUptime_parts:
  assumes "0 \<le> s"
  shows "\<exists>d h m. 0 \<le> d \<and> 0 \<le> h \<and> h < 24 \<and> 0 \<le> m \<and> m < 60
    \<and> of_int (86400 * d + 3600 * h + 60 * m) \<le> s \<and> s < of_int (86400 * d + 3600 * h + 60 * m + 60)
    \<and> formatUptime s =
        (if d > 0 then int_str d @ js ''d '' @ int_str h @ js ''h '' @ int_str m @ js ''m''
         else if h > 0 then int_str h @ js ''h '' @ int_str m @ js ''m''
         else int_str m @ js ''m'')"
  using uptime_parts [OF assms]
  by (intro exI [of _ "\<lfloor>s / 86400\<rfloor>"] exI [of _ "\<lfloor>js_rem s 86400 / 3600\<rfloor>"]
      exI [of _ "\<lfloor>js_rem s 3600 / 60\<rfloor>"]) (simp add: formatUptime_def Let_def)

theorem formatUptime_parts_witness:
  "(\<exists>d h m. 0 \<le> d \<and> 0 \<le> h \<and> h < 24 \<and> 0 \<le> m \<and> m < 60
    \<and> of_int (86400 * d + 3600 * h + 60 * m) \<le> (93784 :: real)
    \<and> (93784 :: real) < of_int (86400 * d + 3600 * h + 60 * m + 60)
    \<and> formatUptime 93784 =
        (if d > 0 then int_str d @ js ''d '' @ int_str h @ js ''h '' @ int_str m @ js ''m''
         else if h > 0 then int_str h @ js ''h '' @ int_str m @ js ''m''
         else int_str m @ js ''m''))
    \<and> formatUptime 93784 = js ''1d 2h 3m''"
proof
  show "\<exists>d h m. 0 \<le> d \<and> 0 \<le> h \<and> h < 24 \<and> 0 \<le> m \<and> m < 60
    \<and> of_int (86400 * d + 3600 * h + 60 * m) \<le> (93784 :: real)
    \<and> (93784 :: real) < of_int (86400 * d + 3600 * h + 60 * m + 60)
    \<and> formatUptime 93784 =
        (if d > 0 then int_str d @ js ''d '' @ int_str h @ js ''h '' @ int_str m @ js ''m''
         else if h > 0 then int_str h @ js ''h '' @ int_str m @ js ''m''
         else int_str m @ js ''m'')"
    by (rule formatUptime_parts) simp
  show "formatUptime 93784 = js ''1d 2h 3m''"
    by (simp add: formatUptime_def js_rem_def int_str_def digit_char_def text_simps)
qed

end
