(* ===== verification/JsRegex.thy ===== *)
theory JsRegex
  imports JsText
begin

text \<open>
  The regular expressions of the console. Its patterns are sequences of literal characters and
  of greedy repetitions of one character class, some of them captured, with alternatives only at
  the top level. A pattern is therefore a list of items, \<open>match_items\<close> is the backtracking matcher
  of the language specification on them (a repetition first takes the longest run and gives
  characters back one by one), and \<open>exec\<close> tries the start positions from left to right.
  No flag but \<open>i\<close> is used, so \<open>exec\<close> keeps no state between calls.
\<close>

section \<open>Character classes\<close>

datatype cclass = Digits | Spaces | NonSpaces | DigitsDot | AnyChar

definition is_space :: "jschar \<Rightarrow> bool" where
  "is_space c =
     (case c of
        Ch x \<Rightarrow> x \<in> {CHR 0x09, CHR 0x0A, CHR 0x0B, CHR 0x0C, CHR 0x0D, CHR 0x20, CHR 0xA0}
      | Uni n \<Rightarrow> n = 5760 \<or> (8192 \<le> n \<and> n \<le> 8202) \<or> n \<in> {8232, 8233, 8239, 8287, 12288, 65279})"

definition is_line_end :: "jschar \<Rightarrow> bool" where
  "is_line_end c = (c \<in> {Ch (CHR 0x0A), Ch (CHR 0x0D), Uni 8232, Uni 8233})"

fun in_class :: "cclass \<Rightarrow> jschar \<Rightarrow> bool" where
  "in_class Digits c = is_digit c"
| "in_class Spaces c = is_space c"
| "in_class NonSpaces c = (\<not> is_space c)"
| "in_class DigitsDot c = (is_digit c \<or> c = Ch (CHR ''.''))"
| "in_class AnyChar c = (\<not> is_line_end c)"

text \<open>
  The flag \<open>i\<close> compares upper-cased code units. The patterns hold ASCII letters only, and no
  code unit outside ASCII is folded into ASCII, so folding the ASCII letters is exact.
\<close>

definition fold_pairs :: "(char \<times> char) list" where
  "fold_pairs = zip ''abcdefghijklmnopqrstuvwxyz'' ''ABCDEFGHIJKLMNOPQRSTUVWXYZ''"

definition fold_case :: "jschar \<Rightarrow> jschar" where
  "fold_case c =
     (case c of Uni n \<Rightarrow> Uni n
      | Ch x \<Rightarrow> (case map_of fold_pairs x of None \<Rightarrow> Ch x | Some y \<Rightarrow> Ch y))"

lemma fold_case_letters:
  "fold_case (Ch (CHR ''a'')) = Ch (CHR ''A'')" "fold_case (Ch (CHR ''b'')) = Ch (CHR ''B'')"
  "fold_case (Ch (CHR ''c'')) = Ch (CHR ''C'')" "fold_case (Ch (CHR ''d'')) = Ch (CHR ''D'')"
  "fold_case (Ch (CHR ''e'')) = Ch (CHR ''E'')" "fold_case (Ch (CHR ''f'')) = Ch (CHR ''F'')"
  "fold_case (Ch (CHR ''h'')) = Ch (CHR ''H'')" "fold_case (Ch (CHR ''i'')) = Ch (CHR ''I'')"
  "fold_case (Ch (CHR ''k'')) = Ch (CHR ''K'')" "fold_case (Ch (CHR ''m'')) = Ch (CHR ''M'')"
  "fold_case (Ch (CHR ''n'')) = Ch (CHR ''N'')" "fold_case (Ch (CHR ''o'')) = Ch (CHR ''O'')"
  "fold_case (Ch (CHR ''p'')) = Ch (CHR ''P'')" "fold_case (Ch (CHR ''r'')) = Ch (CHR ''R'')"
  "fold_case (Ch (CHR ''s'')) = Ch (CHR ''S'')" "fold_case (Ch (CHR ''t'')) = Ch (CHR ''T'')"
  "fold_case (Ch (CHR ''u'')) = Ch (CHR ''U'')" "fold_case (Ch (CHR ''v'')) = Ch (CHR ''V'')"
  "fold_case (Ch (CHR ''y'')) = Ch (CHR ''Y'')" "fold_case (Ch (CHR ''z'')) = Ch (CHR ''Z'')"
  by (simp_all add: fold_case_def fold_pairs_def)

lemma fold_case_others:
  "fold_case (Ch (CHR '' '')) = Ch (CHR '' '')" "fold_case (Ch (CHR '':'')) = Ch (CHR '':'')"
  "fold_case (Ch (CHR ''_'')) = Ch (CHR ''_'')" "fold_case (Ch (CHR ''='')) = Ch (CHR ''='')"
  "fold_case (Ch (CHR ''.'')) = Ch (CHR ''.'')" "fold_case (Ch (CHR ''0'')) = Ch (CHR ''0'')"
  "fold_case (Ch (CHR ''1'')) = Ch (CHR ''1'')" "fold_case (Ch (CHR ''2'')) = Ch (CHR ''2'')"
  "fold_case (Ch (CHR ''3'')) = Ch (CHR ''3'')" "fold_case (Ch (CHR ''4'')) = Ch (CHR ''4'')"
  "fold_case (Ch (CHR ''5'')) = Ch (CHR ''5'')" "fold_case (Ch (CHR ''6'')) = Ch (CHR ''6'')"
  "fold_case (Ch (CHR ''7'')) = Ch (CHR ''7'')" "fold_case (Ch (CHR ''8'')) = Ch (CHR ''8'')"
  "fold_case (Ch (CHR ''9'')) = Ch (CHR ''9'')" "fold_case (Ch (CHR ''('')) = Ch (CHR ''('')"
  "fold_case (Ch (CHR '')'')) = Ch (CHR '')'')" "fold_case (Ch (CHR ''['')) = Ch (CHR ''['')"
  "fold_case (Ch (CHR '']'')) = Ch (CHR '']'')" "fold_case (Ch (CHR ''-'')) = Ch (CHR ''-'')"
  "fold_case (Ch (CHR ''/'')) = Ch (CHR ''/'')" "fold_case (Ch (CHR ''R'')) = Ch (CHR ''R'')"
  by (simp_all add: fold_case_def fold_pairs_def)

section \<open>Patterns and matching\<close>

text \<open>\<open>Rep lo k cap\<close> is \<open>k*\<close> for \<open>lo = 0\<close> and \<open>k+\<close> for \<open>lo = 1\<close>, in parentheses when \<open>cap\<close>.\<close>

datatype ritem = Lit jschar | LitI jschar | Rep nat cclass bool

abbreviation lits :: "string \<Rightarrow> ritem list" where
  "lits s \<equiv> map Lit (js s)"

abbreviation litsI :: "string \<Rightarrow> ritem list" where
  "litsI s \<equiv> map LitI (js s)"

fun try_down :: "(nat \<Rightarrow> 'a option) \<Rightarrow> nat \<Rightarrow> nat \<Rightarrow> 'a option" where
  "try_down f lo 0 = (if lo = 0 then f 0 else None)"
| "try_down f lo (Suc n) =
     (if Suc n < lo then None
      else (case f (Suc n) of Some y \<Rightarrow> Some y | None \<Rightarrow> try_down f lo n))"

fun match_items :: "ritem list \<Rightarrow> jsstring \<Rightarrow> jsstring list option" where
  "match_items [] s = Some []"
| "match_items (Lit c # r) s =
     (case s of [] \<Rightarrow> None | x # xs \<Rightarrow> if x = c then match_items r xs else None)"
| "match_items (LitI c # r) s =
     (case s of [] \<Rightarrow> None
      | x # xs \<Rightarrow> if fold_case x = fold_case c then match_items r xs else None)"
| "match_items (Rep lo k cap # r) s =
     try_down
       (\<lambda>j. map_option (\<lambda>cs. if cap then take j s # cs else cs) (match_items r (drop j s)))
       lo (length (takeWhile (in_class k) s))"

fun exec :: "ritem list \<Rightarrow> jsstring \<Rightarrow> jsstring list option" where
  "exec re [] = match_items re []"
| "exec re (c # s) =
     (case match_items re (c # s) of Some cs \<Rightarrow> Some cs | None \<Rightarrow> exec re s)"

text \<open>\<open>re.test(s)\<close> for a pattern given by its alternatives.\<close>

definition test :: "ritem list list \<Rightarrow> jsstring \<Rightarrow> bool" where
  "test alts s = list_ex (\<lambda>re. exec re s \<noteq> None) alts"

section \<open>Laws of the matcher\<close>

lemma try_down_top: "f n = Some y \<Longrightarrow> lo \<le> n \<Longrightarrow> try_down f lo n = Some y"
  by (cases n) auto

lemma match_lits [simp]: "match_items (map Lit l @ r) (l @ s) = match_items r s"
  by (induction l) auto

lemma match_lits_all [simp]: "match_items (map Lit l) (l @ s) = Some []"
  using match_lits [of l "[]" s] by simp

text \<open>A greedy repetition takes a whole run, when the rest of the pattern matches after it.\<close>

lemma match_rep:
  assumes run: "\<And>c. c \<in> set w \<Longrightarrow> in_class k c" and stop: "s = [] \<or> \<not> in_class k (hd s)"
    and lo: "lo \<le> length w" and rest: "match_items r s = Some cs"
  shows "match_items (Rep lo k cap # r) (w @ s) = Some (if cap then w # cs else cs)"
proof -
  have "takeWhile (in_class k) (w @ s) = w"
    using run stop by (rule takeWhile_all_append)
  with lo rest show ?thesis by (simp add: try_down_top)
qed

text \<open>A pattern that starts with a literal skips every prefix without it.\<close>

lemma exec_skip: "c \<notin> set pre \<Longrightarrow> exec (Lit c # r) (pre @ s) = exec (Lit c # r) s"
  by (induction pre) auto

lemma exec_here: "match_items re s = Some cs \<Longrightarrow> exec re s = Some cs"
  by (cases s) auto

text \<open>A pattern matches somewhere when it matches a suffix, and a repetition when some run allows the rest.\<close>

lemma exec_suffix: "match_items re s \<noteq> None \<Longrightarrow> exec re (pre @ s) \<noteq> None"
proof (induction pre)
  case Nil
  then show ?case by (auto dest: exec_here)
qed (auto split: option.split)

lemma test_suffix: "match_items re s \<noteq> None \<Longrightarrow> test [re] (pre @ s)"
  using exec_suffix [of re s pre] by (simp add: test_def)

lemma try_down_ex: "f j = Some y \<Longrightarrow> lo \<le> j \<Longrightarrow> j \<le> n \<Longrightarrow> try_down f lo n \<noteq> None"
  by (induction n) (auto simp: le_Suc_eq split: option.split)

lemma match_rep_some:
  assumes run: "\<And>c. c \<in> set w \<Longrightarrow> in_class k c" and lo: "lo \<le> length w"
    and rest: "match_items r s \<noteq> None"
  shows "match_items (Rep lo k cap # r) (w @ s) \<noteq> None"
proof -
  let ?f = "\<lambda>j. map_option (\<lambda>cs. if cap then take j (w @ s) # cs else cs) (match_items r (drop j (w @ s)))"
  from rest obtain cs where cs: "match_items r s = Some cs" by blast
  have "length w \<le> length (takeWhile (in_class k) (w @ s))"
    using run by (simp add: takeWhile_append)
  then have "try_down ?f lo (length (takeWhile (in_class k) (w @ s))) \<noteq> None"
    using lo by (intro try_down_ex [of ?f "length w" "if cap then w # cs else cs"]) (simp_all add: cs)
  then show ?thesis by (simp only: match_items.simps not_False_eq_True)
qed

text \<open>
  A match is a factor of the subject that spells the pattern; in particular every character
  required by a literal item occurs in the subject. So a subject without it is rejected.
\<close>

lemma try_down_Some: "try_down f lo n = Some y \<Longrightarrow> \<exists>j. f j = Some y"
  by (induction n) (auto split: if_splits option.splits)

lemma match_items_lit_in: "match_items re s = Some cs \<Longrightarrow> Lit c \<in> set re \<Longrightarrow> c \<in> set s"
proof (induction re s arbitrary: cs rule: match_items.induct)
  case (4 lo k cap r s)
  from "4.prems"(1) obtain j cs' where "match_items r (drop j s) = Some cs'"
    by (auto dest!: try_down_Some)
  with "4.IH" "4.prems"(2) have "c \<in> set (drop j s)" by auto
  then show ?case by (rule in_set_dropD)
qed (auto split: list.splits if_splits)

lemma exec_lit_in: "exec re s = Some cs \<Longrightarrow> Lit c \<in> set re \<Longrightarrow> c \<in> set s"
  by (induction re s rule: exec.induct)
    (auto split: option.splits dest: match_items_lit_in)

text \<open>What a pattern ends with, or starts with, has to occur as well.\<close>

lemma exec_drop: "exec re (drop j s) \<noteq> None \<Longrightarrow> exec re s \<noteq> None"
proof (induction j arbitrary: s)
  case (Suc j)
  then show ?case by (cases s) (auto split: option.split)
qed simp

lemma match_append_right: "match_items (p @ q) s = Some cs \<Longrightarrow> exec q s \<noteq> None"
proof (induction p s arbitrary: cs rule: match_items.induct)
  case (1 s)
  then show ?case by (auto dest: exec_here)
next
  case (4 lo k cap r s)
  from "4.prems" obtain j cs' where "match_items (r @ q) (drop j s) = Some cs'"
    by (auto dest!: try_down_Some)
  then have "exec q (drop j s) \<noteq> None" by (rule "4.IH")
  then show ?case by (rule exec_drop)
qed (auto split: list.splits if_splits option.split)

lemma match_append_left: "match_items (map LitI l @ q) s = Some cs \<Longrightarrow> match_items (map LitI l) s \<noteq> None"
  by (induction l arbitrary: s) (auto split: list.splits if_splits)

lemma exec_append:
  "exec q s = None \<Longrightarrow> exec (p @ q) s = None"
  "exec (map LitI l) s = None \<Longrightarrow> exec (map LitI l @ q) s = None"
proof -
  have "match_items (p @ q) t = None" if "exec q t = None" for t
    using match_append_right [of p q t] that by (cases "match_items (p @ q) t") auto
  then show "exec q s = None \<Longrightarrow> exec (p @ q) s = None"
    by (induction s) (auto split: option.splits)
  have "match_items (map LitI l @ q) t = None" if "match_items (map LitI l) t = None" for t
    using match_append_left [of l q t] that by (cases "match_items (map LitI l @ q) t") auto
  then show "exec (map LitI l) s = None \<Longrightarrow> exec (map LitI l @ q) s = None"
    by (induction s) (auto split: option.splits)
qed

end
