(* ===== verification/Simulation.thy ===== *)
theory Simulation
  imports JsText
begin

text \<open>
  The browser simulation of a checkpointed training run, \<open>DemoPage\<close> in
  \<open>frontend/src/pages/DemoPage.tsx\<close>: its React state and refs, its handlers, its effects, and the
  browser timers it starts.

  The record \<open>sim\<close> holds the component's state variables and refs under their names, and below
  them what the browser keeps: the clock, the pending timeouts (handle, due time, callback), and
  for each of the two intervals its next due time while it is registered. One step of the page is
  a user click, a timer that fires, or time passing. After a click or a timer the component is
  rendered and the effects whose dependencies changed run in the order of the source
  (\<open>run_effects\<close>). Interval callbacks may be merged into one render, so a training tick adds
  five steps any positive number of times, and timers may fire late, but timeouts fire in the
  order of their due times.

  The invariant \<open>sim_inv\<close> ties the refs to the visible state; the properties follow from it for
  every reachable state.
\<close>

named_theorems sim_simps \<open>definitions of the simulation's operations\<close>

section \<open>State\<close>

datatype SimulationPhase = Idle | Running | Failed | Recovering | Recovered

datatype EventType = Info | Success | Warning | Error

record TimelineEvent =
  te_id :: int
  te_time :: int
  te_label :: jsstring
  te_type :: EventType

record SimulatedCheckpoint =
  sk_step :: int
  sk_size :: jsstring
  sk_hash :: jsstring

text \<open>The two timeout callbacks of a kill, with the checkpoint step they captured.\<close>

datatype callback = LoadCheckpoint int | ResumeFrom int

record sim =
  phase :: SimulationPhase
  step :: int
  checkpoints :: "SimulatedCheckpoint list"
  timeline :: "TimelineEvent list"
  logs :: "jsstring list"
  killedWorker :: "jsstring option"
  killStep :: "int option"
  restoredStep :: "int option"
  recoverySeconds :: real
  startTimeRef :: int
  lastCheckpointRef :: int
  lastLogStepRef :: int
  nextEventIdRef :: int
  recoveryTimersRef :: "nat list"
  clock :: int
  timeouts :: "(nat \<times> int \<times> callback) list"
  nextHandle :: nat
  trainInterval :: "int option"
  recoveryInterval :: "int option"

definition sim_init :: "int \<Rightarrow> sim" where
  "sim_init now =
     \<lparr>phase = Idle, step = 0, checkpoints = [], timeline = [], logs = [], killedWorker = None,
      killStep = None, restoredStep = None, recoverySeconds = 0, startTimeRef = 0,
      lastCheckpointRef = 0, lastLogStepRef = 0, nextEventIdRef = 0, recoveryTimersRef = [],
      clock = now, timeouts = [], nextHandle = 1, trainInterval = None, recoveryInterval = None\<rparr>"

section \<open>Operations\<close>

definition isTraining :: "sim \<Rightarrow> bool" where
  "isTraining s = (phase s = Running \<or> phase s = Recovered)"

definition clearRecoveryTimers :: "sim \<Rightarrow> sim" where
  "clearRecoveryTimers s =
     s\<lparr>timeouts := filter (\<lambda>(h, _). h \<notin> set (recoveryTimersRef s)) (timeouts s),
       recoveryTimersRef := []\<rparr>"

definition push_timeline :: "TimelineEvent list \<Rightarrow> TimelineEvent \<Rightarrow> TimelineEvent list" where
  "push_timeline previous event = slice_from (-18) (previous @ [event])"

definition push_log :: "jsstring list \<Rightarrow> jsstring \<Rightarrow> jsstring list" where
  "push_log previous line = slice_from (-14) (previous @ [line])"

definition addEvent :: "jsstring \<Rightarrow> EventType \<Rightarrow> sim \<Rightarrow> sim" where
  "addEvent label ty s =
     s\<lparr>timeline := push_timeline (timeline s)
         \<lparr>te_id = nextEventIdRef s, te_time = max 0 (clock s - startTimeRef s),
          te_label = label, te_type = ty\<rparr>,
       nextEventIdRef := nextEventIdRef s + 1\<rparr>"

definition addLog :: "jsstring \<Rightarrow> sim \<Rightarrow> sim" where
  "addLog line s = s\<lparr>logs := push_log (logs s) line\<rparr>"

text \<open>The illustrative loss \<open>2.3 * exp(-step / 650) + 0.08\<close>.\<close>

definition sim_loss :: "int \<Rightarrow> real" where
  "sim_loss n = 23 / 10 * exp (- real_of_int n / 650) + 8 / 100"

definition mk_checkpoint :: "int \<Rightarrow> SimulatedCheckpoint" where
  "mk_checkpoint n =
     \<lparr>sk_step = n,
      sk_size = toFixed 1 (37 / 10 + real_of_int (n mod 3) * (1 / 10)) @ js '' MiB'',
      sk_hash = js ''sim-'' @ padStart 4 (Ch (CHR ''0'')) (hex_str (nat n)) @ js ''-7f3a9c2e''\<rparr>"

definition log_effect :: "sim \<Rightarrow> sim" where
  "log_effect s =
     (let logStep = step s div 25 * 25
      in if logStep > lastLogStepRef s
         then addLog (js ''[trainer] step='' @ int_str logStep @ js '' loss=''
                      @ toFixed 3 (sim_loss logStep) @ js '' workers=2'')
                (s\<lparr>lastLogStepRef := logStep\<rparr>)
         else s)"

definition checkpoint_effect :: "sim \<Rightarrow> sim" where
  "checkpoint_effect s =
     (let checkpointStep = step s div 50 * 50
      in if checkpointStep \<ge> 50 \<and> checkpointStep > lastCheckpointRef s
         then let checkpoint = mk_checkpoint checkpointStep;
                  s1 = s\<lparr>lastCheckpointRef := checkpointStep,
                         checkpoints := checkpoints s @ [checkpoint]\<rparr>;
                  s2 = addEvent (js ''Simulated checkpoint committed at step '' @ int_str checkpointStep)
                         Success s1
              in addLog (js ''[checkpoint] committed step='' @ int_str checkpointStep @ js '' sha256=''
                         @ sk_hash checkpoint) s2
         else s)"

definition training_effect :: "sim \<Rightarrow> sim" where
  "training_effect s =
     (if \<not> isTraining s \<or> step s = 0 then s else checkpoint_effect (log_effect s))"

definition train_interval_effect :: "sim \<Rightarrow> sim" where
  "train_interval_effect s =
     s\<lparr>trainInterval := (if isTraining s then Some (clock s + 250) else None)\<rparr>"

definition recovery_interval_effect :: "sim \<Rightarrow> sim" where
  "recovery_interval_effect s =
     s\<lparr>recoveryInterval :=
         (if phase s \<noteq> Failed \<and> phase s \<noteq> Recovering then None else Some (clock s + 100))\<rparr>"

definition run_effects :: "sim \<Rightarrow> sim \<Rightarrow> sim" where
  "run_effects old s =
     (let s1 = (if isTraining old \<noteq> isTraining s then train_interval_effect s else s);
          s2 = (if isTraining old \<noteq> isTraining s \<or> step old \<noteq> step s then training_effect s1 else s1)
      in if phase old \<noteq> phase s then recovery_interval_effect s2 else s2)"

definition startSimulation :: "sim \<Rightarrow> sim" where
  "startSimulation s =
     (clearRecoveryTimers s)
       \<lparr>startTimeRef := clock s, lastCheckpointRef := 0, lastLogStepRef := 0, nextEventIdRef := 1,
        phase := Running, step := 0, checkpoints := [], killedWorker := None, killStep := None,
        restoredStep := None, recoverySeconds := 0,
        timeline := [\<lparr>te_id = 0, te_time = 0, te_label = js ''Browser simulation started'',
                      te_type = Success\<rparr>],
        logs := [js ''[simulator] browser-only mode initialized'',
                 js ''[simulator] no backend connection opened'',
                 js ''[trainer] two simulated workers started'']\<rparr>"

definition killSimulatedWorker :: "jsstring \<Rightarrow> sim \<Rightarrow> sim" where
  "killSimulatedWorker workerName s =
     (if phase s \<noteq> Running \<or> length (checkpoints s) = 0 then s
      else
        let s1 = clearRecoveryTimers s;
            latest = sk_step (checkpoints s ! (length (checkpoints s) - 1));
            s2 = s1\<lparr>killedWorker := Some workerName, killStep := Some (step s), restoredStep := None,
                    recoverySeconds := 0, phase := Failed\<rparr>;
            s3 = addEvent (workerName @ js '' stopped inside the simulation'') Error s2;
            s4 = addLog (js ''[failure] '' @ workerName @ js '' heartbeat stopped (simulated)'') s3;
            h = nextHandle s4
        in s4\<lparr>timeouts := timeouts s4 @ [(h, clock s4 + 900, LoadCheckpoint latest),
                                       (h + 1, clock s4 + 3200, ResumeFrom latest)],
              nextHandle := h + 2,
              recoveryTimersRef := recoveryTimersRef s4 @ [h, h + 1]\<rparr>)"

fun run_callback :: "callback \<Rightarrow> sim \<Rightarrow> sim" where
  "run_callback (LoadCheckpoint latest) s =
     addLog (js ''[recovery] loading simulated checkpoint from step='' @ int_str latest)
       (addEvent (js ''Simulated heartbeat timeout detected; loading last checkpoint'') Warning
         (s\<lparr>phase := Recovering\<rparr>))"
| "run_callback (ResumeFrom latest) s =
     addLog (js ''[recovery] complete; resumed at step='' @ int_str latest)
       (addEvent (js ''Training resumed from simulated checkpoint at step '' @ int_str latest) Success
         (s\<lparr>step := latest, restoredStep := Some latest, phase := Recovered,
            recoverySeconds := 32 / 10\<rparr>))"

definition train_tick :: "nat \<Rightarrow> sim \<Rightarrow> sim" where
  "train_tick n s = s\<lparr>step := step s + 5 * int n, trainInterval := Some (clock s + 250)\<rparr>"

definition recovery_tick :: "sim \<Rightarrow> sim" where
  "recovery_tick s =
     s\<lparr>recoverySeconds := of_int \<lfloor>(recoverySeconds s + 1 / 10) * 10 + 1 / 2\<rfloor> / 10,
       recoveryInterval := Some (clock s + 100)\<rparr>"

definition fire_timeout :: "nat \<times> int \<times> callback \<Rightarrow> sim \<Rightarrow> sim" where
  "fire_timeout t s = run_callback (snd (snd t)) (s\<lparr>timeouts := remove1 t (timeouts s)\<rparr>)"

section \<open>What the page derives from its state\<close>

definition latestCheckpoint :: "sim \<Rightarrow> SimulatedCheckpoint option" where
  "latestCheckpoint s = last_or_null (checkpoints s)"

definition currentLoss :: "sim \<Rightarrow> jsstring" where
  "currentLoss s = toFixed 3 (sim_loss (step s))"

definition canKill :: "sim \<Rightarrow> bool" where
  "canKill s = (phase s = Running \<and> length (checkpoints s) > 0)"

definition hasStarted :: "sim \<Rightarrow> bool" where
  "hasStarted s = (phase s \<noteq> Idle)"

definition hasFailed :: "sim \<Rightarrow> bool" where
  "hasFailed s = (phase s = Failed \<or> phase s = Recovering \<or> phase s = Recovered)"

definition hasRecovered :: "sim \<Rightarrow> bool" where
  "hasRecovered s = (phase s = Recovered)"

text \<open>The coordinates that the polyline of the loss chart joins, before they are printed.\<close>

definition chart_point :: "int \<Rightarrow> nat \<Rightarrow> real \<times> real" where
  "chart_point stp index =
     (let pointStep = max 0 (stp - (27 - int index) * 10);
          value = sim_loss pointStep;
          x = real index / 27 * 100;
          y = max 4 (min 33 ((value - 8 / 100) / (23 / 10) * 29 + 3))
      in (x, 36 - y))"

definition chartPoints :: "int \<Rightarrow> (real \<times> real) list" where
  "chartPoints stp = map (chart_point stp) [0..<28]"

fun phaseLabel :: "SimulationPhase \<Rightarrow> string" where
  "phaseLabel Idle = ''READY''"
| "phaseLabel Running = ''RUNNING''"
| "phaseLabel Failed = ''FAILED''"
| "phaseLabel Recovering = ''RECOVERING''"
| "phaseLabel Recovered = ''RESUMED''"

definition pipelineIndex :: "SimulationPhase \<Rightarrow> nat" where
  "pipelineIndex p =
     (if p = Failed then 1 else if p = Recovering then 2 else if p = Recovered then 3 else 0)"

section \<open>Steps and reachable states\<close>

inductive sim_step :: "sim \<Rightarrow> sim \<Rightarrow> bool" where
  elapse: "0 \<le> d \<Longrightarrow> sim_step s (s\<lparr>clock := clock s + d\<rparr>)"
| start: "sim_step s (run_effects s (startSimulation s))"
| kill: "sim_step s (run_effects s (killSimulatedWorker w s))"
| train: "trainInterval s = Some due \<Longrightarrow> due \<le> clock s \<Longrightarrow> 0 < n \<Longrightarrow>
    sim_step s (run_effects s (train_tick n s))"
| recovery: "recoveryInterval s = Some due \<Longrightarrow> due \<le> clock s \<Longrightarrow>
    sim_step s (run_effects s (recovery_tick s))"
| timeout: "t \<in> set (timeouts s) \<Longrightarrow> fst (snd t) \<le> clock s \<Longrightarrow>
    \<forall>u\<in>set (timeouts s). fst (snd t) \<le> fst (snd u) \<Longrightarrow>
    sim_step s (run_effects s (fire_timeout t s))"

inductive sim_reachable :: "sim \<Rightarrow> bool" where
  init: "sim_reachable (sim_init now)"
| step: "sim_reachable s \<Longrightarrow> sim_step s t \<Longrightarrow> sim_reachable t"

section \<open>The buffers of the page\<close>

interpretation timeline_buffer: bounded_buffer push_timeline 18
  by unfold_locales (simp_all add: push_timeline_def slice_simps)

interpretation log_buffer: bounded_buffer push_log 14
  by unfold_locales (simp_all add: push_log_def slice_simps)

section \<open>The invariant\<close>

definition checkpoints_ok :: "SimulatedCheckpoint list \<Rightarrow> int \<Rightarrow> bool" where
  "checkpoints_ok cs l =
     (sorted_wrt (<) (map sk_step cs)
      \<and> (\<forall>c\<in>set cs. 50 \<le> sk_step c \<and> 50 dvd sk_step c \<and> c = mk_checkpoint (sk_step c))
      \<and> l = (case last_or_null cs of None \<Rightarrow> 0 | Some c \<Rightarrow> sk_step c))"

text \<open>The counter, the checkpoints and the refs that remember the last log and checkpoint.\<close>

definition inv_training :: "sim \<Rightarrow> bool" where
  "inv_training s =
     (0 \<le> step s \<and> 5 dvd step s
      \<and> lastCheckpointRef s = step s div 50 * 50
      \<and> step s div 25 * 25 \<le> lastLogStepRef s
      \<and> checkpoints_ok (checkpoints s) (lastCheckpointRef s)
      \<and> (phase s = Idle \<longrightarrow> step s = 0))"

text \<open>The capped buffers and the identifiers that are the keys of the timeline.\<close>

definition inv_buffers :: "sim \<Rightarrow> bool" where
  "inv_buffers s =
     (length (timeline s) \<le> 18 \<and> length (logs s) \<le> 14
      \<and> sorted_wrt (<) (map te_id (timeline s))
      \<and> (\<forall>e\<in>set (timeline s). te_id e < nextEventIdRef s))"

text \<open>Which timers are pending in which phase.\<close>

definition inv_timers :: "sim \<Rightarrow> bool" where
  "inv_timers s =
     ((trainInterval s \<noteq> None \<longleftrightarrow> isTraining s)
      \<and> (recoveryInterval s \<noteq> None \<longleftrightarrow> phase s = Failed \<or> phase s = Recovering)
      \<and> fst ` set (timeouts s) \<subseteq> set (recoveryTimersRef s)
      \<and> (case phase s of
           Failed \<Rightarrow> \<exists>h t. t \<le> clock s \<and>
             timeouts s = [(h, t + 900, LoadCheckpoint (lastCheckpointRef s)),
                           (h + 1, t + 3200, ResumeFrom (lastCheckpointRef s))]
         | Recovering \<Rightarrow> \<exists>h t. t + 900 \<le> clock s \<and>
             timeouts s = [(h, t + 3200, ResumeFrom (lastCheckpointRef s))]
         | _ \<Rightarrow> timeouts s = []))"

text \<open>What is known about the failure that was simulated.\<close>

definition inv_failure :: "sim \<Rightarrow> bool" where
  "inv_failure s =
     (case phase s of
        Failed \<Rightarrow> checkpoints s \<noteq> [] \<and> killStep s = Some (step s) \<and> killedWorker s \<noteq> None
      | Recovering \<Rightarrow> checkpoints s \<noteq> [] \<and> killStep s = Some (step s) \<and> killedWorker s \<noteq> None
      | Recovered \<Rightarrow> killedWorker s \<noteq> None \<and>
          (\<exists>k r. killStep s = Some k \<and> restoredStep s = Some r \<and> r \<le> k \<and> k < r + 50 \<and> r \<le> step s
             \<and> r \<in> sk_step ` set (checkpoints s))
      | _ \<Rightarrow> killStep s = None \<and> restoredStep s = None \<and> killedWorker s = None)"

definition sim_inv :: "sim \<Rightarrow> bool" where
  "sim_inv s \<longleftrightarrow> inv_training s \<and> inv_buffers s \<and> inv_timers s \<and> inv_failure s"

section \<open>Frame lemmas\<close>

lemma addEvent_fields [simp]:
  "phase (addEvent l ty s) = phase s" "step (addEvent l ty s) = step s"
  "checkpoints (addEvent l ty s) = checkpoints s" "logs (addEvent l ty s) = logs s"
  "killedWorker (addEvent l ty s) = killedWorker s" "killStep (addEvent l ty s) = killStep s"
  "restoredStep (addEvent l ty s) = restoredStep s"
  "lastCheckpointRef (addEvent l ty s) = lastCheckpointRef s"
  "lastLogStepRef (addEvent l ty s) = lastLogStepRef s"
  "recoveryTimersRef (addEvent l ty s) = recoveryTimersRef s"
  "timeouts (addEvent l ty s) = timeouts s" "clock (addEvent l ty s) = clock s"
  "nextHandle (addEvent l ty s) = nextHandle s"
  "trainInterval (addEvent l ty s) = trainInterval s"
  "recoveryInterval (addEvent l ty s) = recoveryInterval s"
  by (simp_all add: addEvent_def)

lemma addLog_fields [simp]:
  "phase (addLog l s) = phase s" "step (addLog l s) = step s"
  "checkpoints (addLog l s) = checkpoints s" "timeline (addLog l s) = timeline s"
  "killedWorker (addLog l s) = killedWorker s" "killStep (addLog l s) = killStep s"
  "restoredStep (addLog l s) = restoredStep s"
  "lastCheckpointRef (addLog l s) = lastCheckpointRef s"
  "lastLogStepRef (addLog l s) = lastLogStepRef s"
  "nextEventIdRef (addLog l s) = nextEventIdRef s"
  "recoveryTimersRef (addLog l s) = recoveryTimersRef s"
  "timeouts (addLog l s) = timeouts s" "clock (addLog l s) = clock s"
  "nextHandle (addLog l s) = nextHandle s"
  "trainInterval (addLog l s) = trainInterval s"
  "recoveryInterval (addLog l s) = recoveryInterval s"
  by (simp_all add: addLog_def)

text \<open>The training effect leaves everything but the buffers and the checkpoint refs alone.\<close>

lemma training_effect_fields [simp]:
  "phase (training_effect s) = phase s" "step (training_effect s) = step s"
  "killedWorker (training_effect s) = killedWorker s" "killStep (training_effect s) = killStep s"
  "restoredStep (training_effect s) = restoredStep s"
  "recoveryTimersRef (training_effect s) = recoveryTimersRef s"
  "timeouts (training_effect s) = timeouts s" "clock (training_effect s) = clock s"
  "nextHandle (training_effect s) = nextHandle s"
  "trainInterval (training_effect s) = trainInterval s"
  "recoveryInterval (training_effect s) = recoveryInterval s"
  by (simp_all add: training_effect_def checkpoint_effect_def log_effect_def Let_def)

lemma isTraining_simps [simp]:
  "isTraining (training_effect s) = isTraining s" "isTraining (train_interval_effect s) = isTraining s"
  by (simp_all add: isTraining_def train_interval_effect_def)

lemma run_effects_fields [simp]:
  "phase (run_effects old s) = phase s" "step (run_effects old s) = step s"
  "killedWorker (run_effects old s) = killedWorker s" "killStep (run_effects old s) = killStep s"
  "restoredStep (run_effects old s) = restoredStep s"
  "recoveryTimersRef (run_effects old s) = recoveryTimersRef s"
  "timeouts (run_effects old s) = timeouts s" "clock (run_effects old s) = clock s"
  "nextHandle (run_effects old s) = nextHandle s"
  by (simp_all add: run_effects_def Let_def train_interval_effect_def recovery_interval_effect_def)

text \<open>Registering an interval does not touch what the other effects read.\<close>

lemma run_effects_intervals [simp]:
  "trainInterval (run_effects old s) =
     (if isTraining old \<noteq> isTraining s then if isTraining s then Some (clock s + 250) else None
      else trainInterval s)"
  "recoveryInterval (run_effects old s) =
     (if phase old \<noteq> phase s
      then if phase s \<noteq> Failed \<and> phase s \<noteq> Recovering then None else Some (clock s + 100)
      else recoveryInterval s)"
  by (simp_all add: run_effects_def Let_def train_interval_effect_def recovery_interval_effect_def)

lemma log_effect_interval: "log_effect (s\<lparr>trainInterval := x\<rparr>) = (log_effect s)\<lparr>trainInterval := x\<rparr>"
  by (cases "lastLogStepRef s < step s div 25 * 25") (simp_all add: log_effect_def Let_def addLog_def)

lemma checkpoint_effect_interval:
  "checkpoint_effect (s\<lparr>trainInterval := x\<rparr>) = (checkpoint_effect s)\<lparr>trainInterval := x\<rparr>"
  by (cases "50 \<le> step s div 50 * 50 \<and> lastCheckpointRef s < step s div 50 * 50")
    (auto simp: checkpoint_effect_def Let_def addLog_def addEvent_def)

lemma training_effect_interval [simp]:
  "training_effect (s\<lparr>trainInterval := x\<rparr>) = (training_effect s)\<lparr>trainInterval := x\<rparr>"
  by (simp add: training_effect_def isTraining_def log_effect_interval checkpoint_effect_interval)

lemma run_effects_training:
  "checkpoints (run_effects old s) =
     checkpoints (if isTraining old \<noteq> isTraining s \<or> step old \<noteq> step s then training_effect s else s)"
  "lastCheckpointRef (run_effects old s) =
     lastCheckpointRef (if isTraining old \<noteq> isTraining s \<or> step old \<noteq> step s then training_effect s else s)"
  "lastLogStepRef (run_effects old s) =
     lastLogStepRef (if isTraining old \<noteq> isTraining s \<or> step old \<noteq> step s then training_effect s else s)"
  "timeline (run_effects old s) =
     timeline (if isTraining old \<noteq> isTraining s \<or> step old \<noteq> step s then training_effect s else s)"
  "logs (run_effects old s) =
     logs (if isTraining old \<noteq> isTraining s \<or> step old \<noteq> step s then training_effect s else s)"
  "nextEventIdRef (run_effects old s) =
     nextEventIdRef (if isTraining old \<noteq> isTraining s \<or> step old \<noteq> step s then training_effect s else s)"
  by (simp_all add: run_effects_def Let_def train_interval_effect_def recovery_interval_effect_def)

text \<open>What the training effect does to the checkpoint list and the refs.\<close>

lemma training_effect_checkpoints:
  "isTraining s \<Longrightarrow> step s \<noteq> 0 \<Longrightarrow>
   checkpoints (training_effect s) =
     (if 50 \<le> step s div 50 * 50 \<and> lastCheckpointRef s < step s div 50 * 50
      then checkpoints s @ [mk_checkpoint (step s div 50 * 50)] else checkpoints s)"
  "isTraining s \<Longrightarrow> step s \<noteq> 0 \<Longrightarrow>
   lastCheckpointRef (training_effect s) =
     (if 50 \<le> step s div 50 * 50 \<and> lastCheckpointRef s < step s div 50 * 50
      then step s div 50 * 50 else lastCheckpointRef s)"
  "isTraining s \<Longrightarrow> step s \<noteq> 0 \<Longrightarrow>
   lastLogStepRef (training_effect s) = max (lastLogStepRef s) (step s div 25 * 25)"
  by (simp_all add: training_effect_def checkpoint_effect_def log_effect_def Let_def max_def)

lemma training_effect_idle [simp]: "\<not> isTraining s \<or> step s = 0 \<Longrightarrow> training_effect s = s"
  by (auto simp: training_effect_def)

section \<open>Every step preserves the invariant\<close>

lemma inv_buffers_addEvent [simp]: "inv_buffers s \<Longrightarrow> inv_buffers (addEvent l ty s)"
proof -
  assume inv: "inv_buffers s"
  let ?e = "\<lparr>te_id = nextEventIdRef s, te_time = max 0 (clock s - startTimeRef s), te_label = l, te_type = ty\<rparr>"
  have "sorted_wrt (\<lambda>a b. te_id a < te_id b) (push_timeline (timeline s) ?e)"
    using inv by (intro timeline_buffer.sorted_wrt_push) (auto simp: inv_buffers_def sorted_wrt_map)
  with inv timeline_buffer.length_push_le [of "timeline s" ?e] timeline_buffer.set_push [of "timeline s" ?e]
  show ?thesis
    by (fastforce simp: inv_buffers_def addEvent_def sorted_wrt_map)
qed

lemma inv_buffers_addLog [simp]: "inv_buffers s \<Longrightarrow> inv_buffers (addLog l s)"
  using log_buffer.length_push_le by (simp add: inv_buffers_def addLog_def)

lemma inv_buffers_cong:
  "timeline s = timeline t \<Longrightarrow> logs s = logs t \<Longrightarrow> nextEventIdRef s = nextEventIdRef t \<Longrightarrow>
   inv_buffers s = inv_buffers t"
  by (simp add: inv_buffers_def)

lemma inv_buffers_update [simp]:
  "inv_buffers (s\<lparr>timeouts := a\<rparr>) = inv_buffers s" "inv_buffers (s\<lparr>nextHandle := b\<rparr>) = inv_buffers s"
  "inv_buffers (s\<lparr>recoveryTimersRef := c\<rparr>) = inv_buffers s" "inv_buffers (s\<lparr>phase := d\<rparr>) = inv_buffers s"
  "inv_buffers (s\<lparr>step := e\<rparr>) = inv_buffers s" "inv_buffers (s\<lparr>killedWorker := f\<rparr>) = inv_buffers s"
  "inv_buffers (s\<lparr>killStep := g\<rparr>) = inv_buffers s" "inv_buffers (s\<lparr>restoredStep := h\<rparr>) = inv_buffers s"
  "inv_buffers (s\<lparr>recoverySeconds := i\<rparr>) = inv_buffers s" "inv_buffers (s\<lparr>clock := j\<rparr>) = inv_buffers s"
  "inv_buffers (s\<lparr>trainInterval := k\<rparr>) = inv_buffers s"
  "inv_buffers (s\<lparr>recoveryInterval := l\<rparr>) = inv_buffers s"
  "inv_buffers (s\<lparr>lastLogStepRef := m\<rparr>) = inv_buffers s"
  "inv_buffers (s\<lparr>lastCheckpointRef := n\<rparr>) = inv_buffers s"
  "inv_buffers (s\<lparr>checkpoints := q\<rparr>) = inv_buffers s"
  "inv_buffers (clearRecoveryTimers s) = inv_buffers s"
  by (simp_all add: inv_buffers_def clearRecoveryTimers_def)

lemma inv_buffers_training_effect [simp]: "inv_buffers s \<Longrightarrow> inv_buffers (training_effect s)"
  by (simp add: training_effect_def log_effect_def checkpoint_effect_def Let_def)

lemma inv_buffers_run_effects [simp]: "inv_buffers s \<Longrightarrow> inv_buffers (run_effects old s)"
proof -
  assume inv: "inv_buffers s"
  have "inv_buffers (run_effects old s) =
     inv_buffers (if isTraining old \<noteq> isTraining s \<or> step old \<noteq> step s then training_effect s else s)"
    by (rule inv_buffers_cong) (simp_all add: run_effects_training)
  with inv show ?thesis by simp
qed

lemma inv_training_run_effects:
  "inv_training (run_effects old s) =
     inv_training (if isTraining old \<noteq> isTraining s \<or> step old \<noteq> step s then training_effect s else s)"
  by (simp add: inv_training_def run_effects_training)

lemma checkpoints_ok_le:
  "checkpoints_ok cs l \<Longrightarrow> 0 \<le> l \<and> 50 dvd l \<and> (\<forall>c\<in>set cs. sk_step c \<le> l)"
proof (cases cs rule: rev_cases)
  case (snoc ds d)
  moreover assume "checkpoints_ok cs l"
  ultimately show ?thesis by (auto simp: checkpoints_ok_def sorted_wrt_append)
qed (simp add: checkpoints_ok_def last_or_null_def)

lemma checkpoints_ok_snoc:
  "checkpoints_ok cs l \<Longrightarrow> 50 \<le> c \<Longrightarrow> 50 dvd c \<Longrightarrow> l < c \<Longrightarrow>
   checkpoints_ok (cs @ [mk_checkpoint c]) c"
  using checkpoints_ok_le [of cs l]
  by (auto simp: checkpoints_ok_def sorted_wrt_append mk_checkpoint_def)

text \<open>The heart of the invariant: after the effect the last checkpoint is the one due.\<close>

lemma inv_training_training_effect:
  assumes "isTraining s" "step s \<noteq> 0" "0 \<le> step s" "5 dvd step s"
    and ok: "checkpoints_ok (checkpoints s) (lastCheckpointRef s)"
    and le: "lastCheckpointRef s \<le> step s div 50 * 50"
  shows "inv_training (training_effect s)"
proof -
  let ?c = "step s div 50 * 50"
  have idle: "phase s \<noteq> Idle" using assms(1) by (auto simp: isTraining_def)
  show ?thesis
  proof (cases "50 \<le> ?c \<and> lastCheckpointRef s < ?c")
    case True
    then have "checkpoints_ok (checkpoints s @ [mk_checkpoint ?c]) ?c"
      by (intro checkpoints_ok_snoc [OF ok]) simp_all
    with True assms(1-4) idle show ?thesis by (simp add: inv_training_def training_effect_checkpoints)
  next
    case False
    have "lastCheckpointRef s = ?c"
    proof (cases "50 \<le> ?c")
      case True
      with False le show ?thesis by simp
    next
      case False
      with assms(3) have "?c = 0" by simp
      with le checkpoints_ok_le [OF ok] show ?thesis by simp
    qed
    with False ok assms(1-4) idle show ?thesis by (simp add: inv_training_def training_effect_checkpoints)
  qed
qed

lemma checkpoints_training_effect: "set (checkpoints s) \<subseteq> set (checkpoints (training_effect s))"
  by (cases "isTraining s \<and> step s \<noteq> 0") (auto simp: training_effect_checkpoints)

lemma run_effects_not_training [simp]:
  "\<not> isTraining s \<Longrightarrow> checkpoints (run_effects old s) = checkpoints s"
  "\<not> isTraining s \<Longrightarrow> lastCheckpointRef (run_effects old s) = lastCheckpointRef s"
  by (simp_all add: run_effects_training)

lemma isTraining_run_effects [simp]: "isTraining (run_effects old s) = isTraining s"
  by (simp add: isTraining_def)

text \<open>Starting again from any state.\<close>

lemma startSimulation_fields [simp]:
  "phase (startSimulation s) = Running" "step (startSimulation s) = 0"
  "checkpoints (startSimulation s) = []" "lastCheckpointRef (startSimulation s) = 0"
  "lastLogStepRef (startSimulation s) = 0" "killStep (startSimulation s) = None"
  "restoredStep (startSimulation s) = None" "killedWorker (startSimulation s) = None"
  "trainInterval (startSimulation s) = trainInterval s"
  "recoveryInterval (startSimulation s) = recoveryInterval s" "clock (startSimulation s) = clock s"
  "timeouts (startSimulation s) = timeouts (clearRecoveryTimers s)" "isTraining (startSimulation s)"
  by (simp_all add: startSimulation_def clearRecoveryTimers_def isTraining_def)

text \<open>No timeout outlives the handles that the page remembers.\<close>

lemma timeouts_clearRecoveryTimers:
  "fst ` set (timeouts s) \<subseteq> set (recoveryTimersRef s) \<Longrightarrow> timeouts (clearRecoveryTimers s) = []"
  by (auto simp: clearRecoveryTimers_def filter_empty_conv)

lemma sim_inv_start: "sim_inv s \<Longrightarrow> sim_inv (run_effects s (startSimulation s))"
proof -
  assume inv: "sim_inv s"
  let ?t = "run_effects s (startSimulation s)"
  have "inv_training ?t"
    unfolding inv_training_run_effects
    by (simp add: inv_training_def checkpoints_ok_def last_or_null_def)
  moreover have "inv_buffers ?t"
    by (rule inv_buffers_run_effects) (simp add: inv_buffers_def startSimulation_def)
  moreover have "inv_timers ?t"
    using inv timeouts_clearRecoveryTimers [of s]
    by (auto simp: sim_inv_def inv_timers_def isTraining_def split: if_splits SimulationPhase.splits)
  moreover have "inv_failure ?t" by (simp add: inv_failure_def)
  ultimately show ?thesis by (simp add: sim_inv_def)
qed

text \<open>Killing a worker.\<close>

lemma killSimulatedWorker_noop:
  "phase s \<noteq> Running \<or> checkpoints s = [] \<Longrightarrow> killSimulatedWorker w s = s"
  by (auto simp: killSimulatedWorker_def)

lemma killSimulatedWorker_fields:
  assumes "phase s = Running" "checkpoints s \<noteq> []"
  shows "phase (killSimulatedWorker w s) = Failed"
    "step (killSimulatedWorker w s) = step s"
    "checkpoints (killSimulatedWorker w s) = checkpoints s"
    "lastCheckpointRef (killSimulatedWorker w s) = lastCheckpointRef s"
    "lastLogStepRef (killSimulatedWorker w s) = lastLogStepRef s"
    "killStep (killSimulatedWorker w s) = Some (step s)"
    "killedWorker (killSimulatedWorker w s) = Some w"
    "restoredStep (killSimulatedWorker w s) = None"
    "clock (killSimulatedWorker w s) = clock s"
    "timeouts (killSimulatedWorker w s) = timeouts (clearRecoveryTimers s) @
       [(nextHandle s, clock s + 900, LoadCheckpoint (sk_step (last (checkpoints s)))),
        (nextHandle s + 1, clock s + 3200, ResumeFrom (sk_step (last (checkpoints s))))]"
    "recoveryTimersRef (killSimulatedWorker w s) = [nextHandle s, nextHandle s + 1]"
  using assms
  by (simp_all add: killSimulatedWorker_def clearRecoveryTimers_def Let_def last_conv_nth)

lemma inv_buffers_kill: "inv_buffers s \<Longrightarrow> inv_buffers (killSimulatedWorker w s)"
  by (simp add: killSimulatedWorker_def Let_def)

lemma last_checkpoint_step:
  "checkpoints_ok cs l \<Longrightarrow> cs \<noteq> [] \<Longrightarrow> sk_step (last cs) = l"
  by (simp add: checkpoints_ok_def last_or_null_def)

lemma checkpoints_ok_last: "checkpoints_ok cs l \<Longrightarrow> cs \<noteq> [] \<Longrightarrow> 50 \<le> l \<and> 50 dvd l"
  by (cases cs rule: rev_cases) (simp_all add: checkpoints_ok_def)

lemma run_effects_same: "run_effects s s = s"
  by (simp add: run_effects_def)

lemma sim_inv_kill: "sim_inv s \<Longrightarrow> sim_inv (run_effects s (killSimulatedWorker w s))"
proof (cases "phase s \<noteq> Running \<or> checkpoints s = []")
  case True
  moreover assume "sim_inv s"
  ultimately show ?thesis by (simp add: killSimulatedWorker_noop run_effects_same)
next
  case False
  then have run: "phase s = Running" "checkpoints s \<noteq> []" by auto
  note fields = killSimulatedWorker_fields [OF run]
  assume inv: "sim_inv s"
  let ?k = "killSimulatedWorker w s"
  have stop: "\<not> isTraining ?k" "isTraining s" using run by (simp_all add: isTraining_def fields)
  have last: "sk_step (last (checkpoints s)) = lastCheckpointRef s"
    using inv run by (intro last_checkpoint_step) (auto simp: sim_inv_def inv_training_def)
  have "inv_training (run_effects s ?k)"
    unfolding inv_training_run_effects using inv stop
    by (auto simp: sim_inv_def inv_training_def fields)
  moreover have "inv_buffers (run_effects s ?k)"
    using inv by (simp add: sim_inv_def inv_buffers_kill)
  moreover have "inv_timers (run_effects s ?k)"
    using inv stop last timeouts_clearRecoveryTimers [of s] run
    by (auto simp: sim_inv_def inv_timers_def fields)
  moreover have "inv_failure (run_effects s ?k)"
    using stop run by (simp add: inv_failure_def fields)
  ultimately show ?thesis by (simp add: sim_inv_def)
qed

text \<open>The training interval.\<close>

lemma train_tick_fields [simp]:
  "phase (train_tick n s) = phase s" "step (train_tick n s) = step s + 5 * int n"
  "checkpoints (train_tick n s) = checkpoints s"
  "lastCheckpointRef (train_tick n s) = lastCheckpointRef s"
  "killStep (train_tick n s) = killStep s" "killedWorker (train_tick n s) = killedWorker s"
  "restoredStep (train_tick n s) = restoredStep s" "timeouts (train_tick n s) = timeouts s"
  "recoveryTimersRef (train_tick n s) = recoveryTimersRef s"
  "recoveryInterval (train_tick n s) = recoveryInterval s"
  "clock (train_tick n s) = clock s" "trainInterval (train_tick n s) = Some (clock s + 250)" "isTraining (train_tick n s) = isTraining s"
  "inv_buffers (train_tick n s) = inv_buffers s"
  by (simp_all add: train_tick_def isTraining_def)

lemma inv_failure_mono:
  "inv_failure s \<Longrightarrow> isTraining s \<Longrightarrow> phase t = phase s \<Longrightarrow> step s \<le> step t \<Longrightarrow>
   killStep t = killStep s \<Longrightarrow> killedWorker t = killedWorker s \<Longrightarrow> restoredStep t = restoredStep s \<Longrightarrow>
   set (checkpoints s) \<subseteq> set (checkpoints t) \<Longrightarrow> inv_failure t"
  by (auto simp: inv_failure_def isTraining_def) blast

lemma inv_timers_mono:
  "inv_timers s \<Longrightarrow> phase t = phase s \<Longrightarrow> trainInterval t = None \<longleftrightarrow> trainInterval s = None \<Longrightarrow>
   recoveryInterval t = None \<longleftrightarrow> recoveryInterval s = None \<Longrightarrow> timeouts t = timeouts s \<Longrightarrow>
   recoveryTimersRef t = recoveryTimersRef s \<Longrightarrow> clock s \<le> clock t \<Longrightarrow>
   isTraining s \<or> lastCheckpointRef t = lastCheckpointRef s \<Longrightarrow> inv_timers t"
  by (cases "phase s") (auto simp: inv_timers_def isTraining_def)

lemma sim_inv_train:
  assumes inv: "sim_inv s" and due: "trainInterval s = Some due" and n: "0 < n"
  shows "sim_inv (run_effects s (train_tick n s))"
proof -
  let ?t = "train_tick n s"
  have tr: "isTraining s" using inv due by (auto simp: sim_inv_def inv_timers_def)
  have "inv_training (training_effect ?t)"
    using inv tr n
    by (intro inv_training_training_effect) (auto simp: sim_inv_def inv_training_def zdiv_mono1)
  then have "inv_training (run_effects s ?t)"
    unfolding inv_training_run_effects using n by simp
  moreover have "inv_buffers (run_effects s ?t)" using inv by (simp add: sim_inv_def)
  moreover have "inv_timers (run_effects s ?t)"
    by (rule inv_timers_mono [of s]) (use inv tr due in \<open>simp_all add: sim_inv_def\<close>)
  moreover have "inv_failure (run_effects s ?t)"
    by (rule inv_failure_mono [OF _ tr])
      (use inv checkpoints_training_effect [of ?t] n in \<open>simp_all add: sim_inv_def run_effects_training\<close>)
  ultimately show ?thesis by (simp add: sim_inv_def)
qed

lemma sim_inv_recovery:
  assumes inv: "sim_inv s" and due: "recoveryInterval s = Some due"
  shows "sim_inv (run_effects s (recovery_tick s))"
proof -
  have "run_effects s (recovery_tick s) = recovery_tick s"
    by (simp add: run_effects_def recovery_tick_def isTraining_def)
  moreover have "inv_timers (recovery_tick s)"
    by (rule inv_timers_mono [of s]) (use inv due in \<open>simp_all add: sim_inv_def recovery_tick_def\<close>)
  moreover have "inv_training (recovery_tick s) = inv_training s"
    and "inv_failure (recovery_tick s) = inv_failure s" and "inv_buffers (recovery_tick s) = inv_buffers s"
    by (simp_all add: recovery_tick_def inv_training_def inv_failure_def cong: SimulationPhase.case_cong)
  ultimately show ?thesis using inv by (simp add: sim_inv_def)
qed

text \<open>The two timeouts of a recovery.\<close>

lemma fire_load_fields:
  assumes "t = (h, d, LoadCheckpoint c)"
  shows "phase (fire_timeout t s) = Recovering" "step (fire_timeout t s) = step s"
    "checkpoints (fire_timeout t s) = checkpoints s"
    "lastCheckpointRef (fire_timeout t s) = lastCheckpointRef s"
    "lastLogStepRef (fire_timeout t s) = lastLogStepRef s"
    "killStep (fire_timeout t s) = killStep s" "killedWorker (fire_timeout t s) = killedWorker s"
    "timeouts (fire_timeout t s) = remove1 t (timeouts s)"
    "recoveryTimersRef (fire_timeout t s) = recoveryTimersRef s"
    "trainInterval (fire_timeout t s) = trainInterval s" "clock (fire_timeout t s) = clock s"
  using assms by (simp_all add: fire_timeout_def)

lemma fire_resume_fields:
  assumes "t = (h, d, ResumeFrom c)"
  shows "phase (fire_timeout t s) = Recovered" "step (fire_timeout t s) = c"
    "checkpoints (fire_timeout t s) = checkpoints s"
    "lastCheckpointRef (fire_timeout t s) = lastCheckpointRef s"
    "lastLogStepRef (fire_timeout t s) = lastLogStepRef s"
    "killStep (fire_timeout t s) = killStep s" "killedWorker (fire_timeout t s) = killedWorker s"
    "restoredStep (fire_timeout t s) = Some c"
    "timeouts (fire_timeout t s) = remove1 t (timeouts s)"
    "recoveryTimersRef (fire_timeout t s) = recoveryTimersRef s"
    "clock (fire_timeout t s) = clock s"
  using assms by (simp_all add: fire_timeout_def)

lemma inv_buffers_fire: "inv_buffers s \<Longrightarrow> inv_buffers (fire_timeout t s)"
  by (cases "snd (snd t)") (simp_all add: fire_timeout_def)

lemma sim_inv_load:
  assumes inv: "sim_inv s" and ph: "phase s = Failed"
    and q: "timeouts s = [t, (h', d + 3200, ResumeFrom (lastCheckpointRef s))]"
    and t: "t = (h, d + 900, LoadCheckpoint c)" and due: "d + 900 \<le> clock s"
  shows "sim_inv (run_effects s (fire_timeout t s))"
proof -
  note fields = fire_load_fields [OF t, of s]
  have stop: "\<not> isTraining (fire_timeout t s)" "\<not> isTraining s"
    using ph by (simp_all add: isTraining_def fields)
  have "inv_training (run_effects s (fire_timeout t s))"
    unfolding inv_training_run_effects using inv stop
    by (auto simp: sim_inv_def inv_training_def fields)
  moreover have "inv_buffers (run_effects s (fire_timeout t s))"
    using inv by (simp add: sim_inv_def inv_buffers_fire)
  moreover have "inv_timers (run_effects s (fire_timeout t s))"
    using inv stop ph q due by (simp add: sim_inv_def inv_timers_def fields)
  moreover have "inv_failure (run_effects s (fire_timeout t s))"
    using inv stop ph by (simp add: sim_inv_def inv_failure_def fields)
  ultimately show ?thesis by (simp add: sim_inv_def)
qed

text \<open>
  Resuming: the counter goes back to the last checkpoint, and the training effect that runs
  because training started again takes no second checkpoint of it.
\<close>

lemma sim_inv_resume:
  assumes inv: "sim_inv s" and ph: "phase s = Recovering"
    and q: "timeouts s = [t]" and t: "t = (h, d, ResumeFrom (lastCheckpointRef s))"
  shows "sim_inv (run_effects s (fire_timeout t s))"
proof -
  note fields = fire_resume_fields [OF t, of s]
  let ?t = "fire_timeout t s"
  have tr: "isTraining ?t" "\<not> isTraining s" using ph by (simp_all add: isTraining_def fields)
  from inv ph have ok: "checkpoints_ok (checkpoints s) (lastCheckpointRef s)" and ne: "checkpoints s \<noteq> []"
    and step: "lastCheckpointRef s = step s div 50 * 50" "killStep s = Some (step s)"
    by (auto simp: sim_inv_def inv_training_def inv_failure_def)
  have last: "lastCheckpointRef s = sk_step (last (checkpoints s))"
    using last_checkpoint_step [OF ok ne] by simp
  have c: "50 \<le> lastCheckpointRef s" "50 dvd lastCheckpointRef s"
    using checkpoints_ok_last [OF ok ne] by simp_all
  then have five: "5 dvd lastCheckpointRef s" by (elim dvd_trans [rotated]) simp
  have "inv_training (training_effect ?t)"
    using tr c five ok by (intro inv_training_training_effect) (simp_all add: fields)
  then have "inv_training (run_effects s ?t)"
    unfolding inv_training_run_effects using tr by simp
  moreover have "inv_buffers (run_effects s ?t)"
    using inv by (simp add: sim_inv_def inv_buffers_fire)
  moreover have "inv_timers (run_effects s ?t)"
    using inv tr ph q by (simp add: sim_inv_def inv_timers_def fields)
  moreover have "inv_failure (run_effects s ?t)"
  proof -
    have "lastCheckpointRef s \<in> sk_step ` set (checkpoints (run_effects s ?t))"
      using last ne tr checkpoints_training_effect [of ?t] last_in_set [OF ne]
      by (simp add: run_effects_training fields image_eqI subset_iff)
    moreover have "lastCheckpointRef s \<le> step s" "step s < lastCheckpointRef s + 50"
      using step(1) by (simp_all add: minus_mod_eq_div_mult [symmetric])
    ultimately show ?thesis
      using inv ph step(2) by (simp add: sim_inv_def inv_failure_def fields)
  qed
  ultimately show ?thesis by (simp add: sim_inv_def)
qed

text \<open>
  The first of the pending timeouts is the one with the least due time, so the order in which
  they fire is the order in which they were set.
\<close>

lemma sim_inv_timeout:
  assumes inv: "sim_inv s" and t: "t \<in> set (timeouts s)" and due: "fst (snd t) \<le> clock s"
    and first: "\<forall>u\<in>set (timeouts s). fst (snd t) \<le> fst (snd u)"
  shows "sim_inv (run_effects s (fire_timeout t s))"
proof -
  have tm: "inv_timers s" using inv by (simp add: sim_inv_def)
  with t consider (failed) "phase s = Failed" | (recovering) "phase s = Recovering"
    by (cases "phase s") (auto simp: inv_timers_def)
  then show ?thesis
  proof cases
    case failed
    with tm obtain h d where q: "timeouts s = [(h, d + 900, LoadCheckpoint (lastCheckpointRef s)),
        (h + 1, d + 3200, ResumeFrom (lastCheckpointRef s))]"
      by (auto simp: inv_timers_def)
    with t first have "t = (h, d + 900, LoadCheckpoint (lastCheckpointRef s))" by auto
    with q due show ?thesis using inv failed by (intro sim_inv_load) auto
  next
    case recovering
    with tm obtain h d where "timeouts s = [(h, d + 3200, ResumeFrom (lastCheckpointRef s))]"
      by (auto simp: inv_timers_def)
    with t inv recovering show ?thesis by (intro sim_inv_resume) auto
  qed
qed

lemma sim_inv_init: "sim_inv (sim_init now)"
  by (simp add: sim_inv_def sim_init_def inv_training_def inv_buffers_def inv_timers_def inv_failure_def
      isTraining_def checkpoints_ok_def last_or_null_def)

lemma sim_inv_elapse:
  assumes "sim_inv s" and "clock s \<le> x"
  shows "sim_inv (s\<lparr>clock := x\<rparr>)"
proof -
  have "inv_timers (s\<lparr>clock := x\<rparr>)"
    by (rule inv_timers_mono [of s]) (use assms in \<open>simp_all add: sim_inv_def\<close>)
  moreover have "inv_failure (s\<lparr>clock := x\<rparr>) = inv_failure s"
    by (simp add: inv_failure_def cong: SimulationPhase.case_cong)
  moreover have "inv_training (s\<lparr>clock := x\<rparr>) = inv_training s"
    by (simp add: inv_training_def)
  ultimately show ?thesis using assms by (simp add: sim_inv_def)
qed

lemma sim_step_inv: "sim_step s t \<Longrightarrow> sim_inv s \<Longrightarrow> sim_inv t"
  by (induction rule: sim_step.induct)
    (simp_all add: sim_inv_elapse sim_inv_start sim_inv_kill sim_inv_train sim_inv_recovery sim_inv_timeout)

lemma sim_reachable_inv: "sim_reachable s \<Longrightarrow> sim_inv s"
  by (induction rule: sim_reachable.induct) (blast intro: sim_inv_init sim_step_inv)+

section \<open>The phase machine as a specification\<close>

text \<open>
  What the pipeline of the page shows: a run fails, recovers and resumes, in this order, and a
  (re)start leads back to training from anywhere.
\<close>

inductive phase_edge :: "SimulationPhase \<Rightarrow> SimulationPhase \<Rightarrow> bool" where
  edge_start: "phase_edge p Running"
| edge_kill: "phase_edge Running Failed"
| edge_detect: "phase_edge Failed Recovering"
| edge_resume: "phase_edge Recovering Recovered"

inductive_simps phase_edge_simps [simp]: "phase_edge p q"

inductive_cases sim_stepE: "sim_step s t"

lemma phase_fire_timeout:
  assumes inv: "inv_timers s" and t: "t \<in> set (timeouts s)"
    and first: "\<forall>u\<in>set (timeouts s). fst (snd t) \<le> fst (snd u)"
  shows "phase_edge (phase s) (phase (fire_timeout t s))"
proof (cases "phase s")
  case Failed
  with inv obtain h d where q: "timeouts s = [(h, d + 900, LoadCheckpoint (lastCheckpointRef s)),
      (h + 1, d + 3200, ResumeFrom (lastCheckpointRef s))]"
    by (auto simp: inv_timers_def)
  with t first have "t = (h, d + 900, LoadCheckpoint (lastCheckpointRef s))" by auto
  with Failed show ?thesis by (simp add: fire_load_fields)
next
  case Recovering
  with inv t obtain h d where "t = (h, d, ResumeFrom (lastCheckpointRef s))"
    by (auto simp: inv_timers_def)
  with Recovering show ?thesis by (simp add: fire_resume_fields)
qed (use inv t in \<open>simp_all add: inv_timers_def\<close>)

lemma sim_step_phase:
  assumes "sim_inv s" "sim_step s t"
  shows "phase t = phase s \<or> phase_edge (phase s) (phase t)"
  using assms(2)
proof cases
  case (kill w)
  then show ?thesis
    by (cases "phase s = Running \<and> checkpoints s \<noteq> []")
      (auto simp: killSimulatedWorker_fields killSimulatedWorker_noop)
next
  case (timeout t')
  with assms(1) show ?thesis using phase_fire_timeout [of s t'] by (simp add: sim_inv_def)
qed (simp_all add: recovery_tick_def)

section \<open>Progress\<close>

lemma sim_step_elapse_to: "clock s \<le> x \<Longrightarrow> sim_step s (s\<lparr>clock := x\<rparr>)"
  using sim_step.elapse [of "x - clock s" s] by simp

text \<open>The pending timeouts can always fire, the later one at most 3200 ms after the kill.\<close>

lemma recovering_resumes:
  assumes "sim_inv s" and "phase s = Recovering"
  shows "\<exists>t. sim_step\<^sup>*\<^sup>* s t \<and> phase t = Recovered \<and> step t = lastCheckpointRef s
    \<and> restoredStep t = Some (lastCheckpointRef s) \<and> killStep t = killStep s \<and> timeouts t = []
    \<and> clock t \<le> clock s + 2300"
proof -
  from assms obtain h d where d: "d + 900 \<le> clock s"
    and q: "timeouts s = [(h, d + 3200, ResumeFrom (lastCheckpointRef s))]"
    by (auto simp: sim_inv_def inv_timers_def)
  let ?u = "(h, d + 3200, ResumeFrom (lastCheckpointRef s))"
  let ?s = "s\<lparr>clock := max (clock s) (d + 3200)\<rparr>"
  have "sim_step s ?s" by (rule sim_step_elapse_to) simp
  moreover have "sim_step ?s (run_effects ?s (fire_timeout ?u ?s))"
    by (rule sim_step.timeout) (simp_all add: q)
  ultimately have "sim_step\<^sup>*\<^sup>* s (run_effects ?s (fire_timeout ?u ?s))" by simp
  with d q show ?thesis
    by (intro exI [of _ "run_effects ?s (fire_timeout ?u ?s)"]) (simp add: fire_resume_fields)
qed

lemma failed_recovers:
  assumes "sim_inv s" and "phase s = Failed"
  shows "\<exists>t. sim_step\<^sup>*\<^sup>* s t \<and> sim_inv t \<and> phase t = Recovering \<and> lastCheckpointRef t = lastCheckpointRef s
    \<and> killStep t = killStep s \<and> (\<exists>h d. d \<le> clock s
      \<and> clock t = max (clock s) (d + 900) \<and> timeouts t = [(h, d + 3200, ResumeFrom (lastCheckpointRef s))])"
proof -
  from assms obtain h d where d: "d \<le> clock s"
    and q: "timeouts s = [(h, d + 900, LoadCheckpoint (lastCheckpointRef s)),
                          (h + 1, d + 3200, ResumeFrom (lastCheckpointRef s))]"
    by (auto simp: sim_inv_def inv_timers_def)
  let ?u = "(h, d + 900, LoadCheckpoint (lastCheckpointRef s))"
  let ?s = "s\<lparr>clock := max (clock s) (d + 900)\<rparr>"
  let ?t = "run_effects ?s (fire_timeout ?u ?s)"
  have 1: "sim_step s ?s" by (rule sim_step_elapse_to) simp
  have 2: "sim_step ?s ?t" by (rule sim_step.timeout) (simp_all add: q)
  have "sim_step\<^sup>*\<^sup>* s ?t" using 1 2 by simp
  moreover have "sim_inv ?t" using assms(1) 1 2 by (blast intro: sim_step_inv)
  moreover have "\<not> isTraining (fire_timeout ?u ?s)" by (simp add: isTraining_def fire_load_fields)
  ultimately show ?thesis using d q by (intro exI [of _ ?t]) (auto simp: fire_load_fields)
qed

section \<open>A run that fails and recovers\<close>

text \<open>
  A concrete run that the witnesses evaluate: the simulation is started, reaches step 50, a
  worker is killed at step 65, and the two timeouts fire.
\<close>

definition demo_started :: sim where
  "demo_started = (let s = sim_init 0 in run_effects s (startSimulation s))"

definition demo_trained :: sim where
  "demo_trained = (let s = demo_started\<lparr>clock := 250\<rparr> in run_effects s (train_tick 13 s))"

definition demo_killed :: sim where
  "demo_killed = run_effects demo_trained (killSimulatedWorker (js ''worker-1'') demo_trained)"

definition demo_loading :: sim where
  "demo_loading =
     (let s = demo_killed\<lparr>clock := 1150\<rparr> in run_effects s (fire_timeout (1, 1150, LoadCheckpoint 50) s))"

definition demo_resumed :: sim where
  "demo_resumed =
     (let s = demo_loading\<lparr>clock := 3450\<rparr> in run_effects s (fire_timeout (2, 3450, ResumeFrom 50) s))"

lemma demo_started_facts:
  "sim_reachable demo_started" "phase demo_started = Running" "step demo_started = 0"
  "checkpoints demo_started = []" "clock demo_started = 0" "trainInterval demo_started = Some 250"
  "timeouts demo_started = []" "lastCheckpointRef demo_started = 0" "nextHandle demo_started = 1"
  "recoveryTimersRef demo_started = []"
proof -
  have "sim_step (sim_init 0) demo_started"
    unfolding demo_started_def Let_def by (rule sim_step.start)
  then show "sim_reachable demo_started" by (rule sim_reachable.step [OF sim_reachable.init])
qed (simp_all add: demo_started_def sim_init_def startSimulation_def clearRecoveryTimers_def
      run_effects_def isTraining_def train_interval_effect_def recovery_interval_effect_def Let_def)

lemma demo_trained_facts:
  "sim_reachable demo_trained" "phase demo_trained = Running" "step demo_trained = 65"
  "checkpoints demo_trained = [mk_checkpoint 50]" "clock demo_trained = 250"
  "timeouts demo_trained = []" "lastCheckpointRef demo_trained = 50" "nextHandle demo_trained = 1"
  "recoveryTimersRef demo_trained = []"
proof -
  let ?s = "demo_started\<lparr>clock := 250\<rparr>"
  have "sim_step demo_started ?s"
    using sim_step.elapse [of 250 demo_started] by (simp add: demo_started_facts)
  moreover have "sim_step ?s demo_trained"
    unfolding demo_trained_def Let_def by (rule sim_step.train [where due = 250]) (simp_all add: demo_started_facts)
  ultimately show "sim_reachable demo_trained"
    using demo_started_facts(1) by (blast intro: sim_reachable.step)
  show "checkpoints demo_trained = [mk_checkpoint 50]" "lastCheckpointRef demo_trained = 50"
    by (simp_all add: demo_trained_def Let_def run_effects_training training_effect_checkpoints
        demo_started_facts isTraining_def)
qed (simp_all add: demo_trained_def Let_def demo_started_facts train_tick_def)

lemma demo_killed_facts:
  "sim_reachable demo_killed" "phase demo_killed = Failed" "step demo_killed = 65"
  "checkpoints demo_killed = [mk_checkpoint 50]" "clock demo_killed = 250"
  "timeouts demo_killed = [(1, 1150, LoadCheckpoint 50), (2, 3450, ResumeFrom 50)]"
  "lastCheckpointRef demo_killed = 50" "killStep demo_killed = Some 65"
proof -
  have "sim_step demo_trained demo_killed" unfolding demo_killed_def by (rule sim_step.kill)
  then show "sim_reachable demo_killed" by (rule sim_reachable.step [OF demo_trained_facts(1)])
qed (simp_all add: demo_killed_def killSimulatedWorker_fields demo_trained_facts isTraining_def
      clearRecoveryTimers_def mk_checkpoint_def)

lemma demo_loading_facts:
  "sim_reachable demo_loading" "phase demo_loading = Recovering" "step demo_loading = 65"
  "checkpoints demo_loading = [mk_checkpoint 50]" "clock demo_loading = 1150"
  "timeouts demo_loading = [(2, 3450, ResumeFrom 50)]" "lastCheckpointRef demo_loading = 50"
  "killStep demo_loading = Some 65"
proof -
  have "sim_step demo_killed (demo_killed\<lparr>clock := 1150\<rparr>)"
    using sim_step.elapse [of 900 demo_killed] by (simp add: demo_killed_facts)
  moreover have "sim_step (demo_killed\<lparr>clock := 1150\<rparr>) demo_loading"
    unfolding demo_loading_def Let_def by (rule sim_step.timeout) (simp_all add: demo_killed_facts)
  ultimately show "sim_reachable demo_loading"
    using demo_killed_facts(1) by (blast intro: sim_reachable.step)
qed (simp_all add: demo_loading_def Let_def fire_load_fields demo_killed_facts isTraining_def fire_timeout_def)

lemma demo_resumed_facts:
  "sim_reachable demo_resumed" "phase demo_resumed = Recovered" "step demo_resumed = 50"
  "timeouts demo_resumed = []" "killStep demo_resumed = Some 65" "restoredStep demo_resumed = Some 50"
  "checkpoints demo_resumed = [mk_checkpoint 50]"
proof -
  have "sim_step demo_loading (demo_loading\<lparr>clock := 3450\<rparr>)"
    using sim_step.elapse [of 2300 demo_loading] by (simp add: demo_loading_facts)
  moreover have "sim_step (demo_loading\<lparr>clock := 3450\<rparr>) demo_resumed"
    unfolding demo_resumed_def Let_def by (rule sim_step.timeout) (simp_all add: demo_loading_facts)
  ultimately show "sim_reachable demo_resumed"
    using demo_loading_facts(1) by (blast intro: sim_reachable.step)
  show "checkpoints demo_resumed = [mk_checkpoint 50]"
    by (simp add: demo_resumed_def Let_def run_effects_training training_effect_checkpoints
        demo_loading_facts isTraining_def fire_resume_fields)
qed (simp_all add: demo_resumed_def Let_def fire_resume_fields demo_loading_facts)

section \<open>Properties\<close>

text \<open>
  C1. Recovery loses less than one checkpoint interval: in every reachable state that has
  recovered, the step that training resumed from is the step of a committed checkpoint, is not
  after the step of the kill, and is less than 50 steps before it.
\<close>

theorem recovery_bounded_loss:
  assumes "sim_reachable s" and "phase s = Recovered"
  shows "\<exists>k r. killStep s = Some k \<and> restoredStep s = Some r \<and> r \<in> sk_step ` set (checkpoints s)
    \<and> r \<le> k \<and> k < r + 50 \<and> r \<le> step s"
  using sim_reachable_inv [OF assms(1)] assms(2) by (auto simp: sim_inv_def inv_failure_def)

theorem recovery_bounded_loss_witness:
  "\<exists>k r. killStep demo_resumed = Some k \<and> restoredStep demo_resumed = Some r
    \<and> r \<in> sk_step ` set (checkpoints demo_resumed) \<and> r \<le> k \<and> k < r + 50 \<and> r \<le> step demo_resumed"
  by (rule recovery_bounded_loss) (simp_all add: demo_resumed_facts)

text \<open>
  C2. In every reachable state the checkpoints are at strictly increasing positive multiples of
  50, each with the size and hash of its step, and the newest one is the last multiple of 50 the
  counter has reached: no due checkpoint is missing and none is taken twice, also after training
  went back to an older step.
\<close>

theorem checkpoints_complete:
  assumes "sim_reachable s"
  shows "sorted_wrt (<) (map sk_step (checkpoints s))
    \<and> list_all (\<lambda>c. 50 \<le> sk_step c \<and> 50 dvd sk_step c \<and> c = mk_checkpoint (sk_step c)) (checkpoints s)
    \<and> (case latestCheckpoint s of None \<Rightarrow> step s < 50 | Some c \<Rightarrow> sk_step c = step s div 50 * 50)"
proof -
  have inv: "inv_training s" using sim_reachable_inv [OF assms] by (simp add: sim_inv_def)
  then have ok: "checkpoints_ok (checkpoints s) (step s div 50 * 50)" by (auto simp: inv_training_def)
  then have "case latestCheckpoint s of None \<Rightarrow> step s < 50 | Some c \<Rightarrow> sk_step c = step s div 50 * 50"
    by (auto simp: checkpoints_ok_def latestCheckpoint_def split: option.splits)
  with ok show ?thesis by (simp add: checkpoints_ok_def list_all_iff)
qed

theorem checkpoints_complete_witness:
  "sorted_wrt (<) (map sk_step (checkpoints demo_trained))
    \<and> list_all (\<lambda>c. 50 \<le> sk_step c \<and> 50 dvd sk_step c \<and> c = mk_checkpoint (sk_step c))
        (checkpoints demo_trained)
    \<and> (case latestCheckpoint demo_trained of None \<Rightarrow> step demo_trained < 50
       | Some c \<Rightarrow> sk_step c = step demo_trained div 50 * 50)"
  by (rule checkpoints_complete) (rule demo_trained_facts(1))

text \<open>
  C3. After a kill the simulation recovers: from every reachable state in which a worker has
  failed, letting the pending timeouts fire leads, within 3200 ms of simulated time, to a state
  that has resumed at the newest checkpoint, with the step of the kill still on record and no
  timeout left.
\<close>

theorem failed_run_resumes:
  assumes "sim_reachable s" and "phase s = Failed"
  shows "\<exists>t. sim_step\<^sup>*\<^sup>* s t \<and> phase t = Recovered \<and> step t = sk_step (last (checkpoints s))
    \<and> restoredStep t = Some (sk_step (last (checkpoints s))) \<and> killStep t = killStep s \<and> timeouts t = []
    \<and> clock t \<le> clock s + 3200"
proof -
  have inv: "sim_inv s" using assms(1) by (rule sim_reachable_inv)
  with assms(2) have last: "lastCheckpointRef s = sk_step (last (checkpoints s))"
    by (intro last_checkpoint_step [symmetric]) (auto simp: sim_inv_def inv_training_def inv_failure_def)
  from failed_recovers [OF inv assms(2)] obtain t where
    t: "sim_step\<^sup>*\<^sup>* s t" "sim_inv t" "phase t = Recovering" "lastCheckpointRef t = lastCheckpointRef s"
       "killStep t = killStep s" "clock t \<le> clock s + 900"
    by auto
  from recovering_resumes [OF t(2,3)] obtain u where
    u: "sim_step\<^sup>*\<^sup>* t u" "phase u = Recovered" "step u = lastCheckpointRef t"
       "restoredStep u = Some (lastCheckpointRef t)" "killStep u = killStep t" "timeouts u = []"
       "clock u \<le> clock t + 2300"
    by blast
  have "sim_step\<^sup>*\<^sup>* s u" using t(1) u(1) by simp
  with t(4-6) u(2-7) last show ?thesis by (intro exI [of _ u]) auto
qed

theorem failed_run_resumes_witness:
  "\<exists>t. sim_step\<^sup>*\<^sup>* demo_killed t \<and> phase t = Recovered \<and> step t = sk_step (last (checkpoints demo_killed))
    \<and> restoredStep t = Some (sk_step (last (checkpoints demo_killed))) \<and> killStep t = killStep demo_killed
    \<and> timeouts t = [] \<and> clock t \<le> clock demo_killed + 3200"
  by (rule failed_run_resumes) (simp_all add: demo_killed_facts)

text \<open>
  C4. A restart is clean from every reachable state, also in the middle of a recovery: the two
  timeouts of an earlier kill are cancelled, so nothing of the old run can change the new one,
  and the counter, the checkpoints, the failure and the refs start afresh.
\<close>

theorem restart_is_clean:
  assumes "sim_reachable s"
  defines "t \<equiv> run_effects s (startSimulation s)"
  shows "timeouts t = [] \<and> recoveryTimersRef t = [] \<and> phase t = Running \<and> step t = 0 \<and> checkpoints t = []
    \<and> killStep t = None \<and> restoredStep t = None \<and> killedWorker t = None \<and> lastCheckpointRef t = 0
    \<and> lastLogStepRef t = 0 \<and> recoveryInterval t = None \<and> trainInterval t \<noteq> None \<and> length (timeline t) = 1"
proof -
  have "inv_timers s" using sim_reachable_inv [OF assms(1)] by (simp add: sim_inv_def)
  moreover from this have "timeouts (clearRecoveryTimers s) = []"
    by (intro timeouts_clearRecoveryTimers) (simp add: inv_timers_def)
  moreover have "recoveryTimersRef (startSimulation s) = []" "length (timeline (startSimulation s)) = 1"
    by (simp_all add: startSimulation_def clearRecoveryTimers_def)
  ultimately show ?thesis
    by (auto simp: t_def run_effects_training inv_timers_def)
qed

theorem restart_is_clean_witness:
  "timeouts demo_killed \<noteq> [] \<and>
   timeouts (run_effects demo_killed (startSimulation demo_killed)) = [] \<and>
   checkpoints (run_effects demo_killed (startSimulation demo_killed)) = []"
  using restart_is_clean [OF demo_killed_facts(1)] by (simp add: demo_killed_facts(6))

text \<open>
  C30. The page refines the state machine it displays: every step of a reachable state, in
  whatever order clicks and timers come, either keeps the phase or follows an edge of
  \<open>phase_edge\<close> (restart to running, running to failed, failed to recovering, recovering to
  recovered), and the stale timeouts of a cancelled recovery never fire.
\<close>

theorem sim_refines_phase_machine:
  assumes "sim_reachable s" and "sim_step s t"
  shows "(phase t = phase s \<or> phase_edge (phase s) (phase t))
    \<and> (phase s = Failed \<or> phase s = Recovering \<or> timeouts s = [])"
proof -
  have inv: "sim_inv s" using assms(1) by (rule sim_reachable_inv)
  moreover have "phase s = Failed \<or> phase s = Recovering \<or> timeouts s = []"
    using inv by (cases "phase s") (simp_all add: sim_inv_def inv_timers_def)
  ultimately show ?thesis using sim_step_phase [OF _ assms(2)] by blast
qed

theorem sim_refines_phase_machine_witness:
  "(phase demo_killed = phase demo_trained \<or> phase_edge (phase demo_trained) (phase demo_killed))
   \<and> (phase demo_trained = Failed \<or> phase demo_trained = Recovering \<or> timeouts demo_trained = [])
   \<and> phase demo_killed \<noteq> phase demo_trained"
proof -
  have "sim_step demo_trained demo_killed" unfolding demo_killed_def by (rule sim_step.kill)
  with demo_trained_facts(1)
  have "(phase demo_killed = phase demo_trained \<or> phase_edge (phase demo_trained) (phase demo_killed))
   \<and> (phase demo_trained = Failed \<or> phase demo_trained = Recovering \<or> timeouts demo_trained = [])"
    by (rule sim_refines_phase_machine)
  then show ?thesis by (simp add: demo_trained_facts demo_killed_facts)
qed

text \<open>
  The handler of the kill buttons does nothing exactly when the buttons are disabled
  (\<open>canKill\<close> is false); otherwise it records the step and the worker, stops training and
  schedules the two recovery timeouts for the newest checkpoint.
\<close>

theorem kill_guard:
  "(\<not> canKill s \<longleftrightarrow> killSimulatedWorker w s = s) \<and>
   (if canKill s
    then phase (killSimulatedWorker w s) = Failed \<and> killStep (killSimulatedWorker w s) = Some (step s)
      \<and> killedWorker (killSimulatedWorker w s) = Some w \<and> checkpoints (killSimulatedWorker w s) = checkpoints s
      \<and> drop (length (timeouts (clearRecoveryTimers s))) (timeouts (killSimulatedWorker w s)) =
          [(nextHandle s, clock s + 900, LoadCheckpoint (sk_step (last (checkpoints s)))),
           (nextHandle s + 1, clock s + 3200, ResumeFrom (sk_step (last (checkpoints s))))]
    else True)"
proof (cases "canKill s")
  case True
  then have run: "phase s = Running" "checkpoints s \<noteq> []" by (auto simp: canKill_def)
  have "phase (killSimulatedWorker w s) \<noteq> phase s" by (simp add: killSimulatedWorker_fields [OF run] run)
  then have "killSimulatedWorker w s \<noteq> s" by auto
  with True show ?thesis by (simp add: killSimulatedWorker_fields [OF run])
next
  case False
  then show ?thesis by (auto simp: canKill_def killSimulatedWorker_noop)
qed

text \<open>
  In every reachable state the timeline has at most 18 entries and the log at most 14 lines,
  and the timeline's identifiers, its React keys, are pairwise distinct and increase.
\<close>

theorem timeline_keys_unique:
  assumes "sim_reachable s"
  shows "length (timeline s) \<le> 18 \<and> length (logs s) \<le> 14 \<and> distinct (map te_id (timeline s))
    \<and> sorted_wrt (<) (map te_id (timeline s))"
  using sim_reachable_inv [OF assms]
  by (auto simp: sim_inv_def inv_buffers_def intro: sorted_wrt_less_distinct)

theorem timeline_keys_unique_witness:
  "length (timeline demo_resumed) \<le> 18 \<and> length (logs demo_resumed) \<le> 14
   \<and> distinct (map te_id (timeline demo_resumed)) \<and> sorted_wrt (<) (map te_id (timeline demo_resumed))"
  by (rule timeline_keys_unique) (rule demo_resumed_facts(1))

lemma sim_loss_antimono: "m \<le> n \<Longrightarrow> sim_loss n \<le> sim_loss m"
  by (simp add: sim_loss_def divide_right_mono)

lemma chart_point_mono: "i \<le> j \<Longrightarrow> snd (chart_point n i) \<le> snd (chart_point n j)"
proof -
  assume "i \<le> j"
  then have "max 0 (n - (27 - int i) * 10) \<le> max 0 (n - (27 - int j) * 10)" by (auto simp: max_def)
  then have "sim_loss (max 0 (n - (27 - int j) * 10)) \<le> sim_loss (max 0 (n - (27 - int i) * 10))"
    by (rule sim_loss_antimono)
  then have "(sim_loss (max 0 (n - (27 - int j) * 10)) - 8 / 100) / (23 / 10) * 29 + 3
      \<le> (sim_loss (max 0 (n - (27 - int i) * 10)) - 8 / 100) / (23 / 10) * 29 + 3"
    by (simp add: divide_right_mono)
  then show ?thesis unfolding chart_point_def Let_def snd_conv by (auto simp: max_def min_def)
qed

text \<open>
  The loss chart stays inside its view box: for every step it has 28 points whose horizontal
  positions run from 0 to 100 in strictly increasing order and whose vertical positions are
  between 3 and 32, and as training goes on the plotted curve never rises (vertical positions
  grow downwards).
\<close>

theorem chart_in_view:
  "length (chartPoints n) = 28 \<and> fst (hd (chartPoints n)) = 0 \<and> fst (last (chartPoints n)) = 100
   \<and> sorted_wrt (\<lambda>p q. fst p < fst q \<and> snd p \<le> snd q) (chartPoints n)
   \<and> list_all (\<lambda>p. 3 \<le> snd p \<and> snd p \<le> 32) (chartPoints n)"
proof -
  have "fst (hd (chartPoints n)) = 0" "fst (last (chartPoints n)) = 100"
    by (simp_all add: chartPoints_def hd_map last_map chart_point_def Let_def)
  moreover have "sorted_wrt (\<lambda>p q. fst p < fst q \<and> snd p \<le> snd q) (chartPoints n)"
    unfolding chartPoints_def sorted_wrt_map
    by (rule sorted_wrt_mono_rel [OF _ sorted_wrt_upt])
      (auto simp: chart_point_mono, simp add: chart_point_def Let_def)
  ultimately show ?thesis by (simp add: chartPoints_def list_all_iff chart_point_def Let_def)
qed

end
