(* ===== verification/Vdom.thy ===== *)
theory Vdom
  imports JsText
begin

text \<open>
  What a React component returns. A node is a text or an element with its attributes and its
  children; nodes are polymorphic in the type of the actions that event handlers perform, so that
  each page lists its handlers in one datatype.

  A rendering keeps the element names, the texts, the keys of lists, the link targets, the
  \<open>disabled\<close> flags, the handlers and every part of a class name or style that depends on the
  state. Constant class names, decorative graphics, animation settings and line breaks carry no
  state and are left out. A \<open>Width\<close> is in percent. JSX joins the pieces of a text; here they are separate text children.
\<close>

named_theorems vdom_simps \<open>definitions of views\<close>

section \<open>Nodes\<close>

datatype 'a attr =
    Key jsstring
  | Cls string
  | To jsstring
  | Href string
  | Title jsstring
  | Disabled bool
  | OnClick 'a
  | OnChange "jsstring \<Rightarrow> 'a"
  | Val jsstring
  | Width real
  | Num string real
  | Prop string jsstring

datatype 'a node = Txt jsstring | Elem string "'a attr list" "'a node list"

abbreviation T :: "string \<Rightarrow> 'a node" where
  "T s \<equiv> Txt (js s)"

text \<open>\<open>{cond && <.../>}\<close>.\<close>

definition show_if :: "bool \<Rightarrow> 'a node list \<Rightarrow> 'a node list" where
  "show_if b ns = (if b then ns else [])"

text \<open>\<open>{x && ...}\<close> for a value that may be \<open>null\<close>.\<close>

definition show_some :: "'x option \<Rightarrow> ('x \<Rightarrow> 'a node list) \<Rightarrow> 'a node list" where
  "show_some x f = (case x of None \<Rightarrow> [] | Some y \<Rightarrow> f y)"

section \<open>Queries\<close>

fun subnodes :: "'a node \<Rightarrow> 'a node list" where
  "subnodes (Txt s) = [Txt s]"
| "subnodes (Elem t as ns) = Elem t as ns # concat (map subnodes ns)"

fun text_of :: "'a node \<Rightarrow> jsstring" where
  "text_of (Txt s) = s"
| "text_of (Elem t as ns) = concat (map text_of ns)"

fun is_elem :: "string \<Rightarrow> 'a node \<Rightarrow> bool" where
  "is_elem t (Txt s) = False"
| "is_elem t (Elem u as ns) = (t = u)"

fun attrs :: "'a node \<Rightarrow> 'a attr list" where
  "attrs (Txt s) = []"
| "attrs (Elem t as ns) = as"

definition attr_keys :: "'a attr list \<Rightarrow> jsstring list" where
  "attr_keys as = concat (map (\<lambda>a. case a of Key k \<Rightarrow> [k] | _ \<Rightarrow> []) as)"

definition attr_clicks :: "'a attr list \<Rightarrow> 'a list" where
  "attr_clicks as = concat (map (\<lambda>a. case a of OnClick f \<Rightarrow> [f] | _ \<Rightarrow> []) as)"

definition attr_links :: "'a attr list \<Rightarrow> jsstring list" where
  "attr_links as = concat (map (\<lambda>a. case a of To p \<Rightarrow> [p] | _ \<Rightarrow> []) as)"

definition attr_disabled :: "'a attr list \<Rightarrow> bool" where
  "attr_disabled as = list_ex (\<lambda>a. case a of Disabled b \<Rightarrow> b | _ \<Rightarrow> False) as"

text \<open>The keys of siblings, the buttons of a page with their texts, and what a click can do.\<close>

definition keys_of :: "'a node list \<Rightarrow> jsstring list" where
  "keys_of ns = concat (map (\<lambda>n. attr_keys (attrs n)) ns)"

definition all_nodes :: "'a node list \<Rightarrow> 'a node list" where
  "all_nodes ns = concat (map subnodes ns)"

definition buttons :: "'a node list \<Rightarrow> (jsstring \<times> bool \<times> 'a list) list" where
  "buttons ns =
     map (\<lambda>n. (text_of n, attr_disabled (attrs n), attr_clicks (attrs n)))
       (filter (is_elem ''button'') (all_nodes ns))"

definition clicks :: "'a node list \<Rightarrow> 'a list" where
  "clicks ns =
     concat (map (\<lambda>n. if attr_disabled (attrs n) then [] else attr_clicks (attrs n)) (all_nodes ns))"

definition links :: "'a node list \<Rightarrow> jsstring list" where
  "links ns = concat (map (\<lambda>n. attr_links (attrs n)) (all_nodes ns))"

definition page_text :: "'a node list \<Rightarrow> jsstring" where
  "page_text ns = concat (map text_of ns)"

text \<open>Siblings with keys have distinct ones, everywhere in the tree.\<close>

fun keys_ok :: "'a node \<Rightarrow> bool" where
  "keys_ok (Txt s) = True"
| "keys_ok (Elem t as ns) = (distinct (keys_of ns) \<and> list_all keys_ok ns)"

section \<open>Evaluation\<close>

lemma attr_keys_simps [simp]:
  "attr_keys [] = []"
  "attr_keys (a # as) = (case a of Key k \<Rightarrow> [k] | _ \<Rightarrow> []) @ attr_keys as"
  by (simp_all add: attr_keys_def)

lemma attr_clicks_simps [simp]:
  "attr_clicks [] = []"
  "attr_clicks (a # as) = (case a of OnClick f \<Rightarrow> [f] | _ \<Rightarrow> []) @ attr_clicks as"
  by (simp_all add: attr_clicks_def)

lemma attr_links_simps [simp]:
  "attr_links [] = []"
  "attr_links (a # as) = (case a of To p \<Rightarrow> [p] | _ \<Rightarrow> []) @ attr_links as"
  by (simp_all add: attr_links_def)

lemma attr_disabled_simps [simp]:
  "attr_disabled [] = False"
  "attr_disabled (a # as) = ((case a of Disabled b \<Rightarrow> b | _ \<Rightarrow> False) \<or> attr_disabled as)"
  by (simp_all add: attr_disabled_def)

lemma all_nodes_simps [simp]:
  "all_nodes [] = []"
  "all_nodes (n # ns) = subnodes n @ all_nodes ns"
  "all_nodes (ms @ ns) = all_nodes ms @ all_nodes ns"
  by (simp_all add: all_nodes_def)

lemma subnodes_Elem: "subnodes (Elem t as ns) = Elem t as ns # all_nodes ns"
  by (simp add: all_nodes_def)

declare subnodes.simps(2) [simp del]
declare subnodes_Elem [simp]

lemma keys_of_simps [simp]:
  "keys_of [] = []"
  "keys_of (n # ns) = attr_keys (attrs n) @ keys_of ns"
  by (simp_all add: keys_of_def)

lemma keys_of_append [simp]: "keys_of (ms @ ns) = keys_of ms @ keys_of ns"
  by (simp add: keys_of_def)

lemma buttons_append [simp]: "buttons (ms @ ns) = buttons ms @ buttons ns"
  by (simp add: buttons_def)

lemma buttons_Nil [simp]: "buttons [] = []"
  by (simp add: buttons_def)

lemma buttons_Txt [simp]: "buttons (Txt s # ns) = buttons ns"
  by (simp add: buttons_def)

lemma buttons_Elem [simp]:
  "buttons (Elem t as cs # ns) =
     (if t = ''button''
      then (text_of (Elem t as cs), attr_disabled as, attr_clicks as) # buttons cs @ buttons ns
      else buttons cs @ buttons ns)"
  by (simp add: buttons_def)

lemma clicks_simps [simp]:
  "clicks [] = []"
  "clicks (ms @ ns) = clicks ms @ clicks ns"
  "clicks (Txt s # ns) = clicks ns"
  "clicks (Elem t as cs # ns) = (if attr_disabled as then [] else attr_clicks as) @ clicks cs @ clicks ns"
  by (simp_all add: clicks_def)

lemma links_simps [simp]:
  "links [] = []"
  "links (ms @ ns) = links ms @ links ns"
  "links (Txt s # ns) = links ns"
  "links (Elem t as cs # ns) = attr_links as @ links cs @ links ns"
  by (simp_all add: links_def)

lemma page_text_simps [simp]:
  "page_text [] = []"
  "page_text (ms @ ns) = page_text ms @ page_text ns"
  "page_text (n # ns) = text_of n @ page_text ns"
  by (simp_all add: page_text_def)

lemma show_if_simps [simp]: "show_if True ns = ns" "show_if False ns = []"
  by (simp_all add: show_if_def)

lemma show_some_simps [simp]: "show_some None f = []" "show_some (Some x) f = f x"
  by (simp_all add: show_some_def)

lemma show_if_split: "P (show_if b ns) \<longleftrightarrow> (b \<longrightarrow> P ns) \<and> (\<not> b \<longrightarrow> P [])"
  by (simp add: show_if_def)

lemma buttons_map: "buttons (map f xs) = concat (map (\<lambda>x. buttons [f x]) xs)"
  by (induction xs) (simp_all, simp add: buttons_def)

lemma clicks_Cons2: "clicks (m # n # ns) = clicks [m] @ clicks (n # ns)"
  by (simp add: clicks_def)

lemma clicks_map: "clicks (map f xs) = concat (map (\<lambda>x. clicks [f x]) xs)"
  by (induction xs) (simp_all, simp add: clicks_def)

section \<open>Lists of keyed elements\<close>

text \<open>
  React identifies the elements of a list by their keys, which have to be distinct. The contract
  of a function that renders one list item: it carries the key it is given.
\<close>

locale keyed_list =
  fixes item :: "'x \<Rightarrow> 'a node"
    and key :: "'x \<Rightarrow> jsstring"
  assumes item_key: "attr_keys (attrs (item x)) = [key x]"
begin

lemma keys_of_items: "keys_of (map item xs) = map key xs"
  by (induction xs) (simp_all add: item_key)

lemma keys_distinct: "distinct (keys_of (map item xs)) \<longleftrightarrow> distinct (map key xs)"
  by (simp add: keys_of_items)

lemma keys_distinct_inj: "distinct xs \<Longrightarrow> inj_on key (set xs) \<Longrightarrow> distinct (keys_of (map item xs))"
  by (simp add: keys_of_items distinct_map)

end

end
