(* ===== verification/DemoView.thy ===== *)
theory DemoView
  imports Simulation Vdom
begin

text \<open>
  What the simulation page shows (the JSX of \<open>frontend/src/pages/DemoPage.tsx\<close>) as a function of the
  state of theory \<open>Simulation\<close>: the pipeline, the stage cards, the worker cards with their kill
  buttons, banners, metrics, timeline, checkpoint list and log.
\<close>

section \<open>Pipeline and stage cards\<close>

fun EVENT_COLORS :: "EventType \<Rightarrow> string" where
  "EVENT_COLORS Info = ''border-l-info bg-info-muted text-info''"
| "EVENT_COLORS Success = ''border-l-ok bg-ok-muted text-ok''"
| "EVENT_COLORS Warning = ''border-l-warn bg-warn-muted text-warn''"
| "EVENT_COLORS Error = ''border-l-err bg-err-muted text-err''"

definition PIPELINE :: "(string \<times> string) list" where
  "PIPELINE =
     [(''RUNNING'', ''training''), (''FAILED'', ''timeout''), (''RECOVERING'', ''load save''), (''RESUMED'', ''continue'')]"

text \<open>The two words of a stage's colour.\<close>

definition stage_color :: "nat \<Rightarrow> string \<times> string" where
  "stage_color index =
     (if index = 1 then (''bg-err'', ''text-err'')
      else if index = 2 then (''bg-recover'', ''text-recover'') else (''bg-ok'', ''text-ok''))"

definition check_mark :: jsstring where "check_mark = [Uni 10003]"

definition pipeline_stage :: "nat \<Rightarrow> nat \<times> string \<times> string \<Rightarrow> 'a node" where
  "pipeline_stage activeIndex = (\<lambda>(index, label, detail).
     let isActive = (index = activeIndex); isPast = (index < activeIndex); color = stage_color index
     in Elem ''div'' [Key (js label)]
          (Elem ''div'' []
             [Elem ''div''
                [Cls (if isActive then fst color @ '' text-surface-0 ring-4 ring-current/20''
                      else if isPast then fst color @ ''/25 '' @ snd color
                      else ''bg-surface-3 text-txt-3'')]
                [if isPast then Txt check_mark else Elem ''span'' [] []],
              Elem ''span'' [Cls (if isActive then snd color else ''text-txt-3'')] [T label],
              Elem ''span'' [] [T detail]]
           # show_if (index < length PIPELINE - 1)
               [Elem ''div'' [Cls (if index < activeIndex then ''bg-ok'' else ''bg-surface-3'')] []]))"

definition SimulationPipeline :: "SimulationPhase \<Rightarrow> 'a node" where
  "SimulationPipeline p =
     Elem ''div'' []
       [Elem ''div'' []
          [Elem ''div'' []
             [Elem ''p'' [] [T ''Simulated state machine''],
              Elem ''p'' [] [T ''These transitions happen in this browser tab only.'']],
           Elem ''span'' [] [T ''simulation'']],
        Elem ''div'' [] (map (pipeline_stage (pipelineIndex p)) (zip [0..<length PIPELINE] PIPELINE))]"

datatype stage_status = Waiting | Active | Complete

fun status_text :: "stage_status \<Rightarrow> string" where
  "status_text Waiting = ''waiting''"
| "status_text Active = ''active''"
| "status_text Complete = ''complete''"

datatype stage_tone = TOk | TErr | TRecover

fun toneClasses :: "stage_tone \<Rightarrow> string" where
  "toneClasses TOk = ''bg-ok-muted text-ok border-ok/30''"
| "toneClasses TErr = ''bg-err-muted text-err border-err/30''"
| "toneClasses TRecover = ''bg-recover-muted text-recover border-recover/30''"

definition StageCard :: "nat \<Rightarrow> string \<Rightarrow> string \<Rightarrow> stage_status \<Rightarrow> stage_tone \<Rightarrow> 'a node" where
  "StageCard number title description status tone =
     Elem ''div'' [Cls (if status = Active then toneClasses tone else ''border-line'')]
       [Elem ''div'' []
          [Elem ''div'' [Cls (toneClasses tone)]
             [if status = Complete then Txt check_mark else Txt (nat_str number)],
           Elem ''div'' []
             [Elem ''div'' []
                [Elem ''h3'' [] [T title],
                 Elem ''span''
                   [Cls (if status = Active then split_on (CHR '' '') (toneClasses tone) ! 1 else ''text-txt-3'')]
                   [T (status_text status)]],
              Elem ''p'' [] [T description]]]]"

text \<open>The status of the three cards.\<close>

definition stage_statuses :: "sim \<Rightarrow> stage_status list" where
  "stage_statuses s =
     [if phase s = Idle then Active else Complete,
      if \<not> hasStarted s then Waiting else if hasFailed s then Complete else Active,
      if hasRecovered s then Complete
      else if phase s = Failed \<or> phase s = Recovering then Active else Waiting]"

definition stage_cards :: "sim \<Rightarrow> 'a node" where
  "stage_cards s =
     Elem ''section'' []
       [StageCard 1 ''Start a simulated run''
          ''Two browser-only workers advance training and create pretend checkpoint records.''
          (stage_statuses s ! 0) TOk,
        StageCard 2 ''Kill a simulated worker''
          ''The button changes local page state. It does not send a command to any server.''
          (stage_statuses s ! 1) TErr,
        StageCard 3 ''Watch simulated recovery''
          ''The demo restores the last save point and continues the simulated training counter.''
          (stage_statuses s ! 2) TRecover]"

section \<open>Workers\<close>

datatype demo_action = StartSimulation | KillSimulatedWorker jsstring

definition sim_workers :: "jsstring list" where
  "sim_workers = [js ''sim-worker-0'', js ''sim-worker-1'']"

definition recovering_phase :: "sim \<Rightarrow> bool" where
  "recovering_phase s = (phase s = Failed \<or> phase s = Recovering)"

definition displayedStep :: "jsstring \<Rightarrow> sim \<Rightarrow> int" where
  "displayedStep worker s =
     (let isKilled = (killedWorker s = Some worker \<and> recovering_phase s);
          isPaused = (killedWorker s \<noteq> Some worker \<and> recovering_phase s)
      in if isKilled \<or> isPaused then (case killStep s of Some k \<Rightarrow> k | None \<Rightarrow> step s) else step s)"

definition em_dash :: jsstring where "em_dash = js '' '' @ [Uni 8212] @ js '' ''"

definition kill_label :: "nat \<Rightarrow> jsstring \<Rightarrow> sim \<Rightarrow> jsstring" where
  "kill_label index worker s =
     (let isKilled = (killedWorker s = Some worker \<and> recovering_phase s);
          isPaused = (killedWorker s \<noteq> Some worker \<and> recovering_phase s)
      in if isKilled then js ''Simulated Worker '' @ nat_str index @ js '' Stopped''
         else if isPaused then js ''Worker '' @ nat_str index @ js '' Paused for Recovery''
         else if canKill s then js ''Kill Simulated Worker '' @ nat_str index
         else if phase s = Recovered
         then js ''Worker '' @ nat_str index @ js '' Recovered'' @ em_dash @ js ''Restart to Run Again''
         else js ''Worker '' @ nat_str index @ js '' Waiting for First Save Point'')"

definition sim_worker_card :: "sim \<Rightarrow> nat \<times> jsstring \<Rightarrow> demo_action node" where
  "sim_worker_card s = (\<lambda>(index, worker).
     let isKilled = (killedWorker s = Some worker \<and> recovering_phase s);
         isPaused = (killedWorker s \<noteq> Some worker \<and> recovering_phase s)
     in Elem ''div''
          [Key worker,
           Cls (if isKilled then ''border-err/30 bg-err-muted/10''
                else if isPaused then ''border-recover/30 bg-recover-muted/10'' else [])]
          [Elem ''div'' []
             [Elem ''div'' []
                [Elem ''span'' [Cls (if isKilled then ''bg-err'' else if isPaused then ''bg-recover animate-pulse motion-reduce:animate-none''
                                     else ''bg-ok animate-pulse motion-reduce:animate-none'')] [],
                 Elem ''div'' [] [Elem ''p'' [] [T ''Worker '', Txt (nat_str index)], Elem ''p'' [] [Txt worker]]],
              Elem ''span'' [] [T ''Step '', Txt (int_str (displayedStep worker s))]],
           Elem ''button''
             [OnClick (KillSimulatedWorker worker), Disabled (\<not> canKill s),
              Cls (if canKill s then ''bg-err/15 text-err hover:bg-err/25 border-err/30 cursor-pointer''
                   else if isKilled then ''bg-err-muted text-err border-err/20 cursor-not-allowed''
                   else if isPaused then ''bg-recover-muted text-recover border-recover/20 cursor-not-allowed''
                   else ''bg-surface-3 text-txt-3 border-line cursor-not-allowed'')]
             [Txt (kill_label index worker s)],
           Elem ''p'' [] [Txt (js ''Browser interaction only'' @ em_dash @ js ''no backend command'')]])"

definition workers_card :: "sim \<Rightarrow> demo_action node" where
  "workers_card s =
     Elem ''div'' []
       [Elem ''div'' []
          [Elem ''div'' []
             [Elem ''div'' []
                [Elem ''h3'' [] [T ''Simulated training workers''], Elem ''span'' [] [T ''not real servers'']],
              Elem ''p'' [] [T ''Wait for the first simulated save point, then stop either worker.'']],
           Elem ''span''
             [Cls (if phase s = Failed then ''text-err'' else if phase s = Recovering then ''text-recover'' else ''text-ok'')]
             [T (phaseLabel (phase s))]],
        Elem ''div'' [] (map (sim_worker_card s) (zip [0..<length sim_workers] sim_workers))]"

section \<open>Banners and metrics\<close>

definition failure_banner :: "sim \<Rightarrow> demo_action node list" where
  "failure_banner s =
     show_if (phase s = Failed \<or> phase s = Recovering)
       [Elem ''div''
          [Cls (if phase s = Failed then ''border-err/30 bg-err-muted/10'' else ''border-recover/30 bg-recover-muted/10'')]
          [Elem ''p'' [Prop ''role'' (js ''status''), Cls (if phase s = Failed then ''text-err'' else ''text-recover'')]
             [if phase s = Failed then T ''Simulated failure detected''
              else T ''Simulated checkpoint recovery in progress''],
           Elem ''p'' []
             [Txt (if phase s = Failed then js ''The browser is waiting for the pretend heartbeat timeout.''
                   else js ''Restoring step ''
                     @ int_str (case latestCheckpoint s of None \<Rightarrow> 0 | Some c \<Rightarrow> sk_step c)
                     @ js '' from the last simulated save point.''),
              T '' Elapsed: '', Txt (toFixed 1 (recoverySeconds s)), T ''s'']]]"

text \<open>\<open>{x}\<close> of a number or \<open>null\<close>.\<close>

definition num_or_null :: "int option \<Rightarrow> jsstring" where
  "num_or_null x = (case x of None \<Rightarrow> [] | Some n \<Rightarrow> int_str n)"

definition recovered_banner :: "sim \<Rightarrow> demo_action node list" where
  "recovered_banner s =
     show_if (hasRecovered s)
       [Elem ''div'' []
          [Elem ''div'' []
             [Elem ''div'' [] [Txt check_mark],
              Elem ''div'' []
                [Elem ''h3'' [] [T ''Simulation recovered successfully''],
                 Elem ''p'' []
                   [T ''The counter was restored from step '', Txt (num_or_null (restoredStep s)),
                    T '' after the simulated interruption at step '', Txt (num_or_null (killStep s)),
                    T ''. Training is continuing in this tab. This demonstrates the interface flow; it is not proof of a live backend recovery.'']]]]]"

definition metric_rows :: "sim \<Rightarrow> (string \<times> jsstring \<times> string) list" where
  "metric_rows s =
     [(''Training Step'', int_str (step s), ''Simulated counter''),
      (''Checkpoints'', nat_str (length (checkpoints s)), ''Simulated save points''),
      (''Current Loss'', currentLoss s, ''Deterministic browser value''),
      (''Active Workers'',
       if phase s = Failed then js ''0/2'' else if phase s = Recovering then js ''0/2'' else js ''2/2'',
       ''Simulated workers'')]"

definition metrics_grid :: "sim \<Rightarrow> demo_action node" where
  "metrics_grid s =
     Elem ''div'' []
       (map (\<lambda>(label, value, hint).
          Elem ''div'' [Key (js label)]
            [Elem ''p'' [] [T label], Elem ''p'' [] [Txt value], Elem ''p'' [] [T hint]]) (metric_rows s))"

section \<open>Chart, timeline, storage and log\<close>

definition loss_panel :: "sim \<Rightarrow> demo_action node" where
  "loss_panel s =
     Elem ''div'' []
       [Elem ''div'' []
          [Elem ''div'' []
             [Elem ''h3'' [] [T ''Simulated training loss''],
              Elem ''p'' [] [T ''A deterministic illustration, not measured telemetry.'']],
           Elem ''span'' [] [Txt (currentLoss s)]],
        Elem ''div'' []
          [Elem ''svg'' [Prop ''viewBox'' (js ''0 0 100 36'')]
             [Elem ''path'' [] [],
              Elem ''polyline'' (concat (map (\<lambda>(x, y). [Num ''x'' x, Num ''y'' y]) (chartPoints (step s)))) []]]]"

definition timeline_entry :: "TimelineEvent \<Rightarrow> demo_action node" where
  "timeline_entry event =
     Elem ''div'' [Key (int_str (te_id event)), Cls (EVENT_COLORS (te_type event))]
       [Elem ''span'' [] [T ''+'', Txt (toFixed 1 (real_of_int (te_time event) / 1000)), T ''s''],
        Elem ''span'' [] [Txt (te_label event)]]"

definition timeline_panel :: "sim \<Rightarrow> demo_action node" where
  "timeline_panel s =
     Elem ''div'' []
       [Elem ''h3'' [] [T ''Simulated event timeline''],
        Elem ''p'' [] [T ''Every entry is generated by the page, not a server.''],
        Elem ''div'' [] (map timeline_entry (timeline s))]"

definition boundary_row :: "string \<Rightarrow> demo_action node \<Rightarrow> demo_action node" where
  "boundary_row label value = Elem ''div'' [] [Elem ''span'' [] [T label], value]"

definition boundary_panel :: "demo_action node" where
  "boundary_panel =
     Elem ''div'' []
       [Elem ''div'' [] [Elem ''h3'' [] [T ''What is real here?''], Elem ''span'' [] [T ''clear boundary'']],
        Elem ''div'' []
          [boundary_row ''Hetzner backend'' (Elem ''span'' [] [T ''Being retired'']),
           boundary_row ''This simulation'' (Elem ''span'' [] [T ''Running in browser'']),
           boundary_row ''API requests'' (Elem ''span'' [] [T ''None'']),
           boundary_row ''Real deployment''
             (Elem ''Link'' [To (js ''/try-locally'')] [Txt (js ''Run locally '' @ [Uni 8594])])]]"

definition stored_entry :: "SimulatedCheckpoint \<Rightarrow> demo_action node" where
  "stored_entry c =
     Elem ''div'' [Key (int_str (sk_step c))]
       [Elem ''div'' []
          [Elem ''span'' [] [T ''Step '', Txt (int_str (sk_step c))], Elem ''span'' [] [Txt (sk_size c)]],
        Elem ''p'' [] [Txt (sk_hash c)]]"

definition storage_panel :: "sim \<Rightarrow> demo_action node" where
  "storage_panel s =
     Elem ''div'' []
       [Elem ''div'' []
          [Elem ''div'' []
             [Elem ''h3'' [] [T ''Simulated checkpoint storage''],
              Elem ''p'' [] [T ''Records exist only in page memory.'']],
           Elem ''span'' [] [T ''mock data'']],
        if length (checkpoints s) = 0
        then Elem ''p'' [] [T ''The first simulated save point appears at step 50.'']
        else Elem ''div'' [] (map stored_entry (slice 0 6 (rev (checkpoints s))))]"

definition log_entry :: "nat \<times> jsstring \<Rightarrow> demo_action node" where
  "log_entry = (\<lambda>(index, line).
     Elem ''p'' [Key (nat_str index @ js ''-'' @ line)] [Elem ''span'' [] [Txt [Uni 8250]], T '' '', Txt line])"

definition stdout_panel :: "sim \<Rightarrow> demo_action node" where
  "stdout_panel s =
     Elem ''div'' []
       [Elem ''div'' [] [Elem ''h3'' [] [T ''Simulated stdout''], Elem ''span'' [] [T ''local page state'']],
        Elem ''div'' [] (map log_entry (zip [0..<length (logs s)] (logs s)))]"

section \<open>The page\<close>

definition intro_section :: "demo_action node" where
  "intro_section =
     Elem ''section'' []
       [Elem ''div'' []
          [Elem ''div'' []
             [Elem ''div'' [] [Elem ''span'' [] [T ''browser simulation''], Elem ''span'' [] [T ''no live backend'']],
              Elem ''h1'' [] [Txt (js ''I'' @ [Uni 8217] @ js ''m retiring my paid Hetzner backend server.'')],
              Elem ''p'' []
                [T (''This page now runs an honest, self-contained simulation in your browser. It makes no API requests, ''
                    @ ''starts no cloud resources, and cannot stop a real worker. To run the actual system, use the local setup.'')]],
           Elem ''Link'' [To (js ''/try-locally'')] [T ''Run the real system locally'']]]"

definition start_section :: "sim \<Rightarrow> demo_action node" where
  "start_section s =
     Elem ''section'' []
       [Elem ''div'' []
          [Elem ''span'' [] [],
           Txt (js ''Interactive simulation '' @ [Ch (CHR 0xB7)] @ js '' runs only in this tab'')],
        Elem ''h2'' []
          [T ''Break a simulated worker.'', Elem ''br'' [] [],
           Elem ''span'' [] [T ''Watch it recover from a save point.'']],
        Elem ''p'' []
          [T (''The sequence mirrors the checkpoint recovery flow, but every number, log, worker, and file shown here ''
              @ ''is generated locally in your browser.'')],
        Elem ''div'' []
          [Elem ''button'' [OnClick StartSimulation]
             [if hasStarted s then T ''Restart Simulation'' else T ''Start Simulation''],
           Elem ''Link'' [To (js ''/try-locally'')] [Txt (js ''Skip simulation'' @ em_dash @ js ''run it locally'')]]]"

definition outro_section :: "demo_action node" where
  "outro_section =
     Elem ''section'' []
       [Elem ''h2'' [] [T ''Want the real checkpoint system?''],
        Elem ''p'' []
          [T (''Run the services on your own computer. The local guide uses the real control plane, workers, storage, ''
              @ ''and recovery flow without a paid cloud backend.'')],
        Elem ''Link'' [To (js ''/try-locally'')] [T ''Open the local setup guide'']]"

definition started_section :: "sim \<Rightarrow> demo_action node" where
  "started_section s =
     Elem ''section'' []
       ([workers_card s] @ failure_banner s @ recovered_banner s
        @ [metrics_grid s,
           Elem ''div'' []
             [Elem ''div'' [] [SimulationPipeline (phase s), loss_panel s, timeline_panel s],
              Elem ''aside'' [] [boundary_panel, storage_panel s, stdout_panel s]]])"

definition demo_view :: "sim \<Rightarrow> demo_action node" where
  "demo_view s =
     Elem ''div'' []
       ([intro_section, start_section s, stage_cards s]
        @ show_if (hasStarted s) [started_section s]
        @ [outro_section])"

section \<open>Contracts\<close>

interpretation timeline_entries: keyed_list timeline_entry "\<lambda>e. int_str (te_id e)"
  by unfold_locales (simp add: timeline_entry_def)

interpretation stored_entries: keyed_list stored_entry "\<lambda>c. int_str (sk_step c)"
  by unfold_locales (simp add: stored_entry_def)

interpretation log_entries: keyed_list log_entry "\<lambda>(index, line). nat_str index @ js ''-'' @ line"
  by unfold_locales (auto simp: log_entry_def)

interpretation sim_worker_cards: keyed_list "sim_worker_card s" snd for s
  by unfold_locales (auto simp: sim_worker_card_def Let_def)

section \<open>Lemmas\<close>

text \<open>Only the workers card and the start button have handlers.\<close>

lemma clicks_maps [simp]:
  "clicks (map timeline_entry es) = []" "clicks (map stored_entry cs) = []" "clicks (map log_entry ls) = []"
  "clicks (map (pipeline_stage i) ps) = []"
  by (auto simp: clicks_map timeline_entry_def stored_entry_def log_entry_def pipeline_stage_def Let_def
      show_if_def split: prod.split)

lemma clicks_sim_worker_cards:
  "clicks (map (sim_worker_card s) ws) = (if canKill s then map (\<lambda>w. KillSimulatedWorker (snd w)) ws else [])"
  by (induction ws) (auto simp: sim_worker_card_def Let_def)

lemma polyline_attrs [simp]:
  "attr_clicks (concat (map (\<lambda>(x, y). [Num ''x'' x, Num ''y'' y]) ps)) = []"
  "\<not> attr_disabled (concat (map (\<lambda>(x, y). [Num ''x'' x, Num ''y'' y]) ps))"
  "attr_keys (concat (map (\<lambda>(x, y). [Num ''x'' x, Num ''y'' y]) ps)) = []"
  by (induction ps) auto

lemma clicks_panels [simp]:
  "clicks [SimulationPipeline p] = []" "clicks [loss_panel s] = []" "clicks [timeline_panel s] = []"
  "clicks [boundary_panel] = []" "clicks [storage_panel s] = []" "clicks [stdout_panel s] = []"
  "clicks (failure_banner s) = []" "clicks (recovered_banner s) = []" "clicks [metrics_grid s] = []"
  "clicks [intro_section] = []" "clicks [outro_section] = []" "clicks [stage_cards s] = []"
  "clicks [start_section s] = [StartSimulation]"
  by (simp_all add: SimulationPipeline_def loss_panel_def timeline_panel_def boundary_panel_def boundary_row_def
      storage_panel_def stdout_panel_def failure_banner_def recovered_banner_def metrics_grid_def metric_rows_def
      intro_section_def outro_section_def stage_cards_def StageCard_def start_section_def show_if_def)

lemma clicks_workers_card:
  "clicks [workers_card s] = (if canKill s then map KillSimulatedWorker sim_workers else [])"
proof -
  have "map (\<lambda>w. KillSimulatedWorker (snd w)) (zip [0..<length sim_workers] sim_workers)
      = map KillSimulatedWorker sim_workers"
    by (simp add: sim_workers_def)
  then show ?thesis unfolding workers_card_def clicks_simps clicks_sim_worker_cards by simp
qed

lemma clicks_started_section:
  "clicks [started_section s] = (if canKill s then map KillSimulatedWorker sim_workers else [])"
  unfolding started_section_def clicks_simps clicks_Cons2 by (simp add: clicks_workers_card)

lemma canKill_started: "canKill s \<Longrightarrow> hasStarted s"
  by (simp add: canKill_def hasStarted_def)

lemma clicks_demo_view:
  "clicks [demo_view s] = StartSimulation # (if canKill s then map KillSimulatedWorker sim_workers else [])"
  using canKill_started [of s]
  unfolding demo_view_def clicks_simps clicks_Cons2
  by (simp add: clicks_started_section show_if_def)

lemma kill_effective: "killSimulatedWorker w s \<noteq> s \<longleftrightarrow> canKill s"
proof (cases "phase s = Running \<and> checkpoints s \<noteq> []")
  case True
  then have "phase (killSimulatedWorker w s) \<noteq> phase s" by (simp add: killSimulatedWorker_fields)
  then have "killSimulatedWorker w s \<noteq> s" by auto
  with True show ?thesis by (simp add: canKill_def)
next
  case False
  then show ?thesis by (auto simp: canKill_def killSimulatedWorker_noop)
qed

text \<open>Keys of lists.\<close>

lemma minus_not_nat_str: "js ''-'' @ xs \<noteq> nat_str n"
proof
  assume "js ''-'' @ xs = nat_str n"
  then have "Ch (CHR ''-'') \<in> set (nat_str n)" by (metis append_Cons js_simps(2) list.set_intros(1))
  from nat_str_digits [OF this] show False by (simp add: is_digit_def digit_val_def digit_table_def)
qed

lemma int_str_inject: "int_str m = int_str n \<longleftrightarrow> m = n"
  using minus_not_nat_str [of "nat_str (nat (- m))" "nat n"] minus_not_nat_str [of "nat_str (nat (- n))" "nat m"]
  by (auto simp: int_str_def eq_nat_nat_iff split: if_splits)

lemma list_all_map_ok: "(\<And>x. keys_ok (f x)) \<Longrightarrow> list_all keys_ok (map f xs)"
  by (induction xs) auto

lemma keys_ok_entries [simp]:
  "keys_ok (timeline_entry e)" "keys_ok (stored_entry c)" "keys_ok (log_entry l)"
  "keys_ok (pipeline_stage i p)" "keys_ok (sim_worker_card s w)"
  by (auto simp: timeline_entry_def stored_entry_def log_entry_def pipeline_stage_def sim_worker_card_def Let_def
      show_if_def split: prod.split)

lemma indexed_key_inject: "nat_str i @ js ''-'' @ l = nat_str j @ js ''-'' @ m \<longleftrightarrow> i = j \<and> l = m"
proof -
  have "takeWhile is_digit (nat_str i @ js ''-'' @ l) = nat_str i" for i l
    by (rule takeWhile_all_append)
      (erule nat_str_digits, simp add: js_simps is_digit_def digit_val_def digit_table_def)
  then show ?thesis by (metis append_same_eq nat_str_inject same_append_eq)
qed

lemma log_keys_distinct: "distinct (keys_of (map log_entry (zip [0..<length ls] ls)))"
proof (rule log_entries.keys_distinct_inj)
  show "distinct (zip [0..<length ls] ls)" by (rule distinct_zipI1) simp
  show "inj_on (\<lambda>(index, line). nat_str index @ js ''-'' @ line) (set (zip [0..<length ls] ls))"
    by (rule inj_onI) (auto simp: indexed_key_inject simp del: append_assoc)
qed

lemma pipeline_keys: "distinct (keys_of (map (pipeline_stage i) (zip [0..<length PIPELINE] PIPELINE)))"
  by (simp add: pipeline_stage_def PIPELINE_def Let_def upt_rec js_inject)

lemma metric_keys: "distinct (keys_of [metrics_grid s])"  "keys_ok (metrics_grid s)"
  by (simp_all add: metrics_grid_def metric_rows_def js_inject)

lemma worker_keys: "distinct (keys_of (map (sim_worker_card s) (zip [0..<length sim_workers] sim_workers)))"
  unfolding sim_worker_cards.keys_of_items by (simp add: sim_workers_def js_inject upt_rec)

lemma reachable_keys:
  assumes "sim_reachable s"
  shows "distinct (keys_of (map timeline_entry (timeline s)))"
    and "distinct (keys_of (map stored_entry (take n (rev (checkpoints s)))))"
proof -
  have inv: "sim_inv s" by (rule sim_reachable_inv [OF assms])
  then have "distinct (map te_id (timeline s))" "distinct (map sk_step (checkpoints s))"
    by (auto simp: sim_inv_def inv_buffers_def inv_training_def checkpoints_ok_def intro: sorted_wrt_less_distinct)
  then show "distinct (keys_of (map timeline_entry (timeline s)))"
    "distinct (keys_of (map stored_entry (take n (rev (checkpoints s)))))"
    by (auto simp: timeline_entries.keys_distinct stored_entries.keys_distinct distinct_map inj_on_def
        int_str_inject dest!: in_set_takeD)
qed

lemma keys_ok_sections [simp]:
  "keys_ok intro_section" "keys_ok (start_section s)" "keys_ok (stage_cards s)" "keys_ok outro_section"
  "keys_ok boundary_panel" "keys_ok (loss_panel s)"
  "list_all keys_ok (failure_banner s)" "list_all keys_ok (recovered_banner s)"
  "keys_ok (SimulationPipeline p)" "keys_ok (workers_card s)" "keys_ok (stdout_panel s)"
  using pipeline_keys worker_keys log_keys_distinct
  by (simp_all add: intro_section_def start_section_def stage_cards_def StageCard_def outro_section_def
      boundary_panel_def boundary_row_def loss_panel_def failure_banner_def recovered_banner_def show_if_def
      SimulationPipeline_def workers_card_def stdout_panel_def list_all_map_ok del: upt_Suc)

lemma attr_keys_sections [simp]:
  "attr_keys (attrs intro_section) = []" "attr_keys (attrs (start_section s)) = []"
  "attr_keys (attrs (stage_cards s)) = []" "attr_keys (attrs outro_section) = []"
  "attr_keys (attrs boundary_panel) = []" "attr_keys (attrs (loss_panel s)) = []"
  "attr_keys (attrs (timeline_panel s)) = []" "attr_keys (attrs (storage_panel s)) = []"
  "attr_keys (attrs (stdout_panel s)) = []" "attr_keys (attrs (SimulationPipeline p)) = []"
  "attr_keys (attrs (workers_card s)) = []" "attr_keys (attrs (metrics_grid s)) = []"
  "attr_keys (attrs (started_section s)) = []"
  "keys_of (failure_banner s) = []" "keys_of (recovered_banner s) = []"
  by (simp_all add: intro_section_def start_section_def stage_cards_def outro_section_def boundary_panel_def
      loss_panel_def timeline_panel_def storage_panel_def stdout_panel_def SimulationPipeline_def workers_card_def
      metrics_grid_def started_section_def failure_banner_def recovered_banner_def show_if_def)

lemma keys_ok_demo:
  assumes "sim_reachable s"
  shows "keys_ok (demo_view s)"
proof -
  have "keys_ok (timeline_panel s)" "keys_ok (storage_panel s)"
    using reachable_keys [OF assms]
    by (simp_all add: timeline_panel_def storage_panel_def slice_simps list_all_map_ok)
  then show ?thesis by (simp add: demo_view_def started_section_def show_if_def metric_keys(2))
qed

section \<open>Properties\<close>

text \<open>
  C31. The kill buttons of the page are offered exactly when they have an effect: a click on a worker's kill button is
  possible precisely for the two workers of the page and precisely when the handler would change the
  state. In every state the start button can be clicked.
\<close>

theorem demo_controls_effective:
  "StartSimulation \<in> set (clicks [demo_view s])
   \<and> (KillSimulatedWorker w \<in> set (clicks [demo_view s])
        \<longleftrightarrow> w \<in> set sim_workers \<and> killSimulatedWorker w s \<noteq> s)"
  unfolding kill_effective by (auto simp: clicks_demo_view)

text \<open>
  C32. React can tell the elements of every list of the page apart: in every reachable state the
  keys of siblings are distinct in the whole tree that the page renders (stages, workers, metrics,
  timeline, stored checkpoints and log lines).
\<close>

theorem demo_keys_distinct:
  assumes "sim_reachable s"
  shows "keys_ok (demo_view s)"
  by (rule keys_ok_demo [OF assms])

theorem demo_keys_distinct_witness:
  "keys_ok (demo_view demo_resumed) \<and> checkpoints demo_resumed \<noteq> []"
  using demo_keys_distinct [OF demo_resumed_facts(1)] by (simp add: demo_resumed_facts(7))

text \<open>
  The stage cards follow the phase of every reachable state: exactly one card is active until
  the run has recovered, no card is complete before the one above it, and after the recovery all
  three are complete; the recovery banners never show a blank in place of the killed or restored
  step, and while the run is down both worker cards show the step at which it was killed.
\<close>

theorem demo_stage_progress:
  assumes "sim_reachable s"
  shows "stage_statuses s =
      (case phase s of Idle \<Rightarrow> [Active, Waiting, Waiting] | Running \<Rightarrow> [Complete, Active, Waiting]
       | Recovered \<Rightarrow> [Complete, Complete, Complete] | _ \<Rightarrow> [Complete, Complete, Active])
    \<and> (hasRecovered s \<longrightarrow> num_or_null (restoredStep s) \<noteq> [] \<and> num_or_null (killStep s) \<noteq> [])
    \<and> (recovering_phase s \<longrightarrow> killStep s = Some (displayedStep w s))"
  using sim_reachable_inv [OF assms]
  by (cases "phase s")
    (auto simp: stage_statuses_def hasStarted_def hasFailed_def hasRecovered_def num_or_null_def sim_inv_def
      inv_failure_def recovering_phase_def displayedStep_def int_str_def Let_def split: if_splits)

theorem demo_stage_progress_witness:
  "stage_statuses demo_killed = [Complete, Complete, Active]
   \<and> killStep demo_killed = Some (displayedStep (js ''sim-worker-1'') demo_killed)"
  using demo_stage_progress [OF demo_killed_facts(1)] demo_killed_facts
  by (simp add: recovering_phase_def)

end
