(* ===== verification/Ui.thy ===== *)
theory Ui
  imports Vdom Design
begin

text \<open>
  The shared building blocks of the console's pages (\<open>frontend/src/components/ui.tsx\<close>) and the
  theme toggle (\<open>frontend/src/components/ThemeToggle.tsx\<close>).

  Dates and grouped numbers are printed by the locale functions of the browser. They are the
  record \<open>browser_locale\<close>, a parameter of the views that print them; a formatter that throws is
  \<open>None\<close>.
\<close>

section \<open>The browser's locale\<close>

record browser_locale =
  lc_number :: "int \<Rightarrow> jsstring"
  lc_date :: "jsstring \<Rightarrow> jsstring option"
  lc_time :: "jsstring \<Rightarrow> jsstring option"
  lc_clock :: "jsstring \<Rightarrow> jsstring"

definition formatDate :: "browser_locale \<Rightarrow> jsstring \<Rightarrow> jsstring" where
  "formatDate lc isodate = (case lc_date lc isodate of Some s \<Rightarrow> s | None \<Rightarrow> isodate)"

definition formatTime :: "browser_locale \<Rightarrow> jsstring \<Rightarrow> jsstring" where
  "formatTime lc isodate = (case lc_time lc isodate of Some s \<Rightarrow> s | None \<Rightarrow> isodate)"

section \<open>Badges, cards and banners\<close>

datatype badge_size = Sm | Md

definition RunBadge :: "RunState \<Rightarrow> badge_size \<Rightarrow> 'a node" where
  "RunBadge state sz =
     (let cfg = RUN_STATE_CONFIG state;
          sizeClass = (if sz = Md then ''px-3 py-1 text-sm'' else ''px-2.5 py-0.5 text-xs'')
      in Elem ''span'' [Cls (sizeClass @ '' '' @ sc_bg cfg @ '' '' @ sc_text cfg), Title (js (sc_desc cfg))]
           [Elem ''span'' [Cls (sc_dot cfg)] [], T (sc_label cfg)])"

fun ckpt_state_name :: "CheckpointState \<Rightarrow> string" where
  "ckpt_state_name CK_PENDING = ''PENDING''"
| "ckpt_state_name CK_IN_PROGRESS = ''IN_PROGRESS''"
| "ckpt_state_name CK_COMMITTED = ''COMMITTED''"
| "ckpt_state_name CK_FAILED = ''FAILED''"

definition CkptBadge :: "CheckpointState \<Rightarrow> 'a node" where
  "CkptBadge state =
     (let cfg = CKPT_STATE_CONFIG state
      in Elem ''span'' [Cls (fst cfg @ '' '' @ snd cfg)]
           [if state = CK_IN_PROGRESS then T ''Saving...''
            else if state = CK_COMMITTED then T ''Saved''
            else T (ckpt_state_name state)])"

definition MetricCard :: "string \<Rightarrow> jsstring \<Rightarrow> string option \<Rightarrow> string option \<Rightarrow> 'a node" where
  "MetricCard label value hint valueColor =
     Elem ''div'' []
       ([Elem ''p'' [] [T label],
         Elem ''p'' [Cls (case valueColor of None \<Rightarrow> [] | Some c \<Rightarrow> c)] [Txt value]]
        @ show_some hint (\<lambda>h. show_if (h \<noteq> []) [Elem ''p'' [] [T h]]))"

definition SectionHeader :: "string \<Rightarrow> string option \<Rightarrow> 'a node list \<Rightarrow> 'a node" where
  "SectionHeader title subtitle action =
     Elem ''div'' []
       (Elem ''div'' []
          (Elem ''h2'' [] [T title]
           # show_some subtitle (\<lambda>t. show_if (t \<noteq> []) [Elem ''p'' [] [T t]]))
        # action)"

definition EmptyState :: "string \<Rightarrow> 'a node list \<Rightarrow> 'a node" where
  "EmptyState message action =
     Elem ''div'' [] (Elem ''p'' [] [T message] # show_if (action \<noteq> []) [Elem ''div'' [] action])"

definition ErrorBanner :: "jsstring \<Rightarrow> 'a node" where
  "ErrorBanner message = Elem ''ErrorBanner'' [] [Txt message]"

definition Loading :: "string \<Rightarrow> 'a node" where
  "Loading text' = Elem ''Loading'' [] [T text']"

definition LiveDot :: "'a node" where
  "LiveDot = Elem ''span'' [] [Elem ''span'' [] [], Elem ''span'' [] []]"

definition Explainer :: "'a node list \<Rightarrow> 'a node" where
  "Explainer children = Elem ''p'' [] children"

text \<open>An error of a page is shown when it is neither \<open>null\<close> nor the empty string.\<close>

definition error_banner :: "jsstring option \<Rightarrow> 'a node list" where
  "error_banner e = show_some e (\<lambda>m. show_if (m \<noteq> []) [ErrorBanner m])"

section \<open>Theme\<close>

text \<open>
  \<open>dark_class\<close> is whether the document's root element has the class \<open>dark\<close>, \<open>theme_stored\<close> is
  what \<open>localStorage\<close> holds under \<open>theme\<close>.
\<close>

record theme =
  dark :: bool
  dark_class :: bool
  theme_stored :: "string option"

definition theme_mount :: "bool \<Rightarrow> string option \<Rightarrow> theme" where
  "theme_mount cls stored = \<lparr>dark = cls, dark_class = cls, theme_stored = stored\<rparr>"

definition toggle :: "theme \<Rightarrow> theme" where
  "toggle t =
     (let nxt = \<not> dark t
      in t\<lparr>dark := nxt, dark_class := nxt, theme_stored := Some (if nxt then ''dark'' else ''light'')\<rparr>)"

datatype toggle_action = ToggleTheme

definition ThemeToggle :: "theme \<Rightarrow> toggle_action node" where
  "ThemeToggle t =
     (let label = (if dark t then js ''Switch to light mode'' else js ''Switch to dark mode'')
      in Elem ''button'' [OnClick ToggleTheme, Title label, Prop ''aria-label'' label]
           [if dark t
            then Elem ''svg'' [] [Elem ''circle'' [] [], Elem ''path'' [] []]
            else Elem ''svg'' [] [Elem ''path'' [] []]])"

section \<open>Lemmas\<close>

lemma badge_buttons [simp]:
  "buttons (RunBadge st sz # ns) = buttons ns" "buttons (CkptBadge ck # ns) = buttons ns"
  "buttons (MetricCard l v h c # ns) = buttons ns" "buttons (ErrorBanner m # ns) = buttons ns"
  "buttons (Loading t # ns) = buttons ns" "buttons (LiveDot # ns) = buttons ns"
  by (simp_all add: RunBadge_def CkptBadge_def MetricCard_def ErrorBanner_def Loading_def LiveDot_def
      Let_def show_if_def show_some_def split: option.split)

lemma badge_clicks [simp]:
  "clicks (RunBadge st sz # ns) = clicks ns" "clicks (CkptBadge ck # ns) = clicks ns"
  "clicks (MetricCard l v h c # ns) = clicks ns" "clicks (ErrorBanner m # ns) = clicks ns"
  "clicks (Loading t # ns) = clicks ns" "clicks (LiveDot # ns) = clicks ns"
  by (simp_all add: RunBadge_def CkptBadge_def MetricCard_def ErrorBanner_def Loading_def LiveDot_def
      Let_def show_if_def show_some_def split: option.split)

lemma header_buttons [simp]:
  "buttons (SectionHeader t st action # ns) = buttons action @ buttons ns"
  "buttons (EmptyState m action # ns) = buttons action @ buttons ns"
  by (cases st; cases action; simp add: SectionHeader_def EmptyState_def show_if_def)+

lemma error_banner_cases:
  "error_banner e = (if e = None \<or> e = Some [] then [] else [ErrorBanner (the e)])"
  by (cases e) (simp_all add: error_banner_def show_if_def)

lemma buttons_error_banner [simp]: "buttons (error_banner e) = []"
  by (simp add: error_banner_cases)

lemma theme_synced:
  "dark t = dark_class t \<Longrightarrow> dark ((toggle ^^ n) t) = dark_class ((toggle ^^ n) t)"
  by (induction n) (simp_all add: toggle_def Let_def)

lemma dark_toggles: "dark ((toggle ^^ n) t) = (if even n then dark t else \<not> dark t)"
  by (induction n) (simp_all add: toggle_def Let_def)

section \<open>Properties\<close>

text \<open>
  After any number of clicks on the theme toggle, what the toggle shows, the class of the
  document and what is stored for the next visit agree: an odd number of clicks changes the mode
  the page was loaded with, an even number restores it.
\<close>

theorem theme_toggle_consistent:
  "dark ((toggle ^^ n) (theme_mount cls stored)) = (if even n then cls else \<not> cls)
   \<and> dark_class ((toggle ^^ n) (theme_mount cls stored)) = dark ((toggle ^^ n) (theme_mount cls stored))
   \<and> theme_stored ((toggle ^^ n) (theme_mount cls stored)) =
       (if n = 0 then stored
        else Some (if dark ((toggle ^^ n) (theme_mount cls stored)) then ''dark'' else ''light''))"
proof -
  have "theme_stored ((toggle ^^ n) (theme_mount cls stored)) =
      (if n = 0 then stored
       else Some (if dark ((toggle ^^ n) (theme_mount cls stored)) then ''dark'' else ''light''))"
    by (cases n) (simp_all add: theme_mount_def toggle_def Let_def)
  moreover have "dark (theme_mount cls stored) = cls" "dark_class (theme_mount cls stored) = cls"
    by (simp_all add: theme_mount_def)
  ultimately show ?thesis
    using theme_synced [of "theme_mount cls stored" n] dark_toggles [of n "theme_mount cls stored"]
    by (cases "even n") auto
qed

end
