(* ===== verification/Fetching.thy ===== *)
theory Fetching
  imports Design
begin

text \<open>
  How the console talks to the control plane: \<open>fetch\<close>, the polling hook
  (\<open>frontend/src/hooks/usePolling.ts\<close>) and the event stream hook
  (\<open>frontend/src/hooks/useEventStream.ts\<close>).

  The network is outside the program: the outcome of a request is an argument of the operation
  that awaits it. A request is rejected with a thrown value, or answered by a response whose body
  parses or not. A thrown value is \<open>Some m\<close> for an \<open>Error\<close> with message \<open>m\<close> and \<open>None\<close> for anything
  else.

  The locales \<open>poller\<close> and \<open>atomic_poller\<close> state what every polling component promises about its
  loading flag, its error and its data; the pages interpret them on their own handlers.
\<close>

section \<open>Requests\<close>

type_synonym thrown = "jsstring option"

record 'j response =
  res_status :: int
  res_statusText :: jsstring
  res_json :: "thrown + 'j"

type_synonym 'j fetched = "thrown + 'j response"

definition res_ok :: "'j response \<Rightarrow> bool" where
  "res_ok r = (200 \<le> res_status r \<and> res_status r \<le> 299)"

text \<open>\<open>e instanceof Error ? e.message : fallback\<close>.\<close>

definition errmsg :: "string \<Rightarrow> thrown \<Rightarrow> jsstring" where
  "errmsg fallback e = (case e of Some m \<Rightarrow> m | None \<Rightarrow> js fallback)"

text \<open>\<open>throw new Error(`${res.status} ${res.statusText}`)\<close>.\<close>

definition status_error :: "'j response \<Rightarrow> thrown" where
  "status_error r = Some (int_str (res_status r) @ js '' '' @ res_statusText r)"

text \<open>A response that the server sends with a parsed body.\<close>

definition answer :: "'j \<Rightarrow> 'j fetched" where
  "answer j = Inr \<lparr>res_status = 200, res_statusText = js ''OK'', res_json = Inr j\<rparr>"

definition refusal :: "int \<Rightarrow> string \<Rightarrow> 'j fetched" where
  "refusal st txt = Inr \<lparr>res_status = st, res_statusText = js txt, res_json = Inl None\<rparr>"

section \<open>The polling hook\<close>

record 'd polling =
  pl_data :: "'d option"
  pl_loading :: bool
  pl_error :: "jsstring option"

definition polling_init :: "'d polling" where
  "polling_init = \<lparr>pl_data = None, pl_loading = True, pl_error = None\<rparr>"

text \<open>The body of the \<open>try\<close>: the parsed body or what was thrown.\<close>

definition try_json :: "'j fetched \<Rightarrow> thrown + 'j" where
  "try_json f =
     (case f of
        Inl e \<Rightarrow> Inl e
      | Inr res \<Rightarrow> if \<not> res_ok res then Inl (status_error res) else res_json res)"

definition polling_fetchData :: "'d fetched \<Rightarrow> 'd polling \<Rightarrow> 'd polling" where
  "polling_fetchData f s =
     (case try_json f of
        Inl e \<Rightarrow> s\<lparr>pl_error := Some (errmsg ''Fetch failed'' e)\<rparr>
      | Inr json \<Rightarrow> s\<lparr>pl_data := Some json, pl_error := None\<rparr>)\<lparr>pl_loading := False\<rparr>"

section \<open>The event stream hook\<close>

definition MAX_EVENTS :: int where
  "MAX_EVENTS = 200"

definition push_event :: "RunEvent list \<Rightarrow> RunEvent \<Rightarrow> RunEvent list" where
  "push_event prev event = slice_from (- (MAX_EVENTS - 1)) prev @ [event]"

definition mk_event :: "string \<Rightarrow> jsstring \<Rightarrow> jsstring \<Rightarrow> RunEvent" where
  "mk_event ty data now = \<lparr>re_id = None, re_type = js ty, re_data = data, re_timestamp = now\<rparr>"

text \<open>
  The listeners, by the name of the server-sent event. An event without a listener is dropped by
  the browser.
\<close>

definition stream_type :: "string \<Rightarrow> string option" where
  "stream_type name =
     (if name = ''message'' then Some ''message''
      else if name = ''state_change'' then Some ''state_change''
      else if name = ''checkpoint'' then Some ''checkpoint''
      else if name = ''error_event'' then Some ''error''
      else None)"

definition on_stream_event :: "string \<Rightarrow> jsstring \<Rightarrow> jsstring \<Rightarrow> RunEvent list \<Rightarrow> RunEvent list" where
  "on_stream_event name data now events =
     (case stream_type name of
        None \<Rightarrow> events
      | Some ty \<Rightarrow> push_event events (mk_event ty data now))"

section \<open>The contract of a poller\<close>

text \<open>
  \<open>complete r s\<close> is the state after a round of requests with outcome \<open>r\<close>, \<open>failure r\<close> the message
  that the round ends with, if it fails.
\<close>

locale poller =
  fixes complete :: "'r \<Rightarrow> 's \<Rightarrow> 's"
    and loading :: "'s \<Rightarrow> bool"
    and error :: "'s \<Rightarrow> jsstring option"
    and failure :: "'r \<Rightarrow> jsstring option"
  assumes loading_complete: "\<not> loading (complete r s)"
    and error_complete: "error (complete r s) = failure r"
begin

text \<open>After any number of rounds, in whatever order they end, the error is that of the last one.\<close>

lemma error_after_rounds: "rs \<noteq> [] \<Longrightarrow> error (foldl (\<lambda>s r. complete r s) s rs) = failure (last rs)"
  by (cases rs rule: rev_cases) (simp_all add: error_complete)

lemma loading_after_rounds: "loading (foldl (\<lambda>s r. complete r s) s rs) \<longleftrightarrow> rs = [] \<and> loading s"
  by (cases rs rule: rev_cases) (simp_all add: loading_complete)

end

text \<open>A poller whose data is replaced as a whole by a successful round and kept by a failed one.\<close>

locale atomic_poller = poller +
  fixes data :: "'s \<Rightarrow> 'd"
    and payload :: "'r \<Rightarrow> 'd"
  assumes data_complete: "data (complete r s) = (if failure r = None then payload r else data s)"
begin

text \<open>The data shown is the last known good data.\<close>

lemma data_after_rounds:
  "data (foldl (\<lambda>s r. complete r s) s rs) =
     (case filter (\<lambda>r. failure r = None) rs of [] \<Rightarrow> data s | g # gs \<Rightarrow> payload (last (g # gs)))"
proof (induction rs rule: rev_induct)
  case (snoc r rs)
  then show ?case by (simp add: data_complete split: list.splits)
qed simp

lemma stale_data_kept: "failure r \<noteq> None \<Longrightarrow> data (complete r s) = data s"
  by (auto simp: data_complete)

end

section \<open>The hooks satisfy their contracts\<close>

definition polling_failure :: "'d fetched \<Rightarrow> jsstring option" where
  "polling_failure f = (case try_json f of Inl e \<Rightarrow> Some (errmsg ''Fetch failed'' e) | Inr j \<Rightarrow> None)"

definition polling_payload :: "'d fetched \<Rightarrow> 'd option" where
  "polling_payload f = (case try_json f of Inl e \<Rightarrow> None | Inr j \<Rightarrow> Some j)"

interpretation polling_hook: atomic_poller
  polling_fetchData pl_loading pl_error polling_failure pl_data polling_payload
  by unfold_locales
    (auto simp: polling_fetchData_def polling_failure_def polling_payload_def split: sum.split)

interpretation event_buffer: bounded_buffer push_event 200
  by unfold_locales (simp_all add: push_event_def MAX_EVENTS_def slice_simps lastn_snoc)

lemma try_json_answer [simp]: "try_json (answer j) = Inr j"
  by (simp add: try_json_def answer_def res_ok_def)

lemma try_json_refusal:
  "st < 200 \<or> 299 < st \<Longrightarrow> try_json (refusal st txt) = Inl (Some (int_str st @ js '' '' @ js txt))"
  by (auto simp: try_json_def refusal_def res_ok_def status_error_def)

text \<open>What a listener adds for one event, and what a sequence of events leaves.\<close>

definition listened :: "string \<times> jsstring \<times> jsstring \<Rightarrow> RunEvent list" where
  "listened = (\<lambda>(name, data, now).
     case stream_type name of None \<Rightarrow> [] | Some ty \<Rightarrow> [mk_event ty data now])"

lemma foldl_stream_lastn:
  "foldl (\<lambda>es (name, data, now). on_stream_event name data now es) (lastn 200 zs) evs =
     lastn 200 (zs @ concat (map listened evs))"
proof (induction evs arbitrary: zs)
  case (Cons e evs)
  obtain name data now where e: "e = (name, data, now)" by (cases e)
  show ?case
  proof (cases "stream_type name")
    case None
    with Cons.IH [of zs] show ?thesis by (simp add: e on_stream_event_def listened_def)
  next
    case (Some ty)
    have "push_event (lastn 200 zs) x = lastn 200 (zs @ [x])" for x
      by (simp add: event_buffer.push_lastn lastn_lastn_snoc)
    with Cons.IH [of "zs @ [mk_event ty data now]"] Some show ?thesis
      by (simp add: e on_stream_event_def listened_def)
  qed
qed simp

lemma polling_init_fields [simp]:
  "pl_data polling_init = None" "pl_loading polling_init" "pl_error polling_init = None"
  by (simp_all add: polling_init_def)

section \<open>Properties\<close>

text \<open>
  A polling component shows the last known good data: after any sequence of completed
  requests the data is the body of the last successful one (or still \<open>null\<close>), the error is the
  message of the last request if that one failed and \<open>null\<close> otherwise, and the loading flag is
  set until the first request completes.
\<close>

theorem polling_last_known_good:
  "pl_data (foldl (\<lambda>s r. polling_fetchData r s) polling_init rs) =
     (case filter (\<lambda>r. polling_failure r = None) rs of
        [] \<Rightarrow> None | g # gs \<Rightarrow> polling_payload (last (g # gs)))
   \<and> pl_error (foldl (\<lambda>s r. polling_fetchData r s) polling_init rs) =
     (if rs = [] then None else polling_failure (last rs))
   \<and> pl_loading (foldl (\<lambda>s r. polling_fetchData r s) polling_init rs) = (rs = [])"
proof -
  have "pl_error (foldl (\<lambda>s r. polling_fetchData r s) polling_init rs) =
     (if rs = [] then None else polling_failure (last rs))"
    by (cases "rs = []") (simp_all add: polling_hook.error_after_rounds)
  then show ?thesis
    by (simp add: polling_hook.data_after_rounds polling_hook.loading_after_rounds cong: list.case_cong)
qed

text \<open>
  The event list of the stream hook holds exactly the last 200 events that have a listener,
  in the order of their arrival, each with the type its listener gives it.
\<close>

theorem event_stream_keeps_last_200:
  "foldl (\<lambda>es (name, data, now). on_stream_event name data now es) [] evs =
     lastn 200 (concat (map (\<lambda>(name, data, now).
        case stream_type name of None \<Rightarrow> [] | Some ty \<Rightarrow> [mk_event ty data now]) evs))"
  using foldl_stream_lastn [of "[]" evs] by (simp add: listened_def)

end
