(* ===== verification/ControlPlane.thy ===== *)
theory ControlPlane
  imports Design
begin

text \<open>
  The run lifecycle that the control plane enforces and the console drives: the state machine of
  \<open>python-controlplane/src/controlplane/state_machine.py\<close>, the run actions of the REST interface
  (\<open>api/rest.py\<close>) as far as they decide the next state, the answer and the published event, and
  the table of states that the console's documentation page shows.

  An action gets the state machine of the run it names, or \<open>None\<close> when the run does not exist, and
  returns the status code of the answer, the machine after it and the names of the server-sent
  events it published.
\<close>

section \<open>State machine\<close>

fun VALID_TRANSITIONS :: "RunState \<Rightarrow> RunState list" where
  "VALID_TRANSITIONS CREATED = [RUNNING, CANCELLED]"
| "VALID_TRANSITIONS RUNNING = [CHECKPOINTING, FAILED, CANCELLED, COMPLETED]"
| "VALID_TRANSITIONS CHECKPOINTING = [COMMITTED, FAILED, RUNNING]"
| "VALID_TRANSITIONS COMMITTED = [RUNNING, COMPLETED, FAILED]"
| "VALID_TRANSITIONS FAILED = [RECOVERING, CANCELLED]"
| "VALID_TRANSITIONS RECOVERING = [RUNNING, FAILED, CANCELLED]"
| "VALID_TRANSITIONS CANCELLED = []"
| "VALID_TRANSITIONS COMPLETED = []"

record RunStateMachine =
  fsm_state :: RunState
  fsm_history :: "(RunState \<times> RunState) list"

definition fsm_new :: "RunState \<Rightarrow> RunStateMachine" where
  "fsm_new initial = \<lparr>fsm_state = initial, fsm_history = []\<rparr>"

definition is_terminal :: "RunStateMachine \<Rightarrow> bool" where
  "is_terminal m = (fsm_state m = CANCELLED \<or> fsm_state m = COMPLETED)"

definition can_transition :: "RunState \<Rightarrow> RunStateMachine \<Rightarrow> bool" where
  "can_transition target m = (target \<in> set (VALID_TRANSITIONS (fsm_state m)))"

text \<open>\<open>Inl (current, target)\<close> is \<open>InvalidTransitionError(current, target)\<close>.\<close>

definition transition :: "RunState \<Rightarrow> RunStateMachine \<Rightarrow> (RunState \<times> RunState) + RunStateMachine" where
  "transition target m =
     (if \<not> can_transition target m then Inl (fsm_state m, target)
      else Inr (m\<lparr>fsm_state := target, fsm_history := fsm_history m @ [(fsm_state m, target)]\<rparr>))"

definition allowed_transitions :: "RunStateMachine \<Rightarrow> RunState set" where
  "allowed_transitions m = set (VALID_TRANSITIONS (fsm_state m))"

section \<open>Run actions of the REST interface\<close>

type_synonym outcome = "int \<times> RunStateMachine option \<times> string list"

text \<open>A route that moves the run to one target state.\<close>

definition move_run :: "RunState \<Rightarrow> string \<Rightarrow> RunStateMachine option \<Rightarrow> outcome" where
  "move_run target event run =
     (case run of
        None \<Rightarrow> (404, None, [])
      | Some m \<Rightarrow>
          (case transition target m of
             Inl e \<Rightarrow> (409, Some m, [])
           | Inr m' \<Rightarrow> (200, Some m', [event])))"

definition start_run :: "RunStateMachine option \<Rightarrow> outcome" where
  "start_run = move_run RUNNING ''run_started''"

definition cancel_run :: "RunStateMachine option \<Rightarrow> outcome" where
  "cancel_run = move_run CANCELLED ''run_cancelled''"

definition complete_run :: "RunStateMachine option \<Rightarrow> outcome" where
  "complete_run = move_run COMPLETED ''run_completed''"

definition trigger_checkpoint :: "RunStateMachine option \<Rightarrow> outcome" where
  "trigger_checkpoint = move_run CHECKPOINTING ''checkpoint_started''"

definition fail_run :: "RunStateMachine option \<Rightarrow> outcome" where
  "fail_run = move_run FAILED ''run_failed''"

definition resume_run :: "RunStateMachine option \<Rightarrow> outcome" where
  "resume_run run =
     (case run of
        None \<Rightarrow> (404, None, [])
      | Some m \<Rightarrow>
          (case
             (if fsm_state m = FAILED then transition RECOVERING m
              else if fsm_state m = RECOVERING then transition RUNNING m
              else if fsm_state m = RUNNING then Inr m
              else if fsm_state m \<in> {COMMITTED, CREATED, CHECKPOINTING} then transition RUNNING m
              else Inl (fsm_state m, RUNNING))
           of
             Inl e \<Rightarrow> (409, Some m, [])
           | Inr m' \<Rightarrow> (200, Some m', [''run_resumed''])))"

section \<open>The documented table\<close>

fun run_state_name :: "RunState \<Rightarrow> string" where
  "run_state_name CREATED = ''CREATED''"
| "run_state_name RUNNING = ''RUNNING''"
| "run_state_name CHECKPOINTING = ''CHECKPOINTING''"
| "run_state_name COMMITTED = ''COMMITTED''"
| "run_state_name FAILED = ''FAILED''"
| "run_state_name RECOVERING = ''RECOVERING''"
| "run_state_name CANCELLED = ''CANCELLED''"
| "run_state_name COMPLETED = ''COMPLETED''"

definition all_run_states :: "RunState list" where
  "all_run_states =
     [CREATED, RUNNING, CHECKPOINTING, COMMITTED, FAILED, RECOVERING, CANCELLED, COMPLETED]"

definition STATE_TABLE :: "(string \<times> string \<times> string) list" where
  "STATE_TABLE =
     [(''CREATED'', ''Run registered, not started yet'', ''RUNNING, CANCELLED''),
      (''RUNNING'', ''Training is actively happening'', ''CHECKPOINTING, FAILED, COMPLETED, CANCELLED''),
      (''CHECKPOINTING'', ''Saving model bytes to storage'', ''COMMITTED, FAILED, RUNNING''),
      (''COMMITTED'', ''Checkpoint saved successfully'', ''RUNNING, COMPLETED, FAILED''),
      (''FAILED'', ''Worker died or heartbeat timed out'', ''RECOVERING, CANCELLED''),
      (''RECOVERING'', ''Loading checkpoint, about to resume'', ''RUNNING, FAILED, CANCELLED''),
      (''COMPLETED'', ''Training finished all steps (terminal)'', ''none''),
      (''CANCELLED'', ''Manually stopped (terminal)'', ''none'')]"

text \<open>The states a cell of the table names: comma separated, or \<open>none\<close>.\<close>

definition next_states_cell :: "string \<Rightarrow> string list" where
  "next_states_cell cell =
     (if cell = ''none'' then []
      else map (dropWhile (\<lambda>c. c = CHR '' '')) (split_on (CHR '','') cell))"

section \<open>Lemmas\<close>

lemma UNIV_RunState: "(UNIV :: RunState set) = set all_run_states"
  by (auto simp: all_run_states_def) (metis RunState.exhaust)

lemma all_RunState: "(\<forall>s. P s) \<longleftrightarrow> list_all P all_run_states"
  using UNIV_RunState by (metis UNIV_I list_all_iff)

text \<open>Runs of the state machine: a sequence of attempted transitions, the invalid ones refused.\<close>

definition attempt :: "RunStateMachine \<Rightarrow> RunState \<Rightarrow> RunStateMachine" where
  "attempt m target = (case transition target m of Inl e \<Rightarrow> m | Inr m' \<Rightarrow> m')"

fun path :: "RunState \<Rightarrow> (RunState \<times> RunState) list \<Rightarrow> RunState \<Rightarrow> bool" where
  "path a [] b = (a = b)"
| "path a ((x, y) # es) b = (a = x \<and> y \<in> set (VALID_TRANSITIONS x) \<and> path y es b)"

lemma path_snoc: "path a (es @ [(b, c)]) d \<longleftrightarrow> path a es b \<and> c \<in> set (VALID_TRANSITIONS b) \<and> c = d"
  by (induction a es b rule: path.induct) auto

lemma path_attempt: "path a (fsm_history m) (fsm_state m) \<Longrightarrow>
   path a (fsm_history (attempt m t)) (fsm_state (attempt m t))"
  by (auto simp: attempt_def transition_def can_transition_def path_snoc)

lemma terminal_stuck: "is_terminal m \<Longrightarrow> transition t m = Inl (fsm_state m, t)"
  by (auto simp: is_terminal_def transition_def can_transition_def)

lemma terminal_attempt: "is_terminal m \<Longrightarrow> attempt m t = m"
  by (simp add: attempt_def terminal_stuck)

lemma move_run_codes:
  "fst (move_run target event (Some m)) = (if can_transition target m then 200 else 409)"
  by (simp add: move_run_def transition_def)

lemma resume_code:
  "fst (resume_run (Some m)) = (if is_terminal m then 409 else 200)"
  by (cases "fsm_state m") (simp_all add: resume_run_def transition_def can_transition_def is_terminal_def)

section \<open>Properties\<close>

text \<open>
  Whatever transitions are attempted on a new run, its recorded history is a path of valid
  transitions from the initial state to the current one, and once a run is cancelled or
  completed every further attempt is refused and changes nothing.
\<close>

theorem fsm_history_is_path:
  "path s (fsm_history (foldl attempt (fsm_new s) ts)) (fsm_state (foldl attempt (fsm_new s) ts))
   \<and> (if is_terminal (foldl attempt (fsm_new s) ts)
      then foldl attempt (fsm_new s) (ts @ us) = foldl attempt (fsm_new s) ts
        \<and> transition t (foldl attempt (fsm_new s) ts) = Inl (fsm_state (foldl attempt (fsm_new s) ts), t)
      else True)"
proof -
  have "path s (fsm_history (foldl attempt (fsm_new s) ts)) (fsm_state (foldl attempt (fsm_new s) ts))"
    by (induction ts rule: rev_induct) (simp_all add: fsm_new_def path_attempt)
  moreover have "is_terminal m \<longrightarrow> foldl attempt m us = m" for m
    by (induction us) (simp_all add: terminal_attempt)
  ultimately show ?thesis by (simp add: terminal_stuck)
qed

text \<open>
  The table of states on the documentation page is the control plane's: it has one row per
  state, and the states a row names are exactly the valid next states of its state.
\<close>

theorem state_table_matches_control_plane:
  "mset (map fst STATE_TABLE) = mset (map run_state_name all_run_states)
   \<and> list_all (\<lambda>s. list_ex (\<lambda>(name, meaning, nxt). name = run_state_name s
        \<and> set (next_states_cell nxt) = run_state_name ` set (VALID_TRANSITIONS s)
        \<and> length (next_states_cell nxt) = length (VALID_TRANSITIONS s)) STATE_TABLE) all_run_states"
proof
  show "mset (map fst STATE_TABLE) = mset (map run_state_name all_run_states)"
    by (simp add: STATE_TABLE_def all_run_states_def)
  show "list_all (\<lambda>s. list_ex (\<lambda>(name, meaning, nxt). name = run_state_name s
        \<and> set (next_states_cell nxt) = run_state_name ` set (VALID_TRANSITIONS s)
        \<and> length (next_states_cell nxt) = length (VALID_TRANSITIONS s)) STATE_TABLE) all_run_states"
    by code_simp
qed

end
