(* ===== verification/RunsPage.thy ===== *)
theory RunsPage
  imports Ui Fetching ControlPlane JsRegex
begin

text \<open>
  The list of training runs, \<open>frontend/src/pages/RunsPage.tsx\<close>: the polled table with its
  start and cancel buttons, and the dialog that creates a run.
\<close>

section \<open>Reading numbers from input fields\<close>

text \<open>\<open>s.trim()\<close> and \<open>parseInt(s)\<close> without a radix (\<open>None\<close> is \<open>NaN\<close>).\<close>

definition trim :: "jsstring \<Rightarrow> jsstring" where
  "trim s = rev (dropWhile is_space (rev (dropWhile is_space s)))"

definition hex_val :: "jschar \<Rightarrow> nat option" where
  "hex_val c =
     map_of (zip (js ''0123456789abcdefABCDEF'') ([0..<16] @ [10..<16])) c"

definition read_hex :: "jsstring \<Rightarrow> nat" where
  "read_hex s = foldl (\<lambda>n c. 16 * n + (case hex_val c of None \<Rightarrow> 0 | Some d \<Rightarrow> d)) 0 s"

definition parse_unsigned :: "jsstring \<Rightarrow> int option" where
  "parse_unsigned s =
     (if startsWith s (js ''0x'') \<or> startsWith s (js ''0X'')
      then let d = takeWhile (\<lambda>c. hex_val c \<noteq> None) (drop 2 s)
           in if d = [] then None else Some (int (read_hex d))
      else parseInt10 s)"

definition parseInt :: "jsstring \<Rightarrow> int option" where
  "parseInt s =
     (let t = dropWhile is_space s
      in case t of
           [] \<Rightarrow> None
         | c # u \<Rightarrow>
             if c = Ch (CHR ''-'') then map_option uminus (parse_unsigned u)
             else if c = Ch (CHR ''+'') then parse_unsigned u
             else parse_unsigned t)"

text \<open>\<open>parseInt(s) || d\<close>: the default replaces \<open>NaN\<close> and \<open>0\<close>.\<close>

definition parse_or :: "int \<Rightarrow> jsstring \<Rightarrow> int" where
  "parse_or d s = (case parseInt s of None \<Rightarrow> d | Some n \<Rightarrow> if n = 0 then d else n)"

section \<open>The dialog\<close>

record NewRunModal =
  nm_form :: RunConfig
  nm_submitting :: bool
  nm_error :: "jsstring option"

definition modal_init :: NewRunModal where
  "modal_init =
     \<lparr>nm_form = \<lparr>rc_name = [], rc_num_workers = 4, rc_checkpoint_interval_steps = 1000\<rparr>,
      nm_submitting = False, nm_error = None\<rparr>"

text \<open>What the page has to do after an operation of the dialog or an action.\<close>

datatype page_effect = FetchAgain | CloseModal | Alert jsstring

text \<open>\<open>submit\<close> up to the request, and from its outcome on.\<close>

definition submit_begin :: "NewRunModal \<Rightarrow> NewRunModal" where
  "submit_begin m = m\<lparr>nm_submitting := True, nm_error := None\<rparr>"

definition submit_end :: "unit fetched \<Rightarrow> NewRunModal \<Rightarrow> NewRunModal \<times> page_effect list" where
  "submit_end f m =
     (let (m1, eff) =
        (case f of
           Inl e \<Rightarrow> (m\<lparr>nm_error := Some (errmsg ''Failed to create run'' e)\<rparr>, [])
         | Inr res \<Rightarrow>
             if \<not> res_ok res
             then (m\<lparr>nm_error := Some (errmsg ''Failed to create run'' (status_error res))\<rparr>, [])
             else (m, [FetchAgain, CloseModal]))
      in (m1\<lparr>nm_submitting := False\<rparr>, eff))"

definition set_name :: "jsstring \<Rightarrow> NewRunModal \<Rightarrow> NewRunModal" where
  "set_name v m = m\<lparr>nm_form := (nm_form m)\<lparr>rc_name := v\<rparr>\<rparr>"

definition set_workers :: "jsstring \<Rightarrow> NewRunModal \<Rightarrow> NewRunModal" where
  "set_workers v m = m\<lparr>nm_form := (nm_form m)\<lparr>rc_num_workers := parse_or 1 v\<rparr>\<rparr>"

definition set_interval :: "jsstring \<Rightarrow> NewRunModal \<Rightarrow> NewRunModal" where
  "set_interval v m = m\<lparr>nm_form := (nm_form m)\<lparr>rc_checkpoint_interval_steps := parse_or 100 v\<rparr>\<rparr>"

datatype run_action = StartAction | CancelAction

datatype runs_action =
    ShowNewRun bool
  | StopPropagation
  | SetName jsstring
  | SetWorkers jsstring
  | SetInterval jsstring
  | Submit
  | PostAction jsstring run_action

definition NewRunModal_view :: "NewRunModal \<Rightarrow> runs_action node" where
  "NewRunModal_view m =
     Elem ''div'' [OnClick (ShowNewRun False)]
       [Elem ''div'' [OnClick StopPropagation]
          ([Elem ''h3'' [] [T ''Create New Run'']]
           @ show_some (nm_error m) (\<lambda>e. show_if (e \<noteq> []) [Elem ''div'' [] [Txt e]])
           @ [Elem ''label'' []
                [Elem ''span'' [] [T ''Run Name''],
                 Elem ''input'' [Prop ''type'' (js ''text''), Prop ''placeholder'' (js ''my-training-run''),
                   Val (rc_name (nm_form m)), OnChange SetName] []],
              Elem ''label'' []
                [Elem ''span'' [] [T ''Number of Workers''],
                 Elem ''input'' [Prop ''type'' (js ''number''), Prop ''min'' (js ''1''),
                   Val (int_str (rc_num_workers (nm_form m))), OnChange SetWorkers] []],
              Elem ''label'' []
                [Elem ''span'' [] [T ''Checkpoint Interval (steps)''],
                 Elem ''input'' [Prop ''type'' (js ''number''), Prop ''min'' (js ''1''),
                   Val (int_str (rc_checkpoint_interval_steps (nm_form m))), OnChange SetInterval] []],
              Elem ''div'' []
                [Elem ''button'' [OnClick (ShowNewRun False)] [T ''Cancel''],
                 Elem ''button''
                   [Disabled (nm_submitting m \<or> trim (rc_name (nm_form m)) = []), OnClick Submit]
                   [if nm_submitting m then Txt (js ''Creating'' @ [ellipsis]) else T ''Create Run'']]])]"

section \<open>The page\<close>

record runs_page =
  rp_runs :: "RunStatus list"
  rp_loading :: bool
  rp_error :: "jsstring option"
  rp_showNewRun :: bool

definition runs_init :: runs_page where
  "runs_init = \<lparr>rp_runs = [], rp_loading = True, rp_error = None, rp_showNewRun = False\<rparr>"

definition fetchRuns :: "RunStatus list fetched \<Rightarrow> runs_page \<Rightarrow> runs_page" where
  "fetchRuns f s =
     (case try_json f of
        Inl e \<Rightarrow> s\<lparr>rp_error := Some (errmsg ''Failed to fetch runs'' e)\<rparr>
      | Inr data \<Rightarrow> s\<lparr>rp_runs := data, rp_error := None\<rparr>)\<lparr>rp_loading := False\<rparr>"

fun run_action_name :: "run_action \<Rightarrow> string" where
  "run_action_name StartAction = ''start''"
| "run_action_name CancelAction = ''cancel''"

definition action_url :: "jsstring \<Rightarrow> jsstring \<Rightarrow> jsstring \<Rightarrow> jsstring" where
  "action_url api_base run_id action = api_base @ js ''/api/runs/'' @ run_id @ js ''/'' @ action"

text \<open>The effect of an action, given the outcome of its POST request.\<close>

definition postAction :: "unit fetched \<Rightarrow> page_effect" where
  "postAction f =
     (case f of
        Inl e \<Rightarrow> Alert (errmsg ''Action failed'' e)
      | Inr res \<Rightarrow>
          if \<not> res_ok res then Alert (errmsg ''Action failed'' (status_error res)) else FetchAgain)"

definition run_row :: "browser_locale \<Rightarrow> RunStatus \<Rightarrow> runs_action node" where
  "run_row lc run =
     (let stateConfig = RUN_STATE_CONFIG (rs_state run)
      in Elem ''tr'' [Key (rs_run_id run)]
           [Elem ''td'' []
              [Elem ''Link'' [To (js ''/runs/'' @ rs_run_id run)]
                 [Txt (if rs_name run = [] then js ''(unnamed)'' else rs_name run)]],
            Elem ''td'' [] [Txt (shortId (rs_run_id run) 12)],
            Elem ''td'' [] [RunBadge (rs_state run) Sm],
            Elem ''td'' [] [Txt (lc_number lc (rs_current_step run))],
            Elem ''td'' []
              [Elem ''span'' []
                 [Elem ''span'' [Cls (sc_dot stateConfig)] [], Txt (int_str (rs_active_workers run))]],
            Elem ''td'' [] [Txt (formatDate lc (rs_created_at run))],
            Elem ''td'' []
              [Elem ''div'' []
                 (show_if (rs_state run = CREATED \<or> rs_state run = COMMITTED)
                    [Elem ''button'' [OnClick (PostAction (rs_run_id run) StartAction)] [T ''Start'']]
                  @ show_if (rs_state run = RUNNING \<or> rs_state run = CHECKPOINTING \<or> rs_state run = RECOVERING)
                      [Elem ''button'' [OnClick (PostAction (rs_run_id run) CancelAction)] [T ''Cancel'']]
                  @ [Elem ''Link'' [To (js ''/runs/'' @ rs_run_id run)] [T ''View'']])]])"

definition runs_view :: "browser_locale \<Rightarrow> runs_page \<Rightarrow> NewRunModal \<Rightarrow> runs_action node" where
  "runs_view lc s m =
     Elem ''div'' []
       ([SectionHeader ''Training Runs'' (Some ''Manage training runs and monitor checkpoint progress.'')
           [Elem ''button'' [OnClick (ShowNewRun True)] [T ''+ New Run'']]]
        @ show_if (rp_showNewRun s) [NewRunModal_view m]
        @ error_banner (rp_error s)
        @ show_if (rp_loading s) [Loading ''Loading runs...'']
        @ show_if (\<not> rp_loading s \<and> length (rp_runs s) = 0 \<and> (rp_error s = None \<or> rp_error s = Some []))
            [EmptyState ''No training runs found.''
               [Elem ''button'' [OnClick (ShowNewRun True)] [T ''Create your first run'']]]
        @ show_if (\<not> rp_loading s \<and> length (rp_runs s) > 0)
            [Elem ''div'' []
               [Elem ''table'' []
                  [Elem ''thead'' []
                     [Elem ''tr'' []
                        (map (\<lambda>h. Elem ''th'' [] [T h])
                           [''Name'', ''Run ID'', ''State'', ''Step'', ''Workers'', ''Created'', ''Actions''])],
                   Elem ''tbody'' [] (map (run_row lc) (rp_runs s))]]])"

section \<open>Contracts\<close>

definition runs_failure :: "RunStatus list fetched \<Rightarrow> jsstring option" where
  "runs_failure f = (case try_json f of Inl e \<Rightarrow> Some (errmsg ''Failed to fetch runs'' e) | Inr d \<Rightarrow> None)"

definition runs_payload :: "RunStatus list fetched \<Rightarrow> RunStatus list" where
  "runs_payload f = (case try_json f of Inl e \<Rightarrow> [] | Inr d \<Rightarrow> d)"

interpretation runs_poll: atomic_poller fetchRuns rp_loading rp_error runs_failure rp_runs runs_payload
  by unfold_locales (auto simp: fetchRuns_def runs_failure_def runs_payload_def split: sum.split)

interpretation run_rows: keyed_list "run_row lc" rs_run_id for lc
  by unfold_locales (simp add: run_row_def Let_def)

section \<open>Lemmas\<close>

text \<open>The route that an action button of the row posts to, and its answer.\<close>

fun rest_of :: "run_action \<Rightarrow> RunStateMachine option \<Rightarrow> outcome" where
  "rest_of StartAction = start_run"
| "rest_of CancelAction = cancel_run"

definition row_actions :: "RunState \<Rightarrow> run_action list" where
  "row_actions st =
     (if st = CREATED \<or> st = COMMITTED then [StartAction] else [])
     @ (if st = RUNNING \<or> st = CHECKPOINTING \<or> st = RECOVERING then [CancelAction] else [])"

lemma clicks_run_row: "clicks [run_row lc run] = map (PostAction (rs_run_id run)) (row_actions (rs_state run))"
  by (cases "rs_state run") (simp_all add: run_row_def row_actions_def Let_def)

lemma parse_or_nonzero: "d \<noteq> 0 \<Longrightarrow> parse_or d s \<noteq> 0"
  by (simp add: parse_or_def split: option.split)

section \<open>Properties\<close>

text \<open>
  The table of runs shows the last known good answer: after any sequence of polls it holds
  the runs of the last successful one, the banner shows the message of the last poll exactly if
  that poll failed, and the page leaves the loading state with the first poll that ends.
\<close>

theorem runs_page_last_known_good:
  "rp_runs (foldl (\<lambda>s r. fetchRuns r s) runs_init rs) =
     (case filter (\<lambda>r. runs_failure r = None) rs of [] \<Rightarrow> [] | g # gs \<Rightarrow> runs_payload (last (g # gs)))
   \<and> rp_error (foldl (\<lambda>s r. fetchRuns r s) runs_init rs) =
     (if rs = [] then None else runs_failure (last rs))
   \<and> rp_loading (foldl (\<lambda>s r. fetchRuns r s) runs_init rs) = (rs = [])"
proof -
  have init: "rp_runs runs_init = []" "rp_error runs_init = None" "rp_loading runs_init"
    by (simp_all add: runs_init_def)
  then have "rp_error (foldl (\<lambda>s r. fetchRuns r s) runs_init rs) =
     (if rs = [] then None else runs_failure (last rs))"
    by (cases "rs = []") (simp_all add: runs_poll.error_after_rounds)
  with init show ?thesis
    by (simp add: runs_poll.data_after_rounds runs_poll.loading_after_rounds cong: list.case_cong)
qed

text \<open>
  A row offers exactly one action in the states that have one and none in the others, its
  click posts that action for the run of the row, and the control plane accepts every offered
  action in every state but one: cancelling while a checkpoint is being saved is answered by 409.
\<close>

theorem run_row_actions_accepted:
  "clicks [run_row lc run] = map (PostAction (rs_run_id run)) (row_actions (rs_state run))
   \<and> length (row_actions (rs_state run)) \<le> 1
   \<and> list_all (\<lambda>a. fst (rest_of a (Some (fsm_new (rs_state run)))) =
        (if rs_state run = CHECKPOINTING \<and> a = CancelAction then 409 else 200)) (row_actions (rs_state run))"
  using clicks_run_row [of lc run]
  by (cases "rs_state run")
    (simp_all add: row_actions_def start_run_def cancel_run_def move_run_codes fsm_new_def can_transition_def)

text \<open>
  What the dialog submits: its button is enabled exactly when the name is not blank and no
  request is under way, and whatever is typed the numbers of workers and of steps sent are never
  0 (an unreadable number or 0 is replaced by the default). When the request ends the button is
  available again, and the dialog is closed and the list fetched exactly if the request succeeded.
\<close>

theorem new_run_dialog:
  "(Submit \<in> set (clicks [NewRunModal_view m]) \<longleftrightarrow>
      \<not> nm_submitting m \<and> trim (rc_name (nm_form m)) \<noteq> [])
   \<and> rc_num_workers (nm_form (set_workers v m)) \<noteq> 0
   \<and> rc_checkpoint_interval_steps (nm_form (set_interval v m)) \<noteq> 0
   \<and> \<not> nm_submitting (fst (submit_end f (submit_begin m)))
   \<and> (CloseModal \<in> set (snd (submit_end f (submit_begin m))) \<longleftrightarrow>
        nm_error (fst (submit_end f (submit_begin m))) = None)
   \<and> (CloseModal \<in> set (snd (submit_end f (submit_begin m))) \<longleftrightarrow>
        FetchAgain \<in> set (snd (submit_end f (submit_begin m))))"
proof -
  have "Submit \<in> set (clicks [NewRunModal_view m]) \<longleftrightarrow>
      \<not> nm_submitting m \<and> trim (rc_name (nm_form m)) \<noteq> []"
    by (cases "nm_error m") (auto simp: NewRunModal_view_def show_if_def)
  moreover have "nm_submitting (fst (submit_end f (submit_begin m))) = False"
    "CloseModal \<in> set (snd (submit_end f (submit_begin m))) \<longleftrightarrow>
        nm_error (fst (submit_end f (submit_begin m))) = None"
    "CloseModal \<in> set (snd (submit_end f (submit_begin m))) \<longleftrightarrow>
        FetchAgain \<in> set (snd (submit_end f (submit_begin m)))"
    by (auto simp: submit_end_def submit_begin_def Let_def split: sum.splits)
  ultimately show ?thesis
    by (simp add: set_workers_def set_interval_def parse_or_nonzero)
qed

end
