(* ===== verification/RunDetailPage.thy ===== *)
theory RunDetailPage
  imports Ui Fetching ControlPlane
begin

text \<open>
  The page of one run, \<open>frontend/src/pages/RunDetailPage.tsx\<close>: the polled run and its
  checkpoints, the live event stream, and the action buttons.

  \<open>Promise.all\<close> waits for both requests and is rejected by the first of them that is; its outcome
  is therefore one thrown value or a pair of responses. The route parameter \<open>id\<close> is the empty
  string when it is missing.
\<close>

section \<open>State and operations\<close>

record run_detail =
  rd_run :: "RunStatus option"
  rd_checkpoints :: "CheckpointInfo list"
  rd_events :: "RunEvent list"
  rd_loading :: bool
  rd_error :: "jsstring option"

definition detail_init :: run_detail where
  "detail_init = \<lparr>rd_run = None, rd_checkpoints = [], rd_events = [], rd_loading = True, rd_error = None\<rparr>"

type_synonym detail_round = "thrown + (RunStatus response \<times> CheckpointInfo list response)"

text \<open>The statements of the \<open>try\<close> block: the state they leave, and what they threw, if anything.\<close>

definition detail_try :: "detail_round \<Rightarrow> run_detail \<Rightarrow> run_detail \<times> thrown option" where
  "detail_try f s =
     (case f of
        Inl e \<Rightarrow> (s, Some e)
      | Inr (runRes, ckptRes) \<Rightarrow>
          if \<not> res_ok runRes then (s, Some (Some (js ''Run: '' @ int_str (res_status runRes))))
          else if \<not> res_ok ckptRes then (s, Some (Some (js ''Checkpoints: '' @ int_str (res_status ckptRes))))
          else (case res_json runRes of
                  Inl e \<Rightarrow> (s, Some e)
                | Inr r \<Rightarrow>
                    let s1 = s\<lparr>rd_run := Some r\<rparr>
                    in (case res_json ckptRes of
                          Inl e \<Rightarrow> (s1, Some e)
                        | Inr cs \<Rightarrow> (s1\<lparr>rd_checkpoints := cs, rd_error := None\<rparr>, None))))"

definition detail_fetchData :: "jsstring \<Rightarrow> detail_round \<Rightarrow> run_detail \<Rightarrow> run_detail" where
  "detail_fetchData ident f s =
     (if ident = [] then s
      else (case detail_try f s of
              (s1, Some e) \<Rightarrow> s1\<lparr>rd_error := Some (errmsg ''Fetch failed'' e)\<rparr>
            | (s1, None) \<Rightarrow> s1)\<lparr>rd_loading := False\<rparr>)"

text \<open>
  The listeners of the page's own event source: the new event list, and whether the listener
  fetches the run again.
\<close>

definition detail_push :: "RunEvent list \<Rightarrow> RunEvent \<Rightarrow> RunEvent list" where
  "detail_push prev event = slice_from (-199) prev @ [event]"

definition detail_event :: "string \<Rightarrow> jsstring \<Rightarrow> jsstring \<Rightarrow> run_detail \<Rightarrow> run_detail \<times> bool" where
  "detail_event name data now s =
     (if name = ''message''
      then (s\<lparr>rd_events := detail_push (rd_events s) (mk_event ''message'' data now)\<rparr>, False)
      else if name = ''state_change''
      then (s\<lparr>rd_events := detail_push (rd_events s) (mk_event ''state_change'' data now)\<rparr>, True)
      else if name = ''checkpoint''
      then (s\<lparr>rd_events := detail_push (rd_events s) (mk_event ''checkpoint'' data now)\<rparr>, True)
      else if name = ''error_event''
      then (s\<lparr>rd_events := detail_push (rd_events s) (mk_event ''error'' data now)\<rparr>, False)
      else (s, False))"

datatype detail_effect = Refetch | ShowAlert jsstring | NoEffect

definition detail_postAction :: "jsstring \<Rightarrow> unit fetched \<Rightarrow> detail_effect" where
  "detail_postAction ident f =
     (if ident = [] then NoEffect
      else (case f of
              Inl e \<Rightarrow> ShowAlert (errmsg ''Action failed'' e)
            | Inr res \<Rightarrow>
                if \<not> res_ok res then ShowAlert (errmsg ''Action failed'' (status_error res)) else Refetch))"

definition detail_totalBytes :: "CheckpointInfo list \<Rightarrow> int" where
  "detail_totalBytes cs = foldl (\<lambda>s c. s + ci_total_bytes c) 0 cs"

definition detail_committedCount :: "CheckpointInfo list \<Rightarrow> nat" where
  "detail_committedCount cs = length (filter (\<lambda>c. ci_state c = CK_COMMITTED) cs)"

section \<open>View\<close>

datatype detail_action = Post string

definition detail_buttons :: "RunState \<Rightarrow> detail_action node list" where
  "detail_buttons st =
     show_if (st = RUNNING \<or> st = CHECKPOINTING)
       [Elem ''button'' [OnClick (Post ''checkpoint'')] [T ''Trigger Checkpoint'']]
     @ show_if (st = FAILED \<or> st = CANCELLED)
       [Elem ''button'' [OnClick (Post ''resume'')] [T ''Resume'']]
     @ show_if (st = CREATED \<or> st = COMMITTED)
       [Elem ''button'' [OnClick (Post ''start'')] [T ''Start'']]
     @ show_if (st = RUNNING \<or> st = CHECKPOINTING \<or> st = RECOVERING)
       [Elem ''button'' [OnClick (Post ''cancel'')] [T ''Cancel'']]"

definition detail_header :: "RunStatus \<Rightarrow> detail_action node list" where
  "detail_header run =
     [Elem ''div'' []
        [Elem ''Link'' [To (js ''/runs'')] [T ''Runs''],
         Elem ''span'' [] [Txt (if rs_name run = [] then slice 0 12 (rs_run_id run) else rs_name run)]],
      Elem ''div'' []
        [Elem ''div'' []
           ([Elem ''div'' []
               [Elem ''h2'' [] [Txt (if rs_name run = [] then js ''Unnamed Run'' else rs_name run)],
                RunBadge (rs_state run) Md],
             Elem ''p'' [] [Txt (rs_run_id run)]]
            @ show_some (rs_error_message run) (\<lambda>e. show_if (e \<noteq> []) [Elem ''p'' [] [Txt e]])),
         Elem ''div'' [] (detail_buttons (rs_state run))]]"

definition detail_cards :: "browser_locale \<Rightarrow> RunStatus \<Rightarrow> CheckpointInfo list \<Rightarrow> detail_action node" where
  "detail_cards lc run cs =
     Elem ''div'' []
       [MetricCard ''Current Step'' (lc_number lc (rs_current_step run)) None None,
        MetricCard ''Active Workers'' (int_str (rs_active_workers run)) None None,
        MetricCard ''Checkpoints''
          (nat_str (detail_committedCount cs) @ js '' / '' @ nat_str (length cs)) None None,
        MetricCard ''Total Size'' (formatBytes (real_of_int (detail_totalBytes cs))) None None]"

definition detail_ckpt_row :: "browser_locale \<Rightarrow> CheckpointInfo \<Rightarrow> detail_action node" where
  "detail_ckpt_row lc ckpt =
     Elem ''tr'' [Key (ci_checkpoint_id ckpt)]
       [Elem ''td'' []
          [Txt (if length (ci_checkpoint_id ckpt) > 16
                then slice 0 16 (ci_checkpoint_id ckpt) @ [ellipsis] else ci_checkpoint_id ckpt)],
        Elem ''td'' [] [Txt (lc_number lc (ci_step ckpt))],
        Elem ''td'' [] [CkptBadge (ci_state ckpt)],
        Elem ''td'' [] [Txt (int_str (ci_num_shards ckpt))],
        Elem ''td'' [] [Txt (formatBytes (real_of_int (ci_total_bytes ckpt)))],
        Elem ''td'' [] [Txt (formatDate lc (ci_created_at ckpt))]]"

definition detail_history :: "browser_locale \<Rightarrow> CheckpointInfo list \<Rightarrow> detail_action node" where
  "detail_history lc cs =
     Elem ''div'' []
       [Elem ''div'' [] [Elem ''h3'' [] [T ''Checkpoint History'']],
        if length cs = 0 then Elem ''div'' [] [T ''No checkpoints yet.'']
        else Elem ''table'' []
          [Elem ''thead'' []
             [Elem ''tr'' []
                (map (\<lambda>h. Elem ''th'' [] [T h])
                   [''Checkpoint ID'', ''Step'', ''State'', ''Shards'', ''Size'', ''Created''])],
           Elem ''tbody'' [] (map (detail_ckpt_row lc) cs)]]"

definition type_color :: "jsstring \<Rightarrow> string" where
  "type_color ty =
     (if ty = js ''error'' then ''text-err''
      else if ty = js ''state_change'' then ''text-warn''
      else if ty = js ''checkpoint'' then ''text-info''
      else ''text-txt-3'')"

definition detail_event_line :: "browser_locale \<Rightarrow> nat \<times> RunEvent \<Rightarrow> detail_action node" where
  "detail_event_line lc = (\<lambda>(i, evt).
     Elem ''div'' [Key (nat_str i)]
       [Elem ''span'' [] [Txt (lc_clock lc (re_timestamp evt))],
        Elem ''span'' [Cls (type_color (re_type evt))] [T ''['', Txt (re_type evt), T '']''],
        Elem ''span'' [] [Txt (re_data evt)]])"

definition detail_stream :: "browser_locale \<Rightarrow> RunEvent list \<Rightarrow> detail_action node" where
  "detail_stream lc events =
     Elem ''div'' []
       [Elem ''div'' []
          [Elem ''h3'' [] [T ''Event Stream''], Elem ''div'' [] [LiveDot, T ''Live'']],
        Elem ''div'' []
          (show_if (length events = 0) [Elem ''p'' [] [T ''Waiting for events...'']]
           @ map (detail_event_line lc) (zip [0..<length events] events)
           @ [Elem ''div'' [] []])]"

definition detail_view :: "browser_locale \<Rightarrow> run_detail \<Rightarrow> detail_action node list" where
  "detail_view lc s =
     (if rd_loading s then [Loading ''Loading run details...'']
      else (case rd_run s of
              None \<Rightarrow> error_banner (rd_error s)
            | Some run \<Rightarrow>
                [Elem ''div'' []
                   (detail_header run
                    @ [detail_cards lc run (rd_checkpoints s), detail_history lc (rd_checkpoints s),
                       detail_stream lc (rd_events s)])]))"

section \<open>Contracts\<close>

definition detail_failure :: "detail_round \<Rightarrow> jsstring option" where
  "detail_failure f = map_option (errmsg ''Fetch failed'') (snd (detail_try f detail_init))"

lemma detail_try_failure: "snd (detail_try f s) = snd (detail_try f t)"
  by (auto simp: detail_try_def Let_def split: sum.splits prod.splits)

lemma detail_try_error: "snd (detail_try f s) = None \<Longrightarrow> rd_error (fst (detail_try f s)) = None"
  by (auto simp: detail_try_def Let_def split: sum.splits prod.splits if_splits)

lemma detail_fetchData_nonempty:
  "ident \<noteq> [] \<Longrightarrow> detail_fetchData ident f s =
     (case snd (detail_try f s) of
        Some e \<Rightarrow> (fst (detail_try f s))\<lparr>rd_error := Some (errmsg ''Fetch failed'' e)\<rparr>
      | None \<Rightarrow> fst (detail_try f s))\<lparr>rd_loading := False\<rparr>"
  by (auto simp: detail_fetchData_def split: prod.splits option.splits)

text \<open>The identifier of a run is not empty, so the page of a run is a poller.\<close>

interpretation detail_poll: poller "detail_fetchData (c # ident)" rd_loading rd_error detail_failure for c ident
proof
  show "\<not> rd_loading (detail_fetchData (c # ident) f s)" for f s
    by (simp add: detail_fetchData_def)
  show "rd_error (detail_fetchData (c # ident) f s) = detail_failure f" for f s
    using detail_try_failure [of f s detail_init] detail_try_error [of f s]
    by (auto simp: detail_fetchData_nonempty detail_failure_def split: option.split)
qed

interpretation detail_buffer: bounded_buffer detail_push 200
  by unfold_locales (simp_all add: detail_push_def slice_simps lastn_snoc)

interpretation detail_rows: keyed_list "detail_ckpt_row lc" ci_checkpoint_id for lc
  by unfold_locales (simp add: detail_ckpt_row_def)

interpretation detail_lines: keyed_list "detail_event_line lc" "\<lambda>(i, evt). nat_str i" for lc
  by unfold_locales (auto simp: detail_event_line_def)

section \<open>Lemmas\<close>

text \<open>The page's listeners are those of the event stream hook.\<close>

lemma detail_event_hook:
  "rd_events (fst (detail_event name data now s)) = on_stream_event name data now (rd_events s)"
  by (simp add: detail_event_def on_stream_event_def stream_type_def detail_push_def push_event_def MAX_EVENTS_def)

definition offered :: "RunState \<Rightarrow> string list" where
  "offered st = concat (map (\<lambda>(txt, dis, acts). concat (map (\<lambda>a. case a of Post x \<Rightarrow> [x]) acts))
     (buttons (detail_buttons st)))"

text \<open>The route each button posts to.\<close>

definition route :: "string \<Rightarrow> RunStateMachine option \<Rightarrow> outcome" where
  "route action =
     (if action = ''checkpoint'' then trigger_checkpoint
      else if action = ''resume'' then resume_run
      else if action = ''start'' then start_run
      else cancel_run)"

lemma offered_simps [simp]:
  "offered CREATED = [''start'']" "offered RUNNING = [''checkpoint'', ''cancel'']"
  "offered CHECKPOINTING = [''checkpoint'', ''cancel'']" "offered COMMITTED = [''start'']"
  "offered FAILED = [''resume'']" "offered RECOVERING = [''cancel'']"
  "offered CANCELLED = [''resume'']" "offered COMPLETED = []"
  by (simp_all add: offered_def detail_buttons_def)

lemma route_code:
  "fst (route a (Some m)) =
     (if a = ''resume'' then if is_terminal m then 409 else 200
      else if can_transition (if a = ''checkpoint'' then CHECKPOINTING
               else if a = ''start'' then RUNNING else CANCELLED) m then 200 else 409)"
  by (simp add: route_def trigger_checkpoint_def start_run_def cancel_run_def move_run_codes resume_code)

lemma foldl_sum: "foldl (\<lambda>s c. s + f c) (a :: int) cs = a + sum_list (map f cs)"
  by (induction cs arbitrary: a) simp_all

section \<open>Properties\<close>

text \<open>
  C36. The buttons of the run page against the control plane. Listed over all states of a run, the
  page offers exactly these nine buttons, and with a run in that state, whatever its history, the
  control plane answers each with exactly this code: six actions are accepted, and three are shown
  and refused by 409, triggering a checkpoint and cancelling while a checkpoint is being saved, and
  resuming a cancelled run.
\<close>

theorem detail_buttons_accepted:
  "set all_run_states = UNIV
   \<and> concat (map (\<lambda>st. map (\<lambda>a. (st, a, fst (route a (Some (m\<lparr>fsm_state := st\<rparr>))))) (offered st)) all_run_states) =
       [(CREATED, ''start'', 200),
        (RUNNING, ''checkpoint'', 200), (RUNNING, ''cancel'', 200),
        (CHECKPOINTING, ''checkpoint'', 409), (CHECKPOINTING, ''cancel'', 409),
        (COMMITTED, ''start'', 200),
        (FAILED, ''resume'', 200),
        (RECOVERING, ''cancel'', 200),
        (CANCELLED, ''resume'', 409)]"
  by (simp add: UNIV_RunState) (simp add: all_run_states_def route_code can_transition_def is_terminal_def)

text \<open>
  A round of the run page: the error it leaves is that of the round, the loading flag is
  cleared, and run and checkpoints are both replaced by a successful round and both kept by a
  failed one, unless the round fails in parsing the checkpoints after the run was parsed: then the
  new run is shown with the old checkpoints.
\<close>

theorem detail_round_effect:
  "rd_error (detail_fetchData (c # ident) f s) = detail_failure f
   \<and> \<not> rd_loading (detail_fetchData (c # ident) f s)
   \<and> rd_events (detail_fetchData (c # ident) f s) = rd_events s
   \<and> (rd_run (detail_fetchData (c # ident) f s), rd_checkpoints (detail_fetchData (c # ident) f s)) =
       (case f of
          Inl e \<Rightarrow> (rd_run s, rd_checkpoints s)
        | Inr (runRes, ckptRes) \<Rightarrow>
            if res_ok runRes \<and> res_ok ckptRes
            then (case (res_json runRes, res_json ckptRes) of
                    (Inr r, Inr cs) \<Rightarrow> (Some r, cs)
                  | (Inr r, Inl e) \<Rightarrow> (Some r, rd_checkpoints s)
                  | _ \<Rightarrow> (rd_run s, rd_checkpoints s))
            else (rd_run s, rd_checkpoints s))"
proof -
  have "(rd_run (detail_fetchData (c # ident) f s), rd_checkpoints (detail_fetchData (c # ident) f s)) =
      (rd_run (fst (detail_try f s)), rd_checkpoints (fst (detail_try f s)))"
    "rd_events (detail_fetchData (c # ident) f s) = rd_events (fst (detail_try f s))"
    by (simp_all add: detail_fetchData_nonempty split: option.split)
  moreover have "rd_events (fst (detail_try f s)) = rd_events s"
    by (simp add: detail_try_def Let_def split: sum.split prod.split)
  ultimately show ?thesis
    using detail_poll.error_complete [of c ident f s] detail_poll.loading_complete [of c ident f s]
    by (simp add: detail_try_def Let_def split: sum.split prod.split)
qed

text \<open>
  The event list of the run page behaves like the event stream hook, and a listener fetches
  the run again exactly for \<open>state_change\<close> and \<open>checkpoint\<close> events; but none of the events that
  the run actions of the control plane publish has a listener, so none of them ever reaches the
  list or refreshes the page.
\<close>

theorem published_events_have_no_listener:
  "rd_events (fst (detail_event name data now s)) = on_stream_event name data now (rd_events s)
   \<and> snd (detail_event name data now s) = (name = ''state_change'' \<or> name = ''checkpoint'')
   \<and> list_all (\<lambda>ev. detail_event ev data now s = (s, False))
       (concat (map (\<lambda>act. snd (snd (act run)))
          [start_run, cancel_run, complete_run, trigger_checkpoint, fail_run, resume_run]))"
proof -
  have "list_all (\<lambda>ev. detail_event ev data now s = (s, False)) (snd (snd (move_run target ev run)))"
    if "ev \<in> {''run_started'', ''run_cancelled'', ''run_completed'', ''checkpoint_started'', ''run_failed''}"
    for target ev
    using that by (auto simp: move_run_def detail_event_def split: option.split sum.split)
  moreover have "list_all (\<lambda>ev. detail_event ev data now s = (s, False)) (snd (snd (resume_run run)))"
    by (auto simp: resume_run_def detail_event_def split: option.split sum.split)
  moreover have "snd (detail_event name data now s) = (name = ''state_change'' \<or> name = ''checkpoint'')"
    by (simp add: detail_event_def)
  ultimately show ?thesis
    by (simp add: detail_event_hook start_run_def cancel_run_def complete_run_def trigger_checkpoint_def
        fail_run_def)
qed

text \<open>
  The summary cards count what is in the table below them: the total size is the sum over
  the listed checkpoints, the committed count never exceeds their number, and it is their number
  exactly if all of them are committed.
\<close>

theorem detail_totals:
  "detail_totalBytes cs = sum_list (map ci_total_bytes cs)
   \<and> detail_committedCount cs \<le> length cs
   \<and> (detail_committedCount cs = length cs \<longleftrightarrow> list_all (\<lambda>c. ci_state c = CK_COMMITTED) cs)"
  by (auto simp: detail_totalBytes_def foldl_sum detail_committedCount_def list_all_iff
      length_filter_less dest: length_filter_less intro: le_neq_implies_less)

end
