(* ===== verification/CheckpointBrowser.thy ===== *)
theory CheckpointBrowser
  imports Ui Fetching
begin

text \<open>
  The checkpoints of all runs, \<open>frontend/src/pages/CheckpointBrowser.tsx\<close>.

  One round asks for the runs and then for the checkpoints of each of them; the outcome of the
  request for the \<open>i\<close>-th run is \<open>cks i\<close>. \<open>getTime\<close> is the time value of a creation date, a
  parameter because parsing dates is the browser's; the dates the control plane sends are valid.
  \<open>Array.prototype.sort\<close> is stable, and so is \<open>sort_key\<close>.
\<close>

section \<open>State and operations\<close>

record ckpt_browser =
  cb_checkpoints :: "CheckpointInfo list"
  cb_loading :: bool
  cb_error :: "jsstring option"

definition browser_init :: ckpt_browser where
  "browser_init = \<lparr>cb_checkpoints = [], cb_loading = True, cb_error = None\<rparr>"

type_synonym browser_round = "RunStatus list fetched \<times> (nat \<Rightarrow> CheckpointInfo list fetched)"

text \<open>The checkpoints of one run: a request that fails in any way counts as no checkpoints.\<close>

definition run_checkpoints :: "CheckpointInfo list fetched \<Rightarrow> CheckpointInfo list" where
  "run_checkpoints f =
     (case f of
        Inl e \<Rightarrow> []
      | Inr res \<Rightarrow> if \<not> res_ok res then [] else (case res_json res of Inl e \<Rightarrow> [] | Inr cs \<Rightarrow> cs))"

definition sort_newest :: "(jsstring \<Rightarrow> int) \<Rightarrow> CheckpointInfo list \<Rightarrow> CheckpointInfo list" where
  "sort_newest getTime cs = sort_key (\<lambda>c. - getTime (ci_created_at c)) cs"

definition try_runs :: "RunStatus list fetched \<Rightarrow> thrown + RunStatus list" where
  "try_runs f =
     (case f of
        Inl e \<Rightarrow> Inl e
      | Inr res \<Rightarrow>
          if \<not> res_ok res then Inl (Some (js ''Runs: '' @ int_str (res_status res))) else res_json res)"

definition browser_fetchAll :: "(jsstring \<Rightarrow> int) \<Rightarrow> browser_round \<Rightarrow> ckpt_browser \<Rightarrow> ckpt_browser" where
  "browser_fetchAll getTime rnd s =
     (case try_runs (fst rnd) of
        Inl e \<Rightarrow> s\<lparr>cb_error := Some (errmsg ''Failed to fetch'' e)\<rparr>
      | Inr runs \<Rightarrow>
          let allCkpts = concat (map (\<lambda>i. run_checkpoints (snd rnd i)) [0..<length runs])
          in s\<lparr>cb_checkpoints := sort_newest getTime allCkpts, cb_error := None\<rparr>)\<lparr>cb_loading := False\<rparr>"

definition browser_totalBytes :: "CheckpointInfo list \<Rightarrow> int" where
  "browser_totalBytes cs = foldl (\<lambda>s c. s + ci_total_bytes c) 0 cs"

definition browser_committedCount :: "CheckpointInfo list \<Rightarrow> nat" where
  "browser_committedCount cs = length (filter (\<lambda>c. ci_state c = CK_COMMITTED) cs)"

definition browser_totalShards :: "CheckpointInfo list \<Rightarrow> int" where
  "browser_totalShards cs = foldl (\<lambda>s c. s + ci_num_shards c) 0 cs"

section \<open>View\<close>

datatype browser_action = SetExpanded bool

text \<open>The size shown for one shard is the average over the declared number of shards.\<close>

definition shard_average :: "CheckpointInfo \<Rightarrow> real" where
  "shard_average ckpt = real_of_int (ci_total_bytes ckpt) / real_of_int (max (ci_num_shards ckpt) 1)"

definition shard_card :: "CheckpointInfo \<Rightarrow> nat \<times> jsstring \<Rightarrow> browser_action node" where
  "shard_card ckpt = (\<lambda>(idx, shardId).
     Elem ''div'' [Key shardId]
       [Elem ''div'' []
          [Elem ''p'' [] [Txt (shortId shardId 20)],
           Elem ''p'' [] [T ''Shard '', Txt (nat_str idx)]],
        Elem ''span'' [] [T ''~'', Txt (formatBytes (shard_average ckpt))]])"

definition CheckpointRow :: "browser_locale \<Rightarrow> CheckpointInfo \<Rightarrow> bool \<Rightarrow> browser_action node list" where
  "CheckpointRow lc ckpt expanded =
     [Elem ''tr'' [OnClick (SetExpanded (\<not> expanded))]
        [Elem ''td'' []
           [Elem ''span'' [] [Txt [Uni (if expanded then 9662 else 9656)]],
            Elem ''span'' [] [Txt (shortId (ci_checkpoint_id ckpt) 16)]],
         Elem ''td'' [] [Txt (slice 0 12 (ci_run_id ckpt))],
         Elem ''td'' [] [Txt (lc_number lc (ci_step ckpt))],
         Elem ''td'' [] [CkptBadge (ci_state ckpt)],
         Elem ''td'' [] [Txt (int_str (ci_num_shards ckpt))],
         Elem ''td'' [] [Txt (formatBytes (real_of_int (ci_total_bytes ckpt)))],
         Elem ''td'' [] [Txt (formatDate lc (ci_created_at ckpt))]]]
     @ show_if expanded
         [Elem ''tr'' []
            [Elem ''td'' []
               [Elem ''div'' []
                  [Elem ''h4'' [] [T ''Shard Details ('', Txt (nat_str (length (ci_shard_ids ckpt))), T '' shards)''],
                   if length (ci_shard_ids ckpt) = 0
                   then Elem ''p'' [] [T ''No shard data available.'']
                   else Elem ''div'' []
                          (map (shard_card ckpt) (zip [0..<length (ci_shard_ids ckpt)] (ci_shard_ids ckpt)))]]]]"

definition keyed_row :: "browser_locale \<Rightarrow> (jsstring \<Rightarrow> bool) \<Rightarrow> CheckpointInfo \<Rightarrow> browser_action node" where
  "keyed_row lc expanded ckpt =
     Elem ''CheckpointRow'' [Key (ci_checkpoint_id ckpt)]
       (CheckpointRow lc ckpt (expanded (ci_checkpoint_id ckpt)))"

definition browser_view :: "browser_locale \<Rightarrow> (jsstring \<Rightarrow> bool) \<Rightarrow> ckpt_browser \<Rightarrow> browser_action node" where
  "browser_view lc expanded s =
     Elem ''div'' []
       ([SectionHeader ''Checkpoint Browser'' (Some ''Browse and inspect checkpoints across all training runs.'') []]
        @ error_banner (cb_error s)
        @ [Elem ''div'' []
             [MetricCard ''Total Checkpoints'' (nat_str (length (cb_checkpoints s))) None None,
              MetricCard ''Committed'' (nat_str (browser_committedCount (cb_checkpoints s))) None (Some ''text-ok''),
              MetricCard ''Total Shards'' (int_str (browser_totalShards (cb_checkpoints s))) None None,
              MetricCard ''Total Storage''
                (formatBytes (real_of_int (browser_totalBytes (cb_checkpoints s)))) None None]]
        @ show_if (cb_loading s) [Loading ''Loading checkpoints...'']
        @ show_if (\<not> cb_loading s \<and> length (cb_checkpoints s) = 0 \<and> (cb_error s = None \<or> cb_error s = Some []))
            [EmptyState ''No checkpoints found across any run.'' []]
        @ show_if (\<not> cb_loading s \<and> length (cb_checkpoints s) > 0)
            [Elem ''div'' []
               [Elem ''table'' []
                  [Elem ''thead'' []
                     [Elem ''tr'' []
                        (map (\<lambda>h. Elem ''th'' [] [T h])
                           [''Checkpoint ID'', ''Run'', ''Step'', ''State'', ''Shards'', ''Size'', ''Created''])],
                   Elem ''tbody'' [] (map (keyed_row lc expanded) (cb_checkpoints s))]]])"

section \<open>Contracts\<close>

definition browser_failure :: "browser_round \<Rightarrow> jsstring option" where
  "browser_failure rnd =
     (case try_runs (fst rnd) of Inl e \<Rightarrow> Some (errmsg ''Failed to fetch'' e) | Inr runs \<Rightarrow> None)"

definition browser_payload :: "(jsstring \<Rightarrow> int) \<Rightarrow> browser_round \<Rightarrow> CheckpointInfo list" where
  "browser_payload getTime rnd =
     (case try_runs (fst rnd) of
        Inl e \<Rightarrow> []
      | Inr runs \<Rightarrow>
          sort_newest getTime (concat (map (\<lambda>i. run_checkpoints (snd rnd i)) [0..<length runs])))"

interpretation browser_poll: atomic_poller "browser_fetchAll getTime" cb_loading cb_error browser_failure
  cb_checkpoints "browser_payload getTime" for getTime
  by unfold_locales
    (auto simp: browser_fetchAll_def browser_failure_def browser_payload_def Let_def split: sum.split)

interpretation browser_rows: keyed_list "keyed_row lc expanded" ci_checkpoint_id for lc expanded
  by unfold_locales (simp add: keyed_row_def)

interpretation shard_cards: keyed_list "shard_card ckpt" snd for ckpt
  by unfold_locales (auto simp: shard_card_def)

section \<open>Lemmas\<close>

lemma sort_newest_sorted:
  "sorted_wrt (\<lambda>a b. getTime (ci_created_at b) \<le> getTime (ci_created_at a)) (sort_newest getTime cs)"
proof -
  have "sorted (map (\<lambda>c. - getTime (ci_created_at c)) (sort_newest getTime cs))"
    unfolding sort_newest_def by (rule sorted_sort_key)
  then show ?thesis by (simp add: sorted_wrt_map)
qed

lemma sort_newest_stable:
  "filter (\<lambda>c. getTime (ci_created_at c) = t) (sort_newest getTime cs) =
   filter (\<lambda>c. getTime (ci_created_at c) = t) cs"
proof -
  have "(getTime (ci_created_at c) = t) = (- getTime (ci_created_at c) = - t)" for c by auto
  then show ?thesis
    using sort_key_stable [of "\<lambda>c. - getTime (ci_created_at c)" "- t" cs] by (simp add: sort_newest_def)
qed

lemma sum_sort_newest: "sum_list (map f (sort_newest getTime cs)) = sum_list (map f (cs :: _ list))"
  for f :: "CheckpointInfo \<Rightarrow> int"
proof -
  have "mset (map f (sort_newest getTime cs)) = mset (map f cs)" by (simp add: sort_newest_def)
  then show ?thesis by (metis sum_mset_sum_list)
qed

section \<open>Properties\<close>

text \<open>
  After a successful round the browser lists the checkpoints of all runs, newest first: the
  list is a rearrangement of the checkpoints of the runs whose request succeeded, creation times
  never increase along it, and checkpoints created at the same time keep the order in which the
  runs list them. A failing request for one run hides only that run's checkpoints.
\<close>

theorem browser_lists_newest_first:
  assumes "try_runs (fst rnd) = Inr runs"
  shows "mset (cb_checkpoints (browser_fetchAll getTime rnd s)) =
      mset (concat (map (\<lambda>i. run_checkpoints (snd rnd i)) [0..<length runs]))
    \<and> sorted_wrt (\<lambda>a b. getTime (ci_created_at b) \<le> getTime (ci_created_at a))
        (cb_checkpoints (browser_fetchAll getTime rnd s))
    \<and> filter (\<lambda>c. getTime (ci_created_at c) = t) (cb_checkpoints (browser_fetchAll getTime rnd s)) =
        filter (\<lambda>c. getTime (ci_created_at c) = t)
          (concat (map (\<lambda>i. run_checkpoints (snd rnd i)) [0..<length runs]))"
proof -
  have "cb_checkpoints (browser_fetchAll getTime rnd s) =
      sort_newest getTime (concat (map (\<lambda>i. run_checkpoints (snd rnd i)) [0..<length runs]))"
    using assms by (simp add: browser_fetchAll_def Let_def)
  then show ?thesis
    by (simp only: sort_newest_sorted sort_newest_stable) (simp add: sort_newest_def)
qed

definition sample_checkpoint :: "string \<Rightarrow> string \<Rightarrow> CheckpointInfo" where
  "sample_checkpoint ident created =
     \<lparr>ci_checkpoint_id = js ident, ci_run_id = js ''run'', ci_step = 50, ci_state = CK_COMMITTED,
      ci_num_shards = 1, ci_total_bytes = 10, ci_created_at = js created, ci_shard_ids = []\<rparr>"

definition sample_run :: "string \<Rightarrow> RunStatus" where
  "sample_run ident =
     \<lparr>rs_run_id = js ident, rs_name = js ident, rs_state = RUNNING, rs_current_step = 60,
      rs_active_workers = 2, rs_created_at = js ''1'', rs_updated_at = js ''1'', rs_error_message = None\<rparr>"

definition sample_round :: browser_round where
  "sample_round =
     (answer [sample_run ''r1'', sample_run ''r2''],
      \<lambda>i. if i = 0 then answer [sample_checkpoint ''a'' ''1'', sample_checkpoint ''b'' ''22'']
          else refusal 500 ''Internal Server Error'')"

theorem browser_lists_newest_first_witness:
  "cb_checkpoints (browser_fetchAll (\<lambda>d. int (length d)) sample_round browser_init) =
     [sample_checkpoint ''b'' ''22'', sample_checkpoint ''a'' ''1'']"
proof -
  let ?cs = "cb_checkpoints (browser_fetchAll (\<lambda>d. int (length d)) sample_round browser_init)"
  have runs: "try_runs (fst sample_round) = Inr [sample_run ''r1'', sample_run ''r2'']"
    by (simp add: sample_round_def try_runs_def answer_def res_ok_def)
  have all: "concat (map (\<lambda>i. run_checkpoints (snd sample_round i)) [0..<length [sample_run ''r1'', sample_run ''r2'']]) =
      [sample_checkpoint ''a'' ''1'', sample_checkpoint ''b'' ''22'']"
    by (simp add: sample_round_def run_checkpoints_def answer_def refusal_def res_ok_def)
  note props = browser_lists_newest_first [OF runs, of "\<lambda>d. int (length d)" browser_init, unfolded all]
  from props have "mset ?cs = {# sample_checkpoint ''a'' ''1'', sample_checkpoint ''b'' ''22'' #}" by simp
  then have "length ?cs = 2" by (metis size_mset size_add_mset size_empty numeral_2_eq_2)
  then obtain x y where xy: "?cs = [x, y]" by (metis length_Suc_conv length_0_conv numeral_2_eq_2)
  with props have "{# x, y #} = {# sample_checkpoint ''a'' ''1'', sample_checkpoint ''b'' ''22'' #}"
    and "length (ci_created_at y) \<le> length (ci_created_at x)" by simp_all
  then have "x = sample_checkpoint ''b'' ''22'' \<and> y = sample_checkpoint ''a'' ''1''"
    by (auto simp: add_eq_conv_ex sample_checkpoint_def)
  with xy show ?thesis by simp
qed

text \<open>
  The browser shows the last known good list, and its cards sum up exactly the listed rows:
  storage and shards are sums over them, and rows have distinct keys when the checkpoints have
  distinct identifiers.
\<close>

theorem browser_last_known_good:
  "cb_checkpoints (foldl (\<lambda>s r. browser_fetchAll getTime r s) browser_init rs) =
     (case filter (\<lambda>r. browser_failure r = None) rs of
        [] \<Rightarrow> [] | g # gs \<Rightarrow> browser_payload getTime (last (g # gs)))
   \<and> cb_error (foldl (\<lambda>s r. browser_fetchAll getTime r s) browser_init rs) =
     (if rs = [] then None else browser_failure (last rs))
   \<and> cb_loading (foldl (\<lambda>s r. browser_fetchAll getTime r s) browser_init rs) = (rs = [])
   \<and> browser_totalBytes cs = sum_list (map ci_total_bytes cs)
   \<and> browser_totalShards cs = sum_list (map ci_num_shards cs)
   \<and> distinct (keys_of (map (keyed_row lc expanded) cs)) = distinct (map ci_checkpoint_id cs)"
proof -
  have init: "cb_checkpoints browser_init = []" "cb_error browser_init = None" "cb_loading browser_init"
    by (simp_all add: browser_init_def)
  have "foldl (\<lambda>s c. s + f c) a ys = a + sum_list (map f ys)" for f :: "CheckpointInfo \<Rightarrow> int" and a ys
    by (induction ys arbitrary: a) simp_all
  then have "browser_totalBytes cs = sum_list (map ci_total_bytes cs)"
    "browser_totalShards cs = sum_list (map ci_num_shards cs)"
    by (simp_all add: browser_totalBytes_def browser_totalShards_def)
  moreover have "cb_error (foldl (\<lambda>s r. browser_fetchAll getTime r s) browser_init rs) =
     (if rs = [] then None else browser_failure (last rs))"
    using init by (cases "rs = []") (simp_all add: browser_poll.error_after_rounds)
  ultimately show ?thesis
    using init browser_rows.keys_distinct [of lc expanded cs]
    by (simp add: browser_poll.data_after_rounds browser_poll.loading_after_rounds cong: list.case_cong)
qed

text \<open>
  Expanding a checkpoint shows, for each of its shards, the average shard size; the text
  reads \<open>undefined\<close> instead of a unit exactly when the checkpoint is smaller than its declared
  number of shards but not empty (fewer bytes than shards), or its average shard has 1 PB or more,
  or its size is negative.
\<close>

theorem shard_size_undefined_iff:
  "endsWith (formatBytes (shard_average ckpt)) (js ''undefined'') \<longleftrightarrow>
     ci_total_bytes ckpt < 0
     \<or> (0 < ci_total_bytes ckpt \<and> ci_total_bytes ckpt < max (ci_num_shards ckpt) 1)
     \<or> 1024 ^ 5 * max (ci_num_shards ckpt) 1 \<le> ci_total_bytes ckpt"
proof -
  define n where "n = max (ci_num_shards ckpt) 1"
  have n: "0 < n" by (simp add: n_def)
  have "shard_average ckpt < 0 \<longleftrightarrow> ci_total_bytes ckpt < 0"
    "0 < shard_average ckpt \<longleftrightarrow> 0 < ci_total_bytes ckpt"
    "shard_average ckpt < 1 \<longleftrightarrow> ci_total_bytes ckpt < n"
    using n by (simp_all add: shard_average_def n_def [symmetric] divide_less_0_iff zero_less_divide_iff)
  moreover have "1024 ^ 5 \<le> shard_average ckpt \<longleftrightarrow> 1024 ^ 5 * n \<le> ci_total_bytes ckpt"
    using n unfolding shard_average_def n_def [symmetric]
    by (subst pos_le_divide_eq) (simp_all flip: of_int_le_iff [where 'a = real])
  ultimately show ?thesis unfolding formatBytes_undefined_iff n_def [symmetric] by simp
qed

end
