(* ===== verification/HealthPage.thy ===== *)
theory HealthPage
  imports Ui Fetching
begin

text \<open>
  The health page, \<open>frontend/src/pages/HealthPage.tsx\<close>: overall status, workers and their
  heartbeat lags. The answer to the lag request is either the object of lags itself or an object
  that has it under \<open>lags\<close>.
\<close>

section \<open>Configuration\<close>

record health_config =
  hc_label :: string
  hc_dot :: string
  hc_border :: string

fun HEALTH_CONFIG :: "HealthLevel \<Rightarrow> health_config" where
  "HEALTH_CONFIG HEALTHY =
     \<lparr>hc_label = ''All Systems Operational'', hc_dot = ''bg-ok'', hc_border = ''border-l-ok''\<rparr>"
| "HEALTH_CONFIG DEGRADED =
     \<lparr>hc_label = ''Degraded Performance'', hc_dot = ''bg-warn'', hc_border = ''border-l-warn''\<rparr>"
| "HEALTH_CONFIG UNHEALTHY =
     \<lparr>hc_label = ''System Unhealthy'', hc_dot = ''bg-err'', hc_border = ''border-l-err''\<rparr>"

definition lagColor :: "real \<Rightarrow> string" where
  "lagColor lag = (if lag < 5 then ''text-ok'' else if lag < 30 then ''text-warn'' else ''text-err'')"

definition lagBarColor :: "real \<Rightarrow> string" where
  "lagBarColor lag = (if lag < 5 then ''bg-ok'' else if lag < 30 then ''bg-warn'' else ''bg-err'')"

definition lag_pct :: "real \<Rightarrow> real" where
  "lag_pct lag = min 100 (lag / 60 * 100)"

definition LagIndicator :: "real \<Rightarrow> 'a node" where
  "LagIndicator lag =
     Elem ''div'' [] [Elem ''div'' [Cls (lagBarColor lag), Width (lag_pct lag)] []]"

section \<open>State and operations\<close>

type_synonym lags = "(jsstring \<times> real) list"

datatype lags_json = LagsObject lags | LagsField lags

fun lags_of :: "lags_json \<Rightarrow> lags" where
  "lags_of (LagsField l) = l"
| "lags_of (LagsObject l) = l"

record health_page =
  hp_health :: "HealthStatus option"
  hp_workers :: "WorkerInfo list"
  hp_lags :: lags
  hp_loading :: bool
  hp_error :: "jsstring option"

definition health_init :: health_page where
  "health_init = \<lparr>hp_health = None, hp_workers = [], hp_lags = [], hp_loading = True, hp_error = None\<rparr>"

type_synonym health_round =
  "thrown + (HealthStatus response \<times> WorkerInfo list response \<times> lags_json response)"

definition health_try :: "health_round \<Rightarrow> health_page \<Rightarrow> health_page \<times> thrown option" where
  "health_try f s =
     (case f of
        Inl e \<Rightarrow> (s, Some e)
      | Inr (healthRes, workersRes, lagsRes) \<Rightarrow>
          if \<not> res_ok healthRes then (s, Some (Some (js ''Health: '' @ int_str (res_status healthRes))))
          else if \<not> res_ok workersRes then (s, Some (Some (js ''Workers: '' @ int_str (res_status workersRes))))
          else if \<not> res_ok lagsRes then (s, Some (Some (js ''Lags: '' @ int_str (res_status lagsRes))))
          else (case res_json healthRes of
                  Inl e \<Rightarrow> (s, Some e)
                | Inr h \<Rightarrow>
                    let s1 = s\<lparr>hp_health := Some h\<rparr>
                    in (case res_json workersRes of
                          Inl e \<Rightarrow> (s1, Some e)
                        | Inr ws \<Rightarrow>
                            let s2 = s1\<lparr>hp_workers := ws\<rparr>
                            in (case res_json lagsRes of
                                  Inl e \<Rightarrow> (s2, Some e)
                                | Inr l \<Rightarrow> (s2\<lparr>hp_lags := lags_of l, hp_error := None\<rparr>, None)))))"

definition health_fetchAll :: "health_round \<Rightarrow> health_page \<Rightarrow> health_page" where
  "health_fetchAll f s =
     (case health_try f s of
        (s1, Some e) \<Rightarrow> s1\<lparr>hp_error := Some (errmsg ''Failed to fetch health data'' e)\<rparr>
      | (s1, None) \<Rightarrow> s1)\<lparr>hp_loading := False\<rparr>"

definition lag_of :: "lags \<Rightarrow> WorkerInfo \<Rightarrow> real" where
  "lag_of l w = (case map_of l (wi_worker_id w) of None \<Rightarrow> 0 | Some x \<Rightarrow> x)"

definition worker_active :: "WorkerInfo \<Rightarrow> bool" where
  "worker_active w = (wi_status w = js ''ACTIVE'' \<or> wi_status w = js ''active'')"

section \<open>View\<close>

definition status_banner :: "HealthStatus \<Rightarrow> 'a node" where
  "status_banner health =
     (let cfg = HEALTH_CONFIG (hs_status health)
      in Elem ''div'' [Cls (hc_border cfg)]
           [Elem ''div'' []
              [Elem ''div'' []
                 [Elem ''div'' [Cls (hc_dot cfg)] [], Elem ''h3'' [] [T (hc_label cfg)]],
               Elem ''div'' []
                 [Elem ''div'' [] [Elem ''span'' [] [T ''Version''], Elem ''p'' [] [Txt (hs_version health)]],
                  Elem ''div'' []
                    [Elem ''span'' [] [T ''Uptime''],
                     Elem ''p'' [] [Txt (formatUptime (hs_uptime_seconds health))]],
                  Elem ''div'' []
                    [Elem ''span'' [] [T ''Active Runs''], Elem ''p'' [] [Txt (int_str (hs_active_runs health))]],
                  Elem ''div'' []
                    [Elem ''span'' [] [T ''etcd''],
                     Elem ''p'' [Cls (if hs_etcd_connected health then ''text-ok'' else ''text-err'')]
                       [if hs_etcd_connected health then T ''Connected'' else T ''Disconnected'']]]]])"

definition worker_card :: "browser_locale \<Rightarrow> lags \<Rightarrow> WorkerInfo \<Rightarrow> 'a node" where
  "worker_card lc l w =
     (let lag = lag_of l w; isActive = worker_active w
      in Elem ''div'' [Key (wi_worker_id w)]
           [Elem ''div'' []
              [Elem ''div'' []
                 [Elem ''p'' [] [T ''Worker '', Txt (int_str (wi_rank w))],
                  Elem ''p'' []
                    [Txt (if length (wi_worker_id w) > 16
                          then slice 0 16 (wi_worker_id w) @ [ellipsis] else wi_worker_id w)]],
               Elem ''span'' [Cls (if isActive then ''bg-ok-muted text-ok'' else ''bg-err-muted text-err'')]
                 [Elem ''span''
                    [Cls (case map_of WORKER_DOT (wi_status w) of None \<Rightarrow> ''bg-muted'' | Some c \<Rightarrow> c)] [],
                  Txt (wi_status w)]],
            Elem ''div'' []
              [Elem ''div'' []
                 [Elem ''span'' [] [T ''Step''], Elem ''p'' [] [Txt (lc_number lc (wi_current_step w))]],
               Elem ''div'' []
                 [Elem ''span'' [] [T ''Heartbeat''], Elem ''p'' [] [Txt (formatTime lc (wi_last_heartbeat w))]],
               Elem ''div'' []
                 [Elem ''span'' [] [T ''Lag''],
                  Elem ''p'' [Cls (lagColor lag)] [Txt (toFixed 1 lag), T ''s'']]],
            Elem ''div'' [] [Elem ''span'' [] [T ''Heartbeat lag''], LagIndicator lag]])"

definition health_view :: "browser_locale \<Rightarrow> health_page \<Rightarrow> 'a node" where
  "health_view lc s =
     (if hp_loading s then Loading ''Loading health data...''
      else Elem ''div'' []
        ([SectionHeader ''System Health''
            (Some ''Monitor workers, heartbeat status, and system health indicators.'') []]
         @ error_banner (hp_error s)
         @ show_some (hp_health s) (\<lambda>h. [status_banner h])
         @ [Elem ''div'' []
              [Elem ''h3'' [] [T ''Workers ('', Txt (nat_str (length (hp_workers s))), T '')'']]]
         @ show_if (length (hp_workers s) = 0) [Elem ''div'' [] [T ''No workers registered.'']]
         @ [Elem ''div'' [] (map (worker_card lc (hp_lags s)) (hp_workers s))]))"

section \<open>Contracts\<close>

definition health_failure :: "health_round \<Rightarrow> jsstring option" where
  "health_failure f = map_option (errmsg ''Failed to fetch health data'') (snd (health_try f health_init))"

lemma health_try_failure: "snd (health_try f s) = snd (health_try f t)"
  by (auto simp: health_try_def Let_def split: sum.splits prod.splits)

lemma health_try_error: "snd (health_try f s) = None \<Longrightarrow> hp_error (fst (health_try f s)) = None"
  by (auto simp: health_try_def Let_def split: sum.splits prod.splits if_splits)

lemma health_fetchAll_fst:
  "health_fetchAll f s =
     (case snd (health_try f s) of
        Some e \<Rightarrow> (fst (health_try f s))\<lparr>hp_error := Some (errmsg ''Failed to fetch health data'' e)\<rparr>
      | None \<Rightarrow> fst (health_try f s))\<lparr>hp_loading := False\<rparr>"
  by (auto simp: health_fetchAll_def split: prod.splits option.splits)

interpretation health_poll: poller health_fetchAll hp_loading hp_error health_failure
proof
  show "\<not> hp_loading (health_fetchAll f s)" for f s
    by (simp add: health_fetchAll_def)
  show "hp_error (health_fetchAll f s) = health_failure f" for f s
    using health_try_failure [of f s health_init] health_try_error [of f s]
    by (auto simp: health_fetchAll_fst health_failure_def split: option.split)
qed

interpretation worker_cards: keyed_list "worker_card lc l" wi_worker_id for lc l
  by unfold_locales (simp add: worker_card_def Let_def)

section \<open>Properties\<close>

definition lag_level :: "real \<Rightarrow> nat" where
  "lag_level lag = (if lag < 5 then 0 else if lag < 30 then 1 else 2)"

text \<open>
  Heartbeat lags are shown consistently: text and bar use the same three levels (below 5 s,
  below 30 s, above) for every lag, a larger lag never shows a better level, and the bar of a
  non-negative lag is between 0 and 100 percent, full from one minute on.
\<close>

theorem lag_display_consistent:
  assumes "0 \<le> lag" and "lag \<le> lag'"
  shows "lagColor lag = ''text-'' @ [''ok'', ''warn'', ''err''] ! lag_level lag
    \<and> lagBarColor lag = ''bg-'' @ [''ok'', ''warn'', ''err''] ! lag_level lag
    \<and> lag_level lag \<le> lag_level lag'
    \<and> 0 \<le> lag_pct lag \<and> lag_pct lag \<le> 100 \<and> lag_pct lag \<le> lag_pct lag' \<and> (lag_pct lag = 100 \<longleftrightarrow> 60 \<le> lag)"
  using assms by (auto simp: lagColor_def lagBarColor_def lag_level_def lag_pct_def min_def)

theorem lag_display_consistent_witness:
  "lagColor 7 = ''text-warn'' \<and> lagBarColor 7 = ''bg-warn'' \<and> lag_pct 7 \<le> lag_pct 90 \<and> lag_pct 7 \<noteq> 100"
  using lag_display_consistent [of 7 90] by (simp add: lag_level_def)

text \<open>
  A round of the health page ends with the error of that round and without the loading
  state; status, workers and lags are replaced in this order, so a round whose later body does
  not parse leaves the earlier parts new and the later ones as they were, and a round in which a
  request fails leaves all three as they were.
\<close>

theorem health_round_effect:
  "hp_error (health_fetchAll f s) = health_failure f
   \<and> \<not> hp_loading (health_fetchAll f s)
   \<and> (hp_health (health_fetchAll f s), hp_workers (health_fetchAll f s), hp_lags (health_fetchAll f s)) =
      (case f of
         Inl e \<Rightarrow> (hp_health s, hp_workers s, hp_lags s)
       | Inr (hr, wr, lr) \<Rightarrow>
           if res_ok hr \<and> res_ok wr \<and> res_ok lr
           then (case (res_json hr, res_json wr, res_json lr) of
                   (Inr h, Inr ws, Inr l) \<Rightarrow> (Some h, ws, lags_of l)
                 | (Inr h, Inr ws, Inl e) \<Rightarrow> (Some h, ws, hp_lags s)
                 | (Inr h, Inl e, _) \<Rightarrow> (Some h, hp_workers s, hp_lags s)
                 | _ \<Rightarrow> (hp_health s, hp_workers s, hp_lags s))
           else (hp_health s, hp_workers s, hp_lags s))"
proof -
  have "(hp_health (health_fetchAll f s), hp_workers (health_fetchAll f s), hp_lags (health_fetchAll f s)) =
      (hp_health (fst (health_try f s)), hp_workers (fst (health_try f s)), hp_lags (fst (health_try f s)))"
    by (simp add: health_fetchAll_fst split: option.split)
  then show ?thesis
    using health_poll.error_complete [of f s] health_poll.loading_complete [of f s]
    by (simp add: health_try_def Let_def split: sum.split prod.split)
qed

end
