(* ===== verification/PerformancePage.thy ===== *)
theory PerformancePage
  imports Ui Fetching
begin

text \<open>
  The performance page, \<open>frontend/src/pages/PerformancePage.tsx\<close>: metric cards, the latency
  chart, throughput and the utilisation bars. The chart itself is drawn by a library; the model
  keeps the data that is handed to it.
\<close>

section \<open>Data\<close>

record LatencyPoint =
  lp_index :: int
  lp_save :: real
  lp_restore :: real

record PerformanceData =
  pd_latency :: "LatencyPoint list"
  pd_total_checkpoint_bytes :: int
  pd_checkpoint_count :: int

record perf_page =
  pp_metrics :: "MetricsSummary option"
  pp_perfData :: "PerformanceData option"
  pp_loading :: bool
  pp_error :: "jsstring option"

definition perf_init :: perf_page where
  "perf_init = \<lparr>pp_metrics = None, pp_perfData = None, pp_loading = True, pp_error = None\<rparr>"

type_synonym perf_round = "thrown + (MetricsSummary response \<times> PerformanceData response)"

section \<open>Operations\<close>

definition perf_try :: "perf_round \<Rightarrow> perf_page \<Rightarrow> perf_page \<times> thrown option" where
  "perf_try f s =
     (case f of
        Inl e \<Rightarrow> (s, Some e)
      | Inr (metricsRes, perfRes) \<Rightarrow>
          if \<not> res_ok metricsRes
          then (s, Some (Some (js ''Metrics: '' @ int_str (res_status metricsRes) @ js '' ''
                               @ res_statusText metricsRes)))
          else (case res_json metricsRes of
                  Inl e \<Rightarrow> (s, Some e)
                | Inr m \<Rightarrow>
                    let s1 = s\<lparr>pp_metrics := Some m\<rparr>
                    in if res_ok perfRes
                       then (case res_json perfRes of
                               Inl e \<Rightarrow> (s1, Some e)
                             | Inr p \<Rightarrow> (s1\<lparr>pp_perfData := Some p, pp_error := None\<rparr>, None))
                       else (s1\<lparr>pp_error := None\<rparr>, None)))"

definition perf_fetchData :: "perf_round \<Rightarrow> perf_page \<Rightarrow> perf_page" where
  "perf_fetchData f s =
     (case perf_try f s of
        (s1, Some e) \<Rightarrow> s1\<lparr>pp_error := Some (errmsg ''Failed to fetch metrics'' e)\<rparr>
      | (s1, None) \<Rightarrow> s1)\<lparr>pp_loading := False\<rparr>"

text \<open>\<open>Math.round\<close> rounds a half up.\<close>

definition math_round :: "real \<Rightarrow> int" where
  "math_round x = \<lfloor>x + 1 / 2\<rfloor>"

definition ratio_pct :: "int \<Rightarrow> int \<Rightarrow> int" where
  "ratio_pct part whole = (if whole > 0 then math_round (real_of_int part / real_of_int whole * 100) else 0)"

definition bar_color :: "int \<Rightarrow> string \<Rightarrow> string" where
  "bar_color pct color = (if pct > 80 then ''bg-err'' else if pct > 60 then ''bg-warn'' else color)"

section \<open>View\<close>

definition UtilBar :: "string \<Rightarrow> int \<Rightarrow> string \<Rightarrow> 'a node" where
  "UtilBar label pct color =
     Elem ''div'' []
       [Elem ''div'' [] [Elem ''span'' [] [T label], Elem ''span'' [] [Txt (int_str pct), T ''%'']],
        Elem ''div'' [] [Elem ''div'' [Cls (bar_color pct color), Width (real_of_int pct)] []]]"

text \<open>The tooltip of the latency chart: name, value and colour of each series at a point.\<close>

definition DarkTooltip :: "bool \<Rightarrow> (jsstring \<times> real \<times> string) list \<Rightarrow> jsstring \<Rightarrow> 'a node list" where
  "DarkTooltip active payload label =
     (if \<not> active \<or> payload = [] then []
      else [Elem ''div'' []
              (Elem ''p'' [] [T ''#'', Txt label]
               # map (\<lambda>(name, value, color).
                   Elem ''p'' [Key name, Prop ''color'' (js color)] [Txt name, T '': '', Txt (toFixed 2 value), T ''s'']) payload)])"

definition rate_color :: "real \<Rightarrow> string" where
  "rate_color r = (if r \<ge> 95 / 100 then ''text-ok'' else if r \<ge> 8 / 10 then ''text-warn'' else ''text-err'')"

definition metric_cards :: "MetricsSummary \<Rightarrow> 'a node" where
  "metric_cards m =
     Elem ''div'' []
       [MetricCard ''Total Runs'' (int_str (ms_total_runs m)) None None,
        MetricCard ''Active Runs'' (int_str (ms_active_runs m)) None (Some ''text-brand-violet''),
        MetricCard ''Total Checkpoints'' (int_str (ms_total_checkpoints m)) None None,
        MetricCard ''Checkpoint Size'' (formatBytes (real_of_int (ms_total_checkpoint_bytes m))) None None,
        MetricCard ''Active Workers''
          (int_str (ms_active_workers m) @ js '' / '' @ int_str (ms_total_workers m)) None None,
        MetricCard ''Success Rate'' (toFixed 1 (ms_checkpoint_success_rate m * 100) @ js ''%'') None
          (Some (rate_color (ms_checkpoint_success_rate m)))]"

text \<open>A line chart gets its data as children, one element per point.\<close>

definition latency_section :: "LatencyPoint list \<Rightarrow> 'a node" where
  "latency_section latencyData =
     Elem ''div'' []
       (Elem ''h3'' [] [T ''Checkpoint Latency Over Time'']
        # (if length latencyData > 0
           then [Elem ''LineChart'' []
                   (map (\<lambda>p. Elem ''point'' [Num ''save'' (lp_save p), Num ''restore'' (lp_restore p)]
                              [Txt (int_str (lp_index p))]) latencyData),
                 Elem ''div'' []
                   [Elem ''span'' [] [T ''Save Latency''], Elem ''span'' [] [T ''Restore Latency'']]]
           else [Elem ''div'' []
                   [T ''No checkpoint latency data yet. Trigger a checkpoint to see metrics.'']]))"

definition throughput_section :: "PerformanceData option \<Rightarrow> 'a node" where
  "throughput_section perfData =
     Elem ''div'' []
       [Elem ''h3'' [] [T ''Throughput''],
        (case perfData of
           Some p \<Rightarrow>
             if pd_checkpoint_count p > 0
             then Elem ''div'' []
                    [Elem ''div'' []
                       [Elem ''p'' [] [T ''Total Data Written''],
                        Elem ''p'' [] [Txt (formatBytes (real_of_int (pd_total_checkpoint_bytes p)))]],
                     Elem ''div'' []
                       [Elem ''p'' [] [T ''Checkpoints Completed''],
                        Elem ''p'' [] [Txt (int_str (pd_checkpoint_count p))]]]
             else Elem ''div'' []
                    [T ''No throughput data yet. Complete a checkpoint cycle to see metrics.'']
         | None \<Rightarrow> Elem ''div'' []
                    [T ''No throughput data yet. Complete a checkpoint cycle to see metrics.''])]"

definition external_link :: "string \<Rightarrow> string \<Rightarrow> string \<Rightarrow> string \<Rightarrow> 'a node" where
  "external_link url title about host =
     Elem ''a'' [Href url]
       [Elem ''div'' [] [Elem ''div'' [] [Elem ''h4'' [] [T title], Elem ''p'' [] [T about]]],
        Elem ''p'' [] [T host]]"

definition utilisation_section :: "MetricsSummary option \<Rightarrow> 'a node" where
  "utilisation_section metrics =
     Elem ''div'' []
       [Elem ''h3'' [] [T ''Resource Utilization''],
        (case metrics of
           Some m \<Rightarrow>
             Elem ''div'' []
               [UtilBar ''Workers Active'' (ratio_pct (ms_active_workers m) (ms_total_workers m))
                  ''bg-brand-violet'',
                UtilBar ''Checkpoint Success'' (math_round (ms_checkpoint_success_rate m * 100)) ''bg-ok'',
                UtilBar ''Active Runs'' (ratio_pct (ms_active_runs m) (ms_total_runs m)) ''bg-brand-violet'']
         | None \<Rightarrow> Elem ''div'' [] [T ''No resource data available.''])]"

definition perf_view :: "perf_page \<Rightarrow> 'a node" where
  "perf_view s =
     (if pp_loading s then Loading ''Loading metrics...''
      else Elem ''div'' []
        ([SectionHeader ''Performance Metrics''
            (Some ''Checkpoint save/restore throughput, latency, and resource utilization.'') []]
         @ error_banner (pp_error s)
         @ show_some (pp_metrics s) (\<lambda>m. [metric_cards m])
         @ [latency_section (case pp_perfData s of None \<Rightarrow> [] | Some p \<Rightarrow> pd_latency p),
            throughput_section (pp_perfData s),
            Elem ''div'' []
              [external_link ''http://localhost:3001'' ''Grafana Dashboards''
                 ''Full metrics dashboards with custom panels'' ''localhost:3001'',
               external_link ''http://localhost:16686'' ''Jaeger Tracing''
                 ''Distributed trace viewer for checkpoint operations'' ''localhost:16686''],
            utilisation_section (pp_metrics s)]))"

section \<open>Contracts\<close>

definition perf_failure :: "perf_round \<Rightarrow> jsstring option" where
  "perf_failure f = map_option (errmsg ''Failed to fetch metrics'') (snd (perf_try f perf_init))"

lemma perf_try_failure: "snd (perf_try f s) = snd (perf_try f t)"
  by (auto simp: perf_try_def Let_def split: sum.splits prod.splits)

lemma perf_try_error: "snd (perf_try f s) = None \<Longrightarrow> pp_error (fst (perf_try f s)) = None"
  by (auto simp: perf_try_def Let_def split: sum.splits prod.splits if_splits)

lemma perf_fetchData_fst:
  "perf_fetchData f s =
     (case snd (perf_try f s) of
        Some e \<Rightarrow> (fst (perf_try f s))\<lparr>pp_error := Some (errmsg ''Failed to fetch metrics'' e)\<rparr>
      | None \<Rightarrow> fst (perf_try f s))\<lparr>pp_loading := False\<rparr>"
  by (auto simp: perf_fetchData_def split: prod.splits option.splits)

interpretation perf_poll: poller perf_fetchData pp_loading pp_error perf_failure
proof
  show "\<not> pp_loading (perf_fetchData f s)" for f s
    by (simp add: perf_fetchData_def)
  show "pp_error (perf_fetchData f s) = perf_failure f" for f s
    using perf_try_failure [of f s perf_init] perf_try_error [of f s]
    by (auto simp: perf_fetchData_fst perf_failure_def split: option.split)
qed

section \<open>Lemmas\<close>

lemma math_round_mono: "x \<le> y \<Longrightarrow> math_round x \<le> math_round y"
  by (simp add: math_round_def floor_mono)

lemma math_round_of_int [simp]: "math_round (of_int n) = n"
proof -
  have "\<lfloor>real_of_int n + 1 / 2\<rfloor> = n" by (rule floor_unique) simp_all
  then show ?thesis by (simp add: math_round_def)
qed

section \<open>Properties\<close>

text \<open>
  The utilisation bars stay on the scale: for a part between 0 and the whole, the percentage
  shown is between 0 and 100, it is 100 for the whole, grows with the part and differs from
  the exact value by at most one half; with an empty whole it is 0.
\<close>

theorem ratio_pct_bounds:
  assumes "0 \<le> part" and "part \<le> part'" and "part' \<le> whole"
  shows "0 \<le> ratio_pct part whole \<and> ratio_pct part whole \<le> ratio_pct part' whole
    \<and> ratio_pct part' whole \<le> 100 \<and> ratio_pct whole whole = (if whole > 0 then 100 else 0)
    \<and> (if whole > 0
       then \<bar>real_of_int (ratio_pct part whole) - real_of_int part / real_of_int whole * 100\<bar> \<le> 1 / 2
       else ratio_pct part whole = 0)"
proof (cases "whole > 0")
  case True
  have frac: "0 \<le> real_of_int part / real_of_int whole * 100"
    "real_of_int part / real_of_int whole * 100 \<le> real_of_int part' / real_of_int whole * 100"
    "real_of_int part' / real_of_int whole * 100 \<le> 100"
    using assms True by (simp_all add: divide_right_mono divide_le_eq)
  have "math_round 0 = 0" "math_round 100 = 100"
    using math_round_of_int [of 0] math_round_of_int [of 100] by simp_all
  then have "0 \<le> ratio_pct part whole" "ratio_pct part whole \<le> ratio_pct part' whole" "ratio_pct part' whole \<le> 100"
    using frac [THEN math_round_mono] True by (simp_all add: ratio_pct_def)
  moreover have "\<bar>real_of_int (math_round x) - x\<bar> \<le> 1 / 2" for x
    unfolding math_round_def by linarith
  ultimately show ?thesis
    using True \<open>math_round 100 = 100\<close> by (simp add: ratio_pct_def)
qed (use assms in \<open>simp add: ratio_pct_def\<close>)

theorem ratio_pct_bounds_witness:
  "0 \<le> ratio_pct 1 3 \<and> ratio_pct 1 3 \<le> ratio_pct 2 3 \<and> ratio_pct 2 3 \<le> 100 \<and> ratio_pct 3 3 = 100
   \<and> ratio_pct 1 3 = 33 \<and> ratio_pct 2 3 = 67"
  using ratio_pct_bounds [of 1 2 3] by (simp add: ratio_pct_def math_round_def)

text \<open>
  A round of the performance page ends with the error of that round and without the loading
  state. Failing performance data alone is not an error: the metrics are replaced, the old
  performance data stays, and the error is cleared; a failing metrics request keeps both.
\<close>

theorem perf_round_effect:
  "pp_error (perf_fetchData f s) = perf_failure f
   \<and> \<not> pp_loading (perf_fetchData f s)
   \<and> (pp_metrics (perf_fetchData f s), pp_perfData (perf_fetchData f s), perf_failure f = None) =
      (case f of
         Inl e \<Rightarrow> (pp_metrics s, pp_perfData s, False)
       | Inr (mr, pr) \<Rightarrow>
           (case (res_ok mr, res_json mr) of
              (True, Inr m) \<Rightarrow>
                if \<not> res_ok pr then (Some m, pp_perfData s, True)
                else (case res_json pr of
                        Inr p \<Rightarrow> (Some m, Some p, True)
                      | Inl e \<Rightarrow> (Some m, pp_perfData s, False))
            | _ \<Rightarrow> (pp_metrics s, pp_perfData s, False)))"
proof -
  have "(pp_metrics (perf_fetchData f s), pp_perfData (perf_fetchData f s)) =
      (pp_metrics (fst (perf_try f s)), pp_perfData (fst (perf_try f s)))"
    by (simp add: perf_fetchData_fst split: option.split)
  moreover have "(perf_failure f = None) = (snd (perf_try f s) = None)"
    using perf_try_failure [of f s perf_init] by (simp add: perf_failure_def)
  ultimately show ?thesis
    using perf_poll.error_complete [of f s] perf_poll.loading_complete [of f s]
    by (simp add: perf_try_def Let_def split: sum.split prod.split bool.split)
qed

end
