(* ===== verification/LogParser.thy ===== *)
theory LogParser
  imports JsRegex
begin

text \<open>
  The hook that reads training progress from the log stream
  (\<open>frontend/src/hooks/useLogParser.ts\<close>), and the log lines that the training harness prints
  (\<open>training-harness/train.py\<close>), which its patterns are written for.

  A message of the stream is a line, or malformed when its JSON does not parse. Numbers that are
  \<open>NaN\<close> are \<open>None\<close>.
\<close>

section \<open>Parsed data\<close>

record LossPoint =
  lo_step :: int
  lo_loss :: "real option"
  lo_stepsPerSec :: "real option"

record CheckpointMarker =
  cm_step :: int
  cm_loss :: "real option"
  cm_sizeBytes :: int
  cm_sha256 :: jsstring
  cm_saveTime :: "real option"

record RecoveryMarker =
  rm_checkpointId :: jsstring
  rm_step :: int
  rm_sizeBytes :: int
  rm_restoreTime :: "real option"

section \<open>Patterns\<close>

definition LOSS_RE :: "ritem list" where
  "LOSS_RE =
     lits ''step='' @ [Rep 1 Digits True] @ lits ''/'' @ [Rep 1 Digits False, Rep 1 Spaces False]
     @ lits ''loss='' @ [Rep 1 DigitsDot True, Rep 1 Spaces False]
     @ lits ''steps/s='' @ [Rep 1 DigitsDot True]"

definition CKPT_RE :: "ritem list" where
  "CKPT_RE =
     lits ''Checkpoint saved (runtime): step='' @ [Rep 1 Digits True]
     @ lits '' loss='' @ [Rep 1 DigitsDot True] @ lits '' size='' @ [Rep 1 Digits True]
     @ lits '' bytes sha256='' @ [Rep 1 NonSpaces True] @ lits '' time='' @ [Rep 1 DigitsDot True]
     @ lits ''s''"

definition RESTORE_RE :: "ritem list" where
  "RESTORE_RE =
     lits ''Restored from runtime checkpoint: checkpoint_id='' @ [Rep 1 NonSpaces True]
     @ lits '' step='' @ [Rep 1 Digits True] @ lits '' size='' @ [Rep 1 Digits True]
     @ lits '' bytes time='' @ [Rep 1 DigitsDot True] @ lits ''s''"

definition MAX_LOSS :: int where "MAX_LOSS = 500"

definition MAX_CKPT :: int where "MAX_CKPT = 50"

definition MAX_RESTORE :: int where "MAX_RESTORE = 10"

section \<open>The hook\<close>

record log_parser =
  lossHistory :: "LossPoint list"
  checkpointMarkers :: "CheckpointMarker list"
  recoveryMarkers :: "RecoveryMarker list"
  seenSteps :: "int set"

definition parser_init :: log_parser where
  "parser_init = \<lparr>lossHistory = [], checkpointMarkers = [], recoveryMarkers = [], seenSteps = {}\<rparr>"

text \<open>The digits that \<open>(\d+)\<close> captured always are a number.\<close>

definition captured_int :: "jsstring \<Rightarrow> int" where
  "captured_int s = (case parseInt10 s of Some n \<Rightarrow> n | None \<Rightarrow> 0)"

definition loss_point :: "jsstring list \<Rightarrow> LossPoint" where
  "loss_point lm =
     \<lparr>lo_step = captured_int (lm ! 0), lo_loss = parseFloat (lm ! 1), lo_stepsPerSec = parseFloat (lm ! 2)\<rparr>"

definition checkpoint_marker :: "jsstring list \<Rightarrow> CheckpointMarker" where
  "checkpoint_marker cm =
     \<lparr>cm_step = captured_int (cm ! 0), cm_loss = parseFloat (cm ! 1), cm_sizeBytes = captured_int (cm ! 2),
      cm_sha256 = cm ! 3, cm_saveTime = parseFloat (cm ! 4)\<rparr>"

definition recovery_marker :: "jsstring list \<Rightarrow> RecoveryMarker" where
  "recovery_marker rm =
     \<lparr>rm_checkpointId = rm ! 0, rm_step = captured_int (rm ! 1), rm_sizeBytes = captured_int (rm ! 2),
      rm_restoreTime = parseFloat (rm ! 3)\<rparr>"

definition push_loss :: "LossPoint list \<Rightarrow> LossPoint \<Rightarrow> LossPoint list" where
  "push_loss prev p = slice_from (- (MAX_LOSS - 1)) prev @ [p]"

definition push_checkpoint :: "CheckpointMarker list \<Rightarrow> CheckpointMarker \<Rightarrow> CheckpointMarker list" where
  "push_checkpoint prev m = slice_from (- (MAX_CKPT - 1)) prev @ [m]"

definition push_recovery :: "RecoveryMarker list \<Rightarrow> RecoveryMarker \<Rightarrow> RecoveryMarker list" where
  "push_recovery prev m = slice_from (- (MAX_RESTORE - 1)) prev @ [m]"

definition parse_loss :: "jsstring \<Rightarrow> log_parser \<Rightarrow> log_parser" where
  "parse_loss line s =
     (case exec LOSS_RE line of
        None \<Rightarrow> s
      | Some lm \<Rightarrow>
          let p = loss_point lm
          in if lo_step p \<in> seenSteps s then s
             else s\<lparr>seenSteps := insert (lo_step p) (seenSteps s), lossHistory := push_loss (lossHistory s) p\<rparr>)"

definition parse_checkpoint :: "jsstring \<Rightarrow> log_parser \<Rightarrow> log_parser" where
  "parse_checkpoint line s =
     (case exec CKPT_RE line of
        None \<Rightarrow> s
      | Some cm \<Rightarrow> s\<lparr>checkpointMarkers := push_checkpoint (checkpointMarkers s) (checkpoint_marker cm)\<rparr>)"

definition parse_recovery :: "jsstring \<Rightarrow> log_parser \<Rightarrow> log_parser" where
  "parse_recovery line s =
     (case exec RESTORE_RE line of
        None \<Rightarrow> s
      | Some rm \<Rightarrow> s\<lparr>recoveryMarkers := push_recovery (recoveryMarkers s) (recovery_marker rm)\<rparr>)"

definition log_onmessage :: "jsstring option \<Rightarrow> log_parser \<Rightarrow> log_parser" where
  "log_onmessage msg s =
     (case msg of
        None \<Rightarrow> s
      | Some line \<Rightarrow> parse_recovery line (parse_checkpoint line (parse_loss line s)))"

section \<open>The lines of the training harness\<close>

text \<open>
  Losses and times are given by the digits that \<open>%.4f\<close>, \<open>%.2f\<close> and \<open>%.1f\<close> print: \<open>l\<close> is the loss in
  units of \<open>10^-4\<close>, \<open>t\<close> the time in hundredths, \<open>r\<close> the rate in tenths.
\<close>

definition step_line :: "nat \<Rightarrow> nat \<Rightarrow> nat \<Rightarrow> nat \<Rightarrow> jsstring" where
  "step_line n steps l r =
     js ''step='' @ nat_str n @ js ''/'' @ nat_str steps @ js ''  loss='' @ fixed_str 4 l
     @ js ''  steps/s='' @ fixed_str 1 r"

definition saved_line :: "nat \<Rightarrow> nat \<Rightarrow> nat \<Rightarrow> jsstring \<Rightarrow> nat \<Rightarrow> jsstring" where
  "saved_line n l sz sha t =
     js ''Checkpoint saved (runtime): step='' @ nat_str n @ js '' loss='' @ fixed_str 4 l
     @ js '' size='' @ nat_str sz @ js '' bytes sha256='' @ sha @ js '' time='' @ fixed_str 2 t @ js ''s''"

definition restored_line :: "jsstring \<Rightarrow> nat \<Rightarrow> nat \<Rightarrow> nat \<Rightarrow> jsstring" where
  "restored_line ident n sz t =
     js ''Restored from runtime checkpoint: checkpoint_id='' @ ident @ js '' step='' @ nat_str n
     @ js '' size='' @ nat_str sz @ js '' bytes time='' @ fixed_str 2 t @ js ''s''"

text \<open>
  What the harness prints before a message (time stamps, level and rank) and in place of an
  identifier or hash: no character that starts a pattern, no blanks in tokens.
\<close>

definition log_prefix :: "jsstring \<Rightarrow> bool" where
  "log_prefix pre =
     list_all (\<lambda>c. c \<notin> {Ch (CHR ''s''), Ch (CHR ''C''), Ch (CHR ''R''), Ch (CHR ''(''), Ch (CHR ''/'')}) pre"

definition log_token :: "jsstring \<Rightarrow> bool" where
  "log_token w =
     (w \<noteq> [] \<and> list_all (\<lambda>c. \<not> is_space c \<and> c \<notin> {Ch (CHR ''R''), Ch (CHR ''(''), Ch (CHR ''/'')}) w)"

section \<open>Buffers\<close>

interpretation loss_buffer: bounded_buffer push_loss 500
  by unfold_locales (simp_all add: push_loss_def MAX_LOSS_def slice_simps lastn_snoc)

interpretation checkpoint_buffer: bounded_buffer push_checkpoint 50
  by unfold_locales (simp_all add: push_checkpoint_def MAX_CKPT_def slice_simps lastn_snoc)

interpretation recovery_buffer: bounded_buffer push_recovery 10
  by unfold_locales (simp_all add: push_recovery_def MAX_RESTORE_def slice_simps lastn_snoc)

section \<open>Lemmas\<close>

lemma captured_int_nat_str [simp]: "captured_int (nat_str n) = int n"
  by (simp add: captured_int_def)

lemma fixed_str_class: "c \<in> set (fixed_str f n) \<Longrightarrow> 0 < f \<Longrightarrow> is_digit c \<or> c = Ch (CHR ''.'')"
  by (elim fixed_str_split [of f n]) auto

lemma fixed_str_nonempty: "0 < f \<Longrightarrow> fixed_str f n \<noteq> []"
  by (elim fixed_str_split [of f n]) auto

lemma is_digit_cases: "is_digit (Ch c) \<Longrightarrow> c \<in> set ''0123456789''"
  by (auto simp: is_digit_def digit_val_def digit_table_def split: if_splits)

text \<open>Matching one captured run followed by a literal that ends it.\<close>

lemma match_capture:
  assumes "\<And>c. c \<in> set w \<Longrightarrow> in_class k c" and "w \<noteq> []"
    and "s = [] \<or> \<not> in_class k (hd s)" and "match_items r s = Some cs"
  shows "match_items (Rep 1 k True # r) (w @ s) = Some (w # cs)"
  using match_rep [of w k s 1 r cs True] assms by (simp add: Suc_leI)

lemma match_run:
  assumes "\<And>c. c \<in> set w \<Longrightarrow> in_class k c" and "w \<noteq> []"
    and "s = [] \<or> \<not> in_class k (hd s)" and "match_items r s = Some cs"
  shows "match_items (Rep 1 k False # r) (w @ s) = Some cs"
  using match_rep [of w k s 1 r cs False] assms by (simp add: Suc_leI)

lemma digit_class: "c \<in> set (nat_str n) \<Longrightarrow> in_class Digits c"
  by (simp add: nat_str_digits)

lemmas runs_of = digit_class fixed_str_class nat_str_nonempty fixed_str_nonempty

text \<open>The first character after a run, on a literal.\<close>

lemma hd_js_append [simp]: "hd (js (c # s) @ t) = Ch c"
  by (simp add: js_simps)

lemma not_in_class_literals [simp]:
  "\<not> is_digit (Ch (CHR ''/''))" "\<not> is_digit (Ch (CHR '' ''))" "\<not> is_digit (Ch (CHR ''s''))"
  "is_space (Ch (CHR '' ''))" "\<not> is_space (Ch (CHR ''l''))" "\<not> is_space (Ch (CHR ''s''))"
  by (simp_all add: is_digit_def digit_val_def digit_table_def is_space_def)

lemma match_LOSS: "match_items LOSS_RE (step_line n steps l r) = Some [nat_str n, fixed_str 4 l, fixed_str 1 r]"
proof -
  have sp: "js ''  loss='' = js ''  '' @ js ''loss=''" "js ''  steps/s='' = js ''  '' @ js ''steps/s=''"
    by (simp_all add: js_def)
  have blanks: "c \<in> set (js ''  '') \<Longrightarrow> in_class Spaces c" for c by (auto simp: js_def)
  have 1: "match_items [Rep 1 DigitsDot True] (fixed_str 1 r @ []) = Some [fixed_str 1 r]"
    by (rule match_capture) (simp_all add: runs_of)
  have 2: "match_items (Rep 1 Spaces False # lits ''steps/s='' @ [Rep 1 DigitsDot True])
      (js ''  '' @ js ''steps/s='' @ fixed_str 1 r) = Some [fixed_str 1 r]"
    by (rule match_run) (use 1 blanks in simp_all)
  have 3: "match_items (Rep 1 DigitsDot True # Rep 1 Spaces False # lits ''steps/s='' @ [Rep 1 DigitsDot True])
      (fixed_str 4 l @ js ''  '' @ js ''steps/s='' @ fixed_str 1 r) = Some [fixed_str 4 l, fixed_str 1 r]"
    by (rule match_capture) (use 2 in \<open>simp_all add: runs_of\<close>)
  have 4: "match_items (Rep 1 Spaces False # lits ''loss='' @ Rep 1 DigitsDot True # Rep 1 Spaces False
        # lits ''steps/s='' @ [Rep 1 DigitsDot True])
      (js ''  '' @ js ''loss='' @ fixed_str 4 l @ js ''  '' @ js ''steps/s='' @ fixed_str 1 r)
      = Some [fixed_str 4 l, fixed_str 1 r]"
    by (rule match_run) (use 3 blanks in simp_all)
  have 5: "match_items (Rep 1 Digits False # Rep 1 Spaces False # lits ''loss='' @ Rep 1 DigitsDot True
        # Rep 1 Spaces False # lits ''steps/s='' @ [Rep 1 DigitsDot True])
      (nat_str steps @ js ''  '' @ js ''loss='' @ fixed_str 4 l @ js ''  '' @ js ''steps/s='' @ fixed_str 1 r)
      = Some [fixed_str 4 l, fixed_str 1 r]"
    by (rule match_run) (use 4 in \<open>simp_all add: nat_str_digits\<close>)
  have 6: "match_items (Rep 1 Digits True # lits ''/'' @ Rep 1 Digits False # Rep 1 Spaces False
        # lits ''loss='' @ Rep 1 DigitsDot True # Rep 1 Spaces False # lits ''steps/s='' @ [Rep 1 DigitsDot True])
      (nat_str n @ js ''/'' @ nat_str steps @ js ''  '' @ js ''loss='' @ fixed_str 4 l
        @ js ''  '' @ js ''steps/s='' @ fixed_str 1 r)
      = Some [nat_str n, fixed_str 4 l, fixed_str 1 r]"
    by (rule match_capture) (use 5 in \<open>simp_all add: nat_str_digits\<close>)
  from 6 show ?thesis by (simp add: LOSS_RE_def step_line_def sp del: match_items.simps)
qed

text \<open>A labelled field: a literal and the run captured after it.\<close>

lemma match_field:
  assumes "\<And>c. c \<in> set w \<Longrightarrow> in_class k c" and "w \<noteq> []"
    and "s = [] \<or> \<not> in_class k (hd s)" and "match_items r s = Some cs"
  shows "match_items (lits a @ Rep 1 k True # r) (js a @ w @ s) = Some (w # cs)"
  using match_capture [OF assms] by simp

lemma match_CKPT:
  assumes "sha \<noteq> []" and "\<And>c. c \<in> set sha \<Longrightarrow> \<not> is_space c"
  shows "match_items CKPT_RE (saved_line n l sz sha t) =
     Some [nat_str n, fixed_str 4 l, nat_str sz, sha, fixed_str 2 t]"
proof -
  have 1: "match_items (lits '' time='' @ Rep 1 DigitsDot True # lits ''s'') (js '' time='' @ fixed_str 2 t @ js ''s'')
      = Some [fixed_str 2 t]"
    by (rule match_field) (simp_all add: runs_of js_simps)
  have 2: "match_items (lits '' bytes sha256='' @ Rep 1 NonSpaces True # lits '' time='' @ Rep 1 DigitsDot True # lits ''s'')
      (js '' bytes sha256='' @ sha @ js '' time='' @ fixed_str 2 t @ js ''s'') = Some [sha, fixed_str 2 t]"
    by (rule match_field) (use 1 assms in simp_all)
  have 3: "match_items (lits '' size='' @ Rep 1 Digits True # lits '' bytes sha256='' @ Rep 1 NonSpaces True
        # lits '' time='' @ Rep 1 DigitsDot True # lits ''s'')
      (js '' size='' @ nat_str sz @ js '' bytes sha256='' @ sha @ js '' time='' @ fixed_str 2 t @ js ''s'')
      = Some [nat_str sz, sha, fixed_str 2 t]"
    by (rule match_field) (use 2 in \<open>simp_all add: nat_str_digits\<close>)
  have 4: "match_items (lits '' loss='' @ Rep 1 DigitsDot True # lits '' size='' @ Rep 1 Digits True
        # lits '' bytes sha256='' @ Rep 1 NonSpaces True # lits '' time='' @ Rep 1 DigitsDot True # lits ''s'')
      (js '' loss='' @ fixed_str 4 l @ js '' size='' @ nat_str sz @ js '' bytes sha256='' @ sha
        @ js '' time='' @ fixed_str 2 t @ js ''s'')
      = Some [fixed_str 4 l, nat_str sz, sha, fixed_str 2 t]"
    by (rule match_field) (use 3 in \<open>simp_all add: runs_of\<close>)
  have 5: "match_items (lits ''Checkpoint saved (runtime): step='' @ Rep 1 Digits True # lits '' loss=''
        @ Rep 1 DigitsDot True # lits '' size='' @ Rep 1 Digits True # lits '' bytes sha256=''
        @ Rep 1 NonSpaces True # lits '' time='' @ Rep 1 DigitsDot True # lits ''s'')
      (js ''Checkpoint saved (runtime): step='' @ nat_str n @ js '' loss='' @ fixed_str 4 l @ js '' size=''
        @ nat_str sz @ js '' bytes sha256='' @ sha @ js '' time='' @ fixed_str 2 t @ js ''s'')
      = Some [nat_str n, fixed_str 4 l, nat_str sz, sha, fixed_str 2 t]"
    by (rule match_field) (use 4 in \<open>simp_all add: nat_str_digits\<close>)
  from 5 show ?thesis by (simp add: CKPT_RE_def saved_line_def del: match_items.simps)
qed

lemma match_RESTORE:
  assumes "ident \<noteq> []" and "\<And>c. c \<in> set ident \<Longrightarrow> \<not> is_space c"
  shows "match_items RESTORE_RE (restored_line ident n sz t) = Some [ident, nat_str n, nat_str sz, fixed_str 2 t]"
proof -
  have 1: "match_items (lits '' bytes time='' @ Rep 1 DigitsDot True # lits ''s'')
      (js '' bytes time='' @ fixed_str 2 t @ js ''s'') = Some [fixed_str 2 t]"
    by (rule match_field) (simp_all add: runs_of js_simps)
  have 2: "match_items (lits '' size='' @ Rep 1 Digits True # lits '' bytes time='' @ Rep 1 DigitsDot True # lits ''s'')
      (js '' size='' @ nat_str sz @ js '' bytes time='' @ fixed_str 2 t @ js ''s'')
      = Some [nat_str sz, fixed_str 2 t]"
    by (rule match_field) (use 1 in \<open>simp_all add: nat_str_digits\<close>)
  have 3: "match_items (lits '' step='' @ Rep 1 Digits True # lits '' size='' @ Rep 1 Digits True
        # lits '' bytes time='' @ Rep 1 DigitsDot True # lits ''s'')
      (js '' step='' @ nat_str n @ js '' size='' @ nat_str sz @ js '' bytes time='' @ fixed_str 2 t @ js ''s'')
      = Some [nat_str n, nat_str sz, fixed_str 2 t]"
    by (rule match_field) (use 2 in \<open>simp_all add: nat_str_digits\<close>)
  have 4: "match_items (lits ''Restored from runtime checkpoint: checkpoint_id='' @ Rep 1 NonSpaces True
        # lits '' step='' @ Rep 1 Digits True # lits '' size='' @ Rep 1 Digits True # lits '' bytes time=''
        @ Rep 1 DigitsDot True # lits ''s'')
      (js ''Restored from runtime checkpoint: checkpoint_id='' @ ident @ js '' step='' @ nat_str n
        @ js '' size='' @ nat_str sz @ js '' bytes time='' @ fixed_str 2 t @ js ''s'')
      = Some [ident, nat_str n, nat_str sz, fixed_str 2 t]"
    by (rule match_field) (use 3 assms in simp_all)
  from 4 show ?thesis by (simp add: RESTORE_RE_def restored_line_def del: match_items.simps)
qed

lemma exec_prefixed:
  "re = Lit c # r \<Longrightarrow> c \<notin> set pre \<Longrightarrow> match_items re s = Some cs \<Longrightarrow> exec re (pre @ s) = Some cs"
  by (simp add: exec_skip exec_here del: match_items.simps exec.simps)

lemma exec_without: "Lit c \<in> set re \<Longrightarrow> c \<notin> set s \<Longrightarrow> exec re s = None"
  using exec_lit_in [of re s _ c] by (cases "exec re s") auto

lemma not_in_numerals:
  "\<not> is_digit c \<Longrightarrow> c \<notin> set (nat_str n)"
  "\<not> is_digit c \<Longrightarrow> c \<noteq> Ch (CHR ''.'') \<Longrightarrow> 0 < f \<Longrightarrow> c \<notin> set (fixed_str f n)"
  using nat_str_digits fixed_str_class by blast+

lemma not_digits [simp]:
  "\<not> is_digit (Ch (CHR ''(''))" "\<not> is_digit (Ch (CHR ''R''))" "\<not> is_digit (Ch (CHR ''C''))"
  by (simp_all add: is_digit_def digit_val_def digit_table_def)

lemma first_items:
  "LOSS_RE = Lit (Ch (CHR ''s'')) # tl LOSS_RE" "CKPT_RE = Lit (Ch (CHR ''C'')) # tl CKPT_RE"
  "RESTORE_RE = Lit (Ch (CHR ''R'')) # tl RESTORE_RE"
  by (simp_all add: LOSS_RE_def CKPT_RE_def RESTORE_RE_def js_simps)

lemma items_in:
  "Lit (Ch (CHR ''/'')) \<in> set LOSS_RE" "Lit (Ch (CHR ''('')) \<in> set CKPT_RE"
  "Lit (Ch (CHR ''R'')) \<in> set RESTORE_RE"
  by (simp_all add: LOSS_RE_def CKPT_RE_def RESTORE_RE_def js_simps)

lemma log_prefix_chars:
  "log_prefix pre \<Longrightarrow> Ch (CHR ''s'') \<notin> set pre \<and> Ch (CHR ''C'') \<notin> set pre \<and> Ch (CHR ''R'') \<notin> set pre
     \<and> Ch (CHR ''('') \<notin> set pre \<and> Ch (CHR ''/'') \<notin> set pre"
  by (auto simp: log_prefix_def list_all_iff)

lemma log_token_chars:
  "log_token w \<Longrightarrow> w \<noteq> [] \<and> (\<forall>c\<in>set w. \<not> is_space c) \<and> Ch (CHR ''R'') \<notin> set w
     \<and> Ch (CHR ''('') \<notin> set w \<and> Ch (CHR ''/'') \<notin> set w"
  by (auto simp: log_token_def list_all_iff)

text \<open>On each line of the harness exactly the pattern written for it matches.\<close>

lemma exec_step_line:
  assumes "log_prefix pre"
  shows "exec LOSS_RE (pre @ step_line n steps l r) = Some [nat_str n, fixed_str 4 l, fixed_str 1 r]"
    "exec CKPT_RE (pre @ step_line n steps l r) = None" "exec RESTORE_RE (pre @ step_line n steps l r) = None"
proof -
  show "exec LOSS_RE (pre @ step_line n steps l r) = Some [nat_str n, fixed_str 4 l, fixed_str 1 r]"
    using log_prefix_chars [OF assms] by (intro exec_prefixed [OF first_items(1) _ match_LOSS]) simp
  show "exec CKPT_RE (pre @ step_line n steps l r) = None"
    using log_prefix_chars [OF assms]
    by (intro exec_without [OF items_in(2)]) (simp add: step_line_def not_in_numerals js_simps)
  show "exec RESTORE_RE (pre @ step_line n steps l r) = None"
    using log_prefix_chars [OF assms]
    by (intro exec_without [OF items_in(3)]) (simp add: step_line_def not_in_numerals js_simps)
qed

lemma exec_saved_line:
  assumes "log_prefix pre" and "log_token sha"
  shows "exec CKPT_RE (pre @ saved_line n l sz sha t) =
      Some [nat_str n, fixed_str 4 l, nat_str sz, sha, fixed_str 2 t]"
    "exec LOSS_RE (pre @ saved_line n l sz sha t) = None" "exec RESTORE_RE (pre @ saved_line n l sz sha t) = None"
proof -
  note chars = log_prefix_chars [OF assms(1)] log_token_chars [OF assms(2)]
  show "exec CKPT_RE (pre @ saved_line n l sz sha t) =
      Some [nat_str n, fixed_str 4 l, nat_str sz, sha, fixed_str 2 t]"
    using chars by (intro exec_prefixed [OF first_items(2)] match_CKPT) auto
  show "exec LOSS_RE (pre @ saved_line n l sz sha t) = None"
    using chars by (intro exec_without [OF items_in(1)]) (simp add: saved_line_def not_in_numerals js_simps)
  show "exec RESTORE_RE (pre @ saved_line n l sz sha t) = None"
    using chars by (intro exec_without [OF items_in(3)]) (simp add: saved_line_def not_in_numerals js_simps)
qed

lemma exec_restored_line:
  assumes "log_prefix pre" and "log_token ident"
  shows "exec RESTORE_RE (pre @ restored_line ident n sz t) = Some [ident, nat_str n, nat_str sz, fixed_str 2 t]"
    "exec LOSS_RE (pre @ restored_line ident n sz t) = None"
    "exec CKPT_RE (pre @ restored_line ident n sz t) = None"
proof -
  note chars = log_prefix_chars [OF assms(1)] log_token_chars [OF assms(2)]
  show "exec RESTORE_RE (pre @ restored_line ident n sz t) = Some [ident, nat_str n, nat_str sz, fixed_str 2 t]"
    using chars by (intro exec_prefixed [OF first_items(3)] match_RESTORE) auto
  show "exec LOSS_RE (pre @ restored_line ident n sz t) = None"
    using chars by (intro exec_without [OF items_in(1)]) (simp add: restored_line_def not_in_numerals js_simps)
  show "exec CKPT_RE (pre @ restored_line ident n sz t) = None"
    using chars by (intro exec_without [OF items_in(2)]) (simp add: restored_line_def not_in_numerals js_simps)
qed

section \<open>What a whole stream leaves\<close>

definition msg_points :: "jsstring option \<Rightarrow> LossPoint list" where
  "msg_points m = (case m of None \<Rightarrow> [] | Some line \<Rightarrow>
     (case exec LOSS_RE line of None \<Rightarrow> [] | Some lm \<Rightarrow> [loss_point lm]))"

definition msg_checkpoints :: "jsstring option \<Rightarrow> CheckpointMarker list" where
  "msg_checkpoints m = (case m of None \<Rightarrow> [] | Some line \<Rightarrow>
     (case exec CKPT_RE line of None \<Rightarrow> [] | Some cm \<Rightarrow> [checkpoint_marker cm]))"

definition msg_recoveries :: "jsstring option \<Rightarrow> RecoveryMarker list" where
  "msg_recoveries m = (case m of None \<Rightarrow> [] | Some line \<Rightarrow>
     (case exec RESTORE_RE line of None \<Rightarrow> [] | Some rm \<Rightarrow> [recovery_marker rm]))"

text \<open>The points whose step has not been seen before, in order.\<close>

fun first_seen :: "int set \<Rightarrow> LossPoint list \<Rightarrow> LossPoint list" where
  "first_seen seen [] = []"
| "first_seen seen (p # ps) =
     (if lo_step p \<in> seen then first_seen seen ps else p # first_seen (insert (lo_step p) seen) ps)"

lemma first_seen_distinct:
  "distinct (map lo_step (first_seen seen ps)) \<and> lo_step ` set (first_seen seen ps) \<inter> seen = {}
   \<and> lo_step ` set ps \<subseteq> seen \<union> lo_step ` set (first_seen seen ps)"
  by (induction seen ps rule: first_seen.induct) auto

lemma onmessage_markers:
  "checkpointMarkers (log_onmessage m s) = foldl push_checkpoint (checkpointMarkers s) (msg_checkpoints m)"
  "recoveryMarkers (log_onmessage m s) = foldl push_recovery (recoveryMarkers s) (msg_recoveries m)"
  by (simp_all add: log_onmessage_def parse_loss_def parse_checkpoint_def parse_recovery_def
      msg_checkpoints_def msg_recoveries_def Let_def split: option.split)

lemma onmessage_loss:
  "lossHistory (log_onmessage m s) = foldl push_loss (lossHistory s) (first_seen (seenSteps s) (msg_points m))"
  "seenSteps (log_onmessage m s) = seenSteps s \<union> lo_step ` set (msg_points m)"
  by (auto simp: log_onmessage_def parse_loss_def parse_checkpoint_def parse_recovery_def msg_points_def
      Let_def split: option.split)

lemma first_seen_append:
  "first_seen seen (ps @ qs) = first_seen seen ps @ first_seen (seen \<union> lo_step ` set ps) qs"
  by (induction seen ps rule: first_seen.induct) (auto simp: insert_absorb Un_assoc insert_commute)

lemma stream_checkpoints:
  "checkpointMarkers (foldl (\<lambda>s m. log_onmessage m s) s ms) =
     foldl push_checkpoint (checkpointMarkers s) (concat (map msg_checkpoints ms))"
  by (induction ms arbitrary: s) (simp_all add: onmessage_markers)

lemma stream_recoveries:
  "recoveryMarkers (foldl (\<lambda>s m. log_onmessage m s) s ms) =
     foldl push_recovery (recoveryMarkers s) (concat (map msg_recoveries ms))"
  by (induction ms arbitrary: s) (simp_all add: onmessage_markers)

lemma stream_loss:
  "lossHistory (foldl (\<lambda>s m. log_onmessage m s) s ms) =
     foldl push_loss (lossHistory s) (first_seen (seenSteps s) (concat (map msg_points ms)))"
  by (induction ms arbitrary: s) (simp_all add: onmessage_loss first_seen_append)

section \<open>Properties\<close>

text \<open>
  C27. The patterns read back what the training harness prints: a progress line adds the loss
  point with the printed step, loss and rate (unless the step was seen before), a saved line adds
  the checkpoint marker with all its printed values, and a restored line adds the recovery
  marker; no line is taken for one of another kind.
\<close>

theorem log_lines_round_trip:
  assumes "log_prefix pre" and "log_token sha" and "log_token ident"
  shows "log_onmessage (Some (pre @ step_line n steps l r)) s =
      (if int n \<in> seenSteps s then s
       else s\<lparr>seenSteps := insert (int n) (seenSteps s),
              lossHistory := push_loss (lossHistory s)
                \<lparr>lo_step = int n, lo_loss = Some (real l / 10 ^ 4), lo_stepsPerSec = Some (real r / 10 ^ 1)\<rparr>\<rparr>)
    \<and> log_onmessage (Some (pre @ saved_line n l sz sha t)) s =
      s\<lparr>checkpointMarkers := push_checkpoint (checkpointMarkers s)
          \<lparr>cm_step = int n, cm_loss = Some (real l / 10 ^ 4), cm_sizeBytes = int sz, cm_sha256 = sha,
           cm_saveTime = Some (real t / 10 ^ 2)\<rparr>\<rparr>
    \<and> log_onmessage (Some (pre @ restored_line ident n sz t)) s =
      s\<lparr>recoveryMarkers := push_recovery (recoveryMarkers s)
          \<lparr>rm_checkpointId = ident, rm_step = int n, rm_sizeBytes = int sz,
           rm_restoreTime = Some (real t / 10 ^ 2)\<rparr>\<rparr>"
proof -
  have numerals: "parseFloat (fixed_str 4 k) = Some (real k / 10 ^ 4)"
    "parseFloat (fixed_str 2 k) = Some (real k / 10 ^ 2)" "parseFloat (fixed_str 1 k) = Some (real k / 10 ^ 1)" for k
    by (rule parseFloat_fixed_str; simp)+
  show ?thesis
    unfolding log_onmessage_def option.case parse_loss_def parse_checkpoint_def parse_recovery_def
      exec_step_line [OF assms(1)] exec_saved_line [OF assms(1,2)] exec_restored_line [OF assms(1,3)]
    by (simp add: Let_def loss_point_def checkpoint_marker_def recovery_marker_def numerals [simplified] numerals)
qed

definition sample_prefix :: jsstring where
  "sample_prefix = js ''2025-01-01 10:00:00 [INFO] rank=0 ''"

lemma sample_prefix_ok: "log_prefix sample_prefix" "log_token (js ''9f86d081884c7d65'')"
  by (simp_all add: sample_prefix_def log_prefix_def log_token_def is_space_def js_simps)

theorem log_lines_round_trip_witness:
  "lossHistory (log_onmessage (Some (sample_prefix @ step_line 50 1000 21034 125)) parser_init) =
     [\<lparr>lo_step = 50, lo_loss = Some (21034 / 10 ^ 4), lo_stepsPerSec = Some (125 / 10 ^ 1)\<rparr>]"
  using conjunct1 [OF log_lines_round_trip [OF sample_prefix_ok sample_prefix_ok(2),
      of 50 1000 21034 125 parser_init]]
  by (simp add: parser_init_def push_loss_def slice_simps MAX_LOSS_def)

text \<open>
  C28. After any stream of messages the loss history is exactly the last 500 of the points whose
  step was seen for the first time, so its steps are pairwise distinct and reconnecting streams
  do not repeat points; the checkpoint and recovery markers are the last 50 and 10 of all
  markers in the stream.
\<close>

theorem log_stream_contents:
  "lossHistory (foldl (\<lambda>s m. log_onmessage m s) parser_init ms) =
     lastn 500 (first_seen {} (concat (map msg_points ms)))
   \<and> distinct (map lo_step (lossHistory (foldl (\<lambda>s m. log_onmessage m s) parser_init ms)))
   \<and> checkpointMarkers (foldl (\<lambda>s m. log_onmessage m s) parser_init ms) =
       lastn 50 (concat (map msg_checkpoints ms))
   \<and> recoveryMarkers (foldl (\<lambda>s m. log_onmessage m s) parser_init ms) =
       lastn 10 (concat (map msg_recoveries ms))"
proof -
  have init: "lossHistory parser_init = []" "checkpointMarkers parser_init = []"
    "recoveryMarkers parser_init = []" "seenSteps parser_init = {}"
    by (simp_all add: parser_init_def)
  have "distinct (map lo_step (first_seen {} ps))" for ps
    using first_seen_distinct by blast
  then show ?thesis
    by (simp add: stream_loss stream_checkpoints stream_recoveries init loss_buffer.foldl_push
        checkpoint_buffer.foldl_push recovery_buffer.foldl_push map_lastn distinct_lastn)
qed

text \<open>
  Unlike loss points, checkpoint markers are not deduplicated: when the stream repeats a
  saved line, as it does after a reconnect, the markers hold two entries for the same step, and
  the chart draws two dots with the same key.
\<close>

theorem replayed_checkpoint_duplicates:
  assumes "log_prefix pre" and "log_token sha"
  shows "\<not> distinct (map cm_step (checkpointMarkers
     (log_onmessage (Some (pre @ saved_line n l sz sha t))
       (log_onmessage (Some (pre @ saved_line n l sz sha t)) s))))"
proof -
  let ?m = "checkpoint_marker [nat_str n, fixed_str 4 l, nat_str sz, sha, fixed_str 2 t]"
  have "msg_checkpoints (Some (pre @ saved_line n l sz sha t)) = [?m]"
    by (simp only: msg_checkpoints_def option.case exec_saved_line(1) [OF assms])
  then have "checkpointMarkers (log_onmessage (Some (pre @ saved_line n l sz sha t))
      (log_onmessage (Some (pre @ saved_line n l sz sha t)) s)) =
      push_checkpoint (push_checkpoint (checkpointMarkers s) ?m) ?m"
    by (simp add: onmessage_markers)
  also have "\<dots> = lastn 48 (checkpointMarkers s) @ [?m, ?m]"
    by (simp add: checkpoint_buffer.push_push)
  finally show ?thesis by simp
qed

theorem replayed_checkpoint_duplicates_witness:
  "\<not> distinct (map cm_step (checkpointMarkers
     (log_onmessage (Some (sample_prefix @ saved_line 50 21034 4100 (js ''9f86d081884c7d65'') 12))
       (log_onmessage (Some (sample_prefix @ saved_line 50 21034 4100 (js ''9f86d081884c7d65'') 12))
         parser_init))))"
  by (rule replayed_checkpoint_duplicates [OF sample_prefix_ok])

end
