(* ===== verification/LogViews.thy ===== *)
theory LogViews
  imports LogParser Ui
begin

text \<open>
  The components that show the log stream: the live log
  (\<open>frontend/src/components/LogStream.tsx\<close>), the loss chart
  (\<open>frontend/src/components/TrainingLossChart.tsx\<close>) and the card of the latest checkpoint
  (\<open>frontend/src/components/CheckpointProof.tsx\<close>). The chart is drawn by a library; the model keeps
  what it is given: the points, the reference dots and the legend.
\<close>

section \<open>Live log\<close>

record LogLine =
  ll_container :: jsstring
  ll_line :: jsstring

definition CONTAINER_COLORS :: "(jsstring \<times> string) list" where
  "CONTAINER_COLORS =
     [(js ''ckpt-worker-0'', ''text-ok''), (js ''ckpt-worker-1'', ''text-ok''),
      (js ''ckpt-controlplane'', ''text-info''), (js ''ckpt-dataplane'', ''text-recover''),
      (js ''ckpt-etcd'', ''text-brand-violet''), (js ''ckpt-minio'', ''text-warn'')]"

text \<open>Each pattern by its alternatives.\<close>

definition HIGHLIGHT_PATTERNS :: "ritem list list list" where
  "HIGHLIGHT_PATTERNS =
     [[litsI ''checkpoint'' @ [Rep 0 AnyChar False] @ litsI ''committed''],
      [litsI ''checkpoint saved''],
      [litsI ''heartbeat'' @ [Rep 0 AnyChar False] @ litsI ''timeout''],
      [lits ''FAILED'', lits ''RECOVERING''],
      [litsI ''restored from checkpoint''],
      [lits ''step='' @ [Rep 1 Digits False, Rep 0 AnyChar False] @ lits ''loss='']]"

definition isHighlighted :: "jsstring \<Rightarrow> bool" where
  "isHighlighted line = list_ex (\<lambda>p. test p line) HIGHLIGHT_PATTERNS"

definition MAX_LINES :: int where "MAX_LINES = 150"

text \<open>The lines, the scroll flag, and the geometry of the scroll container.\<close>

record log_stream =
  ls_lines :: "LogLine list"
  ls_userScrolled :: bool
  ls_scrollTop :: int
  ls_scrollHeight :: nat
  ls_clientHeight :: nat

definition push_line :: "LogLine list \<Rightarrow> LogLine \<Rightarrow> LogLine list" where
  "push_line prev data = slice_from (- (MAX_LINES - 1)) prev @ [data]"

definition stream_onmessage :: "LogLine option \<Rightarrow> log_stream \<Rightarrow> log_stream" where
  "stream_onmessage msg s =
     (case msg of None \<Rightarrow> s | Some data \<Rightarrow> s\<lparr>ls_lines := push_line (ls_lines s) data\<rparr>)"

text \<open>Assigning \<open>scrollTop\<close>: the browser clamps the value to the scrollable range.\<close>

definition set_scrollTop :: "int \<Rightarrow> log_stream \<Rightarrow> log_stream" where
  "set_scrollTop v s = s\<lparr>ls_scrollTop := max 0 (min v (int (ls_scrollHeight s) - int (ls_clientHeight s)))\<rparr>"

definition autoscroll_effect :: "log_stream \<Rightarrow> log_stream" where
  "autoscroll_effect s = (if \<not> ls_userScrolled s then set_scrollTop (int (ls_scrollHeight s)) s else s)"

definition handleScroll :: "log_stream \<Rightarrow> log_stream" where
  "handleScroll s =
     (let atBottom = int (ls_scrollHeight s) - ls_scrollTop s - int (ls_clientHeight s) < 40
      in s\<lparr>ls_userScrolled := \<not> atBottom\<rparr>)"

definition scroll_to_latest :: "log_stream \<Rightarrow> log_stream" where
  "scroll_to_latest s = set_scrollTop (int (ls_scrollHeight s)) (s\<lparr>ls_userScrolled := False\<rparr>)"

text \<open>\<open>s.replace(p, '')\<close> for a string pattern: the first occurrence is removed.\<close>

fun remove_first :: "jsstring \<Rightarrow> jsstring \<Rightarrow> jsstring" where
  "remove_first p [] = []"
| "remove_first p (c # s) =
     (if startsWith (c # s) p then drop (length p) (c # s) else c # remove_first p s)"

datatype stream_action = ScrollToLatest

definition log_line_view :: "nat \<times> LogLine \<Rightarrow> stream_action node" where
  "log_line_view = (\<lambda>(i, l).
     let color = (case map_of CONTAINER_COLORS (ll_container l) of None \<Rightarrow> ''text-txt-3'' | Some c \<Rightarrow> c);
         bold = isHighlighted (ll_line l);
         label = remove_first (js ''ckpt-'') (ll_container l)
     in Elem ''div'' [Key (nat_str i), Cls (if bold then ''bg-surface-2 rounded px-1 -mx-1'' else [])]
          [Elem ''span'' [Cls color] [T ''['', Txt label, T '']''],
           Elem ''span'' [Cls (if bold then ''text-txt-1 font-medium'' else [])] [Txt (ll_line l)]])"

definition LogStream :: "bool \<Rightarrow> log_stream \<Rightarrow> stream_action node" where
  "LogStream active s =
     Elem ''div'' []
       ([Elem ''div'' []
           ([Elem ''span'' [] [T ''stdout''], Elem ''h4'' [] [T ''Live Logs'']]
            @ show_if (active \<and> length (ls_lines s) > 0)
                [Elem ''div'' [] [Elem ''div'' [] [], Elem ''span'' [] [T ''streaming'']]]),
         Elem ''div'' []
           [Elem ''p'' []
              [T ''Real-time output from Docker containers. Look for '',
               Elem ''span'' [] [T ''checkpoint committed''], T '', '',
               Elem ''span'' [] [T ''heartbeat timeout''], T '', and '',
               Elem ''span'' [] [T ''restored from checkpoint''], T '' messages.'']],
         Elem ''div'' []
           ((if length (ls_lines s) = 0 then [Elem ''div'' [] [T ''Waiting for log output...'']]
             else map log_line_view (zip [0..<length (ls_lines s)] (ls_lines s)))
            @ [Elem ''div'' [] []])]
        @ show_if (ls_userScrolled s \<and> length (ls_lines s) > 0)
            [Elem ''button'' [OnClick ScrollToLatest] [T ''Scroll to latest logs'']])"

section \<open>Loss chart\<close>

text \<open>\<open>x.toFixed(f)\<close> for a number that may be \<open>NaN\<close>.\<close>

definition num_fixed :: "nat \<Rightarrow> real option \<Rightarrow> jsstring" where
  "num_fixed f x = (case x of None \<Rightarrow> js ''NaN'' | Some r \<Rightarrow> toFixed f r)"

definition LossTooltip :: "bool \<Rightarrow> LossPoint list \<Rightarrow> 'a node list" where
  "LossTooltip active payload =
     (if \<not> active \<or> payload = [] then []
      else let d = payload ! 0
           in [Elem ''div'' []
                 [Elem ''p'' [] [T ''Step '', Txt (int_str (lo_step d))],
                  Elem ''p'' [] [T ''loss: '', Txt (num_fixed 4 (lo_loss d))],
                  Elem ''p'' [] [Txt (num_fixed 1 (lo_stepsPerSec d)), T '' steps/s'']]])"

definition closest_point :: "LossPoint list \<Rightarrow> int \<Rightarrow> LossPoint" where
  "closest_point hist stp =
     foldl (\<lambda>closest p. if \<bar>lo_step p - stp\<bar> < \<bar>lo_step closest - stp\<bar> then p else closest) (hist ! 0) hist"

text \<open>\<open>None\<close> is \<open>null\<close>; a loss that is \<open>NaN\<close> is \<open>Some None\<close>.\<close>

definition findLoss :: "LossPoint list \<Rightarrow> int \<Rightarrow> real option option" where
  "findLoss hist stp = (if hist = [] then None else Some (lo_loss (closest_point hist stp)))"

definition reference_dot :: "jsstring option \<Rightarrow> int \<Rightarrow> string \<Rightarrow> LossPoint list \<Rightarrow> 'a node list" where
  "reference_dot k stp fill hist =
     (case findLoss hist stp of
        None \<Rightarrow> []
      | Some loss \<Rightarrow>
          [Elem ''ReferenceDot''
             ((case k of None \<Rightarrow> [] | Some x \<Rightarrow> [Key x])
              @ [Num ''x'' (real_of_int stp),
                 (case loss of None \<Rightarrow> Prop ''y'' (js ''NaN'') | Some y \<Rightarrow> Num ''y'' y),
                 Prop ''fill'' (js fill)]) []])"

definition chart_dots ::
  "LossPoint list \<Rightarrow> CheckpointMarker list \<Rightarrow> RecoveryMarker list \<Rightarrow> int option \<Rightarrow> 'a node list" where
  "chart_dots hist cks rms kill =
     concat (map (\<lambda>cp. reference_dot (Some (js ''cp-'' @ int_str (cm_step cp))) (cm_step cp) ''#3b82f6'' hist) cks)
     @ show_some kill (\<lambda>k. reference_dot None k ''#ef4444'' hist)
     @ concat (map (\<lambda>rm. reference_dot (Some (js ''rm-'' @ int_str (rm_step rm))) (rm_step rm) ''#8b5cf6'' hist) rms)"

definition TrainingLossChart ::
  "LossPoint list \<Rightarrow> CheckpointMarker list \<Rightarrow> RecoveryMarker list \<Rightarrow> int option \<Rightarrow> 'a node" where
  "TrainingLossChart hist cks rms kill =
     (if length hist = 0
      then Elem ''div'' []
        [Elem ''div'' [] [Elem ''span'' [] [T ''loss''], Elem ''h4'' [] [T ''Training Loss'']],
         Elem ''p'' [] [T ''Waiting for training data...'']]
      else Elem ''div'' []
        [Elem ''div'' [] [Elem ''span'' [] [T ''loss''], Elem ''h4'' [] [T ''Training Loss'']],
         Elem ''p'' []
           [Txt (js ''Synthetic workload '' @ [Uni 8212]
                 @ js '' loss shows training is progressing. Dots mark checkpoints and events.'')],
         Elem ''LineChart'' []
           (map (\<lambda>p. Elem ''point'' [Num ''step'' (real_of_int (lo_step p))]
                      [Txt (num_fixed 4 (lo_loss p))]) hist
            @ chart_dots hist cks rms kill),
         Elem ''div'' []
           ([Elem ''span'' [] [T '' Loss''], Elem ''span'' [] [T '' Checkpoint'']]
            @ show_if (kill \<noteq> None) [Elem ''span'' [] [T '' Kill'']]
            @ show_if (length rms > 0) [Elem ''span'' [] [T '' Recovery'']])])"

section \<open>Latest checkpoint\<close>

definition proof_row :: "string \<Rightarrow> jsstring \<Rightarrow> 'a node" where
  "proof_row label value = Elem ''div'' [] [Elem ''span'' [] [T label], Elem ''span'' [] [Txt value]]"

definition CheckpointProof :: "CheckpointMarker list \<Rightarrow> 'a node" where
  "CheckpointProof cks =
     Elem ''div'' []
       [Elem ''div'' [] [Elem ''span'' [] [T ''proof''], Elem ''h4'' [] [T ''Latest Checkpoint'']],
        (case (if length cks > 0 then Some (cks ! (length cks - 1)) else None) of
           None \<Rightarrow> Elem ''div'' [] [Elem ''p'' [] [T ''No checkpoints yet...'']]
         | Some latest \<Rightarrow>
             Elem ''div'' [Key (int_str (cm_step latest) @ js ''-'' @ cm_sha256 latest)]
               [Elem ''div'' []
                  [proof_row ''Step'' (int_str (cm_step latest)),
                   proof_row ''Loss'' (num_fixed 4 (cm_loss latest)),
                   proof_row ''Size'' (formatBytes (real_of_int (cm_sizeBytes latest))),
                   proof_row ''Save time'' (num_fixed 2 (cm_saveTime latest) @ js ''s'')],
                Elem ''div'' [] [Elem ''p'' [] [T ''SHA-256''], Elem ''p'' [] [Txt (cm_sha256 latest)]],
                Elem ''p'' []
                  [T ''Contains 202K model parameters serialized as PyTorch tensors. The SHA-256 hash proves '',
                   Txt (js ''data integrity '' @ [Uni 8212]
                        @ js '' if even one bit changed, the hash would be completely different.'')]])]"

section \<open>Contracts\<close>

interpretation line_buffer: bounded_buffer push_line 150
  by unfold_locales (simp_all add: push_line_def MAX_LINES_def slice_simps lastn_snoc)

interpretation log_lines: keyed_list log_line_view "\<lambda>(i, l). nat_str i"
  by unfold_locales (auto simp: log_line_view_def Let_def)

section \<open>Lemmas\<close>

lemma foldl_closest:
  fixes d :: "'p \<Rightarrow> int"
  defines "closer \<equiv> \<lambda>c p. if d p < d c then p else c"
  shows "foldl closer c ps \<in> insert c (set ps) \<and> (\<forall>p\<in>insert c (set ps). d (foldl closer c ps) \<le> d p)"
proof (induction ps arbitrary: c)
  case (Cons p ps)
  have "foldl closer c (p # ps) = foldl closer (closer c p) ps" by simp
  moreover have "d (closer c p) \<le> d c" "d (closer c p) \<le> d p" "closer c p \<in> {c, p}"
    by (auto simp: closer_def)
  ultimately show ?case using Cons.IH [of "closer c p"] by (auto intro: order_trans)
qed simp

lemma closest_point_min:
  assumes "hist \<noteq> []"
  shows "closest_point hist stp \<in> set hist"
    and "p \<in> set hist \<Longrightarrow> \<bar>lo_step (closest_point hist stp) - stp\<bar> \<le> \<bar>lo_step p - stp\<bar>"
  using foldl_closest [of "\<lambda>p. \<bar>lo_step p - stp\<bar>" "hist ! 0" hist] assms
  by (auto simp: closest_point_def nth_mem insert_absorb)

lemma stream_lines:
  "ls_lines (foldl (\<lambda>s m. stream_onmessage m s) s ms) =
     foldl push_line (ls_lines s) (concat (map (\<lambda>m. case m of None \<Rightarrow> [] | Some l \<Rightarrow> [l]) ms))"
  by (induction ms arbitrary: s) (simp_all add: stream_onmessage_def split: option.split)

text \<open>A progress line and a saved line match their highlight patterns after any prefix.\<close>

lemma match_fold_lits: "match_items (map LitI l @ r) (l @ s) = match_items r s"
  by (induction l) auto

lemma highlight_saved: "test [litsI ''checkpoint saved''] (pre @ saved_line n l sz sha t)"
proof -
  let ?rest = "js '' (runtime): step='' @ nat_str n @ js '' loss='' @ fixed_str 4 l
     @ js '' size='' @ nat_str sz @ js '' bytes sha256='' @ sha @ js '' time='' @ fixed_str 2 t @ js ''s''"
  have "match_items (litsI ''checkpoint saved'') (js ''Checkpoint saved'' @ ?rest) \<noteq> None"
    by (simp add: js_simps fold_case_def fold_pairs_def)
  moreover have "js ''Checkpoint saved (runtime): step='' = js ''Checkpoint saved'' @ js '' (runtime): step=''"
    by (simp add: js_def)
  then have "saved_line n l sz sha t = js ''Checkpoint saved'' @ ?rest" by (simp add: saved_line_def)
  ultimately show ?thesis by (simp only: test_suffix not_False_eq_True)
qed

lemma highlight_step:
  "test [lits ''step='' @ [Rep 1 Digits False, Rep 0 AnyChar False] @ lits ''loss=''] (pre @ step_line n steps l r)"
proof -
  let ?tail = "js ''loss='' @ fixed_str 4 l @ js ''  steps/s='' @ fixed_str 1 r"
  let ?gap = "js ''/'' @ nat_str steps @ js ''  ''"
  have gap: "c \<in> set ?gap \<Longrightarrow> in_class AnyChar c" for c
    by (auto simp: js_def is_line_end_def is_digit_def digit_val_def digit_table_def
        split: if_splits dest!: nat_str_digits)
  have "match_items (Rep 0 AnyChar False # lits ''loss='') (?gap @ ?tail) \<noteq> None"
    by (rule match_rep_some [where w = ?gap]) (use gap in simp_all)
  then obtain cs where cs: "match_items (Rep 0 AnyChar False # lits ''loss='') (?gap @ ?tail) = Some cs" by blast
  have "match_items (Rep 1 Digits False # Rep 0 AnyChar False # lits ''loss='') (nat_str n @ ?gap @ ?tail) = Some cs"
    by (rule match_run [OF _ _ _ cs]) (simp_all add: nat_str_digits)
  moreover have "js ''  loss='' = js ''  '' @ js ''loss=''" by (simp add: js_def)
  ultimately have "match_items (lits ''step='' @ [Rep 1 Digits False, Rep 0 AnyChar False] @ lits ''loss='')
      (step_line n steps l r) \<noteq> None"
    by (simp add: step_line_def del: match_items.simps)
  then show ?thesis by (rule test_suffix)
qed

text \<open>A restored line of the harness and the literals that the patterns would need in it.\<close>

definition restored_sample :: jsstring where
  "restored_sample =
     js ''Restored from runtime checkpoint: checkpoint_id=3f2b step=50 size=4100 bytes time=0.12s''"

lemma restored_sample_line: "restored_sample = restored_line (js ''3f2b'') 50 4100 12"
  by (simp add: restored_sample_def restored_line_def js_simps nat_str.simps fixed_str_def padStart_def
      digit_char_def)

lemma restored_misses:
  "exec (litsI ''committed'') restored_sample = None" "exec (litsI ''checkpoint saved'') restored_sample = None"
  "exec (litsI ''heartbeat'') restored_sample = None" "exec (lits ''FAILED'') restored_sample = None"
  "exec (lits ''RECOVERING'') restored_sample = None"
  "exec (litsI ''restored from checkpoint'') restored_sample = None"
  "exec (lits ''loss='') restored_sample = None"
  unfolding restored_sample_def by (simp_all add: js_simps fold_case_letters fold_case_others)

lemma restored_not_highlighted: "\<not> isHighlighted restored_sample"
proof -
  have "exec (litsI ''checkpoint'' @ [Rep 0 AnyChar False] @ litsI ''committed'') restored_sample = None"
    using exec_append(1) [OF restored_misses(1), of "litsI ''checkpoint'' @ [Rep 0 AnyChar False]"] by simp
  moreover have "exec (litsI ''heartbeat'' @ [Rep 0 AnyChar False] @ litsI ''timeout'') restored_sample = None"
    by (rule exec_append(2) [OF restored_misses(3)])
  moreover have "exec (lits ''step='' @ [Rep 1 Digits False, Rep 0 AnyChar False] @ lits ''loss='') restored_sample = None"
    using exec_append(1) [OF restored_misses(7), of "lits ''step='' @ [Rep 1 Digits False, Rep 0 AnyChar False]"]
    by simp
  ultimately show ?thesis
    using restored_misses by (simp add: isHighlighted_def HIGHLIGHT_PATTERNS_def test_def)
qed

section \<open>Properties\<close>

text \<open>
  A dot on the loss chart sits at the loss of the recorded point whose step is closest to
  the step of the marker; in particular it sits on the curve when the step itself was recorded.
\<close>

theorem findLoss_closest:
  assumes "hist \<noteq> []"
  shows "\<exists>p\<in>set hist. findLoss hist stp = Some (lo_loss p)
    \<and> (\<forall>q\<in>set hist. \<bar>lo_step p - stp\<bar> \<le> \<bar>lo_step q - stp\<bar>)
    \<and> (stp \<in> lo_step ` set hist \<longrightarrow> lo_step p = stp)"
proof (intro bexI [of _ "closest_point hist stp"] conjI impI)
  assume "stp \<in> lo_step ` set hist"
  then obtain q where "q \<in> set hist" "lo_step q = stp" by auto
  with closest_point_min(2) [OF assms, of q stp] show "lo_step (closest_point hist stp) = stp" by simp
qed (use assms closest_point_min [OF assms] in \<open>auto simp: findLoss_def\<close>)

theorem findLoss_closest_witness:
  "\<exists>p\<in>set [\<lparr>lo_step = 10, lo_loss = Some 2, lo_stepsPerSec = None\<rparr>,
            \<lparr>lo_step = 20, lo_loss = Some 1, lo_stepsPerSec = None\<rparr>].
     lo_step p = 20 \<and> findLoss [\<lparr>lo_step = 10, lo_loss = Some 2, lo_stepsPerSec = None\<rparr>,
            \<lparr>lo_step = 20, lo_loss = Some 1, lo_stepsPerSec = None\<rparr>] 20 = Some (lo_loss p)"
  using findLoss_closest [of "[\<lparr>lo_step = 10, lo_loss = Some 2, lo_stepsPerSec = None\<rparr>,
      \<lparr>lo_step = 20, lo_loss = Some (1 :: real), lo_stepsPerSec = None\<rparr>]" 20]
  by fastforce

text \<open>
  The live log shows exactly the last 150 well-formed lines in order. While the user has not
  scrolled away, following the log leaves the view at the bottom, and the scroll event that this
  itself causes does not count as scrolling away; the button brings the view back.
\<close>

theorem log_stream_follows:
  "ls_lines (foldl (\<lambda>s m. stream_onmessage m s) (s\<lparr>ls_lines := []\<rparr>) ms) =
     lastn 150 (concat (map (\<lambda>m. case m of None \<Rightarrow> [] | Some l \<Rightarrow> [l]) ms))
   \<and> (if ls_userScrolled s then autoscroll_effect s = s
      else \<not> ls_userScrolled (handleScroll (autoscroll_effect s)))
   \<and> \<not> ls_userScrolled (handleScroll (scroll_to_latest s))"
  by (simp add: stream_lines line_buffer.foldl_push autoscroll_effect_def handleScroll_def
      scroll_to_latest_def set_scrollTop_def Let_def max_def min_def)

text \<open>
  The progress lines and the saved lines of the training harness are always highlighted,
  whatever precedes them; but the message that tells the user training was restored, which the
  component asks to look for, is not: the harness prints \<open>Restored from runtime checkpoint\<close> and
  the pattern expects \<open>restored from checkpoint\<close>.
\<close>

theorem highlighted_lines:
  "isHighlighted (pre @ step_line n steps l r) \<and> isHighlighted (pre @ saved_line n l sz sha t)
   \<and> \<not> isHighlighted (restored_line (js ''3f2b'') 50 4100 12)"
  using highlight_saved [of pre n l sz sha t] highlight_step [of pre n steps l r]
    restored_not_highlighted [unfolded restored_sample_line]
  by (simp add: isHighlighted_def HIGHLIGHT_PATTERNS_def)

end
