(* ===== verification/StorageBrowser.thy ===== *)
theory StorageBrowser
  imports Ui Fetching
begin

text \<open>
  The object storage panel, \<open>frontend/src/components/StorageBrowser.tsx\<close>: the listed files grouped
  by run and checkpoint, and the manifests that can be opened.

  A JavaScript \<open>Map\<close> keeps its entries in the order of their first insertion; it is an association
  list here, changed by \<open>modify\<close>. A manifest is \<open>Content\<close> of the parsed body, or \<open>LoadError\<close> for the
  object that replaces it when loading fails.
\<close>

section \<open>Files and their groups\<close>

record StorageFile =
  sf_key :: jsstring
  sf_size :: int
  sf_modified :: jsstring

record StorageData =
  sd_files :: "StorageFile list"
  sd_total_bytes :: int
  sd_listed_bytes :: "int option"
  sd_is_truncated :: bool

fun modify :: "'k \<Rightarrow> 'v \<Rightarrow> ('v \<Rightarrow> 'v) \<Rightarrow> ('k \<times> 'v) list \<Rightarrow> ('k \<times> 'v) list" where
  "modify k d f [] = [(k, f d)]"
| "modify k d f ((k', v) # r) = (if k = k' then (k', f v) # r else (k', v) # modify k d f r)"

text \<open>\<open>parts[i] || d\<close>: the default for a missing or an empty part.\<close>

definition part_or :: "nat \<Rightarrow> string \<Rightarrow> jsstring list \<Rightarrow> jsstring" where
  "part_or i d parts = (if i < length parts \<and> parts ! i \<noteq> [] then parts ! i else js d)"

definition file_run :: "StorageFile \<Rightarrow> jsstring" where
  "file_run f = part_or 0 ''unknown'' (split_on (Ch (CHR ''/'')) (sf_key f))"

definition file_ckpt :: "StorageFile \<Rightarrow> jsstring" where
  "file_ckpt f = part_or 1 ''root'' (split_on (Ch (CHR ''/'')) (sf_key f))"

type_synonym tree = "(jsstring \<times> (jsstring \<times> StorageFile list) list) list"

definition add_file :: "tree \<Rightarrow> StorageFile \<Rightarrow> tree" where
  "add_file t f = modify (file_run f) [] (modify (file_ckpt f) [] (\<lambda>fs. fs @ [f])) t"

definition buildTree :: "StorageFile list \<Rightarrow> tree" where
  "buildTree files = foldl add_file [] files"

section \<open>Manifests\<close>

datatype 'm manifest = Content 'm | LoadError

record 'm storage_browser =
  expandedManifest :: "jsstring option"
  manifestContent :: "'m manifest option"

text \<open>The click up to the request (\<open>True\<close> when it sends one), and the end of the request.\<close>

definition manifest_click :: "jsstring \<Rightarrow> 'm storage_browser \<Rightarrow> 'm storage_browser \<times> bool" where
  "manifest_click key s =
     (if expandedManifest s = Some key then (s\<lparr>expandedManifest := None\<rparr>, False)
      else (s\<lparr>expandedManifest := Some key\<rparr>, True))"

definition manifest_loaded :: "'m fetched \<Rightarrow> 'm storage_browser \<Rightarrow> 'm storage_browser" where
  "manifest_loaded f s =
     (case f of
        Inl e \<Rightarrow> s\<lparr>manifestContent := Some LoadError\<rparr>
      | Inr res \<Rightarrow>
          if res_ok res
          then (case res_json res of
                  Inl e \<Rightarrow> s\<lparr>manifestContent := Some LoadError\<rparr>
                | Inr m \<Rightarrow> s\<lparr>manifestContent := Some (Content m)\<rparr>)
          else s)"

section \<open>View\<close>

datatype storage_action = ManifestClick jsstring

definition file_name :: "StorageFile \<Rightarrow> jsstring" where
  "file_name f =
     (let l = last (split_on (Ch (CHR ''/'')) (sf_key f)) in if l = [] then sf_key f else l)"

definition is_manifest :: "StorageFile \<Rightarrow> bool" where
  "is_manifest f = endsWith (file_name f) (js ''_manifest.json'')"

text \<open>What is shown below a file: \<open>stringify\<close> is \<open>JSON.stringify(_, null, 2)\<close>.\<close>

definition shown_manifest :: "StorageFile \<Rightarrow> 'm storage_browser \<Rightarrow> 'm manifest option" where
  "shown_manifest f s =
     (if is_manifest f \<and> expandedManifest s = Some (sf_key f) then manifestContent s else None)"

definition file_entry ::
  "('m manifest \<Rightarrow> jsstring) \<Rightarrow> 'm storage_browser \<Rightarrow> StorageFile \<Rightarrow> storage_action node" where
  "file_entry stringify s f =
     Elem ''div'' [Key (sf_key f)]
       (Elem ''div'' []
          [if is_manifest f
           then Elem ''button'' [OnClick (ManifestClick (sf_key f))] [Txt (file_name f)]
           else Elem ''span''
                  [Cls (if endsWith (file_name f) (js ''.bin'') then ''text-ok'' else ''text-txt-3'')]
                  [Txt (file_name f)],
           Elem ''span'' [] [T ''('', Txt (formatBytes (real_of_int (sf_size f))), T '')'']]
        # show_some (shown_manifest f s) (\<lambda>m. [Elem ''pre'' [] [Txt (stringify m)]]))"

definition checkpoint_group ::
  "('m manifest \<Rightarrow> jsstring) \<Rightarrow> 'm storage_browser \<Rightarrow> jsstring \<times> StorageFile list \<Rightarrow> storage_action node" where
  "checkpoint_group stringify s = (\<lambda>(cpId, cpFiles).
     Elem ''div'' [Key cpId]
       (Elem ''div'' [] [Txt (slice 0 12 cpId), T ''/'']
        # map (file_entry stringify s) cpFiles))"

definition run_group ::
  "('m manifest \<Rightarrow> jsstring) \<Rightarrow> 'm storage_browser
   \<Rightarrow> jsstring \<times> (jsstring \<times> StorageFile list) list \<Rightarrow> storage_action node" where
  "run_group stringify s = (\<lambda>(runId, cps).
     Elem ''div'' [Key runId]
       (Elem ''div'' [] [Elem ''span'' [] [T ''checkpoints/''], Txt (slice 0 12 runId), T ''/'']
        # map (checkpoint_group stringify s) cps))"

definition StorageBrowser_view ::
  "('m manifest \<Rightarrow> jsstring) \<Rightarrow> StorageData option \<Rightarrow> 'm storage_browser \<Rightarrow> storage_action node" where
  "StorageBrowser_view stringify data s =
     (let files = (case data of None \<Rightarrow> [] | Some d \<Rightarrow> sd_files d)
      in Elem ''div'' []
           [Elem ''div'' []
              ([Elem ''span'' [] [T ''s3://''], Elem ''h4'' [] [T ''Object Storage'']]
               @ show_some data (\<lambda>d.
                   [Elem ''span'' []
                      [Txt (if sd_is_truncated d then js ''First '' @ nat_str (length files)
                            else nat_str (length files)), T '' files'', T '' '', Txt [Ch (CHR 0xB7)], T '' '',
                       Txt (formatBytes (real_of_int
                         (case sd_listed_bytes d of Some b \<Rightarrow> b | None \<Rightarrow> sd_total_bytes d))),
                       T (if sd_is_truncated d then '' listed'' else [])]])),
            Elem ''div'' []
              [if length files = 0 then Elem ''div'' [] [T ''No checkpoint files yet...'']
               else Elem ''div'' [] (map (run_group stringify s) (buildTree files))]])"

section \<open>Contracts\<close>

interpretation file_entries: keyed_list "file_entry stringify s" sf_key for stringify s
  by unfold_locales (simp add: file_entry_def)

interpretation run_groups: keyed_list "run_group stringify s" fst for stringify s
  by unfold_locales (auto simp: run_group_def)

interpretation checkpoint_groups: keyed_list "checkpoint_group stringify s" fst for stringify s
  by unfold_locales (auto simp: checkpoint_group_def)

section \<open>Lemmas\<close>

lemma modify_fst: "fst ` set (modify k d f t) = insert k (fst ` set t)"
  by (induction k d f t rule: modify.induct) auto

lemma modify_distinct: "distinct (map fst t) \<Longrightarrow> distinct (map fst (modify k d f t))"
proof (induction k d f t rule: modify.induct)
  case (2 k d f k' v r)
  then show ?case using modify_fst [of k d f r] by auto
qed simp

lemma map_of_modify:
  "map_of (modify k d f t) = (map_of t)(k \<mapsto> f (case map_of t k of None \<Rightarrow> d | Some v \<Rightarrow> v))"
  by (induction k d f t rule: modify.induct) auto

lemma modify_in:
  "(x, v) \<in> set (modify k d f t) \<Longrightarrow>
   (x, v) \<in> set t \<or> (x = k \<and> v = f d) \<or> (\<exists>w. x = k \<and> (k, w) \<in> set t \<and> v = f w)"
  by (induction k d f t rule: modify.induct) (auto split: if_splits)

lemma modify_nonempty [simp]: "modify k d f t \<noteq> []"
  by (cases "(k, d, f, t)" rule: modify.cases) auto

text \<open>The files in the group of a run and a checkpoint, and the shape of every tree built.\<close>

definition tree_group :: "tree \<Rightarrow> jsstring \<Rightarrow> jsstring \<Rightarrow> StorageFile list" where
  "tree_group t r c =
     (case map_of t r of None \<Rightarrow> [] | Some cps \<Rightarrow> (case map_of cps c of None \<Rightarrow> [] | Some fs \<Rightarrow> fs))"

definition run_ok :: "(jsstring \<times> StorageFile list) list \<Rightarrow> bool" where
  "run_ok cps = (cps \<noteq> [] \<and> distinct (map fst cps) \<and> list_all (\<lambda>(c, fs). fs \<noteq> []) cps)"

definition tree_ok :: "tree \<Rightarrow> bool" where
  "tree_ok t = (distinct (map fst t) \<and> list_all (\<lambda>(r, cps). run_ok cps) t)"

lemma tree_group_add_file:
  "tree_group (add_file t f) r c =
     (if r = file_run f \<and> c = file_ckpt f then tree_group t r c @ [f] else tree_group t r c)"
  by (auto simp: tree_group_def add_file_def map_of_modify split: option.split)

lemma run_ok_single [simp]: "run_ok [(c, [f])]"
  by (simp add: run_ok_def)

lemma run_ok_modify: "cps = [] \<or> run_ok cps \<Longrightarrow> run_ok (modify k [] (\<lambda>fs. fs @ [f]) cps)"
  by (auto simp: run_ok_def modify_distinct list_all_iff dest!: modify_in)

lemma tree_ok_add_file: "tree_ok t \<Longrightarrow> tree_ok (add_file t f)"
proof -
  assume ok: "tree_ok t"
  have "run_ok cps" if "(r, cps) \<in> set (add_file t f)" for r cps
    using modify_in [OF that [unfolded add_file_def]] ok
    by (auto simp: tree_ok_def list_all_iff intro: run_ok_modify)
  then have "list_all (\<lambda>(r, cps). run_ok cps) (add_file t f)" by (auto simp: list_all_iff)
  with ok show ?thesis by (simp add: tree_ok_def add_file_def modify_distinct)
qed

section \<open>Properties\<close>

text \<open>
  Grouping loses and invents nothing: the files shown under a run and a checkpoint are
  exactly the listed files whose key has these as its first two parts (with the defaults
  \<open>unknown\<close> and \<open>root\<close>), in the order of the listing; every run and, within a run, every checkpoint
  appears once, and no group is empty.
\<close>

theorem buildTree_groups:
  "tree_group (buildTree files) r c = filter (\<lambda>f. r = file_run f \<and> c = file_ckpt f) files
   \<and> distinct (map fst (buildTree files))
   \<and> list_all (\<lambda>(r, cps). cps \<noteq> [] \<and> distinct (map fst cps) \<and> list_all (\<lambda>(c, fs). fs \<noteq> []) cps)
       (buildTree files)"
proof -
  have "tree_group (buildTree files) r c = filter (\<lambda>f. r = file_run f \<and> c = file_ckpt f) files"
    by (induction files rule: rev_induct) (auto simp: buildTree_def tree_group_add_file, simp add: tree_group_def)
  moreover have "tree_ok (buildTree files)"
    by (induction files rule: rev_induct) (simp_all add: buildTree_def tree_ok_add_file, simp add: tree_ok_def)
  ultimately show ?thesis by (simp add: tree_ok_def run_ok_def)
qed

text \<open>
  The name of a file in the data plane's layout \<open>run/checkpoint/name\<close> is found back: for
  parts without a slash that are not empty, the file is grouped under its run and checkpoint and
  shown by its name.
\<close>

theorem storage_key_round_trip:
  assumes "r \<noteq> []" and "c \<noteq> []" and "n \<noteq> []"
    and "Ch (CHR ''/'') \<notin> set r" and "Ch (CHR ''/'') \<notin> set c" and "Ch (CHR ''/'') \<notin> set n"
    and "sf_key f = r @ js ''/'' @ c @ js ''/'' @ n"
  shows "file_run f = r \<and> file_ckpt f = c \<and> file_name f = n"
proof -
  have "split_on (Ch (CHR ''/'')) (sf_key f) = [r, c, n]"
    using assms by (simp add: js_simps split_on_append split_on_single)
  with assms(1-3) show ?thesis by (simp add: file_run_def file_ckpt_def file_name_def part_or_def)
qed

theorem storage_key_round_trip_witness:
  "file_run \<lparr>sf_key = js ''r1/c1/shard-0.bin'', sf_size = 3, sf_modified = []\<rparr> = js ''r1''
   \<and> file_ckpt \<lparr>sf_key = js ''r1/c1/shard-0.bin'', sf_size = 3, sf_modified = []\<rparr> = js ''c1''
   \<and> file_name \<lparr>sf_key = js ''r1/c1/shard-0.bin'', sf_size = 3, sf_modified = []\<rparr> = js ''shard-0.bin''"
  by (rule storage_key_round_trip) (simp_all add: js_simps)

text \<open>
  Opening another manifest can show the wrong content: when manifest \<open>a\<close> has been loaded and
  the request for manifest \<open>b\<close> is refused (or has not ended yet), the content of \<open>a\<close> is displayed
  below \<open>b\<close>.
\<close>

theorem stale_manifest_shown:
  assumes "is_manifest f" and "expandedManifest s \<noteq> Some (sf_key f)" and "manifestContent s = Some m"
    and "\<not> res_ok res"
  shows "shown_manifest f (fst (manifest_click (sf_key f) s)) = Some m
    \<and> shown_manifest f (manifest_loaded (Inr res) (fst (manifest_click (sf_key f) s))) = Some m"
  using assms by (auto simp: shown_manifest_def manifest_click_def manifest_loaded_def)

theorem stale_manifest_shown_witness:
  "shown_manifest \<lparr>sf_key = js ''r/b/_manifest.json'', sf_size = 1, sf_modified = []\<rparr>
     (manifest_loaded (Inr \<lparr>res_status = 404, res_statusText = [], res_json = Inl None\<rparr>)
       (fst (manifest_click (js ''r/b/_manifest.json'')
         \<lparr>expandedManifest = Some (js ''r/a/_manifest.json''), manifestContent = Some (Content (1 :: int))\<rparr>)))
   = Some (Content 1)"
proof -
  let ?f = "\<lparr>sf_key = js ''r/b/_manifest.json'', sf_size = 1, sf_modified = []\<rparr>"
  have "is_manifest ?f"
    by (simp add: is_manifest_def file_name_def js_simps endsWith_def)
  then show ?thesis
    using stale_manifest_shown [of ?f
        "\<lparr>expandedManifest = Some (js ''r/a/_manifest.json''), manifestContent = Some (Content (1 :: int))\<rparr>"
        "Content 1" "\<lparr>res_status = 404, res_statusText = [], res_json = Inl None\<rparr>"]
    by (simp add: js_simps res_ok_def)
qed

end
