(* ===== verification/Widgets.thy ===== *)
theory Widgets
  imports Ui Fetching
begin

text \<open>
  The panels beside the live demo: the guided walkthrough
  (\<open>frontend/src/components/DemoWalkthrough.tsx\<close>), containers (\<open>ContainerStatus.tsx\<close>), host
  information (\<open>SystemInfo.tsx\<close>), the model card (\<open>TrainingInfo.tsx\<close>), the activity feed
  (\<open>ActivityFeed.tsx\<close>) and the visitor counter (\<open>VisitorStats.tsx\<close>).
\<close>

section \<open>Walkthrough\<close>

record RecoverySummary =
  ry_detectTime :: real
  ry_recoverTime :: real
  ry_restoredStep :: int
  ry_currentStep :: int
  ry_checkpointLoss :: real

datatype tone = ToneOk | ToneInfo | ToneErr | ToneRecover | ToneWarn

text \<open>Optional fields that are missing or \<open>null\<close> are \<open>None\<close>.\<close>

record WalkthroughContent =
  wc_step :: string
  wc_title :: string
  wc_body :: jsstring
  wc_action :: "string option"
  wc_elapsed :: "real option"
  wc_color :: tone

definition getContent ::
  "int \<Rightarrow> RunState \<Rightarrow> real option \<Rightarrow> RecoverySummary option \<Rightarrow> WalkthroughContent" where
  "getContent walkthroughStep runState elapsed recoverySummary =
     (case recoverySummary of
        Some r \<Rightarrow>
          \<lparr>wc_step = ''Done'', wc_title = ''Recovery Complete: Zero Data Lost'',
           wc_body = js ''Detected crash in '' @ toFixed 1 (ry_detectTime r) @ js ''s, recovered in ''
             @ toFixed 1 (ry_recoverTime r) @ js ''s total.'',
           wc_action = None, wc_elapsed = None, wc_color = ToneOk\<rparr>
      | None \<Rightarrow>
          if walkthroughStep \<ge> 3 then
            if runState = FAILED then
              \<lparr>wc_step = ''2/3'', wc_title = ''Crash Detected!'',
               wc_body = js (''The worker stopped sending heartbeats. The system noticed it'' @ [CHR 0x27] @ ''s gone. ''
                 @ ''Recovery is about to start. The system will restart the container and load the last saved ''
                 @ ''checkpoint from storage.''),
               wc_action = None, wc_elapsed = elapsed, wc_color = ToneErr\<rparr>
            else if runState = RECOVERING then
              \<lparr>wc_step = ''2/3'', wc_title = ''Recovering...'',
               wc_body = js (''The crashed worker is restarting. It'' @ [CHR 0x27] @ ''s loading the last saved checkpoint ''
                 @ ''from object storage right now. When it finishes, training will resume from the exact ''
                 @ ''step it was saved at. No work lost.''),
               wc_action = None, wc_elapsed = elapsed, wc_color = ToneRecover\<rparr>
            else
              \<lparr>wc_step = ''2/3'', wc_title = ''Crash Detected!'',
               wc_body = js (''The kill signal was just sent to the worker container. Waiting for the system to ''
                 @ ''detect the failure and begin recovery...''),
               wc_action = None, wc_elapsed = elapsed, wc_color = ToneErr\<rparr>
          else if walkthroughStep \<ge> 1 then
            \<lparr>wc_step = ''1/3'', wc_title = ''Checkpoints Are Being Saved'',
             wc_body = js (''Every 50 training steps, the system saves a snapshot of the entire model: all 202K ''
               @ ''parameters, the optimizer state, and the current step. The blue dots on the loss chart are ''
               @ ''checkpoints. Kill a worker above whenever you'' @ [CHR 0x27] @ ''re ready.''),
             wc_action = None, wc_elapsed = None, wc_color = ToneInfo\<rparr>
          else
            \<lparr>wc_step = ''1/3'', wc_title = ''Training Has Started'',
             wc_body = js (''Two real Docker containers are training a neural network together right now. Watch the ''
               @ ''loss chart: the green line going down means the model is learning. Checkpoints will start ''
               @ ''saving automatically every 50 steps.''),
             wc_action = None, wc_elapsed = None, wc_color = ToneOk\<rparr>)"

fun BG :: "tone \<Rightarrow> string" where
  "BG ToneOk = ''border-ok bg-ok-muted/50''"
| "BG ToneInfo = ''border-info bg-info-muted/50''"
| "BG ToneErr = ''border-err bg-err-muted/50''"
| "BG ToneRecover = ''border-recover bg-recover-muted/50''"
| "BG ToneWarn = ''border-warn bg-warn-muted/50''"

fun TEXT :: "tone \<Rightarrow> string" where
  "TEXT ToneOk = ''text-ok''"
| "TEXT ToneInfo = ''text-info''"
| "TEXT ToneErr = ''text-err''"
| "TEXT ToneRecover = ''text-recover''"
| "TEXT ToneWarn = ''text-warn''"

definition progressPct :: "int \<Rightarrow> RecoverySummary option \<Rightarrow> int" where
  "progressPct currentStep recoverySummary =
     (if recoverySummary \<noteq> None then 100 else if currentStep \<ge> 3 then 66 else if currentStep \<ge> 1 then 33 else 10)"

definition tone_bar :: "tone \<Rightarrow> string" where
  "tone_bar c =
     (if c = ToneOk then ''bg-ok'' else if c = ToneErr then ''bg-err''
      else if c = ToneRecover then ''bg-recover'' else if c = ToneInfo then ''bg-info'' else ''bg-warn'')"

definition summary_box :: "string \<Rightarrow> RecoverySummary \<Rightarrow> 'a node" where
  "summary_box label r =
     Elem ''div'' []
       [Elem ''div'' [] [Elem ''span'' [] [], Elem ''span'' [] [T label]],
        Elem ''div'' []
          [Elem ''div'' [] [Elem ''span'' [] [T ''Step''], Elem ''span'' [] [Txt (int_str (ry_restoredStep r))]],
           Elem ''div'' []
             [Elem ''span'' [] [T ''Loss''], Elem ''span'' [] [Txt (toFixed 4 (ry_checkpointLoss r))]]]]"

definition recovery_proof :: "RecoverySummary \<Rightarrow> 'a node" where
  "recovery_proof r =
     Elem ''div'' []
       [Elem ''div'' [] [summary_box ''Saved'' r, summary_box ''Restored'' r],
        Elem ''div'' []
          [Elem ''p'' []
             [Elem ''span'' [] [T ''Same step, same loss.''],
              T '' The model was restored to the exact state it was saved at. If the checkpoint had failed, loss would reset to '',
              Elem ''span'' [] [T ''~2.3''],
              T '' (random weights). Look at the chart: training continued from '',
              Elem ''span'' [] [Txt (toFixed 4 (ry_checkpointLoss r))],
              T '', not '', Elem ''span'' [] [T ''2.3''], T ''.'']]]"

definition DemoWalkthrough ::
  "int \<Rightarrow> RunState \<Rightarrow> real option \<Rightarrow> RecoverySummary option \<Rightarrow> 'a node" where
  "DemoWalkthrough currentStep runState elapsedSinceKill recoverySummary =
     (let content = getContent currentStep runState elapsedSinceKill recoverySummary;
          pct = progressPct currentStep recoverySummary
      in Elem ''div'' [Key (js (wc_title content)), Cls (BG (wc_color content))]
           ([Elem ''div'' []
               [Elem ''span'' [Cls (TEXT (wc_color content))] [T ''Step '', T (wc_step content)],
                Elem ''div'' [] [Elem ''div'' [Cls (tone_bar (wc_color content)), Width (real_of_int pct)] []]],
             Elem ''div'' []
               (Elem ''h3'' [Cls (TEXT (wc_color content))] [T (wc_title content)]
                # show_some (wc_elapsed content) (\<lambda>e. [Elem ''span'' [] [Txt (toFixed 1 e), T ''s'']])),
             Elem ''p'' [] [Txt (wc_body content)]]
            @ show_some recoverySummary (\<lambda>r. [recovery_proof r])
            @ show_some (wc_action content) (\<lambda>a. show_if (a \<noteq> [])
                [Elem ''div'' []
                   [Elem ''span'' []
                      [Elem ''span'' [Cls (if wc_color content = ToneErr then ''bg-err'' else ''bg-ok'')] [],
                       Elem ''span'' [Cls (if wc_color content = ToneErr then ''bg-err'' else ''bg-ok'')] []],
                    Elem ''span'' [Cls (TEXT (wc_color content))] [T a]]])))"

section \<open>Containers\<close>

record ContainerInfo =
  co_name :: jsstring
  co_image :: jsstring
  co_status :: jsstring
  co_state :: jsstring
  co_ports :: jsstring

definition container_row :: "ContainerInfo \<Rightarrow> 'a node" where
  "container_row c =
     (let isRunning = (co_state c = js ''running'')
      in Elem ''div'' [Key (co_name c)]
           [Elem ''div'' [Cls (if isRunning then ''bg-ok'' else ''bg-err'')] [],
            Elem ''span'' [] [Txt (co_name c)],
            Elem ''span'' [Cls (if isRunning then ''text-txt-3'' else ''text-err'')] [Txt (co_status c)]])"

definition ContainerStatus :: "ContainerInfo list option \<Rightarrow> 'a node" where
  "ContainerStatus containers =
     Elem ''div'' []
       [Elem ''div'' [] [Elem ''span'' [] [T ''docker ps''], Elem ''h4'' [] [T ''Infrastructure'']],
        Elem ''div'' []
          [Elem ''p'' []
             [T ''Live Docker containers on the server. When you kill a worker, watch its status change from '',
              Elem ''span'' [] [T ''running''], T '' to '', Elem ''span'' [] [T ''exited''], T '' and back.'']],
        Elem ''div'' []
          (case containers of
             Some cs \<Rightarrow>
               if length cs > 0 then map container_row cs
               else [Elem ''div'' [] [T ''Waiting for container data...'']]
           | None \<Rightarrow> [Elem ''div'' [] [T ''Waiting for container data...'']])]"

section \<open>Host system\<close>

record SystemData =
  sy_hostname :: jsstring
  sy_os :: jsstring
  sy_arch :: jsstring
  sy_cpu :: jsstring
  sy_cpu_count :: int
  sy_memory_total :: jsstring
  sy_memory_available :: jsstring
  sy_disk :: jsstring
  sy_uptime :: jsstring
  sy_docker_version :: jsstring
  sy_container_count :: int
  sy_python_version :: jsstring

definition system_rows :: "SystemData \<Rightarrow> (string \<times> jsstring) list" where
  "system_rows d =
     [(''Hostname'', sy_hostname d), (''OS'', sy_os d),
      (''CPU'', sy_cpu d @ js '' ('' @ int_str (sy_cpu_count d) @ js '' cores)''),
      (''Memory'', sy_memory_total d @ js '' total''), (''Disk'', sy_disk d), (''Uptime'', sy_uptime d),
      (''Docker'', sy_docker_version d),
      (''Containers'', int_str (sy_container_count d) @ js '' running'')]"

definition SystemInfo :: "SystemData option \<Rightarrow> 'a node" where
  "SystemInfo data =
     (case data of
        None \<Rightarrow>
          Elem ''div'' []
            [Elem ''div'' [] [Elem ''span'' [] [T ''uname''], Elem ''h4'' [] [T ''Host System'']],
             Elem ''p'' [] [T ''Loading system info...'']]
      | Some d \<Rightarrow>
          Elem ''div'' []
            [Elem ''div'' [] [Elem ''span'' [] [T ''uname''], Elem ''h4'' [] [T ''Host System'']],
             Elem ''div'' []
               (map (\<lambda>(label, value).
                  Elem ''div'' [Key (js label)] [Elem ''span'' [] [T label], Elem ''span'' [] [Txt value]])
                  (system_rows d))])"

section \<open>Model card\<close>

definition layers :: "(string \<times> string) list" where
  "layers =
     [(''Input'', ''784''), (''Hidden'', ''256''), (''Hidden'', ''256''), (''Hidden'', ''256''), (''Output'', ''10'')]"

definition training_stats :: "(string \<times> string) list" where
  "training_stats =
     [(''Parameters'', ''202K''), (''Loss fn'', ''CrossEntropy''), (''Optimizer'', ''Adam''),
      (''Dataset'', ''1024 samples''), (''Workers'', ''2 (DDP)''), (''Ckpt interval'', ''50 steps'')]"

definition TrainingInfo :: "'a node" where
  "TrainingInfo =
     Elem ''div'' []
       [Elem ''div'' [] [Elem ''span'' [] [T ''model''],
          Elem ''h4'' [] [T (''What'' @ [CHR 0x27] @ ''s Training'')]],
        Elem ''div'' []
          (map (\<lambda>(i, label, dim).
             Elem ''div'' [Key (nat_str i)]
               (Elem ''div'' []
                  [Elem ''div''
                     [Cls (if i = 0 then ''border-info/30 bg-info-muted text-info''
                           else if i = length layers - 1 then ''border-ok/30 bg-ok-muted text-ok''
                           else ''border-line bg-surface-2 text-txt-2'')] [T dim],
                   Elem ''span'' [] [T label]]
                # show_if (i < length layers - 1) [Elem ''svg'' [] []]))
             (zip [0..<length layers] layers)),
        Elem ''div'' []
          (map (\<lambda>(label, value).
             Elem ''div'' [Key (js label)] [Elem ''p'' [] [T label], Elem ''p'' [] [T value]]) training_stats),
        Elem ''p'' []
          [T ''A real MLP neural network training on synthetic MNIST-like data using PyTorch Distributed Data Parallel across 2 CPU workers.'']]"

section \<open>Activity feed\<close>

record ActivityItem =
  ac_message :: jsstring
  ac_flag :: jsstring
  ac_timestamp :: real

text \<open>\<open>now\<close> is \<open>Date.now()\<close> in milliseconds, \<open>ts\<close> a time stamp in seconds.\<close>

definition timeAgo :: "int \<Rightarrow> real \<Rightarrow> jsstring" where
  "timeAgo now ts =
     (let seconds = \<lfloor>real_of_int now / 1000 - ts\<rfloor>
      in if seconds < 5 then js ''just now''
         else if seconds < 60 then int_str seconds @ js ''s ago''
         else if seconds < 3600 then int_str (seconds div 60) @ js ''m ago''
         else int_str (seconds div 3600) @ js ''h ago'')"

definition activity_poll :: "ActivityItem list fetched \<Rightarrow> ActivityItem list \<Rightarrow> ActivityItem list" where
  "activity_poll f items =
     (case f of
        Inl e \<Rightarrow> items
      | Inr res \<Rightarrow> if res_ok res then (case res_json res of Inl e \<Rightarrow> items | Inr a \<Rightarrow> a) else items)"

text \<open>\<open>num\<close> prints the time stamp in the key of an entry.\<close>

definition activity_row :: "(real \<Rightarrow> jsstring) \<Rightarrow> int \<Rightarrow> nat \<times> ActivityItem \<Rightarrow> 'a node" where
  "activity_row num now = (\<lambda>(i, item).
     Elem ''div'' [Key (num (ac_timestamp item) @ js ''-'' @ nat_str i)]
       [Elem ''span'' [] [Txt (ac_flag item)],
        Elem ''span'' [] [Txt (ac_message item)],
        Elem ''span'' [] [Txt (timeAgo now (ac_timestamp item))]])"

definition ActivityFeed :: "(real \<Rightarrow> jsstring) \<Rightarrow> int \<Rightarrow> ActivityItem list \<Rightarrow> 'a node" where
  "ActivityFeed num now items =
     Elem ''div'' []
       [Elem ''div'' [] [Elem ''span'' [] [T ''feed''], Elem ''h4'' [] [T ''Activity'']],
        Elem ''div'' []
          [Elem ''p'' []
             [T ''Recent visitor activity and kill events from people using this demo around the world.'']],
        Elem ''div'' []
          [if length items = 0 then Elem ''div'' [] [T ''No activity yet...'']
           else (let shown = slice 0 15 items
                 in Elem ''div'' [] (map (activity_row num now) (zip [0..<length shown] shown)))]]"

section \<open>Visitors\<close>

record CountryInfo =
  cy_country :: jsstring
  cy_country_code :: jsstring
  cy_flag :: jsstring
  cy_count :: int

record VisitorData =
  vd_session_id :: jsstring
  vd_total_visitors :: int
  vd_countries :: "CountryInfo list"
  vd_activity :: "ActivityItem list"

text \<open>\<open>vs_stored\<close> is the entry of \<open>sessionStorage\<close> under \<open>ckpt_visitor_session\<close>.\<close>

record visitor_stats =
  vs_data :: "VisitorData option"
  vs_session :: jsstring
  vs_stored :: "jsstring option"

text \<open>The session identifier and the storage after asking for it; \<open>fresh\<close> is the random one.\<close>

definition getSessionId :: "jsstring \<Rightarrow> jsstring option \<Rightarrow> jsstring \<times> jsstring option" where
  "getSessionId fresh stored =
     (case stored of
        Some ident \<Rightarrow> if ident = [] then (fresh, Some fresh) else (ident, stored)
      | None \<Rightarrow> (fresh, Some fresh))"

definition visitor_mount :: "jsstring \<Rightarrow> jsstring option \<Rightarrow> visitor_stats" where
  "visitor_mount fresh stored =
     (let (ident, st) = getSessionId fresh stored in \<lparr>vs_data = None, vs_session = ident, vs_stored = st\<rparr>)"

definition ping :: "VisitorData fetched \<Rightarrow> visitor_stats \<Rightarrow> visitor_stats" where
  "ping f s =
     (case f of
        Inl e \<Rightarrow> s
      | Inr res \<Rightarrow>
          if res_ok res
          then (case res_json res of
                  Inl e \<Rightarrow> s
                | Inr d \<Rightarrow> s\<lparr>vs_session := vd_session_id d, vs_stored := Some (vd_session_id d), vs_data := Some d\<rparr>)
          else s)"

definition country_tag :: "CountryInfo \<Rightarrow> 'a node" where
  "country_tag c =
     Elem ''span'' [Key (cy_country_code c), Title (cy_country c @ js '': '' @ int_str (cy_count c))]
       (Elem ''span'' [] [Txt (cy_flag c)]
        # show_if (cy_count c > 1) [Elem ''span'' [] [Txt (int_str (cy_count c))]])"

definition VisitorStats :: "visitor_stats \<Rightarrow> 'a node list" where
  "VisitorStats s =
     show_some (vs_data s) (\<lambda>d.
       [Elem ''div'' []
          (Elem ''div'' []
             [Elem ''span'' [] [T ''live''], Elem ''h4'' [] [T ''Watching Now''],
              Elem ''span'' [] [Elem ''span'' [] [], Elem ''span'' [] [Txt (int_str (vd_total_visitors d))]]]
           # show_if (length (vd_countries d) > 0) [Elem ''div'' [] (map country_tag (vd_countries d))])])"

text \<open>The component from its mounting on, through a sequence of pings; which of them were answered.\<close>

definition visitor_run :: "jsstring \<Rightarrow> jsstring option \<Rightarrow> VisitorData fetched list \<Rightarrow> visitor_stats" where
  "visitor_run fresh stored fs = foldl (\<lambda>s f. ping f s) (visitor_mount fresh stored) fs"

definition answered :: "VisitorData fetched \<Rightarrow> bool" where
  "answered f =
     (case f of
        Inl e \<Rightarrow> False
      | Inr res \<Rightarrow> res_ok res \<and> (case res_json res of Inl e \<Rightarrow> False | Inr d \<Rightarrow> True))"

section \<open>Contracts\<close>

interpretation container_rows: keyed_list container_row co_name
  by unfold_locales (simp add: container_row_def Let_def)

interpretation country_tags: keyed_list country_tag cy_country_code
  by unfold_locales (simp add: country_tag_def)

interpretation activity_rows: keyed_list "activity_row num now"
  "\<lambda>(i, item). num (ac_timestamp item) @ js ''-'' @ nat_str i" for num now
  by unfold_locales (auto simp: activity_row_def)

section \<open>Properties\<close>

text \<open>
  The walkthrough's parts agree: whatever the inputs, the label, the colour and the progress
  bar show the same stage (starting, checkpoints, failure, done), the timer of the failure is
  shown only between the kill and the end of the recovery, and the bar never goes back as the
  walkthrough advances or the recovery completes.
\<close>

theorem walkthrough_consistent:
  "wc_step (getContent n st e r) =
     (if progressPct n r = 100 then ''Done'' else if progressPct n r = 66 then ''2/3'' else ''1/3'')
   \<and> wc_elapsed (getContent n st e r) = (if progressPct n r = 66 then e else None)
   \<and> (wc_color (getContent n st e r) = ToneRecover \<longleftrightarrow> progressPct n r = 66 \<and> st = RECOVERING)
   \<and> (wc_color (getContent n st e r) = ToneErr \<longleftrightarrow> progressPct n r = 66 \<and> st \<noteq> RECOVERING)
   \<and> progressPct n r \<le> progressPct (max n m) r \<and> progressPct n None \<le> progressPct n r"
  by (cases r) (auto simp: getContent_def progressPct_def)

text \<open>
  The feed's relative times: for an age of at least 5 seconds the text is the whole number of
  seconds, minutes or hours that the age contains in the largest unit it reaches, and anything
  younger (also a time stamp of the future) is \<open>just now\<close>.
\<close>

theorem timeAgo_units:
  assumes "real_of_int n \<le> (real_of_int now / 1000 - ts) / real_of_int u"
    and "(real_of_int now / 1000 - ts) / real_of_int u < real_of_int n + 1"
  shows "(u = 1 \<and> n < 5 \<longrightarrow> timeAgo now ts = js ''just now'')
    \<and> (u = 1 \<and> 5 \<le> n \<and> n < 60 \<longrightarrow> timeAgo now ts = int_str n @ js ''s ago'')
    \<and> (u = 60 \<and> 1 \<le> n \<and> n < 60 \<longrightarrow> timeAgo now ts = int_str n @ js ''m ago'')
    \<and> (u = 3600 \<and> 1 \<le> n \<longrightarrow> timeAgo now ts = int_str n @ js ''h ago'')"
proof -
  define s where "s = \<lfloor>real_of_int now / 1000 - ts\<rfloor>"
  have unit: "s div u = n" if "0 < u"
  proof -
    have "s div u = \<lfloor>(real_of_int now / 1000 - ts) / real_of_int u\<rfloor>"
      using that by (simp add: floor_divide_real_eq_div s_def)
    also have "\<dots> = n" using assms by (intro floor_unique) simp_all
    finally show ?thesis .
  qed
  have "u = 1 \<Longrightarrow> s = n" "u = 60 \<Longrightarrow> s div 60 = n" "u = 3600 \<Longrightarrow> s div 3600 = n"
    using unit by simp_all
  moreover have "1 \<le> s div 60 \<Longrightarrow> 60 \<le> s" "s div 60 < 60 \<Longrightarrow> s < 3600" "1 \<le> s div 3600 \<Longrightarrow> 3600 \<le> s"
    by presburger+
  ultimately show ?thesis unfolding timeAgo_def Let_def s_def [symmetric] by auto
qed

theorem timeAgo_units_witness:
  "timeAgo 7400000 100 = js ''2h ago'' \<and> timeAgo 190000 100 = js ''1m ago''"
  using timeAgo_units [of 2 7400000 100 3600] timeAgo_units [of 1 190000 100 60]
  by (simp add: int_str_def text_simps digit_char_def)

text \<open>
  A visitor keeps one session: the identifier the page uses and the stored one agree when
  the page opens and after any sequence of pings, a stored identifier is reused by the next
  visit of the session, and failed pings change nothing.
\<close>

theorem visitor_session_stable:
  "vs_stored (visitor_run fresh stored fs) = Some (vs_session (visitor_run fresh stored fs))
   \<and> (vs_session (visitor_run fresh stored fs) \<noteq> [] \<longrightarrow>
       fst (getSessionId other (vs_stored (visitor_run fresh stored fs))) = vs_session (visitor_run fresh stored fs))
   \<and> (stored = Some (c # ident) \<and> list_all (\<lambda>f. \<not> answered f) fs \<longrightarrow>
       visitor_run fresh stored fs =
         \<lparr>vs_data = None, vs_session = c # ident, vs_stored = Some (c # ident)\<rparr>)"
proof -
  have mount: "vs_stored (visitor_mount fresh stored) = Some (vs_session (visitor_mount fresh stored))"
    by (auto simp: visitor_mount_def getSessionId_def split: option.split)
  have inv: "vs_stored t = Some (vs_session t) \<Longrightarrow>
      vs_stored (foldl (\<lambda>s f. ping f s) t fs) = Some (vs_session (foldl (\<lambda>s f. ping f s) t fs))" for t
    by (induction fs arbitrary: t) (auto simp: ping_def split: sum.split)
  have idle: "list_all (\<lambda>f. \<not> answered f) fs \<Longrightarrow> foldl (\<lambda>s f. ping f s) t fs = t" for t
    by (induction fs arbitrary: t) (auto simp: ping_def answered_def split: sum.splits)
  have "vs_stored (visitor_run fresh stored fs) = Some (vs_session (visitor_run fresh stored fs))"
    unfolding visitor_run_def by (rule inv [OF mount])
  moreover have "stored = Some (c # ident) \<Longrightarrow>
      visitor_mount fresh stored = \<lparr>vs_data = None, vs_session = c # ident, vs_stored = Some (c # ident)\<rparr>"
    by (simp add: visitor_mount_def getSessionId_def)
  ultimately show ?thesis using idle by (auto simp: getSessionId_def visitor_run_def)
qed

theorem visitor_session_stable_witness:
  "visitor_run (js ''new'') (Some (js ''old'')) [refusal 500 ''Error'', Inl None] =
     \<lparr>vs_data = None, vs_session = js ''old'', vs_stored = Some (js ''old'')\<rparr>"
  using visitor_session_stable [of "js ''new''" "Some (js ''old'')" "[refusal 500 ''Error'', Inl None]" _
      "Ch (CHR ''o'')" "js ''ld''"]
  by (simp add: js_simps refusal_def res_ok_def answered_def)

end
