(* ===== verification/App.thy ===== *)
theory App
  imports Ui
begin

text \<open>
  The frame of the console, \<open>frontend/src/App.tsx\<close>: its routes and the guard that keeps the
  operator pages off public hosts, the navigation, the menu and the scroll positions.

  Which route matches a path is decided by the router library: it is the parameter \<open>select\<close>, which
  gets the patterns and the path and returns a pattern, or \<open>None\<close>. The desktop bar and the mobile
  panel each hold a theme toggle with a state of its own.
\<close>

section \<open>Routes\<close>

definition LOCAL_RUNTIME_HOSTS :: "jsstring list" where
  "LOCAL_RUNTIME_HOSTS = [js ''localhost'', js ''127.0.0.1'', js ''::1'']"

datatype page =
    LandingPage | HowItWorksPage | DemoPage | TryLocallyPage | BenchmarksPage
  | RunsPage | RunDetailPage | CheckpointBrowser | HealthPage | PerformancePage

datatype element = Show page | Suspense page | Navigate string

definition localOperatorRoute :: "jsstring \<Rightarrow> page \<Rightarrow> element" where
  "localOperatorRoute hostname element =
     (if hostname \<in> set LOCAL_RUNTIME_HOSTS then Suspense element else Navigate ''/demo'')"

definition routes :: "jsstring \<Rightarrow> (string \<times> element) list" where
  "routes hostname =
     [(''/'', Show LandingPage), (''/how-it-works'', Show HowItWorksPage), (''/demo'', Show DemoPage),
      (''/try-locally'', Show TryLocallyPage),
      (''/runs'', localOperatorRoute hostname RunsPage),
      (''/runs/:id'', localOperatorRoute hostname RunDetailPage),
      (''/checkpoints'', localOperatorRoute hostname CheckpointBrowser),
      (''/health'', localOperatorRoute hostname HealthPage),
      (''/performance'', localOperatorRoute hostname PerformancePage),
      (''/benchmarks'', Show BenchmarksPage)]"

type_synonym router = "string list \<Rightarrow> jsstring \<Rightarrow> string option"

definition app_content :: "router \<Rightarrow> jsstring \<Rightarrow> jsstring \<Rightarrow> element option" where
  "app_content select hostname pathname =
     (case select (map fst (routes hostname)) pathname of
        None \<Rightarrow> None
      | Some pattern \<Rightarrow> map_of (routes hostname) pattern)"

section \<open>Navigation\<close>

record nav_item =
  nv_to :: jsstring
  nv_label :: string
  nv_highlight :: bool

definition desktopNavItems :: "nav_item list" where
  "desktopNavItems =
     [\<lparr>nv_to = js ''/how-it-works'', nv_label = ''How It Works'', nv_highlight = False\<rparr>,
      \<lparr>nv_to = js ''/demo'', nv_label = ''Simulation'', nv_highlight = True\<rparr>,
      \<lparr>nv_to = js ''/try-locally'', nv_label = ''Try Locally'', nv_highlight = False\<rparr>,
      \<lparr>nv_to = js ''/benchmarks'', nv_label = ''Benchmarks'', nv_highlight = False\<rparr>]"

definition mobileNavItems :: "nav_item list" where
  "mobileNavItems =
     [\<lparr>nv_to = js ''/'', nv_label = ''Home'', nv_highlight = False\<rparr>,
      \<lparr>nv_to = js ''/how-it-works'', nv_label = ''How It Works'', nv_highlight = False\<rparr>,
      \<lparr>nv_to = js ''/demo'', nv_label = ''Simulation'', nv_highlight = False\<rparr>,
      \<lparr>nv_to = js ''/try-locally'', nv_label = ''Try Locally'', nv_highlight = False\<rparr>,
      \<lparr>nv_to = js ''/benchmarks'', nv_label = ''Benchmarks'', nv_highlight = False\<rparr>]"

definition isActive :: "jsstring \<Rightarrow> jsstring \<Rightarrow> bool" where
  "isActive pathname path =
     (if path = js ''/'' then pathname = js ''/''
      else if path = js ''/runs'' then pathname = js ''/runs'' \<or> startsWith pathname (js ''/runs/'')
      else startsWith pathname path)"

section \<open>State and effects\<close>

text \<open>
  \<open>ap_scrollTo\<close> is the position the last effect asked the window for, \<open>ap_overflow\<close> is what
  \<open>document.body.style.overflow\<close> holds, \<open>ap_desktop\<close> and \<open>ap_mobile\<close> are the states of the two theme
  toggles (the mobile one exists while the menu is open).
\<close>

record app =
  ap_menuOpen :: bool
  ap_scrollPositions :: "(jsstring \<times> real) list"
  ap_prevPath :: jsstring
  ap_scrollTo :: real
  ap_overflow :: string
  ap_desktop :: bool
  ap_mobile :: bool
  ap_darkClass :: bool
  ap_theme :: "string option"

definition app_init :: "jsstring \<Rightarrow> bool \<Rightarrow> string option \<Rightarrow> app" where
  "app_init pathname cls stored =
     \<lparr>ap_menuOpen = False, ap_scrollPositions = [], ap_prevPath = pathname, ap_scrollTo = 0,
      ap_overflow = [], ap_desktop = cls, ap_mobile = cls, ap_darkClass = cls, ap_theme = stored\<rparr>"

text \<open>The overflow effect with its cleanup, and the mounting of the panel with its toggle.\<close>

definition overflow_effect :: "app \<Rightarrow> app" where
  "overflow_effect s = s\<lparr>ap_overflow := (if ap_menuOpen s then ''hidden'' else [])\<rparr>"

definition setMenuOpen :: "bool \<Rightarrow> app \<Rightarrow> app" where
  "setMenuOpen b s =
     overflow_effect
       (s\<lparr>ap_menuOpen := b, ap_mobile := (if b \<and> \<not> ap_menuOpen s then ap_darkClass s else ap_mobile s)\<rparr>)"

text \<open>The effect of a new path; \<open>y\<close> is \<open>window.scrollY\<close> when it runs.\<close>

definition path_effect :: "jsstring \<Rightarrow> real \<Rightarrow> app \<Rightarrow> app" where
  "path_effect pathname y s =
     (let s1 = s\<lparr>ap_scrollPositions := (ap_prevPath s, y) # ap_scrollPositions s\<rparr>;
          s2 = s1\<lparr>ap_prevPath := pathname\<rparr>;
          s3 = setMenuOpen False s2;
          saved = map_of (ap_scrollPositions s3) pathname
      in s3\<lparr>ap_scrollTo := (case saved of None \<Rightarrow> 0 | Some p \<Rightarrow> p)\<rparr>)"

definition toggle_of :: "bool \<Rightarrow> app \<Rightarrow> theme" where
  "toggle_of local s = toggle \<lparr>dark = local, dark_class = ap_darkClass s, theme_stored = ap_theme s\<rparr>"

definition desktop_toggle :: "app \<Rightarrow> app" where
  "desktop_toggle s =
     (let t = toggle_of (ap_desktop s) s
      in s\<lparr>ap_desktop := dark t, ap_darkClass := dark_class t, ap_theme := theme_stored t\<rparr>)"

definition mobile_toggle :: "app \<Rightarrow> app" where
  "mobile_toggle s =
     (let t = toggle_of (ap_mobile s) s
      in s\<lparr>ap_mobile := dark t, ap_darkClass := dark_class t, ap_theme := theme_stored t\<rparr>)"

section \<open>View\<close>

datatype app_action = ToggleMenu | CloseMenu | DesktopTheme toggle_action | MobileTheme toggle_action

text \<open>The curve of the panel's edge for a window height, and the half of it as it is printed.\<close>

definition half_str :: "nat \<Rightarrow> jsstring" where
  "half_str h = nat_str (h div 2) @ (if even h then [] else js ''.5'')"

definition curve_path :: "string \<Rightarrow> nat \<Rightarrow> jsstring" where
  "curve_path q h =
     js ''M100 0 L200 0 L200 '' @ nat_str h @ js '' L100 '' @ nat_str h @ js '' Q'' @ js q @ js '' ''
     @ half_str h @ js '' 100 0''"

definition MenuCurve :: "nat \<Rightarrow> app_action node" where
  "MenuCurve h =
     Elem ''svg'' []
       [Elem ''path'' [Prop ''initial'' (curve_path ''-100'' h), Prop ''enter'' (curve_path ''100'' h),
          Prop ''exit'' (curve_path ''-100'' h)] []]"

definition desktop_link :: "jsstring \<Rightarrow> nav_item \<Rightarrow> app_action node" where
  "desktop_link pathname item =
     (let active = isActive pathname (nv_to item)
      in Elem ''Link''
           [Key (nv_to item), To (nv_to item),
            Cls (if active then ''text-txt-1 bg-surface-4/80''
                 else if nv_highlight item then ''text-brand-pink hover:text-brand-violet hover:bg-surface-3/60''
                 else ''text-txt-3 hover:text-txt-1 hover:bg-surface-3/60'')]
           ([Elem ''svg'' [] [], Elem ''span'' [] [T (nv_label item)]]
            @ show_if (nv_highlight item \<and> \<not> active) [Elem ''span'' [] []]))"

definition about_me :: "app_action attr list \<Rightarrow> app_action node" where
  "about_me as = Elem ''a'' (Href ''https://www.tasfiqj.com/'' # as) [T ''About Me'']"

definition desktop_nav :: "jsstring \<Rightarrow> app \<Rightarrow> app_action node" where
  "desktop_nav pathname s =
     Elem ''nav'' []
       ([Elem ''Link'' [To (js ''/'')] [Elem ''svg'' [] [], Elem ''span'' [] [T ''Home'']]]
        @ map (desktop_link pathname) desktopNavItems
        @ [about_me [],
           map_node DesktopTheme
             (ThemeToggle \<lparr>dark = ap_desktop s, dark_class = ap_darkClass s, theme_stored = ap_theme s\<rparr>)])"

definition mobile_link :: "jsstring \<Rightarrow> nav_item \<Rightarrow> app_action node" where
  "mobile_link pathname item =
     Elem ''div'' [Key (nv_to item)]
       [Elem ''div'' [Prop ''animate'' (js (if isActive pathname (nv_to item) then ''open'' else ''closed''))] [],
        Elem ''Link''
          [To (nv_to item), OnClick CloseMenu,
           Cls (if isActive pathname (nv_to item) then ''text-txt-1'' else ''text-txt-3 hover:text-txt-1'')]
          [T (nv_label item)]]"

definition mobile_nav :: "nat \<Rightarrow> jsstring \<Rightarrow> app \<Rightarrow> app_action node" where
  "mobile_nav h pathname s =
     Elem ''div'' []
       ([Elem ''button'' [OnClick ToggleMenu, Prop ''animate'' (js (if ap_menuOpen s then ''open'' else ''closed''))]
           [Elem ''span'' [] [], Elem ''span'' [] [], Elem ''span'' [] []]]
        @ show_if (ap_menuOpen s) [Elem ''div'' [Key (js ''backdrop''), OnClick CloseMenu] []]
        @ show_if (ap_menuOpen s)
            [Elem ''nav'' [Key (js ''panel'')]
               [Elem ''div'' []
                  [Elem ''div'' []
                     [Elem ''p'' [] [T ''Navigation''],
                      Elem ''div'' []
                        (map (mobile_link pathname) mobileNavItems
                         @ [Elem ''div'' [] [about_me [OnClick CloseMenu]]])],
                   Elem ''div'' []
                     [map_node MobileTheme
                        (ThemeToggle \<lparr>dark = ap_mobile s, dark_class = ap_darkClass s, theme_stored = ap_theme s\<rparr>),
                      Elem ''span'' [] [T ''Checkpoint Runtime'']]],
                MenuCurve h]])"

text \<open>The page below the navigation; \<open>render\<close> draws the page of a route.\<close>

definition app_main :: "(page \<Rightarrow> app_action node list) \<Rightarrow> element option \<Rightarrow> jsstring \<Rightarrow> app_action node" where
  "app_main render content pathname =
     Elem ''main''
       [Cls (if pathname = js ''/'' then []
             else ''pt-20 max-w-[1400px] mx-auto w-full px-4 sm:px-5 py-6'')]
       (case content of
          None \<Rightarrow> []
        | Some (Show p) \<Rightarrow> render p
        | Some (Suspense p) \<Rightarrow> [Elem ''Suspense'' [] (render p)]
        | Some (Navigate t) \<Rightarrow> [Elem ''Navigate'' [To (js t)] []])"

definition App_view ::
  "(page \<Rightarrow> app_action node list) \<Rightarrow> router \<Rightarrow> nat \<Rightarrow> jsstring \<Rightarrow> jsstring \<Rightarrow> app \<Rightarrow> app_action node" where
  "App_view render select h hostname pathname s =
     Elem ''div'' []
       [desktop_nav pathname s, mobile_nav h pathname s,
        app_main render (app_content select hostname pathname) pathname]"

section \<open>Contracts\<close>

interpretation desktop_links: keyed_list "desktop_link pathname" nv_to for pathname
  by unfold_locales (simp add: desktop_link_def Let_def)

interpretation mobile_links: keyed_list "mobile_link pathname" nv_to for pathname
  by unfold_locales (simp add: mobile_link_def)

section \<open>Lemmas\<close>

definition operator_page :: "page \<Rightarrow> bool" where
  "operator_page p = (p \<in> {RunsPage, RunDetailPage, CheckpointBrowser, HealthPage, PerformancePage})"

fun element_page :: "element \<Rightarrow> page option" where
  "element_page (Show p) = Some p"
| "element_page (Suspense p) = Some p"
| "element_page (Navigate t) = None"

lemma routes_public:
  "hostname \<notin> set LOCAL_RUNTIME_HOSTS \<Longrightarrow> (pat, e) \<in> set (routes hostname) \<Longrightarrow>
   (case element_page e of None \<Rightarrow> e = Navigate ''/demo'' | Some p \<Rightarrow> \<not> operator_page p)"
  by (auto simp: routes_def localOperatorRoute_def operator_page_def)

lemma app_content_route:
  "app_content select hostname pathname = Some e \<Longrightarrow> \<exists>pat. (pat, e) \<in> set (routes hostname)"
  by (auto simp: app_content_def split: option.splits dest: map_of_SomeD)

text \<open>Scroll positions survive the pages visited in between.\<close>

lemma path_effect_positions:
  "ap_scrollPositions (path_effect q y s) = (ap_prevPath s, y) # ap_scrollPositions s"
  "ap_prevPath (path_effect q y s) = q" "\<not> ap_menuOpen (path_effect q y s)"
  "ap_overflow (path_effect q y s) = []"
  "ap_scrollTo (path_effect q y s) =
     (case map_of ((ap_prevPath s, y) # ap_scrollPositions s) q of None \<Rightarrow> 0 | Some p \<Rightarrow> p)"
  by (simp_all add: path_effect_def setMenuOpen_def overflow_effect_def Let_def)

lemma positions_kept:
  assumes "ap_prevPath s \<noteq> p" and "p \<notin> fst ` set navs"
  shows "map_of (ap_scrollPositions (foldl (\<lambda>s (q, y). path_effect q y s) s navs)) p = map_of (ap_scrollPositions s) p
    \<and> ap_prevPath (foldl (\<lambda>s (q, y). path_effect q y s) s navs) \<noteq> p"
  using assms
proof (induction navs arbitrary: s)
  case (Cons nav navs)
  obtain q y where "nav = (q, y)" by (cases nav)
  with Cons.prems have "ap_prevPath (path_effect q y s) \<noteq> p" "p \<notin> fst ` set navs"
    "map_of (ap_scrollPositions (path_effect q y s)) p = map_of (ap_scrollPositions s) p"
    by (auto simp: path_effect_positions)
  with Cons.IH [of "path_effect q y s"] \<open>nav = (q, y)\<close> show ?case by simp
qed simp

section \<open>Properties\<close>

text \<open>
  C29. The operator console is never served on a public host: whatever path is visited and
  whatever route the router picks for it, on a host that is not one of the local ones the frame
  shows no operator page but redirects to the simulation, and the target of the redirect is
  itself a public route, so there is no second redirect.
\<close>

theorem operator_pages_local_only:
  assumes "hostname \<notin> set LOCAL_RUNTIME_HOSTS"
    and "app_content select hostname pathname = Some e"
  shows "(case element_page e of None \<Rightarrow> e = Navigate ''/demo'' | Some p \<Rightarrow> \<not> operator_page p)
    \<and> map_of (routes hostname) ''/demo'' = Some (Show DemoPage)"
proof -
  from app_content_route [OF assms(2)] obtain pat where "(pat, e) \<in> set (routes hostname)" by blast
  with routes_public [OF assms(1)] have "case element_page e of None \<Rightarrow> e = Navigate ''/demo'' | Some p \<Rightarrow> \<not> operator_page p"
    by blast
  then show ?thesis by (simp add: routes_def)
qed

text \<open>A router that compares paths literally.\<close>

definition literal_router :: router where
  "literal_router patterns path = find (\<lambda>p. js p = path) patterns"

theorem operator_pages_local_only_witness:
  "app_content literal_router (js ''example.com'') (js ''/health'') = Some (Navigate ''/demo'')
   \<and> map_of (routes (js ''example.com'')) ''/demo'' = Some (Show DemoPage)
   \<and> app_content literal_router (js ''localhost'') (js ''/health'') = Some (Suspense HealthPage)"
proof -
  have host: "js ''example.com'' \<notin> set LOCAL_RUNTIME_HOSTS" "js ''localhost'' \<in> set LOCAL_RUNTIME_HOSTS"
    by (simp_all add: LOCAL_RUNTIME_HOSTS_def js_inject)
  then have content: "app_content literal_router (js ''example.com'') (js ''/health'') = Some (Navigate ''/demo'')"
    "app_content literal_router (js ''localhost'') (js ''/health'') = Some (Suspense HealthPage)"
    by (simp_all add: app_content_def literal_router_def routes_def localOperatorRoute_def js_inject)
  with operator_pages_local_only [OF host(1) content(1)] show ?thesis by simp
qed

text \<open>
  Coming back to a page restores where it was left: after leaving page \<open>p\<close> at scroll position
  \<open>y\<close> and visiting any other pages, returning to \<open>p\<close> asks for position \<open>y\<close>; every navigation closes
  the menu and unlocks the scrolling of the body.
\<close>

theorem scroll_restored:
  assumes "q \<noteq> ap_prevPath s" and "ap_prevPath s \<notin> fst ` set navs"
  shows "ap_scrollTo (path_effect (ap_prevPath s) z
      (foldl (\<lambda>s (q, y). path_effect q y s) (path_effect q y s) navs)) = y
    \<and> \<not> ap_menuOpen (path_effect q y s) \<and> ap_overflow (path_effect q y s) = []"
  using positions_kept [of "path_effect q y s" "ap_prevPath s" navs] assms
  by (auto simp: path_effect_positions split: option.split)

theorem scroll_restored_witness:
  "ap_scrollTo (path_effect (js ''/'') 7
     (foldl (\<lambda>s (q, y). path_effect q y s) (path_effect (js ''/demo'') 640 (app_init (js ''/'') True None))
       [(js ''/benchmarks'', 12)])) = 640"
  using scroll_restored [of "js ''/demo''" "app_init (js ''/'') True None" "[(js ''/benchmarks'', 12)]" 7 640]
  by (simp add: app_init_def js_inject)

text \<open>
  On the page of a navigation item exactly that item is marked active, in the desktop bar and
  in the mobile panel, and every navigation link leads to a route that is shown on every host.
\<close>

theorem nav_marks_current_page:
  "list_all (\<lambda>i. list_all (\<lambda>j. isActive (nv_to i) (nv_to j) = (nv_to i = nv_to j)) mobileNavItems) mobileNavItems
   \<and> list_all (\<lambda>i. list_all (\<lambda>j. isActive (nv_to i) (nv_to j) = (nv_to i = nv_to j)) desktopNavItems) desktopNavItems
   \<and> list_all (\<lambda>i. list_ex (\<lambda>(pat, e). js pat = nv_to i \<and> (\<exists>p. e = Show p)) (routes hostname))
       (desktopNavItems @ mobileNavItems)"
proof -
  have "list_all (\<lambda>i. list_all (\<lambda>j. isActive (nv_to i) (nv_to j) = (nv_to i = nv_to j)) mobileNavItems) mobileNavItems"
    "list_all (\<lambda>i. list_all (\<lambda>j. isActive (nv_to i) (nv_to j) = (nv_to i = nv_to j)) desktopNavItems) desktopNavItems"
    by (simp_all add: mobileNavItems_def desktopNavItems_def isActive_def startsWith_def js_simps)
  moreover have "list_all (\<lambda>i. list_ex (\<lambda>(pat, e). js pat = nv_to i \<and> (\<exists>p. e = Show p)) (routes hostname))
       (desktopNavItems @ mobileNavItems)"
    by (simp add: mobileNavItems_def desktopNavItems_def routes_def js_inject)
  ultimately show ?thesis by blast
qed

text \<open>
  The two theme toggles get out of step: a click on the toggle of the mobile menu changes the
  page's theme but not what the desktop toggle believes, so the next click on the desktop toggle
  leaves the theme of the page as it is.
\<close>

theorem theme_toggles_diverge:
  assumes "ap_desktop s = ap_darkClass s" and "\<not> ap_menuOpen s"
  defines "t \<equiv> mobile_toggle (setMenuOpen True s)"
  shows "ap_darkClass t \<noteq> ap_darkClass s \<and> ap_desktop t \<noteq> ap_darkClass t
    \<and> ap_darkClass (desktop_toggle t) = ap_darkClass t"
  using assms(1,2)
  by (simp add: t_def mobile_toggle_def desktop_toggle_def toggle_of_def toggle_def setMenuOpen_def
      overflow_effect_def Let_def)

theorem theme_toggles_diverge_witness:
  "ap_darkClass (desktop_toggle (mobile_toggle (setMenuOpen True (app_init (js ''/'') True None)))) =
   ap_darkClass (mobile_toggle (setMenuOpen True (app_init (js ''/'') True None)))"
  using theme_toggles_diverge [of "app_init (js ''/'') True None"] by (simp add: app_init_def)

end
