(* ===== verification/Coordinator.thy ===== *)
theory Coordinator
  imports ControlPlane "HOL-Library.AList"
begin

text \<open>
  The coordinator of the control plane (\<open>python-controlplane/src/controlplane/coordinator.py\<close>): the
  key-value store it keeps its records in, the operations on runs, checkpoints and workers, and the
  state machines it holds in memory.

  The store keeps records as JSON; here it keeps the records themselves (the models of
  \<open>models.py\<close>), and reading a record of another kind than expected is the validation error that
  parsing it raises. Identifiers that \<open>uuid4\<close> draws and the time of a call are arguments. An
  operation returns its result or the exception it raises, and the coordinator after it: an
  exception does not undo what was done before it.
\<close>

section \<open>Models\<close>

record py_config =
  pc_name :: jsstring
  pc_num_workers :: int
  pc_sharding_policy :: string
  pc_checkpoint_interval_steps :: int
  pc_max_steps :: "int option"
  pc_dataset_id :: "jsstring option"
  pc_metadata :: "(jsstring \<times> jsstring) list"

record py_run =
  pr_run_id :: jsstring
  pr_name :: jsstring
  pr_state :: RunState
  pr_current_step :: int
  pr_num_workers :: int
  pr_active_workers :: int
  pr_created_at :: int
  pr_updated_at :: int
  pr_config :: py_config
  pr_last_checkpoint_id :: "jsstring option"
  pr_error_message :: "jsstring option"
  pr_metadata :: "(jsstring \<times> jsstring) list"

record py_checkpoint =
  pk_checkpoint_id :: jsstring
  pk_run_id :: jsstring
  pk_step :: int
  pk_state :: string
  pk_num_shards :: int
  pk_total_bytes :: int
  pk_created_at :: int
  pk_committed_at :: "int option"
  pk_shard_ids :: "jsstring list"
  pk_metadata :: "(jsstring \<times> jsstring) list"

record py_worker =
  pw_worker_id :: jsstring
  pw_run_id :: jsstring
  pw_rank :: int
  pw_hostname :: jsstring
  pw_status :: string
  pw_last_heartbeat :: "int option"
  pw_current_step :: int
  pw_metadata :: "(jsstring \<times> jsstring) list"

section \<open>The key-value store\<close>

datatype kv_value = RunVal py_run | CheckpointVal py_checkpoint | WorkerVal py_worker

text \<open>A dictionary keeps the order in which its keys were first inserted.\<close>

type_synonym kv = "(jsstring \<times> kv_value) list"

definition kv_get :: "jsstring \<Rightarrow> kv \<Rightarrow> kv_value option" where
  "kv_get key data = map_of data key"

definition kv_put :: "jsstring \<Rightarrow> kv_value \<Rightarrow> kv \<Rightarrow> kv" where
  "kv_put key value data = AList.update key value data"

definition kv_delete :: "jsstring \<Rightarrow> kv \<Rightarrow> kv" where
  "kv_delete key data = AList.delete key data"

definition kv_get_prefix :: "jsstring \<Rightarrow> kv \<Rightarrow> (jsstring \<times> kv_value) list" where
  "kv_get_prefix prefix data = filter (\<lambda>(k, v). startsWith k prefix) data"

text \<open>
  The contract of the protocol \<open>KVStore\<close>: what a \<open>get\<close> and a \<open>get_prefix\<close> return after a \<open>put\<close> or a
  \<open>delete\<close>. A store that obeys it can be described by the map of its contents alone.
\<close>

locale kv_store =
  fixes get :: "jsstring \<Rightarrow> 's \<Rightarrow> 'v option"
    and put :: "jsstring \<Rightarrow> 'v \<Rightarrow> 's \<Rightarrow> 's"
    and del :: "jsstring \<Rightarrow> 's \<Rightarrow> 's"
    and get_prefix :: "jsstring \<Rightarrow> 's \<Rightarrow> (jsstring \<times> 'v) list"
    and valid :: "'s \<Rightarrow> bool"
  assumes get_put: "get k (put k' v s) = (if k = k' then Some v else get k s)"
    and get_del: "get k (del k' s) = (if k = k' then None else get k s)"
    and valid_put: "valid s \<Longrightarrow> valid (put k v s)"
    and valid_del: "valid s \<Longrightarrow> valid (del k s)"
    and set_get_prefix: "valid s \<Longrightarrow> set (get_prefix p s) = {(k, v). startsWith k p \<and> get k s = Some v}"
    and distinct_get_prefix: "valid s \<Longrightarrow> distinct (map fst (get_prefix p s))"
begin

lemma get_put_same [simp]: "get k (put k v s) = Some v"
  by (simp add: get_put)

lemma prefix_put_other:
  "valid s \<Longrightarrow> \<not> startsWith k p \<Longrightarrow> set (get_prefix p (put k v s)) = set (get_prefix p s)"
  by (auto simp: set_get_prefix valid_put get_put split: if_splits)

lemma prefix_put:
  "valid s \<Longrightarrow> startsWith k p \<Longrightarrow>
   set (get_prefix p (put k v s)) = insert (k, v) {(k', v'). (k', v') \<in> set (get_prefix p s) \<and> k' \<noteq> k}"
  by (auto simp: set_get_prefix valid_put get_put split: if_splits)

lemma prefix_del:
  "valid s \<Longrightarrow> set (get_prefix p (del k s)) = {(k', v'). (k', v') \<in> set (get_prefix p s) \<and> k' \<noteq> k}"
  by (auto simp: set_get_prefix valid_del get_del split: if_splits)

end

interpretation memory_store: kv_store kv_get kv_put kv_delete kv_get_prefix "\<lambda>data. distinct (map fst data)"
proof
  show "distinct (map fst s) \<Longrightarrow> set (kv_get_prefix p s) = {(k, v). startsWith k p \<and> kv_get k s = Some v}" for p s
    by (auto simp: kv_get_prefix_def kv_get_def dest: map_of_SomeD)
  show "distinct (map fst s) \<Longrightarrow> distinct (map fst (kv_get_prefix p s))" for p s
    by (auto simp: kv_get_prefix_def distinct_map intro: inj_on_subset)
qed (auto simp: kv_get_def kv_put_def kv_delete_def AList.update_conv' AList.delete_conv'
      AList.distinct_update AList.distinct_delete)

section \<open>Keys\<close>

definition KEY_PREFIX :: jsstring where
  "KEY_PREFIX = js ''/checkpoint-runtime''"

definition run_key :: "jsstring \<Rightarrow> jsstring" where
  "run_key run_id = KEY_PREFIX @ js ''/runs/'' @ run_id"

definition checkpoint_key :: "jsstring \<Rightarrow> jsstring" where
  "checkpoint_key checkpoint_id = KEY_PREFIX @ js ''/checkpoints/'' @ checkpoint_id"

definition worker_key :: "jsstring \<Rightarrow> jsstring \<Rightarrow> jsstring" where
  "worker_key run_id worker_id = KEY_PREFIX @ js ''/workers/'' @ run_id @ js ''/'' @ worker_id"

section \<open>The coordinator\<close>

record coordinator =
  co_kv :: kv
  co_fsms :: "(jsstring \<times> RunStateMachine) list"

datatype coord_error = KeyError | InvalidTransitionError RunState RunState | ValidationError

text \<open>A call returns the exception or the result, and the coordinator after it.\<close>

type_synonym 'a call = "(coord_error + 'a) \<times> coordinator"

definition coord_put :: "jsstring \<Rightarrow> kv_value \<Rightarrow> coordinator \<Rightarrow> coordinator" where
  "coord_put key value c = c\<lparr>co_kv := kv_put key value (co_kv c)\<rparr>"

definition persist_run :: "py_run \<Rightarrow> coordinator \<Rightarrow> coordinator" where
  "persist_run status = coord_put (run_key (pr_run_id status)) (RunVal status)"

definition ensure_fsm :: "jsstring \<Rightarrow> RunState \<Rightarrow> coordinator \<Rightarrow> RunStateMachine \<times> coordinator" where
  "ensure_fsm run_id current c =
     (case map_of (co_fsms c) run_id of
        Some m \<Rightarrow> (m, c)
      | None \<Rightarrow> (fsm_new current, c\<lparr>co_fsms := AList.update run_id (fsm_new current) (co_fsms c)\<rparr>))"

definition coord_create_run :: "jsstring \<Rightarrow> int \<Rightarrow> py_config \<Rightarrow> coordinator \<Rightarrow> py_run \<times> coordinator" where
  "coord_create_run run_id now config c =
     (let c1 = c\<lparr>co_fsms := AList.update run_id (fsm_new CREATED) (co_fsms c)\<rparr>;
          status = \<lparr>pr_run_id = run_id, pr_name = pc_name config, pr_state = CREATED, pr_current_step = 0,
                    pr_num_workers = pc_num_workers config, pr_active_workers = 0, pr_created_at = now,
                    pr_updated_at = now, pr_config = config, pr_last_checkpoint_id = None,
                    pr_error_message = None, pr_metadata = pc_metadata config\<rparr>
      in (status, persist_run status c1))"

definition coord_get_run :: "jsstring \<Rightarrow> coordinator \<Rightarrow> coord_error + py_run option" where
  "coord_get_run run_id c =
     (case kv_get (run_key run_id) (co_kv c) of
        None \<Rightarrow> Inr None
      | Some (RunVal r) \<Rightarrow> Inr (Some r)
      | Some _ \<Rightarrow> Inl ValidationError)"

text \<open>\<open>if status is None: raise KeyError\<close>.\<close>

definition require_run :: "jsstring \<Rightarrow> coordinator \<Rightarrow> coord_error + py_run" where
  "require_run run_id c =
     (case coord_get_run run_id c of
        Inl e \<Rightarrow> Inl e
      | Inr None \<Rightarrow> Inl KeyError
      | Inr (Some r) \<Rightarrow> Inr r)"

definition run_of :: "kv_value \<Rightarrow> py_run option" where
  "run_of v = (case v of RunVal r \<Rightarrow> Some r | _ \<Rightarrow> None)"

definition checkpoint_of :: "kv_value \<Rightarrow> py_checkpoint option" where
  "checkpoint_of v = (case v of CheckpointVal k \<Rightarrow> Some k | _ \<Rightarrow> None)"

definition worker_of :: "kv_value \<Rightarrow> py_worker option" where
  "worker_of v = (case v of WorkerVal w \<Rightarrow> Some w | _ \<Rightarrow> None)"

text \<open>Parsing the values of all entries below a prefix.\<close>

definition parse_all :: "(kv_value \<Rightarrow> 'a option) \<Rightarrow> (jsstring \<times> kv_value) list \<Rightarrow> coord_error + 'a list" where
  "parse_all f entries = (case those (map (f \<circ> snd) entries) of None \<Rightarrow> Inl ValidationError | Some xs \<Rightarrow> Inr xs)"

definition coord_list_runs :: "coordinator \<Rightarrow> coord_error + py_run list" where
  "coord_list_runs c = parse_all run_of (kv_get_prefix (KEY_PREFIX @ js ''/runs/'') (co_kv c))"

definition transition_run :: "jsstring \<Rightarrow> RunState \<Rightarrow> int \<Rightarrow> coordinator \<Rightarrow> py_run call" where
  "transition_run run_id target now c =
     (case require_run run_id c of
        Inl e \<Rightarrow> (Inl e, c)
      | Inr status \<Rightarrow>
          (case ensure_fsm run_id (pr_state status) c of (fsm, c1) \<Rightarrow>
             (case transition target fsm of
                Inl (cur, t) \<Rightarrow> (Inl (InvalidTransitionError cur t), c1)
              | Inr fsm' \<Rightarrow>
                  let status' = status\<lparr>pr_state := target, pr_updated_at := now\<rparr>;
                      c2 = c1\<lparr>co_fsms := AList.update run_id fsm' (co_fsms c1)\<rparr>
                  in (Inr status', persist_run status' c2))))"

definition update_run_step :: "jsstring \<Rightarrow> int \<Rightarrow> int \<Rightarrow> coordinator \<Rightarrow> py_run call" where
  "update_run_step run_id stp now c =
     (case require_run run_id c of
        Inl e \<Rightarrow> (Inl e, c)
      | Inr status \<Rightarrow>
          let status' = status\<lparr>pr_current_step := stp, pr_updated_at := now\<rparr>
          in (Inr status', persist_run status' c))"

definition set_run_error :: "jsstring \<Rightarrow> jsstring \<Rightarrow> int \<Rightarrow> coordinator \<Rightarrow> py_run call" where
  "set_run_error run_id message now c =
     (case require_run run_id c of
        Inl e \<Rightarrow> (Inl e, c)
      | Inr status \<Rightarrow>
          (case ensure_fsm run_id (pr_state status) c of (fsm, c1) \<Rightarrow>
             (case transition FAILED fsm of
                Inl (cur, t) \<Rightarrow> (Inl (InvalidTransitionError cur t), c1)
              | Inr fsm' \<Rightarrow>
                  let status' = status\<lparr>pr_state := FAILED, pr_error_message := Some message, pr_updated_at := now\<rparr>;
                      c2 = c1\<lparr>co_fsms := AList.update run_id fsm' (co_fsms c1)\<rparr>
                  in (Inr status', persist_run status' c2))))"

section \<open>Checkpoints\<close>

definition coord_create_checkpoint ::
  "jsstring \<Rightarrow> jsstring \<Rightarrow> int \<Rightarrow> (jsstring \<times> jsstring) list \<Rightarrow> int \<Rightarrow> coordinator \<Rightarrow> py_checkpoint call" where
  "coord_create_checkpoint checkpoint_id run_id stp metadata now c =
     (case require_run run_id c of
        Inl e \<Rightarrow> (Inl e, c)
      | Inr status \<Rightarrow>
          let info = \<lparr>pk_checkpoint_id = checkpoint_id, pk_run_id = run_id, pk_step = stp, pk_state = ''PENDING'',
                      pk_num_shards = 0, pk_total_bytes = 0, pk_created_at = now, pk_committed_at = None,
                      pk_shard_ids = [], pk_metadata = metadata\<rparr>;
              c1 = coord_put (checkpoint_key checkpoint_id) (CheckpointVal info) c;
              status' = status\<lparr>pr_last_checkpoint_id := Some checkpoint_id, pr_updated_at := now\<rparr>
          in (Inr info, persist_run status' c1))"

definition coord_get_checkpoint :: "jsstring \<Rightarrow> coordinator \<Rightarrow> coord_error + py_checkpoint option" where
  "coord_get_checkpoint checkpoint_id c =
     (case kv_get (checkpoint_key checkpoint_id) (co_kv c) of
        None \<Rightarrow> Inr None
      | Some (CheckpointVal k) \<Rightarrow> Inr (Some k)
      | Some _ \<Rightarrow> Inl ValidationError)"

definition coord_delete_checkpoint :: "jsstring \<Rightarrow> coordinator \<Rightarrow> coordinator" where
  "coord_delete_checkpoint checkpoint_id c = c\<lparr>co_kv := kv_delete (checkpoint_key checkpoint_id) (co_kv c)\<rparr>"

definition coord_list_checkpoints :: "jsstring \<Rightarrow> coordinator \<Rightarrow> coord_error + py_checkpoint list" where
  "coord_list_checkpoints run_id c =
     (case parse_all checkpoint_of (kv_get_prefix (KEY_PREFIX @ js ''/checkpoints/'') (co_kv c)) of
        Inl e \<Rightarrow> Inl e
      | Inr infos \<Rightarrow> Inr (sort_key pk_step (filter (\<lambda>i. pk_run_id i = run_id) infos)))"

text \<open>The optional keyword arguments of an update.\<close>

definition given :: "'a option \<Rightarrow> 'a \<Rightarrow> 'a" where
  "given x old = (case x of None \<Rightarrow> old | Some y \<Rightarrow> y)"

definition update_checkpoint_state ::
  "jsstring \<Rightarrow> string \<Rightarrow> int option \<Rightarrow> int option \<Rightarrow> jsstring list option \<Rightarrow> int \<Rightarrow> coordinator \<Rightarrow> py_checkpoint call" where
  "update_checkpoint_state checkpoint_id state num_shards total_bytes shard_ids now c =
     (case coord_get_checkpoint checkpoint_id c of
        Inl e \<Rightarrow> (Inl e, c)
      | Inr None \<Rightarrow> (Inl KeyError, c)
      | Inr (Some info) \<Rightarrow>
          let info' = info
                \<lparr>pk_state := state,
                 pk_num_shards := given num_shards (pk_num_shards info),
                 pk_total_bytes := given total_bytes (pk_total_bytes info),
                 pk_shard_ids := given shard_ids (pk_shard_ids info),
                 pk_committed_at :=
                   (if state = ''COMMITTED'' \<and> pk_committed_at info = None then Some now else pk_committed_at info)\<rparr>
          in (Inr info', coord_put (checkpoint_key checkpoint_id) (CheckpointVal info') c))"

definition update_checkpoint_metadata ::
  "jsstring \<Rightarrow> (jsstring \<times> jsstring) list \<Rightarrow> bool \<Rightarrow> coordinator \<Rightarrow> py_checkpoint call" where
  "update_checkpoint_metadata checkpoint_id metadata merge c =
     (case coord_get_checkpoint checkpoint_id c of
        Inl e \<Rightarrow> (Inl e, c)
      | Inr None \<Rightarrow> (Inl KeyError, c)
      | Inr (Some info) \<Rightarrow>
          let info' = info\<lparr>pk_metadata :=
                (if merge then fold (\<lambda>(k, v). AList.update k v) metadata (pk_metadata info) else metadata)\<rparr>
          in (Inr info', coord_put (checkpoint_key checkpoint_id) (CheckpointVal info') c))"

section \<open>Workers\<close>

definition coord_register_worker ::
  "jsstring \<Rightarrow> jsstring \<Rightarrow> int \<Rightarrow> jsstring \<Rightarrow> int \<Rightarrow> coordinator \<Rightarrow> py_worker \<times> coordinator" where
  "coord_register_worker worker_id run_id rank hostname now c =
     (let worker = \<lparr>pw_worker_id = worker_id, pw_run_id = run_id, pw_rank = rank, pw_hostname = hostname,
                    pw_status = ''ACTIVE'', pw_last_heartbeat = Some now, pw_current_step = 0, pw_metadata = []\<rparr>
      in (worker, coord_put (worker_key run_id worker_id) (WorkerVal worker) c))"

definition update_worker :: "jsstring \<Rightarrow> jsstring \<Rightarrow> (py_worker \<Rightarrow> py_worker) \<Rightarrow> coordinator \<Rightarrow> py_worker call" where
  "update_worker run_id worker_id f c =
     (case kv_get (worker_key run_id worker_id) (co_kv c) of
        None \<Rightarrow> (Inl KeyError, c)
      | Some v \<Rightarrow>
          (case worker_of v of
             None \<Rightarrow> (Inl ValidationError, c)
           | Some w \<Rightarrow> (Inr (f w), coord_put (worker_key run_id worker_id) (WorkerVal (f w)) c)))"

definition coord_heartbeat :: "jsstring \<Rightarrow> jsstring \<Rightarrow> int \<Rightarrow> int \<Rightarrow> coordinator \<Rightarrow> py_worker call" where
  "coord_heartbeat run_id worker_id stp now =
     update_worker run_id worker_id
       (\<lambda>w. w\<lparr>pw_last_heartbeat := Some now, pw_current_step := stp, pw_status := ''ACTIVE''\<rparr>)"

definition mark_worker_dead :: "jsstring \<Rightarrow> jsstring \<Rightarrow> string \<Rightarrow> coordinator \<Rightarrow> py_worker call" where
  "mark_worker_dead run_id worker_id status =
     update_worker run_id worker_id (\<lambda>w. w\<lparr>pw_status := status\<rparr>)"

definition coord_list_workers :: "jsstring option \<Rightarrow> coordinator \<Rightarrow> coord_error + py_worker list" where
  "coord_list_workers run_id c =
     (let prefix = (case run_id of
            None \<Rightarrow> KEY_PREFIX @ js ''/workers/''
          | Some r \<Rightarrow> if r = [] then KEY_PREFIX @ js ''/workers/''
                      else KEY_PREFIX @ js ''/workers/'' @ r @ js ''/'')
      in parse_all worker_of (kv_get_prefix prefix (co_kv c)))"

section \<open>The invariant\<close>

text \<open>Every record is stored below its own key.\<close>

definition entry_ok :: "jsstring \<Rightarrow> kv_value \<Rightarrow> bool" where
  "entry_ok k v =
     (case v of
        RunVal r \<Rightarrow> k = run_key (pr_run_id r)
      | CheckpointVal x \<Rightarrow> k = checkpoint_key (pk_checkpoint_id x)
      | WorkerVal w \<Rightarrow> k = worker_key (pw_run_id w) (pw_worker_id w))"

text \<open>
  Every state machine in memory belongs to a stored run, is in its stored state and has a history
  of valid transitions.
\<close>

definition fsm_ok :: "kv \<Rightarrow> jsstring \<Rightarrow> RunStateMachine \<Rightarrow> bool" where
  "fsm_ok data run_id m =
     ((\<exists>r. kv_get (run_key run_id) data = Some (RunVal r) \<and> pr_state r = fsm_state m)
      \<and> (\<exists>s. path s (fsm_history m) (fsm_state m)))"

text \<open>The key a record is stored below.\<close>

fun record_key :: "kv_value \<Rightarrow> jsstring" where
  "record_key (RunVal r) = run_key (pr_run_id r)"
| "record_key (CheckpointVal x) = checkpoint_key (pk_checkpoint_id x)"
| "record_key (WorkerVal w) = worker_key (pw_run_id w) (pw_worker_id w)"

definition coord_ok :: "coordinator \<Rightarrow> bool" where
  "coord_ok c =
     (distinct (map fst (co_kv c))
      \<and> (\<forall>k v. kv_get k (co_kv c) = Some v \<longrightarrow> entry_ok k v)
      \<and> (\<forall>run_id m. map_of (co_fsms c) run_id = Some m \<longrightarrow> fsm_ok (co_kv c) run_id m))"

lemma run_key_inject [simp]: "run_key a = run_key b \<longleftrightarrow> a = b"
  by (simp add: run_key_def)

lemma checkpoint_key_inject [simp]: "checkpoint_key a = checkpoint_key b \<longleftrightarrow> a = b"
  by (simp add: checkpoint_key_def)

lemma keys_disjoint [simp]:
  "run_key a \<noteq> checkpoint_key b" "checkpoint_key b \<noteq> run_key a"
  "run_key a \<noteq> worker_key b c" "worker_key b c \<noteq> run_key a"
  "checkpoint_key a \<noteq> worker_key b c" "worker_key b c \<noteq> checkpoint_key a"
  by (simp_all add: run_key_def checkpoint_key_def worker_key_def js_simps)

lemma entry_ok_run: "entry_ok (run_key i) v \<longleftrightarrow> (\<exists>r. v = RunVal r \<and> pr_run_id r = i)"
  by (auto simp: entry_ok_def split: kv_value.splits)

lemma entry_ok_checkpoint: "entry_ok (checkpoint_key i) v \<longleftrightarrow> (\<exists>x. v = CheckpointVal x \<and> pk_checkpoint_id x = i)"
  by (auto simp: entry_ok_def split: kv_value.splits)

section \<open>Lemmas\<close>

lemma coord_put_fields [simp]:
  "co_kv (coord_put k v c) = kv_put k v (co_kv c)" "co_fsms (coord_put k v c) = co_fsms c"
  by (simp_all add: coord_put_def)

lemmas get_put = memory_store.get_put
lemmas get_del = memory_store.get_del

lemma coord_ok_entry: "coord_ok c \<Longrightarrow> kv_get k (co_kv c) = Some v \<Longrightarrow> entry_ok k v"
  by (simp add: coord_ok_def)

lemma coord_ok_run:
  "coord_ok c \<Longrightarrow> kv_get (run_key i) (co_kv c) = Some v \<Longrightarrow> \<exists>r. v = RunVal r \<and> pr_run_id r = i"
  using coord_ok_entry [of c "run_key i" v] by (simp add: entry_ok_run)

lemma coord_ok_checkpoint:
  "coord_ok c \<Longrightarrow> kv_get (checkpoint_key i) (co_kv c) = Some v \<Longrightarrow>
   \<exists>x. v = CheckpointVal x \<and> pk_checkpoint_id x = i"
  using coord_ok_entry [of c "checkpoint_key i" v] by (simp add: entry_ok_checkpoint)

lemma coord_ok_keys:
  assumes "coord_ok c"
  shows "distinct (map fst (co_kv c))" "map fst (co_kv c) = map (record_key \<circ> snd) (co_kv c)"
proof -
  show d: "distinct (map fst (co_kv c))" using assms by (simp add: coord_ok_def)
  have "k = record_key v" if "(k, v) \<in> set (co_kv c)" for k v
  proof -
    from d that have "kv_get k (co_kv c) = Some v" by (simp add: kv_get_def)
    from coord_ok_entry [OF assms this] show ?thesis by (cases v) (simp_all add: entry_ok_def)
  qed
  then show "map fst (co_kv c) = map (record_key \<circ> snd) (co_kv c)" by auto
qed

lemma coord_ok_fsm: "coord_ok c \<Longrightarrow> map_of (co_fsms c) i = Some m \<Longrightarrow> fsm_ok (co_kv c) i m"
  by (simp add: coord_ok_def)

text \<open>Runs are never misread, and an absent run is a \<open>KeyError\<close>.\<close>

lemma require_run_ok:
  "coord_ok c \<Longrightarrow> require_run i c =
     (case kv_get (run_key i) (co_kv c) of Some (RunVal r) \<Rightarrow> Inr r | _ \<Rightarrow> Inl KeyError)"
  by (auto simp: require_run_def coord_get_run_def split: option.splits kv_value.splits dest: coord_ok_run)

lemma require_run_SomeD:
  "require_run i c = Inr r \<Longrightarrow> kv_get (run_key i) (co_kv c) = Some (RunVal r)"
  by (auto simp: require_run_def coord_get_run_def split: sum.splits option.splits kv_value.splits)

lemma require_run_id: "coord_ok c \<Longrightarrow> require_run i c = Inr r \<Longrightarrow> pr_run_id r = i"
  using coord_ok_run by (auto dest: require_run_SomeD)

lemma get_checkpoint_SomeD:
  "coord_get_checkpoint i c = Inr (Some x) \<Longrightarrow> kv_get (checkpoint_key i) (co_kv c) = Some (CheckpointVal x)"
  by (auto simp: coord_get_checkpoint_def split: option.splits kv_value.splits)

text \<open>Writing records other than runs, and rewriting a run in the same state.\<close>

lemma coord_ok_put:
  assumes "coord_ok c" "entry_ok k v"
    and "\<And>i m. map_of (co_fsms c) i = Some m \<Longrightarrow> fsm_ok (kv_put k v (co_kv c)) i m"
  shows "coord_ok (coord_put k v c)"
  using assms by (auto simp: coord_ok_def get_put memory_store.valid_put split: if_splits)

lemma coord_ok_put_other:
  assumes "coord_ok c" "entry_ok k v" "\<And>i. k \<noteq> run_key i"
  shows "coord_ok (coord_put k v c)"
proof (rule coord_ok_put [OF assms(1,2)])
  fix i m assume "map_of (co_fsms c) i = Some m"
  from coord_ok_fsm [OF assms(1) this] show "fsm_ok (kv_put k v (co_kv c)) i m"
    using assms(3) [of i] by (auto simp: fsm_ok_def get_put)
qed

lemma coord_ok_put_run:
  assumes "coord_ok c" "kv_get (run_key i) (co_kv c) = Some (RunVal r)" "pr_run_id r' = i" "pr_state r' = pr_state r"
  shows "coord_ok (persist_run r' c)"
  unfolding persist_run_def
proof (rule coord_ok_put [OF assms(1)])
  show "entry_ok (run_key (pr_run_id r')) (RunVal r')" by (simp add: entry_ok_run)
  fix j m assume "map_of (co_fsms c) j = Some m"
  from coord_ok_fsm [OF assms(1) this] show "fsm_ok (kv_put (run_key (pr_run_id r')) (RunVal r') (co_kv c)) j m"
    using assms(2-4) by (auto simp: fsm_ok_def get_put)
qed

lemma coord_ok_delete:
  assumes "coord_ok c"
  shows "coord_ok (coord_delete_checkpoint i c)"
  using assms
  by (auto simp: coord_ok_def coord_delete_checkpoint_def get_del memory_store.valid_del fsm_ok_def split: if_splits)

lemma ensure_fsm_ok:
  assumes "coord_ok c" "kv_get (run_key i) (co_kv c) = Some (RunVal r)" "ensure_fsm i (pr_state r) c = (m, c1)"
  shows "coord_ok c1" "fsm_state m = pr_state r" "co_kv c1 = co_kv c" "map_of (co_fsms c1) i = Some m"
proof -
  have "coord_ok c1 \<and> fsm_state m = pr_state r \<and> co_kv c1 = co_kv c \<and> map_of (co_fsms c1) i = Some m"
  proof (cases "map_of (co_fsms c) i")
    case None
    have "\<exists>s. path s [] (pr_state r)" by simp
    with assms None show ?thesis
      by (auto simp: ensure_fsm_def coord_ok_def AList.update_conv' fsm_ok_def fsm_new_def split: if_splits)
  next
    case (Some n)
    with coord_ok_fsm [OF assms(1) Some] assms show ?thesis by (auto simp: ensure_fsm_def fsm_ok_def)
  qed
  then show "coord_ok c1" "fsm_state m = pr_state r" "co_kv c1 = co_kv c" "map_of (co_fsms c1) i = Some m" by auto
qed

lemma coord_ok_move:
  assumes "coord_ok c" "kv_get (run_key i) (co_kv c) = Some (RunVal r)"
    and "map_of (co_fsms c) i = Some m" "transition t m = Inr m'" "pr_run_id r' = i" "pr_state r' = t"
  shows "coord_ok (persist_run r' (c\<lparr>co_fsms := AList.update i m' (co_fsms c)\<rparr>))"
proof -
  obtain s where "path s (fsm_history m) (fsm_state m)" using coord_ok_fsm [OF assms(1,3)] by (auto simp: fsm_ok_def)
  with assms(4) have "path s (fsm_history m') (fsm_state m')" "fsm_state m' = t"
    by (auto simp: transition_def can_transition_def path_snoc split: if_splits)
  with assms show ?thesis
    by (auto simp: coord_ok_def persist_run_def AList.update_conv' get_put memory_store.valid_put fsm_ok_def
        entry_ok_run split: if_splits)
qed

section \<open>Runs as state machines\<close>

text \<open>The state machine of a run, whether it is in memory or would be rebuilt from the stored state.\<close>

definition run_machine :: "jsstring \<Rightarrow> coordinator \<Rightarrow> RunStateMachine option" where
  "run_machine run_id c =
     (case kv_get (run_key run_id) (co_kv c) of
        Some (RunVal r) \<Rightarrow>
          Some (case map_of (co_fsms c) run_id of Some m \<Rightarrow> m | None \<Rightarrow> fsm_new (pr_state r))
      | _ \<Rightarrow> None)"

lemma run_machine_state:
  "coord_ok c \<Longrightarrow> kv_get (run_key i) (co_kv c) = Some (RunVal r) \<Longrightarrow>
   \<exists>m. run_machine i c = Some m \<and> fsm_state m = pr_state r"
  by (cases "map_of (co_fsms c) i") (auto simp: run_machine_def fsm_new_def fsm_ok_def dest: coord_ok_fsm)

text \<open>What \<open>transition_run\<close> and \<open>set_run_error\<close> have in common.\<close>

definition move_call :: "jsstring \<Rightarrow> RunState \<Rightarrow> (py_run \<Rightarrow> py_run) \<Rightarrow> coordinator \<Rightarrow> py_run call" where
  "move_call run_id target f c =
     (case require_run run_id c of
        Inl e \<Rightarrow> (Inl e, c)
      | Inr status \<Rightarrow>
          (case ensure_fsm run_id (pr_state status) c of (fsm, c1) \<Rightarrow>
             (case transition target fsm of
                Inl (cur, t) \<Rightarrow> (Inl (InvalidTransitionError cur t), c1)
              | Inr fsm' \<Rightarrow> (Inr (f status), persist_run (f status) (c1\<lparr>co_fsms := AList.update run_id fsm' (co_fsms c1)\<rparr>)))))"

lemma transition_run_move:
  "transition_run i t now = move_call i t (\<lambda>r. r\<lparr>pr_state := t, pr_updated_at := now\<rparr>)"
  by (rule ext) (simp add: transition_run_def move_call_def Let_def split: sum.split prod.split)

lemma set_run_error_move:
  "set_run_error i msg now =
     move_call i FAILED (\<lambda>r. r\<lparr>pr_state := FAILED, pr_error_message := Some msg, pr_updated_at := now\<rparr>)"
  by (rule ext) (simp add: set_run_error_def move_call_def Let_def split: sum.split prod.split)

definition keeps_run :: "RunState \<Rightarrow> (py_run \<Rightarrow> py_run) \<Rightarrow> bool" where
  "keeps_run t f = (\<forall>r. pr_run_id (f r) = pr_run_id r \<and> pr_state (f r) = t)"

lemma keeps_run_simps [simp]:
  "keeps_run t (\<lambda>r. r\<lparr>pr_state := t, pr_updated_at := now\<rparr>)"
  "keeps_run t (\<lambda>r. r\<lparr>pr_state := t, pr_error_message := e, pr_updated_at := now\<rparr>)"
  by (simp_all add: keeps_run_def)

lemma ensure_fsm_machine:
  assumes "kv_get (run_key i) (co_kv c) = Some (RunVal r)" "ensure_fsm i (pr_state r) c = (m, c1)"
  shows "(case map_of (co_fsms c) i of Some n \<Rightarrow> n | None \<Rightarrow> fsm_new (pr_state r)) = m"
  using assms(2) by (cases "map_of (co_fsms c) i") (simp_all add: ensure_fsm_def)

text \<open>The three outcomes of such a call.\<close>

lemma move_call_cases:
  assumes ok: "coord_ok c" and f: "keeps_run t f"
  obtains
    (missing) "run_machine i c = None" "kv_get (run_key i) (co_kv c) = None" "move_call i t f c = (Inl KeyError, c)"
  | (refused) r m c1 where "kv_get (run_key i) (co_kv c) = Some (RunVal r)" "run_machine i c = Some m"
      "fsm_state m = pr_state r" "\<not> can_transition t m"
      "move_call i t f c = (Inl (InvalidTransitionError (pr_state r) t), c1)" "coord_ok c1" "co_kv c1 = co_kv c"
      "run_machine i c1 = Some m" "\<And>j. j \<noteq> i \<Longrightarrow> map_of (co_fsms c1) j = map_of (co_fsms c) j"
  | (moved) r m m' c2 where "kv_get (run_key i) (co_kv c) = Some (RunVal r)" "run_machine i c = Some m"
      "fsm_state m = pr_state r" "transition t m = Inr m'" "move_call i t f c = (Inr (f r), c2)" "coord_ok c2"
      "co_kv c2 = kv_put (run_key i) (RunVal (f r)) (co_kv c)" "run_machine i c2 = Some m'"
      "\<And>j. j \<noteq> i \<Longrightarrow> map_of (co_fsms c2) j = map_of (co_fsms c) j"
proof (cases "kv_get (run_key i) (co_kv c)")
  case None
  then show ?thesis using missing ok by (simp add: move_call_def require_run_ok run_machine_def)
next
  case (Some v)
  then obtain r where r: "pr_run_id r = i" and get: "kv_get (run_key i) (co_kv c) = Some (RunVal r)"
    using coord_ok_run [OF ok Some] by auto
  obtain m c1 where e: "ensure_fsm i (pr_state r) c = (m, c1)" by fastforce
  note facts = ensure_fsm_ok [OF ok get e]
  have mach: "run_machine i c = Some m" "run_machine i c1 = Some m"
    using ensure_fsm_machine [OF get e] facts(3,4) get by (simp_all add: run_machine_def)
  have others: "map_of (co_fsms c1) j = map_of (co_fsms c) j" if "j \<noteq> i" for j
    using e that by (auto simp: ensure_fsm_def AList.update_conv' split: option.splits)
  have req: "require_run i c = Inr r" using ok get by (simp add: require_run_ok)
  show ?thesis
  proof (cases "transition t m")
    case (Inl p)
    then have p: "p = (pr_state r, t)" "\<not> can_transition t m" using facts(2) by (auto simp: transition_def split: if_splits)
    have "move_call i t f c = (Inl (InvalidTransitionError (pr_state r) t), c1)"
      by (simp add: move_call_def req e Inl p(1))
    with get mach(1) facts(2) p(2) show ?thesis
      by (rule refused [OF _ _ _ _ _ facts(1) facts(3) mach(2) others])
  next
    case (Inr m')
    let ?c2 = "persist_run (f r) (c1\<lparr>co_fsms := AList.update i m' (co_fsms c1)\<rparr>)"
    have fr: "pr_run_id (f r) = i" "pr_state (f r) = t" using f r by (simp_all add: keeps_run_def)
    have ok2: "coord_ok ?c2" using facts get Inr fr by (intro coord_ok_move [of c1 i r m t m']) simp_all
    have call: "move_call i t f c = (Inr (f r), ?c2)" by (simp add: move_call_def req e Inr)
    have kv2: "co_kv ?c2 = kv_put (run_key i) (RunVal (f r)) (co_kv c)"
      by (simp add: persist_run_def fr facts(3))
    have fsms2: "map_of (co_fsms ?c2) = (map_of (co_fsms c1))(i \<mapsto> m')"
      by (simp add: persist_run_def AList.update_conv')
    have "run_machine i ?c2 = Some m'" by (simp add: run_machine_def kv2 fsms2 get_put)
    moreover have "\<And>j. j \<noteq> i \<Longrightarrow> map_of (co_fsms ?c2) j = map_of (co_fsms c) j"
      by (simp add: fsms2 others)
    ultimately show ?thesis by (rule moved [OF get mach(1) facts(2) Inr call ok2 kv2])
  qed
qed

section \<open>Steps of the coordinator\<close>

text \<open>
  A new run has an identifier that is not in use (\<open>uuid4\<close> draws it). A restart of the process keeps
  the records of the store and loses the state machines, which are rebuilt when they are needed.
\<close>

definition coord_empty :: coordinator where
  "coord_empty = \<lparr>co_kv = [], co_fsms = []\<rparr>"

inductive coord_step :: "coordinator \<Rightarrow> coordinator \<Rightarrow> bool" where
  create_run: "kv_get (run_key i) (co_kv c) = None \<Longrightarrow> coord_step c (snd (coord_create_run i now config c))"
| transition_run: "coord_step c (snd (transition_run i t now c))"
| update_run_step: "coord_step c (snd (update_run_step i n now c))"
| set_run_error: "coord_step c (snd (set_run_error i msg now c))"
| create_checkpoint: "coord_step c (snd (coord_create_checkpoint k i n md now c))"
| delete_checkpoint: "coord_step c (coord_delete_checkpoint k c)"
| checkpoint_state: "coord_step c (snd (update_checkpoint_state k st n b ids now c))"
| checkpoint_metadata: "coord_step c (snd (update_checkpoint_metadata k md merge c))"
| register_worker: "coord_step c (snd (coord_register_worker w i rank h now c))"
| heartbeat: "coord_step c (snd (coord_heartbeat i w n now c))"
| mark_worker_dead: "coord_step c (snd (mark_worker_dead i w status c))"
| restart: "coord_step c (c\<lparr>co_fsms := []\<rparr>)"

inductive coord_reachable :: "coordinator \<Rightarrow> bool" where
  init: "coord_reachable coord_empty"
| step: "coord_reachable c \<Longrightarrow> coord_step c d \<Longrightarrow> coord_reachable d"

inductive_cases coord_stepE: "coord_step c d"

lemma coord_ok_create_run:
  assumes "coord_ok c" "kv_get (run_key i) (co_kv c) = None"
  shows "coord_ok (snd (coord_create_run i now config c))"
proof -
  have "\<exists>s. path s [] CREATED" by simp
  with assms show ?thesis
    by (auto simp: coord_ok_def coord_create_run_def persist_run_def Let_def AList.update_conv' get_put
        memory_store.valid_put entry_ok_run fsm_ok_def fsm_new_def split: if_splits)
qed

lemma move_call_ok: "coord_ok c \<Longrightarrow> keeps_run t f \<Longrightarrow> coord_ok (snd (move_call i t f c))"
  by (rule move_call_cases [of c t f i]) simp_all

lemma coord_ok_update_run_step:
  assumes "coord_ok c"
  shows "coord_ok (snd (update_run_step i n now c))"
proof (cases "require_run i c")
  case (Inr r)
  with coord_ok_put_run [OF assms require_run_SomeD [OF Inr]] require_run_id [OF assms Inr] show ?thesis
    by (simp add: update_run_step_def Let_def)
qed (simp add: update_run_step_def assms)

lemma coord_ok_put_checkpoint:
  "coord_ok c \<Longrightarrow> pk_checkpoint_id x = k \<Longrightarrow> coord_ok (coord_put (checkpoint_key k) (CheckpointVal x) c)"
  by (rule coord_ok_put_other) (simp_all add: entry_ok_checkpoint)

lemma coord_ok_create_checkpoint: "coord_ok c \<Longrightarrow> coord_ok (snd (coord_create_checkpoint k i n md now c))"
proof (cases "require_run i c")
  case (Inr r)
  assume ok: "coord_ok c"
  note id = require_run_id [OF ok Inr] and get = require_run_SomeD [OF Inr]
  have put: "coord_ok (coord_put (checkpoint_key k) (CheckpointVal x) c)" if "pk_checkpoint_id x = k" for x
    using ok that by (rule coord_ok_put_checkpoint)
  show ?thesis
    by (simp add: coord_create_checkpoint_def Inr Let_def) (rule coord_ok_put_run [of _ i r], rule put, simp_all add: id get get_put)
qed (simp add: coord_create_checkpoint_def)

lemma get_checkpoint_id: "coord_ok c \<Longrightarrow> coord_get_checkpoint k c = Inr (Some x) \<Longrightarrow> pk_checkpoint_id x = k"
  using coord_ok_checkpoint by (fastforce dest: get_checkpoint_SomeD)

lemma coord_ok_checkpoint_updates:
  assumes "coord_ok c"
  shows "coord_ok (snd (update_checkpoint_state k st n b ids now c))"
    and "coord_ok (snd (update_checkpoint_metadata k md merge c))"
  using assms get_checkpoint_id [OF assms, of k]
  by (auto simp: update_checkpoint_state_def update_checkpoint_metadata_def Let_def
      split: sum.splits option.splits intro: coord_ok_put_checkpoint)

lemma coord_ok_workers:
  assumes "coord_ok c"
  shows "coord_ok (snd (coord_register_worker w i rank h now c))"
    and "coord_ok (snd (coord_heartbeat i w n now c))" and "coord_ok (snd (mark_worker_dead i w status c))"
proof -
  have put: "coord_ok (coord_put (worker_key i w) (WorkerVal x) c)"
    if "worker_key i w = worker_key (pw_run_id x) (pw_worker_id x)" for x
    using assms that by (intro coord_ok_put_other) (simp_all add: entry_ok_def)
  show "coord_ok (snd (coord_register_worker w i rank h now c))"
    by (simp add: coord_register_worker_def Let_def put)
  have key: "worker_key i w = worker_key (pw_run_id x) (pw_worker_id x)"
    if "kv_get (worker_key i w) (co_kv c) = Some (WorkerVal x)" for x
    using coord_ok_entry [OF assms that] by (simp add: entry_ok_def)
  show "coord_ok (snd (coord_heartbeat i w n now c))" "coord_ok (snd (mark_worker_dead i w status c))"
    using assms
    by (auto simp: coord_heartbeat_def mark_worker_dead_def update_worker_def worker_of_def
        split: option.splits kv_value.splits intro!: put dest: key)
qed

lemma coord_step_ok: "coord_step c d \<Longrightarrow> coord_ok c \<Longrightarrow> coord_ok d"
  by (induction rule: coord_step.induct)
    (auto simp: transition_run_move set_run_error_move move_call_ok coord_ok_create_run coord_ok_update_run_step
      coord_ok_create_checkpoint coord_ok_delete coord_ok_checkpoint_updates coord_ok_workers,
     auto simp: coord_ok_def)

lemma coord_reachable_ok: "coord_reachable c \<Longrightarrow> coord_ok c"
proof (induction rule: coord_reachable.induct)
  case init
  show ?case by (simp add: coord_ok_def coord_empty_def kv_get_def)
qed (rule coord_step_ok)

text \<open>What a step does to one stored run: it keeps its state or follows a valid transition.\<close>

definition next_state :: "RunState \<Rightarrow> RunState \<Rightarrow> bool" where
  "next_state a b = (b \<in> set (VALID_TRANSITIONS a))"

definition run_follows :: "jsstring \<Rightarrow> py_run \<Rightarrow> coordinator \<Rightarrow> bool" where
  "run_follows i r d =
     (\<exists>r'. kv_get (run_key i) (co_kv d) = Some (RunVal r')
        \<and> (pr_state r' = pr_state r \<or> next_state (pr_state r) (pr_state r')))"

lemma run_follows_same: "kv_get (run_key i) (co_kv d) = Some (RunVal r) \<Longrightarrow> run_follows i r d"
  by (auto simp: run_follows_def)

lemma run_follows_move:
  assumes "coord_ok c" "keeps_run t f" "kv_get (run_key i) (co_kv c) = Some (RunVal r)"
  shows "run_follows i r (snd (move_call j t f c))"
  using assms(1,2)
proof (cases rule: move_call_cases [of c t f j])
  case (moved q m m' c2)
  then have "next_state (pr_state q) t"
    by (auto simp: next_state_def transition_def can_transition_def split: if_splits)
  with moved assms(2,3) show ?thesis by (auto simp: run_follows_def get_put keeps_run_def)
qed (use assms(3) in \<open>simp_all add: run_follows_def\<close>)

lemma run_follows_persist:
  "kv_get (run_key i) (co_kv c) = Some (RunVal r) \<Longrightarrow> kv_get (run_key j) (co_kv c) = Some (RunVal q) \<Longrightarrow>
   pr_run_id q' = j \<Longrightarrow> pr_state q' = pr_state q \<Longrightarrow> run_follows i r (persist_run q' c)"
  by (auto simp: run_follows_def persist_run_def get_put)

lemma coord_step_run:
  assumes "coord_step c d" "coord_ok c" "kv_get (run_key i) (co_kv c) = Some (RunVal r)"
  shows "run_follows i r d"
  using assms
proof (induction rule: coord_step.induct)
  case (update_run_step c j n now)
  show ?case
  proof (cases "require_run j c")
    case (Inr q)
    with update_run_step require_run_SomeD [OF Inr] require_run_id [OF _ Inr] show ?thesis
      by (auto simp: update_run_step_def Let_def intro!: run_follows_persist [where j = j and q = q])
  qed (use update_run_step in \<open>simp add: update_run_step_def run_follows_same\<close>)
next
  case (create_checkpoint c k j n md now)
  show ?case
  proof (cases "require_run j c")
    case (Inr q)
    with create_checkpoint require_run_SomeD [OF Inr] require_run_id [OF _ Inr] show ?thesis
      by (auto simp: coord_create_checkpoint_def Let_def get_put intro!: run_follows_persist [where j = j and q = q])
  qed (use create_checkpoint in \<open>simp add: coord_create_checkpoint_def run_follows_same\<close>)
qed (auto simp: transition_run_move set_run_error_move run_follows_move coord_create_run_def persist_run_def Let_def
      get_put get_del coord_delete_checkpoint_def update_checkpoint_state_def update_checkpoint_metadata_def
      coord_register_worker_def coord_heartbeat_def mark_worker_dead_def update_worker_def
      split: sum.splits option.splits intro!: run_follows_same)

lemma next_state_terminal: "next_state\<^sup>*\<^sup>* a b \<Longrightarrow> VALID_TRANSITIONS a = [] \<Longrightarrow> b = a"
  by (induction rule: converse_rtranclp_induct) (auto simp: next_state_def)

lemma coord_steps_run:
  assumes "coord_step\<^sup>*\<^sup>* c d" "coord_ok c" "kv_get (run_key i) (co_kv c) = Some (RunVal r)"
  shows "coord_ok d \<and> (\<exists>r'. kv_get (run_key i) (co_kv d) = Some (RunVal r') \<and> next_state\<^sup>*\<^sup>* (pr_state r) (pr_state r'))"
  using assms
proof (induction rule: rtranclp_induct)
  case (step d e)
  then obtain r' where r': "coord_ok d" "kv_get (run_key i) (co_kv d) = Some (RunVal r')"
    "next_state\<^sup>*\<^sup>* (pr_state r) (pr_state r')" by blast
  from coord_step_run [OF step(2) r'(1,2)] r'(3) coord_step_ok [OF step(2) r'(1)] show ?case
    by (auto simp: run_follows_def intro: rtranclp.rtrancl_into_rtrancl)
qed auto

lemma get_run_iff:
  "coord_get_run i c = Inr (Some r) \<longleftrightarrow> kv_get (run_key i) (co_kv c) = Some (RunVal r)"
  by (auto simp: coord_get_run_def split: option.splits kv_value.splits)

lemma get_checkpoint_iff:
  "coord_get_checkpoint i c = Inr (Some x) \<longleftrightarrow> kv_get (checkpoint_key i) (co_kv c) = Some (CheckpointVal x)"
  by (auto simp: coord_get_checkpoint_def split: option.splits kv_value.splits)

lemma parse_all_ok:
  "(\<And>k v. (k, v) \<in> set es \<Longrightarrow> f v \<noteq> None) \<Longrightarrow> parse_all f es = Inr (map (\<lambda>(k, v). the (f v)) es)"
proof -
  assume some: "\<And>k v. (k, v) \<in> set es \<Longrightarrow> f v \<noteq> None"
  have "those (map (f \<circ> snd) es) = Some (map (\<lambda>(k, v). the (f v)) es)"
    using some
  proof (induction es)
    case (Cons e es)
    obtain k v where e: "e = (k, v)" by (cases e)
    with Cons.prems [of k v] obtain x where "f v = Some x" by auto
    moreover have "those (map (f \<circ> snd) es) = Some (map (\<lambda>(k, v). the (f v)) es)"
      using Cons.prems by (intro Cons.IH) auto
    ultimately show ?case by (simp add: e comp_def)
  qed simp
  then show ?thesis by (simp add: parse_all_def)
qed

lemma prefix_keys:
  "startsWith k (KEY_PREFIX @ js ''/runs/'') \<longleftrightarrow> (\<exists>i. k = run_key i)"
  "startsWith k (KEY_PREFIX @ js ''/checkpoints/'') \<longleftrightarrow> (\<exists>i. k = checkpoint_key i)"
  by (auto simp: startsWith_iff run_key_def checkpoint_key_def)

text \<open>The entries below a prefix whose keys have the form \<open>key i\<close> for records of one kind.\<close>

lemma parse_prefix:
  assumes ok: "coord_ok c"
    and pre: "\<And>k. startsWith k p \<longleftrightarrow> (\<exists>i. k = key i)"
    and kind: "\<And>i v. kv_get (key i) (co_kv c) = Some v \<Longrightarrow> \<exists>x. v = con x \<and> ident x = i"
    and f: "\<And>x. f (con x) = Some x"
  shows "\<exists>xs. parse_all f (kv_get_prefix p (co_kv c)) = Inr xs
    \<and> set xs = {x. \<exists>i. kv_get (key i) (co_kv c) = Some (con x)} \<and> distinct (map ident xs)"
proof -
  let ?es = "kv_get_prefix p (co_kv c)"
  have valid: "distinct (map fst (co_kv c))" using ok by (simp add: coord_ok_def)
  have mem: "(k, v) \<in> set ?es \<longleftrightarrow> (\<exists>i x. k = key i \<and> v = con x \<and> kv_get k (co_kv c) = Some v \<and> ident x = i)" for k v
    using kind unfolding memory_store.set_get_prefix [OF valid] pre by auto
  have "parse_all f ?es = Inr (map (\<lambda>(k, v). the (f v)) ?es)" by (rule parse_all_ok) (auto simp: mem f)
  moreover have "set (map (\<lambda>(k, v). the (f v)) ?es) = {x. \<exists>i. kv_get (key i) (co_kv c) = Some (con x)}"
    (is "?L = ?R")
  proof
    show "?L \<subseteq> ?R" by (auto simp: mem f) blast
    show "?R \<subseteq> ?L"
    proof
      fix x assume "x \<in> ?R"
      then obtain i where i: "kv_get (key i) (co_kv c) = Some (con x)" by blast
      from kind [OF i] obtain y where y: "con x = con y" "ident y = i" by blast
      then have "f (con x) = f (con y)" by simp
      with y have "(key i, con x) \<in> set ?es" using i by (auto simp: mem f)
      then have "(\<lambda>(k, v). the (f v)) (key i, con x) \<in> ?L" by (simp only: set_map) (rule imageI)
      then show "x \<in> ?L" by (simp add: f)
    qed
  qed
  moreover have "distinct (map ident (map (\<lambda>(k, v). the (f v)) ?es))"
  proof -
    have keys: "map fst ?es = map (key \<circ> (\<lambda>(k, v). ident (the (f v)))) ?es"
      by (rule map_cong) (auto simp: mem f)
    have "distinct (map (key \<circ> (\<lambda>(k, v). ident (the (f v)))) ?es)"
      using memory_store.distinct_get_prefix [OF valid, of p] by (simp only: keys)
    then have "distinct (map (\<lambda>(k, v). ident (the (f v))) ?es)"
      unfolding map_map [symmetric] by (rule distinct_map [THEN iffD1, THEN conjunct1])
    then show ?thesis by (simp add: comp_def case_prod_unfold)
  qed
  ultimately show ?thesis by blast
qed

lemma list_runs_ok:
  "coord_ok c \<Longrightarrow> \<exists>rs. coord_list_runs c = Inr rs \<and> set rs = {r. \<exists>i. coord_get_run i c = Inr (Some r)}
     \<and> distinct (map pr_run_id rs)"
  unfolding coord_list_runs_def get_run_iff
  by (rule parse_prefix) (auto simp: prefix_keys run_of_def dest: coord_ok_run)

lemma list_checkpoints_ok:
  assumes "coord_ok c"
  shows "\<exists>ks. coord_list_checkpoints i c = Inr ks
    \<and> set ks = {k. pk_run_id k = i \<and> (\<exists>j. coord_get_checkpoint j c = Inr (Some k))}
    \<and> distinct (map pk_checkpoint_id ks) \<and> sorted (map pk_step ks)"
proof -
  have "\<exists>xs. parse_all checkpoint_of (kv_get_prefix (KEY_PREFIX @ js ''/checkpoints/'') (co_kv c)) = Inr xs
      \<and> set xs = {x. \<exists>i. kv_get (checkpoint_key i) (co_kv c) = Some (CheckpointVal x)}
      \<and> distinct (map pk_checkpoint_id xs)"
    by (rule parse_prefix [OF assms]) (auto simp: prefix_keys checkpoint_of_def dest: coord_ok_checkpoint [OF assms])
  then obtain xs where xs:
    "parse_all checkpoint_of (kv_get_prefix (KEY_PREFIX @ js ''/checkpoints/'') (co_kv c)) = Inr xs"
    "set xs = {x. \<exists>i. kv_get (checkpoint_key i) (co_kv c) = Some (CheckpointVal x)}"
    "distinct (map pk_checkpoint_id xs)" by blast
  have "distinct (map pk_checkpoint_id (filter (\<lambda>x. pk_run_id x = i) xs))"
    using xs(3) by (simp add: distinct_map_filter)
  with xs show ?thesis by (auto simp: coord_list_checkpoints_def get_checkpoint_iff distinct_map)
qed

section \<open>Properties\<close>

text \<open>A run that was created, started and failed, and its checkpoint.\<close>

definition sample_config :: py_config where
  "sample_config = \<lparr>pc_name = js ''mlp'', pc_num_workers = 2, pc_sharding_policy = ''RANGE_SHARDING'',
     pc_checkpoint_interval_steps = 50, pc_max_steps = None, pc_dataset_id = None, pc_metadata = []\<rparr>"

definition sample_coord :: coordinator where
  "sample_coord = snd (coord_create_run (js ''r1'') 0 sample_config coord_empty)"

definition sample_cancelled :: coordinator where
  "sample_cancelled = snd (transition_run (js ''r1'') CANCELLED 1 sample_coord)"

lemma sample_coord_reachable: "coord_reachable sample_coord"
proof -
  have "coord_step coord_empty sample_coord"
    unfolding sample_coord_def by (rule coord_step.create_run) (simp add: coord_empty_def kv_get_def)
  with coord_reachable.init show ?thesis by (rule coord_reachable.step)
qed

lemma sample_coord_run: "\<exists>r. coord_get_run (js ''r1'') sample_coord = Inr (Some r) \<and> pr_state r = CREATED"
  by (simp add: sample_coord_def coord_create_run_def Let_def persist_run_def get_run_iff get_put)

lemma sample_cancelled_reachable: "coord_reachable sample_cancelled"
  unfolding sample_cancelled_def using sample_coord_reachable coord_step.transition_run by (rule coord_reachable.step)

lemma sample_cancelled_run: "\<exists>r. coord_get_run (js ''r1'') sample_cancelled = Inr (Some r) \<and> pr_state r = CANCELLED"
proof -
  obtain r where r: "kv_get (run_key (js ''r1'')) (co_kv sample_coord) = Some (RunVal r)" "pr_state r = CREATED"
    using sample_coord_run by (auto simp: get_run_iff)
  have ok: "coord_ok sample_coord" by (rule coord_reachable_ok [OF sample_coord_reachable])
  show ?thesis
    unfolding sample_cancelled_def transition_run_move
    by (rule move_call_cases [OF ok keeps_run_simps(1), of "js ''r1''" CANCELLED 1])
      (use r in \<open>auto simp: get_run_iff get_put can_transition_def\<close>)
qed

definition sample_joined :: coordinator where
  "sample_joined =
     snd (transition_run (js ''r1'') CANCELLED 2 (snd (coord_register_worker (js ''w1'') (js ''r1'') 0 (js ''h1'') 1 sample_coord)))"

lemma sample_joined_reachable: "coord_reachable sample_joined"
  unfolding sample_joined_def
  by (rule coord_reachable.step [OF coord_reachable.step [OF sample_coord_reachable coord_step.register_worker]
        coord_step.transition_run])

lemma sample_joined_memory: "\<exists>m. map_of (co_fsms sample_joined) (js ''r1'') = Some m \<and> fsm_state m = CANCELLED"
proof -
  have "map_option fsm_state (map_of (co_fsms sample_joined) (js ''r1'')) = Some CANCELLED" by code_simp
  then show ?thesis by auto
qed

lemma sample_joined_keys: "map fst (co_kv sample_joined) = [run_key (js ''r1''), worker_key (js ''r1'') (js ''w1'')]"
  by code_simp

text \<open>
  C25. The coordinator never misreads a record, and memory and store agree: after any sequence of
  calls, failed ones and restarts included, the keys of the store are distinct and every one of them, those of
  runs, checkpoints and workers alike, is the key of the record it holds; looking up a run or a checkpoint
  returns a record with the identifier asked for or nothing, every state machine in memory is in the
  state that is stored for its run, and its history is a path of valid transitions.
\<close>

theorem coordinator_in_sync:
  assumes "coord_reachable c"
  shows "distinct (map fst (co_kv c)) \<and> map fst (co_kv c) = map (record_key \<circ> snd) (co_kv c)
    \<and> coord_get_run i c \<in> {Inr None} \<union> {Inr (Some r) | r. pr_run_id r = i}
    \<and> coord_get_checkpoint k c \<in> {Inr None} \<union> {Inr (Some x) | x. pk_checkpoint_id x = k}
    \<and> (case map_of (co_fsms c) i of
         None \<Rightarrow> True
       | Some m \<Rightarrow> (\<exists>r. coord_get_run i c = Inr (Some r) \<and> pr_state r = fsm_state m)
           \<and> (\<exists>s. path s (fsm_history m) (fsm_state m)))"
proof -
  have ok: "coord_ok c" by (rule coord_reachable_ok [OF assms])
  have "coord_get_run i c \<in> {Inr None} \<union> {Inr (Some r) | r. pr_run_id r = i}"
    using coord_ok_run [OF ok, of i] by (auto simp: coord_get_run_def split: option.splits kv_value.splits)
  moreover have "coord_get_checkpoint k c \<in> {Inr None} \<union> {Inr (Some x) | x. pk_checkpoint_id x = k}"
    using coord_ok_checkpoint [OF ok, of k] by (auto simp: coord_get_checkpoint_def split: option.splits kv_value.splits)
  moreover have "case map_of (co_fsms c) i of None \<Rightarrow> True
      | Some m \<Rightarrow> (\<exists>r. coord_get_run i c = Inr (Some r) \<and> pr_state r = fsm_state m)
          \<and> (\<exists>s. path s (fsm_history m) (fsm_state m))"
    using coord_ok_fsm [OF ok, of i] by (auto simp: fsm_ok_def get_run_iff split: option.splits)
  ultimately show ?thesis using coord_ok_keys [OF ok] by blast
qed

text \<open>A worker registers at the sample run, and the run is cancelled: two keys and one state machine.\<close>

theorem coordinator_in_sync_witness:
  "map fst (co_kv sample_joined) = map (record_key \<circ> snd) (co_kv sample_joined)
   \<and> map fst (co_kv sample_joined) = [run_key (js ''r1''), worker_key (js ''r1'') (js ''w1'')]
   \<and> (\<exists>m r. map_of (co_fsms sample_joined) (js ''r1'') = Some m \<and> fsm_state m = CANCELLED
        \<and> coord_get_run (js ''r1'') sample_joined = Inr (Some r) \<and> pr_state r = CANCELLED)"
proof -
  note sync = coordinator_in_sync [OF sample_joined_reachable, of "js ''r1''"]
  obtain m where m: "map_of (co_fsms sample_joined) (js ''r1'') = Some m" "fsm_state m = CANCELLED"
    using sample_joined_memory by blast
  with sync show ?thesis using sample_joined_keys by auto
qed

text \<open>
  C11. Stored runs are never lost and only move along valid transitions: whatever calls, failures
  and restarts follow, a stored run stays stored, its state is reached from the earlier one by valid
  transitions, and a run that was cancelled or completed stays so.
\<close>

theorem stored_runs_follow_transitions:
  assumes "coord_reachable c" and "coord_get_run i c = Inr (Some r)" and "coord_step\<^sup>*\<^sup>* c d"
  shows "\<exists>r'. coord_get_run i d = Inr (Some r') \<and> next_state\<^sup>*\<^sup>* (pr_state r) (pr_state r')
    \<and> (pr_state r \<in> {CANCELLED, COMPLETED} \<longrightarrow> pr_state r' = pr_state r)"
proof -
  obtain r' where r': "coord_get_run i d = Inr (Some r')" "next_state\<^sup>*\<^sup>* (pr_state r) (pr_state r')"
    using coord_steps_run [OF assms(3) coord_reachable_ok [OF assms(1)] assms(2) [unfolded get_run_iff]]
    by (auto simp: get_run_iff)
  with next_state_terminal [OF r'(2)] show ?thesis by auto
qed

theorem stored_runs_follow_transitions_witness:
  "\<exists>r'. coord_get_run (js ''r1'') (snd (transition_run (js ''r1'') RUNNING 2 sample_cancelled)) = Inr (Some r')
     \<and> pr_state r' = CANCELLED"
proof -
  obtain r where r: "coord_get_run (js ''r1'') sample_cancelled = Inr (Some r)" "pr_state r = CANCELLED"
    using sample_cancelled_run by blast
  have "coord_step\<^sup>*\<^sup>* sample_cancelled (snd (transition_run (js ''r1'') RUNNING 2 sample_cancelled))"
    by (rule r_into_rtranclp) (rule coord_step.transition_run)
  from stored_runs_follow_transitions [OF sample_cancelled_reachable r(1) this] r(2) show ?thesis by auto
qed

text \<open>
  The listings are complete and exact: in every reachable state the list of runs holds every
  stored run once, and the list of checkpoints of a run holds exactly its stored checkpoints, each
  once, in the order of their steps.
\<close>

theorem coordinator_lists_exact:
  assumes "coord_reachable c"
  shows "(\<exists>rs. coord_list_runs c = Inr rs \<and> set rs = {r. \<exists>i. coord_get_run i c = Inr (Some r)}
      \<and> distinct (map pr_run_id rs))
    \<and> (\<exists>ks. coord_list_checkpoints i c = Inr ks
      \<and> set ks = {k. pk_run_id k = i \<and> (\<exists>j. coord_get_checkpoint j c = Inr (Some k))}
      \<and> distinct (map pk_checkpoint_id ks) \<and> sorted (map pk_step ks))"
  using list_runs_ok list_checkpoints_ok coord_reachable_ok [OF assms] by blast

theorem coordinator_lists_exact_witness:
  "\<exists>ks. coord_list_checkpoints (js ''r1'') sample_coord = Inr ks \<and> sorted (map pk_step ks)"
  using coordinator_lists_exact [OF sample_coord_reachable, of "js ''r1''"] by blast

end
