(* ===== verification/CheckpointApi.thy ===== *)
theory CheckpointApi
  imports Coordinator "HOL-Library.Word"
begin

text \<open>
  The checkpoint protocol of the control plane: the route handlers of
  \<open>python-controlplane/src/controlplane/api/rest.py\<close> for runs and checkpoints, on top of the
  coordinator. A worker triggers a checkpoint, uploads its shards and commits it; the handlers pass
  the bytes to the data plane and record what it answers.

  A handler returns the answer, a body or an HTTP error, and the state after it; an exception it
  does not handle is answered by 500. Handlers run until they await the data plane: \<open>upload_shard\<close>
  and \<open>commit_run\<close> are split there, and other requests may run in between. The answers of the data
  plane, \<open>None\<close> for a call that raised, the identifiers and the times are arguments. Events are
  recorded when they are published; theory \<open>Operations\<close> has the queues of the subscribers.
\<close>

section \<open>State\<close>

record shard_info =
  sh_shard_id :: jsstring
  sh_rank :: int
  sh_size_bytes :: int
  sh_sha256 :: jsstring
  sh_storage_key :: jsstring

record api =
  ai_coord :: coordinator
  ai_shards :: "(jsstring \<times> shard_info list) list"
  ai_durations :: "real list"
  ai_commits :: nat
  ai_restart_attempts :: "(jsstring \<times> real) list"
  ai_published :: "(jsstring \<times> string) list"

datatype 'a http = Ok 'a | HttpError int

fun error_code :: "coord_error \<Rightarrow> int" where
  "error_code KeyError = 404"
| "error_code (InvalidTransitionError a b) = 409"
| "error_code ValidationError = 500"

definition publish_event :: "jsstring \<Rightarrow> string \<Rightarrow> api \<Rightarrow> api" where
  "publish_event run_id event_type a = a\<lparr>ai_published := ai_published a @ [(run_id, event_type)]\<rparr>"

section \<open>Runs\<close>

definition rest_create_run :: "jsstring \<Rightarrow> py_config \<Rightarrow> int \<Rightarrow> api \<Rightarrow> py_run http \<times> api" where
  "rest_create_run run_id config now a =
     (case coord_create_run run_id now config (ai_coord a) of
        (status, c) \<Rightarrow> (Ok status, publish_event run_id ''run_created'' (a\<lparr>ai_coord := c\<rparr>)))"

definition rest_transition :: "RunState \<Rightarrow> string \<Rightarrow> jsstring \<Rightarrow> int \<Rightarrow> api \<Rightarrow> py_run http \<times> api" where
  "rest_transition target event run_id now a =
     (case transition_run run_id target now (ai_coord a) of
        (Inl e, c) \<Rightarrow> (HttpError (error_code e), a\<lparr>ai_coord := c\<rparr>)
      | (Inr status, c) \<Rightarrow> (Ok status, publish_event run_id event (a\<lparr>ai_coord := c\<rparr>)))"

definition rest_start_run :: "jsstring \<Rightarrow> int \<Rightarrow> api \<Rightarrow> py_run http \<times> api" where
  "rest_start_run = rest_transition RUNNING ''run_started''"

definition rest_cancel_run :: "jsstring \<Rightarrow> int \<Rightarrow> api \<Rightarrow> py_run http \<times> api" where
  "rest_cancel_run = rest_transition CANCELLED ''run_cancelled''"

definition rest_complete_run :: "jsstring \<Rightarrow> int \<Rightarrow> api \<Rightarrow> py_run http \<times> api" where
  "rest_complete_run = rest_transition COMPLETED ''run_completed''"

definition rest_fail_run :: "jsstring \<Rightarrow> jsstring \<Rightarrow> int \<Rightarrow> api \<Rightarrow> py_run http \<times> api" where
  "rest_fail_run run_id reason now a =
     (case set_run_error run_id reason now (ai_coord a) of
        (Inl e, c) \<Rightarrow> (HttpError (error_code e), a\<lparr>ai_coord := c\<rparr>)
      | (Inr status, c) \<Rightarrow> (Ok status, publish_event run_id ''run_failed'' (a\<lparr>ai_coord := c\<rparr>)))"

definition resume_call :: "py_run \<Rightarrow> int \<Rightarrow> coordinator \<Rightarrow> py_run call" where
  "resume_call status now c =
     (if pr_state status = FAILED then transition_run (pr_run_id status) RECOVERING now c
      else if pr_state status = RECOVERING then transition_run (pr_run_id status) RUNNING now c
      else if pr_state status = RUNNING then (Inr status, c)
      else if pr_state status \<in> {COMMITTED, CREATED, CHECKPOINTING}
      then transition_run (pr_run_id status) RUNNING now c
      else (Inl (InvalidTransitionError (pr_state status) RUNNING), c))"

definition rest_resume_run :: "jsstring \<Rightarrow> int \<Rightarrow> api \<Rightarrow> py_run http \<times> api" where
  "rest_resume_run run_id now a =
     (case require_run run_id (ai_coord a) of
        Inl e \<Rightarrow> (HttpError (error_code e), a)
      | Inr status \<Rightarrow>
          (case resume_call status now (ai_coord a) of
             (Inl e, c) \<Rightarrow> (HttpError (if e = KeyError then 500 else error_code e), a\<lparr>ai_coord := c\<rparr>)
           | (Inr status', c) \<Rightarrow>
               let a1 = a\<lparr>ai_coord := c\<rparr>;
                   a2 = (if pr_state status' = RUNNING
                         then a1\<lparr>ai_restart_attempts := AList.delete run_id (ai_restart_attempts a1)\<rparr> else a1)
               in (Ok status', publish_event run_id ''run_resumed'' a2)))"

section \<open>Checkpoints\<close>

definition rest_trigger_checkpoint ::
  "jsstring \<Rightarrow> jsstring \<Rightarrow> int option \<Rightarrow> int \<Rightarrow> api \<Rightarrow> py_checkpoint http \<times> api" where
  "rest_trigger_checkpoint checkpoint_id run_id stp now a =
     (case transition_run run_id CHECKPOINTING now (ai_coord a) of
        (Inl e, c) \<Rightarrow> (HttpError (error_code e), a\<lparr>ai_coord := c\<rparr>)
      | (Inr status, c) \<Rightarrow>
          (case coord_create_checkpoint checkpoint_id run_id (given stp (pr_current_step status)) [] now c of
             (Inl e, c') \<Rightarrow> (HttpError 500, a\<lparr>ai_coord := c'\<rparr>)
           | (Inr info, c') \<Rightarrow> (Ok info, publish_event run_id ''checkpoint_started'' (a\<lparr>ai_coord := c'\<rparr>))))"

text \<open>Recording a failed checkpoint; the first component is an exception that escapes.\<close>

definition abort_failed_checkpoint ::
  "jsstring \<Rightarrow> jsstring \<Rightarrow> jsstring \<Rightarrow> int \<Rightarrow> api \<Rightarrow> coord_error option \<times> api" where
  "abort_failed_checkpoint run_id checkpoint_id message now a =
     (case update_checkpoint_state checkpoint_id ''FAILED'' None None None now (ai_coord a) of (res, c) \<Rightarrow>
        if res = Inl ValidationError then (Some ValidationError, a\<lparr>ai_coord := c\<rparr>)
        else
          (case set_run_error run_id message now c of (res', c') \<Rightarrow>
             if res' = Inl ValidationError then (Some ValidationError, a\<lparr>ai_coord := c'\<rparr>)
             else (None, a\<lparr>ai_coord := c', ai_shards := AList.delete checkpoint_id (ai_shards a)\<rparr>)))"

definition fail_with :: "jsstring \<Rightarrow> jsstring \<Rightarrow> string \<Rightarrow> int \<Rightarrow> api \<Rightarrow> 'a http \<times> api" where
  "fail_with run_id checkpoint_id message now a =
     (case abort_failed_checkpoint run_id checkpoint_id (js message) now a of
        (None, a') \<Rightarrow> (HttpError 502, a')
      | (Some e, a') \<Rightarrow> (HttpError 500, a'))"

subsection \<open>Uploading a shard\<close>

text \<open>What the handler checks before it streams the bytes; \<open>rank\<close> is \<open>None\<close> when the header is no number.\<close>

definition upload_check :: "bool \<Rightarrow> jsstring \<Rightarrow> jsstring \<Rightarrow> nat \<Rightarrow> int option \<Rightarrow> api \<Rightarrow> int http" where
  "upload_check dp_up run_id checkpoint_id body_length rank a =
     (if \<not> dp_up then HttpError 503
      else
        (case coord_get_checkpoint checkpoint_id (ai_coord a) of
           Inl e \<Rightarrow> HttpError 500
         | Inr None \<Rightarrow> HttpError 404
         | Inr (Some cp) \<Rightarrow>
             if pk_run_id cp \<noteq> run_id then HttpError 404
             else if body_length = 0 then HttpError 400
             else (case rank of None \<Rightarrow> HttpError 500 | Some n \<Rightarrow> Ok n)))"

record write_result =
  wr_success :: bool
  wr_shard_id :: jsstring
  wr_total_bytes :: int
  wr_sha256_checksum :: jsstring

definition storage_key :: "jsstring \<Rightarrow> jsstring \<Rightarrow> jsstring \<Rightarrow> jsstring \<Rightarrow> jsstring" where
  "storage_key run_id checkpoint_id sha shard_id =
     run_id @ js ''/'' @ checkpoint_id @ js ''/sha256-'' @ Prelude.slice 0 16 sha @ js ''-'' @ shard_id @ js ''.bin''"

definition new_shard :: "jsstring \<Rightarrow> jsstring \<Rightarrow> jsstring \<Rightarrow> int \<Rightarrow> write_result \<Rightarrow> shard_info" where
  "new_shard run_id checkpoint_id shard_id rank res =
     \<lparr>sh_shard_id = shard_id, sh_rank = rank, sh_size_bytes = wr_total_bytes res,
      sh_sha256 = wr_sha256_checksum res,
      sh_storage_key = storage_key run_id checkpoint_id (wr_sha256_checksum res) shard_id\<rparr>"

definition shards_of :: "jsstring \<Rightarrow> api \<Rightarrow> shard_info list" where
  "shards_of checkpoint_id a = (case map_of (ai_shards a) checkpoint_id of None \<Rightarrow> [] | Some l \<Rightarrow> l)"

definition upload_finish ::
  "jsstring \<Rightarrow> jsstring \<Rightarrow> jsstring \<Rightarrow> int \<Rightarrow> write_result option \<Rightarrow> int \<Rightarrow> api \<Rightarrow> write_result http \<times> api" where
  "upload_finish run_id checkpoint_id shard_id rank result now a =
     (case result of
        None \<Rightarrow> fail_with run_id checkpoint_id ''Checkpoint shard upload failed'' now a
      | Some res \<Rightarrow>
          if \<not> wr_success res
          then fail_with run_id checkpoint_id ''Checkpoint shard upload was rejected by storage'' now a
          else
            let existing = shards_of checkpoint_id a @ [new_shard run_id checkpoint_id shard_id rank res];
                a1 = a\<lparr>ai_shards := AList.update checkpoint_id existing (ai_shards a)\<rparr>
            in (case update_checkpoint_state checkpoint_id ''IN_PROGRESS'' (Some (int (length existing)))
                       (Some (sum_list (map sh_size_bytes existing))) (Some (map sh_shard_id existing)) now (ai_coord a1) of
                  (Inl e, c) \<Rightarrow> (HttpError 500, a1\<lparr>ai_coord := c\<rparr>)
                | (Inr cp, c) \<Rightarrow> (Ok res, a1\<lparr>ai_coord := c\<rparr>)))"

text \<open>The handler when no other request runs while it waits.\<close>

definition rest_upload_shard ::
  "bool \<Rightarrow> jsstring \<Rightarrow> jsstring \<Rightarrow> jsstring \<Rightarrow> nat \<Rightarrow> int option \<Rightarrow> write_result option \<Rightarrow> int \<Rightarrow> api \<Rightarrow> write_result http \<times> api" where
  "rest_upload_shard dp_up run_id checkpoint_id shard_id body_length rank result now a =
     (case upload_check dp_up run_id checkpoint_id body_length rank a of
        HttpError n \<Rightarrow> (HttpError n, a)
      | Ok r \<Rightarrow> upload_finish run_id checkpoint_id shard_id r result now a)"

text \<open>The chunks that the body is streamed in.\<close>

record shard_chunk =
  ch_shard_id :: jsstring
  ch_checkpoint_id :: jsstring
  ch_offset :: nat
  ch_data :: "8 word list"
  ch_is_last :: bool

definition chunk_size :: nat where
  "chunk_size = 1024 * 1024"

function chunk_iterator :: "jsstring \<Rightarrow> jsstring \<Rightarrow> 8 word list \<Rightarrow> nat \<Rightarrow> shard_chunk list" where
  "chunk_iterator shard_id composite_id body offset =
     (if offset < length body
      then let e = min (offset + chunk_size) (length body)
           in \<lparr>ch_shard_id = shard_id, ch_checkpoint_id = composite_id, ch_offset = offset,
               ch_data = take (e - offset) (drop offset body), ch_is_last = (length body \<le> e)\<rparr>
              # chunk_iterator shard_id composite_id body e
      else [])"
  by pat_completeness auto
termination
  by (relation "measure (\<lambda>(s, c, body, offset). length body - offset)") (auto simp: chunk_size_def)

definition upload_chunks :: "jsstring \<Rightarrow> jsstring \<Rightarrow> jsstring \<Rightarrow> 8 word list \<Rightarrow> shard_chunk list" where
  "upload_chunks run_id checkpoint_id shard_id body =
     chunk_iterator shard_id (run_id @ js ''/'' @ checkpoint_id) body 0"

definition rest_download_shard :: "bool \<Rightarrow> 8 word list list \<Rightarrow> (8 word list) http" where
  "rest_download_shard dp_up chunks =
     (if \<not> dp_up then HttpError 503
      else if chunks = [] then HttpError 404
      else Ok (concat chunks))"

subsection \<open>Committing\<close>

definition commit_begin :: "bool \<Rightarrow> jsstring \<Rightarrow> api \<Rightarrow> (py_checkpoint \<times> shard_info list) http" where
  "commit_begin dp_up run_id a =
     (case coord_get_run run_id (ai_coord a) of
        Inl e \<Rightarrow> HttpError 500
      | Inr None \<Rightarrow> HttpError 404
      | Inr (Some run) \<Rightarrow>
          (case coord_list_checkpoints run_id (ai_coord a) of
             Inl e \<Rightarrow> HttpError 500
           | Inr checkpoints \<Rightarrow>
               (case find (\<lambda>cp. pk_state cp = ''IN_PROGRESS'') (rev checkpoints) of
                  None \<Rightarrow> HttpError 409
                | Some cp \<Rightarrow>
                    if \<not> dp_up then HttpError 503
                    else if shards_of (pk_checkpoint_id cp) a = [] then HttpError 409
                    else Ok (cp, shards_of (pk_checkpoint_id cp) a))))"

definition commit_finish ::
  "jsstring \<Rightarrow> py_checkpoint \<Rightarrow> bool option \<Rightarrow> real \<Rightarrow> int \<Rightarrow> api \<Rightarrow> py_run http \<times> api" where
  "commit_finish run_id cp result duration now a =
     (case result of
        None \<Rightarrow> fail_with run_id (pk_checkpoint_id cp) ''Checkpoint manifest write failed'' now a
      | Some False \<Rightarrow> fail_with run_id (pk_checkpoint_id cp) ''Checkpoint manifest was rejected by storage'' now a
      | Some True \<Rightarrow>
          let a1 = a\<lparr>ai_durations := ai_durations a @ [duration],
                     ai_shards := AList.delete (pk_checkpoint_id cp) (ai_shards a)\<rparr>
          in (case update_checkpoint_state (pk_checkpoint_id cp) ''COMMITTED'' None None None now (ai_coord a1) of
                (Inl e, c) \<Rightarrow> (HttpError 500, a1\<lparr>ai_coord := c\<rparr>)
              | (Inr info, c) \<Rightarrow>
                  (case transition_run run_id COMMITTED now c of
                     (Inl e, c1) \<Rightarrow> (HttpError (if e = KeyError then 500 else error_code e), a1\<lparr>ai_coord := c1\<rparr>)
                   | (Inr status, c1) \<Rightarrow>
                       (case transition_run run_id RUNNING now c1 of
                          (Inl e, c2) \<Rightarrow> (HttpError (if e = KeyError then 500 else error_code e), a1\<lparr>ai_coord := c2\<rparr>)
                        | (Inr status', c2) \<Rightarrow>
                            (Ok status', publish_event run_id ''checkpoint_committed''
                               (a1\<lparr>ai_coord := c2, ai_commits := ai_commits a1 + 1\<rparr>))))))"

definition rest_commit_run :: "bool \<Rightarrow> jsstring \<Rightarrow> bool option \<Rightarrow> real \<Rightarrow> int \<Rightarrow> api \<Rightarrow> py_run http \<times> api" where
  "rest_commit_run dp_up run_id result duration now a =
     (case commit_begin dp_up run_id a of
        HttpError n \<Rightarrow> (HttpError n, a)
      | Ok (cp, shards) \<Rightarrow> commit_finish run_id cp result duration now a)"

subsection \<open>Reading\<close>

definition rest_list_checkpoints :: "jsstring \<Rightarrow> api \<Rightarrow> py_checkpoint list http" where
  "rest_list_checkpoints run_id a =
     (case coord_get_run run_id (ai_coord a) of
        Inl e \<Rightarrow> HttpError 500
      | Inr None \<Rightarrow> HttpError 404
      | Inr (Some r) \<Rightarrow>
          (case coord_list_checkpoints run_id (ai_coord a) of Inl e \<Rightarrow> HttpError 500 | Inr ks \<Rightarrow> Ok ks))"

definition rest_get_checkpoint :: "jsstring \<Rightarrow> api \<Rightarrow> py_checkpoint http" where
  "rest_get_checkpoint checkpoint_id a =
     (case coord_get_checkpoint checkpoint_id (ai_coord a) of
        Inl e \<Rightarrow> HttpError 500
      | Inr None \<Rightarrow> HttpError 404
      | Inr (Some k) \<Rightarrow> Ok k)"

section \<open>Lemmas\<close>

text \<open>A transition writes the record of its run only.\<close>

lemma move_call_kv:
  assumes "coord_ok c" "keeps_run t f" "\<And>j. k \<noteq> run_key j"
  shows "kv_get k (co_kv (snd (move_call i t f c))) = kv_get k (co_kv c)"
  using assms(1,2) by (cases rule: move_call_cases [of c t f i]) (simp_all add: get_put assms(3))

lemma transition_run_checkpoint [simp]:
  "coord_ok c \<Longrightarrow> kv_get (checkpoint_key k) (co_kv (snd (transition_run i t now c))) = kv_get (checkpoint_key k) (co_kv c)"
  "coord_ok c \<Longrightarrow> kv_get (checkpoint_key k) (co_kv (snd (set_run_error i msg now c))) = kv_get (checkpoint_key k) (co_kv c)"
  by (simp_all add: transition_run_move set_run_error_move move_call_kv)

lemma transition_run_ok [simp]:
  "coord_ok c \<Longrightarrow> coord_ok (snd (transition_run i t now c))"
  "coord_ok c \<Longrightarrow> coord_ok (snd (set_run_error i msg now c))"
  by (simp_all add: transition_run_move set_run_error_move move_call_ok)

text \<open>What an update does to the stored checkpoints.\<close>

lemma update_state_checkpoint:
  "kv_get (checkpoint_key j) (co_kv (snd (update_checkpoint_state k st n b ids now c))) =
     (case coord_get_checkpoint k c of
        Inr (Some info) \<Rightarrow>
          if j = k
          then Some (CheckpointVal (info\<lparr>pk_state := st, pk_num_shards := given n (pk_num_shards info),
                 pk_total_bytes := given b (pk_total_bytes info), pk_shard_ids := given ids (pk_shard_ids info),
                 pk_committed_at := (if st = ''COMMITTED'' \<and> pk_committed_at info = None then Some now
                   else pk_committed_at info)\<rparr>))
          else kv_get (checkpoint_key j) (co_kv c)
      | _ \<Rightarrow> kv_get (checkpoint_key j) (co_kv c))"
  by (simp add: update_checkpoint_state_def Let_def get_put split: sum.split option.split)

lemma update_state_other:
  "j \<noteq> k \<Longrightarrow> kv_get (checkpoint_key j) (co_kv (snd (update_checkpoint_state k st n b ids now c))) =
     kv_get (checkpoint_key j) (co_kv c)"
  by (simp add: update_state_checkpoint split: sum.split option.split)

lemma update_state_run:
  "kv_get (run_key j) (co_kv (snd (update_checkpoint_state k st n b ids now c))) = kv_get (run_key j) (co_kv c)"
  "co_fsms (snd (update_checkpoint_state k st n b ids now c)) = co_fsms c"
  by (simp_all add: update_checkpoint_state_def Let_def get_put split: sum.split option.split)

lemma create_checkpoint_stored:
  "kv_get (checkpoint_key j) (co_kv (snd (coord_create_checkpoint k i n md now c))) =
     (case require_run i c of
        Inl e \<Rightarrow> kv_get (checkpoint_key j) (co_kv c)
      | Inr r \<Rightarrow>
          if j = k
          then Some (CheckpointVal \<lparr>pk_checkpoint_id = k, pk_run_id = i, pk_step = n, pk_state = ''PENDING'',
                 pk_num_shards = 0, pk_total_bytes = 0, pk_created_at = now, pk_committed_at = None,
                 pk_shard_ids = [], pk_metadata = md\<rparr>)
          else kv_get (checkpoint_key j) (co_kv c))"
  by (simp add: coord_create_checkpoint_def persist_run_def Let_def get_put split: sum.split)

section \<open>The handlers against the state machine\<close>

text \<open>What an action shows of itself: the status code, the state machine of its run, the events.\<close>

fun http_code :: "'a http \<Rightarrow> int" where
  "http_code (Ok x) = 200"
| "http_code (HttpError n) = n"

definition observe :: "jsstring \<Rightarrow> api \<Rightarrow> 'a http \<times> api \<Rightarrow> outcome" where
  "observe i a = (\<lambda>(res, a').
     (http_code res, run_machine i (ai_coord a'), map snd (drop (length (ai_published a)) (ai_published a'))))"

lemma publish_fields [simp]:
  "ai_coord (publish_event i e a) = ai_coord a" "ai_published (publish_event i e a) = ai_published a @ [(i, e)]"
  "ai_shards (publish_event i e a) = ai_shards a" "ai_commits (publish_event i e a) = ai_commits a"
  by (simp_all add: publish_event_def)

lemma observe_transition:
  assumes "coord_ok (ai_coord a)"
  shows "observe i a (rest_transition t ev i now a) = move_run t ev (run_machine i (ai_coord a))"
  using assms keeps_run_simps(1)
proof (cases rule: move_call_cases [of "ai_coord a" t "\<lambda>r. r\<lparr>pr_state := t, pr_updated_at := now\<rparr>" i])
  case (refused r m c1)
  then have "transition t m = Inl (pr_state r, t)" by (simp add: transition_def)
  with refused show ?thesis by (simp add: observe_def rest_transition_def transition_run_move move_run_def)
qed (simp_all add: observe_def rest_transition_def transition_run_move move_run_def)

lemma observe_fail:
  assumes "coord_ok (ai_coord a)"
  shows "observe i a (rest_fail_run i reason now a) = fail_run (run_machine i (ai_coord a))"
  using assms keeps_run_simps(2)
proof (cases rule: move_call_cases [of "ai_coord a" FAILED
    "\<lambda>r. r\<lparr>pr_state := FAILED, pr_error_message := Some reason, pr_updated_at := now\<rparr>" i])
  case (refused r m c1)
  then have "transition FAILED m = Inl (pr_state r, FAILED)" by (simp add: transition_def)
  with refused show ?thesis by (simp add: observe_def rest_fail_run_def set_run_error_move fail_run_def move_run_def)
qed (simp_all add: observe_def rest_fail_run_def set_run_error_move fail_run_def move_run_def)

lemma run_machine_create_checkpoint:
  assumes "coord_ok c"
  shows "run_machine i (snd (coord_create_checkpoint k j n md now c)) = run_machine i c"
proof (cases "require_run j c")
  case (Inr r)
  with require_run_SomeD [OF Inr] require_run_id [OF assms Inr] show ?thesis
    by (cases "i = j") (auto simp: coord_create_checkpoint_def Let_def persist_run_def run_machine_def get_put
        split: option.split kv_value.split)
qed (simp add: coord_create_checkpoint_def)

text \<open>A valid transition of a stored run is always carried out.\<close>

lemma transition_run_valid:
  assumes "coord_ok c" "kv_get (run_key i) (co_kv c) = Some (RunVal r)" "t \<in> set (VALID_TRANSITIONS (pr_state r))"
  obtains m m' c2 where "run_machine i c = Some m" "fsm_state m = pr_state r" "transition t m = Inr m'"
    "transition_run i t now c = (Inr (r\<lparr>pr_state := t, pr_updated_at := now\<rparr>), c2)" "coord_ok c2"
    "co_kv c2 = kv_put (run_key i) (RunVal (r\<lparr>pr_state := t, pr_updated_at := now\<rparr>)) (co_kv c)"
    "run_machine i c2 = Some m'"
  using assms(1) keeps_run_simps(1)
proof (cases rule: move_call_cases [of c t "\<lambda>r. r\<lparr>pr_state := t, pr_updated_at := now\<rparr>" i])
  case (moved q m m' c2)
  with assms(2) show ?thesis by (intro that [of m m' c2]) (simp_all add: transition_run_move)
qed (use assms(2,3) in \<open>auto simp: can_transition_def\<close>)

lemma transition_run_invalid:
  assumes "coord_ok c" "kv_get (run_key i) (co_kv c) = Some (RunVal r)" "t \<notin> set (VALID_TRANSITIONS (pr_state r))"
  obtains m c1 where "run_machine i c = Some m" "fsm_state m = pr_state r" "transition t m = Inl (pr_state r, t)"
    "transition_run i t now c = (Inl (InvalidTransitionError (pr_state r) t), c1)" "coord_ok c1" "co_kv c1 = co_kv c"
    "run_machine i c1 = Some m"
  using assms(1) keeps_run_simps(1)
proof (cases rule: move_call_cases [of c t "\<lambda>r. r\<lparr>pr_state := t, pr_updated_at := now\<rparr>" i])
  case (refused q m c1)
  with assms(2) show ?thesis by (intro that [of m c1]) (simp_all add: transition_run_move transition_def)
qed (use assms(2,3) in \<open>auto simp: transition_def can_transition_def split: if_splits\<close>)

lemma transition_run_missing:
  "coord_ok c \<Longrightarrow> kv_get (run_key i) (co_kv c) = None \<Longrightarrow>
   run_machine i c = None \<and> transition_run i t now c = (Inl KeyError, c)"
  by (simp add: run_machine_def transition_run_def require_run_ok)

lemma observe_trigger:
  assumes ok: "coord_ok (ai_coord a)"
  shows "observe i a (rest_trigger_checkpoint k i stp now a) = trigger_checkpoint (run_machine i (ai_coord a))"
proof (cases "kv_get (run_key i) (co_kv (ai_coord a))")
  case None
  with transition_run_missing [OF ok None] show ?thesis
    by (simp add: observe_def rest_trigger_checkpoint_def trigger_checkpoint_def move_run_def)
next
  case (Some v)
  then obtain r where get: "kv_get (run_key i) (co_kv (ai_coord a)) = Some (RunVal r)" using coord_ok_run [OF ok] by fastforce
  show ?thesis
  proof (cases "CHECKPOINTING \<in> set (VALID_TRANSITIONS (pr_state r))")
    case True
    obtain m m' c2 where c2: "run_machine i (ai_coord a) = Some m" "transition CHECKPOINTING m = Inr m'"
      "transition_run i CHECKPOINTING now (ai_coord a) =
         (Inr (r\<lparr>pr_state := CHECKPOINTING, pr_updated_at := now\<rparr>), c2)" "coord_ok c2"
      "co_kv c2 = kv_put (run_key i) (RunVal (r\<lparr>pr_state := CHECKPOINTING, pr_updated_at := now\<rparr>)) (co_kv (ai_coord a))"
      "run_machine i c2 = Some m'"
      by (rule transition_run_valid [OF ok get True, of now]) blast
    have "require_run i c2 = Inr (r\<lparr>pr_state := CHECKPOINTING, pr_updated_at := now\<rparr>)"
      using c2(4,5) by (simp add: require_run_ok get_put)
    then obtain info c3 where c3: "coord_create_checkpoint k i (given stp (pr_current_step r)) [] now c2 = (Inr info, c3)"
      by (simp add: coord_create_checkpoint_def Let_def)
    with run_machine_create_checkpoint [OF c2(4), of i k i "given stp (pr_current_step r)" "[]" now] c2 show ?thesis
      by (simp add: observe_def rest_trigger_checkpoint_def trigger_checkpoint_def move_run_def)
  next
    case False
    show ?thesis
      by (rule transition_run_invalid [OF ok get False, of now])
        (simp add: observe_def rest_trigger_checkpoint_def trigger_checkpoint_def move_run_def)
  qed
qed

lemma observe_resumed:
  assumes "transition_run i t now (ai_coord a) = (Inr status, c2)" "require_run i (ai_coord a) = Inr r"
    "resume_call r now (ai_coord a) = transition_run i t now (ai_coord a)"
  shows "observe i a (rest_resume_run i now a) = (200, run_machine i c2, [''run_resumed''])"
  using assms by (simp add: observe_def rest_resume_run_def Let_def)

lemma observe_resume_stored:
  assumes ok: "coord_ok (ai_coord a)" and get: "kv_get (run_key i) (co_kv (ai_coord a)) = Some (RunVal r)"
  shows "observe i a (rest_resume_run i now a) = resume_run (run_machine i (ai_coord a))"
proof -
  have req: "require_run i (ai_coord a) = Inr r" using ok get by (simp add: require_run_ok)
  have id: "pr_run_id r = i" by (rule require_run_id [OF ok req])
  obtain m where m: "run_machine i (ai_coord a) = Some m" "fsm_state m = pr_state r"
    using run_machine_state [OF ok get] by blast
  have valid: ?thesis
    if "t \<in> set (VALID_TRANSITIONS (pr_state r))"
      and "\<And>now. resume_call r now (ai_coord a) = transition_run i t now (ai_coord a)"
      and "\<And>m'. transition t m = Inr m' \<Longrightarrow> resume_run (Some m) = (200, Some m', [''run_resumed''])" for t
  proof (rule transition_run_valid [OF ok get that(1), of now])
    fix n m' c2 assume "run_machine i (ai_coord a) = Some n" "transition t n = Inr m'"
      "transition_run i t now (ai_coord a) = (Inr (r\<lparr>pr_state := t, pr_updated_at := now\<rparr>), c2)"
      "run_machine i c2 = Some m'"
    with observe_resumed [OF _ req that(2)] that(3) [of m'] m show ?thesis by simp
  qed
  consider "pr_state r = FAILED" | "pr_state r \<in> {RECOVERING, COMMITTED, CREATED, CHECKPOINTING}"
    | "pr_state r \<in> {RUNNING, CANCELLED, COMPLETED}"
    by (cases "pr_state r") auto
  then show ?thesis
  proof cases
    case 1
    then show ?thesis by (intro valid [of RECOVERING]) (simp_all add: resume_call_def id resume_run_def m)
  next
    case 2
    then show ?thesis by (intro valid [of RUNNING]) (auto simp: resume_call_def id resume_run_def m)
  next
    case 3
    then show ?thesis by (auto simp: resume_call_def resume_run_def m observe_def rest_resume_run_def req Let_def)
  qed
qed

lemma observe_resume:
  assumes ok: "coord_ok (ai_coord a)"
  shows "observe i a (rest_resume_run i now a) = resume_run (run_machine i (ai_coord a))"
proof (cases "kv_get (run_key i) (co_kv (ai_coord a))")
  case None
  with ok show ?thesis by (simp add: observe_def rest_resume_run_def require_run_ok run_machine_def resume_run_def)
next
  case (Some v)
  then obtain r where "kv_get (run_key i) (co_kv (ai_coord a)) = Some (RunVal r)" using coord_ok_run [OF ok] by fastforce
  with ok show ?thesis by (rule observe_resume_stored)
qed

section \<open>Interleaved requests\<close>

lemma find_SomeD: "find P xs = Some x \<Longrightarrow> x \<in> set xs \<and> P x"
  by (induction xs) (auto split: if_splits)

text \<open>Requests that wait for the data plane.\<close>

datatype pending = Upload jsstring jsstring jsstring int | Commit jsstring py_checkpoint

fun committing :: "pending \<Rightarrow> jsstring set" where
  "committing (Upload i k sid r) = {}"
| "committing (Commit i cp) = {pk_checkpoint_id cp}"

definition committing_ids :: "pending list \<Rightarrow> jsstring set" where
  "committing_ids ps = (\<Union>p\<in>set ps. committing p)"

text \<open>
  What the monitors of the control plane do to the coordinator on their own (heartbeats, failure
  detection, recovery, retention).
\<close>

inductive background :: "coordinator \<Rightarrow> coordinator \<Rightarrow> bool" where
  transition_run: "background c (snd (transition_run i t now c))"
| set_run_error: "background c (snd (set_run_error i msg now c))"
| update_run_step: "background c (snd (update_run_step i n now c))"
| fail_checkpoint: "background c (snd (update_checkpoint_state k ''FAILED'' None None None now c))"
| delete_checkpoint: "background c (coord_delete_checkpoint k c)"
| metadata: "background c (snd (update_checkpoint_metadata k md merge c))"
| register_worker: "background c (snd (coord_register_worker w i rank h now c))"
| heartbeat: "background c (snd (coord_heartbeat i w n now c))"
| mark_worker_dead: "background c (snd (mark_worker_dead i w status c))"

text \<open>
  Steps of the server: a handler runs, or the part of one up to or after its call of the data
  plane. New identifiers are not in use. The supervisor of the workers keeps the times of its
  restarts. A restart of the server keeps the store only.
\<close>

inductive server_step :: "api \<times> pending list \<Rightarrow> api \<times> pending list \<Rightarrow> bool" where
  create_run: "kv_get (run_key i) (co_kv (ai_coord a)) = None \<Longrightarrow>
    server_step (a, ps) (snd (rest_create_run i config now a), ps)"
| start_run: "server_step (a, ps) (snd (rest_start_run i now a), ps)"
| cancel_run: "server_step (a, ps) (snd (rest_cancel_run i now a), ps)"
| complete_run: "server_step (a, ps) (snd (rest_complete_run i now a), ps)"
| fail_run: "server_step (a, ps) (snd (rest_fail_run i reason now a), ps)"
| resume_run: "server_step (a, ps) (snd (rest_resume_run i now a), ps)"
| trigger: "kv_get (checkpoint_key k) (co_kv (ai_coord a)) = None \<Longrightarrow> k \<notin> committing_ids ps \<Longrightarrow>
    server_step (a, ps) (snd (rest_trigger_checkpoint k i stp now a), ps)"
| upload_begin: "upload_check up i k len rank a = Ok r \<Longrightarrow> server_step (a, ps) (a, ps @ [Upload i k sid r])"
| upload_end: "Upload i k sid r \<in> set ps \<Longrightarrow>
    server_step (a, ps) (snd (upload_finish i k sid r res now a), remove1 (Upload i k sid r) ps)"
| commit_begin: "commit_begin up i a = Ok (cp, shards) \<Longrightarrow> server_step (a, ps) (a, ps @ [Commit i cp])"
| commit_end: "Commit i cp \<in> set ps \<Longrightarrow>
    server_step (a, ps) (snd (commit_finish i cp res d now a), remove1 (Commit i cp) ps)"
| monitor: "background (ai_coord a) c \<Longrightarrow> server_step (a, ps) (a\<lparr>ai_coord := c\<rparr>, ps)"
| throttle: "server_step (a, ps) (a\<lparr>ai_restart_attempts := xs\<rparr>, ps)"
| restart: "server_step (a, ps)
    (\<lparr>ai_coord = (ai_coord a)\<lparr>co_fsms := []\<rparr>, ai_shards = [], ai_durations = [], ai_commits = 0,
      ai_restart_attempts = [], ai_published = []\<rparr>, [])"

definition api_init :: api where
  "api_init = \<lparr>ai_coord = coord_empty, ai_shards = [], ai_durations = [], ai_commits = 0,
     ai_restart_attempts = [], ai_published = []\<rparr>"

inductive server_reachable :: "api \<times> pending list \<Rightarrow> bool" where
  init: "server_reachable (api_init, [])"
| step: "server_reachable s \<Longrightarrow> server_step s t \<Longrightarrow> server_reachable t"

text \<open>The invariant of the stored checkpoints, given the identifiers that are being committed.\<close>

definition checkpoint_ok :: "py_checkpoint \<Rightarrow> bool" where
  "checkpoint_ok x =
     (pk_state x \<in> {''PENDING'', ''IN_PROGRESS'', ''COMMITTED'', ''FAILED''}
      \<and> pk_num_shards x = int (length (pk_shard_ids x))
      \<and> (pk_state x \<in> {''IN_PROGRESS'', ''COMMITTED''} \<longrightarrow> pk_shard_ids x \<noteq> [])
      \<and> (pk_state x = ''COMMITTED'' \<longrightarrow> pk_committed_at x \<noteq> None))"

definition checkpoints_sound :: "coordinator \<Rightarrow> jsstring set \<Rightarrow> bool" where
  "checkpoints_sound c ids =
     (\<forall>k x. kv_get (checkpoint_key k) (co_kv c) = Some (CheckpointVal x) \<longrightarrow>
        checkpoint_ok x \<and> (k \<in> ids \<longrightarrow> pk_shard_ids x \<noteq> []))"

lemma sound_cong:
  "(\<And>k. kv_get (checkpoint_key k) (co_kv d) = kv_get (checkpoint_key k) (co_kv c)) \<Longrightarrow>
   checkpoints_sound c ids \<Longrightarrow> checkpoints_sound d ids"
  by (simp add: checkpoints_sound_def)

lemma sound_mono: "ids' \<subseteq> ids \<Longrightarrow> checkpoints_sound c ids \<Longrightarrow> checkpoints_sound c ids'"
  by (auto simp: checkpoints_sound_def)

lemma sound_fail:
  "checkpoints_sound c ids \<Longrightarrow> checkpoints_sound (snd (update_checkpoint_state k ''FAILED'' None None None now c)) ids"
  by (auto simp: checkpoints_sound_def update_state_checkpoint given_def checkpoint_ok_def get_checkpoint_iff
      split: sum.splits option.splits if_splits)

lemma sound_progress:
  "checkpoints_sound c ids \<Longrightarrow> l \<noteq> [] \<Longrightarrow>
   checkpoints_sound (snd (update_checkpoint_state k ''IN_PROGRESS'' (Some (int (length l))) b (Some (map f l)) now c)) ids"
  by (auto simp: checkpoints_sound_def update_state_checkpoint given_def checkpoint_ok_def get_checkpoint_iff
      split: sum.splits option.splits if_splits)

lemma sound_commit:
  "checkpoints_sound c ids \<Longrightarrow> k \<in> ids \<Longrightarrow>
   checkpoints_sound (snd (update_checkpoint_state k ''COMMITTED'' None None None now c)) ids"
  by (auto simp: checkpoints_sound_def update_state_checkpoint given_def checkpoint_ok_def get_checkpoint_iff
      split: sum.splits option.splits if_splits)

lemma sound_create:
  "checkpoints_sound c ids \<Longrightarrow> k \<notin> ids \<Longrightarrow>
   checkpoints_sound (snd (coord_create_checkpoint k i n md now c)) ids"
  by (auto simp: checkpoints_sound_def create_checkpoint_stored checkpoint_ok_def split: sum.splits if_splits)

definition good :: "coordinator \<Rightarrow> jsstring set \<Rightarrow> bool" where
  "good c ids = (coord_ok c \<and> checkpoints_sound c ids)"

lemma good_transition [simp]:
  "good c ids \<Longrightarrow> good (snd (transition_run i t now c)) ids"
  "good c ids \<Longrightarrow> good (snd (set_run_error i msg now c)) ids"
  by (auto simp: good_def intro: sound_cong [rotated])

lemma good_updates [simp]:
  "good c ids \<Longrightarrow> good (snd (update_checkpoint_state k ''FAILED'' None None None now c)) ids"
  "good c ids \<Longrightarrow> l \<noteq> [] \<Longrightarrow>
   good (snd (update_checkpoint_state k ''IN_PROGRESS'' (Some (int (length l))) b (Some (map f l)) now c)) ids"
  "good c ids \<Longrightarrow> k \<in> ids \<Longrightarrow> good (snd (update_checkpoint_state k ''COMMITTED'' None None None now c)) ids"
  "good c ids \<Longrightarrow> k \<notin> ids \<Longrightarrow> good (snd (coord_create_checkpoint k i n md now c)) ids"
  by (simp_all add: good_def coord_ok_checkpoint_updates coord_ok_create_checkpoint sound_fail sound_progress
      sound_commit sound_create)

lemma run_step_checkpoint:
  "kv_get (checkpoint_key k) (co_kv (snd (update_run_step i n now c))) = kv_get (checkpoint_key k) (co_kv c)"
  by (simp add: update_run_step_def persist_run_def Let_def get_put split: sum.split)

lemma worker_checkpoint:
  "kv_get (checkpoint_key k) (co_kv (snd (coord_register_worker w i rank h now c))) = kv_get (checkpoint_key k) (co_kv c)"
  "kv_get (checkpoint_key k) (co_kv (snd (update_worker i w f c))) = kv_get (checkpoint_key k) (co_kv c)"
  "kv_get (checkpoint_key k) (co_kv (snd (coord_heartbeat i w n now c))) = kv_get (checkpoint_key k) (co_kv c)"
  "kv_get (checkpoint_key k) (co_kv (snd (mark_worker_dead i w status c))) = kv_get (checkpoint_key k) (co_kv c)"
  by (simp_all add: coord_register_worker_def update_worker_def coord_heartbeat_def mark_worker_dead_def Let_def get_put
      split: option.split)

lemma sound_metadata:
  "checkpoints_sound c ids \<Longrightarrow> checkpoints_sound (snd (update_checkpoint_metadata k md merge c)) ids"
  by (auto simp: checkpoints_sound_def update_checkpoint_metadata_def Let_def get_put get_checkpoint_iff checkpoint_ok_def
      split: sum.splits option.splits if_splits)

lemma good_background: "background c d \<Longrightarrow> good c ids \<Longrightarrow> good d ids"
proof (induction rule: background.induct)
  case (update_run_step c i n now)
  then show ?case by (auto simp: good_def coord_ok_update_run_step run_step_checkpoint intro: sound_cong [rotated])
next
  case (delete_checkpoint c k)
  moreover have "checkpoints_sound (coord_delete_checkpoint k c) ids" if "checkpoints_sound c ids"
    using that by (auto simp: checkpoints_sound_def coord_delete_checkpoint_def get_del split: if_splits)
  ultimately show ?case by (simp add: good_def coord_ok_delete)
qed (auto simp: good_def coord_ok_checkpoint_updates coord_ok_workers sound_metadata sound_fail worker_checkpoint
      intro: sound_cong [rotated])

text \<open>The coordinator after each handler.\<close>

lemma coord_after:
  "ai_coord (snd (rest_create_run i config now a)) = snd (coord_create_run i now config (ai_coord a))"
  "ai_coord (snd (rest_transition t ev i now a)) = snd (transition_run i t now (ai_coord a))"
  "ai_coord (snd (rest_fail_run i reason now a)) = snd (set_run_error i reason now (ai_coord a))"
  by (simp_all add: rest_create_run_def rest_transition_def rest_fail_run_def split: prod.split sum.split)

lemma create_run_checkpoint:
  "kv_get (checkpoint_key k) (co_kv (snd (coord_create_run i now config c))) = kv_get (checkpoint_key k) (co_kv c)"
  by (simp add: coord_create_run_def persist_run_def Let_def get_put)

lemma good_create_run:
  "good c ids \<Longrightarrow> kv_get (run_key i) (co_kv c) = None \<Longrightarrow> good (snd (coord_create_run i now config c)) ids"
  by (auto simp: good_def coord_ok_create_run create_run_checkpoint intro: sound_cong [rotated])

lemma good_resume: "good (ai_coord a) ids \<Longrightarrow> good (ai_coord (snd (rest_resume_run i now a))) ids"
proof (cases "require_run i (ai_coord a)")
  case (Inr r)
  assume "good (ai_coord a) ids"
  then have "good (snd (resume_call r now (ai_coord a))) ids" by (simp add: resume_call_def)
  then show ?thesis by (auto simp: rest_resume_run_def Inr Let_def split: prod.split sum.split)
qed (simp add: rest_resume_run_def)

lemma good_trigger:
  assumes "good (ai_coord a) ids" "k \<notin> ids"
  shows "good (ai_coord (snd (rest_trigger_checkpoint k i stp now a))) ids"
proof -
  obtain res c where tr: "transition_run i CHECKPOINTING now (ai_coord a) = (res, c)" by fastforce
  with assms(1) have c: "good c ids" using good_transition(1) [of "ai_coord a" ids i CHECKPOINTING now] by simp
  show ?thesis
  proof (cases res)
    case (Inr status)
    obtain res' d where cr: "coord_create_checkpoint k i (given stp (pr_current_step status)) [] now c = (res', d)" by fastforce
    with good_updates(4) [OF c assms(2), of i "given stp (pr_current_step status)" "[]" now] have "good d ids" by simp
    with tr cr Inr show ?thesis by (simp add: rest_trigger_checkpoint_def split: sum.split)
  qed (use tr c in \<open>simp add: rest_trigger_checkpoint_def\<close>)
qed

lemma good_fail_with:
  assumes "good (ai_coord a) ids"
  shows "good (ai_coord (snd (fail_with i k msg now a))) ids"
proof -
  obtain res c where up: "update_checkpoint_state k ''FAILED'' None None None now (ai_coord a) = (res, c)" by fastforce
  with good_updates(1) [OF assms, of k now] have c: "good c ids" by simp
  obtain res' d where er: "set_run_error i (js msg) now c = (res', d)" by fastforce
  with good_transition(2) [OF c, of i "js msg" now] have "good d ids" by simp
  with up er c show ?thesis by (simp add: fail_with_def abort_failed_checkpoint_def)
qed

lemma good_upload:
  assumes "good (ai_coord a) ids"
  shows "good (ai_coord (snd (upload_finish i k sid r res now a))) ids"
proof (cases res)
  case None
  then show ?thesis using assms by (simp add: upload_finish_def good_fail_with)
next
  case (Some w)
  show ?thesis
  proof (cases "wr_success w")
    case True
    let ?l = "shards_of k a @ [new_shard i k sid r w]"
    have "ai_coord (snd (upload_finish i k sid r res now a)) =
        snd (update_checkpoint_state k ''IN_PROGRESS'' (Some (int (length ?l))) (Some (sum_list (map sh_size_bytes ?l)))
          (Some (map sh_shard_id ?l)) now (ai_coord a))"
      by (simp add: upload_finish_def Some True Let_def split: prod.split sum.split)
    also have "good \<dots> ids" using assms by (rule good_updates(2)) simp
    finally show ?thesis .
  qed (use assms Some in \<open>simp add: upload_finish_def good_fail_with\<close>)
qed

lemma good_commit:
  assumes "good (ai_coord a) ids" "pk_checkpoint_id cp \<in> ids"
  shows "good (ai_coord (snd (commit_finish i cp res d now a))) ids"
proof (cases "res = Some True")
  case True
  obtain r1 c1 where c1: "update_checkpoint_state (pk_checkpoint_id cp) ''COMMITTED'' None None None now (ai_coord a) = (r1, c1)"
    by fastforce
  with good_updates(3) [OF assms, of now] have g1: "good c1 ids" by simp
  obtain r2 c2 where c2: "transition_run i COMMITTED now c1 = (r2, c2)" by fastforce
  with good_transition(1) [OF g1, of i COMMITTED now] have g2: "good c2 ids" by simp
  obtain r3 c3 where c3: "transition_run i RUNNING now c2 = (r3, c3)" by fastforce
  with good_transition(1) [OF g2, of i RUNNING now] have "good c3 ids" by simp
  with True c1 c2 c3 g1 g2 show ?thesis by (simp add: commit_finish_def Let_def split: sum.split)
next
  case False
  then have "res = None \<or> res = Some False" by (cases res) auto
  then show ?thesis using assms(1) by (auto simp: commit_finish_def good_fail_with)
qed

text \<open>A checkpoint that is picked for a commit has shards.\<close>

lemma commit_begin_stored:
  assumes "coord_ok (ai_coord a)" "commit_begin up i a = Ok (cp, shs)"
  shows "coord_get_checkpoint (pk_checkpoint_id cp) (ai_coord a) = Inr (Some cp) \<and> pk_run_id cp = i
    \<and> pk_state cp = ''IN_PROGRESS'' \<and> shs = shards_of (pk_checkpoint_id cp) a \<and> shs \<noteq> []"
proof -
  obtain ks where ks: "coord_list_checkpoints i (ai_coord a) = Inr ks"
    "set ks = {k. pk_run_id k = i \<and> (\<exists>j. coord_get_checkpoint j (ai_coord a) = Inr (Some k))}"
    using list_checkpoints_ok [OF assms(1), of i] by blast
  with assms(2) have f: "find (\<lambda>cp. pk_state cp = ''IN_PROGRESS'') (rev ks) = Some cp"
    "shs = shards_of (pk_checkpoint_id cp) a" "shs \<noteq> []"
    by (auto simp: commit_begin_def split: sum.splits option.splits if_splits)
  from find_SomeD [OF f(1)] have "cp \<in> set ks" "pk_state cp = ''IN_PROGRESS''" by simp_all
  with ks(2) f get_checkpoint_id [OF assms(1)] show ?thesis by fastforce
qed

lemma good_committing:
  assumes "good (ai_coord a) ids" "commit_begin up i a = Ok (cp, shs)"
  shows "good (ai_coord a) (insert (pk_checkpoint_id cp) ids)"
proof -
  have "kv_get (checkpoint_key (pk_checkpoint_id cp)) (co_kv (ai_coord a)) = Some (CheckpointVal cp)"
    "pk_state cp = ''IN_PROGRESS''"
    using commit_begin_stored [OF _ assms(2)] assms(1) by (simp_all add: good_def get_checkpoint_iff)
  then show ?thesis using assms(1) by (auto simp: good_def checkpoints_sound_def checkpoint_ok_def)
qed

lemma committing_simps [simp]:
  "committing_ids (ps @ [p]) = committing p \<union> committing_ids ps"
  by (auto simp: committing_ids_def)

lemma committing_remove: "committing_ids (remove1 p ps) \<subseteq> committing_ids ps"
  using set_remove1_subset [of p ps] by (auto simp: committing_ids_def)

lemma committing_mem: "Commit i cp \<in> set ps \<Longrightarrow> pk_checkpoint_id cp \<in> committing_ids ps"
  by (force simp: committing_ids_def)

lemma good_mono: "ids' \<subseteq> ids \<Longrightarrow> good c ids \<Longrightarrow> good c ids'"
  by (auto simp: good_def intro: sound_mono)

lemma server_step_good:
  "server_step s t \<Longrightarrow> good (ai_coord (fst s)) (committing_ids (snd s)) \<Longrightarrow> good (ai_coord (fst t)) (committing_ids (snd t))"
proof (induction rule: server_step.induct)
  case (upload_end i k sid r ps a res now)
  then show ?case by (auto intro: good_mono [OF committing_remove] good_upload)
next
  case (commit_end i cp ps a res d now)
  then show ?case by (auto intro: good_mono [OF committing_remove] good_commit committing_mem)
next
  case (restart a ps)
  then show ?case by (auto simp: good_def coord_ok_def checkpoints_sound_def committing_ids_def)
qed (auto simp: coord_after rest_start_run_def rest_cancel_run_def rest_complete_run_def good_create_run good_resume
      good_trigger good_background good_committing)

lemma server_reachable_good: "server_reachable s \<Longrightarrow> good (ai_coord (fst s)) (committing_ids (snd s))"
proof (induction rule: server_reachable.induct)
  case init
  show ?case
    using coord_reachable_ok [OF coord_reachable.init]
    by (simp add: api_init_def good_def checkpoints_sound_def coord_empty_def kv_get_def)
qed (rule server_step_good)

end
