(* ===== verification/CheckpointProtocol.thy ===== *)
theory CheckpointProtocol
  imports CheckpointApi
begin

text \<open>
  Properties of the checkpoint protocol of theory \<open>CheckpointApi\<close>: a checkpoint from its trigger to its
  commit, what a failure leaves behind, and what holds however requests interleave.
\<close>

section \<open>The protocol from trigger to commit\<close>

text \<open>An upload: the shard's name, the length of the body, the rank and what the data plane answers.\<close>

type_synonym upload = "jsstring \<times> nat \<times> int \<times> write_result"

definition upload_answer :: "upload \<Rightarrow> write_result" where
  "upload_answer u = snd (snd (snd u))"

definition shard_of_upload :: "jsstring \<Rightarrow> jsstring \<Rightarrow> upload \<Rightarrow> shard_info" where
  "shard_of_upload i k = (\<lambda>(sid, len, rank, w). new_shard i k sid rank w)"

definition upload_bytes :: "upload list \<Rightarrow> int" where
  "upload_bytes us = sum_list (map (\<lambda>u. wr_total_bytes (upload_answer u)) us)"

definition do_upload :: "jsstring \<Rightarrow> jsstring \<Rightarrow> int \<Rightarrow> upload \<Rightarrow> api \<Rightarrow> api" where
  "do_upload i k now = (\<lambda>(sid, len, rank, w) a. snd (rest_upload_shard True i k sid len (Some rank) (Some w) now a))"

text \<open>The checkpoint \<open>k\<close> of run \<open>i\<close> at step \<open>n\<close>, triggered in state \<open>a0\<close>, after the uploads \<open>us\<close>.\<close>

definition ckpt_uploaded :: "jsstring \<Rightarrow> int \<Rightarrow> upload list \<Rightarrow> py_checkpoint \<Rightarrow> bool" where
  "ckpt_uploaded i n us x =
     (pk_run_id x = i \<and> pk_step x = n \<and> pk_shard_ids x = map fst us \<and> pk_num_shards x = int (length us)
      \<and> pk_total_bytes x = upload_bytes us \<and> pk_committed_at x = None
      \<and> pk_state x = (if us = [] then ''PENDING'' else ''IN_PROGRESS''))"

definition uploading :: "jsstring \<Rightarrow> jsstring \<Rightarrow> int \<Rightarrow> api \<Rightarrow> upload list \<Rightarrow> api \<Rightarrow> bool" where
  "uploading i k n a0 us a =
     (coord_ok (ai_coord a)
      \<and> (\<exists>r. kv_get (run_key i) (co_kv (ai_coord a)) = Some (RunVal r) \<and> pr_state r = CHECKPOINTING
           \<and> pr_last_checkpoint_id r = Some k)
      \<and> (\<exists>x. kv_get (checkpoint_key k) (co_kv (ai_coord a)) = Some (CheckpointVal x) \<and> ckpt_uploaded i n us x)
      \<and> (\<forall>j. j \<noteq> k \<longrightarrow> kv_get (checkpoint_key j) (co_kv (ai_coord a)) = kv_get (checkpoint_key j) (co_kv (ai_coord a0)))
      \<and> shards_of k a = map (shard_of_upload i k) us
      \<and> ai_commits a = ai_commits a0 \<and> ai_published a = ai_published a0 @ [(i, ''checkpoint_started'')])"

lemma trigger_uploading:
  assumes ok: "coord_ok (ai_coord a)" and get: "kv_get (run_key i) (co_kv (ai_coord a)) = Some (RunVal r)"
    and run: "pr_state r = RUNNING" and none: "shards_of k a = []"
  shows "uploading i k (given stp (pr_current_step r)) a [] (snd (rest_trigger_checkpoint k i stp now a))"
proof -
  have "CHECKPOINTING \<in> set (VALID_TRANSITIONS (pr_state r))" by (simp add: run)
  from transition_run_valid [OF ok get this, of now] obtain m m' c2 where
    c2: "transition_run i CHECKPOINTING now (ai_coord a) = (Inr (r\<lparr>pr_state := CHECKPOINTING, pr_updated_at := now\<rparr>), c2)"
      "coord_ok c2"
      "co_kv c2 = kv_put (run_key i) (RunVal (r\<lparr>pr_state := CHECKPOINTING, pr_updated_at := now\<rparr>)) (co_kv (ai_coord a))"
    by blast
  let ?r = "r\<lparr>pr_state := CHECKPOINTING, pr_updated_at := now\<rparr>"
  have req: "require_run i c2 = Inr ?r" using c2(2,3) by (simp add: require_run_ok get_put)
  have id: "pr_run_id r = i" using require_run_id [OF c2(2) req] by simp
  obtain info c3 where c3: "coord_create_checkpoint k i (given stp (pr_current_step r)) [] now c2 = (Inr info, c3)"
    using req by (simp add: coord_create_checkpoint_def Let_def)
  have after: "snd (rest_trigger_checkpoint k i stp now a) =
      publish_event i ''checkpoint_started'' (a\<lparr>ai_coord := c3\<rparr>)"
    using c2(1) c3 by (simp add: rest_trigger_checkpoint_def)
  have "coord_ok c3" using coord_ok_create_checkpoint [OF c2(2), of k i "given stp (pr_current_step r)" "[]" now] c3 by simp
  moreover have "\<exists>r. kv_get (run_key i) (co_kv c3) = Some (RunVal r) \<and> pr_state r = CHECKPOINTING
      \<and> pr_last_checkpoint_id r = Some k"
    using c3 req id by (auto simp: coord_create_checkpoint_def Let_def persist_run_def get_put)
  moreover have "kv_get (checkpoint_key j) (co_kv c3) =
      (if j = k then Some (CheckpointVal \<lparr>pk_checkpoint_id = k, pk_run_id = i, pk_step = given stp (pr_current_step r),
         pk_state = ''PENDING'', pk_num_shards = 0, pk_total_bytes = 0, pk_created_at = now, pk_committed_at = None,
         pk_shard_ids = [], pk_metadata = []\<rparr>)
       else kv_get (checkpoint_key j) (co_kv (ai_coord a)))" for j
    using create_checkpoint_stored [of j k i "given stp (pr_current_step r)" "[]" now c2] c3 req
    by (simp add: c2(3) get_put)
  ultimately show ?thesis
    using none by (simp add: uploading_def after ckpt_uploaded_def upload_bytes_def shards_of_def)
qed

definition upload_accepted :: "upload \<Rightarrow> bool" where
  "upload_accepted u = (0 < fst (snd u) \<and> wr_success (upload_answer u))"

lemma upload_uploading:
  assumes up: "uploading i k n a0 us a" and acc: "upload_accepted u"
  shows "uploading i k n a0 (us @ [u]) (do_upload i k now u a)"
proof -
  obtain sid len rank w where u: "u = (sid, len, rank, w)" by (cases u)
  obtain x where x: "kv_get (checkpoint_key k) (co_kv (ai_coord a)) = Some (CheckpointVal x)" "ckpt_uploaded i n us x"
    and ok: "coord_ok (ai_coord a)" and shs: "shards_of k a = map (shard_of_upload i k) us"
    using up by (auto simp: uploading_def)
  have getx: "coord_get_checkpoint k (ai_coord a) = Inr (Some x)" using x(1) by (simp add: get_checkpoint_iff)
  let ?l = "map (shard_of_upload i k) (us @ [u])"
  let ?upd = "update_checkpoint_state k ''IN_PROGRESS'' (Some (int (length ?l))) (Some (sum_list (map sh_size_bytes ?l)))
      (Some (map sh_shard_id ?l)) now (ai_coord a)"
  have l: "shards_of k a @ [new_shard i k sid rank w] = ?l" by (simp add: shs shard_of_upload_def u)
  obtain info c where c: "?upd = (Inr info, c)" using getx by (simp add: update_checkpoint_state_def Let_def)
  have "upload_check True i k len (Some rank) a = Ok rank"
    using acc x(2) u getx by (simp add: upload_check_def ckpt_uploaded_def upload_accepted_def)
  then have after: "do_upload i k now u a = a\<lparr>ai_shards := AList.update k ?l (ai_shards a), ai_coord := c\<rparr>"
    using acc c unfolding do_upload_def rest_upload_shard_def upload_finish_def u
    by (simp add: l [unfolded u] upload_accepted_def upload_answer_def u)
  have sizes: "sum_list (map sh_size_bytes ?l) = upload_bytes (us @ [u])" "map sh_shard_id ?l = map fst (us @ [u])"
    by (induction us) (auto simp: upload_bytes_def shard_of_upload_def new_shard_def upload_answer_def u)
  have "coord_ok c" using coord_ok_checkpoint_updates(1) [OF ok] c by (metis snd_conv)
  moreover have "kv_get (run_key i) (co_kv c) = kv_get (run_key i) (co_kv (ai_coord a))"
    using update_state_run(1) c by (metis snd_conv)
  moreover have "kv_get (checkpoint_key j) (co_kv c) = kv_get (checkpoint_key j) (co_kv (ai_coord a))" if "j \<noteq> k" for j
    using update_state_other [OF that] c by (metis snd_conv)
  moreover have "kv_get (checkpoint_key k) (co_kv c) = Some (CheckpointVal (x\<lparr>pk_state := ''IN_PROGRESS'',
      pk_num_shards := int (length (us @ [u])), pk_total_bytes := upload_bytes (us @ [u]), pk_shard_ids := map fst (us @ [u])\<rparr>))"
    using c getx unfolding sizes by (auto simp: update_checkpoint_state_def Let_def given_def get_put)
  moreover have "shards_of k (a\<lparr>ai_shards := AList.update k ?l (ai_shards a), ai_coord := c\<rparr>) = ?l"
    by (simp add: shards_of_def AList.update_conv')
  ultimately show ?thesis
    using up x(2) unfolding uploading_def after by (simp add: ckpt_uploaded_def)
qed

lemma uploads_uploading:
  "uploading i k n a0 vs a \<Longrightarrow> list_all upload_accepted us \<Longrightarrow>
   uploading i k n a0 (vs @ us) (fold (do_upload i k now) us a)"
proof (induction us arbitrary: vs a)
  case (Cons u us)
  from Cons.IH [OF upload_uploading [OF Cons.prems(1)]] Cons.prems(2) show ?case by simp
qed simp

lemma find_unique:
  assumes "x \<in> set xs" "P x" "\<And>y. y \<in> set xs \<Longrightarrow> P y \<Longrightarrow> y = x"
  shows "find P xs = Some x"
proof (cases "find P xs")
  case None
  with assms(1,2) show ?thesis by (simp add: find_None_iff)
next
  case (Some y)
  with find_SomeD [OF Some] assms(3) show ?thesis by blast
qed

text \<open>With no other checkpoint in progress, the commit picks the one that was uploaded.\<close>

lemma commit_begin_uploaded:
  assumes up: "uploading i k n a0 us a" and ne: "us \<noteq> []"
    and only: "\<And>j x. kv_get (checkpoint_key j) (co_kv (ai_coord a0)) = Some (CheckpointVal x) \<Longrightarrow> pk_run_id x = i \<Longrightarrow>
      pk_state x \<noteq> ''IN_PROGRESS''"
  obtains x where "commit_begin True i a = Ok (x, map (shard_of_upload i k) us)" "pk_checkpoint_id x = k"
    "kv_get (checkpoint_key k) (co_kv (ai_coord a)) = Some (CheckpointVal x)" "ckpt_uploaded i n us x"
proof -
  obtain r x where ok: "coord_ok (ai_coord a)" and r: "kv_get (run_key i) (co_kv (ai_coord a)) = Some (RunVal r)"
    and x: "kv_get (checkpoint_key k) (co_kv (ai_coord a)) = Some (CheckpointVal x)" "ckpt_uploaded i n us x"
    and others: "\<And>j. j \<noteq> k \<Longrightarrow> kv_get (checkpoint_key j) (co_kv (ai_coord a)) = kv_get (checkpoint_key j) (co_kv (ai_coord a0))"
    and shs: "shards_of k a = map (shard_of_upload i k) us"
    using up by (auto simp: uploading_def)
  obtain ks where ks: "coord_list_checkpoints i (ai_coord a) = Inr ks"
    "set ks = {y. pk_run_id y = i \<and> (\<exists>j. coord_get_checkpoint j (ai_coord a) = Inr (Some y))}"
    using list_checkpoints_ok [OF ok, of i] by blast
  have id: "pk_checkpoint_id x = k" using coord_ok_checkpoint [OF ok x(1)] by simp
  have "find (\<lambda>cp. pk_state cp = ''IN_PROGRESS'') (rev ks) = Some x"
  proof (rule find_unique)
    show "x \<in> set (rev ks)" using x by (auto simp: ks(2) get_checkpoint_iff ckpt_uploaded_def)
    show "pk_state x = ''IN_PROGRESS''" using x(2) ne by (simp add: ckpt_uploaded_def)
    fix y assume "y \<in> set (rev ks)" and y: "pk_state y = ''IN_PROGRESS''"
    then obtain j where j: "pk_run_id y = i" "kv_get (checkpoint_key j) (co_kv (ai_coord a)) = Some (CheckpointVal y)"
      by (auto simp: ks(2) get_checkpoint_iff)
    show "y = x"
    proof (cases "j = k")
      case False
      with j others [OF False] only [of j y] y show ?thesis by simp
    qed (use j x in simp)
  qed
  moreover have "coord_get_run i (ai_coord a) = Inr (Some r)" using r by (simp add: get_run_iff)
  ultimately have "commit_begin True i a = Ok (x, map (shard_of_upload i k) us)"
    using ne by (simp add: commit_begin_def ks(1) id shs)
  then show ?thesis using id x by (rule that)
qed

lemma commit_finish_uploaded:
  assumes up: "uploading i k n a0 us a"
    and x: "kv_get (checkpoint_key k) (co_kv (ai_coord a)) = Some (CheckpointVal x)" "pk_checkpoint_id x = k"
      "pk_committed_at x = None"
  obtains status c where
    "commit_finish i x (Some True) d now a = (Ok status, publish_event i ''checkpoint_committed''
       (a\<lparr>ai_durations := ai_durations a @ [d], ai_shards := AList.delete k (ai_shards a), ai_coord := c,
          ai_commits := ai_commits a + 1\<rparr>))"
    "pr_state status = RUNNING" "pr_last_checkpoint_id status = Some k" "coord_get_run i c = Inr (Some status)"
    "coord_get_checkpoint k c = Inr (Some (x\<lparr>pk_state := ''COMMITTED'', pk_committed_at := Some now\<rparr>))"
proof -
  obtain r where ok: "coord_ok (ai_coord a)" and r: "kv_get (run_key i) (co_kv (ai_coord a)) = Some (RunVal r)"
    "pr_state r = CHECKPOINTING" "pr_last_checkpoint_id r = Some k"
    using up by (auto simp: uploading_def)
  have getx: "coord_get_checkpoint k (ai_coord a) = Inr (Some x)" using x(1) by (simp add: get_checkpoint_iff)
  let ?x = "x\<lparr>pk_state := ''COMMITTED'', pk_committed_at := Some now\<rparr>"
  obtain c1 where c1: "update_checkpoint_state k ''COMMITTED'' None None None now (ai_coord a) = (Inr ?x, c1)"
    "kv_get (checkpoint_key k) (co_kv c1) = Some (CheckpointVal ?x)"
    "kv_get (run_key i) (co_kv c1) = Some (RunVal r)"
    using getx x(3) r(1) by (simp add: update_checkpoint_state_def Let_def given_def get_put)
  have ok1: "coord_ok c1" using coord_ok_checkpoint_updates(1) [OF ok] c1(1) by (metis snd_conv)
  let ?r1 = "r\<lparr>pr_state := COMMITTED, pr_updated_at := now\<rparr>"
  have "COMMITTED \<in> set (VALID_TRANSITIONS (pr_state r))" by (simp add: r)
  from transition_run_valid [OF ok1 c1(3) this, of now] obtain c2 where
    c2: "transition_run i COMMITTED now c1 = (Inr ?r1, c2)" "coord_ok c2" "co_kv c2 = kv_put (run_key i) (RunVal ?r1) (co_kv c1)"
    by blast
  let ?r2 = "?r1\<lparr>pr_state := RUNNING, pr_updated_at := now\<rparr>"
  have "kv_get (run_key i) (co_kv c2) = Some (RunVal ?r1)" "RUNNING \<in> set (VALID_TRANSITIONS (pr_state ?r1))"
    by (simp_all add: c2(3) get_put)
  from transition_run_valid [OF c2(2) this, of now] obtain c3 where
    c3: "transition_run i RUNNING now c2 = (Inr ?r2, c3)" "co_kv c3 = kv_put (run_key i) (RunVal ?r2) (co_kv c2)"
    by blast
  show ?thesis
  proof (rule that [of ?r2 c3])
    show "coord_get_checkpoint k c3 = Inr (Some ?x)" using c1(2) by (simp add: get_checkpoint_iff c3(2) c2(3) get_put)
  qed (use c1(1) c2(1) c3 r x(2) in \<open>simp_all add: commit_finish_def Let_def get_run_iff get_put\<close>)
qed

section \<open>A failed checkpoint\<close>

lemma fail_with_effect:
  assumes ok: "coord_ok (ai_coord a)" and run: "kv_get (run_key i) (co_kv (ai_coord a)) = Some (RunVal r)"
    and x: "kv_get (checkpoint_key k) (co_kv (ai_coord a)) = Some (CheckpointVal x)"
  shows "fst (fail_with i k msg now a :: 'a http \<times> api) = HttpError 502
    \<and> kv_get (checkpoint_key k) (co_kv (ai_coord (snd (fail_with i k msg now a :: 'a http \<times> api)))) =
        Some (CheckpointVal (x\<lparr>pk_state := ''FAILED''\<rparr>))
    \<and> kv_get (run_key i) (co_kv (ai_coord (snd (fail_with i k msg now a :: 'a http \<times> api)))) =
        Some (RunVal (if FAILED \<in> set (VALID_TRANSITIONS (pr_state r))
          then r\<lparr>pr_state := FAILED, pr_error_message := Some (js msg), pr_updated_at := now\<rparr> else r))
    \<and> shards_of k (snd (fail_with i k msg now a :: 'a http \<times> api)) = []"
proof -
  have getx: "coord_get_checkpoint k (ai_coord a) = Inr (Some x)" using x by (simp add: get_checkpoint_iff)
  obtain y c where c: "update_checkpoint_state k ''FAILED'' None None None now (ai_coord a) = (Inr y, c)"
    "kv_get (checkpoint_key k) (co_kv c) = Some (CheckpointVal (x\<lparr>pk_state := ''FAILED''\<rparr>))"
    "kv_get (run_key i) (co_kv c) = Some (RunVal r)"
    using getx run by (simp add: update_checkpoint_state_def Let_def given_def get_put)
  have okc: "coord_ok c" using coord_ok_checkpoint_updates(1) [OF ok] c(1) by (metis snd_conv)
  let ?f = "\<lambda>r. r\<lparr>pr_state := FAILED, pr_error_message := Some (js msg), pr_updated_at := now\<rparr>"
  show ?thesis
    using okc keeps_run_simps(2)
  proof (cases rule: move_call_cases [of c FAILED ?f i])
    case (refused q m c1)
    then have "FAILED \<notin> set (VALID_TRANSITIONS (pr_state r))" using c(3) by (simp add: can_transition_def)
    with refused c show ?thesis
      by (simp add: fail_with_def abort_failed_checkpoint_def set_run_error_move shards_of_def AList.delete_conv')
  next
    case (moved q m m' c2)
    then have "FAILED \<in> set (VALID_TRANSITIONS (pr_state r))"
      using c(3) by (auto simp: transition_def can_transition_def split: if_splits)
    with moved c show ?thesis
      by (simp add: fail_with_def abort_failed_checkpoint_def set_run_error_move shards_of_def AList.delete_conv' get_put)
  qed (use c(3) in simp)
qed

section \<open>Sample states\<close>

definition sample_api :: api where
  "sample_api = snd (rest_start_run (js ''r1'') 1 (snd (rest_create_run (js ''r1'') sample_config 0 api_init)))"

definition sample_write :: write_result where
  "sample_write = \<lparr>wr_success = True, wr_shard_id = js ''rank-0'', wr_total_bytes = 4096, wr_sha256_checksum = js ''ab12''\<rparr>"

definition sample_uploads :: "upload list" where
  "sample_uploads = [(js ''rank-0'', 4096, 0, sample_write), (js ''rank-1'', 4096, 1, sample_write)]"

lemma sample_created_reachable: "server_reachable (snd (rest_create_run (js ''r1'') sample_config 0 api_init), [])"
proof (rule server_reachable.step [OF server_reachable.init])
  show "server_step (api_init, []) (snd (rest_create_run (js ''r1'') sample_config 0 api_init), [])"
    by (rule server_step.create_run) (simp add: api_init_def coord_empty_def kv_get_def)
qed

lemma sample_api_reachable: "server_reachable (sample_api, [])"
  unfolding sample_api_def by (rule server_reachable.step [OF sample_created_reachable]) (rule server_step.start_run)

lemma server_reachable_ok: "server_reachable (a, ps) \<Longrightarrow> coord_ok (ai_coord a)"
  using server_reachable_good [of "(a, ps)"] by (simp add: good_def)

lemma sample_created_run:
  "\<exists>r. kv_get (run_key (js ''r1'')) (co_kv (ai_coord (snd (rest_create_run (js ''r1'') sample_config 0 api_init)))) =
     Some (RunVal r) \<and> pr_state r = CREATED"
  by (simp add: coord_after coord_create_run_def Let_def persist_run_def get_put)

lemma sample_api_run: "\<exists>r. kv_get (run_key (js ''r1'')) (co_kv (ai_coord sample_api)) = Some (RunVal r) \<and> pr_state r = RUNNING"
proof -
  let ?a = "snd (rest_create_run (js ''r1'') sample_config 0 api_init)"
  obtain r where r: "kv_get (run_key (js ''r1'')) (co_kv (ai_coord ?a)) = Some (RunVal r)" "pr_state r = CREATED"
    using sample_created_run by blast
  have "RUNNING \<in> set (VALID_TRANSITIONS (pr_state r))" by (simp add: r(2))
  from transition_run_valid [OF server_reachable_ok [OF sample_created_reachable] r(1) this, of 1] obtain c where
    "transition_run (js ''r1'') RUNNING 1 (ai_coord ?a) = (Inr (r\<lparr>pr_state := RUNNING, pr_updated_at := 1\<rparr>), c)"
    "co_kv c = kv_put (run_key (js ''r1'')) (RunVal (r\<lparr>pr_state := RUNNING, pr_updated_at := 1\<rparr>)) (co_kv (ai_coord ?a))"
    by blast
  then show ?thesis by (simp add: sample_api_def rest_start_run_def coord_after get_put)
qed

lemma sample_api_checkpoints: "kv_get (checkpoint_key k) (co_kv (ai_coord sample_api)) = None"
proof -
  have "kv_get (checkpoint_key k) (co_kv (ai_coord (snd (rest_create_run (js ''r1'') sample_config 0 api_init)))) = None"
    unfolding coord_after create_run_checkpoint by (simp add: api_init_def coord_empty_def kv_get_def)
  then show ?thesis
    using server_reachable_ok [OF sample_created_reachable]
    by (simp add: sample_api_def rest_start_run_def coord_after(2))
qed

lemma sample_api_shards: "ai_shards sample_api = []"
  by (simp add: sample_api_def rest_start_run_def rest_transition_def rest_create_run_def api_init_def split: prod.split sum.split)

section \<open>Properties\<close>

text \<open>
  C10. The run actions implement the state machine: in every reachable state of the server the
  status code, the new state machine of the run and the published events of each action are those of
  the state machine of the run (theory \<open>ControlPlane\<close>), which depend on its current state only.
\<close>

theorem rest_refines_lifecycle:
  assumes "server_reachable (a, ps)"
  shows "observe i a (rest_start_run i now a) = start_run (run_machine i (ai_coord a))
    \<and> observe i a (rest_cancel_run i now a) = cancel_run (run_machine i (ai_coord a))
    \<and> observe i a (rest_complete_run i now a) = complete_run (run_machine i (ai_coord a))
    \<and> observe i a (rest_fail_run i reason now a) = fail_run (run_machine i (ai_coord a))
    \<and> observe i a (rest_trigger_checkpoint k i stp now a) = trigger_checkpoint (run_machine i (ai_coord a))
    \<and> observe i a (rest_resume_run i now a) = resume_run (run_machine i (ai_coord a))"
  using server_reachable_ok [OF assms]
  by (simp add: rest_start_run_def rest_cancel_run_def rest_complete_run_def start_run_def cancel_run_def
      complete_run_def observe_transition observe_fail observe_trigger observe_resume)

theorem rest_refines_lifecycle_witness:
  "observe (js ''r1'') sample_api (rest_cancel_run (js ''r1'') 2 sample_api) =
     cancel_run (run_machine (js ''r1'') (ai_coord sample_api))"
  using rest_refines_lifecycle [OF sample_api_reachable] by blast

text \<open>
  C8. A checkpoint goes through: for a running run without a checkpoint in progress, triggering a
  checkpoint, uploading shards that the data plane accepts (at least one) and committing leaves the
  run running again with this checkpoint as its last one; the checkpoint is committed at the
  requested step with exactly the uploaded shards in their order, their number and their total
  size, its pending shard list is dropped, and the two events of the protocol are published.
\<close>

theorem checkpoint_protocol_commits:
  fixes now :: int and stp :: "int option"
  assumes "server_reachable (a, ps)" and "coord_get_run i (ai_coord a) = Inr (Some r)" and "pr_state r = RUNNING"
    and "shards_of k a = []"
    and "\<And>j x. coord_get_checkpoint j (ai_coord a) = Inr (Some x) \<Longrightarrow> pk_run_id x = i \<Longrightarrow> pk_state x \<noteq> ''IN_PROGRESS''"
    and "us \<noteq> []" and "list_all upload_accepted us"
  defines "b \<equiv> fold (do_upload i k now) us (snd (rest_trigger_checkpoint k i stp now a))"
  shows "\<exists>status x. fst (rest_commit_run True i (Some True) d now b) = Ok status
    \<and> pr_state status = RUNNING \<and> pr_last_checkpoint_id status = Some k
    \<and> coord_get_run i (ai_coord (snd (rest_commit_run True i (Some True) d now b))) = Inr (Some status)
    \<and> coord_get_checkpoint k (ai_coord (snd (rest_commit_run True i (Some True) d now b))) = Inr (Some x)
    \<and> pk_state x = ''COMMITTED'' \<and> pk_committed_at x = Some now \<and> pk_step x = given stp (pr_current_step r)
    \<and> pk_shard_ids x = map fst us \<and> pk_num_shards x = int (length us) \<and> pk_total_bytes x = upload_bytes us
    \<and> shards_of k (snd (rest_commit_run True i (Some True) d now b)) = []
    \<and> ai_published (snd (rest_commit_run True i (Some True) d now b)) =
        ai_published a @ [(i, ''checkpoint_started''), (i, ''checkpoint_committed'')]"
proof -
  have ok: "coord_ok (ai_coord a)" by (rule server_reachable_ok [OF assms(1)])
  have up: "uploading i k (given stp (pr_current_step r)) a us b"
    using uploads_uploading [OF trigger_uploading [OF ok assms(2) [unfolded get_run_iff] assms(3,4)] assms(7)]
    by (simp add: b_def)
  have only: "pk_state x \<noteq> ''IN_PROGRESS''"
    if "kv_get (checkpoint_key j) (co_kv (ai_coord a)) = Some (CheckpointVal x)" "pk_run_id x = i" for j x
    using assms(5) [of j x] that by (simp add: get_checkpoint_iff)
  obtain x where
    x: "commit_begin True i b = Ok (x, map (shard_of_upload i k) us)" "pk_checkpoint_id x = k"
      "kv_get (checkpoint_key k) (co_kv (ai_coord b)) = Some (CheckpointVal x)"
      "ckpt_uploaded i (given stp (pr_current_step r)) us x"
    using commit_begin_uploaded [OF up assms(6)] only by blast
  then have "pk_committed_at x = None" by (simp add: ckpt_uploaded_def)
  from commit_finish_uploaded [OF up x(3,2) this, of d now] obtain status c where
    c: "commit_finish i x (Some True) d now b = (Ok status, publish_event i ''checkpoint_committed''
       (b\<lparr>ai_durations := ai_durations b @ [d], ai_shards := AList.delete k (ai_shards b), ai_coord := c,
          ai_commits := ai_commits b + 1\<rparr>))"
      "pr_state status = RUNNING" "pr_last_checkpoint_id status = Some k" "coord_get_run i c = Inr (Some status)"
      "coord_get_checkpoint k c = Inr (Some (x\<lparr>pk_state := ''COMMITTED'', pk_committed_at := Some now\<rparr>))"
    by blast
  have commit: "rest_commit_run True i (Some True) d now b = commit_finish i x (Some True) d now b"
    by (simp add: rest_commit_run_def x(1))
  have "ai_published b = ai_published a @ [(i, ''checkpoint_started'')]" using up by (simp add: uploading_def)
  then show ?thesis
    unfolding commit c(1) using c(2-5) x(4)
    by (simp add: ckpt_uploaded_def shards_of_def AList.delete_conv' publish_event_def)
qed

theorem checkpoint_protocol_commits_witness:
  "\<exists>status. fst (rest_commit_run True (js ''r1'') (Some True) 1 7
       (fold (do_upload (js ''r1'') (js ''k1'') 7) sample_uploads
          (snd (rest_trigger_checkpoint (js ''k1'') (js ''r1'') (Some 50) 7 sample_api)))) = Ok status
     \<and> pr_state status = RUNNING"
proof -
  obtain r where r: "coord_get_run (js ''r1'') (ai_coord sample_api) = Inr (Some r)" "pr_state r = RUNNING"
    using sample_api_run by (auto simp: get_run_iff)
  have "shards_of (js ''k1'') sample_api = []" "sample_uploads \<noteq> []" "list_all upload_accepted sample_uploads"
    by (simp_all add: shards_of_def sample_api_shards sample_uploads_def upload_accepted_def upload_answer_def sample_write_def)
  with checkpoint_protocol_commits [OF sample_api_reachable r, where k = "js ''k1''" and us = sample_uploads
      and now = 7 and stp = "Some 50" and d = 1]
  show ?thesis by (auto simp: get_checkpoint_iff sample_api_checkpoints)
qed

text \<open>
  C7. Whatever requests interleave with uploads and commits that wait for the data plane, whatever
  the monitors do and whenever the server restarts: a stored checkpoint counts the shards it
  lists, one that is in progress or committed has at least one shard, and a committed one has
  its commit time.
\<close>

theorem committed_checkpoints_sound:
  assumes "server_reachable (a, ps)" and "coord_get_checkpoint k (ai_coord a) = Inr (Some x)"
  shows "pk_num_shards x = int (length (pk_shard_ids x))
    \<and> (pk_state x \<in> {''IN_PROGRESS'', ''COMMITTED''} \<longrightarrow> pk_shard_ids x \<noteq> [])
    \<and> (pk_state x = ''COMMITTED'' \<longrightarrow> pk_committed_at x \<noteq> None)"
  using server_reachable_good [OF assms(1)] assms(2)
  by (auto simp: good_def checkpoints_sound_def checkpoint_ok_def get_checkpoint_iff)

definition sample_triggered :: api where
  "sample_triggered = snd (rest_trigger_checkpoint (js ''k1'') (js ''r1'') (Some 50) 7 sample_api)"

definition sample_uploaded :: api where
  "sample_uploaded = snd (upload_finish (js ''r1'') (js ''k1'') (js ''rank-0'') 0 (Some sample_write) 8 sample_triggered)"

lemma sample_triggered_reachable: "server_reachable (sample_triggered, [])"
  unfolding sample_triggered_def
  by (rule server_reachable.step [OF sample_api_reachable], rule server_step.trigger)
    (simp_all add: sample_api_checkpoints committing_ids_def)

lemma sample_uploaded_reachable: "server_reachable (sample_uploaded, [])"
proof -
  have "upload_check True (js ''r1'') (js ''k1'') 1 (Some 0) sample_triggered = Ok 0" by code_simp
  then have "server_step (sample_triggered, []) (sample_triggered, [Upload (js ''r1'') (js ''k1'') (js ''rank-0'') 0])"
    using server_step.upload_begin [of True "js ''r1''" "js ''k1''" 1 "Some 0" sample_triggered 0 "[]" "js ''rank-0''"] by simp
  moreover have "server_step (sample_triggered, [Upload (js ''r1'') (js ''k1'') (js ''rank-0'') 0]) (sample_uploaded, [])"
    using server_step.upload_end [of "js ''r1''" "js ''k1''" "js ''rank-0''" 0 "[Upload (js ''r1'') (js ''k1'') (js ''rank-0'') 0]"
        sample_triggered "Some sample_write" 8]
    by (simp add: sample_uploaded_def)
  ultimately show ?thesis using sample_triggered_reachable by (blast intro: server_reachable.step)
qed

text \<open>The stored checkpoint of the sample.\<close>

definition sample_checkpoint :: py_checkpoint where
  "sample_checkpoint = \<lparr>pk_checkpoint_id = js ''k1'', pk_run_id = js ''r1'', pk_step = 50, pk_state = ''IN_PROGRESS'',
     pk_num_shards = 1, pk_total_bytes = 4096, pk_created_at = 7, pk_committed_at = None,
     pk_shard_ids = [js ''rank-0''], pk_metadata = []\<rparr>"

lemma sample_uploaded_checkpoint: "coord_get_checkpoint (js ''k1'') (ai_coord sample_uploaded) = Inr (Some sample_checkpoint)"
  by code_simp

theorem committed_checkpoints_sound_witness:
  "pk_num_shards sample_checkpoint = int (length (pk_shard_ids sample_checkpoint)) \<and> pk_shard_ids sample_checkpoint \<noteq> []"
  using committed_checkpoints_sound [OF sample_uploaded_reachable sample_uploaded_checkpoint]
  by (simp add: sample_checkpoint_def)

text \<open>
  C26. A failure of the data plane is recorded: when it raises or rejects an upload or a commit, the
  answer is 502, the checkpoint is marked failed and otherwise unchanged, its collected shards are
  dropped, and the run fails if its state allows that and keeps its state otherwise.
\<close>

theorem failed_checkpoint_recorded:
  assumes "server_reachable (a, ps)" and "coord_get_run i (ai_coord a) = Inr (Some r)"
    and "coord_get_checkpoint (pk_checkpoint_id x) (ai_coord a) = Inr (Some x)"
    and "res = None \<or> res = Some w \<and> \<not> wr_success w" and "cres \<noteq> Some True"
    and "out = map_prod http_code id (upload_finish i (pk_checkpoint_id x) sid rank res now a)
      \<or> out = map_prod http_code id (commit_finish i x cres d now a)"
  shows "fst out = 502
    \<and> coord_get_checkpoint (pk_checkpoint_id x) (ai_coord (snd out)) = Inr (Some (x\<lparr>pk_state := ''FAILED''\<rparr>))
    \<and> (\<exists>r'. coord_get_run i (ai_coord (snd out)) = Inr (Some r')
         \<and> pr_state r' = (if FAILED \<in> set (VALID_TRANSITIONS (pr_state r)) then FAILED else pr_state r))
    \<and> shards_of (pk_checkpoint_id x) (snd out) = []"
proof -
  have "\<exists>msg. out = map_prod http_code id (fail_with i (pk_checkpoint_id x) msg now a :: write_result http \<times> api)
      \<or> out = map_prod http_code id (fail_with i (pk_checkpoint_id x) msg now a :: py_run http \<times> api)"
    using assms(4-6) by (cases cres) (auto simp: upload_finish_def commit_finish_def)
  then show ?thesis
    by (elim exE disjE) (simp_all add: get_run_iff get_checkpoint_iff fail_with_effect
        [OF server_reachable_ok [OF assms(1)] assms(2) [unfolded get_run_iff] assms(3) [unfolded get_checkpoint_iff]])
qed

lemma sample_uploaded_run:
  "\<exists>r. coord_get_run (js ''r1'') (ai_coord sample_uploaded) = Inr (Some r) \<and> pr_state r = CHECKPOINTING"
proof -
  have "map_sum id (map_option pr_state) (coord_get_run (js ''r1'') (ai_coord sample_uploaded)) = Inr (Some CHECKPOINTING)"
    by code_simp
  then show ?thesis by (cases "coord_get_run (js ''r1'') (ai_coord sample_uploaded)") auto
qed

theorem failed_checkpoint_recorded_witness:
  "http_code (fst (commit_finish (js ''r1'') sample_checkpoint None 1 9 sample_uploaded)) = 502
   \<and> (\<exists>r'. coord_get_run (js ''r1'') (ai_coord (snd (commit_finish (js ''r1'') sample_checkpoint None 1 9 sample_uploaded)))
        = Inr (Some r') \<and> pr_state r' = FAILED)"
proof -
  obtain r where r: "coord_get_run (js ''r1'') (ai_coord sample_uploaded) = Inr (Some r)" "pr_state r = CHECKPOINTING"
    using sample_uploaded_run by blast
  have x: "coord_get_checkpoint (pk_checkpoint_id sample_checkpoint) (ai_coord sample_uploaded) = Inr (Some sample_checkpoint)"
    using sample_uploaded_checkpoint by (simp add: sample_checkpoint_def)
  show ?thesis
    using failed_checkpoint_recorded [OF sample_uploaded_reachable r(1) x, where res = None and cres = None and now = 9 and d = 1
        and out = "map_prod http_code id (commit_finish (js ''r1'') sample_checkpoint None 1 9 sample_uploaded)"] r(2)
    by (simp add: fst_map_prod snd_map_prod)
qed

text \<open>
  C37. A commit can be refused after it happened: when the run is no longer checkpointing (it was
  resumed or failed while the data plane wrote the manifest), the data plane's success marks the
  checkpoint committed and yet the answer is 409, no event is published and the commit is not
  counted.
\<close>

theorem commit_refused_but_committed:
  assumes "server_reachable (a, ps)" and "coord_get_run i (ai_coord a) = Inr (Some r)" and "pr_state r \<noteq> CHECKPOINTING"
    and "coord_get_checkpoint (pk_checkpoint_id x) (ai_coord a) = Inr (Some y)"
  shows "fst (commit_finish i x (Some True) d now a) = HttpError 409
    \<and> (\<exists>z. coord_get_checkpoint (pk_checkpoint_id x) (ai_coord (snd (commit_finish i x (Some True) d now a))) = Inr (Some z)
         \<and> pk_state z = ''COMMITTED'')
    \<and> ai_published (snd (commit_finish i x (Some True) d now a)) = ai_published a
    \<and> ai_commits (snd (commit_finish i x (Some True) d now a)) = ai_commits a"
proof -
  let ?k = "pk_checkpoint_id x"
  obtain z c where c: "update_checkpoint_state ?k ''COMMITTED'' None None None now (ai_coord a) = (Inr z, c)"
    "kv_get (checkpoint_key ?k) (co_kv c) = Some (CheckpointVal z)" "pk_state z = ''COMMITTED''"
    "kv_get (run_key i) (co_kv c) = Some (RunVal r)"
    using assms(2,4) by (simp add: update_checkpoint_state_def Let_def get_put get_run_iff)
  have ok: "coord_ok c"
    using coord_ok_checkpoint_updates(1) [OF server_reachable_ok [OF assms(1)]] c(1) by (metis snd_conv)
  have "COMMITTED \<notin> set (VALID_TRANSITIONS (pr_state r))" using assms(3) by (cases "pr_state r") auto
  from transition_run_invalid [OF ok c(4) this, of now] obtain c1 where
    "transition_run i COMMITTED now c = (Inl (InvalidTransitionError (pr_state r) COMMITTED), c1)" "co_kv c1 = co_kv c"
    by blast
  with c show ?thesis by (simp add: commit_finish_def Let_def get_checkpoint_iff)
qed

definition sample_resumed :: api where
  "sample_resumed = snd (rest_resume_run (js ''r1'') 9 sample_uploaded)"

lemma sample_resumed_reachable: "server_reachable (sample_resumed, [])"
  unfolding sample_resumed_def by (rule server_reachable.step [OF sample_uploaded_reachable]) (rule server_step.resume_run)

theorem commit_refused_but_committed_witness:
  "fst (rest_commit_run True (js ''r1'') (Some True) 1 10 sample_resumed) = HttpError 409"
proof -
  have "map_sum id (map_option pr_state) (coord_get_run (js ''r1'') (ai_coord sample_resumed)) = Inr (Some RUNNING)"
    by code_simp
  then obtain r where r: "coord_get_run (js ''r1'') (ai_coord sample_resumed) = Inr (Some r)" "pr_state r \<noteq> CHECKPOINTING"
    by (cases "coord_get_run (js ''r1'') (ai_coord sample_resumed)") auto
  have x: "coord_get_checkpoint (pk_checkpoint_id sample_checkpoint) (ai_coord sample_resumed) = Inr (Some sample_checkpoint)"
    by code_simp
  have "\<exists>shs. commit_begin True (js ''r1'') sample_resumed = Ok (sample_checkpoint, shs)"
  proof -
    have "commit_begin True (js ''r1'') sample_resumed = Ok (sample_checkpoint, shards_of (js ''k1'') sample_resumed)"
      by code_simp
    then show ?thesis by blast
  qed
  then show ?thesis
    using commit_refused_but_committed [OF sample_resumed_reachable r x] by (auto simp: rest_commit_run_def)
qed

text \<open>
  C40. A committed checkpoint can be reopened: nothing refuses an upload to a checkpoint that is
  already committed; when the data plane accepts it, the checkpoint is in progress again, and
  since the commit dropped the collected shards, it now lists the new shard only.
\<close>

theorem upload_reopens_committed:
  assumes "server_reachable (a, ps)" and "coord_get_checkpoint k (ai_coord a) = Inr (Some x)" and "pk_run_id x = i"
    and "pk_state x = ''COMMITTED''" and "shards_of k a = []" and "0 < len" and "wr_success w"
  shows "\<exists>y. coord_get_checkpoint k (ai_coord (snd (rest_upload_shard True i k sid len (Some rank) (Some w) now a))) = Inr (Some y)
    \<and> pk_state y = ''IN_PROGRESS'' \<and> pk_shard_ids y = [sid] \<and> pk_num_shards y = 1 \<and> pk_committed_at y = pk_committed_at x"
  using assms
  by (simp add: rest_upload_shard_def upload_check_def upload_finish_def Let_def update_checkpoint_state_def given_def)
    (simp add: get_checkpoint_iff get_put new_shard_def)

definition sample_committed :: api where
  "sample_committed = snd (commit_finish (js ''r1'') sample_checkpoint (Some True) 1 9 sample_uploaded)"

lemma sample_committed_reachable: "server_reachable (sample_committed, [])"
proof -
  have "commit_begin True (js ''r1'') sample_uploaded = Ok (sample_checkpoint, shards_of (js ''k1'') sample_uploaded)"
    by code_simp
  then have "server_step (sample_uploaded, []) (sample_uploaded, [Commit (js ''r1'') sample_checkpoint])"
    using server_step.commit_begin [of True "js ''r1''" sample_uploaded sample_checkpoint _ "[]"] by simp
  moreover have "server_step (sample_uploaded, [Commit (js ''r1'') sample_checkpoint]) (sample_committed, [])"
    using server_step.commit_end [of "js ''r1''" sample_checkpoint "[Commit (js ''r1'') sample_checkpoint]"
        sample_uploaded "Some True" 1 9]
    by (simp add: sample_committed_def)
  ultimately show ?thesis using sample_uploaded_reachable by (blast intro: server_reachable.step)
qed

theorem upload_reopens_committed_witness:
  "\<exists>y. coord_get_checkpoint (js ''k1'') (ai_coord (snd (rest_upload_shard True (js ''r1'') (js ''k1'') (js ''late'') 1 (Some 0)
      (Some sample_write) 11 sample_committed))) = Inr (Some y) \<and> pk_state y = ''IN_PROGRESS'' \<and> pk_shard_ids y = [js ''late'']"
proof -
  let ?x = "sample_checkpoint\<lparr>pk_state := ''COMMITTED'', pk_committed_at := Some 9\<rparr>"
  have x: "coord_get_checkpoint (js ''k1'') (ai_coord sample_committed) = Inr (Some ?x)" by code_simp
  have "shards_of (js ''k1'') sample_committed = []" by code_simp
  with upload_reopens_committed [OF sample_committed_reachable x, of "js ''r1''" 1 sample_write "js ''late''" 0 11]
  show ?thesis by (auto simp: sample_checkpoint_def sample_write_def)
qed

section \<open>Chunks\<close>

declare chunk_iterator.simps [simp del]

lemma chunk_iterator_Nil: "length body \<le> offset \<Longrightarrow> chunk_iterator s c body offset = []"
  by (simp add: chunk_iterator.simps)

lemma chunk_iterator_data: "concat (map ch_data (chunk_iterator s c body offset)) = drop offset body"
proof (induction s c body offset rule: chunk_iterator.induct)
  case (1 s c body offset)
  show ?case
  proof (cases "offset < length body")
    case True
    let ?e = "min (offset + chunk_size) (length body)"
    have "take (?e - offset) (drop offset body) @ drop ?e body = drop offset body"
      using append_take_drop_id [of "?e - offset" "drop offset body"] True by simp
    with 1 True show ?thesis by (simp add: chunk_iterator.simps [of s c body offset] Let_def)
  qed (simp add: chunk_iterator_Nil)
qed

lemma chunk_iterator_bounds:
  "x \<in> set (chunk_iterator s c body offset) \<Longrightarrow>
   0 < length (ch_data x) \<and> length (ch_data x) \<le> chunk_size \<and> ch_shard_id x = s \<and> ch_checkpoint_id x = c
   \<and> ch_data x = take (length (ch_data x)) (drop (ch_offset x) body)"
proof (induction s c body offset rule: chunk_iterator.induct)
  case (1 s c body offset)
  have "0 < chunk_size" by (simp add: chunk_size_def)
  with 1 show ?case
    by (cases "offset < length body")
      (auto simp: chunk_iterator.simps [of s c body offset] Let_def min_def split: if_splits)
qed

lemma chunk_iterator_last:
  "offset < length body \<Longrightarrow>
   map ch_is_last (chunk_iterator s c body offset) =
     replicate (length (chunk_iterator s c body offset) - 1) False @ [True]"
proof (induction s c body offset rule: chunk_iterator.induct)
  case (1 s c body offset)
  show ?case
  proof (cases "offset + chunk_size < length body")
    case True
    then have m: "min (offset + chunk_size) (length body) = offset + chunk_size" by simp
    let ?t = "chunk_iterator s c body (offset + chunk_size)"
    have ih: "map ch_is_last ?t = replicate (length ?t - 1) False @ [True]" using 1 True m by simp
    then have "?t \<noteq> []" by auto
    then obtain n where "length ?t = Suc n" by (cases ?t) auto
    with ih True m "1.prems" show ?thesis by (simp add: chunk_iterator.simps [of s c body offset] Let_def)
  next
    case False
    with "1.prems" show ?thesis
      by (simp add: chunk_iterator.simps [of s c body offset] Let_def min_def chunk_iterator_Nil)
  qed
qed

lemma chunk_iterator_length:
  "length (chunk_iterator s c body offset) = (length body - offset + (chunk_size - 1)) div chunk_size"
proof (induction s c body offset rule: chunk_iterator.induct)
  case (1 s c body offset)
  have pos: "0 < chunk_size" by (simp add: chunk_size_def)
  show ?case
  proof (cases "offset + chunk_size < length body")
    case True
    then have m: "min (offset + chunk_size) (length body) = offset + chunk_size" by simp
    have "length body - offset + (chunk_size - 1) = (length body - (offset + chunk_size) + (chunk_size - 1)) + chunk_size"
      using True by simp
    with pos have "(length body - offset + (chunk_size - 1)) div chunk_size =
        Suc ((length body - (offset + chunk_size) + (chunk_size - 1)) div chunk_size)"
      by (simp only: div_add_self2)
    with 1 True m show ?thesis by (simp add: chunk_iterator.simps [of s c body offset] Let_def)
  next
    case False
    show ?thesis
    proof (cases "offset < length body")
      case True
      with False pos have "length body - offset + (chunk_size - 1) = length body - offset - 1 + chunk_size"
        and "length body - offset - 1 < chunk_size" by simp_all
      with pos have "(length body - offset + (chunk_size - 1)) div chunk_size = 1"
        by (simp only: div_add_self2) simp
      with True False show ?thesis
        by (simp add: chunk_iterator.simps [of s c body offset] Let_def min_def chunk_iterator_Nil)
    qed (use pos in \<open>simp add: chunk_iterator_Nil\<close>)
  qed
qed

text \<open>
  An uploaded shard is streamed completely: the loop that cuts the body ends, its chunks are
  not empty and have at most 1 MiB, each carries the bytes at its offset, exactly the last one is
  marked as such, and joining them, as a download does, gives the body back.
\<close>

theorem chunks_round_trip:
  assumes "body \<noteq> []"
  shows "rest_download_shard True (map ch_data (upload_chunks run_id k sid body)) = Ok body
    \<and> map ch_is_last (upload_chunks run_id k sid body) =
        replicate (length (upload_chunks run_id k sid body) - 1) False @ [True]
    \<and> (\<forall>x \<in> set (upload_chunks run_id k sid body).
         0 < length (ch_data x) \<and> length (ch_data x) \<le> 1024 * 1024 \<and> ch_shard_id x = sid
         \<and> ch_checkpoint_id x = run_id @ js ''/'' @ k
         \<and> ch_data x = take (length (ch_data x)) (drop (ch_offset x) body))"
proof -
  have "map ch_is_last (upload_chunks run_id k sid body) =
      replicate (length (upload_chunks run_id k sid body) - 1) False @ [True]"
    unfolding upload_chunks_def using assms by (intro chunk_iterator_last) simp
  moreover from this have "upload_chunks run_id k sid body \<noteq> []" by auto
  moreover have "concat (map ch_data (upload_chunks run_id k sid body)) = body"
    by (simp add: upload_chunks_def chunk_iterator_data)
  ultimately show ?thesis
    using chunk_iterator_bounds unfolding upload_chunks_def by (auto simp: rest_download_shard_def chunk_size_def)
qed

theorem chunks_round_trip_witness:
  "rest_download_shard True (map ch_data (upload_chunks (js ''r1'') (js ''k1'') (js ''rank-0'') [1, 2, 3])) = Ok [1, 2, 3]"
  using chunks_round_trip [of "[1, 2, 3]" "js ''r1''" "js ''k1''" "js ''rank-0''"] by simp

end
