(* ===== verification/Retention.thy ===== *)
theory Retention
  imports CheckpointApi
begin

text \<open>
  The retention of checkpoints (\<open>python-controlplane/src/controlplane/retention.py\<close>): one pass over the objects of
  the bucket, which removes the objects of old runs, of superseded checkpoints and of abandoned uploads, and
  then their records.

  The object store is not part of the repository: the listed objects and the answers to the deletion
  requests (whether a batch was deleted without errors) are arguments of the pass. Times are integers, in the unit of
  the records of the coordinator.
\<close>

section \<open>Data\<close>

record s3_object =
  so_key :: jsstring
  so_modified :: int
  so_size :: int

record retention_config =
  rc_keep_committed_per_run :: nat
  rc_keep_runs :: nat
  rc_orphan_grace :: int

record retention_result =
  rr_checkpoints_deleted :: nat
  rr_objects_deleted :: nat
  rr_bytes_freed :: int

datatype retention_error = RunsError coord_error | DeleteFailed | RecordError coord_error

text \<open>The numbers of the environment are clamped.\<close>

definition retention_from_env :: "int \<Rightarrow> int \<Rightarrow> int \<Rightarrow> retention_config" where
  "retention_from_env cnt runs grace =
     \<lparr>rc_keep_committed_per_run = nat (max 1 cnt), rc_keep_runs = nat (max 1 runs), rc_orphan_grace = max 0 grace\<rparr>"

section \<open>Grouping\<close>

text \<open>\<open>groups[key].append(value)\<close> for a \<open>defaultdict(list)\<close>.\<close>

fun push_group :: "'k \<Rightarrow> 'v \<Rightarrow> ('k \<times> 'v list) list \<Rightarrow> ('k \<times> 'v list) list" where
  "push_group k v [] = [(k, [v])]"
| "push_group k v ((k', vs) # g) = (if k = k' then (k', vs @ [v]) # g else (k', vs) # push_group k v g)"

definition group_all :: "('x \<Rightarrow> 'k) \<Rightarrow> ('x \<Rightarrow> 'v) \<Rightarrow> 'x list \<Rightarrow> ('k \<times> 'v list) list" where
  "group_all f h xs = foldl (\<lambda>g x. push_group (f x) (h x) g) [] xs"

text \<open>\<open>key.split("/", 2)\<close> has three parts when the key has two separators.\<close>

definition key_parts :: "jsstring \<Rightarrow> (jsstring \<times> jsstring) option" where
  "key_parts key =
     (case split_on (Ch (CHR ''/'')) key of r # c # x # xs \<Rightarrow> Some (r, c) | _ \<Rightarrow> None)"

definition grouped :: "s3_object list \<Rightarrow> ((jsstring \<times> jsstring) \<times> s3_object list) list" where
  "grouped objects =
     group_all (\<lambda>ob. the (key_parts (so_key ob))) id (filter (\<lambda>ob. key_parts (so_key ob) \<noteq> None) objects)"

type_synonym checkpoint_objects = "jsstring \<times> s3_object list"

definition by_run :: "s3_object list \<Rightarrow> (jsstring \<times> checkpoint_objects list) list" where
  "by_run objects = group_all (\<lambda>((r, c), obs). r) (\<lambda>((r, c), obs). (c, obs)) (grouped objects)"

definition newest :: "s3_object list \<Rightarrow> int" where
  "newest obs = (case map so_modified obs of [] \<Rightarrow> 0 | m # ms \<Rightarrow> fold max ms m)"

definition has_manifest :: "checkpoint_objects \<Rightarrow> bool" where
  "has_manifest = (\<lambda>(c, obs). list_ex (\<lambda>ob. endsWith (so_key ob) (js ''/_manifest.json'')) obs)"

section \<open>Selection\<close>

definition active_state :: "RunState \<Rightarrow> bool" where
  "active_state s = (s \<in> {RUNNING, CHECKPOINTING, COMMITTED, RECOVERING})"

definition active_run_ids :: "py_run list \<Rightarrow> jsstring list" where
  "active_run_ids runs = map pr_run_id (filter (\<lambda>r. active_state (pr_state r)) runs)"

definition failed_runs :: "py_run list \<Rightarrow> py_run list" where
  "failed_runs runs = filter (\<lambda>r. pr_state r = FAILED) runs"

definition recoverable_failed_run_ids :: "py_run list \<Rightarrow> jsstring list" where
  "recoverable_failed_run_ids runs =
     (case map pr_updated_at (failed_runs runs) of
        [] \<Rightarrow> []
      | m # ms \<Rightarrow> map pr_run_id (filter (\<lambda>r. pr_updated_at r = fold max ms m) (failed_runs runs)))"

definition run_recency :: "(jsstring \<times> checkpoint_objects list) list \<Rightarrow> jsstring list" where
  "run_recency groups =
     map fst (sort_key (\<lambda>(r, cks). - newest (concat (map snd cks))) groups)"

definition retained_run_ids :: "retention_config \<Rightarrow> py_run list \<Rightarrow> (jsstring \<times> checkpoint_objects list) list \<Rightarrow> jsstring list" where
  "retained_run_ids cfg runs groups =
     active_run_ids runs @ recoverable_failed_run_ids runs @ take (rc_keep_runs cfg) (run_recency groups)"

definition by_recency :: "checkpoint_objects list \<Rightarrow> checkpoint_objects list" where
  "by_recency cks = sort_key (\<lambda>(c, obs). - newest obs) cks"

definition run_deletions :: "retention_config \<Rightarrow> jsstring list \<Rightarrow> int \<Rightarrow> jsstring \<times> checkpoint_objects list \<Rightarrow> (jsstring \<times> checkpoint_objects) list" where
  "run_deletions cfg retained cutoff = (\<lambda>(run_id, checkpoints).
     map (Pair run_id)
       (if run_id \<notin> set retained then checkpoints
        else drop (rc_keep_committed_per_run cfg) (by_recency (filter has_manifest checkpoints))
             @ filter (\<lambda>(c, obs). newest obs < cutoff) (filter (\<lambda>ck. \<not> has_manifest ck) checkpoints)))"

definition to_delete :: "retention_config \<Rightarrow> py_run list \<Rightarrow> int \<Rightarrow> s3_object list \<Rightarrow> (jsstring \<times> checkpoint_objects) list" where
  "to_delete cfg runs now objects =
     (let groups = by_run objects;
          retained = retained_run_ids cfg runs groups;
          cutoff = now - rc_orphan_grace cfg
      in concat (map (run_deletions cfg retained cutoff) groups))"

section \<open>The pass\<close>

text \<open>Batches of 1000 objects, in order; the loop stops at the first batch that reports errors.\<close>

function batches :: "'x list \<Rightarrow> 'x list list" where
  "batches xs = (if xs = [] then [] else take 1000 xs # batches (drop 1000 xs))"
  by pat_completeness auto
termination
  by (relation "measure length") auto

fun delete_batches :: "(nat \<Rightarrow> bool) \<Rightarrow> nat \<Rightarrow> 'x list list \<Rightarrow> bool \<times> 'x list" where
  "delete_batches deleted n [] = (True, [])"
| "delete_batches deleted n (b # bs) =
     (if deleted n then (case delete_batches deleted (Suc n) bs of (ok, sent) \<Rightarrow> (ok, b @ sent)) else (False, b))"

fun prune_records :: "(jsstring \<times> checkpoint_objects) list \<Rightarrow> coordinator \<Rightarrow> coord_error option \<times> coordinator" where
  "prune_records [] c = (None, c)"
| "prune_records ((run_id, k, obs) # ds) c =
     (case coord_get_checkpoint k c of
        Inl e \<Rightarrow> (Some e, c)
      | Inr None \<Rightarrow> prune_records ds c
      | Inr (Some x) \<Rightarrow> prune_records ds (if pk_run_id x = run_id then coord_delete_checkpoint k c else c))"

text \<open>The result, the objects whose deletion was requested, and the coordinator after the pass.\<close>

definition retention_run_once ::
  "retention_config \<Rightarrow> int \<Rightarrow> s3_object list \<Rightarrow> (nat \<Rightarrow> bool) \<Rightarrow> coordinator
     \<Rightarrow> (retention_error + retention_result) \<times> s3_object list \<times> coordinator" where
  "retention_run_once cfg now objects deleted c =
     (case coord_list_runs c of
        Inl e \<Rightarrow> (Inl (RunsError e), [], c)
      | Inr runs \<Rightarrow>
          let ds = to_delete cfg runs now objects;
              items = concat (map (\<lambda>(r, k, obs). obs) ds)
          in (case delete_batches deleted 0 (batches items) of
                (False, sent) \<Rightarrow> (Inl DeleteFailed, sent, c)
              | (True, sent) \<Rightarrow>
                  (case prune_records ds c of
                     (Some e, c') \<Rightarrow> (Inl (RecordError e), sent, c')
                   | (None, c') \<Rightarrow>
                       (Inr \<lparr>rr_checkpoints_deleted = length ds, rr_objects_deleted = length items,
                             rr_bytes_freed = sum_list (map so_size items)\<rparr>, sent, c'))))"

section \<open>Lemmas\<close>

declare batches.simps [simp del]

subsection \<open>Groups\<close>

lemma push_group_lookup:
  "map_of (push_group k v g) k' =
     (if k' = k then Some ((case map_of g k of None \<Rightarrow> [] | Some vs \<Rightarrow> vs) @ [v]) else map_of g k')"
  by (induction k v g rule: push_group.induct) auto

lemma push_group_keys: "set (map fst (push_group k v g)) = insert k (set (map fst g))"
  by (induction k v g rule: push_group.induct) auto

lemma push_group_distinct: "distinct (map fst g) \<Longrightarrow> distinct (map fst (push_group k v g))"
proof (induction k v g rule: push_group.induct)
  case (2 k v k' vs g)
  then show ?case using push_group_keys [of k v g] by auto
qed simp

lemma group_all_snoc: "group_all f h (xs @ [x]) = push_group (f x) (h x) (group_all f h xs)"
  by (simp add: group_all_def)

lemma group_all_distinct: "distinct (map fst (group_all f h xs))"
  by (induction xs rule: rev_induct) (simp_all add: group_all_snoc push_group_distinct, simp add: group_all_def)

lemma group_all_lookup:
  "map_of (group_all f h xs) k =
     (let vs = map h (filter (\<lambda>x. f x = k) xs) in if vs = [] then None else Some vs)"
proof (induction xs rule: rev_induct)
  case Nil
  then show ?case by (simp add: group_all_def)
next
  case (snoc x xs)
  then show ?case by (cases "f x = k") (auto simp: group_all_snoc push_group_lookup Let_def)
qed

text \<open>A group holds exactly the items with its key, in order.\<close>

lemma group_all_iff:
  "(k, vs) \<in> set (group_all f h xs) \<longleftrightarrow> vs = map h (filter (\<lambda>x. f x = k) xs) \<and> vs \<noteq> []"
  unfolding map_of_eq_Some_iff [OF group_all_distinct [of f h xs], symmetric] group_all_lookup
  by (auto simp: Let_def)

lemma by_run_distinct: "distinct (map fst (by_run objects))"
  by (simp add: by_run_def group_all_distinct)

lemma by_run_checkpoints:
  assumes "(r, cks) \<in> set (by_run objects)"
  shows "distinct (map fst cks)"
    and "(k, obs) \<in> set cks \<longleftrightarrow> ((r, k), obs) \<in> set (grouped objects)"
proof -
  let ?g = "filter (\<lambda>x. (\<lambda>((r, c), obs). r) x = r) (grouped objects)"
  from assms have cks: "cks = map (\<lambda>((r, c), obs). (c, obs)) ?g" by (simp add: by_run_def group_all_iff)
  then show "(k, obs) \<in> set cks \<longleftrightarrow> ((r, k), obs) \<in> set (grouped objects)" by force
  have "distinct (map fst ?g)" unfolding grouped_def by (intro distinct_map_filter group_all_distinct)
  moreover have "map fst ?g = map (Pair r) (map fst cks)" unfolding cks by (induction "grouped objects") auto
  ultimately have "distinct (map (Pair r) (map fst cks))" by (simp only:)
  then show "distinct (map fst cks)" by (rule distinct_map [THEN iffD1, THEN conjunct1])
qed

subsection \<open>Selection\<close>

lemma fold_max_ge: "x \<in> set (m # ms) \<Longrightarrow> x \<le> fold max ms (m :: int)"
  using Max.set_eq_fold [of m ms] by (metis List.finite_set Max_ge)

lemma fold_max_mem: "fold max ms (m :: int) \<in> set (m # ms)"
  using Max.set_eq_fold [of m ms] by (metis List.finite_set Max_in list.distinct(1) set_empty)

lemma recoverable_iff:
  "i \<in> set (recoverable_failed_run_ids runs) \<longleftrightarrow>
     (\<exists>r\<in>set runs. pr_run_id r = i \<and> pr_state r = FAILED
        \<and> (\<forall>r'\<in>set runs. pr_state r' = FAILED \<longrightarrow> pr_updated_at r' \<le> pr_updated_at r))"
proof (cases "map pr_updated_at (failed_runs runs)")
  case Nil
  then show ?thesis by (auto simp: recoverable_failed_run_ids_def failed_runs_def filter_empty_conv)
next
  case (Cons m ms)
  have mem: "x \<in> set (m # ms) \<longleftrightarrow> (\<exists>r\<in>set runs. pr_state r = FAILED \<and> pr_updated_at r = x)" for x
    unfolding Cons [symmetric] by (auto simp: failed_runs_def)
  have top: "(\<forall>r'\<in>set runs. pr_state r' = FAILED \<longrightarrow> pr_updated_at r' \<le> pr_updated_at r) \<longleftrightarrow> pr_updated_at r = fold max ms m"
    if "r \<in> set runs" "pr_state r = FAILED" for r
    using fold_max_ge [of _ m ms] fold_max_mem [of ms m] that by (metis mem order_antisym)
  have "i \<in> set (recoverable_failed_run_ids runs) \<longleftrightarrow>
      (\<exists>r\<in>set runs. pr_run_id r = i \<and> pr_state r = FAILED \<and> pr_updated_at r = fold max ms m)"
    unfolding recoverable_failed_run_ids_def Cons by (auto simp: failed_runs_def)
  with top show ?thesis by metis
qed

lemma by_recency_simps [simp]:
  "set (by_recency cks) = set cks" "length (by_recency cks) = length cks"
  "distinct (map fst (by_recency cks)) \<longleftrightarrow> distinct (map fst cks)"
proof -
  show "set (by_recency cks) = set cks" "length (by_recency cks) = length cks" by (simp_all add: by_recency_def)
  have "mset (map fst (by_recency cks)) = mset (map fst cks)" by (simp add: by_recency_def)
  then show "distinct (map fst (by_recency cks)) \<longleftrightarrow> distinct (map fst cks)" by (rule mset_eq_imp_distinct_iff)
qed

lemma sorted_take_drop:
  "sorted (map f xs) \<Longrightarrow> x \<in> set (take n xs) \<Longrightarrow> y \<in> set (drop n xs) \<Longrightarrow> f x \<le> (f y :: int)"
  using sorted_append [of "map f (take n xs)" "map f (drop n xs)"]
  by (simp flip: map_append)

lemma by_recency_order:
  assumes "(k, obs) \<in> set (drop n (by_recency cks))" and "(k', obs') \<in> set (take n (by_recency cks))"
  shows "newest obs \<le> newest obs'"
  using sorted_take_drop [of "\<lambda>(c, obs). - newest obs" "by_recency cks", OF _ assms(2,1)]
  by (simp add: by_recency_def)

text \<open>What is deleted.\<close>

lemma to_delete_iff:
  "(r, k, obs) \<in> set (to_delete cfg runs now objects) \<longleftrightarrow>
     (\<exists>cks. (r, cks) \<in> set (by_run objects)
        \<and> (r, k, obs) \<in> set (run_deletions cfg (retained_run_ids cfg runs (by_run objects))
             (now - rc_orphan_grace cfg) (r, cks)))"
proof -
  have "r' = r" if "(r, k, obs) \<in> set (run_deletions cfg retained cutoff (r', cks))" for retained cutoff r' cks
    using that by (auto simp: run_deletions_def)
  then show ?thesis by (fastforce simp: to_delete_def Let_def)
qed

lemma run_deletions_retained:
  "r \<in> set retained \<Longrightarrow>
   (r, k, obs) \<in> set (run_deletions cfg retained cutoff (r, cks)) \<longleftrightarrow>
     (k, obs) \<in> set (drop (rc_keep_committed_per_run cfg) (by_recency (filter has_manifest cks)))
     \<or> (k, obs) \<in> set cks \<and> \<not> has_manifest (k, obs) \<and> newest obs < cutoff"
  by (auto simp: run_deletions_def)

subsection \<open>Batches and records\<close>

lemma concat_batches: "concat (batches xs) = xs"
proof (induction xs rule: batches.induct)
  case (1 xs)
  then show ?case by (subst batches.simps) simp
qed

lemma batches_bounded: "b \<in> set (batches xs) \<Longrightarrow> b \<noteq> [] \<and> length b \<le> 1000"
proof (induction xs rule: batches.induct)
  case (1 xs)
  then show ?case by (subst (asm) batches.simps) (auto split: if_splits)
qed

lemma delete_batches_sent:
  "delete_batches deleted n bs = (ok, sent) \<Longrightarrow>
     if ok then sent = concat bs \<and> (\<forall>i<length bs. deleted (n + i))
     else \<exists>i<length bs. \<not> deleted (n + i) \<and> (\<forall>j<i. deleted (n + j)) \<and> sent = concat (take (Suc i) bs)"
proof (induction bs arbitrary: n ok sent)
  case (Cons b bs)
  show ?case
  proof (cases "deleted n")
    case True
    obtain ok' sent' where r: "delete_batches deleted (Suc n) bs = (ok', sent')" by fastforce
    with True Cons.prems have eq: "ok = ok'" "sent = b @ sent'" by simp_all
    show ?thesis
    proof (cases ok')
      case ok: True
      with Cons.IH [OF r] eq True show ?thesis by (auto simp: less_Suc_eq_0_disj)
    next
      case False
      with Cons.IH [OF r] obtain i where i: "i < length bs" "\<not> deleted (Suc n + i)"
        "\<forall>j<i. deleted (Suc n + j)" "sent' = concat (take (Suc i) bs)" by auto
      from i(3) True have "\<forall>j<Suc i. deleted (n + j)" by (auto simp: less_Suc_eq_0_disj)
      with i eq False show ?thesis by (intro iffD2 [OF if_not_P] exI [of _ "Suc i"]) simp_all
    qed
  next
    case False
    with Cons.prems show ?thesis by auto
  qed
qed simp

lemma delete_checkpoint_kv:
  "kv_get key (co_kv (coord_delete_checkpoint k c)) = (if key = checkpoint_key k then None else kv_get key (co_kv c))"
  by (simp add: coord_delete_checkpoint_def get_del)

definition pruned :: "(jsstring \<times> checkpoint_objects) list \<Rightarrow> kv_value option \<Rightarrow> kv_value option" where
  "pruned ds v =
     (case v of
        Some (CheckpointVal x) \<Rightarrow>
          if \<exists>obs. (pk_run_id x, pk_checkpoint_id x, obs) \<in> set ds then None else v
      | _ \<Rightarrow> v)"

lemma pruned_cases:
  "pruned ds None = None" "pruned ds (Some (RunVal r)) = Some (RunVal r)" "pruned ds (Some (WorkerVal w)) = Some (WorkerVal w)"
  "pruned ds (Some (CheckpointVal x)) =
     (if \<exists>obs. (pk_run_id x, pk_checkpoint_id x, obs) \<in> set ds then None else Some (CheckpointVal x))"
  by (simp_all add: pruned_def)

lemma pruned_keep:
  "(\<And>x. v = Some (CheckpointVal x) \<Longrightarrow> (pk_run_id x, pk_checkpoint_id x) \<noteq> (r, k)) \<Longrightarrow>
   pruned ((r, k, obs) # ds) v = pruned ds v"
  by (auto simp: pruned_def split: option.splits kv_value.splits)

lemma prune_records_step:
  assumes "coord_ok c"
  shows "prune_records ((r, k, obs) # ds) c =
    prune_records ds
      (if \<exists>x. coord_get_checkpoint k c = Inr (Some x) \<and> pk_run_id x = r then coord_delete_checkpoint k c else c)"
  using coord_ok_checkpoint [OF assms, of k]
  by (auto simp: coord_get_checkpoint_def split: option.splits kv_value.splits)

lemma prune_records_ok:
  assumes "coord_ok c"
  shows "fst (prune_records ds c) = None \<and> coord_ok (snd (prune_records ds c))
    \<and> background\<^sup>*\<^sup>* c (snd (prune_records ds c))
    \<and> (\<forall>key. kv_get key (co_kv (snd (prune_records ds c))) = pruned ds (kv_get key (co_kv c)))"
  using assms
proof (induction ds arbitrary: c)
  case Nil
  then show ?case by (auto simp: pruned_def split: option.splits kv_value.splits)
next
  case (Cons d ds)
  obtain r k obs where d: "d = (r, k, obs)" by (cases d)
  have entry: "key = checkpoint_key (pk_checkpoint_id x)" if "kv_get key (co_kv c) = Some (CheckpointVal x)" for key x
    using coord_ok_entry [OF Cons.prems that] by (simp add: entry_ok_def)
  show ?case
  proof (cases "\<exists>x. coord_get_checkpoint k c = Inr (Some x) \<and> pk_run_id x = r")
    case True
    then obtain x where x: "coord_get_checkpoint k c = Inr (Some x)" "pk_run_id x = r" by blast
    let ?c = "coord_delete_checkpoint k c"
    note get = get_checkpoint_SomeD [OF x(1)] and id = get_checkpoint_id [OF Cons.prems x(1)]
    have "pruned ds (kv_get key (co_kv ?c)) = pruned (d # ds) (kv_get key (co_kv c))" for key
    proof (cases "key = checkpoint_key k")
      case True
      with get x(2) id d show ?thesis by (auto simp: delete_checkpoint_kv pruned_cases)
    next
      case False
      with entry d show ?thesis by (auto simp: delete_checkpoint_kv intro!: pruned_keep [symmetric])
    qed
    with Cons.IH [OF coord_ok_delete [OF Cons.prems, of k]] background.delete_checkpoint [of c k] show ?thesis
      unfolding d prune_records_step [OF Cons.prems] if_P [OF True]
      by (metis converse_rtranclp_into_rtranclp)
  next
    case False
    have "pruned ds (kv_get key (co_kv c)) = pruned (d # ds) (kv_get key (co_kv c))" for key
      unfolding d
    proof (rule pruned_keep [symmetric])
      fix x assume x: "kv_get key (co_kv c) = Some (CheckpointVal x)"
      with entry [OF x] False show "(pk_run_id x, pk_checkpoint_id x) \<noteq> (r, k)"
        by (auto simp: coord_get_checkpoint_def)
    qed
    with Cons.IH [OF Cons.prems] show ?thesis
      unfolding d prune_records_step [OF Cons.prems] if_not_P [OF False] by simp
  qed
qed

section \<open>Properties\<close>

text \<open>The runs whose checkpoints a recovery may still need: active ones and the ones that failed last.\<close>

definition recoverable :: "py_run list \<Rightarrow> py_run \<Rightarrow> bool" where
  "recoverable runs r \<longleftrightarrow>
     r \<in> set runs \<and> (active_state (pr_state r)
       \<or> pr_state r = FAILED \<and> (\<forall>r'\<in>set runs. pr_state r' = FAILED \<longrightarrow> pr_updated_at r' \<le> pr_updated_at r))"

lemma recoverable_retained: "recoverable runs r \<Longrightarrow> pr_run_id r \<in> set (retained_run_ids cfg runs groups)"
  unfolding recoverable_def retained_run_ids_def
  using recoverable_iff [of "pr_run_id r" runs] by (auto simp: active_run_ids_def)

text \<open>
  C33. Retention never takes what a recovery needs. Of a run that is active, or that failed last, a checkpoint is
  deleted only if it was never committed and nothing was written to it during the grace period, or
  if as many committed checkpoints of the run as are to be kept are at least as new and are not deleted.
\<close>

theorem retention_keeps_newest:
  assumes "recoverable runs r" and "(pr_run_id r, k, obs) \<in> set (to_delete cfg runs now objects)"
  shows "\<not> has_manifest (k, obs) \<and> newest obs < now - rc_orphan_grace cfg
    \<or> has_manifest (k, obs)
      \<and> (\<exists>kept. length kept = rc_keep_committed_per_run cfg \<and> distinct (map fst kept)
           \<and> list_all (\<lambda>(k', obs'). ((pr_run_id r, k'), obs') \<in> set (grouped objects) \<and> has_manifest (k', obs')
                \<and> newest obs \<le> newest obs' \<and> (pr_run_id r, k', obs') \<notin> set (to_delete cfg runs now objects)) kept)"
proof -
  let ?n = "rc_keep_committed_per_run cfg"
  from assms(2) obtain cks where cks: "(pr_run_id r, cks) \<in> set (by_run objects)"
    and del: "(pr_run_id r, k, obs) \<in> set (run_deletions cfg (retained_run_ids cfg runs (by_run objects))
        (now - rc_orphan_grace cfg) (pr_run_id r, cks))"
    unfolding to_delete_iff by blast
  let ?s = "by_recency (filter has_manifest cks)"
  note retained = run_deletions_retained [OF recoverable_retained [OF assms(1)]]
  have only: "cks' = cks" if "(pr_run_id r, cks') \<in> set (by_run objects)" for cks'
    using that cks by_run_distinct [of objects] by (auto dest: eq_key_imp_eq_value)
  from del consider "(k, obs) \<in> set (drop ?n ?s)" | "\<not> has_manifest (k, obs)" "newest obs < now - rc_orphan_grace cfg"
    unfolding retained by blast
  then show ?thesis
  proof cases
    case 1
    have dist: "distinct (map fst ?s)" using by_run_checkpoints(1) [OF cks] by (simp add: distinct_map_filter)
    then have disj: "set (map fst (take ?n ?s)) \<inter> set (map fst (drop ?n ?s)) = {}"
      by (metis append_take_drop_id distinct_append map_append)
    have "length (take ?n ?s) = ?n" using 1 by (cases "?n \<le> length ?s") auto
    moreover have "distinct (map fst (take ?n ?s))" using dist by (metis distinct_take take_map)
    moreover have "list_all (\<lambda>(k', obs'). ((pr_run_id r, k'), obs') \<in> set (grouped objects) \<and> has_manifest (k', obs')
        \<and> newest obs \<le> newest obs' \<and> (pr_run_id r, k', obs') \<notin> set (to_delete cfg runs now objects)) (take ?n ?s)"
    proof (clarsimp simp: list_all_iff)
      fix k' obs' assume t: "(k', obs') \<in> set (take ?n ?s)"
      then have m: "(k', obs') \<in> set cks" "has_manifest (k', obs')" by (auto dest: in_set_takeD)
      have "(k', obs') \<notin> set (drop ?n ?s)" using disj t by (auto simp: image_iff)
      with m only have "(pr_run_id r, k', obs') \<notin> set (to_delete cfg runs now objects)"
        unfolding to_delete_iff retained by auto
      with m by_recency_order [OF 1 t] by_run_checkpoints(2) [OF cks]
      show "((pr_run_id r, k'), obs') \<in> set (grouped objects) \<and> has_manifest (k', obs') \<and> newest obs \<le> newest obs'
          \<and> (pr_run_id r, k', obs') \<notin> set (to_delete cfg runs now objects)" by blast
    qed
    moreover have "has_manifest (k, obs)" using 1 by (auto dest!: in_set_dropD)
    ultimately show ?thesis by blast
  qed blast
qed

text \<open>A run with three committed checkpoints and an abandoned upload, of which the newest two committed ones are kept.\<close>

definition sample_run :: py_run where
  "sample_run = fst (coord_create_run (js ''r1'') 1 sample_config coord_empty)\<lparr>pr_state := FAILED\<rparr>"

definition sample_objects :: "s3_object list" where
  "sample_objects =
     map (\<lambda>(key, t). \<lparr>so_key = js key, so_modified = t, so_size = 10\<rparr>)
       [(''r1/k1/a.bin'', 10), (''r1/k1/_manifest.json'', 11), (''r1/k2/a.bin'', 20), (''r1/k2/_manifest.json'', 21),
        (''r1/k3/a.bin'', 30), (''r1/k3/_manifest.json'', 31), (''r1/k4/a.bin'', 5), (''README'', 1)]"

definition sample_retention :: retention_config where
  "sample_retention = retention_from_env 2 1 50"

lemma sample_deletions:
  "map (\<lambda>(r, k, obs). (r, k, map so_modified obs)) (to_delete sample_retention [sample_run] 60 sample_objects) =
     [(js ''r1'', js ''k1'', [10, 11]), (js ''r1'', js ''k4'', [5])]"
  by code_simp

theorem retention_keeps_newest_witness:
  "\<exists>obs. (js ''r1'', js ''k1'', obs) \<in> set (to_delete sample_retention [sample_run] 60 sample_objects)
     \<and> (\<exists>kept. length kept = rc_keep_committed_per_run sample_retention \<and> distinct (map fst kept)
          \<and> list_all (\<lambda>(k', obs'). ((js ''r1'', k'), obs') \<in> set (grouped sample_objects) \<and> has_manifest (k', obs')
               \<and> newest obs \<le> newest obs'
               \<and> (js ''r1'', k', obs') \<notin> set (to_delete sample_retention [sample_run] 60 sample_objects)) kept)"
proof -
  let ?d = "to_delete sample_retention [sample_run] 60 sample_objects"
  have "(js ''r1'', js ''k1'', [10, 11]) \<in> set (map (\<lambda>(r, k, obs). (r, k, map so_modified obs)) ?d)"
    unfolding sample_deletions by simp
  then obtain obs where d: "(js ''r1'', js ''k1'', obs) \<in> set ?d" and t: "map so_modified obs = [10, 11]" by auto
  have r: "recoverable [sample_run] sample_run" and i: "pr_run_id sample_run = js ''r1''" by code_simp+
  have "\<not> newest obs < 60 - rc_orphan_grace sample_retention"
    using t by (simp add: newest_def sample_retention_def retention_from_env_def)
  with retention_keeps_newest [OF r, of "js ''k1''" obs sample_retention 60 sample_objects] d
  show ?thesis unfolding i by blast
qed

text \<open>
  C34. One pass of retention, in every state of the coordinator. When all batches are deleted, exactly the objects of
  the selected checkpoints are deleted, in batches of at most a thousand, the result counts them, and
  the records of these checkpoints are removed, and no others. When a batch reports errors, the
  pass stops at the first one that does: the objects whose deletion was requested are those of the
  batches up to and including it, none of a later batch, and no record is removed. In both cases the
  coordinator changes by steps of the background model only.
\<close>

theorem retention_pass:
  assumes "coord_reachable c"
  shows "\<exists>runs res sent c'. coord_list_runs c = Inr runs
    \<and> retention_run_once cfg now objects deleted c = (res, sent, c') \<and> background\<^sup>*\<^sup>* c c'
    \<and> (let ds = to_delete cfg runs now objects; items = concat (map (\<lambda>(r, k, obs). obs) ds)
       in list_all (\<lambda>b. length b \<le> 1000) (batches items)
          \<and> (if \<forall>i < length (batches items). deleted i
             then res = Inr \<lparr>rr_checkpoints_deleted = length ds, rr_objects_deleted = length items,
                             rr_bytes_freed = sum_list (map so_size items)\<rparr>
               \<and> sent = items \<and> (\<forall>key. kv_get key (co_kv c') = pruned ds (kv_get key (co_kv c)))
             else res = Inl DeleteFailed \<and> c' = c
               \<and> (\<exists>i < length (batches items). \<not> deleted i \<and> (\<forall>j < i. deleted j)
                    \<and> sent = concat (take (Suc i) (batches items)))))"
proof -
  have ok: "coord_ok c" using assms by (rule coord_reachable_ok)
  then obtain runs where runs: "coord_list_runs c = Inr runs" using list_runs_ok by blast
  let ?ds = "to_delete cfg runs now objects"
  let ?items = "concat (map (\<lambda>(r, k, obs). obs) ?ds)"
  obtain b sent where del: "delete_batches deleted 0 (batches ?items) = (b, sent)" by fastforce
  note ds = delete_batches_sent [OF del, unfolded concat_batches add_0]
  have small: "list_all (\<lambda>b. length b \<le> 1000) (batches ?items)" using batches_bounded by (auto simp: list_all_iff)
  obtain e c' where pr: "prune_records ?ds c = (e, c')" by fastforce
  with prune_records_ok [OF ok, of ?ds] have e: "e = None" and bg: "background\<^sup>*\<^sup>* c c'"
    and kv: "\<forall>key. kv_get key (co_kv c') = pruned ?ds (kv_get key (co_kv c))" by simp_all
  show ?thesis
  proof (cases b)
    case True
    with ds have "sent = ?items" "\<forall>i < length (batches ?items). deleted i" by simp_all
    with True small bg kv del pr e runs show ?thesis by (simp add: retention_run_once_def Let_def)
  next
    case False
    with del runs have eq: "retention_run_once cfg now objects deleted c = (Inl DeleteFailed, sent, c)"
      by (simp add: retention_run_once_def Let_def)
    from False ds have first: "\<exists>i < length (batches ?items). \<not> deleted i \<and> (\<forall>j < i. deleted j)
        \<and> sent = concat (take (Suc i) (batches ?items))" by simp
    moreover from first have "\<not> (\<forall>i < length (batches ?items). deleted i)" by blast
    ultimately show ?thesis
      unfolding Let_def using eq runs small by (intro exI [of _ runs] exI [of _ "Inl DeleteFailed"] exI [of _ sent] exI [of _ c]) auto
  qed
qed

text \<open>A pass over the sample objects whose only batch fails.\<close>

lemma sample_pass_items:
  "case coord_list_runs sample_coord of
     Inl e \<Rightarrow> False
   | Inr runs \<Rightarrow> length (batches (concat (map (\<lambda>(r, k, obs). obs) (to_delete sample_retention runs 60 sample_objects)))) = 1"
  by code_simp

theorem retention_pass_witness:
  "\<exists>sent. retention_run_once sample_retention 60 sample_objects (\<lambda>i. False) sample_coord = (Inl DeleteFailed, sent, sample_coord)
     \<and> (\<exists>runs. coord_list_runs sample_coord = Inr runs
          \<and> sent = concat (map (\<lambda>(r, k, obs). obs) (to_delete sample_retention runs 60 sample_objects)))"
proof -
  from retention_pass [OF sample_coord_reachable, of sample_retention 60 sample_objects "\<lambda>i. False"]
  obtain runs res sent c' where r: "coord_list_runs sample_coord = Inr runs"
    "retention_run_once sample_retention 60 sample_objects (\<lambda>i. False) sample_coord = (res, sent, c')"
    and p: "let items = concat (map (\<lambda>(r, k, obs). obs) (to_delete sample_retention runs 60 sample_objects))
      in if \<forall>i < length (batches items). False then True
         else res = Inl DeleteFailed \<and> c' = sample_coord \<and> (\<exists>i < length (batches items). sent = concat (take (Suc i) (batches items)))"
    unfolding Let_def by (metis (no_types, lifting))
  let ?items = "concat (map (\<lambda>(r, k, obs). obs) (to_delete sample_retention runs 60 sample_objects))"
  have one: "length (batches ?items) = 1" using sample_pass_items r(1) by simp
  then have "\<not> (\<forall>i < length (batches ?items). False)" by auto
  with p have "res = Inl DeleteFailed" "c' = sample_coord" "\<exists>i < length (batches ?items). sent = concat (take (Suc i) (batches ?items))"
    unfolding Let_def by presburger+
  with r one show ?thesis by (auto simp: concat_batches)
qed

end
