(* ===== verification/Fleet.thy ===== *)
theory Fleet
  imports CheckpointApi
begin

text \<open>
  The workers of the control plane: the leases and the monitor of
  \<open>python-controlplane/src/controlplane/heartbeat.py\<close>, the index of
  \<open>python-controlplane/src/controlplane/worker_manager.py\<close> and the worker routes of
  \<open>python-controlplane/src/controlplane/api/rest.py\<close>.

  A lease is an object that the table of leases and the snapshot of a running scan share, so that
  leases are kept in a store of objects and the tables hold references to it; removing a lease
  marks its object dead for a scan that still holds it. A worker is known three times: as a
  record of the store, in the index of the worker manager, and by its lease. The invariant \<open>fleet_ok\<close>
  relates the three. All of the code below runs in one event loop without suspending, so each
  operation is one step; the monotonic clock (seconds), the wall clock and new identifiers are
  arguments. The set of worker identifiers of a run is a list without an intended order.

  The theory proves that every operation keeps the invariant and follows the steps that the
  checkpoint protocol allows to the monitors; the failure callbacks are those of the theory
  \<open>Recovery\<close>.
\<close>

section \<open>State\<close>

record heartbeat_config =
  hc_interval_seconds :: real
  hc_timeout_seconds :: real
  hc_dead_threshold_seconds :: real
  hc_monitor_poll_seconds :: real

text \<open>\<open>a or b or d\<close> on optional numbers: zero counts as not given.\<close>

definition or_default :: "real option \<Rightarrow> real option \<Rightarrow> real \<Rightarrow> real" where
  "or_default a b d =
     (if a \<noteq> None \<and> a \<noteq> Some 0 then the a else if b \<noteq> None \<and> b \<noteq> Some 0 then the b else d)"

definition new_heartbeat_config ::
  "real option \<Rightarrow> real option \<Rightarrow> real option \<Rightarrow> real option \<Rightarrow>
   real option \<Rightarrow> real option \<Rightarrow> real option \<Rightarrow> real option \<Rightarrow> heartbeat_config" where
  "new_heartbeat_config interval timeout dead poll heartbeat_interval lease_ttl failure_threshold check_interval =
     \<lparr>hc_interval_seconds = or_default heartbeat_interval interval 10,
      hc_timeout_seconds = or_default lease_ttl timeout 30,
      hc_dead_threshold_seconds = or_default failure_threshold dead 60,
      hc_monitor_poll_seconds = or_default check_interval poll 5\<rparr>"

record lease =
  le_worker_id :: jsstring
  le_run_id :: jsstring
  le_last_heartbeat :: real
  le_last_step :: int
  le_is_alive :: bool

text \<open>
  The application: the API with its coordinator, the heartbeat manager (objects and table of
  leases), the worker manager (index, identifiers by run, rank counters), the recovery manager (runs
  being recovered, selected checkpoints), the supervisor of the worker containers (run whose
  restart is in flight, restart threads that have not ended), and the activity feed of the demo
  (message, flag and time, the newest first).
\<close>

record fleet =
  fl_api :: api
  fl_objects :: "lease list"
  fl_leases :: "(jsstring \<times> nat) list"
  fl_workers :: "(jsstring \<times> py_worker) list"
  fl_run_workers :: "(jsstring \<times> jsstring list) list"
  fl_rank_counters :: "(jsstring \<times> int) list"
  fl_recovering :: "jsstring list"
  fl_recovery_checkpoints :: "(jsstring \<times> jsstring option) list"
  fl_in_flight :: "jsstring option"
  fl_threads :: "jsstring list"
  fl_activity :: "(jsstring \<times> jsstring \<times> int) list"

abbreviation fl_coord :: "fleet \<Rightarrow> coordinator" where
  "fl_coord f \<equiv> ai_coord (fl_api f)"

definition with_coord :: "coordinator \<Rightarrow> fleet \<Rightarrow> fleet" where
  "with_coord c f = f\<lparr>fl_api := (fl_api f)\<lparr>ai_coord := c\<rparr>\<rparr>"

section \<open>Leases\<close>

definition lease_touch :: "int \<Rightarrow> real \<Rightarrow> lease \<Rightarrow> lease" where
  "lease_touch stp clk l = l\<lparr>le_last_heartbeat := clk, le_last_step := stp, le_is_alive := True\<rparr>"

definition seconds_since_heartbeat :: "real \<Rightarrow> lease \<Rightarrow> real" where
  "seconds_since_heartbeat clk l = clk - le_last_heartbeat l"

definition lease_is_expired :: "real \<Rightarrow> real \<Rightarrow> lease \<Rightarrow> bool" where
  "lease_is_expired timeout clk l = (seconds_since_heartbeat clk l > timeout)"

definition get_lease :: "jsstring \<Rightarrow> fleet \<Rightarrow> lease option" where
  "get_lease worker_id f = map_option (\<lambda>r. fl_objects f ! r) (map_of (fl_leases f) worker_id)"

definition lease_register :: "jsstring \<Rightarrow> jsstring \<Rightarrow> real \<Rightarrow> fleet \<Rightarrow> fleet" where
  "lease_register worker_id run_id clk f =
     f\<lparr>fl_objects := fl_objects f @
         [\<lparr>le_worker_id = worker_id, le_run_id = run_id, le_last_heartbeat = clk, le_last_step = 0, le_is_alive = True\<rparr>],
       fl_leases := AList.update worker_id (length (fl_objects f)) (fl_leases f)\<rparr>"

definition lease_unregister :: "jsstring \<Rightarrow> fleet \<Rightarrow> fleet" where
  "lease_unregister worker_id f =
     (case map_of (fl_leases f) worker_id of
        None \<Rightarrow> f
      | Some r \<Rightarrow> f\<lparr>fl_leases := AList.delete worker_id (fl_leases f),
                    fl_objects := (fl_objects f)[r := (fl_objects f ! r)\<lparr>le_is_alive := False\<rparr>]\<rparr>)"

definition record_heartbeat :: "jsstring \<Rightarrow> int \<Rightarrow> real \<Rightarrow> fleet \<Rightarrow> lease option \<times> fleet" where
  "record_heartbeat worker_id stp clk f =
     (case map_of (fl_leases f) worker_id of
        None \<Rightarrow> (None, f)
      | Some r \<Rightarrow>
          let l = lease_touch stp clk (fl_objects f ! r)
          in (Some l, f\<lparr>fl_objects := (fl_objects f)[r := l]\<rparr>))"

text \<open>The argument rounds to two decimals.\<close>

definition get_heartbeat_lags :: "(real \<Rightarrow> real) \<Rightarrow> real \<Rightarrow> fleet \<Rightarrow> (jsstring \<times> real) list" where
  "get_heartbeat_lags round2 clk f =
     map (\<lambda>(w, r). (w, round2 (seconds_since_heartbeat clk (fl_objects f ! r))))
       (filter (\<lambda>(w, r). le_is_alive (fl_objects f ! r)) (fl_leases f))"

section \<open>The worker manager\<close>

definition set_status :: "jsstring \<Rightarrow> string \<Rightarrow> fleet \<Rightarrow> fleet" where
  "set_status worker_id status f =
     (case map_of (fl_workers f) worker_id of
        None \<Rightarrow> f
      | Some w \<Rightarrow> f\<lparr>fl_workers := AList.update worker_id (w\<lparr>pw_status := status\<rparr>) (fl_workers f)\<rparr>)"

definition run_worker_ids :: "jsstring \<Rightarrow> fleet \<Rightarrow> jsstring list" where
  "run_worker_ids run_id f = given (map_of (fl_run_workers f) run_id) []"

definition index_worker :: "py_worker \<Rightarrow> fleet \<Rightarrow> fleet" where
  "index_worker w f =
     f\<lparr>fl_workers := AList.update (pw_worker_id w) w (fl_workers f),
       fl_run_workers := AList.update (pw_run_id w) (List.insert (pw_worker_id w) (run_worker_ids (pw_run_id w) f))
         (fl_run_workers f)\<rparr>"

definition raise_counter :: "jsstring \<Rightarrow> int \<Rightarrow> fleet \<Rightarrow> fleet" where
  "raise_counter run_id rank f =
     f\<lparr>fl_rank_counters :=
         AList.update run_id (max (given (map_of (fl_rank_counters f) run_id) 0) (rank + 1)) (fl_rank_counters f)\<rparr>"

definition next_rank :: "jsstring \<Rightarrow> fleet \<Rightarrow> int \<times> fleet" where
  "next_rank run_id f =
     (let rank = given (map_of (fl_rank_counters f) run_id) 0
      in (rank, f\<lparr>fl_rank_counters := AList.update run_id (rank + 1) (fl_rank_counters f)\<rparr>))"

text \<open>
  Marking a worker in the store with \<open>KeyError\<close> suppressed: another exception is passed on, together
  with the state at that point.
\<close>

definition mark_suppressed :: "jsstring \<Rightarrow> jsstring \<Rightarrow> string \<Rightarrow> fleet \<Rightarrow> coord_error option \<times> fleet" where
  "mark_suppressed run_id worker_id status f =
     (case mark_worker_dead run_id worker_id status (fl_coord f) of
        (Inl e, c) \<Rightarrow> ((if e = KeyError then None else Some e), with_coord c f)
      | (Inr w, c) \<Rightarrow> (None, with_coord c f))"

text \<open>A restarted process keeps its rank: earlier registrations of the rank are retired.\<close>

fun supersede :: "jsstring \<Rightarrow> int \<Rightarrow> jsstring list \<Rightarrow> fleet \<Rightarrow> coord_error option \<times> fleet" where
  "supersede run_id rank [] f = (None, f)"
| "supersede run_id rank (old # olds) f =
     (case map_of (fl_workers f) old of
        None \<Rightarrow> supersede run_id rank olds f
      | Some w \<Rightarrow>
          if pw_rank w = rank \<and> pw_status w = ''ACTIVE''
          then (case mark_suppressed run_id old ''SUPERSEDED'' (set_status old ''SUPERSEDED'' f) of
                  (Some e, f1) \<Rightarrow> (Some e, f1)
                | (None, f1) \<Rightarrow> supersede run_id rank olds (lease_unregister old f1))
          else supersede run_id rank olds f)"

definition wm_register_worker ::
  "jsstring \<Rightarrow> jsstring \<Rightarrow> jsstring \<Rightarrow> int option \<Rightarrow> int \<Rightarrow> real \<Rightarrow> fleet \<Rightarrow> (coord_error + py_worker) \<times> fleet" where
  "wm_register_worker worker_id run_id hostname rank now clk f =
     (case (case rank of
              None \<Rightarrow> (case next_rank run_id f of (r, f1) \<Rightarrow> (r, None, f1))
            | Some r \<Rightarrow> (r, supersede run_id r (run_worker_ids run_id f) (raise_counter run_id r f))) of
        (r, Some e, f1) \<Rightarrow> (Inl e, f1)
      | (r, None, f1) \<Rightarrow>
          (case coord_register_worker worker_id run_id r hostname now (fl_coord f1) of (w, c) \<Rightarrow>
             (Inr w, lease_register worker_id run_id clk (index_worker w (with_coord c f1)))))"

definition wm_deregister_worker :: "jsstring \<Rightarrow> fleet \<Rightarrow> coord_error option \<times> fleet" where
  "wm_deregister_worker worker_id f =
     (case map_of (fl_workers f) worker_id of
        None \<Rightarrow> (None, lease_unregister worker_id f)
      | Some w \<Rightarrow>
          let f1 = set_status worker_id ''DEREGISTERED'' f;
              f2 = (if run_worker_ids (pw_run_id w) f1 \<noteq> []
                    then f1\<lparr>fl_run_workers := AList.update (pw_run_id w)
                             (removeAll worker_id (run_worker_ids (pw_run_id w) f1)) (fl_run_workers f1)\<rparr>
                    else f1)
          in (case mark_suppressed (pw_run_id w) worker_id ''DEREGISTERED'' f2 of
                (Some e, f3) \<Rightarrow> (Some e, f3)
              | (None, f3) \<Rightarrow> (None, lease_unregister worker_id f3)))"

text \<open>The step of the run follows the largest step that a heartbeat reports; errors are ignored.\<close>

definition propagate_step :: "jsstring \<Rightarrow> int \<Rightarrow> int \<Rightarrow> fleet \<Rightarrow> fleet" where
  "propagate_step run_id stp now f =
     (if stp > 0
      then (case coord_get_run run_id (fl_coord f) of
              Inr (Some run) \<Rightarrow>
                if stp > pr_current_step run
                then with_coord (snd (update_run_step run_id stp now (fl_coord f))) f else f
            | _ \<Rightarrow> f)
      else f)"

definition update_worker_heartbeat ::
  "jsstring \<Rightarrow> int \<Rightarrow> int \<Rightarrow> real \<Rightarrow> fleet \<Rightarrow> (coord_error + py_worker option) \<times> fleet" where
  "update_worker_heartbeat worker_id stp now clk f =
     (case map_of (fl_workers f) worker_id of
        None \<Rightarrow> (Inr None, f)
      | Some w \<Rightarrow>
          if pw_status w \<noteq> ''ACTIVE'' then (Inr None, f)
          else
            (case coord_heartbeat (pw_run_id w) worker_id stp now (fl_coord f) of
               (Inl e, c) \<Rightarrow> ((if e = KeyError then Inr None else Inl e), with_coord c f)
             | (Inr updated, c) \<Rightarrow>
                 let f1 = (with_coord c f)\<lparr>fl_workers := AList.update worker_id updated (fl_workers f)\<rparr>;
                     f2 = propagate_step (pw_run_id w) stp now f1
                 in (Inr (Some updated), snd (record_heartbeat worker_id stp clk f2))))"

definition get_run_workers :: "jsstring \<Rightarrow> fleet \<Rightarrow> py_worker list" where
  "get_run_workers run_id f = List.map_filter (map_of (fl_workers f)) (run_worker_ids run_id f)"

definition list_all_workers :: "fleet \<Rightarrow> py_worker list" where
  "list_all_workers f = map snd (fl_workers f)"

definition active_worker_count :: "jsstring \<Rightarrow> fleet \<Rightarrow> nat" where
  "active_worker_count run_id f = length (filter (\<lambda>w. pw_status w = ''ACTIVE'') (get_run_workers run_id f))"

definition wm_on_worker_failure :: "jsstring \<Rightarrow> jsstring \<Rightarrow> fleet \<Rightarrow> fleet" where
  "wm_on_worker_failure worker_id run_id f = set_status worker_id ''DEAD'' f"

text \<open>A new process rebuilds the index and the leases from the store.\<close>

fun rehydrate :: "py_worker list \<Rightarrow> real \<Rightarrow> fleet \<Rightarrow> fleet" where
  "rehydrate [] clk f = f"
| "rehydrate (w # ws) clk f =
     (let f1 = raise_counter (pw_run_id w) (pw_rank w) (index_worker w f);
          f2 = (if pw_status w = ''ACTIVE'' then lease_register (pw_worker_id w) (pw_run_id w) clk f1 else f1)
      in rehydrate ws clk f2)"

definition new_process :: "coordinator \<Rightarrow> fleet" where
  "new_process c =
     \<lparr>fl_api = \<lparr>ai_coord = c\<lparr>co_fsms := []\<rparr>, ai_shards = [], ai_durations = [], ai_commits = 0,
                ai_restart_attempts = [], ai_published = []\<rparr>,
      fl_objects = [], fl_leases = [], fl_workers = [], fl_run_workers = [], fl_rank_counters = [],
      fl_recovering = [], fl_recovery_checkpoints = [], fl_in_flight = None, fl_threads = [], fl_activity = []\<rparr>"

definition restart_control_plane :: "real \<Rightarrow> fleet \<Rightarrow> coord_error + fleet" where
  "restart_control_plane clk f =
     (case coord_list_workers None (fl_coord f) of
        Inl e \<Rightarrow> Inl e
      | Inr ws \<Rightarrow> Inr (rehydrate ws clk (new_process (fl_coord f))))"

section \<open>Routes\<close>

definition rest_list_workers :: "jsstring option \<Rightarrow> fleet \<Rightarrow> py_worker list" where
  "rest_list_workers run_id f =
     (case run_id of
        Some r \<Rightarrow> if r \<noteq> [] then get_run_workers r f else list_all_workers f
      | None \<Rightarrow> list_all_workers f)"

definition rest_register_worker ::
  "jsstring \<Rightarrow> jsstring \<Rightarrow> jsstring \<Rightarrow> int option \<Rightarrow> int \<Rightarrow> real \<Rightarrow> fleet \<Rightarrow> py_worker http \<times> fleet" where
  "rest_register_worker worker_id run_id hostname rank now clk f =
     (case wm_register_worker worker_id run_id hostname rank now clk f of
        (Inl e, f1) \<Rightarrow> (HttpError 500, f1)
      | (Inr w, f1) \<Rightarrow> (Ok w, f1))"

definition rest_worker_heartbeat :: "jsstring \<Rightarrow> int \<Rightarrow> int \<Rightarrow> real \<Rightarrow> fleet \<Rightarrow> jsstring http \<times> fleet" where
  "rest_worker_heartbeat worker_id stp now clk f =
     (let known = map_of (fl_workers f) worker_id
      in if (case known of Some w \<Rightarrow> pw_status w \<in> {''SUPERSEDED'', ''DEREGISTERED''} | None \<Rightarrow> False)
         then (HttpError 409, f)
         else (case update_worker_heartbeat worker_id stp now clk f of
                 (Inl e, f1) \<Rightarrow> (HttpError 500, f1)
               | (Inr None, f1) \<Rightarrow> (HttpError 404, f1)
               | (Inr (Some w), f1) \<Rightarrow> (Ok worker_id, f1)))"

definition rest_deregister_worker :: "jsstring \<Rightarrow> fleet \<Rightarrow> jsstring http \<times> fleet" where
  "rest_deregister_worker worker_id f =
     (case wm_deregister_worker worker_id f of
        (Some e, f1) \<Rightarrow> (HttpError 500, f1)
      | (None, f1) \<Rightarrow> (Ok worker_id, f1))"

section \<open>The monitor\<close>

text \<open>
  A callback gets the worker, its run and the two clocks. An exception of a callback is logged, the
  state is the one at that point.
\<close>

type_synonym callback = "jsstring \<Rightarrow> jsstring \<Rightarrow> int \<Rightarrow> real \<Rightarrow> fleet \<Rightarrow> fleet"

definition fire_failure :: "callback list \<Rightarrow> jsstring \<Rightarrow> jsstring \<Rightarrow> int \<Rightarrow> real \<Rightarrow> fleet \<Rightarrow> fleet" where
  "fire_failure callbacks run_id worker_id now clk f = fold (\<lambda>cb. cb worker_id run_id now clk) callbacks f"

definition check_lease :: "heartbeat_config \<Rightarrow> callback list \<Rightarrow> int \<Rightarrow> real \<Rightarrow> jsstring \<times> nat \<Rightarrow> fleet \<Rightarrow> fleet" where
  "check_lease cfg callbacks now clk = (\<lambda>(worker_id, r) f.
     let l = fl_objects f ! r
     in if \<not> le_is_alive l then f
        else if seconds_since_heartbeat clk l > hc_dead_threshold_seconds cfg
        then let f1 = f\<lparr>fl_objects := (fl_objects f)[r := l\<lparr>le_is_alive := False\<rparr>]\<rparr>;
                 f2 = with_coord (snd (mark_worker_dead (le_run_id l) worker_id ''DEAD'' (fl_coord f1))) f1
             in fire_failure callbacks (le_run_id l) worker_id now clk f2
        else f)"

text \<open>The clocks are read for every lease of the snapshot.\<close>

fun check_leases ::
  "heartbeat_config \<Rightarrow> callback list \<Rightarrow> (nat \<Rightarrow> int \<times> real) \<Rightarrow> nat \<Rightarrow> (jsstring \<times> nat) list \<Rightarrow> fleet \<Rightarrow> fleet" where
  "check_leases cfg callbacks clock n [] f = f"
| "check_leases cfg callbacks clock n (x # xs) f =
     check_leases cfg callbacks clock (Suc n) xs
       (check_lease cfg callbacks (fst (clock n)) (snd (clock n)) x f)"

definition check_workers :: "heartbeat_config \<Rightarrow> callback list \<Rightarrow> (nat \<Rightarrow> int \<times> real) \<Rightarrow> fleet \<Rightarrow> fleet" where
  "check_workers cfg callbacks clock f = check_leases cfg callbacks clock 0 (fl_leases f) f"

section \<open>Lemmas\<close>

declare map_of_eq_Some_iff [simp del] Some_eq_map_of_iff [simp del]

subsection \<open>Leases\<close>

definition leases_valid :: "fleet \<Rightarrow> bool" where
  "leases_valid f =
     (distinct (map fst (fl_leases f))
      \<and> (\<forall>w r. map_of (fl_leases f) w = Some r \<longrightarrow> r < length (fl_objects f) \<and> le_worker_id (fl_objects f ! r) = w))"

text \<open>
  What the worker manager relies on: a lease table is a map from workers to leases. A lease is
  created alive, renewed by a heartbeat, and gone after its removal; the leases of other workers
  are not touched.
\<close>

locale lease_manager =
  fixes look :: "jsstring \<Rightarrow> 's \<Rightarrow> lease option"
    and register :: "jsstring \<Rightarrow> jsstring \<Rightarrow> real \<Rightarrow> 's \<Rightarrow> 's"
    and unregister :: "jsstring \<Rightarrow> 's \<Rightarrow> 's"
    and beat :: "jsstring \<Rightarrow> int \<Rightarrow> real \<Rightarrow> 's \<Rightarrow> 's"
    and valid :: "'s \<Rightarrow> bool"
  assumes look_register: "valid s \<Longrightarrow> look w (register v i t s) =
      (if w = v then Some \<lparr>le_worker_id = v, le_run_id = i, le_last_heartbeat = t, le_last_step = 0, le_is_alive = True\<rparr>
       else look w s)"
    and look_unregister: "valid s \<Longrightarrow> look w (unregister v s) = (if w = v then None else look w s)"
    and look_beat: "valid s \<Longrightarrow> look w (beat v n t s) = (if w = v then map_option (lease_touch n t) (look w s) else look w s)"
    and valid_register: "valid s \<Longrightarrow> valid (register v i t s)"
    and valid_unregister: "valid s \<Longrightarrow> valid (unregister v s)"
    and valid_beat: "valid s \<Longrightarrow> valid (beat v n t s)"
begin

lemma register_alive: "valid s \<Longrightarrow> \<exists>l. look v (register v i t s) = Some l \<and> le_is_alive l \<and> le_run_id l = i"
  by (simp add: look_register)

lemma beat_alive: "valid s \<Longrightarrow> look w (beat w n t s) = Some l \<Longrightarrow> le_is_alive l \<and> le_last_heartbeat l = t"
  by (auto simp: look_beat lease_touch_def)

lemma unregister_unregister: "valid s \<Longrightarrow> look w (unregister v (unregister v s)) = look w (unregister v s)"
  by (simp add: look_unregister valid_unregister)

end

lemma leases_valid_ref:
  "leases_valid f \<Longrightarrow> map_of (fl_leases f) w = Some r \<Longrightarrow> r < length (fl_objects f) \<and> le_worker_id (fl_objects f ! r) = w"
  by (simp add: leases_valid_def)

lemma leases_valid_inj:
  "leases_valid f \<Longrightarrow> map_of (fl_leases f) w = Some r \<Longrightarrow> map_of (fl_leases f) v = Some r \<Longrightarrow> v = w"
  using leases_valid_ref by blast

lemma leases_valid_write:
  "leases_valid f \<Longrightarrow> le_worker_id l = le_worker_id (fl_objects f ! r) \<Longrightarrow>
   leases_valid (f\<lparr>fl_objects := (fl_objects f)[r := l]\<rparr>)"
  by (cases "r < length (fl_objects f)") (auto simp: leases_valid_def nth_list_update list_update_beyond)

lemma leases_valid_delete: "leases_valid f \<Longrightarrow> leases_valid (f\<lparr>fl_leases := AList.delete w (fl_leases f)\<rparr>)"
  by (auto simp: leases_valid_def AList.distinct_delete AList.delete_conv' split: if_splits)

interpretation leases: lease_manager get_lease lease_register lease_unregister
  "\<lambda>w n t f. snd (record_heartbeat w n t f)" leases_valid
proof
  fix w v i t n and f :: fleet
  assume ok: "leases_valid f"
  show "get_lease w (lease_register v i t f) =
      (if w = v then Some \<lparr>le_worker_id = v, le_run_id = i, le_last_heartbeat = t, le_last_step = 0, le_is_alive = True\<rparr>
       else get_lease w f)"
    using leases_valid_ref [OF ok, of w]
    by (cases "map_of (fl_leases f) w") (auto simp: get_lease_def lease_register_def AList.update_conv' nth_append)
  show "get_lease w (lease_unregister v f) = (if w = v then None else get_lease w f)"
    using leases_valid_inj [OF ok, of v _ w]
    by (auto simp: get_lease_def lease_unregister_def AList.delete_conv' split: option.splits)
      (cases "map_of (fl_leases f) w"; fastforce)
  show "get_lease w (snd (record_heartbeat v n t f)) = (if w = v then map_option (lease_touch n t) (get_lease w f) else get_lease w f)"
    using leases_valid_inj [OF ok, of v _ w] leases_valid_ref [OF ok, of v]
    by (auto simp: get_lease_def record_heartbeat_def Let_def split: option.splits)
      (cases "map_of (fl_leases f) w"; fastforce)
  show "leases_valid (lease_register v i t f)"
    using ok
    by (auto simp: leases_valid_def lease_register_def AList.distinct_update AList.update_conv' nth_append less_Suc_eq)
  show "leases_valid (lease_unregister v f)"
    using ok leases_valid_write [OF leases_valid_delete [OF ok]]
    by (auto simp: lease_unregister_def split: option.splits)
  show "leases_valid (snd (record_heartbeat v n t f))"
    using ok leases_valid_write [OF ok]
    by (auto simp: record_heartbeat_def Let_def lease_touch_def split: option.splits)
qed

subsection \<open>Keys of workers\<close>

text \<open>Identifiers are hexadecimal numbers, so they have no slash.\<close>

definition plain :: "jsstring \<Rightarrow> bool" where
  "plain s = (Ch (CHR ''/'') \<notin> set s)"

lemma last_separator:
  "c \<notin> set ys \<Longrightarrow> c \<notin> set ys' \<Longrightarrow> xs @ c # ys = xs' @ c # ys' \<longleftrightarrow> xs = xs' \<and> ys = ys'"
  by (auto simp: append_eq_append_conv2 Cons_eq_append_conv append_eq_Cons_conv)

lemma worker_key_inject:
  "plain w \<Longrightarrow> plain w' \<Longrightarrow> worker_key r w = worker_key r' w' \<longleftrightarrow> r = r' \<and> w = w'"
  using last_separator [of "Ch (CHR ''/'')" w w' r r'] by (simp add: worker_key_def plain_def js_simps)

text \<open>The record of a worker in the store.\<close>

abbreviation stored :: "coordinator \<Rightarrow> jsstring \<Rightarrow> jsstring \<Rightarrow> kv_value option" where
  "stored c r w \<equiv> kv_get (worker_key r w) (co_kv c)"

lemma stored_key:
  "coord_ok c \<Longrightarrow> stored c r w = Some (WorkerVal x) \<Longrightarrow> worker_key (pw_run_id x) (pw_worker_id x) = worker_key r w"
  using coord_ok_entry [of c "worker_key r w" "WorkerVal x"] by (simp add: entry_ok_def)

lemma stored_worker: "coord_ok c \<Longrightarrow> stored c r w = Some v \<Longrightarrow> \<exists>x. v = WorkerVal x"
  using coord_ok_entry [of c "worker_key r w" v] by (auto simp: entry_ok_def split: kv_value.splits)

lemma stored_other [simp]:
  "stored (snd (transition_run i t now c)) r w = stored c r w"
  "stored (snd (set_run_error i msg now c)) r w = stored c r w"
  "stored (snd (update_run_step i n now c)) r w = stored c r w"
  "stored (snd (update_checkpoint_state k st a b ids now c)) r w = stored c r w"
  by (auto simp: transition_run_def set_run_error_def update_run_step_def update_checkpoint_state_def ensure_fsm_def
      persist_run_def Let_def get_put split: sum.splits option.splits prod.splits)

lemma mark_stored:
  assumes "stored c r w = Some (WorkerVal x)"
  shows "fst (mark_worker_dead r w st c) = Inr (x\<lparr>pw_status := st\<rparr>)"
    and "kv_get k (co_kv (snd (mark_worker_dead r w st c))) =
      (if k = worker_key r w then Some (WorkerVal (x\<lparr>pw_status := st\<rparr>)) else kv_get k (co_kv c))"
  using assms by (simp_all add: mark_worker_dead_def update_worker_def worker_of_def get_put)

lemma heartbeat_stored:
  assumes "stored c r w = Some (WorkerVal x)"
    and "y = x\<lparr>pw_last_heartbeat := Some now, pw_current_step := n, pw_status := ''ACTIVE''\<rparr>"
  shows "fst (coord_heartbeat r w n now c) = Inr y"
    and "kv_get k (co_kv (snd (coord_heartbeat r w n now c))) =
      (if k = worker_key r w then Some (WorkerVal y) else kv_get k (co_kv c))"
  using assms by (simp_all add: coord_heartbeat_def update_worker_def worker_of_def get_put)

subsection \<open>The index\<close>

definition active :: "fleet \<Rightarrow> jsstring \<Rightarrow> py_worker \<Rightarrow> bool" where
  "active f wid w = (map_of (fl_workers f) wid = Some w \<and> pw_status w = ''ACTIVE'')"

text \<open>An indexed worker is stored with the same data; only the kind of an inactive status may differ.\<close>

definition agree :: "py_worker \<Rightarrow> py_worker \<Rightarrow> bool" where
  "agree w x = (\<exists>st. x = w\<lparr>pw_status := st\<rparr> \<and> (st = ''ACTIVE'' \<longleftrightarrow> pw_status w = ''ACTIVE''))"

definition worker_ok :: "fleet \<Rightarrow> jsstring \<Rightarrow> py_worker \<Rightarrow> bool" where
  "worker_ok f wid w =
     (pw_worker_id w = wid \<and> plain wid \<and> plain (pw_run_id w) \<and> pw_run_id w \<noteq> []
      \<and> (\<exists>x. stored (fl_coord f) (pw_run_id w) wid = Some (WorkerVal x) \<and> agree w x)
      \<and> pw_rank w < given (map_of (fl_rank_counters f) (pw_run_id w)) 0
      \<and> (pw_status w = ''ACTIVE'' \<longrightarrow> wid \<in> set (run_worker_ids (pw_run_id w) f)))"

definition index_ok :: "fleet \<Rightarrow> bool" where
  "index_ok f =
     (coord_ok (fl_coord f)
      \<and> distinct (map fst (fl_workers f))
      \<and> (\<forall>wid w. map_of (fl_workers f) wid = Some w \<longrightarrow> worker_ok f wid w)
      \<and> (\<forall>r. distinct (run_worker_ids r f))
      \<and> (\<forall>r wid. wid \<in> set (run_worker_ids r f) \<longrightarrow> (\<exists>w. map_of (fl_workers f) wid = Some w \<and> pw_run_id w = r))
      \<and> (\<forall>r wid x. stored (fl_coord f) r wid = Some (WorkerVal x) \<longrightarrow>
           (\<exists>w. map_of (fl_workers f) (pw_worker_id x) = Some w \<and> pw_run_id w = pw_run_id x))
      \<and> (\<forall>wid w wid' w'. active f wid w \<longrightarrow> active f wid' w' \<longrightarrow> pw_run_id w = pw_run_id w' \<longrightarrow>
           pw_rank w = pw_rank w' \<longrightarrow> wid = wid'))"

definition leases_ok :: "fleet \<Rightarrow> bool" where
  "leases_ok f =
     (leases_valid f
      \<and> (\<forall>wid l. get_lease wid f = Some l \<longrightarrow> le_is_alive l \<longrightarrow> (\<exists>w. active f wid w \<and> pw_run_id w = le_run_id l))
      \<and> (\<forall>wid w. active f wid w \<longrightarrow> (\<exists>l. get_lease wid f = Some l \<and> le_is_alive l)))"

definition fleet_ok :: "fleet \<Rightarrow> bool" where
  "fleet_ok f = (index_ok f \<and> leases_ok f)"

lemma index_ok_worker: "index_ok f \<Longrightarrow> map_of (fl_workers f) wid = Some w \<Longrightarrow> worker_ok f wid w"
  by (simp add: index_ok_def)

lemma index_ok_ids:
  "index_ok f \<Longrightarrow> wid \<in> set (run_worker_ids r f) \<Longrightarrow> \<exists>w. map_of (fl_workers f) wid = Some w \<and> pw_run_id w = r"
  unfolding index_ok_def by blast

lemma index_ok_ranks:
  "index_ok f \<Longrightarrow> active f wid w \<Longrightarrow> active f wid' w' \<Longrightarrow> pw_run_id w = pw_run_id w' \<Longrightarrow> pw_rank w = pw_rank w' \<Longrightarrow>
   wid = wid'"
  unfolding index_ok_def by blast

lemma index_ok_known:
  "index_ok f \<Longrightarrow> stored (fl_coord f) r wid = Some (WorkerVal x) \<Longrightarrow>
   \<exists>w. map_of (fl_workers f) (pw_worker_id x) = Some w \<and> pw_run_id w = pw_run_id x"
  unfolding index_ok_def by blast

lemma index_ok_stored:
  assumes "index_ok f" "map_of (fl_workers f) wid = Some w"
  obtains x where "stored (fl_coord f) (pw_run_id w) wid = Some (WorkerVal x)" "agree w x"
  using index_ok_worker [OF assms] by (auto simp: worker_ok_def)

text \<open>
  Retiring a worker: it gets an inactive status in the index, an inactive status in the store, and
  may leave the set of its run; nothing else of the index changes.
\<close>

lemma index_retire:
  assumes ok: "index_ok f" and w: "map_of (fl_workers f) wid = Some w"
    and c: "coord_ok (fl_coord g)" and st: "st \<noteq> ''ACTIVE''"
    and x: "stored (fl_coord g) (pw_run_id w) wid = Some (WorkerVal x)" "agree (w\<lparr>pw_status := st\<rparr>) x"
    and other: "\<And>r v. worker_key r v \<noteq> worker_key (pw_run_id w) wid \<Longrightarrow> stored (fl_coord g) r v = stored (fl_coord f) r v"
    and index: "fl_workers g = AList.update wid (w\<lparr>pw_status := st\<rparr>) (fl_workers f)"
    and runs: "\<And>r. run_worker_ids r g = run_worker_ids r f \<or> run_worker_ids r g = removeAll wid (run_worker_ids r f)"
    and ranks: "fl_rank_counters g = fl_rank_counters f"
  shows "index_ok g"
proof -
  have map: "map_of (fl_workers g) v = (if v = wid then Some (w\<lparr>pw_status := st\<rparr>) else map_of (fl_workers f) v)" for v
    by (simp add: index AList.update_conv')
  have worker: "worker_ok g v u" if v: "map_of (fl_workers g) v = Some u" for v u
  proof (cases "v = wid")
    case True
    with v map have u: "u = w\<lparr>pw_status := st\<rparr>" by simp
    from index_ok_worker [OF ok w] x st True show ?thesis by (auto simp: worker_ok_def u ranks)
  next
    case False
    with v map have u: "map_of (fl_workers f) v = Some u" by simp
    from index_ok_worker [OF ok u] index_ok_worker [OF ok w] False
    have "worker_key (pw_run_id u) v \<noteq> worker_key (pw_run_id w) wid"
      by (auto simp: worker_ok_def worker_key_inject)
    with index_ok_worker [OF ok u] other False show ?thesis
      using runs [of "pw_run_id u"] by (auto simp: worker_ok_def ranks)
  qed
  have dist: "distinct (run_worker_ids r g)" for r
    using ok runs [of r] by (auto simp: index_ok_def distinct_removeAll)
  have ids: "\<exists>u. map_of (fl_workers g) v = Some u \<and> pw_run_id u = r" if "v \<in> set (run_worker_ids r g)" for r v
  proof -
    from that runs [of r] have "v \<in> set (run_worker_ids r f)" by auto
    with index_ok_ids [OF ok] obtain u where "map_of (fl_workers f) v = Some u" "pw_run_id u = r" by blast
    with w map show ?thesis by auto
  qed
  have known: "\<exists>u. map_of (fl_workers g) (pw_worker_id y) = Some u \<and> pw_run_id u = pw_run_id y" if y: "stored (fl_coord g) r v = Some (WorkerVal y)" for r v y
  proof (cases "worker_key r v = worker_key (pw_run_id w) wid")
    case True
    with y x index_ok_worker [OF ok w] show ?thesis by (auto simp: agree_def worker_ok_def map)
  next
    case False
    with y other have "stored (fl_coord f) r v = Some (WorkerVal y)" by simp
    with index_ok_known [OF ok] w show ?thesis unfolding map by fastforce
  qed
  have ranks: "v = v'" if "active g v u" "active g v' u'" "pw_run_id u = pw_run_id u'" "pw_rank u = pw_rank u'" for v u v' u'
    using that ok st unfolding index_ok_def active_def map by (metis option.inject py_worker.select_convs(5) py_worker.surjective py_worker.update_convs(5))
  have "distinct (map fst (fl_workers g))" using ok by (simp add: index_ok_def index AList.distinct_update)
  with c worker dist ids known ranks show ?thesis unfolding index_ok_def by blast
qed

text \<open>Writes to the store that leave the records of the workers alone keep the index.\<close>

lemma index_frame:
  assumes "index_ok f" "coord_ok (fl_coord g)" "\<And>r v. stored (fl_coord g) r v = stored (fl_coord f) r v"
    "fl_workers g = fl_workers f" "fl_run_workers g = fl_run_workers f" "fl_rank_counters g = fl_rank_counters f"
  shows "index_ok g"
proof -
  have "worker_ok g = worker_ok f" "active g = active f" "\<And>r. run_worker_ids r g = run_worker_ids r f"
    using assms by (simp_all add: fun_eq_iff worker_ok_def active_def run_worker_ids_def)
  then show ?thesis using assms(1-4) unfolding index_ok_def by simp
qed

lemma leases_frame:
  "leases_ok f \<Longrightarrow> fl_objects g = fl_objects f \<Longrightarrow> fl_leases g = fl_leases f \<Longrightarrow> fl_workers g = fl_workers f \<Longrightarrow> leases_ok g"
  by (simp add: leases_ok_def leases_valid_def get_lease_def active_def)

lemma with_coord_fields [simp]:
  "fl_coord (with_coord c f) = c" "fl_objects (with_coord c f) = fl_objects f" "fl_leases (with_coord c f) = fl_leases f"
  "fl_workers (with_coord c f) = fl_workers f" "fl_run_workers (with_coord c f) = fl_run_workers f"
  "fl_rank_counters (with_coord c f) = fl_rank_counters f" "fl_recovering (with_coord c f) = fl_recovering f"
  "fl_recovery_checkpoints (with_coord c f) = fl_recovery_checkpoints f" "fl_in_flight (with_coord c f) = fl_in_flight f"
  "fl_threads (with_coord c f) = fl_threads f"
  by (simp_all add: with_coord_def)

lemma lease_unregister_fields [simp]:
  "fl_api (lease_unregister w f) = fl_api f" "fl_workers (lease_unregister w f) = fl_workers f"
  "fl_run_workers (lease_unregister w f) = fl_run_workers f" "fl_rank_counters (lease_unregister w f) = fl_rank_counters f"
  "fl_recovering (lease_unregister w f) = fl_recovering f" "fl_in_flight (lease_unregister w f) = fl_in_flight f"
  "fl_recovery_checkpoints (lease_unregister w f) = fl_recovery_checkpoints f"
  "fl_threads (lease_unregister w f) = fl_threads f"
  by (simp_all add: lease_unregister_def split: option.split)

lemma lease_register_fields [simp]:
  "fl_api (lease_register w i t f) = fl_api f" "fl_workers (lease_register w i t f) = fl_workers f"
  "fl_run_workers (lease_register w i t f) = fl_run_workers f"
  "fl_rank_counters (lease_register w i t f) = fl_rank_counters f"
  by (simp_all add: lease_register_def)

lemma record_heartbeat_fields [simp]:
  "fl_api (snd (record_heartbeat w n t f)) = fl_api f" "fl_workers (snd (record_heartbeat w n t f)) = fl_workers f"
  "fl_run_workers (snd (record_heartbeat w n t f)) = fl_run_workers f"
  "fl_rank_counters (snd (record_heartbeat w n t f)) = fl_rank_counters f"
  by (simp_all add: record_heartbeat_def Let_def split: option.split)

lemma set_status_fields [simp]:
  "fl_api (set_status w st f) = fl_api f" "fl_objects (set_status w st f) = fl_objects f"
  "fl_leases (set_status w st f) = fl_leases f" "fl_run_workers (set_status w st f) = fl_run_workers f"
  "fl_rank_counters (set_status w st f) = fl_rank_counters f" "fl_recovering (set_status w st f) = fl_recovering f"
  "fl_recovery_checkpoints (set_status w st f) = fl_recovery_checkpoints f"
  "fl_in_flight (set_status w st f) = fl_in_flight f" "fl_threads (set_status w st f) = fl_threads f"
  by (simp_all add: set_status_def split: option.split)

lemma leases_valid_cong:
  "fl_objects g = fl_objects f \<Longrightarrow> fl_leases g = fl_leases f \<Longrightarrow> leases_valid g = leases_valid f"
  by (simp add: leases_valid_def)

lemma get_lease_cong:
  "fl_objects g = fl_objects f \<Longrightarrow> fl_leases g = fl_leases f \<Longrightarrow> get_lease w g = get_lease w f"
  by (simp add: get_lease_def)

text \<open>The worker loses its lease, or only the life of it, when it is retired.\<close>

lemma leases_retire:
  assumes ok: "leases_ok f" and valid: "leases_valid g"
    and others: "\<And>v. v \<noteq> wid \<Longrightarrow> get_lease v g = get_lease v f" and dead: "\<forall>l. get_lease wid g = Some l \<longrightarrow> \<not> le_is_alive l"
    and index: "\<And>v u. active g v u \<longleftrightarrow> v \<noteq> wid \<and> active f v u"
  shows "leases_ok g"
proof -
  have "\<exists>u. active g v u \<and> pw_run_id u = le_run_id l" if "get_lease v g = Some l" "le_is_alive l" for v l
    using that dead others [of v] ok unfolding leases_ok_def index by (cases "v = wid") auto
  moreover have "\<exists>l. get_lease v g = Some l \<and> le_is_alive l" if "active g v u" for v u
    using that others [of v] ok unfolding leases_ok_def index by auto
  ultimately show ?thesis using valid unfolding leases_ok_def by blast
qed

lemma active_retired:
  assumes "fl_workers g = AList.update wid (w\<lparr>pw_status := st\<rparr>) (fl_workers f)" "st \<noteq> ''ACTIVE''"
  shows "active g v u \<longleftrightarrow> v \<noteq> wid \<and> active f v u"
  using assms by (auto simp: active_def AList.update_conv' split: if_splits)

lemma fleet_retire:
  assumes ok: "fleet_ok f" and w: "map_of (fl_workers f) wid = Some w"
    and c: "coord_ok (fl_coord g)" and st: "st \<noteq> ''ACTIVE''"
    and x: "stored (fl_coord g) (pw_run_id w) wid = Some (WorkerVal x)" "agree (w\<lparr>pw_status := st\<rparr>) x"
    and other: "\<And>r v. worker_key r v \<noteq> worker_key (pw_run_id w) wid \<Longrightarrow> stored (fl_coord g) r v = stored (fl_coord f) r v"
    and index: "fl_workers g = AList.update wid (w\<lparr>pw_status := st\<rparr>) (fl_workers f)"
    and runs: "\<And>r. run_worker_ids r g = run_worker_ids r f \<or> run_worker_ids r g = removeAll wid (run_worker_ids r f)"
    and ranks: "fl_rank_counters g = fl_rank_counters f"
    and leases: "leases_valid g" "\<And>v. v \<noteq> wid \<Longrightarrow> get_lease v g = get_lease v f"
      "\<forall>l. get_lease wid g = Some l \<longrightarrow> \<not> le_is_alive l"
  shows "fleet_ok g"
proof -
  from ok have "index_ok g" by (intro index_retire [OF _ w c st x other index runs ranks]) (simp_all add: fleet_ok_def)
  moreover have "leases_ok g"
    using ok by (intro leases_retire [OF _ leases active_retired [OF index st]]) (simp_all add: fleet_ok_def)
  ultimately show ?thesis by (simp add: fleet_ok_def)
qed

subsection \<open>Steps of the store\<close>

text \<open>What an operation does to the API: steps of the monitors on the coordinator, and the throttle of restarts.\<close>

definition bg :: "fleet \<Rightarrow> fleet \<Rightarrow> bool" where
  "bg f g = (background\<^sup>*\<^sup>* (fl_coord f) (fl_coord g)
     \<and> ai_shards (fl_api g) = ai_shards (fl_api f) \<and> ai_durations (fl_api g) = ai_durations (fl_api f)
     \<and> ai_commits (fl_api g) = ai_commits (fl_api f) \<and> ai_published (fl_api g) = ai_published (fl_api f))"

lemma bg_refl [simp]: "bg f f"
  by (simp add: bg_def)

lemma bg_trans [trans]: "bg f g \<Longrightarrow> bg g h \<Longrightarrow> bg f h"
  by (auto simp: bg_def)

lemma bg_with_coord: "background\<^sup>*\<^sup>* (fl_coord f) c \<Longrightarrow> fl_api g = (fl_api f)\<lparr>ai_coord := c\<rparr> \<Longrightarrow> bg f g"
  by (simp add: bg_def)

lemma bg_api: "fl_api g = fl_api f \<Longrightarrow> bg f g"
  by (simp add: bg_def)

lemma bg_coord: "background (fl_coord f) c \<Longrightarrow> bg f (with_coord c f)"
  by (rule bg_with_coord [of _ c]) (auto simp: with_coord_def)

lemma bg_ok: "bg f g \<Longrightarrow> good (fl_coord f) ids \<Longrightarrow> good (fl_coord g) ids"
proof -
  assume "bg f g" and good: "good (fl_coord f) ids"
  then have "background\<^sup>*\<^sup>* (fl_coord f) (fl_coord g)" by (simp add: bg_def)
  then show ?thesis using good by (induction rule: rtranclp_induct) (auto intro: good_background)
qed

subsection \<open>Retiring one worker\<close>

text \<open>The status in the index, the record of the store, and the lease.\<close>

definition retired :: "jsstring \<Rightarrow> string \<Rightarrow> jsstring \<Rightarrow> fleet \<Rightarrow> fleet" where
  "retired wid st run_id f =
     lease_unregister wid (with_coord (snd (mark_worker_dead run_id wid st (fl_coord f))) (set_status wid st f))"

lemma fleet_ok_parts: "fleet_ok f \<Longrightarrow> index_ok f" "fleet_ok f \<Longrightarrow> leases_ok f" "fleet_ok f \<Longrightarrow> leases_valid f"
  "fleet_ok f \<Longrightarrow> coord_ok (fl_coord f)"
  by (simp_all add: fleet_ok_def leases_ok_def index_ok_def)

lemma agree_refl [simp]: "agree w w"
  unfolding agree_def by (rule exI [of _ "pw_status w"]) simp

lemma agree_status: "agree w x \<Longrightarrow> st \<noteq> ''ACTIVE'' \<Longrightarrow> st' \<noteq> ''ACTIVE'' \<Longrightarrow> agree (w\<lparr>pw_status := st\<rparr>) (x\<lparr>pw_status := st'\<rparr>)"
  by (auto simp: agree_def)

lemma retired_fields [simp]:
  "fl_run_workers (retired wid st i f) = fl_run_workers f" "fl_rank_counters (retired wid st i f) = fl_rank_counters f"
  "fl_coord (retired wid st i f) = snd (mark_worker_dead i wid st (fl_coord f))"
  "fl_recovering (retired wid st i f) = fl_recovering f" "fl_in_flight (retired wid st i f) = fl_in_flight f"
  "fl_recovery_checkpoints (retired wid st i f) = fl_recovery_checkpoints f" "fl_threads (retired wid st i f) = fl_threads f"
  "run_worker_ids r (retired wid st i f) = run_worker_ids r f"
  by (simp_all add: retired_def run_worker_ids_def)

lemma retired_workers:
  "map_of (fl_workers f) wid = Some w \<Longrightarrow>
   fl_workers (retired wid st i f) = AList.update wid (w\<lparr>pw_status := st\<rparr>) (fl_workers f)"
  by (simp add: retired_def set_status_def)

lemma retired_leases:
  assumes "leases_valid f"
  shows "leases_valid (retired wid st i f)" and "get_lease v (retired wid st i f) = (if v = wid then None else get_lease v f)"
proof -
  let ?g = "with_coord (snd (mark_worker_dead i wid st (fl_coord f))) (set_status wid st f)"
  have "leases_valid ?g" and "get_lease v ?g = get_lease v f" for v
    using assms leases_valid_cong [of ?g f] get_lease_cong [of ?g f] by simp_all
  then show "leases_valid (retired wid st i f)" and "get_lease v (retired wid st i f) = (if v = wid then None else get_lease v f)"
    by (simp_all add: retired_def leases.valid_unregister leases.look_unregister)
qed

lemma bg_retired: "bg f (retired wid st i f)"
  by (rule bg_with_coord [where c = "snd (mark_worker_dead i wid st (fl_coord f))"])
    (auto simp: retired_def with_coord_def intro: background.mark_worker_dead)

lemma fleet_retired:
  assumes ok: "fleet_ok f" and w: "map_of (fl_workers f) wid = Some w" and st: "st \<noteq> ''ACTIVE''"
  shows "fleet_ok (retired wid st (pw_run_id w) f)"
    and "fl_coord g = fl_coord f \<Longrightarrow> mark_suppressed (pw_run_id w) wid st g =
      (None, with_coord (snd (mark_worker_dead (pw_run_id w) wid st (fl_coord f))) g)"
proof -
  note parts = fleet_ok_parts [OF ok]
  from index_ok_stored [OF parts(1) w] obtain x where
    x: "stored (fl_coord f) (pw_run_id w) wid = Some (WorkerVal x)" "agree w x" by blast
  show "fleet_ok (retired wid st (pw_run_id w) f)"
    by (rule fleet_retire [OF ok w, where st = st and x = "x\<lparr>pw_status := st\<rparr>"])
      (simp_all add: st coord_ok_workers parts mark_stored [OF x(1)] agree_status x retired_leases retired_workers [OF w])
  show "fl_coord g = fl_coord f \<Longrightarrow> mark_suppressed (pw_run_id w) wid st g =
      (None, with_coord (snd (mark_worker_dead (pw_run_id w) wid st (fl_coord f))) g)"
    using mark_stored(1) [OF x(1), of st] by (auto simp: mark_suppressed_def split: prod.split sum.split)
qed

lemma active_after_retired:
  "map_of (fl_workers f) wid = Some w \<Longrightarrow> st \<noteq> ''ACTIVE'' \<Longrightarrow> active (retired wid st i f) v u \<longleftrightarrow> v \<noteq> wid \<and> active f v u"
  by (rule active_retired [OF retired_workers])

subsection \<open>Registration\<close>

text \<open>What retiring earlier registrations leaves.\<close>

definition without_rank :: "jsstring list \<Rightarrow> int \<Rightarrow> fleet \<Rightarrow> fleet \<Rightarrow> bool" where
  "without_rank olds rank f g =
     (fleet_ok g \<and> bg f g \<and> fl_run_workers g = fl_run_workers f \<and> fl_rank_counters g = fl_rank_counters f
      \<and> (\<forall>v u. active g v u \<longleftrightarrow> active f v u \<and> \<not> (v \<in> set olds \<and> pw_rank u = rank))
      \<and> (\<forall>v. map_option pw_run_id (map_of (fl_workers g) v) = map_option pw_run_id (map_of (fl_workers f) v)))"

lemma supersede_ok:
  assumes "fleet_ok f" "\<forall>v\<in>set olds. \<exists>u. map_of (fl_workers f) v = Some u \<and> pw_run_id u = i"
  shows "\<exists>g. supersede i rank olds f = (None, g) \<and> without_rank olds rank f g"
  using assms
proof (induction olds arbitrary: f)
  case (Cons old olds)
  then obtain w where w: "map_of (fl_workers f) old = Some w" "pw_run_id w = i" by auto
  show ?case
  proof (cases "pw_rank w = rank \<and> pw_status w = ''ACTIVE''")
    case True
    let ?g = "retired old ''SUPERSEDED'' i f"
    have ok: "fleet_ok ?g" using fleet_retired(1) [OF Cons.prems(1) w(1)] w(2) by simp
    have map: "map_option pw_run_id (map_of (fl_workers ?g) v) = map_option pw_run_id (map_of (fl_workers f) v)" for v
      using w by (simp add: retired_workers [OF w(1)] AList.update_conv')
    have "\<forall>v\<in>set olds. \<exists>u. map_of (fl_workers ?g) v = Some u \<and> pw_run_id u = i"
      using Cons.prems(2) map by (auto simp: map_option_eq_Some [symmetric] simp del: map_option_eq_Some)
    from Cons.IH [OF ok this] obtain h where h: "supersede i rank olds ?g = (None, h)" "without_rank olds rank ?g h" by blast
    have "supersede i rank (old # olds) f = (None, h)"
      using h(1) w True fleet_retired(2) [OF Cons.prems(1) w(1), of "''SUPERSEDED''" "set_status old ''SUPERSEDED'' f"]
      by (simp add: retired_def)
    moreover have "active f old u \<longleftrightarrow> u = w" for u using w True by (auto simp: active_def)
    then have "without_rank (old # olds) rank f h"
      using h(2) bg_retired [of f old "''SUPERSEDED''" i] True map
      by (auto simp: without_rank_def active_after_retired [OF w(1)] intro: bg_trans)
    ultimately show ?thesis by blast
  next
    case False
    with Cons.IH [OF Cons.prems(1)] Cons.prems(2) obtain h
      where h: "supersede i rank olds f = (None, h)" "without_rank olds rank f h" by auto
    with False w show ?thesis by (auto simp: without_rank_def active_def)
  qed
qed (simp add: without_rank_def)

text \<open>Larger rank counters.\<close>

lemma fleet_counters:
  assumes "fleet_ok f" and "\<And>i. given (map_of (fl_rank_counters f) i) 0 \<le> given (map_of cs i) 0"
  shows "fleet_ok (f\<lparr>fl_rank_counters := cs\<rparr>)"
proof -
  let ?g = "f\<lparr>fl_rank_counters := cs\<rparr>"
  have "active ?g = active f" "\<And>r. run_worker_ids r ?g = run_worker_ids r f"
    by (simp_all add: fun_eq_iff active_def run_worker_ids_def)
  moreover have "worker_ok ?g v u" if "worker_ok f v u" for v u
    using that assms(2) [of "pw_run_id u"] by (auto simp: worker_ok_def run_worker_ids_def)
  ultimately have "index_ok ?g" using fleet_ok_parts(1) [OF assms(1)] by (auto simp: index_ok_def)
  moreover have "leases_ok ?g" using fleet_ok_parts(2) [OF assms(1)] by (rule leases_frame) simp_all
  ultimately show ?thesis by (simp add: fleet_ok_def)
qed

lemma index_worker_fields [simp]:
  "fl_api (index_worker w f) = fl_api f" "fl_objects (index_worker w f) = fl_objects f"
  "fl_leases (index_worker w f) = fl_leases f" "fl_rank_counters (index_worker w f) = fl_rank_counters f"
  "fl_workers (index_worker w f) = AList.update (pw_worker_id w) w (fl_workers f)"
  by (simp_all add: index_worker_def)

lemma index_worker_ids:
  "run_worker_ids r (index_worker w f) =
     (if r = pw_run_id w then List.insert (pw_worker_id w) (run_worker_ids r f) else run_worker_ids r f)"
  by (simp add: index_worker_def run_worker_ids_def AList.update_conv' given_def)

lemma fresh_worker:
  assumes ok: "index_ok f" and new: "map_of (fl_workers f) wid = None" "plain wid"
  shows "stored (fl_coord f) r wid = None"
proof (rule ccontr)
  assume "stored (fl_coord f) r wid \<noteq> None"
  moreover have c: "coord_ok (fl_coord f)" using ok by (simp add: index_ok_def)
  ultimately obtain x where x: "stored (fl_coord f) r wid = Some (WorkerVal x)" using stored_worker by blast
  with index_ok_known [OF ok] obtain u where u: "map_of (fl_workers f) (pw_worker_id x) = Some u" by blast
  from index_ok_worker [OF ok u] new(2) stored_key [OF c x] have "pw_worker_id x = wid"
    by (auto simp: worker_ok_def worker_key_inject)
  with u new(1) show False by simp
qed

text \<open>A new worker with a free rank.\<close>

lemma index_add:
  assumes ok: "index_ok f" and new: "map_of (fl_workers f) wid = None"
    and w: "pw_worker_id w = wid" "pw_status w = ''ACTIVE''" "plain wid" "plain (pw_run_id w)" "pw_run_id w \<noteq> []"
    and rank: "pw_rank w < given (map_of (fl_rank_counters f) (pw_run_id w)) 0"
    and free: "\<And>v u. active f v u \<Longrightarrow> pw_run_id u = pw_run_id w \<Longrightarrow> pw_rank u \<noteq> pw_rank w"
    and c: "c = coord_put (worker_key (pw_run_id w) wid) (WorkerVal w) (fl_coord f)"
    and g: "g = index_worker w (with_coord c f)"
  shows "index_ok g"
proof -
  have map: "map_of (fl_workers g) v = (if v = wid then Some w else map_of (fl_workers f) v)" for v
    by (simp add: g w AList.update_conv')
  have ids: "run_worker_ids r g = (if r = pw_run_id w then List.insert wid (run_worker_ids r f) else run_worker_ids r f)" for r
    by (simp add: g index_worker_ids w) (simp add: run_worker_ids_def)
  have stored: "stored (fl_coord g) r v = (if worker_key r v = worker_key (pw_run_id w) wid then Some (WorkerVal w)
      else stored (fl_coord f) r v)" for r v
    by (simp add: g c get_put)
  have counters: "fl_rank_counters g = fl_rank_counters f" by (simp add: g)
  have "coord_ok (fl_coord g)"
    using ok w(1) by (auto simp: g c index_ok_def entry_ok_def intro!: coord_ok_put_other)
  moreover have "distinct (map fst (fl_workers g))" using ok by (simp add: g index_ok_def AList.distinct_update)
  moreover have "worker_ok g v u" if v: "map_of (fl_workers g) v = Some u" for v u
  proof (cases "v = wid")
    case True
    with v map have "u = w" by simp
    then show ?thesis using True w rank by (auto simp: worker_ok_def stored ids agree_def counters)
  next
    case False
    with v map have "map_of (fl_workers f) v = Some u" by simp
    from index_ok_worker [OF ok this] False w(3) show ?thesis
      by (auto simp: worker_ok_def stored ids worker_key_inject counters)
  qed
  moreover have "distinct (run_worker_ids r g)" for r using ok by (simp add: ids index_ok_def)
  moreover have "\<exists>u. map_of (fl_workers g) v = Some u \<and> pw_run_id u = r" if "v \<in> set (run_worker_ids r g)" for r v
    using that new index_ok_ids [OF ok, of v r] by (auto simp: ids map split: if_splits)
  moreover have "\<exists>u. map_of (fl_workers g) (pw_worker_id x) = Some u \<and> pw_run_id u = pw_run_id x"
    if "stored (fl_coord g) r v = Some (WorkerVal x)" for r v x
    using that index_ok_known [OF ok, of r v x] w(1) new unfolding stored map by (auto split: if_splits)
  moreover have "v = v'" if "active g v u" "active g v' u'" "pw_run_id u = pw_run_id u'" "pw_rank u = pw_rank u'" for v u v' u'
    using that free [of v u] free [of v' u'] index_ok_ranks [OF ok, of v u v' u']
    by (auto simp: active_def map split: if_splits)
  ultimately show ?thesis unfolding index_ok_def by blast
qed

lemma leases_add:
  assumes ok: "leases_ok f" and w: "pw_worker_id w = wid" "pw_status w = ''ACTIVE''"
    and g: "fl_objects g = fl_objects f" "fl_leases g = fl_leases f" "fl_workers g = AList.update wid w (fl_workers f)"
  shows "leases_ok (lease_register wid (pw_run_id w) t g)"
proof -
  let ?h = "lease_register wid (pw_run_id w) t g"
  have valid: "leases_valid g" using ok leases_valid_cong [OF g(1,2)] by (simp add: leases_ok_def)
  have look: "get_lease v ?h = (if v = wid then Some \<lparr>le_worker_id = wid, le_run_id = pw_run_id w, le_last_heartbeat = t,
      le_last_step = 0, le_is_alive = True\<rparr> else get_lease v f)" for v
    by (simp add: leases.look_register [OF valid] get_lease_cong [OF g(1,2)])
  have act: "active ?h v u \<longleftrightarrow> (if v = wid then u = w else active f v u)" for v u
    using w by (auto simp: active_def g(3) AList.update_conv')
  from ok show ?thesis
    unfolding leases_ok_def act look using leases.valid_register [OF valid] by auto
qed

text \<open>The rank of a registration is free after its first part.\<close>

definition rank_free :: "jsstring \<Rightarrow> int \<Rightarrow> fleet \<Rightarrow> fleet \<Rightarrow> bool" where
  "rank_free i r f g =
     (fleet_ok g \<and> bg f g \<and> r < given (map_of (fl_rank_counters g) i) 0
      \<and> (\<forall>v u. active g v u \<longleftrightarrow> active f v u \<and> \<not> (pw_run_id u = i \<and> pw_rank u = r))
      \<and> (\<forall>v. map_of (fl_workers g) v = None \<longleftrightarrow> map_of (fl_workers f) v = None))"

lemma next_rank_free: "fleet_ok f \<Longrightarrow> next_rank i f = (r, g) \<Longrightarrow> rank_free i r f g"
proof -
  assume ok: "fleet_ok f" and g: "next_rank i f = (r, g)"
  let ?cs = "AList.update i (r + 1) (fl_rank_counters f)"
  from g have r: "r = given (map_of (fl_rank_counters f) i) 0" and g: "g = f\<lparr>fl_rank_counters := ?cs\<rparr>"
    by (auto simp: next_rank_def Let_def)
  have "fleet_ok g" unfolding g by (rule fleet_counters [OF ok]) (simp add: AList.update_conv' r given_def)
  moreover have "\<not> (pw_run_id u = i \<and> pw_rank u = r)" if "active f v u" for v u
    using that index_ok_worker [OF fleet_ok_parts(1) [OF ok], of v u] r by (auto simp: active_def worker_ok_def)
  ultimately show ?thesis
    unfolding rank_free_def by (auto simp: g bg_api AList.update_conv' given_def active_def)
qed

lemma given_rank_free:
  assumes ok: "fleet_ok f"
  shows "\<exists>g. supersede i r (run_worker_ids i f) (raise_counter i r f) = (None, g) \<and> rank_free i r f g"
proof -
  let ?f = "raise_counter i r f"
  have ok1: "fleet_ok ?f"
    unfolding raise_counter_def by (rule fleet_counters [OF ok]) (simp add: AList.update_conv' given_def)
  have same: "fl_workers ?f = fl_workers f" "fl_api ?f = fl_api f" "active ?f = active f"
    by (simp_all add: raise_counter_def active_def fun_eq_iff)
  have "\<forall>v\<in>set (run_worker_ids i f). \<exists>u. map_of (fl_workers ?f) v = Some u \<and> pw_run_id u = i"
    using index_ok_ids [OF fleet_ok_parts(1) [OF ok]] by (simp add: same)
  from supersede_ok [OF ok1 this] obtain g where
    g: "supersede i r (run_worker_ids i f) ?f = (None, g)" "without_rank (run_worker_ids i f) r ?f g" by blast
  have mem: "active f v u \<Longrightarrow> v \<in> set (run_worker_ids i f) \<longleftrightarrow> pw_run_id u = i" for v u
    using index_ok_worker [OF fleet_ok_parts(1) [OF ok], of v u] index_ok_ids [OF fleet_ok_parts(1) [OF ok], of v i]
    by (auto simp: active_def worker_ok_def)
  have none: "map_of (fl_workers g) v = None \<longleftrightarrow> map_of (fl_workers f) v = None" for v
    using g(2) by (auto simp: without_rank_def same) (metis map_option_is_None)+
  have "bg f g" using g(2) bg_trans [OF bg_api [OF same(2)]] by (simp add: without_rank_def)
  moreover have "r < given (map_of (fl_rank_counters g) i) 0"
    using g(2) by (simp add: without_rank_def raise_counter_def AList.update_conv' given_def)
  ultimately have "rank_free i r f g" using g(2) none mem by (auto simp: rank_free_def without_rank_def same)
  with g(1) show ?thesis by blast
qed

definition new_worker :: "jsstring \<Rightarrow> jsstring \<Rightarrow> int \<Rightarrow> jsstring \<Rightarrow> int \<Rightarrow> py_worker" where
  "new_worker wid i r h now =
     \<lparr>pw_worker_id = wid, pw_run_id = i, pw_rank = r, pw_hostname = h, pw_status = ''ACTIVE'',
      pw_last_heartbeat = Some now, pw_current_step = 0, pw_metadata = []\<rparr>"

lemma register_worker_ok:
  assumes ok: "fleet_ok f" and new: "map_of (fl_workers f) wid = None" "plain wid" "plain i" "i \<noteq> []"
  shows "\<exists>r g. wm_register_worker wid i h rank now t f = (Inr (new_worker wid i r h now), g)
    \<and> r = given rank (given (map_of (fl_rank_counters f) i) 0)
    \<and> fleet_ok g \<and> bg f g \<and> (\<exists>l. get_lease wid g = Some l \<and> le_last_heartbeat l = t)
    \<and> (\<forall>v u. active g v u \<longleftrightarrow> (if v = wid then u = new_worker wid i r h now
          else active f v u \<and> \<not> (pw_run_id u = i \<and> pw_rank u = r)))"
proof -
  have "\<exists>r f1. (case rank of None \<Rightarrow> (case next_rank i f of (r, f1) \<Rightarrow> (r, None, f1))
      | Some r \<Rightarrow> (r, supersede i r (run_worker_ids i f) (raise_counter i r f))) = (r, None, f1)
      \<and> rank_free i r f f1 \<and> r = given rank (given (map_of (fl_rank_counters f) i) 0)"
  proof (cases rank)
    case None
    obtain r f1 where n: "next_rank i f = (r, f1)" by fastforce
    then have "r = given (map_of (fl_rank_counters f) i) 0" by (auto simp: next_rank_def Let_def)
    with n next_rank_free [OF ok n] None show ?thesis by (auto simp: given_def)
  next
    case (Some r)
    with given_rank_free [OF ok, of i r] show ?thesis by (auto simp: given_def)
  qed
  then obtain r f1 where
    f1: "(case rank of None \<Rightarrow> (case next_rank i f of (r, f1) \<Rightarrow> (r, None, f1))
      | Some r \<Rightarrow> (r, supersede i r (run_worker_ids i f) (raise_counter i r f))) = (r, None, f1)" "rank_free i r f f1"
    and r: "r = given rank (given (map_of (fl_rank_counters f) i) 0)" by blast
  let ?w = "new_worker wid i r h now"
  let ?c = "coord_put (worker_key i wid) (WorkerVal ?w) (fl_coord f1)"
  let ?g = "lease_register wid i t (index_worker ?w (with_coord ?c f1))"
  have reg: "coord_register_worker wid i r h now (fl_coord f1) = (?w, ?c)"
    by (simp add: coord_register_worker_def new_worker_def Let_def)
  have res: "wm_register_worker wid i h rank now t f = (Inr ?w, ?g)"
    unfolding wm_register_worker_def f1(1) by (simp add: reg)
  have ok1: "fleet_ok f1" using f1(2) by (simp add: rank_free_def)
  have index: "index_ok (index_worker ?w (with_coord ?c f1))"
    by (rule index_add [OF fleet_ok_parts(1) [OF ok1], where wid = wid and w = ?w and c = ?c])
      (use f1(2) new in \<open>auto simp: new_worker_def rank_free_def\<close>)
  have "index_ok ?g" by (rule index_frame [OF index]) (use index in \<open>simp_all add: index_ok_def\<close>)
  moreover have "leases_ok ?g"
    using leases_add [OF fleet_ok_parts(2) [OF ok1], of ?w wid "index_worker ?w (with_coord ?c f1)" t]
    by (simp add: new_worker_def)
  moreover have "bg f1 ?g"
    by (rule bg_with_coord [where c = ?c])
      (auto simp: with_coord_def coord_register_worker_def new_worker_def Let_def
        intro!: r_into_rtranclp background.register_worker [of _ wid i r h now, simplified coord_register_worker_def Let_def snd_conv])
  then have "bg f ?g" using f1(2) by (auto simp: rank_free_def intro: bg_trans)
  moreover have "active ?g v u \<longleftrightarrow> (if v = wid then u = ?w else active f v u \<and> \<not> (pw_run_id u = i \<and> pw_rank u = r))" for v u
    using f1(2) unfolding rank_free_def by (auto simp: active_def AList.update_conv' new_worker_def)
  moreover have "leases_valid (index_worker ?w (with_coord ?c f1))"
    using fleet_ok_parts(3) [OF ok1] leases_valid_cong [of "index_worker ?w (with_coord ?c f1)" f1] by simp
  then have "\<exists>l. get_lease wid ?g = Some l \<and> le_last_heartbeat l = t" by (simp add: leases.look_register)
  ultimately show ?thesis using res r by (auto simp: fleet_ok_def)
qed

subsection \<open>Deregistration\<close>

lemma fleet_unregister_unknown:
  assumes ok: "fleet_ok f" and none: "map_of (fl_workers f) wid = None"
  shows "fleet_ok (lease_unregister wid f)"
proof -
  note parts = fleet_ok_parts [OF ok]
  have "index_ok (lease_unregister wid f)" by (rule index_frame [OF parts(1)]) (simp_all add: parts)
  moreover have "leases_ok (lease_unregister wid f)"
    by (rule leases_retire [OF parts(2), where wid = wid])
      (use none in \<open>auto simp: parts leases.valid_unregister leases.look_unregister active_def\<close>)
  ultimately show ?thesis by (simp add: fleet_ok_def)
qed

lemma deregister_worker_ok:
  assumes ok: "fleet_ok f"
  shows "\<exists>g. wm_deregister_worker wid f = (None, g) \<and> fleet_ok g \<and> bg f g
    \<and> (\<forall>v u. active g v u \<longleftrightarrow> v \<noteq> wid \<and> active f v u)
    \<and> map_of (fl_workers g) wid = map_option (pw_status_update (\<lambda>_. ''DEREGISTERED'')) (map_of (fl_workers f) wid)
    \<and> get_lease wid g = None"
proof (cases "map_of (fl_workers f) wid")
  case None
  with fleet_unregister_unknown [OF ok None] show ?thesis
    by (simp add: wm_deregister_worker_def bg_api active_def leases.look_unregister fleet_ok_parts [OF ok])
      (metis option.discI)
next
  case (Some w)
  let ?st = "''DEREGISTERED''" and ?i = "pw_run_id w"
  let ?f1 = "set_status wid ?st f"
  define f2 where "f2 = (if run_worker_ids ?i ?f1 \<noteq> []
     then ?f1\<lparr>fl_run_workers := AList.update ?i (removeAll wid (run_worker_ids ?i ?f1)) (fl_run_workers ?f1)\<rparr> else ?f1)"
  have f2: "fl_coord f2 = fl_coord f" "fl_api f2 = fl_api f" "fl_objects f2 = fl_objects f" "fl_leases f2 = fl_leases f"
    "fl_workers f2 = fl_workers ?f1" "fl_rank_counters f2 = fl_rank_counters f"
    by (simp_all add: f2_def)
  let ?c = "snd (mark_worker_dead ?i wid ?st (fl_coord f))"
  let ?g = "lease_unregister wid (with_coord ?c f2)"
  have runs: "run_worker_ids r ?g = run_worker_ids r f \<or> run_worker_ids r ?g = removeAll wid (run_worker_ids r f)" for r
    by (cases "r = ?i") (auto simp: run_worker_ids_def f2_def AList.update_conv' given_def)
  have "wm_deregister_worker wid f = (None, ?g)"
    using fleet_retired(2) [OF ok Some, of ?st f2] by (simp add: wm_deregister_worker_def Some Let_def f2 flip: f2_def)
  moreover note parts = fleet_ok_parts [OF ok]
  moreover obtain x where x: "stored (fl_coord f) ?i wid = Some (WorkerVal x)" "agree w x"
    using index_ok_stored [OF parts(1) Some] by blast
  have valid: "leases_valid (with_coord ?c f2)" and look: "get_lease v (with_coord ?c f2) = get_lease v f" for v
    using parts(3) leases_valid_cong [of "with_coord ?c f2" f] get_lease_cong [of "with_coord ?c f2" f] by (simp_all add: f2)
  have index: "fl_workers ?g = AList.update wid (w\<lparr>pw_status := ?st\<rparr>) (fl_workers f)"
    by (simp add: f2 set_status_def Some)
  have "fleet_ok ?g"
    by (rule fleet_retire [OF ok Some, where st = ?st and x = "x\<lparr>pw_status := ?st\<rparr>"])
      (use runs index in \<open>simp_all add: coord_ok_workers parts mark_stored [OF x(1)] agree_status x f2
        leases.valid_unregister [OF valid] leases.look_unregister [OF valid] look\<close>)
  moreover have "bg f ?g"
    by (rule bg_with_coord [where c = ?c]) (auto simp: with_coord_def f2 intro: background.mark_worker_dead)
  moreover have "active ?g v u \<longleftrightarrow> v \<noteq> wid \<and> active f v u" for v u
    by (rule active_retired [OF index]) simp
  moreover have "map_of (fl_workers ?g) wid = Some (w\<lparr>pw_status := ?st\<rparr>)"
    using index by (simp only:) (simp add: AList.update_conv')
  ultimately show ?thesis by (auto simp: Some leases.look_unregister [OF valid])
qed

subsection \<open>Heartbeats\<close>

lemma propagate_step_fields [simp]:
  "fl_objects (propagate_step i n now f) = fl_objects f" "fl_leases (propagate_step i n now f) = fl_leases f"
  "fl_workers (propagate_step i n now f) = fl_workers f" "fl_run_workers (propagate_step i n now f) = fl_run_workers f"
  "fl_rank_counters (propagate_step i n now f) = fl_rank_counters f"
  by (simp_all add: propagate_step_def split: sum.split option.split)

lemma propagate_step_coord:
  "stored (fl_coord (propagate_step i n now f)) r v = stored (fl_coord f) r v"
  "coord_ok (fl_coord f) \<Longrightarrow> coord_ok (fl_coord (propagate_step i n now f))"
  "bg f (propagate_step i n now f)"
  by (auto simp: propagate_step_def coord_ok_update_run_step split: sum.split option.split
      intro: bg_coord background.update_run_step)

lemma heartbeat_unknown:
  "(\<And>w. \<not> active f wid w) \<Longrightarrow> update_worker_heartbeat wid n now t f = (Inr None, f)"
  by (auto simp: update_worker_heartbeat_def active_def split: option.split)

text \<open>An accepted heartbeat rewrites the record and the index and renews the lease.\<close>

lemma heartbeat_ok:
  assumes ok: "fleet_ok f" and w: "active f wid w"
  shows "\<exists>g. update_worker_heartbeat wid n now t f = (Inr (Some (w\<lparr>pw_last_heartbeat := Some now, pw_current_step := n\<rparr>)), g)
    \<and> fleet_ok g \<and> bg f g
    \<and> (\<forall>v u. active g v u \<longleftrightarrow> (if v = wid then u = w\<lparr>pw_last_heartbeat := Some now, pw_current_step := n\<rparr> else active f v u))
    \<and> get_lease wid g = map_option (lease_touch n t) (get_lease wid f)"
proof -
  note parts = fleet_ok_parts [OF ok]
  from w have look: "map_of (fl_workers f) wid = Some w" and st: "pw_status w = ''ACTIVE''" by (simp_all add: active_def)
  let ?i = "pw_run_id w" and ?w = "w\<lparr>pw_last_heartbeat := Some now, pw_current_step := n\<rparr>"
  obtain x where x: "stored (fl_coord f) ?i wid = Some (WorkerVal x)" "agree w x"
    using index_ok_stored [OF parts(1) look] by blast
  with st have xw: "x = w" by (auto simp: agree_def)
  have upd: "?w = x\<lparr>pw_last_heartbeat := Some now, pw_current_step := n, pw_status := ''ACTIVE''\<rparr>"
    using st by (auto simp: xw intro!: py_worker.equality)
  note beat = heartbeat_stored [OF x(1) upd]
  let ?c = "snd (coord_heartbeat ?i wid n now (fl_coord f))"
  let ?f1 = "(with_coord ?c f)\<lparr>fl_workers := AList.update wid ?w (fl_workers f)\<rparr>"
  let ?f2 = "propagate_step ?i n now ?f1"
  let ?g = "snd (record_heartbeat wid n t ?f2)"
  have res: "update_worker_heartbeat wid n now t f = (Inr (Some ?w), ?g)"
    using beat(1) by (auto simp: update_worker_heartbeat_def look st Let_def split: prod.split)
  have map: "map_of (fl_workers ?f1) v = (if v = wid then Some ?w else map_of (fl_workers f) v)" for v
    by (simp add: AList.update_conv')
  have act: "active ?f1 v u \<longleftrightarrow> (if v = wid then u = ?w else active f v u)" for v u
    using st by (auto simp: active_def AList.update_conv')
  have ids: "run_worker_ids r ?f1 = run_worker_ids r f" for r by (simp add: run_worker_ids_def)
  have "worker_ok ?f1 v u" if v: "map_of (fl_workers ?f1) v = Some u" for v u
  proof (cases "v = wid")
    case True
    with v map have "u = ?w" by simp
    with True index_ok_worker [OF parts(1) look] show ?thesis
      by (auto simp: worker_ok_def beat(2) ids agree_def intro!: py_worker.equality)
  next
    case False
    with v map have u: "map_of (fl_workers f) v = Some u" by simp
    from index_ok_worker [OF parts(1) this] index_ok_worker [OF parts(1) look] False show ?thesis
      by (auto simp: worker_ok_def beat(2) ids worker_key_inject)
  qed
  moreover have "coord_ok (fl_coord ?f1)" by (simp add: coord_ok_workers parts)
  moreover have "distinct (map fst (fl_workers ?f1))" using parts(1) by (simp add: index_ok_def AList.distinct_update)
  moreover have "distinct (run_worker_ids r ?f1)" for r using parts(1) by (simp add: ids index_ok_def)
  moreover have "\<exists>u. map_of (fl_workers ?f1) v = Some u \<and> pw_run_id u = r" if "v \<in> set (run_worker_ids r ?f1)" for r v
    using that look index_ok_ids [OF parts(1), of v r] unfolding ids map by auto
  moreover have "\<exists>u. map_of (fl_workers ?f1) (pw_worker_id y) = Some u \<and> pw_run_id u = pw_run_id y"
    if "stored (fl_coord ?f1) r v = Some (WorkerVal y)" for r v y
    using that index_ok_known [OF parts(1), of r v y] index_ok_worker [OF parts(1) look] look unfolding map
    by (auto simp: beat(2) worker_ok_def split: if_splits)
  moreover have "v = v'" if "active ?f1 v u" "active ?f1 v' u'" "pw_run_id u = pw_run_id u'" "pw_rank u = pw_rank u'" for v u v' u'
    using that index_ok_ranks [OF parts(1), of v _ v'] w by (auto simp: act split: if_splits)
  ultimately have index: "index_ok ?f1" unfolding index_ok_def by blast
  have "index_ok ?g"
    by (rule index_frame [OF index]) (use index in \<open>simp_all add: propagate_step_coord index_ok_def\<close>)
  have valid: "leases_valid ?f2" and get: "get_lease v ?f2 = get_lease v f" for v
    using parts(3) leases_valid_cong [of ?f2 f] get_lease_cong [of ?f2 f] by simp_all
  have act': "active ?g v u \<longleftrightarrow> active ?f1 v u" for v u by (simp add: active_def)
  have look': "get_lease v ?g = (if v = wid then map_option (lease_touch n t) (get_lease v f) else get_lease v f)" for v
    by (simp add: leases.look_beat [OF valid] get)
  obtain l where l: "get_lease wid f = Some l" "le_is_alive l" "le_run_id l = ?i"
    using parts(2) w by (fastforce simp: leases_ok_def active_def)
  have "\<exists>u. active ?g v u \<and> pw_run_id u = le_run_id m" if "get_lease v ?g = Some m" "le_is_alive m" for v m
    using that parts(2) l by (cases "v = wid") (auto simp: look' act' act leases_ok_def lease_touch_def)
  moreover have "\<exists>m. get_lease v ?g = Some m \<and> le_is_alive m" if "active ?g v u" for v u
    using that parts(2) l by (cases "v = wid") (auto simp: look' act' act leases_ok_def lease_touch_def)
  ultimately have "leases_ok ?g" using leases.valid_beat [OF valid] unfolding leases_ok_def by blast
  have "bg f ?f1"
    by (rule bg_with_coord [where c = ?c]) (auto simp: with_coord_def intro: background.heartbeat)
  then have "bg f ?g" using bg_trans [OF bg_trans [OF _ propagate_step_coord(3)] bg_api] by simp
  with res \<open>index_ok ?g\<close> \<open>leases_ok ?g\<close> show ?thesis
    by (auto simp: fleet_ok_def act' act leases.look_beat [OF valid] get)
qed

subsection \<open>Listing and restarting\<close>

lemma stored_plain:
  assumes ok: "index_ok f" and x: "stored (fl_coord f) r v = Some (WorkerVal x)"
  shows "plain (pw_worker_id x)" "plain (pw_run_id x)" "pw_run_id x \<noteq> []"
    and "stored (fl_coord f) (pw_run_id x) (pw_worker_id x) = Some (WorkerVal x)"
    and "\<exists>w. map_of (fl_workers f) (pw_worker_id x) = Some w \<and> agree w x"
proof -
  from index_ok_known [OF ok x] obtain u where u: "map_of (fl_workers f) (pw_worker_id x) = Some u" "pw_run_id u = pw_run_id x" by blast
  from index_ok_worker [OF ok u(1)] u(2)
  show "plain (pw_worker_id x)" "plain (pw_run_id x)" "pw_run_id x \<noteq> []" by (auto simp: worker_ok_def)
  have "coord_ok (fl_coord f)" using ok by (simp add: index_ok_def)
  with x show own: "stored (fl_coord f) (pw_run_id x) (pw_worker_id x) = Some (WorkerVal x)" using stored_key [OF _ x] by simp
  from index_ok_worker [OF ok u(1)] u own show "\<exists>w. map_of (fl_workers f) (pw_worker_id x) = Some w \<and> agree w x"
    by (auto simp: worker_ok_def)
qed

lemma worker_entry:
  assumes "coord_ok c" "kv_get (KEY_PREFIX @ js ''/workers/'' @ j) (co_kv c) = Some v"
  shows "\<exists>x. v = WorkerVal x \<and> pw_run_id x @ js ''/'' @ pw_worker_id x = j"
  using coord_ok_entry [OF assms]
  by (auto simp: entry_ok_def run_key_def checkpoint_key_def worker_key_def js_simps split: kv_value.splits)

lemma list_workers_total:
  assumes ok: "coord_ok c"
  shows "\<exists>ws. coord_list_workers i c = Inr ws"
proof -
  have "worker_of v \<noteq> None" if "(k, v) \<in> set (kv_get_prefix (KEY_PREFIX @ js ''/workers/'' @ q) (co_kv c))" for k v q
  proof -
    from that have "(k, v) \<in> set (co_kv c)" "startsWith k (KEY_PREFIX @ js ''/workers/'' @ q)" by (auto simp: kv_get_prefix_def)
    moreover from this(2) obtain j where "k = KEY_PREFIX @ js ''/workers/'' @ j" by (auto simp: startsWith_iff)
    moreover have "distinct (map fst (co_kv c))" using ok by (simp add: coord_ok_def)
    ultimately have "kv_get (KEY_PREFIX @ js ''/workers/'' @ j) (co_kv c) = Some v" by (auto simp: kv_get_def)
    from worker_entry [OF ok this] show ?thesis by (auto simp: worker_of_def)
  qed
  note some = this
  let ?q = "case i of None \<Rightarrow> [] | Some r \<Rightarrow> if r = [] then [] else r @ js ''/''"
  have "coord_list_workers i c = parse_all worker_of (kv_get_prefix (KEY_PREFIX @ js ''/workers/'' @ ?q) (co_kv c))"
    by (simp add: coord_list_workers_def Let_def split: option.split)
  with parse_all_ok [of "kv_get_prefix (KEY_PREFIX @ js ''/workers/'' @ ?q) (co_kv c)" worker_of, OF some] show ?thesis by simp
qed

lemma list_run_workers:
  assumes ok: "index_ok f" and i: "i \<noteq> []"
  shows "\<exists>ws. coord_list_workers (Some i) (fl_coord f) = Inr ws
    \<and> set ws = {x. pw_run_id x = i \<and> stored (fl_coord f) i (pw_worker_id x) = Some (WorkerVal x)}
    \<and> distinct (map pw_worker_id ws)"
proof -
  let ?c = "fl_coord f" and ?p = "KEY_PREFIX @ js ''/workers/'' @ i @ js ''/''"
  have c: "coord_ok ?c" using ok by (simp add: index_ok_def)
  have key: "?p @ j = worker_key i j" for j by (simp add: worker_key_def)
  have entry: "\<exists>x. v = WorkerVal x \<and> pw_run_id x = i \<and> pw_worker_id x = j" if v: "stored ?c i j = Some v" for j v
  proof -
    from stored_worker [OF c v] obtain x where x: "v = WorkerVal x" by blast
    note plain = stored_plain [OF ok v [unfolded x]]
    from stored_key [OF c v [unfolded x]] plain(1,2)
      append_Cons_eq_iff [of "Ch (CHR ''/'')" "pw_run_id x" "pw_worker_id x" i j]
    show ?thesis using x by (auto simp: worker_key_def js_simps plain_def)
  qed
  have "\<exists>ws. parse_all worker_of (kv_get_prefix ?p (co_kv ?c)) = Inr ws
      \<and> set ws = {x. \<exists>j. stored ?c i j = Some (WorkerVal x)} \<and> distinct (map pw_worker_id ws)"
    unfolding key [symmetric]
    by (rule parse_prefix [OF c]) (use entry in \<open>auto simp: startsWith_iff worker_of_def worker_key_def\<close>)
  moreover have "{x. \<exists>j. stored ?c i j = Some (WorkerVal x)} =
      {x. pw_run_id x = i \<and> stored ?c i (pw_worker_id x) = Some (WorkerVal x)}"
    using entry by fastforce
  ultimately show ?thesis using i by (simp add: coord_list_workers_def)
qed

lemma list_stored_workers:
  assumes ok: "index_ok f"
  shows "\<exists>ws. coord_list_workers None (fl_coord f) = Inr ws
    \<and> set ws = {x. stored (fl_coord f) (pw_run_id x) (pw_worker_id x) = Some (WorkerVal x)}
    \<and> distinct (map pw_worker_id ws)"
proof -
  let ?c = "fl_coord f" and ?p = "KEY_PREFIX @ js ''/workers/''"
  let ?id = "\<lambda>x. pw_run_id x @ js ''/'' @ pw_worker_id x"
  have c: "coord_ok ?c" using ok by (simp add: index_ok_def)
  have "\<exists>ws. parse_all worker_of (kv_get_prefix ?p (co_kv ?c)) = Inr ws
      \<and> set ws = {x. \<exists>j. kv_get (?p @ j) (co_kv ?c) = Some (WorkerVal x)} \<and> distinct (map ?id ws)"
    by (rule parse_prefix [OF c]) (auto simp: startsWith_iff worker_of_def dest: worker_entry [OF c])
  then obtain ws where ws: "parse_all worker_of (kv_get_prefix ?p (co_kv ?c)) = Inr ws"
    "set ws = {x. \<exists>j. kv_get (?p @ j) (co_kv ?c) = Some (WorkerVal x)}" "distinct (map ?id ws)" by blast
  have key: "?p @ ?id x = worker_key (pw_run_id x) (pw_worker_id x)" for x by (simp add: worker_key_def)
  have set: "set ws = {x. stored ?c (pw_run_id x) (pw_worker_id x) = Some (WorkerVal x)}"
    using worker_entry [OF c] unfolding ws(2) key [symmetric] append_assoc by blast
  have "x = y" if "x \<in> set ws" "y \<in> set ws" "pw_worker_id x = pw_worker_id y" for x y
  proof -
    from that(1,2) have mem: "stored ?c (pw_run_id x) (pw_worker_id x) = Some (WorkerVal x)"
      "stored ?c (pw_run_id y) (pw_worker_id y) = Some (WorkerVal y)" by (simp_all add: set)
    have run: "pw_run_id x = pw_run_id y"
      using index_ok_known [OF ok mem(1)] index_ok_known [OF ok mem(2)] unfolding that(3) by auto
    have "Some (WorkerVal x) = Some (WorkerVal y)" by (rule trans [OF mem(1) [symmetric] mem(2) [folded run that(3)]])
    then show ?thesis by blast
  qed
  then have "distinct (map pw_worker_id ws)" using ws(3) by (simp add: distinct_map inj_on_def)
  with ws(1) set show ?thesis by (auto simp: coord_list_workers_def)
qed

text \<open>What the loop has built for the workers that it has passed.\<close>

definition rehydrated :: "coordinator \<Rightarrow> real \<Rightarrow> py_worker list \<Rightarrow> fleet \<Rightarrow> bool" where
  "rehydrated c t ws f =
     (fl_api f = fl_api (new_process c) \<and> distinct (map fst (fl_workers f)) \<and> leases_valid f
      \<and> (\<forall>v u. map_of (fl_workers f) v = Some u \<longleftrightarrow> u \<in> set ws \<and> pw_worker_id u = v)
      \<and> (\<forall>r. distinct (run_worker_ids r f) \<and> set (run_worker_ids r f) = pw_worker_id ` {u \<in> set ws. pw_run_id u = r})
      \<and> (\<forall>u\<in>set ws. pw_rank u < given (map_of (fl_rank_counters f) (pw_run_id u)) 0)
      \<and> (\<forall>v l. get_lease v f = Some l \<longleftrightarrow> (\<exists>u\<in>set ws. pw_worker_id u = v \<and> pw_status u = ''ACTIVE''
           \<and> l = \<lparr>le_worker_id = v, le_run_id = pw_run_id u, le_last_heartbeat = t, le_last_step = 0, le_is_alive = True\<rparr>)))"

lemma raise_counter_fields [simp]:
  "fl_api (raise_counter i r f) = fl_api f" "fl_objects (raise_counter i r f) = fl_objects f"
  "fl_leases (raise_counter i r f) = fl_leases f" "fl_workers (raise_counter i r f) = fl_workers f"
  "fl_run_workers (raise_counter i r f) = fl_run_workers f"
  by (simp_all add: raise_counter_def)

lemma rehydrated_step:
  assumes re: "rehydrated c t ws f" and new: "pw_worker_id w \<notin> pw_worker_id ` set ws"
    and f1: "f1 = raise_counter (pw_run_id w) (pw_rank w) (index_worker w f)"
    and g: "g = (if pw_status w = ''ACTIVE'' then lease_register (pw_worker_id w) (pw_run_id w) t f1 else f1)"
  shows "rehydrated c t (ws @ [w]) g"
proof -
  have valid: "leases_valid f1" and look: "get_lease v f1 = get_lease v f" for v
    using re leases_valid_cong [of f1 f] get_lease_cong [of f1 f] by (simp_all add: f1 rehydrated_def)
  have "fl_api g = fl_api (new_process c)" using re by (simp add: g f1 rehydrated_def)
  moreover have "distinct (map fst (fl_workers g))" using re by (simp add: g f1 rehydrated_def AList.distinct_update)
  moreover have "leases_valid g" using valid leases.valid_register [OF valid] by (simp add: g)
  moreover have "map_of (fl_workers g) v = Some u \<longleftrightarrow> u \<in> set (ws @ [w]) \<and> pw_worker_id u = v" for v u
    using re new by (auto simp: g f1 rehydrated_def AList.update_conv' image_iff)
  moreover have "run_worker_ids r g = (if r = pw_run_id w then List.insert (pw_worker_id w) (run_worker_ids r f) else run_worker_ids r f)" for r
  proof -
    have "run_worker_ids r g = run_worker_ids r (index_worker w f)" by (simp add: g f1 run_worker_ids_def)
    then show ?thesis by (simp add: index_worker_ids)
  qed
  then have "distinct (run_worker_ids r g) \<and> set (run_worker_ids r g) = pw_worker_id ` {u \<in> set (ws @ [w]). pw_run_id u = r}" for r
    using re by (auto simp: rehydrated_def)
  moreover have "pw_rank u < given (map_of (fl_rank_counters g) (pw_run_id u)) 0" if "u \<in> set (ws @ [w])" for u
    using that re by (auto simp: g f1 rehydrated_def raise_counter_def AList.update_conv' given_def)
  moreover have "get_lease v g = Some l \<longleftrightarrow> (\<exists>u\<in>set (ws @ [w]). pw_worker_id u = v \<and> pw_status u = ''ACTIVE''
      \<and> l = \<lparr>le_worker_id = v, le_run_id = pw_run_id u, le_last_heartbeat = t, le_last_step = 0, le_is_alive = True\<rparr>)" for v l
    using re new by (cases "pw_status w = ''ACTIVE''"; cases "v = pw_worker_id w")
      (auto simp: g leases.look_register [OF valid] look rehydrated_def image_iff)
  ultimately show ?thesis unfolding rehydrated_def by blast
qed

lemma rehydrate_ok:
  "rehydrated c t ws f \<Longrightarrow> distinct (map pw_worker_id (ws @ vs)) \<Longrightarrow> rehydrated c t (ws @ vs) (rehydrate vs t f)"
proof (induction vs arbitrary: ws f)
  case (Cons w vs)
  then have "pw_worker_id w \<notin> pw_worker_id ` set ws" by auto
  from Cons.IH [OF rehydrated_step [OF Cons.prems(1) this refl refl]] Cons.prems(2) show ?case by (simp add: Let_def)
qed simp

lemma rehydrated_new: "rehydrated c t [] (new_process c)"
  by (simp add: rehydrated_def new_process_def leases_valid_def run_worker_ids_def given_def get_lease_def)

text \<open>
  After a restart of the control plane the index is the store, every active worker has a new lease,
  and the ranks given later are new.
\<close>

lemma restart_ok:
  assumes ok: "fleet_ok f"
  shows "\<exists>g. restart_control_plane t f = Inr g \<and> fleet_ok g
    \<and> fl_api g = fl_api (new_process (fl_coord f))
    \<and> (\<forall>v u. active g v u \<longleftrightarrow> active f v u)
    \<and> (\<forall>v. map_of (fl_workers g) v = None \<longleftrightarrow> map_of (fl_workers f) v = None)
    \<and> (\<forall>v l. get_lease v g = Some l \<longrightarrow> le_last_heartbeat l = t)"
proof -
  note parts = fleet_ok_parts [OF ok]
  let ?c = "fl_coord f"
  from list_stored_workers [OF parts(1)] obtain ws where
    ws: "coord_list_workers None ?c = Inr ws" and
    set: "\<And>x. x \<in> set ws \<longleftrightarrow> stored ?c (pw_run_id x) (pw_worker_id x) = Some (WorkerVal x)" and
    dist: "distinct (map pw_worker_id ws)" by auto
  define g where "g = rehydrate ws t (new_process ?c)"
  from rehydrate_ok [OF rehydrated_new, of ws ?c t] dist have re: "rehydrated ?c t ws g" by (simp add: g_def)
  then have api: "fl_api g = fl_api (new_process ?c)" and map: "\<And>v u. map_of (fl_workers g) v = Some u \<longleftrightarrow> u \<in> set ws \<and> pw_worker_id u = v"
    and ids: "\<And>r. distinct (run_worker_ids r g)" "\<And>r. set (run_worker_ids r g) = pw_worker_id ` {u \<in> set ws. pw_run_id u = r}"
    and leases: "\<And>v l. get_lease v g = Some l \<longleftrightarrow> (\<exists>u\<in>set ws. pw_worker_id u = v \<and> pw_status u = ''ACTIVE''
           \<and> l = \<lparr>le_worker_id = v, le_run_id = pw_run_id u, le_last_heartbeat = t, le_last_step = 0, le_is_alive = True\<rparr>)"
    and ranks: "\<And>u. u \<in> set ws \<Longrightarrow> pw_rank u < given (map_of (fl_rank_counters g) (pw_run_id u)) 0"
    by (simp_all add: rehydrated_def)
  have kv: "co_kv (fl_coord g) = co_kv ?c" by (simp add: api new_process_def)
  have c: "coord_ok (fl_coord g)" using parts(4) by (simp add: coord_ok_def api new_process_def)
  have plain: "plain (pw_worker_id x)" "plain (pw_run_id x)" "pw_run_id x \<noteq> []"
    "\<exists>w. map_of (fl_workers f) (pw_worker_id x) = Some w \<and> agree w x" if "x \<in> set ws" for x
    using that stored_plain [OF parts(1)] unfolding set by blast+
  have act: "active g v u \<longleftrightarrow> active f v u" for v u
  proof
    assume "active g v u"
    with map plain(4) [of u] show "active f v u" by (fastforce simp: active_def agree_def)
  next
    assume u: "active f v u"
    with index_ok_worker [OF parts(1), of v u] have "stored ?c (pw_run_id u) v = Some (WorkerVal u)" "pw_worker_id u = v"
      by (auto simp: active_def worker_ok_def agree_def)
    with u set show "active g v u" by (auto simp: active_def map)
  qed
  have "worker_ok g v u" if "map_of (fl_workers g) v = Some u" for v u
    using that plain(1-3) [of u] ranks [of u] set [of u] by (auto simp: map worker_ok_def kv ids(2))
  moreover have "\<exists>u. map_of (fl_workers g) v = Some u \<and> pw_run_id u = r" if "v \<in> set (run_worker_ids r g)" for r v
    using that by (auto simp: ids(2) map)
  moreover have "\<exists>w. map_of (fl_workers g) (pw_worker_id x) = Some w \<and> pw_run_id w = pw_run_id x"
    if "stored (fl_coord g) r v = Some (WorkerVal x)" for r v x
    using stored_plain(4) [OF parts(1), of r v x] that by (auto simp: map set kv)
  moreover have "v = v'" if "active g v u" "active g v' u'" "pw_run_id u = pw_run_id u'" "pw_rank u = pw_rank u'" for v u v' u'
    using that index_ok_ranks [OF parts(1)] unfolding act by blast
  moreover have "distinct (map fst (fl_workers g))" using re by (simp add: rehydrated_def)
  ultimately have "index_ok g" using c ids(1) unfolding index_ok_def by blast
  moreover have "leases_ok g"
    using re unfolding leases_ok_def leases active_def map by (auto simp: rehydrated_def)
  moreover have "map_of (fl_workers g) v = None \<longleftrightarrow> map_of (fl_workers f) v = None" for v
  proof -
    have "u \<in> set ws \<Longrightarrow> pw_worker_id u = v \<Longrightarrow> map_of (fl_workers f) v \<noteq> None" for u using plain(4) by fastforce
    moreover have "\<exists>x. x \<in> set ws \<and> pw_worker_id x = v" if "map_of (fl_workers f) v = Some w" for w
    proof -
      from index_ok_stored [OF parts(1) that] obtain x where x: "stored ?c (pw_run_id w) v = Some (WorkerVal x)" "agree w x" .
      with index_ok_worker [OF parts(1) that] have "pw_run_id x = pw_run_id w" "pw_worker_id x = v"
        by (auto simp: agree_def worker_ok_def)
      with x(1) set [of x] show ?thesis by (intro exI [of _ x]) simp
    qed
    ultimately show ?thesis using map by (metis not_None_eq)
  qed
  moreover have "get_lease v g = Some l \<longrightarrow> le_last_heartbeat l = t" for v l by (auto simp: leases)
  moreover have "restart_control_plane t f = Inr g" by (simp add: restart_control_plane_def ws g_def)
  ultimately show ?thesis using api act by (auto simp: fleet_ok_def)
qed

end
