(* ===== verification/Recovery.thy ===== *)
theory Recovery
  imports Fleet
begin

text \<open>
  What the control plane does when workers fail: the recovery manager of
  \<open>python-controlplane/src/controlplane/recovery.py\<close>, the supervisor of the worker containers and
  the kill endpoint of \<open>python-controlplane/src/controlplane/api/rest.py\<close>, and the callbacks that
  the lifespan of the application registers with the heartbeat monitor.

  The environment variables, the shared file with the identifier of the supervised run and the
  results of \<open>docker\<close> are arguments. A restart thread is only visible by its end, when it has made
  up to three attempts; until then its run is in flight.

  The theory proves that the failure handling keeps the invariant of the fleet, that a monitor scan
  finds exactly the workers that have been silent for too long, that a run that lost a worker is
  left recovering with its newest committed checkpoint selected, and what a restarted process and
  the heartbeat thread of the harness do then.
\<close>

section \<open>The supervisor of the workers\<close>

text \<open>The characters that \<open>strip()\<close> removes.\<close>

definition py_space :: "jschar \<Rightarrow> bool" where
  "py_space c =
     (case c of
        Ch x \<Rightarrow> (of_char x :: nat) \<in> {9, 10, 11, 12, 13, 28, 29, 30, 31, 32, 133, 160}
      | Uni n \<Rightarrow> n \<in> {5760, 8232, 8233, 8239, 8287, 12288} \<or> (8192 \<le> n \<and> n \<le> 8202))"

definition py_strip :: "jsstring \<Rightarrow> jsstring" where
  "py_strip s = rev (dropWhile py_space (rev (dropWhile py_space s)))"

record restart_env =
  re_auto_restart :: bool
  re_shared_path :: jsstring
  re_shared_text :: "jsstring option"
  re_worker_containers :: jsstring
  re_thread_starts :: bool

definition get_supervised_run_id :: "restart_env \<Rightarrow> jsstring option" where
  "get_supervised_run_id env =
     (if py_strip (re_shared_path env) = [] then None
      else (case re_shared_text env of
              None \<Rightarrow> None
            | Some text \<Rightarrow> if py_strip text = [] then None else Some (py_strip text)))"

definition container_names :: "restart_env \<Rightarrow> jsstring list" where
  "container_names env = filter (\<lambda>n. n \<noteq> []) (map py_strip (split_on (Ch (CHR '','')) (re_worker_containers env)))"

fun retire_workers :: "jsstring \<Rightarrow> py_worker list \<Rightarrow> fleet \<Rightarrow> coord_error option \<times> fleet" where
  "retire_workers run_id [] f = (None, f)"
| "retire_workers run_id (w # ws) f =
     (case (if pw_status w = ''ACTIVE'' then mark_suppressed run_id (pw_worker_id w) ''DEAD'' f else (None, f)) of
        (Some e, f1) \<Rightarrow> (Some e, f1)
      | (None, f1) \<Rightarrow>
          retire_workers run_id ws (lease_unregister (pw_worker_id w) (set_status (pw_worker_id w) ''DEAD'' f1)))"

definition with_attempts :: "(jsstring \<times> real) list \<Rightarrow> fleet \<Rightarrow> fleet" where
  "with_attempts xs f = f\<lparr>fl_api := (fl_api f)\<lparr>ai_restart_attempts := xs\<rparr>\<rparr>"

definition release_flight :: "jsstring \<Rightarrow> fleet \<Rightarrow> fleet" where
  "release_flight run_id f = (if fl_in_flight f = Some run_id then f\<lparr>fl_in_flight := None\<rparr> else f)"

definition forget_attempt :: "jsstring \<Rightarrow> fleet \<Rightarrow> fleet" where
  "forget_attempt run_id f = with_attempts (AList.delete run_id (ai_restart_attempts (fl_api f))) f"

definition schedule_restart :: "restart_env \<Rightarrow> jsstring \<Rightarrow> real \<Rightarrow> fleet \<Rightarrow> (coord_error + bool) \<times> fleet" where
  "schedule_restart env run_id clk f =
     (if py_strip (re_shared_path env) \<noteq> [] \<and> get_supervised_run_id env \<noteq> Some run_id then (Inr False, f)
      else if container_names env = [] then (Inr False, f)
      else (case fl_in_flight f of
              Some r \<Rightarrow> (Inr (run_id = r), f)
            | None \<Rightarrow>
                if clk - given (map_of (ai_restart_attempts (fl_api f)) run_id) 0 < 30 then (Inr True, f)
                else
                  let f1 = (with_attempts (AList.update run_id clk (ai_restart_attempts (fl_api f))) f)
                             \<lparr>fl_in_flight := Some run_id\<rparr>
                  in (case coord_list_workers (Some run_id) (fl_coord f1) of
                        Inl e \<Rightarrow> (Inl e, release_flight run_id (forget_attempt run_id f1))
                      | Inr ws \<Rightarrow>
                          (case retire_workers run_id ws f1 of
                             (Some e, f2) \<Rightarrow> (Inl e, release_flight run_id (forget_attempt run_id f2))
                           | (None, f2) \<Rightarrow>
                               if re_thread_starts env then (Inr True, f2\<lparr>fl_threads := fl_threads f2 @ [run_id]\<rparr>)
                               else (Inr False, release_flight run_id (forget_attempt run_id f2))))))"

text \<open>The thread stops at the first of three attempts that succeeds.\<close>

definition restart_succeeds :: "(nat \<Rightarrow> bool) \<Rightarrow> bool" where
  "restart_succeeds ok_at = list_ex ok_at [1, 2, 3]"

definition restart_thread_ends :: "jsstring \<Rightarrow> (nat \<Rightarrow> bool) \<Rightarrow> fleet \<Rightarrow> fleet" where
  "restart_thread_ends run_id ok_at f =
     (let f1 = (if restart_succeeds ok_at then f else forget_attempt run_id f);
          f2 = release_flight run_id f1
      in f2\<lparr>fl_threads := remove1 run_id (fl_threads f2)\<rparr>)"

text \<open>One round of the reconciliation loop; exceptions are logged.\<close>

definition reconcile_worker_recovery :: "restart_env \<Rightarrow> real \<Rightarrow> fleet \<Rightarrow> fleet" where
  "reconcile_worker_recovery env clk f =
     (case get_supervised_run_id env of
        None \<Rightarrow> f
      | Some run_id \<Rightarrow>
          (case coord_get_run run_id (fl_coord f) of
             Inr (Some run) \<Rightarrow>
               if pr_state run = RECOVERING
               then (case coord_list_workers (Some (pr_run_id run)) (fl_coord f) of
                       Inl e \<Rightarrow> f
                     | Inr ws \<Rightarrow>
                         if ws \<noteq> [] \<and> int (length (filter (\<lambda>w. pw_status w = ''ACTIVE'') ws)) < pr_num_workers run
                         then snd (schedule_restart env (pr_run_id run) clk f) else f)
               else f
           | _ \<Rightarrow> f))"

section \<open>The recovery manager\<close>

text \<open>\<open>max(xs, key=k, default=None)\<close>: the first of the largest elements.\<close>

fun max_by :: "('a \<Rightarrow> 'k :: linorder) \<Rightarrow> 'a list \<Rightarrow> 'a option" where
  "max_by k [] = None"
| "max_by k (x # xs) = Some (fold (\<lambda>y m. if k m < k y then y else m) xs x)"

definition abort_pending_checkpoints :: "jsstring \<Rightarrow> int \<Rightarrow> fleet \<Rightarrow> coord_error option \<times> fleet" where
  "abort_pending_checkpoints run_id now f =
     (case coord_list_checkpoints run_id (fl_coord f) of
        Inl e \<Rightarrow> (Some e, f)
      | Inr cps \<Rightarrow>
          (None, fold (\<lambda>cp g. if pk_state cp \<in> {''PENDING'', ''IN_PROGRESS''}
             then with_coord (snd (update_checkpoint_state (pk_checkpoint_id cp) ''FAILED'' None None None now (fl_coord g))) g
             else g) cps f))"

definition record_recovery_checkpoint :: "jsstring \<Rightarrow> fleet \<Rightarrow> coord_error option \<times> fleet" where
  "record_recovery_checkpoint run_id f =
     (case coord_list_checkpoints run_id (fl_coord f) of
        Inl e \<Rightarrow> (Some e, f)
      | Inr cps \<Rightarrow>
          let latest = max_by pk_step (filter (\<lambda>cp. pk_state cp = ''COMMITTED'') cps)
          in (None, f\<lparr>fl_recovery_checkpoints :=
                AList.update run_id (map_option pk_checkpoint_id latest) (fl_recovery_checkpoints f)\<rparr>))"

type_synonym restarter = "jsstring \<Rightarrow> real \<Rightarrow> fleet \<Rightarrow> (coord_error + bool) \<times> fleet"

definition attempt_recovery :: "restarter option \<Rightarrow> jsstring \<Rightarrow> int \<Rightarrow> real \<Rightarrow> fleet \<Rightarrow> coord_error option \<times> fleet" where
  "attempt_recovery restart run_id now clk f =
     (case restart of
        None \<Rightarrow> (None, f)
      | Some go \<Rightarrow>
          (case transition_run run_id RECOVERING now (fl_coord f) of
             (Inl ValidationError, c) \<Rightarrow> (Some ValidationError, with_coord c f)
           | (Inl e, c) \<Rightarrow> (None, with_coord c f)
           | (Inr status, c) \<Rightarrow>
               (case record_recovery_checkpoint run_id (with_coord c f) of
                  (Some e, f1) \<Rightarrow> (Some e, f1)
                | (None, f1) \<Rightarrow> (None, snd (go run_id clk f1)))))"

definition handle_failure ::
  "bool \<Rightarrow> restarter option \<Rightarrow> jsstring \<Rightarrow> int \<Rightarrow> real \<Rightarrow> fleet \<Rightarrow> coord_error option \<times> fleet" where
  "handle_failure auto_recover restart run_id now clk f =
     (let f1 = f\<lparr>fl_recovering := List.insert run_id (fl_recovering f)\<rparr>
      in (case coord_get_run run_id (fl_coord f1) of
            Inl e \<Rightarrow> (Some e, f1)
          | Inr None \<Rightarrow> (None, f1)
          | Inr (Some status) \<Rightarrow>
              if pr_state status \<in> {CANCELLED, COMPLETED} then (None, f1)
              else
                (case (if pr_state status = FAILED then (Inr status, fl_coord f1)
                       else transition_run run_id FAILED now (fl_coord f1)) of
                   (Inl (InvalidTransitionError a b), c) \<Rightarrow> (None, with_coord c f1)
                 | (Inl e, c) \<Rightarrow> (Some e, with_coord c f1)
                 | (Inr st, c) \<Rightarrow>
                     (case abort_pending_checkpoints run_id now (with_coord c f1) of
                        (Some e, f2) \<Rightarrow> (Some e, f2)
                      | (None, f2) \<Rightarrow>
                          if auto_recover then attempt_recovery restart run_id now clk f2 else (None, f2)))))"

definition rm_on_worker_failure :: "bool \<Rightarrow> restarter option \<Rightarrow> callback" where
  "rm_on_worker_failure auto_recover restart worker_id run_id now clk f =
     (if run_id \<in> set (fl_recovering f) then f
      else let f1 = snd (handle_failure auto_recover restart run_id now clk f)
           in f1\<lparr>fl_recovering := removeAll run_id (fl_recovering f1)\<rparr>)"

definition get_recovery_checkpoint :: "jsstring \<Rightarrow> fleet \<Rightarrow> jsstring option" where
  "get_recovery_checkpoint run_id f = given (map_of (fl_recovery_checkpoints f) run_id) None"

text \<open>The manual entry: whether a restart was scheduled, and what it raises.\<close>

definition recover_run :: "restarter option \<Rightarrow> jsstring \<Rightarrow> int \<Rightarrow> real \<Rightarrow> fleet \<Rightarrow> (coord_error + bool) \<times> fleet" where
  "recover_run restart run_id now clk f =
     (case coord_get_run run_id (fl_coord f) of
        Inl e \<Rightarrow> (Inl e, f)
      | Inr None \<Rightarrow> (Inr False, f)
      | Inr (Some status) \<Rightarrow>
          if pr_state status \<noteq> FAILED then (Inr False, f)
          else
            (case abort_pending_checkpoints run_id now f of
               (Some e, f1) \<Rightarrow> (Inl e, f1)
             | (None, f1) \<Rightarrow>
                 (case restart of
                    None \<Rightarrow> (Inr False, f1)
                  | Some go \<Rightarrow>
                      (case transition_run run_id RECOVERING now (fl_coord f1) of
                         (Inl ValidationError, c) \<Rightarrow> (Inl ValidationError, with_coord c f1)
                       | (Inl e, c) \<Rightarrow> (Inr False, with_coord c f1)
                       | (Inr st, c) \<Rightarrow>
                           (case record_recovery_checkpoint run_id (with_coord c f1) of
                              (Some e, f2) \<Rightarrow> ((if e = KeyError then Inr False else Inl e), f2)
                            | (None, f2) \<Rightarrow>
                                (case go run_id clk f2 of
                                   (Inl e, f3) \<Rightarrow> (Inr False, f3)
                                 | (Inr b, f3) \<Rightarrow> (Inr b, f3)))))))"

text \<open>
  The asynchronous entry of the recovery manager, which the application does not call: it takes the last
  committed checkpoint of the listing and leaves the run as it is.
\<close>

definition execute_recovery :: "jsstring \<Rightarrow> fleet \<Rightarrow> coord_error option \<times> fleet" where
  "execute_recovery run_id f =
     (case coord_get_run run_id (fl_coord f) of
        Inl e \<Rightarrow> (Some e, f)
      | Inr None \<Rightarrow> (None, f)
      | Inr (Some status) \<Rightarrow>
          (case coord_list_checkpoints run_id (fl_coord f) of
             Inl e \<Rightarrow> (Some e, f)
           | Inr cps \<Rightarrow>
               let committed = filter (\<lambda>cp. pk_state cp = ''COMMITTED'') cps;
                   target = (if committed \<noteq> [] then Some (pk_checkpoint_id (last committed)) else None)
               in (None, f\<lparr>fl_recovery_checkpoints := AList.update run_id target (fl_recovery_checkpoints f)\<rparr>)))"

section \<open>The application\<close>

definition server_heartbeat_config :: heartbeat_config where
  "server_heartbeat_config = new_heartbeat_config (Some 5) (Some 10) (Some 15) (Some 3) None None None None"

definition restart_worker_group :: "restart_env \<Rightarrow> restarter option" where
  "restart_worker_group env = (if re_auto_restart env then Some (schedule_restart env) else None)"

text \<open>The callbacks in the order of their registration.\<close>

definition server_callbacks :: "restart_env \<Rightarrow> callback list" where
  "server_callbacks env =
     [(\<lambda>worker_id run_id now clk. wm_on_worker_failure worker_id run_id),
      rm_on_worker_failure (re_auto_restart env) (restart_worker_group env)]"

definition monitor_scan :: "restart_env \<Rightarrow> (nat \<Rightarrow> int \<times> real) \<Rightarrow> fleet \<Rightarrow> fleet" where
  "monitor_scan env clock f = check_workers server_heartbeat_config (server_callbacks env) clock f"

section \<open>The kill endpoint\<close>

datatype docker = Exited bool | NoDocker | TimedOut

definition add_activity :: "jsstring \<Rightarrow> jsstring \<Rightarrow> int \<Rightarrow> fleet \<Rightarrow> fleet" where
  "add_activity message flag now f =
     (let feed = (message, flag, now) # fl_activity f
      in f\<lparr>fl_activity := (if length feed > 50 then butlast feed else feed)\<rparr>)"

text \<open>Whether a run counts as the demo run: its workers are listed only when no run is supervised.\<close>

definition demo_run :: "restart_env \<Rightarrow> coordinator \<Rightarrow> py_run \<Rightarrow> coord_error + bool" where
  "demo_run env c r =
     (if pr_state r \<notin> {RUNNING, CHECKPOINTING, COMMITTED, RECOVERING} then Inr False
      else if Some (pr_run_id r) = get_supervised_run_id env then Inr True
      else if get_supervised_run_id env \<noteq> None then Inr False
      else (case coord_list_workers (Some (pr_run_id r)) c of
              Inl e \<Rightarrow> Inl e
            | Inr ws \<Rightarrow> Inr (list_ex (\<lambda>w. pw_status w = ''ACTIVE'') ws)))"

fun demo_runs :: "restart_env \<Rightarrow> coordinator \<Rightarrow> py_run list \<Rightarrow> coord_error + py_run list" where
  "demo_runs env c [] = Inr []"
| "demo_runs env c (r # rs) =
     (case demo_run env c r of
        Inl e \<Rightarrow> Inl e
      | Inr b \<Rightarrow> (case demo_runs env c rs of Inl e \<Rightarrow> Inl e | Inr xs \<Rightarrow> Inr (if b then r # xs else xs)))"

definition kill_worker_record :: "jsstring \<Rightarrow> jsstring \<Rightarrow> fleet \<Rightarrow> fleet" where
  "kill_worker_record run_id wid f =
     (case map_of (fl_workers f) wid of
        None \<Rightarrow> f
      | Some w \<Rightarrow>
          if pw_run_id w = run_id \<and> pw_status w = ''ACTIVE''
          then let f1 = set_status wid ''DEAD'' f
               in with_coord (snd (mark_worker_dead run_id wid ''DEAD'' (fl_coord f1))) f1
          else f)"

definition clear_run_lease :: "jsstring \<Rightarrow> jsstring \<Rightarrow> fleet \<Rightarrow> fleet" where
  "clear_run_lease run_id wid f =
     (case get_lease wid f of
        None \<Rightarrow> f
      | Some l \<Rightarrow> if le_run_id l = run_id then lease_unregister wid f else f)"

definition kill_run :: "jsstring \<Rightarrow> jsstring \<Rightarrow> int \<Rightarrow> fleet \<Rightarrow> fleet" where
  "kill_run run_id container_name now f =
     (let f1 = with_coord (snd (set_run_error run_id (js ''Worker '' @ container_name @ js '' killed (demo)'') now (fl_coord f))) f;
          f2 = fold (kill_worker_record run_id) (map fst (fl_workers f1)) f1
      in fold (clear_run_lease run_id) (map fst (fl_leases f2)) f2)"

text \<open>
  The handler up to the lookup of the visitor's country, and after it. The two results of \<open>docker kill\<close>
  are those of the container asked for and of the other one.
\<close>

definition kill_begin :: "restart_env \<Rightarrow> jsstring \<Rightarrow> docker \<Rightarrow> docker \<Rightarrow> int \<Rightarrow> fleet \<Rightarrow> bool http \<times> fleet" where
  "kill_begin env container_name killed other_killed now f =
     (if container_name \<notin> {js ''ckpt-worker-0'', js ''ckpt-worker-1''} then (HttpError 400, f)
      else (case killed of
              NoDocker \<Rightarrow> (HttpError 503, f)
            | TimedOut \<Rightarrow> (HttpError 504, f)
            | Exited False \<Rightarrow> (Ok False, f)
            | Exited True \<Rightarrow>
                (case other_killed of
                   NoDocker \<Rightarrow> (HttpError 503, f)
                 | TimedOut \<Rightarrow> (HttpError 504, f)
                 | Exited _ \<Rightarrow>
                     (case coord_list_runs (fl_coord f) of
                        Inl e \<Rightarrow> (HttpError 500, f)
                      | Inr runs \<Rightarrow>
                          (case demo_runs env (fl_coord f) runs of
                             Inl e \<Rightarrow> (HttpError 500, f)
                           | Inr active_runs \<Rightarrow>
                               (case max_by pr_updated_at active_runs of
                                  None \<Rightarrow> (Ok True, f)
                                | Some r \<Rightarrow> (Ok True, kill_run (pr_run_id r) container_name now f)))))))"

text \<open>The prefix \<open>ckpt-\<close> of the two names is cut off.\<close>

definition kill_finish :: "jsstring \<Rightarrow> jsstring \<Rightarrow> jsstring \<Rightarrow> int \<Rightarrow> fleet \<Rightarrow> fleet" where
  "kill_finish container_name country flag now f =
     add_activity (js ''Someone from '' @ country @ js '' just killed '' @ drop 5 container_name @ js ''!'') flag now f"

section \<open>Lemmas\<close>

subsection \<open>What belongs to one run\<close>

text \<open>
  An entry of a snapshot of the leases: while its object is alive it is the entry of the table.
\<close>

definition snap :: "fleet \<Rightarrow> jsstring \<times> nat \<Rightarrow> bool" where
  "snap f = (\<lambda>(v, r). r < length (fl_objects f) \<and> le_worker_id (fl_objects f ! r) = v
     \<and> (le_is_alive (fl_objects f ! r) \<longrightarrow> map_of (fl_leases f) v = Some r))"

text \<open>
  A change that concerns one run: other runs, their checkpoints and their workers stay as they are,
  workers of the run may only be retired, and leases may only die.
\<close>

definition touches :: "jsstring \<Rightarrow> fleet \<Rightarrow> fleet \<Rightarrow> bool" where
  "touches i f g =
     (fleet_ok g \<and> bg f g \<and> fl_recovering g = fl_recovering f
      \<and> (\<forall>j. j \<noteq> i \<longrightarrow> kv_get (run_key j) (co_kv (fl_coord g)) = kv_get (run_key j) (co_kv (fl_coord f)))
      \<and> (\<forall>k x. pk_run_id x \<noteq> i \<longrightarrow> kv_get (checkpoint_key k) (co_kv (fl_coord g)) = Some (CheckpointVal x)
           \<longleftrightarrow> kv_get (checkpoint_key k) (co_kv (fl_coord f)) = Some (CheckpointVal x))
      \<and> (\<forall>j. j \<noteq> i \<longrightarrow> map_of (fl_recovery_checkpoints g) j = map_of (fl_recovery_checkpoints f) j)
      \<and> (\<forall>v u. active g v u \<longrightarrow> active f v u)
      \<and> (\<forall>v u. active f v u \<longrightarrow> pw_run_id u \<noteq> i \<longrightarrow> active g v u)
      \<and> (\<forall>v r. map_of (fl_leases g) v = Some r \<longrightarrow> map_of (fl_leases f) v = Some r)
      \<and> (\<forall>e. snap f e \<longrightarrow> snap g e \<and> (le_is_alive (fl_objects g ! snd e) \<longrightarrow> fl_objects g ! snd e = fl_objects f ! snd e)))"

lemma touches_refl: "fleet_ok f \<Longrightarrow> touches i f f"
  by (simp add: touches_def)

lemma touchesD:
  assumes "touches i f g"
  shows touches_ok: "fleet_ok g" and touches_bg: "bg f g" and touches_recovering: "fl_recovering g = fl_recovering f"
    and touches_run: "j \<noteq> i \<Longrightarrow> kv_get (run_key j) (co_kv (fl_coord g)) = kv_get (run_key j) (co_kv (fl_coord f))"
    and touches_checkpoint: "pk_run_id x \<noteq> i \<Longrightarrow> kv_get (checkpoint_key k) (co_kv (fl_coord g)) = Some (CheckpointVal x)
           \<longleftrightarrow> kv_get (checkpoint_key k) (co_kv (fl_coord f)) = Some (CheckpointVal x)"
    and touches_recovery: "j \<noteq> i \<Longrightarrow> map_of (fl_recovery_checkpoints g) j = map_of (fl_recovery_checkpoints f) j"
    and touches_active: "active g v u \<Longrightarrow> active f v u" "active f v u \<Longrightarrow> pw_run_id u \<noteq> i \<Longrightarrow> active g v u"
    and touches_leases: "map_of (fl_leases g) v = Some r \<Longrightarrow> map_of (fl_leases f) v = Some r"
    and touches_snap: "snap f e \<Longrightarrow> snap g e"
      "snap f e \<Longrightarrow> le_is_alive (fl_objects g ! snd e) \<Longrightarrow> fl_objects g ! snd e = fl_objects f ! snd e"
  using assms unfolding touches_def by blast+

lemma touches_trans [trans]:
  assumes fg: "touches i f g" and gh: "touches i g h"
  shows "touches i f h"
  unfolding touches_def
proof (intro conjI allI impI iffI)
  show "bg f h" using touches_bg [OF fg] touches_bg [OF gh] by (rule bg_trans)
  show "active h v u \<Longrightarrow> active f v u" "active f v u \<Longrightarrow> pw_run_id u \<noteq> i \<Longrightarrow> active h v u" for v u
    using touches_active [OF fg] touches_active [OF gh] by blast+
  show "map_of (fl_leases h) v = Some r \<Longrightarrow> map_of (fl_leases f) v = Some r" for v r
    using touches_leases [OF fg] touches_leases [OF gh] by blast
  fix e assume "snap f e"
  note g = touches_snap [OF fg this]
  show "snap h e" by (rule touches_snap(1) [OF gh g(1)])
  assume "le_is_alive (fl_objects h ! snd e)"
  with touches_snap(2) [OF gh g(1)] g(2) show "fl_objects h ! snd e = fl_objects f ! snd e" by simp
qed (simp_all add: touches_ok [OF gh] touches_recovering [OF gh] touches_recovering [OF fg] touches_run [OF gh] touches_run [OF fg]
      touches_checkpoint [OF gh] touches_checkpoint [OF fg] touches_recovery [OF gh] touches_recovery [OF fg])

lemma fleet_with_coord:
  assumes ok: "fleet_ok f" and c: "coord_ok c" "\<And>r v. stored c r v = stored (fl_coord f) r v"
  shows "fleet_ok (with_coord c f)"
proof -
  have "index_ok (with_coord c f)" using fleet_ok_parts(1) [OF ok] by (rule index_frame) (simp_all add: c)
  moreover have "leases_ok (with_coord c f)" using fleet_ok_parts(2) [OF ok] by (rule leases_frame) simp_all
  ultimately show ?thesis by (simp add: fleet_ok_def)
qed

lemma touches_coord:
  assumes ok: "fleet_ok f" and c: "coord_ok c" "\<And>r v. stored c r v = stored (fl_coord f) r v" "background (fl_coord f) c"
    and runs: "\<And>j. j \<noteq> i \<Longrightarrow> kv_get (run_key j) (co_kv c) = kv_get (run_key j) (co_kv (fl_coord f))"
    and ckpts: "\<And>k x. pk_run_id x \<noteq> i \<Longrightarrow> kv_get (checkpoint_key k) (co_kv c) = Some (CheckpointVal x)
           \<longleftrightarrow> kv_get (checkpoint_key k) (co_kv (fl_coord f)) = Some (CheckpointVal x)"
  shows "touches i f (with_coord c f)"
  using fleet_with_coord [OF ok c(1,2)] bg_coord [OF c(3)] runs ckpts by (simp add: touches_def snap_def active_def)

text \<open>Changes of the other fields.\<close>

lemma fleet_ok_fields:
  "fleet_ok f \<Longrightarrow> fl_coord g = fl_coord f \<Longrightarrow> fl_objects g = fl_objects f \<Longrightarrow> fl_leases g = fl_leases f \<Longrightarrow>
   fl_workers g = fl_workers f \<Longrightarrow> fl_run_workers g = fl_run_workers f \<Longrightarrow> fl_rank_counters g = fl_rank_counters f \<Longrightarrow> fleet_ok g"
  using index_frame [of f g] leases_frame [of f g] fleet_ok_parts(4) [of f] by (simp add: fleet_ok_def)

lemma touches_fields:
  assumes "fleet_ok f" "bg f g" "fl_coord g = fl_coord f" "fl_objects g = fl_objects f" "fl_leases g = fl_leases f"
    "fl_workers g = fl_workers f" "fl_run_workers g = fl_run_workers f" "fl_rank_counters g = fl_rank_counters f"
    "fl_recovering g = fl_recovering f"
    "\<And>j. j \<noteq> i \<Longrightarrow> map_of (fl_recovery_checkpoints g) j = map_of (fl_recovery_checkpoints f) j"
  shows "touches i f g"
  using fleet_ok_fields [OF assms(1,3-8)] assms by (simp add: touches_def snap_def active_def)

lemma snap_unregister:
  assumes "snap f e"
  shows "snap (lease_unregister w f) e
    \<and> (le_is_alive (fl_objects (lease_unregister w f) ! snd e) \<longrightarrow> fl_objects (lease_unregister w f) ! snd e = fl_objects f ! snd e)"
proof (cases "map_of (fl_leases f) w")
  case (Some q)
  obtain v r where e: "e = (v, r)" by (cases e)
  show ?thesis
  proof (cases "r = q")
    case True
    with assms Some e show ?thesis by (simp add: snap_def lease_unregister_def)
  next
    case False
    with assms Some e show ?thesis by (auto simp: snap_def lease_unregister_def AList.delete_conv')
  qed
qed (use assms in \<open>simp add: lease_unregister_def\<close>)

lemma unregister_leases: "map_of (fl_leases (lease_unregister w f)) v = Some r \<Longrightarrow> map_of (fl_leases f) v = Some r"
  by (auto simp: lease_unregister_def AList.delete_conv' split: option.splits if_splits)

lemma snap_cong: "fl_objects g = fl_objects f \<Longrightarrow> fl_leases g = fl_leases f \<Longrightarrow> snap g = snap f"
  by (simp add: snap_def fun_eq_iff)

lemma snap_table: "leases_valid f \<Longrightarrow> map_of (fl_leases f) v = Some r \<Longrightarrow> snap f (v, r)"
  using leases_valid_ref by (simp add: snap_def)

lemma snap_lease: "snap f (v, r) \<Longrightarrow> le_is_alive (fl_objects f ! r) \<Longrightarrow> get_lease v f = Some (fl_objects f ! r)"
  by (simp add: snap_def get_lease_def)

subsection \<open>Retiring the workers of a run\<close>

lemma set_status_with_coord: "set_status w st (with_coord c f) = with_coord c (set_status w st f)"
  by (simp add: set_status_def with_coord_def split: option.split)

lemma snap_retired:
  assumes "snap f e" shows "snap (retired w st i f) e
    \<and> (le_is_alive (fl_objects (retired w st i f) ! snd e) \<longrightarrow> fl_objects (retired w st i f) ! snd e = fl_objects f ! snd e)"
proof -
  let ?g = "with_coord (snd (mark_worker_dead i w st (fl_coord f))) (set_status w st f)"
  have "snap ?g e" using assms snap_cong [of ?g f] by simp
  from snap_unregister [OF this, of w] show ?thesis by (simp add: retired_def)
qed

lemma retired_table: "map_of (fl_leases (retired w st i f)) v = Some r \<Longrightarrow> map_of (fl_leases f) v = Some r"
  unfolding retired_def by (drule unregister_leases) simp

lemma worker_key_kv:
  "kv_get (run_key j) (co_kv (snd (mark_worker_dead i w st c))) = kv_get (run_key j) (co_kv c)"
  "kv_get (checkpoint_key j) (co_kv (snd (mark_worker_dead i w st c))) = kv_get (checkpoint_key j) (co_kv c)"
  by (simp_all add: mark_worker_dead_def update_worker_def get_put split: option.split)

lemma touches_retired:
  assumes ok: "fleet_ok f" and w: "map_of (fl_workers f) wid = Some w" "pw_run_id w = i" and st: "st \<noteq> ''ACTIVE''"
  shows "touches i f (retired wid st i f)"
  unfolding touches_def using fleet_retired(1) [OF ok w(1) st] w st bg_retired [of f wid st i] snap_retired [of f _ wid st i]
  by (auto simp: active_after_retired worker_key_kv dest: retired_table) (auto simp: active_def)

text \<open>A worker that the store knows as inactive is only marked dead in the index.\<close>

lemma touches_inactive:
  assumes ok: "fleet_ok f" and w: "map_of (fl_workers f) wid = Some w" "pw_run_id w = i" "pw_status w \<noteq> ''ACTIVE''"
  shows "touches i f (lease_unregister wid (set_status wid ''DEAD'' f))"
proof -
  note parts = fleet_ok_parts [OF ok]
  let ?h = "set_status wid ''DEAD'' f" and ?g = "lease_unregister wid (set_status wid ''DEAD'' f)"
  from index_ok_stored [OF parts(1) w(1)] obtain x where
    x: "stored (fl_coord f) (pw_run_id w) wid = Some (WorkerVal x)" "agree w x" .
  have index: "fl_workers ?g = AList.update wid (w\<lparr>pw_status := ''DEAD''\<rparr>) (fl_workers f)"
    using w(1) by (simp add: set_status_def)
  have valid: "leases_valid ?h" and look: "get_lease v ?h = get_lease v f" for v
    using parts(3) leases_valid_cong [of ?h f] get_lease_cong [of ?h f] by simp_all
  have "agree (w\<lparr>pw_status := ''DEAD''\<rparr>) x"
    using x(2) w(3) by (auto simp: agree_def)
  then have "fleet_ok ?g"
    by (intro fleet_retire [OF ok w(1), where st = "''DEAD''" and x = x])
      (use x index in \<open>simp_all add: parts run_worker_ids_def leases.valid_unregister [OF valid] leases.look_unregister [OF valid] look\<close>)
  moreover have act: "active ?g v u \<longleftrightarrow> v \<noteq> wid \<and> active f v u" for v u by (rule active_retired [OF index]) simp
  moreover have "\<not> active f wid u" for u using w by (auto simp: active_def)
  moreover have "snap ?g e \<and> (le_is_alive (fl_objects ?g ! snd e) \<longrightarrow> fl_objects ?g ! snd e = fl_objects f ! snd e)" if "snap f e" for e
    using snap_unregister [of ?h e wid] that snap_cong [of ?h f] by simp
  moreover have "bg f ?g" by (rule bg_api) simp
  moreover have "map_of (fl_leases f) v = Some r" if "map_of (fl_leases ?g) v = Some r" for v r
    using unregister_leases [OF that] by simp
  ultimately show ?thesis by (auto simp: touches_def)
qed

lemma retire_workers_ok:
  assumes "fleet_ok f" "\<forall>w\<in>set ws. pw_run_id w = i \<and> stored (fl_coord f) i (pw_worker_id w) = Some (WorkerVal w)"
    "distinct (map pw_worker_id ws)"
  shows "\<exists>g. retire_workers i ws f = (None, g) \<and> touches i f g
    \<and> (\<forall>v u. active g v u \<longleftrightarrow> active f v u \<and> v \<notin> pw_worker_id ` set ws)
    \<and> (\<forall>k. (\<forall>j v. k \<noteq> worker_key j v) \<longrightarrow> kv_get k (co_kv (fl_coord g)) = kv_get k (co_kv (fl_coord f)))
    \<and> fl_recovery_checkpoints g = fl_recovery_checkpoints f \<and> fl_in_flight g = fl_in_flight f \<and> fl_threads g = fl_threads f
    \<and> ai_restart_attempts (fl_api g) = ai_restart_attempts (fl_api f)"
  using assms
proof (induction ws arbitrary: f)
  case Nil
  then show ?case by (simp add: touches_refl)
next
  case (Cons x ws)
  let ?v = "pw_worker_id x"
  from Cons.prems(2) have x: "pw_run_id x = i" "stored (fl_coord f) i ?v = Some (WorkerVal x)" by simp_all
  note parts = fleet_ok_parts [OF Cons.prems(1)]
  from stored_plain(1,5) [OF parts(1) x(2)] x(1) obtain w where
    w: "map_of (fl_workers f) ?v = Some w" "agree w x" and plain: "plain ?v" by auto
  then have wi: "pw_run_id w = i" "pw_status w = ''ACTIVE'' \<longleftrightarrow> pw_status x = ''ACTIVE''" using x(1) by (auto simp: agree_def)
  define h where "h = (if pw_status x = ''ACTIVE'' then retired ?v ''DEAD'' i f
     else lease_unregister ?v (set_status ?v ''DEAD'' f))"
  have step: "retire_workers i (x # ws) f = retire_workers i ws h"
    using fleet_retired(2) [OF Cons.prems(1) w(1), of "''DEAD''" f] wi(1)
    by (simp add: h_def retired_def set_status_with_coord)
  have h: "touches i f h"
    using touches_retired [OF Cons.prems(1) w(1) wi(1)] touches_inactive [OF Cons.prems(1) w(1) wi(1)] wi(2) by (simp add: h_def)
  have act: "active h v u \<longleftrightarrow> active f v u \<and> v \<noteq> ?v" for v u
  proof (cases "pw_status x = ''ACTIVE''")
    case False
    with wi(2) w(1) show ?thesis by (auto simp: h_def active_def set_status_def AList.update_conv' split: if_splits)
  qed (use active_after_retired [OF w(1)] in \<open>auto simp: h_def\<close>)
  have kv: "kv_get k (co_kv (fl_coord h)) = kv_get k (co_kv (fl_coord f))" if "k \<noteq> worker_key i ?v" for k
    using that mark_stored(2) [OF x(2)] by (simp add: h_def)
  have "stored (fl_coord h) i (pw_worker_id y) = Some (WorkerVal y)" if y: "y \<in> set ws" for y
  proof -
    from y Cons.prems(2) have sy: "pw_run_id y = i" "stored (fl_coord f) i (pw_worker_id y) = Some (WorkerVal y)" by simp_all
    from y Cons.prems(3) stored_plain(1) [OF parts(1) sy(2)] plain have "worker_key i (pw_worker_id y) \<noteq> worker_key i ?v"
      by (auto simp: worker_key_inject image_iff)
    with sy(2) kv show ?thesis by simp
  qed
  with Cons.IH [OF touches_ok [OF h]] Cons.prems(2,3) obtain g where g: "retire_workers i ws h = (None, g)" "touches i h g"
    "\<forall>v u. active g v u \<longleftrightarrow> active h v u \<and> v \<notin> pw_worker_id ` set ws"
    "\<forall>k. (\<forall>j v. k \<noteq> worker_key j v) \<longrightarrow> kv_get k (co_kv (fl_coord g)) = kv_get k (co_kv (fl_coord h))"
    "fl_recovery_checkpoints g = fl_recovery_checkpoints h \<and> fl_in_flight g = fl_in_flight h \<and> fl_threads g = fl_threads h
     \<and> ai_restart_attempts (fl_api g) = ai_restart_attempts (fl_api h)"
    by auto
  have "fl_recovery_checkpoints h = fl_recovery_checkpoints f" "fl_in_flight h = fl_in_flight f" "fl_threads h = fl_threads f"
    "ai_restart_attempts (fl_api h) = ai_restart_attempts (fl_api f)"
    by (simp_all add: h_def retired_def with_coord_def)
  with step g touches_trans [OF h g(2)] act kv show ?case by auto
qed

subsection \<open>Scheduling a restart\<close>

definition may_restart :: "restart_env \<Rightarrow> jsstring \<Rightarrow> bool" where
  "may_restart env i =
     ((py_strip (re_shared_path env) = [] \<or> get_supervised_run_id env = Some i) \<and> container_names env \<noteq> [])"

definition restart_due :: "restart_env \<Rightarrow> jsstring \<Rightarrow> real \<Rightarrow> fleet \<Rightarrow> bool" where
  "restart_due env i t f =
     (may_restart env i \<and> fl_in_flight f = None \<and> 30 \<le> t - given (map_of (ai_restart_attempts (fl_api f)) i) 0)"

lemma with_attempts_fields [simp]:
  "fl_coord (with_attempts xs f) = fl_coord f" "fl_objects (with_attempts xs f) = fl_objects f"
  "fl_leases (with_attempts xs f) = fl_leases f" "fl_workers (with_attempts xs f) = fl_workers f"
  "fl_run_workers (with_attempts xs f) = fl_run_workers f" "fl_rank_counters (with_attempts xs f) = fl_rank_counters f"
  "fl_recovering (with_attempts xs f) = fl_recovering f" "fl_in_flight (with_attempts xs f) = fl_in_flight f"
  "fl_recovery_checkpoints (with_attempts xs f) = fl_recovery_checkpoints f" "fl_threads (with_attempts xs f) = fl_threads f"
  "ai_restart_attempts (fl_api (with_attempts xs f)) = xs" "bg f (with_attempts xs f)"
  by (simp_all add: with_attempts_def bg_def)

lemma forget_fields [simp]:
  "fl_coord (release_flight i (forget_attempt i f)) = fl_coord f" "fl_objects (release_flight i (forget_attempt i f)) = fl_objects f"
  "fl_leases (release_flight i (forget_attempt i f)) = fl_leases f" "fl_workers (release_flight i (forget_attempt i f)) = fl_workers f"
  "fl_run_workers (release_flight i (forget_attempt i f)) = fl_run_workers f"
  "fl_rank_counters (release_flight i (forget_attempt i f)) = fl_rank_counters f"
  "fl_recovering (release_flight i (forget_attempt i f)) = fl_recovering f"
  "fl_recovery_checkpoints (release_flight i (forget_attempt i f)) = fl_recovery_checkpoints f"
  "fl_threads (release_flight i (forget_attempt i f)) = fl_threads f"
  by (simp_all add: release_flight_def forget_attempt_def)

lemma bg_forget: "bg f (release_flight i (forget_attempt i f))"
proof -
  have "bg f (forget_attempt i f)" by (simp add: forget_attempt_def)
  moreover have "bg (forget_attempt i f) (release_flight i (forget_attempt i f))" by (rule bg_api) (simp add: release_flight_def)
  ultimately show ?thesis by (rule bg_trans)
qed

lemma touches_forget: "fleet_ok f \<Longrightarrow> touches i f (release_flight i (forget_attempt i f))"
  by (rule touches_fields) (simp_all add: bg_forget)

text \<open>At most one restart thread runs, for the run that is in flight.\<close>

definition flight_ok :: "fleet \<Rightarrow> bool" where
  "flight_ok f = (fl_threads f = (case fl_in_flight f of None \<Rightarrow> [] | Some i \<Rightarrow> [i]))"

lemma schedule_not_due: "\<not> restart_due env i t f \<Longrightarrow> \<exists>b. schedule_restart env i t f = (Inr b, f)"
  by (auto simp: schedule_restart_def restart_due_def may_restart_def split: option.splits)

definition no_active :: "jsstring \<Rightarrow> fleet \<Rightarrow> fleet \<Rightarrow> bool" where
  "no_active i f g = (\<forall>v u. active g v u \<longleftrightarrow> active f v u \<and> pw_run_id u \<noteq> i)"

definition records_kept :: "fleet \<Rightarrow> fleet \<Rightarrow> bool" where
  "records_kept f g =
     ((\<forall>k. (\<forall>j v. k \<noteq> worker_key j v) \<longrightarrow> kv_get k (co_kv (fl_coord g)) = kv_get k (co_kv (fl_coord f)))
      \<and> fl_recovery_checkpoints g = fl_recovery_checkpoints f)"

text \<open>A restart that is due retires every worker of the run and starts one thread.\<close>

lemma schedule_due:
  assumes ok: "fleet_ok f" and due: "restart_due env i t f" and i: "i \<noteq> []"
  shows "\<exists>g. schedule_restart env i t f = (Inr (re_thread_starts env), g) \<and> touches i f g \<and> no_active i f g \<and> records_kept f g
    \<and> (if re_thread_starts env
       then fl_in_flight g = Some i \<and> fl_threads g = fl_threads f @ [i]
         \<and> map_of (ai_restart_attempts (fl_api g)) i = Some t
       else fl_in_flight g = None \<and> fl_threads g = fl_threads f)"
proof -
  let ?f = "(with_attempts (AList.update i t (ai_restart_attempts (fl_api f))) f)\<lparr>fl_in_flight := Some i\<rparr>"
  have api: "bg f ?f" by (rule bg_trans [OF with_attempts_fields(12) bg_api]) simp
  have f1: "touches i f ?f" by (rule touches_fields [OF ok api]) simp_all
  note ok1 = touches_ok [OF f1]
  from list_run_workers [OF fleet_ok_parts(1) [OF ok1] i] obtain ws where
    ws: "coord_list_workers (Some i) (fl_coord ?f) = Inr ws" "distinct (map pw_worker_id ws)"
    "set ws = {x. pw_run_id x = i \<and> stored (fl_coord ?f) i (pw_worker_id x) = Some (WorkerVal x)}" by blast
  from retire_workers_ok [OF ok1 _ ws(2), of i] ws(3) obtain g where
    g: "retire_workers i ws ?f = (None, g)" "touches i ?f g"
      "\<forall>v u. active g v u \<longleftrightarrow> active ?f v u \<and> v \<notin> pw_worker_id ` set ws"
      "\<forall>k. (\<forall>j v. k \<noteq> worker_key j v) \<longrightarrow> kv_get k (co_kv (fl_coord g)) = kv_get k (co_kv (fl_coord ?f))"
      "fl_recovery_checkpoints g = fl_recovery_checkpoints ?f" "fl_in_flight g = fl_in_flight ?f" "fl_threads g = fl_threads ?f"
      "ai_restart_attempts (fl_api g) = ai_restart_attempts (fl_api ?f)" by auto
  have mem: "v \<in> pw_worker_id ` set ws \<longleftrightarrow> pw_run_id u = i" if u: "active f v u" for v u
  proof -
    from u index_ok_worker [OF fleet_ok_parts(1) [OF ok], of v u] have
      s: "stored (fl_coord f) (pw_run_id u) v = Some (WorkerVal u)" "pw_worker_id u = v" "plain v"
      by (auto simp: active_def worker_ok_def agree_def)
    show ?thesis
    proof
      assume "v \<in> pw_worker_id ` set ws"
      then obtain x where x: "x \<in> set ws" "pw_worker_id x = v" by auto
      with ws(3) have "stored (fl_coord f) i v = Some (WorkerVal x)" "pw_run_id x = i" by auto
      with index_ok_known [OF fleet_ok_parts(1) [OF ok], of i v x] x(2) u show "pw_run_id u = i" by (auto simp: active_def)
    next
      assume "pw_run_id u = i"
      with s show "v \<in> pw_worker_id ` set ws" unfolding ws(3) by (intro rev_image_eqI [of u]) auto
    qed
  qed
  have "active ?f = active f" by (simp add: fun_eq_iff active_def)
  then have none: "no_active i f g" unfolding no_active_def using g(3) mem by metis
  let ?h = "if re_thread_starts env then g\<lparr>fl_threads := fl_threads g @ [i]\<rparr> else release_flight i (forget_attempt i g)"
  have "schedule_restart env i t f = (Inr (re_thread_starts env), ?h)"
    using due ws(1) g(1) by (auto simp: schedule_restart_def restart_due_def may_restart_def Let_def)
  moreover have "touches i g ?h"
    using touches_forget [OF touches_ok [OF g(2)], of i] touches_fields [OF touches_ok [OF g(2)], of "g\<lparr>fl_threads := fl_threads g @ [i]\<rparr>"]
    by (simp add: bg_api)
  then have "touches i f ?h" using f1 g(2) by (blast intro: touches_trans)
  moreover have "no_active i f ?h" using none by (simp add: no_active_def active_def)
  moreover have "records_kept f ?h" using g(4,5) by (simp add: records_kept_def)
  ultimately show ?thesis
    using g(6-8) by (auto simp: release_flight_def forget_attempt_def AList.update_conv')
qed

subsection \<open>Handling a failure\<close>

text \<open>A run that is recovering, without unfinished checkpoints, and with its newest committed checkpoint selected.\<close>

definition newest_committed :: "coordinator \<Rightarrow> jsstring \<Rightarrow> jsstring option \<Rightarrow> bool" where
  "newest_committed c i latest =
     (case latest of
        None \<Rightarrow> \<not> (\<exists>k x. coord_get_checkpoint k c = Inr (Some x) \<and> pk_run_id x = i \<and> pk_state x = ''COMMITTED'')
      | Some k \<Rightarrow> \<exists>x. coord_get_checkpoint k c = Inr (Some x) \<and> pk_run_id x = i \<and> pk_state x = ''COMMITTED''
          \<and> (\<forall>j y. coord_get_checkpoint j c = Inr (Some y) \<longrightarrow> pk_run_id y = i \<longrightarrow> pk_state y = ''COMMITTED'' \<longrightarrow> pk_step y \<le> pk_step x))"

definition no_unfinished :: "coordinator \<Rightarrow> jsstring \<Rightarrow> bool" where
  "no_unfinished c i =
     (\<forall>k x. coord_get_checkpoint k c = Inr (Some x) \<longrightarrow> pk_run_id x = i \<longrightarrow> pk_state x \<notin> {''PENDING'', ''IN_PROGRESS''})"

definition settled :: "jsstring \<Rightarrow> fleet \<Rightarrow> bool" where
  "settled i f =
     ((\<exists>r. coord_get_run i (fl_coord f) = Inr (Some r) \<and> pr_state r = RECOVERING)
      \<and> no_unfinished (fl_coord f) i
      \<and> (\<exists>latest. map_of (fl_recovery_checkpoints f) i = Some latest \<and> newest_committed (fl_coord f) i latest))"

lemma max_by_in: "max_by k xs = Some m \<Longrightarrow> m \<in> set xs \<and> (\<forall>x\<in>set xs. k x \<le> k m)"
proof -
  have "fold (\<lambda>y m. if k m < k y then y else m) ys a \<in> insert a (set ys)
      \<and> (\<forall>x\<in>insert a (set ys). k x \<le> k (fold (\<lambda>y m. if k m < k y then y else m) ys a))" for ys a
  proof (induction ys arbitrary: a)
    case (Cons y ys)
    from Cons.IH [of "if k a < k y then y else a"] show ?case by (auto split: if_splits)
  qed simp
  then show "max_by k xs = Some m \<Longrightarrow> m \<in> set xs \<and> (\<forall>x\<in>set xs. k x \<le> k m)" by (cases xs) auto
qed

lemma max_by_None [simp]: "max_by k xs = None \<longleftrightarrow> xs = []"
  by (cases xs) simp_all

lemma list_checkpoints_mem:
  assumes "coord_ok c" "coord_list_checkpoints i c = Inr cps"
  shows "x \<in> set cps \<longleftrightarrow> pk_run_id x = i \<and> coord_get_checkpoint (pk_checkpoint_id x) c = Inr (Some x)"
  using list_checkpoints_ok [OF assms(1), of i] assms(2) get_checkpoint_id [OF assms(1)] by auto

lemma record_recovery_ok:
  assumes ok: "fleet_ok f"
  shows "\<exists>latest. record_recovery_checkpoint i f =
      (None, f\<lparr>fl_recovery_checkpoints := AList.update i latest (fl_recovery_checkpoints f)\<rparr>)
    \<and> newest_committed (fl_coord f) i latest"
proof -
  note c = fleet_ok_parts(4) [OF ok]
  from list_checkpoints_ok [OF c, of i] obtain cps where cps: "coord_list_checkpoints i (fl_coord f) = Inr cps" by blast
  let ?com = "filter (\<lambda>cp. pk_state cp = ''COMMITTED'') cps"
  have mem: "x \<in> set ?com \<longleftrightarrow> pk_state x = ''COMMITTED'' \<and> pk_run_id x = i
      \<and> coord_get_checkpoint (pk_checkpoint_id x) (fl_coord f) = Inr (Some x)" for x
    using list_checkpoints_mem [OF c cps] by auto
  have all: "y \<in> set ?com" if "coord_get_checkpoint k (fl_coord f) = Inr (Some y)" "pk_run_id y = i" "pk_state y = ''COMMITTED''" for k y
    using that get_checkpoint_id [OF c that(1)] by (simp only: mem)
  have "newest_committed (fl_coord f) i (map_option pk_checkpoint_id (max_by pk_step ?com))"
  proof (cases "max_by pk_step ?com")
    case None
    with all have "\<not> (\<exists>k x. coord_get_checkpoint k (fl_coord f) = Inr (Some x) \<and> pk_run_id x = i \<and> pk_state x = ''COMMITTED'')"
      by (metis max_by_None list.set(1) empty_iff)
    with None show ?thesis by (simp add: newest_committed_def)
  next
    case (Some m)
    note m = max_by_in [OF Some]
    from m(1) [THEN conjunct1] have "pk_state m = ''COMMITTED''" "pk_run_id m = i"
      "coord_get_checkpoint (pk_checkpoint_id m) (fl_coord f) = Inr (Some m)" by (simp_all only: mem)
    moreover have "pk_step y \<le> pk_step m"
      if "coord_get_checkpoint j (fl_coord f) = Inr (Some y)" "pk_run_id y = i" "pk_state y = ''COMMITTED''" for j y
      using m all [OF that] by blast
    ultimately show ?thesis by (auto simp: newest_committed_def Some)
  qed
  then show ?thesis by (auto simp: record_recovery_checkpoint_def cps Let_def)
qed

lemma transition_run_kv:
  assumes "coord_ok c" "j \<noteq> i"
  shows "kv_get (run_key j) (co_kv (snd (transition_run i t now c))) = kv_get (run_key j) (co_kv c)"
    and "kv_get (run_key j) (co_kv (snd (set_run_error i msg now c))) = kv_get (run_key j) (co_kv c)"
proof -
  have "kv_get (run_key j) (co_kv (snd (move_call i t' f c))) = kv_get (run_key j) (co_kv c)" if "keeps_run t' f" for t' f
    using assms(1) that by (cases rule: move_call_cases [of c t' f i]) (use assms(2) in \<open>simp_all add: get_put\<close>)
  then show "kv_get (run_key j) (co_kv (snd (transition_run i t now c))) = kv_get (run_key j) (co_kv c)"
    "kv_get (run_key j) (co_kv (snd (set_run_error i msg now c))) = kv_get (run_key j) (co_kv c)"
    by (simp_all add: transition_run_move set_run_error_move)
qed

lemma touches_transition: "fleet_ok f \<Longrightarrow> touches i f (with_coord (snd (transition_run i t now (fl_coord f))) f)"
  by (rule touches_coord) (simp_all add: fleet_ok_parts transition_run_kv background.transition_run)

lemma touches_set_error: "fleet_ok f \<Longrightarrow> touches i f (with_coord (snd (set_run_error i msg now (fl_coord f))) f)"
  by (rule touches_coord) (simp_all add: fleet_ok_parts transition_run_kv background.set_run_error)

text \<open>Failing one checkpoint of the run.\<close>

lemma touches_fail:
  assumes ok: "fleet_ok f" and k: "\<And>x. coord_get_checkpoint k (fl_coord f) = Inr (Some x) \<Longrightarrow> pk_run_id x = i"
  shows "touches i f (with_coord (snd (update_checkpoint_state k ''FAILED'' None None None now (fl_coord f))) f)"
proof (rule touches_coord [OF ok])
  fix j and x :: py_checkpoint assume x: "pk_run_id x \<noteq> i"
  show "kv_get (checkpoint_key j) (co_kv (snd (update_checkpoint_state k ''FAILED'' None None None now (fl_coord f)))) = Some (CheckpointVal x)
    \<longleftrightarrow> kv_get (checkpoint_key j) (co_kv (fl_coord f)) = Some (CheckpointVal x)"
    using x k by (auto simp: update_state_checkpoint get_checkpoint_iff split: sum.splits option.splits)
qed (simp_all add: fleet_ok_parts [OF ok] coord_ok_checkpoint_updates update_state_run background.fail_checkpoint)

text \<open>The checkpoints of the list end up failed, the others of the run keep their states.\<close>

definition abort_one :: "int \<Rightarrow> py_checkpoint \<Rightarrow> fleet \<Rightarrow> fleet" where
  "abort_one now cp g =
     (if pk_state cp \<in> {''PENDING'', ''IN_PROGRESS''}
      then with_coord (snd (update_checkpoint_state (pk_checkpoint_id cp) ''FAILED'' None None None now (fl_coord g))) g else g)"

definition get_state :: "jsstring \<Rightarrow> fleet \<Rightarrow> (jsstring \<times> string) option" where
  "get_state k f =
     (case kv_get (checkpoint_key k) (co_kv (fl_coord f)) of
        Some (CheckpointVal x) \<Rightarrow> Some (pk_run_id x, pk_state x)
      | _ \<Rightarrow> None)"

lemma get_state_fail:
  "coord_ok (fl_coord f) \<Longrightarrow>
   get_state j (with_coord (snd (update_checkpoint_state k ''FAILED'' None None None now (fl_coord f))) f) =
     (if j = k then map_option (\<lambda>(i, st). (i, ''FAILED'')) (get_state j f) else get_state j f)"
  by (auto simp: get_state_def update_state_checkpoint coord_get_checkpoint_def given_def
      split: option.splits kv_value.splits dest: coord_ok_checkpoint)

lemma abort_fold:
  assumes "fleet_ok f" "\<forall>cp\<in>set cps. \<exists>st. get_state (pk_checkpoint_id cp) f = Some (i, st)"
  shows "touches i f (fold (abort_one now) cps f)
    \<and> (\<forall>k. get_state k (fold (abort_one now) cps f) =
         (if k \<in> pk_checkpoint_id ` {cp \<in> set cps. pk_state cp \<in> {''PENDING'', ''IN_PROGRESS''}}
          then map_option (\<lambda>(i, st). (i, ''FAILED'')) (get_state k f) else get_state k f))
    \<and> (\<forall>j. kv_get (run_key j) (co_kv (fl_coord (fold (abort_one now) cps f))) = kv_get (run_key j) (co_kv (fl_coord f)))
    \<and> co_fsms (fl_coord (fold (abort_one now) cps f)) = co_fsms (fl_coord f)
    \<and> fl_recovery_checkpoints (fold (abort_one now) cps f) = fl_recovery_checkpoints f"
  using assms
proof (induction cps arbitrary: f)
  case (Cons cp cps)
  let ?g = "abort_one now cp f" and ?k = "pk_checkpoint_id cp"
  have "pk_run_id x = i" if "coord_get_checkpoint ?k (fl_coord f) = Inr (Some x)" for x
    using that Cons.prems(2) by (auto simp: get_state_def get_checkpoint_iff)
  then have g: "touches i f ?g"
    using touches_fail [OF Cons.prems(1)] touches_refl [OF Cons.prems(1)] by (simp add: abort_one_def)
  have st: "get_state k ?g = (if k = ?k \<and> pk_state cp \<in> {''PENDING'', ''IN_PROGRESS''}
      then map_option (\<lambda>(i, st). (i, ''FAILED'')) (get_state k f) else get_state k f)" for k
    using get_state_fail [OF fleet_ok_parts(4) [OF Cons.prems(1)]] by (auto simp: abort_one_def)
  have pre: "\<forall>cp\<in>set cps. \<exists>st. get_state (pk_checkpoint_id cp) ?g = Some (i, st)"
    using Cons.prems(2) by (auto simp: st)
  note IH = Cons.IH [OF touches_ok [OF g] pre]
  have "kv_get (run_key j) (co_kv (fl_coord ?g)) = kv_get (run_key j) (co_kv (fl_coord f))" for j
    by (simp add: abort_one_def update_state_run)
  moreover have "co_fsms (fl_coord ?g) = co_fsms (fl_coord f)" "fl_recovery_checkpoints ?g = fl_recovery_checkpoints f"
    by (simp_all add: abort_one_def update_state_run)
  moreover have "get_state k (fold (abort_one now) cps ?g) =
      (if k \<in> pk_checkpoint_id ` {c \<in> set (cp # cps). pk_state c \<in> {''PENDING'', ''IN_PROGRESS''}}
       then map_option (\<lambda>(i, st). (i, ''FAILED'')) (get_state k f) else get_state k f)" for k
    using IH st [of k] by (cases "get_state k f") (auto simp: image_iff)
  ultimately show ?case using IH touches_trans [OF g] by simp
qed (simp add: touches_refl)

lemma abort_ok:
  assumes ok: "fleet_ok f"
  shows "\<exists>g. abort_pending_checkpoints i now f = (None, g) \<and> touches i f g \<and> no_unfinished (fl_coord g) i
    \<and> kv_get (run_key i) (co_kv (fl_coord g)) = kv_get (run_key i) (co_kv (fl_coord f))
    \<and> (\<forall>k x. coord_get_checkpoint k (fl_coord g) = Inr (Some x) \<longrightarrow> pk_state x = ''COMMITTED'' \<longrightarrow>
         (\<exists>y. coord_get_checkpoint k (fl_coord f) = Inr (Some y) \<and> pk_state y = ''COMMITTED''))
    \<and> fl_recovery_checkpoints g = fl_recovery_checkpoints f"
proof -
  note c = fleet_ok_parts(4) [OF ok]
  from list_checkpoints_ok [OF c, of i] obtain cps where cps: "coord_list_checkpoints i (fl_coord f) = Inr cps" by blast
  note mem = list_checkpoints_mem [OF c cps]
  let ?g = "fold (abort_one now) cps f"
  have res: "abort_pending_checkpoints i now f = (None, ?g)"
    by (simp add: abort_pending_checkpoints_def cps abort_one_def [abs_def])
  have "\<forall>cp\<in>set cps. \<exists>st. get_state (pk_checkpoint_id cp) f = Some (i, st)"
    using mem by (auto simp: get_state_def get_checkpoint_iff)
  note fold = abort_fold [OF ok this, of now]
  have state: "get_state k g = Some (pk_run_id x, pk_state x)" if "coord_get_checkpoint k (fl_coord g) = Inr (Some x)" for g k x
    using that by (simp add: get_state_def get_checkpoint_iff)
  have orig: "\<exists>y. coord_get_checkpoint k (fl_coord f) = Inr (Some y) \<and> pk_run_id y = j
      \<and> (if j = i \<and> pk_state y \<in> {''PENDING'', ''IN_PROGRESS''} then st = ''FAILED'' else st = pk_state y)"
    if "get_state k ?g = Some (j, st)" for k j st
  proof -
    let ?bad = "k \<in> pk_checkpoint_id ` {cp \<in> set cps. pk_state cp \<in> {''PENDING'', ''IN_PROGRESS''}}"
    from that fold obtain st0 where "get_state k f = Some (j, st0)" and st: "st = (if ?bad then ''FAILED'' else st0)"
      by (auto split: if_splits)
    then obtain y where y: "coord_get_checkpoint k (fl_coord f) = Inr (Some y)" "pk_run_id y = j" "pk_state y = st0"
      by (auto simp: get_state_def get_checkpoint_iff split: option.splits kv_value.splits)
    have own: "y \<in> set cps \<longleftrightarrow> j = i" using mem [of y] y get_checkpoint_id [OF c y(1)] by simp
    have uniq: "cp = y" if "cp \<in> set cps" "pk_checkpoint_id cp = k" for cp
      using mem [of cp] that y(1) by simp
    have bad: "?bad \<longleftrightarrow> j = i \<and> pk_state y \<in> {''PENDING'', ''IN_PROGRESS''}"
    proof
      assume ?bad
      then obtain cp where cp: "cp \<in> set cps" "pk_state cp \<in> {''PENDING'', ''IN_PROGRESS''}" "pk_checkpoint_id cp = k" by blast
      from uniq [OF cp(1,3)] cp(1,2) own show "j = i \<and> pk_state y \<in> {''PENDING'', ''IN_PROGRESS''}" by blast
    next
      assume "j = i \<and> pk_state y \<in> {''PENDING'', ''IN_PROGRESS''}"
      then show ?bad using own get_checkpoint_id [OF c y(1)] by (intro rev_image_eqI [of y]) blast+
    qed
    show ?thesis using y st unfolding bad by (intro exI [of _ y]) (simp, blast)
  qed
  have "no_unfinished (fl_coord ?g) i"
    unfolding no_unfinished_def
  proof (intro allI impI)
    fix k x assume x: "coord_get_checkpoint k (fl_coord ?g) = Inr (Some x)" "pk_run_id x = i"
    from orig [OF state [OF x(1)]] x(2) show "pk_state x \<notin> {''PENDING'', ''IN_PROGRESS''}" by (auto split: if_splits)
  qed
  moreover have "\<exists>y. coord_get_checkpoint k (fl_coord f) = Inr (Some y) \<and> pk_state y = ''COMMITTED''"
    if x: "coord_get_checkpoint k (fl_coord ?g) = Inr (Some x)" "pk_state x = ''COMMITTED''" for k x
    using orig [OF state [OF x(1)]] x(2) by (auto split: if_splits)
  ultimately show ?thesis using res fold by auto
qed

lemma transition_accepted:
  assumes "coord_ok c" "coord_get_run i c = Inr (Some r)" "t \<in> set (VALID_TRANSITIONS (pr_state r))"
  shows "\<exists>r' c'. transition_run i t now c = (Inr r', c') \<and> pr_state r' = t \<and> coord_get_run i c' = Inr (Some r')"
  unfolding transition_run_move
  by (rule move_call_cases [OF assms(1) keeps_run_simps(1), of i t now])
    (use assms(2,3) in \<open>auto simp: get_run_iff get_put can_transition_def\<close>)

lemma transition_refused:
  assumes "coord_ok c" "coord_get_run i c = Inr (Some r)" "t \<notin> set (VALID_TRANSITIONS (pr_state r))"
  shows "\<exists>c'. transition_run i t now c = (Inl (InvalidTransitionError (pr_state r) t), c') \<and> co_kv c' = co_kv c"
  unfolding transition_run_move
  by (rule move_call_cases [OF assms(1) keeps_run_simps(1), of i t now])
    (use assms(2,3) in \<open>auto simp: get_run_iff get_put can_transition_def transition_def split: if_splits\<close>)

text \<open>Which workers of the run are left.\<close>

definition group_change :: "bool \<Rightarrow> jsstring \<Rightarrow> fleet \<Rightarrow> fleet \<Rightarrow> bool" where
  "group_change b i f g = (\<forall>v u. active g v u \<longleftrightarrow> active f v u \<and> \<not> (b \<and> pw_run_id u = i))"

lemma checkpoints_cong:
  assumes "\<And>k. coord_get_checkpoint k c = coord_get_checkpoint k d"
  shows "newest_committed c = newest_committed d" and "no_unfinished c = no_unfinished d"
  by (simp_all add: fun_eq_iff newest_committed_def no_unfinished_def assms split: option.split)

lemma records_kept_settled:
  assumes "records_kept f g"
  shows "coord_get_run i (fl_coord g) = coord_get_run i (fl_coord f)"
    and "coord_get_checkpoint k (fl_coord g) = coord_get_checkpoint k (fl_coord f)"
    and "settled i g \<longleftrightarrow> settled i f"
proof -
  show run: "coord_get_run i (fl_coord g) = coord_get_run i (fl_coord f)" for i
    using assms by (simp add: records_kept_def coord_get_run_def)
  show ckpt: "coord_get_checkpoint k (fl_coord g) = coord_get_checkpoint k (fl_coord f)" for k
    using assms by (simp add: records_kept_def coord_get_checkpoint_def)
  show "settled i g \<longleftrightarrow> settled i f"
    using assms by (simp add: settled_def checkpoints_cong [OF ckpt] run records_kept_def)
qed

lemma schedule_any:
  assumes ok: "fleet_ok f" and i: "i \<noteq> []"
  shows "touches i f (snd (schedule_restart env i t f))"
    and "records_kept f (snd (schedule_restart env i t f))"
    and "group_change (restart_due env i t f) i f (snd (schedule_restart env i t f))"
    and "\<exists>b. fst (schedule_restart env i t f) = Inr b"
    and "flight_ok f \<Longrightarrow> flight_ok (snd (schedule_restart env i t f))"
proof -
  have "touches i f (snd (schedule_restart env i t f)) \<and> records_kept f (snd (schedule_restart env i t f))
    \<and> group_change (restart_due env i t f) i f (snd (schedule_restart env i t f)) \<and> (\<exists>b. fst (schedule_restart env i t f) = Inr b)
    \<and> (flight_ok f \<longrightarrow> flight_ok (snd (schedule_restart env i t f)))"
  proof (cases "restart_due env i t f")
    case True
    from True have "fl_in_flight f = None" by (simp add: restart_due_def)
    with schedule_due [OF ok True i] True show ?thesis by (auto simp: group_change_def no_active_def flight_ok_def split: if_splits)
  next
    case False
    from schedule_not_due [OF False] obtain b where "schedule_restart env i t f = (Inr b, f)" by blast
    with False show ?thesis by (simp add: touches_refl [OF ok] records_kept_def group_change_def)
  qed
  then show "touches i f (snd (schedule_restart env i t f))" "records_kept f (snd (schedule_restart env i t f))"
    "group_change (restart_due env i t f) i f (snd (schedule_restart env i t f))"
    "\<exists>b. fst (schedule_restart env i t f) = Inr b"
    "flight_ok f \<Longrightarrow> flight_ok (snd (schedule_restart env i t f))" by blast+
qed

text \<open>From a failed run without unfinished checkpoints to a recovering one.\<close>

lemma attempt_ok:
  assumes ok: "fleet_ok f" and i: "i \<noteq> []" and run: "coord_get_run i (fl_coord f) = Inr (Some r)" "pr_state r = FAILED"
    and ck: "no_unfinished (fl_coord f) i"
  shows "\<exists>g. attempt_recovery (Some (schedule_restart env)) i now t f = (None, g) \<and> touches i f g \<and> settled i g
    \<and> group_change (restart_due env i t f) i f g \<and> (flight_ok f \<longrightarrow> flight_ok g)"
proof -
  from transition_accepted [OF fleet_ok_parts(4) [OF ok] run(1), of RECOVERING now] run(2) obtain r' c where
    tr: "transition_run i RECOVERING now (fl_coord f) = (Inr r', c)" "pr_state r' = RECOVERING" "coord_get_run i c = Inr (Some r')"
    by auto
  let ?f = "with_coord c f"
  have f1: "touches i f ?f" using touches_transition [OF ok, of i RECOVERING now] tr(1) by simp
  from record_recovery_ok [OF touches_ok [OF f1], of i] obtain latest where
    rec: "record_recovery_checkpoint i ?f = (None, ?f\<lparr>fl_recovery_checkpoints := AList.update i latest (fl_recovery_checkpoints ?f)\<rparr>)"
      "newest_committed (fl_coord ?f) i latest" by blast
  let ?g = "?f\<lparr>fl_recovery_checkpoints := AList.update i latest (fl_recovery_checkpoints ?f)\<rparr>"
  let ?h = "snd (schedule_restart env i t ?g)"
  have g: "touches i ?f ?g"
    by (rule touches_fields [OF touches_ok [OF f1]]) (simp_all add: bg_api AList.update_conv')
  have res: "attempt_recovery (Some (schedule_restart env)) i now t f = (None, ?h)"
    by (simp add: attempt_recovery_def tr(1) rec(1))
  note sched = schedule_any [OF touches_ok [OF g] i, of env t]
  have same: "coord_get_checkpoint k c = coord_get_checkpoint k (fl_coord f)" for k
    using tr(1) transition_run_checkpoint(1) [OF fleet_ok_parts(4) [OF ok], of k i RECOVERING now]
    by (simp add: coord_get_checkpoint_def)
  have "settled i ?g"
    using ck tr(2,3) rec(2) by (simp add: settled_def checkpoints_cong [OF same] AList.update_conv')
  then have "settled i ?h" using records_kept_settled(3) [OF sched(2)] by simp
  moreover have "restart_due env i t ?g = restart_due env i t f" by (simp add: restart_due_def with_coord_def)
  moreover have "active ?g = active f" by (simp add: fun_eq_iff active_def)
  ultimately show ?thesis
    using res touches_trans [OF touches_trans [OF f1 g] sched(1)] sched(3,5) by (simp add: group_change_def flight_ok_def)
qed

definition run_can_fail :: "py_run \<Rightarrow> bool" where
  "run_can_fail r = (pr_state r \<notin> {CREATED, CANCELLED, COMPLETED})"

definition failed :: "jsstring \<Rightarrow> fleet \<Rightarrow> bool" where
  "failed i f = ((\<exists>r. coord_get_run i (fl_coord f) = Inr (Some r) \<and> pr_state r = FAILED) \<and> no_unfinished (fl_coord f) i)"

lemma get_run_cases:
  assumes "coord_ok c"
  obtains (none) "coord_get_run i c = Inr None" | (some) r where "coord_get_run i c = Inr (Some r)"
proof (cases "kv_get (run_key i) (co_kv c)")
  case None
  then show ?thesis using none by (simp add: coord_get_run_def)
next
  case (Some v)
  with coord_ok_run [OF assms Some] show ?thesis using some by (auto simp: get_run_iff)
qed

text \<open>The steps of the handler after the run was found, from the failed run on.\<close>

lemma abort_fold_fields:
  "fl_workers (fold (abort_one now) cps f) = fl_workers f \<and> fl_in_flight (fold (abort_one now) cps f) = fl_in_flight f
   \<and> fl_threads (fold (abort_one now) cps f) = fl_threads f"
  by (induction cps arbitrary: f) (simp_all add: abort_one_def)

lemma handle_failed:
  assumes ok: "fleet_ok f" and i: "i \<noteq> []" and run: "coord_get_run i (fl_coord f) = Inr (Some r)" "pr_state r = FAILED"
  shows "\<exists>f2 g. abort_pending_checkpoints i now f = (None, f2)
    \<and> (if re_auto_restart env then attempt_recovery (restart_worker_group env) i now t f2 else (None, f2)) = (None, g)
    \<and> touches i f g \<and> group_change (re_auto_restart env \<and> restart_due env i t f2) i f g
    \<and> (if re_auto_restart env then settled i g else failed i g) \<and> (flight_ok f \<longrightarrow> flight_ok g)"
proof -
  from abort_ok [OF ok, of i now] obtain f2 where
    f2: "abort_pending_checkpoints i now f = (None, f2)" "touches i f f2" "no_unfinished (fl_coord f2) i"
      "kv_get (run_key i) (co_kv (fl_coord f2)) = kv_get (run_key i) (co_kv (fl_coord f))" by blast
  have run2: "coord_get_run i (fl_coord f2) = Inr (Some r)" using run(1) f2(4) by (simp add: get_run_iff)
  have "fl_workers f2 = fl_workers f \<and> fl_in_flight f2 = fl_in_flight f \<and> fl_threads f2 = fl_threads f"
    using f2(1) abort_fold_fields [of now _ f]
    by (auto simp: abort_pending_checkpoints_def abort_one_def [abs_def] split: sum.splits)
  then have act: "active f2 = active f" and flight: "flight_ok f2 = flight_ok f"
    by (simp_all add: fun_eq_iff active_def flight_ok_def)
  show ?thesis
  proof (cases "re_auto_restart env")
    case True
    from attempt_ok [OF touches_ok [OF f2(2)] i run2 run(2) f2(3), of env now t] obtain g where
      g: "attempt_recovery (Some (schedule_restart env)) i now t f2 = (None, g)" "touches i f2 g" "settled i g"
        "group_change (restart_due env i t f2) i f2 g" "flight_ok f2 \<longrightarrow> flight_ok g" by blast
    with f2(1) True touches_trans [OF f2(2) g(2)] act flight show ?thesis by (auto simp: restart_worker_group_def group_change_def)
  next
    case False
    with f2 run2 run(2) act flight show ?thesis by (auto simp: failed_def group_change_def)
  qed
qed

lemma handle_ok:
  assumes ok: "fleet_ok f" and i: "i \<noteq> []"
  shows "\<exists>b g. handle_failure (re_auto_restart env) (restart_worker_group env) i now t f = (None, g)
    \<and> touches i (f\<lparr>fl_recovering := List.insert i (fl_recovering f)\<rparr>) g \<and> group_change b i f g \<and> (b \<longrightarrow> re_auto_restart env)
    \<and> (flight_ok f \<longrightarrow> flight_ok g)
    \<and> (\<forall>r. coord_get_run i (fl_coord f) = Inr (Some r) \<longrightarrow> run_can_fail r \<longrightarrow>
         (if re_auto_restart env then settled i g else failed i g))"
proof -
  let ?f = "f\<lparr>fl_recovering := List.insert i (fl_recovering f)\<rparr>"
  have ok1: "fleet_ok ?f" by (rule fleet_ok_fields [OF ok]) simp_all
  note c = fleet_ok_parts(4) [OF ok]
  have act: "active ?f = active f" by (simp add: fun_eq_iff active_def)
  show ?thesis
  proof (rule get_run_cases [OF c, of i])
    assume "coord_get_run i (fl_coord f) = Inr None"
    then have "handle_failure (re_auto_restart env) (restart_worker_group env) i now t f = (None, ?f)"
      by (simp add: handle_failure_def)
    with touches_refl [OF ok1] \<open>coord_get_run i (fl_coord f) = Inr None\<close> show ?thesis
      by (intro exI [of _ False] exI [of _ ?f]) (simp add: group_change_def act flight_ok_def)
  next
    fix r assume r: "coord_get_run i (fl_coord f) = Inr (Some r)"
    show ?thesis
    proof (cases "pr_state r \<in> {CANCELLED, COMPLETED}")
      case True
      then have "handle_failure (re_auto_restart env) (restart_worker_group env) i now t f = (None, ?f)"
        using r by (simp add: handle_failure_def)
      with touches_refl [OF ok1] True r show ?thesis
        by (intro exI [of _ False] exI [of _ ?f]) (auto simp: group_change_def act run_can_fail_def flight_ok_def)
    next
      case live: False
      define h where "h = (if pr_state r = FAILED then ?f else with_coord (snd (transition_run i FAILED now (fl_coord f))) ?f)"
      have h: "touches i ?f h" using touches_refl [OF ok1] touches_transition [OF ok1] by (simp add: h_def)
      have acth: "active h = active f" and flight: "flight_ok h = flight_ok f"
        by (simp_all add: h_def fun_eq_iff active_def flight_ok_def)
      show ?thesis
      proof (cases "pr_state r = CREATED")
        case True
        with transition_refused [OF c r, of FAILED now] obtain c' where
          "transition_run i FAILED now (fl_coord f) = (Inl (InvalidTransitionError (pr_state r) FAILED), c')" by auto
        with True r have "handle_failure (re_auto_restart env) (restart_worker_group env) i now t f = (None, h)"
          by (simp add: handle_failure_def h_def)
        with h True r show ?thesis
          by (intro exI [of _ False] exI [of _ h]) (auto simp: group_change_def acth run_can_fail_def flight)
      next
        case False
        with live have valid: "pr_state r \<noteq> FAILED \<Longrightarrow> FAILED \<in> set (VALID_TRANSITIONS (pr_state r))" by (cases "pr_state r") auto
        have ex: "\<exists>q st. (if pr_state r = FAILED then (Inr r, fl_coord ?f) else transition_run i FAILED now (fl_coord ?f)) = (Inr st, fl_coord h)
            \<and> with_coord (fl_coord h) ?f = h \<and> coord_get_run i (fl_coord h) = Inr (Some q) \<and> pr_state q = FAILED"
        proof (cases "pr_state r = FAILED")
          case True
          with r show ?thesis by (auto simp: h_def with_coord_def)
        next
          case False
          with transition_accepted [OF c r valid [OF False], of now] show ?thesis by (fastforce simp: h_def)
        qed
        then obtain q st where q: "(if pr_state r = FAILED then (Inr r, fl_coord ?f) else transition_run i FAILED now (fl_coord ?f)) = (Inr st, fl_coord h)"
          "with_coord (fl_coord h) ?f = h" "coord_get_run i (fl_coord h) = Inr (Some q)" "pr_state q = FAILED" by blast
        from handle_failed [OF touches_ok [OF h] i q(3,4), of now env t] obtain f2 g where
          g: "abort_pending_checkpoints i now h = (None, f2)"
            "(if re_auto_restart env then attempt_recovery (restart_worker_group env) i now t f2 else (None, f2)) = (None, g)"
            "touches i h g" "group_change (re_auto_restart env \<and> restart_due env i t f2) i h g"
            "if re_auto_restart env then settled i g else failed i g" "flight_ok h \<longrightarrow> flight_ok g" by blast
        have "handle_failure (re_auto_restart env) (restart_worker_group env) i now t f = (None, g)"
          unfolding handle_failure_def Let_def using live r q(1,2) g(1,2) by simp
        with touches_trans [OF h g(3)] g(4-6) show ?thesis
          by (intro exI [of _ "re_auto_restart env \<and> restart_due env i t f2"] exI [of _ g]) (simp add: group_change_def acth flight)
      qed
    qed
  qed
qed

lemma touches_recovering_reset:
  assumes t: "touches i (f\<lparr>fl_recovering := xs\<rparr>) g"
  shows "touches i f (g\<lparr>fl_recovering := fl_recovering f\<rparr>)"
proof -
  let ?f = "f\<lparr>fl_recovering := xs\<rparr>" and ?g = "g\<lparr>fl_recovering := fl_recovering f\<rparr>"
  have same: "active ?f = active f" "active ?g = active g" "snap ?f = snap f" "snap ?g = snap g"
    by (simp_all add: fun_eq_iff active_def snap_def)
  note act = touches_active [OF t, unfolded same] and snap = touches_snap [OF t, unfolded same]
  have "fleet_ok ?g" by (rule fleet_ok_fields [OF touches_ok [OF t]]) simp_all
  moreover have "bg f ?g" using touches_bg [OF t] by (simp add: bg_def)
  ultimately show ?thesis
    unfolding touches_def same
  proof (intro conjI allI impI iffI)
    show "active g v u \<Longrightarrow> active f v u" "active f v u \<Longrightarrow> pw_run_id u \<noteq> i \<Longrightarrow> active g v u" for v u by (fact act)+
    show "map_of (fl_leases ?g) v = Some r \<Longrightarrow> map_of (fl_leases f) v = Some r" for v r
      using touches_leases [OF t, of v r] by simp
    fix e assume e: "snap f e"
    show "snap g e" by (rule snap(1) [OF e])
    show "le_is_alive (fl_objects ?g ! snd e) \<Longrightarrow> fl_objects ?g ! snd e = fl_objects f ! snd e" using snap(2) [OF e] by simp
  qed (use touches_run [OF t] touches_checkpoint [OF t] touches_recovery [OF t] in simp_all)
qed

lemma on_failure_ok:
  assumes ok: "fleet_ok f" and i: "i \<noteq> []" and idle: "fl_recovering f = []"
  shows "\<exists>b. touches i f (rm_on_worker_failure (re_auto_restart env) (restart_worker_group env) wid i now t f)
    \<and> group_change b i f (rm_on_worker_failure (re_auto_restart env) (restart_worker_group env) wid i now t f)
    \<and> (b \<longrightarrow> re_auto_restart env)
    \<and> (flight_ok f \<longrightarrow> flight_ok (rm_on_worker_failure (re_auto_restart env) (restart_worker_group env) wid i now t f))
    \<and> (\<forall>r. coord_get_run i (fl_coord f) = Inr (Some r) \<longrightarrow> run_can_fail r \<longrightarrow>
         (if re_auto_restart env
          then settled i (rm_on_worker_failure (re_auto_restart env) (restart_worker_group env) wid i now t f)
          else failed i (rm_on_worker_failure (re_auto_restart env) (restart_worker_group env) wid i now t f)))"
proof -
  from handle_ok [OF ok i, of env now t] obtain b g where
    g: "handle_failure (re_auto_restart env) (restart_worker_group env) i now t f = (None, g)"
      "touches i (f\<lparr>fl_recovering := List.insert i (fl_recovering f)\<rparr>) g" "group_change b i f g" "b \<longrightarrow> re_auto_restart env"
      "flight_ok f \<longrightarrow> flight_ok g" "\<forall>r. coord_get_run i (fl_coord f) = Inr (Some r) \<longrightarrow> run_can_fail r \<longrightarrow>
         (if re_auto_restart env then settled i g else failed i g)" by blast
  let ?g = "g\<lparr>fl_recovering := fl_recovering f\<rparr>"
  have "removeAll i (fl_recovering g) = []" using touches_recovering [OF g(2)] idle by simp
  then have res: "rm_on_worker_failure (re_auto_restart env) (restart_worker_group env) wid i now t f = ?g"
    using idle g(1) by (simp add: rm_on_worker_failure_def)
  have "active ?g = active g" "settled i ?g = settled i g" "failed i ?g = failed i g" "flight_ok ?g = flight_ok g"
    by (simp_all add: fun_eq_iff active_def settled_def failed_def flight_ok_def)
  with g touches_recovering_reset [OF g(2)] show ?thesis
    unfolding res by (intro exI [of _ b]) (simp add: group_change_def)
qed

subsection \<open>A scan of the monitor\<close>

text \<open>The death of one worker before the recovery manager is told.\<close>

definition declared_dead :: "jsstring \<Rightarrow> nat \<Rightarrow> jsstring \<Rightarrow> fleet \<Rightarrow> fleet" where
  "declared_dead wid r i f =
     (let f1 = f\<lparr>fl_objects := (fl_objects f)[r := (fl_objects f ! r)\<lparr>le_is_alive := False\<rparr>]\<rparr>
      in set_status wid ''DEAD'' (with_coord (snd (mark_worker_dead i wid ''DEAD'' (fl_coord f1))) f1))"

lemma touches_declared_dead:
  assumes ok: "fleet_ok f" and e: "snap f (wid, r)" "le_is_alive (fl_objects f ! r)"
    and w: "map_of (fl_workers f) wid = Some w" "pw_run_id w = i"
  shows "touches i f (declared_dead wid r i f)" and "active (declared_dead wid r i f) v u \<longleftrightarrow> v \<noteq> wid \<and> active f v u"
    and "kv_get (run_key j) (co_kv (fl_coord (declared_dead wid r i f))) = kv_get (run_key j) (co_kv (fl_coord f))"
proof -
  note parts = fleet_ok_parts [OF ok]
  let ?g = "declared_dead wid r i f" and ?c = "snd (mark_worker_dead i wid ''DEAD'' (fl_coord f))"
  have fields: "fl_coord ?g = ?c" "fl_leases ?g = fl_leases f" "fl_run_workers ?g = fl_run_workers f"
    "fl_rank_counters ?g = fl_rank_counters f" "fl_recovering ?g = fl_recovering f"
    "fl_recovery_checkpoints ?g = fl_recovery_checkpoints f"
    "fl_objects ?g = (fl_objects f)[r := (fl_objects f ! r)\<lparr>le_is_alive := False\<rparr>]"
    by (simp_all add: declared_dead_def Let_def)
  from e have r: "map_of (fl_leases f) wid = Some r" "r < length (fl_objects f)" by (simp_all add: snap_def)
  from index_ok_stored [OF parts(1) w(1)] w(2) obtain x where
    x: "stored (fl_coord f) i wid = Some (WorkerVal x)" "agree w x" by auto
  have index: "fl_workers ?g = AList.update wid (w\<lparr>pw_status := ''DEAD''\<rparr>) (fl_workers f)"
    using w(1) by (simp add: declared_dead_def Let_def set_status_def)
  show act: "active ?g v u \<longleftrightarrow> v \<noteq> wid \<and> active f v u" for v u by (rule active_retired [OF index]) simp
  show run: "kv_get (run_key j) (co_kv (fl_coord ?g)) = kv_get (run_key j) (co_kv (fl_coord f))" for j
    by (simp add: fields worker_key_kv)
  have valid: "leases_valid ?g"
    using leases_valid_write [OF parts(3), of "(fl_objects f ! r)\<lparr>le_is_alive := False\<rparr>" r] by (simp add: leases_valid_def fields)
  have look: "get_lease v ?g = get_lease v f" if "v \<noteq> wid" for v
  proof (cases "map_of (fl_leases f) v")
    case (Some q)
    with that leases_valid_inj [OF parts(3) r(1), of v] have "q \<noteq> r" by auto
    with Some show ?thesis by (simp add: get_lease_def fields)
  qed (simp add: get_lease_def fields)
  have dead: "\<forall>l. get_lease wid ?g = Some l \<longrightarrow> \<not> le_is_alive l" using r by (auto simp: get_lease_def fields)
  have "fleet_ok ?g"
    by (rule fleet_retire [OF ok w(1), where st = "''DEAD''" and x = "x\<lparr>pw_status := ''DEAD''\<rparr>"])
      (use w(2) valid look dead in \<open>simp_all add: fields coord_ok_workers parts mark_stored [OF x(1)] agree_status x index run_worker_ids_def\<close>)
  moreover have "bg f ?g"
    by (rule bg_with_coord [where c = ?c])
      (auto simp: declared_dead_def Let_def with_coord_def intro: background.mark_worker_dead)
  moreover have "snap ?g e \<and> (le_is_alive (fl_objects ?g ! snd e) \<longrightarrow> fl_objects ?g ! snd e = fl_objects f ! snd e)" if "snap f e" for e
    using that r(2) by (cases e; cases "snd e = r") (auto simp: snap_def fields)
  moreover have "pw_run_id u = i" if "active f wid u" for u using that w by (simp add: active_def)
  ultimately show "touches i f ?g"
    unfolding touches_def act by (auto simp: fields run worker_key_kv)
qed

lemma run_checkpoints_cong:
  assumes "\<And>k x. pk_run_id x = j \<Longrightarrow> coord_get_checkpoint k c = Inr (Some x) \<longleftrightarrow> coord_get_checkpoint k d = Inr (Some x)"
  shows "newest_committed c j latest = newest_committed d j latest" and "no_unfinished c j = no_unfinished d j"
proof -
  have conj: "(coord_get_checkpoint k c = Inr (Some x) \<and> pk_run_id x = j \<and> R) =
      (coord_get_checkpoint k d = Inr (Some x) \<and> pk_run_id x = j \<and> R)" for k x R using assms by blast
  have imp: "(coord_get_checkpoint k c = Inr (Some x) \<longrightarrow> pk_run_id x = j \<longrightarrow> R) =
      (coord_get_checkpoint k d = Inr (Some x) \<longrightarrow> pk_run_id x = j \<longrightarrow> R)" for k x R using assms by blast
  show "newest_committed c j latest = newest_committed d j latest" "no_unfinished c j = no_unfinished d j"
    unfolding newest_committed_def no_unfinished_def conj imp by (rule refl)+
qed

text \<open>How a run ends up whose failure was handled.\<close>

definition failure_handled :: "restart_env \<Rightarrow> jsstring \<Rightarrow> fleet \<Rightarrow> bool" where
  "failure_handled env i f = (if re_auto_restart env then settled i f else failed i f)"

lemma touches_handled:
  assumes t: "touches i f g" and j: "j \<noteq> i"
  shows "coord_get_run j (fl_coord g) = coord_get_run j (fl_coord f)"
    and "failure_handled env j g \<longleftrightarrow> failure_handled env j f"
proof -
  show run: "coord_get_run j (fl_coord g) = coord_get_run j (fl_coord f)"
    using touches_run [OF t j] by (simp add: coord_get_run_def)
  have "coord_get_checkpoint k (fl_coord g) = Inr (Some x) \<longleftrightarrow> coord_get_checkpoint k (fl_coord f) = Inr (Some x)"
    if "pk_run_id x = j" for k x using touches_checkpoint [OF t] that j by (simp add: get_checkpoint_iff)
  note ck = run_checkpoints_cong [OF this]
  show "failure_handled env j g \<longleftrightarrow> failure_handled env j f"
    by (simp add: failure_handled_def settled_def failed_def ck run touches_recovery [OF t j])
qed

lemma handled_can_fail:
  "failure_handled env i f \<Longrightarrow> \<exists>r. coord_get_run i (fl_coord f) = Inr (Some r) \<and> run_can_fail r"
  by (auto simp: failure_handled_def settled_def failed_def run_can_fail_def split: if_splits)

lemma server_threshold [simp]: "hc_dead_threshold_seconds server_heartbeat_config = 15"
  by (simp add: server_heartbeat_config_def new_heartbeat_config_def or_default_def)

definition silent :: "real \<Rightarrow> lease \<Rightarrow> bool" where
  "silent t l = (15 < seconds_since_heartbeat t l)"

text \<open>The effect of the death of one worker.\<close>

definition death :: "restart_env \<Rightarrow> jsstring \<Rightarrow> py_worker \<Rightarrow> fleet \<Rightarrow> fleet \<Rightarrow> bool" where
  "death env wid w f g =
     (active f wid w \<and> touches (pw_run_id w) f g \<and> (flight_ok f \<longrightarrow> flight_ok g)
      \<and> (\<exists>b. (b \<longrightarrow> re_auto_restart env) \<and>
           (\<forall>v u. active g v u \<longleftrightarrow> active f v u \<and> v \<noteq> wid \<and> \<not> (b \<and> pw_run_id u = pw_run_id w)))
      \<and> (\<forall>r. coord_get_run (pw_run_id w) (fl_coord f) = Inr (Some r) \<longrightarrow> run_can_fail r \<longrightarrow>
           failure_handled env (pw_run_id w) g))"

abbreviation server_check :: "restart_env \<Rightarrow> int \<Rightarrow> real \<Rightarrow> jsstring \<times> nat \<Rightarrow> fleet \<Rightarrow> fleet" where
  "server_check env \<equiv> check_lease server_heartbeat_config (server_callbacks env)"

lemma check_lease_cases:
  assumes ok: "fleet_ok f" and e: "snap f (wid, r)" and idle: "fl_recovering f = []"
  obtains (skip) "server_check env now t (wid, r) f = f" "le_is_alive (fl_objects f ! r) \<Longrightarrow> \<not> silent t (fl_objects f ! r)"
  | (dead) w where "le_is_alive (fl_objects f ! r)" "silent t (fl_objects f ! r)" "le_run_id (fl_objects f ! r) = pw_run_id w"
      "death env wid w f (server_check env now t (wid, r) f)"
proof (cases "le_is_alive (fl_objects f ! r) \<and> silent t (fl_objects f ! r)")
  case False
  then show ?thesis using skip by (auto simp: check_lease_def Let_def silent_def)
next
  case True
  let ?l = "fl_objects f ! r" and ?g = "server_check env now t (wid, r) f"
  from True snap_lease [OF e] have "get_lease wid f = Some ?l" by simp
  with fleet_ok_parts(2) [OF ok] True obtain w where w: "active f wid w" "pw_run_id w = le_run_id ?l"
    unfolding leases_ok_def by blast
  let ?i = "pw_run_id w" and ?h = "declared_dead wid r (pw_run_id w) f"
  from w(1) have wm: "map_of (fl_workers f) wid = Some w" by (simp add: active_def)
  from index_ok_worker [OF fleet_ok_parts(1) [OF ok] wm] have i: "?i \<noteq> []" by (simp add: worker_ok_def)
  note h = touches_declared_dead [OF ok e conjunct1 [OF True] wm refl]
  have g: "?g = rm_on_worker_failure (re_auto_restart env) (restart_worker_group env) wid ?i now t ?h"
    using True w(2) by (simp add: check_lease_def Let_def silent_def fire_failure_def server_callbacks_def wm_on_worker_failure_def declared_dead_def)
  from on_failure_ok [OF touches_ok [OF h(1)] i, of env wid now t] touches_recovering [OF h(1)] idle obtain b where
    b: "touches ?i ?h ?g" "group_change b ?i ?h ?g" "b \<longrightarrow> re_auto_restart env" "flight_ok ?h \<longrightarrow> flight_ok ?g"
      "\<forall>r. coord_get_run ?i (fl_coord ?h) = Inr (Some r) \<longrightarrow> run_can_fail r \<longrightarrow> failure_handled env ?i ?g"
    unfolding g failure_handled_def by auto
  have "coord_get_run ?i (fl_coord ?h) = coord_get_run ?i (fl_coord f)" using h(3) by (simp add: coord_get_run_def)
  moreover have "flight_ok ?h = flight_ok f" by (simp add: declared_dead_def Let_def flight_ok_def)
  ultimately have "death env wid w f ?g"
    using b h(2) w(1) touches_trans [OF h(1) b(1)]
    unfolding death_def group_change_def by (intro conjI exI [of _ b]) auto
  with True show ?thesis using dead [OF _ _ w(2) [symmetric]] by blast
qed

text \<open>What every part of a scan keeps.\<close>

definition scan_rel :: "restart_env \<Rightarrow> fleet \<Rightarrow> fleet \<Rightarrow> bool" where
  "scan_rel env f g =
     (fleet_ok g \<and> bg f g \<and> fl_recovering g = [] \<and> (flight_ok f \<longrightarrow> flight_ok g)
      \<and> (\<forall>v u. active g v u \<longrightarrow> active f v u)
      \<and> (\<forall>e. snap f e \<longrightarrow> snap g e \<and> (le_is_alive (fl_objects g ! snd e) \<longrightarrow> fl_objects g ! snd e = fl_objects f ! snd e))
      \<and> (\<forall>v r. map_of (fl_leases g) v = Some r \<longrightarrow> map_of (fl_leases f) v = Some r)
      \<and> (\<forall>i. failure_handled env i f \<longrightarrow> failure_handled env i g))"

lemma scan_relD:
  assumes "scan_rel env f g"
  shows "fleet_ok g" "bg f g" "fl_recovering g = []" "active g v u \<Longrightarrow> active f v u" "snap f e \<Longrightarrow> snap g e"
    "snap f e \<Longrightarrow> le_is_alive (fl_objects g ! snd e) \<Longrightarrow> fl_objects g ! snd e = fl_objects f ! snd e"
    "failure_handled env i f \<Longrightarrow> failure_handled env i g"
    "map_of (fl_leases g) v = Some r \<Longrightarrow> map_of (fl_leases f) v = Some r"
    "flight_ok f \<Longrightarrow> flight_ok g"
  using assms unfolding scan_rel_def by blast+

lemma scan_rel_trans:
  assumes fg: "scan_rel env f g" and gh: "scan_rel env g h"
  shows "scan_rel env f h"
  unfolding scan_rel_def
proof (intro conjI allI impI)
  show "bg f h" using scan_relD(2) [OF fg] scan_relD(2) [OF gh] by (rule bg_trans)
  fix e assume e: "snap f e"
  note g = scan_relD(5) [OF fg e]
  show "snap h e" by (rule scan_relD(5) [OF gh g])
  assume a: "le_is_alive (fl_objects h ! snd e)"
  with scan_relD(6) [OF gh g a] scan_relD(6) [OF fg e] show "fl_objects h ! snd e = fl_objects f ! snd e" by simp
qed (use scan_relD [OF fg] scan_relD [OF gh] in blast)+

lemma scan_rel_death:
  assumes d: "death env wid w f g" and idle: "fl_recovering f = []"
  shows "scan_rel env f g"
proof -
  from d have t: "touches (pw_run_id w) f g" and fl: "flight_ok f \<longrightarrow> flight_ok g"
    and run: "\<And>r. coord_get_run (pw_run_id w) (fl_coord f) = Inr (Some r) \<Longrightarrow> run_can_fail r \<Longrightarrow> failure_handled env (pw_run_id w) g"
    unfolding death_def by blast+
  have "failure_handled env i g" if "failure_handled env i f" for i
    using that handled_can_fail [OF that] run touches_handled(2) [OF t, of i env] by (cases "i = pw_run_id w") auto
  then show ?thesis
    unfolding scan_rel_def
    using touches_ok [OF t] touches_bg [OF t] touches_recovering [OF t] idle touches_active(1) [OF t] touches_snap [OF t] touches_leases [OF t] fl
    by (intro conjI allI impI) (blast | simp)+
qed

lemma scan_rel_check:
  assumes "fleet_ok f" "snap f e" "fl_recovering f = []"
  shows "scan_rel env f (server_check env now t e f)"
proof -
  obtain v r where e: "e = (v, r)" by (cases e)
  show ?thesis
    unfolding e
  proof (rule check_lease_cases [OF assms(1) assms(2) [unfolded e] assms(3), of env now t])
    assume "server_check env now t (v, r) f = f"
    then show "scan_rel env f (server_check env now t (v, r) f)" using assms by (simp add: scan_rel_def)
  qed (rule scan_rel_death [OF _ assms(3)])
qed

abbreviation server_checks where
  "server_checks env \<equiv> check_leases server_heartbeat_config (server_callbacks env)"

lemma scan_rel_all:
  "fleet_ok f \<Longrightarrow> fl_recovering f = [] \<Longrightarrow> \<forall>e\<in>set es. snap f e \<Longrightarrow> scan_rel env f (server_checks env clock n es f)"
proof (induction es arbitrary: f n)
  case Nil
  then show ?case by (simp add: scan_rel_def)
next
  case (Cons e es)
  let ?h = "server_check env (fst (clock n)) (snd (clock n)) e f"
  have h: "scan_rel env f ?h" using Cons.prems by (intro scan_rel_check) simp_all
  from Cons.IH [OF scan_relD(1,3) [OF h]] scan_relD(5) [OF h] Cons.prems(3) have "scan_rel env ?h (server_checks env clock (Suc n) es ?h)"
    by simp
  from scan_rel_trans [OF h this] show ?case by simp
qed

text \<open>A scan retires a worker only if its run has a worker that was silent for too long.\<close>

lemma scan_blame:
  assumes "fleet_ok f" "fl_recovering f = []" "\<forall>e\<in>set es. snap f e" "active f v u" "\<not> active (server_checks env clock n es f) v u"
  shows "\<exists>v' r' u' m. (v', r') \<in> set es \<and> active f v' u' \<and> pw_run_id u' = pw_run_id u \<and> le_is_alive (fl_objects f ! r')
    \<and> silent (snd (clock m)) (fl_objects f ! r') \<and> (v' = v \<or> re_auto_restart env)"
  using assms
proof (induction es arbitrary: f n)
  case (Cons e es)
  obtain v0 r0 where e: "e = (v0, r0)" by (cases e)
  let ?h = "server_check env (fst (clock n)) (snd (clock n)) e f"
  have snap: "snap f (v0, r0)" using Cons.prems(3) e by simp
  have h: "scan_rel env f ?h" using Cons.prems by (intro scan_rel_check) simp_all
  show ?case
  proof (cases "active ?h v u")
    case True
    from Cons.IH [OF scan_relD(1,3) [OF h] _ True, of "Suc n"] scan_relD(5) [OF h] Cons.prems(3,5) obtain v' r' u' m where
      b: "(v', r') \<in> set es" "active ?h v' u'" "pw_run_id u' = pw_run_id u" "le_is_alive (fl_objects ?h ! r')"
        "silent (snd (clock m)) (fl_objects ?h ! r')" "v' = v \<or> re_auto_restart env" by auto
    have "fl_objects ?h ! r' = fl_objects f ! r'"
      using scan_relD(6) [OF h, of "(v', r')"] b(1,4) Cons.prems(3) by auto
    with b scan_relD(4) [OF h b(2)] show ?thesis by (auto intro!: exI [of _ v'])
  next
    case False
    show ?thesis
    proof (rule check_lease_cases [OF Cons.prems(1) snap Cons.prems(2), of env "fst (clock n)" "snd (clock n)"])
      assume "server_check env (fst (clock n)) (snd (clock n)) (v0, r0) f = f"
      with False Cons.prems(4) e show ?thesis by simp
    next
      fix w assume alive: "le_is_alive (fl_objects f ! r0)" and si: "silent (snd (clock n)) (fl_objects f ! r0)"
        and d: "death env v0 w f (server_check env (fst (clock n)) (snd (clock n)) (v0, r0) f)"
      from d obtain b where w: "active f v0 w" and b: "b \<longrightarrow> re_auto_restart env"
        and act: "\<And>v u. active ?h v u \<longleftrightarrow> active f v u \<and> v \<noteq> v0 \<and> \<not> (b \<and> pw_run_id u = pw_run_id w)"
        unfolding death_def e by blast
      from False Cons.prems(4) act [of v u] have "v = v0 \<or> b \<and> pw_run_id u = pw_run_id w" by blast
      moreover have "u = w" if "v = v0" using that w Cons.prems(4) by (simp add: active_def)
      ultimately have "pw_run_id w = pw_run_id u" "v0 = v \<or> re_auto_restart env" using b by auto
      with w alive si e show ?thesis by (intro exI [of _ v0] exI [of _ r0] exI [of _ w] exI [of _ n]) auto
    qed
  qed
qed simp

text \<open>A worker that survives a part of a scan still has its lease.\<close>

lemma scan_rel_leased:
  assumes h: "scan_rel env f h" and e: "snap f (v, r)" "le_is_alive (fl_objects f ! r)" and act: "active h v u"
  shows "le_is_alive (fl_objects h ! r)" and "fl_objects h ! r = fl_objects f ! r"
proof -
  from act fleet_ok_parts(2) [OF scan_relD(1) [OF h]] obtain l where l: "get_lease v h = Some l" "le_is_alive l"
    unfolding leases_ok_def by blast
  then obtain q where q: "map_of (fl_leases h) v = Some q" "l = fl_objects h ! q" by (auto simp: get_lease_def)
  with scan_relD(8) [OF h q(1)] e have "q = r" by (simp add: snap_def)
  with q l show "le_is_alive (fl_objects h ! r)" by simp
  with scan_relD(6) [OF h e(1)] show "fl_objects h ! r = fl_objects f ! r" by simp
qed

text \<open>It finds every worker that was silent all the time, and handles the failure of its run.\<close>

lemma scan_retires:
  assumes "fleet_ok f" "fl_recovering f = []" "\<forall>e\<in>set es. snap f e" "(v, r) \<in> set es" "le_is_alive (fl_objects f ! r)"
    "\<And>m. silent (snd (clock m)) (fl_objects f ! r)"
  shows "\<not> active (server_checks env clock n es f) v u"
  using assms
proof (induction es arbitrary: f n)
  case (Cons e es)
  let ?h = "server_check env (fst (clock n)) (snd (clock n)) e f"
  have e: "snap f (v, r)" using Cons.prems(3,4) by auto
  have h: "scan_rel env f ?h" using Cons.prems by (intro scan_rel_check) simp_all
  have snaps: "\<forall>e\<in>set es. snap ?h e" using scan_relD(5) [OF h] Cons.prems(3) by simp
  have rest: "scan_rel env ?h (server_checks env clock n (e # es) f)"
    using scan_rel_all [OF scan_relD(1,3) [OF h] snaps] by simp
  show ?case
  proof (cases "active ?h v u")
    case True
    have "e \<noteq> (v, r)"
    proof
      assume "e = (v, r)"
      with True show False
        by (cases rule: check_lease_cases [OF Cons.prems(1) e Cons.prems(2), of env "fst (clock n)" "snd (clock n)"])
          (use Cons.prems(5,6) in \<open>auto simp: death_def\<close>)
    qed
    with Cons.prems(4) have "(v, r) \<in> set es" by simp
    from Cons.IH [OF scan_relD(1,3) [OF h] snaps this] scan_rel_leased [OF h e Cons.prems(5) True] Cons.prems(6) show ?thesis by simp
  next
    case False
    with scan_relD(4) [OF rest] show ?thesis by blast
  qed
qed simp

lemma scan_handles:
  assumes "fleet_ok f" "fl_recovering f = []" "\<forall>e\<in>set es. snap f e" "(v, r) \<in> set es" "le_is_alive (fl_objects f ! r)"
    "\<And>m. silent (snd (clock m)) (fl_objects f ! r)"
    "active f v w" "coord_get_run (pw_run_id w) (fl_coord f) = Inr (Some q)" "run_can_fail q"
  shows "failure_handled env (pw_run_id w) (server_checks env clock n es f)"
  using assms
proof (induction es arbitrary: f n)
  case (Cons e es)
  obtain v0 r0 where e0: "e = (v0, r0)" by (cases e)
  let ?h = "server_check env (fst (clock n)) (snd (clock n)) e f" and ?g = "server_checks env clock n (e # es) f"
  have snap: "snap f (v, r)" "snap f (v0, r0)" using Cons.prems(3,4) e0 by auto
  have h: "scan_rel env f ?h" using Cons.prems by (intro scan_rel_check) simp_all
  have snaps: "\<forall>e\<in>set es. snap ?h e" using scan_relD(5) [OF h] Cons.prems(3) by simp
  have rest: "scan_rel env ?h ?g" using scan_rel_all [OF scan_relD(1,3) [OF h] snaps] by simp
  show ?case
  proof (rule check_lease_cases [OF Cons.prems(1) snap(2) Cons.prems(2), of env "fst (clock n)" "snd (clock n)"])
    assume s: "server_check env (fst (clock n)) (snd (clock n)) (v0, r0) f = f"
      and "le_is_alive (fl_objects f ! r0) \<Longrightarrow> \<not> silent (snd (clock n)) (fl_objects f ! r0)"
    then have "(v, r) \<noteq> e" using Cons.prems(5,6) e0 by auto
    then have "(v, r) \<in> set es" using Cons.prems(4) by simp
    from Cons.IH [OF Cons.prems(1,2) _ this Cons.prems(5-9), of "Suc n"] Cons.prems(3) s e0 show ?thesis by simp
  next
    fix w0 assume d: "death env v0 w0 f (server_check env (fst (clock n)) (snd (clock n)) (v0, r0) f)"
    then have t: "touches (pw_run_id w0) f ?h" and w0: "active f v0 w0"
      and run: "\<And>q. coord_get_run (pw_run_id w0) (fl_coord f) = Inr (Some q) \<Longrightarrow> run_can_fail q \<Longrightarrow> failure_handled env (pw_run_id w0) ?h"
      unfolding death_def e0 by blast+
    show ?thesis
    proof (cases "pw_run_id w = pw_run_id w0")
      case True
      with run Cons.prems(8,9) have "failure_handled env (pw_run_id w) ?h" by simp
      then show ?thesis by (rule scan_relD(7) [OF rest])
    next
      case False
      then have "(v, r) \<noteq> e" using w0 Cons.prems(7) e0 by (auto simp: active_def)
      then have mem: "(v, r) \<in> set es" using Cons.prems(4) by simp
      note hw = touches_active(2) [OF t Cons.prems(7) False]
      note lease = scan_rel_leased [OF h snap(1) Cons.prems(5) hw]
      from Cons.IH [OF scan_relD(1,3) [OF h] snaps mem lease(1) _ hw _ Cons.prems(9), of "Suc n"]
        lease(2) touches_handled(1) [OF t False] Cons.prems(6,8) show ?thesis by simp
    qed
  qed
qed simp

text \<open>The two ways to select a checkpoint agree: the listing is sorted by step.\<close>

lemma sorted_last: "sorted (map k xs) \<Longrightarrow> x \<in> set xs \<Longrightarrow> k x \<le> k (last xs)"
  by (induction xs) auto

lemma execute_recovery_newest:
  assumes ok: "fleet_ok f" and run: "coord_get_run i (fl_coord f) = Inr (Some r)"
  shows "\<exists>g. execute_recovery i f = (None, g) \<and> newest_committed (fl_coord g) i (get_recovery_checkpoint i g)"
proof -
  let ?c = "fl_coord f"
  note c = fleet_ok_parts(4) [OF ok]
  from list_checkpoints_ok [OF c, of i] obtain ks where ks: "coord_list_checkpoints i ?c = Inr ks"
    "set ks = {k. pk_run_id k = i \<and> (\<exists>j. coord_get_checkpoint j ?c = Inr (Some k))}" "sorted (map pk_step ks)" by blast
  let ?cs = "filter (\<lambda>cp. pk_state cp = ''COMMITTED'') ks"
  let ?t = "if ?cs \<noteq> [] then Some (pk_checkpoint_id (last ?cs)) else None"
  have sorted: "sorted (map pk_step ?cs)" using ks(3) by (rule sorted_filter)
  have "newest_committed ?c i ?t"
  proof (cases "?cs = []")
    case True
    with ks(2) show ?thesis by (auto simp: newest_committed_def filter_empty_conv)
  next
    case False
    then have "last ?cs \<in> set ?cs" by (rule last_in_set)
    then obtain j where j: "coord_get_checkpoint j ?c = Inr (Some (last ?cs))" "pk_run_id (last ?cs) = i" "pk_state (last ?cs) = ''COMMITTED''"
      using ks(2) by auto
    moreover have "pk_checkpoint_id (last ?cs) = j" using coord_ok_checkpoint [OF c] j(1) by (fastforce simp: get_checkpoint_iff)
    moreover have "pk_step y \<le> pk_step (last ?cs)"
      if "coord_get_checkpoint k ?c = Inr (Some y)" "pk_run_id y = i" "pk_state y = ''COMMITTED''" for k y
      using sorted_last [OF sorted, of y] that ks(2) by auto
    ultimately show ?thesis using False by (auto simp: newest_committed_def)
  qed
  then show ?thesis
    by (simp add: execute_recovery_def run ks(1) Let_def get_recovery_checkpoint_def AList.update_conv' given_def)
qed

end
