(* ===== verification/FleetSystem.thy ===== *)
theory FleetSystem
  imports Recovery
begin

text \<open>
  The control plane with its workers as one system: every operation of the theories \<open>Fleet\<close> and
  \<open>Recovery\<close>, the requests of the checkpoint protocol, and restarts of the process are the steps of a
  relation, and the heartbeat thread of \<open>training-harness/train.py\<close> is its client.

  The invariant of the fleet holds in every reachable state, and the system refines the server of the
  checkpoint protocol: what its monitors do to the records are steps that the protocol allows, so
  that what is proved of checkpoints there holds here. The properties are about ranks, failure
  detection, recovery, restarts and the heartbeat thread.
\<close>

section \<open>The heartbeat thread of the harness\<close>

record heartbeat_thread =
  ht_worker_id :: jsstring
  ht_run_id :: jsstring
  ht_hostname :: jsstring
  ht_rank :: int
  ht_step :: int

text \<open>A request is answered, is never received, or is received without its answer coming back.\<close>

datatype delivery = Answered | NotReceived | AnswerLost

definition deliver :: "delivery \<Rightarrow> (fleet \<Rightarrow> 'a http \<times> fleet) \<Rightarrow> fleet \<Rightarrow> 'a http option \<times> fleet" where
  "deliver d request f =
     (case d of
        Answered \<Rightarrow> (case request f of (answer, g) \<Rightarrow> (Some answer, g))
      | NotReceived \<Rightarrow> (None, f)
      | AnswerLost \<Rightarrow> (None, snd (request f)))"

definition send_heartbeat ::
  "delivery \<Rightarrow> delivery \<Rightarrow> jsstring \<Rightarrow> int \<Rightarrow> real \<Rightarrow> heartbeat_thread \<Rightarrow> fleet \<Rightarrow> heartbeat_thread \<times> fleet" where
  "send_heartbeat d1 d2 new_id now clk h f =
     (case deliver d1 (rest_worker_heartbeat (ht_worker_id h) (ht_step h) now clk) f of
        (Some (HttpError code), f1) \<Rightarrow>
          if code \<noteq> 404 then (h, f1)
          else
            (case deliver d2 (rest_register_worker new_id (ht_run_id h) (ht_hostname h) (Some (ht_rank h)) now clk) f1 of
               (Some (Ok w), f2) \<Rightarrow> (h\<lparr>ht_worker_id := pw_worker_id w\<rparr>, f2)
             | (_, f2) \<Rightarrow> (h, f2))
      | (_, f1) \<Rightarrow> (h, f1))"

section \<open>Steps\<close>

text \<open>
  New worker identifiers are not in use and, like the identifiers of runs, have no slash. A request
  of the checkpoint protocol leaves the records of the workers alone.
\<close>

inductive fleet_step :: "fleet \<times> pending list \<Rightarrow> fleet \<times> pending list \<Rightarrow> bool" where
  register: "map_of (fl_workers f) wid = None \<Longrightarrow> plain wid \<Longrightarrow> plain i \<Longrightarrow> i \<noteq> [] \<Longrightarrow>
    fleet_step (f, ps) (snd (rest_register_worker wid i h rank now t f), ps)"
| deregister: "fleet_step (f, ps) (snd (rest_deregister_worker wid f), ps)"
| heartbeat: "fleet_step (f, ps) (snd (rest_worker_heartbeat wid n now t f), ps)"
| scan: "fleet_step (f, ps) (monitor_scan env clock f, ps)"
| reconcile: "fleet_step (f, ps) (reconcile_worker_recovery env t f, ps)"
| recover: "i \<noteq> [] \<Longrightarrow> fleet_step (f, ps) (snd (recover_run (restart_worker_group env) i now t f), ps)"
| thread_ends: "i \<in> set (fl_threads f) \<Longrightarrow> fleet_step (f, ps) (restart_thread_ends i ok_at f, ps)"
| kill: "fleet_step (f, ps) (snd (kill_begin env name k1 k2 now f), ps)"
| killed: "fleet_step (f, ps) (kill_finish name country flag now f, ps)"
| request: "server_step (fl_api f, ps) (a, qs) \<Longrightarrow> (\<And>r v. stored (ai_coord a) r v = stored (fl_coord f) r v) \<Longrightarrow>
    fleet_step (f, ps) (f\<lparr>fl_api := a\<rparr>, qs)"
| restart: "restart_control_plane t f = Inr g \<Longrightarrow> fleet_step (f, ps) (g, [])"

inductive fleet_reachable :: "fleet \<times> pending list \<Rightarrow> bool" where
  init: "fleet_reachable (new_process coord_empty, [])"
| step: "fleet_reachable s \<Longrightarrow> fleet_step s t \<Longrightarrow> fleet_reachable t"

section \<open>Lemmas\<close>

definition fleet_inv :: "fleet \<Rightarrow> bool" where
  "fleet_inv f = (fleet_ok f \<and> fl_recovering f = [] \<and> flight_ok f)"

text \<open>Steps of the server that are allowed beside the requests.\<close>

lemma bg_server:
  assumes "bg f g"
  shows "server_step\<^sup>*\<^sup>* (fl_api f, ps) (fl_api g, ps)"
proof -
  have "server_step\<^sup>*\<^sup>* (a, ps) (a\<lparr>ai_coord := c\<rparr>, ps)" if "background\<^sup>*\<^sup>* (ai_coord a) c" for a c
    using that
  proof (induction rule: rtranclp_induct)
    case (step c d)
    have "server_step (a\<lparr>ai_coord := c\<rparr>, ps) ((a\<lparr>ai_coord := c\<rparr>)\<lparr>ai_coord := d\<rparr>, ps)"
      by (rule server_step.monitor) (simp add: step(2))
    with step(3) show ?case by (simp add: rtranclp.rtrancl_into_rtrancl)
  qed simp
  with assms have steps: "server_step\<^sup>*\<^sup>* (fl_api f, ps) ((fl_api f)\<lparr>ai_coord := fl_coord g\<rparr>, ps)" by (simp add: bg_def)
  have "fl_api g = (fl_api f)\<lparr>ai_coord := fl_coord g, ai_restart_attempts := ai_restart_attempts (fl_api g)\<rparr>"
    using assms by (intro api.equality) (simp_all add: bg_def)
  then have "server_step ((fl_api f)\<lparr>ai_coord := fl_coord g\<rparr>, ps) (fl_api g, ps)"
    using server_step.throttle [of "(fl_api f)\<lparr>ai_coord := fl_coord g\<rparr>" ps "ai_restart_attempts (fl_api g)"] by simp
  with steps show ?thesis by (rule rtranclp.rtrancl_into_rtrancl)
qed

text \<open>Fields that the worker operations leave alone.\<close>

definition idle_kept :: "fleet \<Rightarrow> fleet \<Rightarrow> bool" where
  "idle_kept f g = (fl_recovering g = fl_recovering f \<and> fl_in_flight g = fl_in_flight f \<and> fl_threads g = fl_threads f)"

lemma idle_kept_refl [simp]: "idle_kept f f"
  by (simp add: idle_kept_def)

lemma idle_kept_trans: "idle_kept f g \<Longrightarrow> idle_kept g h \<Longrightarrow> idle_kept f h"
  by (simp add: idle_kept_def)

lemma idle_kept_inv: "fleet_inv f \<Longrightarrow> idle_kept f g \<Longrightarrow> fleet_ok g \<Longrightarrow> fleet_inv g"
  by (simp add: fleet_inv_def idle_kept_def flight_ok_def)

lemma idle_kept_basic [simp]:
  "idle_kept f (with_coord c f)" "idle_kept f (lease_unregister w f)" "idle_kept f (set_status w st f)"
  "idle_kept f (lease_register w i t f)" "idle_kept f (index_worker x f)" "idle_kept f (raise_counter i r f)"
  "idle_kept f (snd (record_heartbeat w n t f))" "idle_kept f (propagate_step i n now f)"
  by (simp_all add: idle_kept_def lease_register_def index_worker_def raise_counter_def record_heartbeat_def
      propagate_step_def Let_def split: option.split sum.split)

lemma idle_kept_mark: "idle_kept f (snd (mark_suppressed i w st f))"
  by (simp add: mark_suppressed_def split: prod.split sum.split)

lemma idle_kept_supersede: "idle_kept f (snd (supersede i rank olds f))"
proof (induction olds arbitrary: f)
  case (Cons old olds)
  obtain e f1 where m: "mark_suppressed i old ''SUPERSEDED'' (set_status old ''SUPERSEDED'' f) = (e, f1)" by fastforce
  have "idle_kept (set_status old ''SUPERSEDED'' f) f1"
    using idle_kept_mark [where f = "set_status old ''SUPERSEDED'' f" and i = i and w = old and st = "''SUPERSEDED''"] m by simp
  with idle_kept_basic(3) have "idle_kept f f1" by (rule idle_kept_trans)
  then have "idle_kept f (snd (supersede i rank olds (lease_unregister old f1)))"
    using idle_kept_trans [OF idle_kept_trans [OF _ idle_kept_basic(2)] Cons.IH] by blast
  with m Cons.IH \<open>idle_kept f f1\<close> show ?case by (simp split: option.split)
qed simp

lemma idle_kept_register: "idle_kept f (snd (wm_register_worker wid i h rank now t f))"
proof -
  obtain r e f1 where c: "(case rank of None \<Rightarrow> (case next_rank i f of (r, f1) \<Rightarrow> (r, None, f1))
      | Some r \<Rightarrow> (r, supersede i r (run_worker_ids i f) (raise_counter i r f))) = (r, e, f1)" by (rule prod_cases3)
  have f1: "idle_kept f f1"
  proof (cases rank)
    case None
    with c show ?thesis by (auto simp: next_rank_def Let_def idle_kept_def)
  next
    case (Some r')
    with c have "f1 = snd (supersede i r' (run_worker_ids i f) (raise_counter i r' f))" by auto
    with idle_kept_trans [OF idle_kept_basic(6) idle_kept_supersede] show ?thesis by simp
  qed
  show ?thesis
  proof (cases e)
    case None
    obtain w d where d: "coord_register_worker wid i r h now (fl_coord f1) = (w, d)" by fastforce
    have "idle_kept f1 (lease_register wid i t (index_worker w (with_coord d f1)))"
      by (rule idle_kept_trans [OF idle_kept_trans [OF idle_kept_basic(1) idle_kept_basic(5)] idle_kept_basic(4)])
    with None c d idle_kept_trans [OF f1] show ?thesis by (simp add: wm_register_worker_def)
  qed (use c f1 in \<open>simp add: wm_register_worker_def\<close>)
qed

lemma idle_kept_deregister: "idle_kept f (snd (wm_deregister_worker wid f))"
  by (auto simp: wm_deregister_worker_def Let_def idle_kept_def mark_suppressed_def split: option.split prod.split sum.split)

lemma idle_kept_heartbeat: "idle_kept f (snd (update_worker_heartbeat wid n now t f))"
  by (auto simp: update_worker_heartbeat_def Let_def idle_kept_def record_heartbeat_def propagate_step_def
      split: option.split prod.split sum.split)

subsection \<open>Recovery, reconciliation and the end of a restart\<close>

lemma recover_run_state:
  assumes "coord_get_run i (fl_coord f) = Inr (Some r)" "pr_state r = FAILED" "abort_pending_checkpoints i now f = (None, f1)"
    "attempt_recovery go i now t f1 = (None, g)"
  shows "snd (recover_run go i now t f) = g"
  using assms
  by (auto simp: recover_run_def attempt_recovery_def split: option.splits prod.splits sum.splits coord_error.splits)

lemma recover_ok:
  assumes inv: "fleet_inv f" and i: "i \<noteq> []"
  shows "fleet_inv (snd (recover_run (restart_worker_group env) i now t f))"
    and "bg f (snd (recover_run (restart_worker_group env) i now t f))"
proof -
  let ?go = "restart_worker_group env" and ?g = "snd (recover_run (restart_worker_group env) i now t f)"
  from inv have ok: "fleet_ok f" by (simp add: fleet_inv_def)
  have "fleet_inv ?g \<and> bg f ?g"
  proof (rule get_run_cases [OF fleet_ok_parts(4) [OF ok], of i])
    fix r assume r: "coord_get_run i (fl_coord f) = Inr (Some r)"
    show ?thesis
    proof (cases "pr_state r = FAILED")
      case True
      from handle_failed [OF ok i r True, of now env t] obtain f2 g where
        g: "abort_pending_checkpoints i now f = (None, f2)" "touches i f g" "flight_ok f \<longrightarrow> flight_ok g"
          "(if re_auto_restart env then attempt_recovery ?go i now t f2 else (None, f2)) = (None, g)" by blast
      then have "attempt_recovery ?go i now t f2 = (None, g)"
        by (auto simp: restart_worker_group_def attempt_recovery_def split: if_splits)
      with recover_run_state [OF r True g(1)] have "?g = g" by simp
      with g inv touches_recovering [OF g(2)] show ?thesis
        by (auto simp: fleet_inv_def touches_ok [OF g(2)] touches_bg [OF g(2)])
    qed (use r inv in \<open>simp add: recover_run_def\<close>)
  qed (use inv in \<open>simp add: recover_run_def\<close>)
  then show "fleet_inv ?g" "bg f ?g" by auto
qed

lemma reconcile_ok:
  assumes inv: "fleet_inv f"
  shows "fleet_inv (reconcile_worker_recovery env t f)" and "bg f (reconcile_worker_recovery env t f)"
proof -
  from inv have ok: "fleet_ok f" by (simp add: fleet_inv_def)
  have sched: "fleet_inv (snd (schedule_restart env i t f)) \<and> bg f (snd (schedule_restart env i t f))" if "i \<noteq> []" for i
    using schedule_any(1,5) [OF ok that, of env t] inv touches_recovering touches_ok touches_bg by (fastforce simp: fleet_inv_def)
  have some: "i \<noteq> []" if "get_supervised_run_id env = Some i" for i
    using that by (auto simp: get_supervised_run_id_def split: if_splits option.splits)
  have "fleet_inv (reconcile_worker_recovery env t f) \<and> bg f (reconcile_worker_recovery env t f)"
  proof (cases "get_supervised_run_id env")
    case (Some i)
    have "pr_run_id r = i" if "coord_get_run i (fl_coord f) = Inr (Some r)" for r
      using that coord_ok_run [OF fleet_ok_parts(4) [OF ok]] by (fastforce simp: get_run_iff)
    with Some some [OF Some] sched inv show ?thesis
      by (auto simp: reconcile_worker_recovery_def split: sum.splits option.splits)
  qed (simp add: reconcile_worker_recovery_def inv)
  then show "fleet_inv (reconcile_worker_recovery env t f)" "bg f (reconcile_worker_recovery env t f)" by auto
qed

lemma thread_ends_ok:
  assumes inv: "fleet_inv f" and i: "i \<in> set (fl_threads f)"
  shows "fleet_inv (restart_thread_ends i ok_at f)" and "bg f (restart_thread_ends i ok_at f)"
proof -
  let ?g = "restart_thread_ends i ok_at f"
  from inv i have flight: "fl_in_flight f = Some i" "fl_threads f = [i]"
    by (auto simp: fleet_inv_def flight_ok_def split: option.splits)
  have "fleet_ok ?g"
    using inv by (intro fleet_ok_fields [of f ?g])
      (simp_all add: fleet_inv_def restart_thread_ends_def Let_def release_flight_def forget_attempt_def)
  moreover have "fl_recovering ?g = []" "flight_ok ?g"
    using inv flight by (simp_all add: fleet_inv_def restart_thread_ends_def Let_def release_flight_def forget_attempt_def flight_ok_def)
  ultimately show "fleet_inv ?g" by (simp add: fleet_inv_def)
  show "bg f ?g"
    by (simp add: bg_def restart_thread_ends_def Let_def release_flight_def forget_attempt_def with_attempts_def)
qed

subsection \<open>The kill endpoint\<close>

text \<open>The records of the workers of a run, one after the other.\<close>

definition killed_records :: "jsstring \<Rightarrow> jsstring set \<Rightarrow> fleet \<Rightarrow> fleet \<Rightarrow> bool" where
  "killed_records i vs f g =
     (index_ok g \<and> bg f g \<and> idle_kept f g \<and> fl_leases g = fl_leases f \<and> fl_objects g = fl_objects f
      \<and> (\<forall>v u. active g v u \<longleftrightarrow> active f v u \<and> \<not> (v \<in> vs \<and> pw_run_id u = i))
      \<and> (\<forall>k. kv_get (run_key k) (co_kv (fl_coord g)) = kv_get (run_key k) (co_kv (fl_coord f))))"

lemma kill_worker_record_ok:
  assumes ok: "index_ok f"
  shows "killed_records i {wid} f (kill_worker_record i wid f)"
proof (cases "\<exists>w. active f wid w \<and> pw_run_id w = i")
  case True
  then obtain w where w: "map_of (fl_workers f) wid = Some w" "pw_status w = ''ACTIVE''" "pw_run_id w = i" by (auto simp: active_def)
  let ?c = "snd (mark_worker_dead i wid ''DEAD'' (fl_coord f))" and ?g = "kill_worker_record i wid f"
  have g: "?g = with_coord ?c (set_status wid ''DEAD'' f)" using w by (simp add: kill_worker_record_def)
  from index_ok_stored [OF ok w(1)] w(3) obtain x where x: "stored (fl_coord f) i wid = Some (WorkerVal x)" "agree w x" by auto
  have index: "fl_workers ?g = AList.update wid (w\<lparr>pw_status := ''DEAD''\<rparr>) (fl_workers f)" using w(1) by (simp add: g set_status_def)
  have c: "coord_ok (fl_coord f)" using ok by (simp add: index_ok_def)
  have "index_ok ?g"
    by (rule index_retire [OF ok w(1), where st = "''DEAD''" and x = "x\<lparr>pw_status := ''DEAD''\<rparr>"])
      (use index w(3) in \<open>simp_all add: g coord_ok_workers c mark_stored [OF x(1)] agree_status x run_worker_ids_def\<close>)
  moreover have "bg f ?g"
    by (rule bg_with_coord [where c = ?c]) (auto simp: g with_coord_def intro: background.mark_worker_dead)
  moreover have "active ?g v u \<longleftrightarrow> v \<noteq> wid \<and> active f v u" for v u by (rule active_retired [OF index]) simp
  moreover have "pw_run_id u = i" if "active f wid u" for u using that w by (simp add: active_def)
  ultimately show ?thesis by (auto simp: killed_records_def g worker_key_kv idle_kept_def)
next
  case False
  then have "kill_worker_record i wid f = f" by (auto simp: kill_worker_record_def active_def split: option.splits)
  with False ok show ?thesis by (auto simp: killed_records_def)
qed

lemma kill_records_fold:
  "index_ok f \<Longrightarrow> killed_records i (set vs) f (fold (kill_worker_record i) vs f)"
proof (induction vs arbitrary: f)
  case (Cons v vs)
  note h = kill_worker_record_ok [OF Cons.prems, of i v]
  then have "index_ok (kill_worker_record i v f)" by (simp add: killed_records_def)
  from Cons.IH [OF this] h show ?case
    by (auto simp: killed_records_def intro: bg_trans idle_kept_trans)
qed (simp add: killed_records_def)

text \<open>Then the leases of the run.\<close>

definition cleared_leases :: "jsstring \<Rightarrow> jsstring set \<Rightarrow> fleet \<Rightarrow> fleet \<Rightarrow> bool" where
  "cleared_leases i vs f g =
     (leases_valid g \<and> fl_api g = fl_api f \<and> idle_kept f g \<and> fl_workers g = fl_workers f
      \<and> fl_run_workers g = fl_run_workers f \<and> fl_rank_counters g = fl_rank_counters f
      \<and> (\<forall>v l. get_lease v g = Some l \<longleftrightarrow> get_lease v f = Some l \<and> \<not> (v \<in> vs \<and> le_run_id l = i)))"

lemma clear_run_lease_ok: "leases_valid f \<Longrightarrow> cleared_leases i {v} f (clear_run_lease i v f)"
  by (auto simp: cleared_leases_def clear_run_lease_def leases.valid_unregister leases.look_unregister split: option.split)

lemma clear_leases_fold: "leases_valid f \<Longrightarrow> cleared_leases i (set vs) f (fold (clear_run_lease i) vs f)"
proof (induction vs arbitrary: f)
  case (Cons v vs)
  note h = clear_run_lease_ok [OF Cons.prems, of i v]
  then have "leases_valid (clear_run_lease i v f)" by (simp add: cleared_leases_def)
  from Cons.IH [OF this] h show ?case by (auto simp: cleared_leases_def intro: idle_kept_trans)
qed (simp add: cleared_leases_def)

lemma map_of_key: "map_of xs k = Some y \<Longrightarrow> k \<in> set (map fst xs)"
  by (metis domI dom_map_of_conv_image_fst list.set_map)

lemma kill_run_ok:
  assumes inv: "fleet_inv f"
  shows "fleet_inv (kill_run i name now f)" and "bg f (kill_run i name now f)"
    and "active (kill_run i name now f) v u \<longleftrightarrow> active f v u \<and> pw_run_id u \<noteq> i"
    and "coord_get_run i (fl_coord (kill_run i name now f)) =
      coord_get_run i (snd (set_run_error i (js ''Worker '' @ name @ js '' killed (demo)'') now (fl_coord f)))"
    and "get_lease v (kill_run i name now f) = Some l \<Longrightarrow> le_run_id l \<noteq> i"
proof -
  from inv have ok: "fleet_ok f" by (simp add: fleet_inv_def)
  define f1 where "f1 = with_coord (snd (set_run_error i (js ''Worker '' @ name @ js '' killed (demo)'') now (fl_coord f))) f"
  define f2 where "f2 = fold (kill_worker_record i) (map fst (fl_workers f1)) f1"
  define g where "g = fold (clear_run_lease i) (map fst (fl_leases f2)) f2"
  have kill: "kill_run i name now f = g" by (simp add: kill_run_def Let_def f1_def f2_def g_def)
  have t: "touches i f f1" unfolding f1_def by (rule touches_set_error [OF ok])
  note ok1 = touches_ok [OF t]
  note parts = fleet_ok_parts [OF ok1]
  have k2: "killed_records i (set (map fst (fl_workers f1))) f1 f2" unfolding f2_def by (rule kill_records_fold [OF parts(1)])
  have valid2: "leases_valid f2" using k2 parts(3) leases_valid_cong [of f2 f1] by (simp add: killed_records_def)
  have look2: "get_lease v f2 = get_lease v f1" for v using k2 get_lease_cong [of f2 f1] by (simp add: killed_records_def)
  have c3: "cleared_leases i (set (map fst (fl_leases f2))) f2 g" unfolding g_def by (rule clear_leases_fold [OF valid2])
  have act1: "active f1 = active f" by (simp add: f1_def fun_eq_iff active_def)
  have "v \<in> set (map fst (fl_workers f1))" if "active f1 v u" for v u
    using that map_of_key [of "fl_workers f1" v u] by (simp add: active_def)
  moreover have "active f2 v u \<longleftrightarrow> active f1 v u \<and> \<not> (v \<in> set (map fst (fl_workers f1)) \<and> pw_run_id u = i)" for v u
    using k2 unfolding killed_records_def by blast
  moreover have "active g = active f2" using c3 by (simp add: cleared_leases_def active_def fun_eq_iff)
  ultimately have act: "active g v u \<longleftrightarrow> active f1 v u \<and> pw_run_id u \<noteq> i" for v u by metis
  have "v \<in> set (map fst (fl_leases f2))" if "get_lease v f2 = Some l" for v l
    using that map_of_key [of "fl_leases f2" v] by (auto simp: get_lease_def)
  then have look: "get_lease v g = Some l \<longleftrightarrow> get_lease v f1 = Some l \<and> le_run_id l \<noteq> i" for v l
    using c3 unfolding cleared_leases_def look2 by auto
  have index: "index_ok g"
  proof (rule index_frame [of f2])
    show f2: "index_ok f2" using k2 unfolding killed_records_def by blast
    have "fl_api g = fl_api f2" using c3 by (simp add: cleared_leases_def)
    moreover have "coord_ok (fl_coord f2)" using f2 unfolding index_ok_def by blast
    ultimately show "coord_ok (fl_coord g)" by simp
  qed (use c3 in \<open>simp_all add: cleared_leases_def\<close>)
  have l1: "\<exists>u. active f1 v u \<and> pw_run_id u = le_run_id l" if "get_lease v f1 = Some l" "le_is_alive l" for v l
    using that parts(2) unfolding leases_ok_def by blast
  have l2: "\<exists>l. get_lease v f1 = Some l \<and> le_is_alive l" if "active f1 v u" for v u
    using that parts(2) unfolding leases_ok_def by blast
  have "leases_valid g" using c3 by (simp add: cleared_leases_def)
  moreover have "\<exists>u. active g v u \<and> pw_run_id u = le_run_id l" if "get_lease v g = Some l" "le_is_alive l" for v l
    using l1 [of v l] that by (auto simp: look act)
  moreover have "\<exists>l. get_lease v g = Some l \<and> le_is_alive l" if u: "active g v u" for v u
  proof -
    from u obtain l where l: "get_lease v f1 = Some l" "le_is_alive l" using l2 by (auto simp: act)
    from u have "active f1 v u" "pw_run_id u \<noteq> i" by (simp_all add: act)
    with l1 [OF l] have "le_run_id l \<noteq> i" by (auto simp: active_def)
    with l show ?thesis by (auto simp: look)
  qed
  ultimately have "leases_ok g" unfolding leases_ok_def by blast
  moreover have "idle_kept f g"
    using k2 c3 idle_kept_trans idle_kept_basic(1) [of f] unfolding killed_records_def cleared_leases_def f1_def by blast
  ultimately show "fleet_inv (kill_run i name now f)"
    unfolding kill using idle_kept_inv [OF inv] index by (simp add: fleet_ok_def)
  have "bg f1 f2" "bg f2 g" using k2 c3 by (simp_all add: killed_records_def cleared_leases_def bg_api)
  with touches_bg [OF t] show "bg f (kill_run i name now f)" unfolding kill by (blast intro: bg_trans)
  show "active (kill_run i name now f) v u \<longleftrightarrow> active f v u \<and> pw_run_id u \<noteq> i" unfolding kill act act1 ..
  show "get_lease v (kill_run i name now f) = Some l \<Longrightarrow> le_run_id l \<noteq> i" unfolding kill look by simp
  have "fl_api g = fl_api f2" using c3 by (simp add: cleared_leases_def)
  moreover have "kv_get (run_key i) (co_kv (fl_coord f2)) = kv_get (run_key i) (co_kv (fl_coord f1))"
    using k2 by (simp add: killed_records_def)
  ultimately show "coord_get_run i (fl_coord (kill_run i name now f)) =
      coord_get_run i (snd (set_run_error i (js ''Worker '' @ name @ js '' killed (demo)'') now (fl_coord f)))"
    unfolding kill by (simp add: coord_get_run_def f1_def)
qed

lemma kill_begin_ok:
  assumes "fleet_inv f"
  shows "fleet_inv (snd (kill_begin env name k1 k2 now f))" and "bg f (snd (kill_begin env name k1 k2 now f))"
  using assms kill_run_ok(1,2) [OF assms]
  by (auto simp: kill_begin_def split: docker.split bool.split sum.split option.split)

subsection \<open>Invariants of the system\<close>

lemma api_fields:
  assumes inv: "fleet_inv f" and c: "coord_ok (ai_coord a)" "\<And>r v. stored (ai_coord a) r v = stored (fl_coord f) r v"
  shows "fleet_inv (f\<lparr>fl_api := a\<rparr>)"
proof -
  from inv have ok: "fleet_ok f" by (simp add: fleet_inv_def)
  have "index_ok (f\<lparr>fl_api := a\<rparr>)" by (rule index_frame [OF fleet_ok_parts(1) [OF ok]]) (simp_all add: c)
  moreover have "leases_ok (f\<lparr>fl_api := a\<rparr>)" by (rule leases_frame [OF fleet_ok_parts(2) [OF ok]]) simp_all
  ultimately show ?thesis using inv by (simp add: fleet_inv_def fleet_ok_def flight_ok_def)
qed

lemma scan_inv:
  assumes inv: "fleet_inv f"
  shows "scan_rel env f (monitor_scan env clock f)"
proof -
  from inv have ok: "fleet_ok f" "fl_recovering f = []" by (simp_all add: fleet_inv_def)
  have "distinct (map fst (fl_leases f))" using fleet_ok_parts(3) [OF ok(1)] by (simp add: leases_valid_def)
  then have "\<forall>e\<in>set (fl_leases f). snap f e" using snap_table [OF fleet_ok_parts(3) [OF ok(1)]] by (auto simp: map_of_eq_Some_iff)
  from scan_rel_all [OF ok this] show ?thesis by (simp add: monitor_scan_def check_workers_def)
qed

lemma register_ok:
  assumes "fleet_inv f" "map_of (fl_workers f) wid = None" "plain wid" "plain i" "i \<noteq> []"
  shows "fleet_inv (snd (rest_register_worker wid i h rank now t f)) \<and> bg f (snd (rest_register_worker wid i h rank now t f))"
proof -
  from assms(1) have ok: "fleet_ok f" by (simp add: fleet_inv_def)
  from register_worker_ok [OF ok assms(2-5), of h rank now t] obtain w g where
    g: "wm_register_worker wid i h rank now t f = (Inr w, g)" "fleet_ok g" "bg f g" by blast
  then show ?thesis
    using idle_kept_inv [OF assms(1), of g] idle_kept_register [of f wid i h rank now t] by (simp add: rest_register_worker_def)
qed

lemma deregister_ok:
  assumes "fleet_inv f"
  shows "fleet_inv (snd (rest_deregister_worker wid f)) \<and> bg f (snd (rest_deregister_worker wid f))"
proof -
  from assms(1) have ok: "fleet_ok f" by (simp add: fleet_inv_def)
  from deregister_worker_ok [OF ok, of wid] obtain g where
    g: "wm_deregister_worker wid f = (None, g)" "fleet_ok g" "bg f g" by blast
  then show ?thesis
    using idle_kept_inv [OF assms(1), of g] idle_kept_deregister [of f wid] by (simp add: rest_deregister_worker_def)
qed

lemma heartbeat_inv:
  assumes "fleet_inv f"
  shows "fleet_inv (snd (rest_worker_heartbeat wid n now t f)) \<and> bg f (snd (rest_worker_heartbeat wid n now t f))"
proof -
  from assms(1) have ok: "fleet_ok f" by (simp add: fleet_inv_def)
  have "fleet_inv (snd (update_worker_heartbeat wid n now t f)) \<and> bg f (snd (update_worker_heartbeat wid n now t f))"
  proof (cases "\<exists>w. active f wid w")
    case True
    with heartbeat_ok [OF ok] obtain w g where
      g: "update_worker_heartbeat wid n now t f = (Inr (Some w), g)" "fleet_ok g" "bg f g" by blast
    then show ?thesis using idle_kept_inv [OF assms, of g] idle_kept_heartbeat [of f wid n now t] by simp
  next
    case False
    with heartbeat_unknown [of f wid] assms show ?thesis by simp
  qed
  with assms show ?thesis by (auto simp: rest_worker_heartbeat_def Let_def split: prod.splits sum.splits option.splits)
qed

lemma idle_kept_rehydrate: "idle_kept f (rehydrate ws t f)"
proof (induction ws arbitrary: f)
  case (Cons w ws)
  let ?h = "raise_counter (pw_run_id w) (pw_rank w) (index_worker w f)"
  let ?g = "if pw_status w = ''ACTIVE'' then lease_register (pw_worker_id w) (pw_run_id w) t ?h else ?h"
  have h: "idle_kept f ?h" by (rule idle_kept_trans [OF idle_kept_basic(5,6)])
  have "idle_kept ?h ?g" by simp
  from idle_kept_trans [OF idle_kept_trans [OF h this] Cons.IH] show ?case by (simp add: Let_def)
qed simp

definition system_ok :: "fleet \<times> pending list \<Rightarrow> bool" where
  "system_ok s = (fleet_inv (fst s) \<and> good (fl_coord (fst s)) (committing_ids (snd s)))"

lemma system_bg:
  "system_ok (f, ps) \<Longrightarrow> fleet_inv g \<Longrightarrow> bg f g \<Longrightarrow>
   system_ok (g, ps) \<and> server_step\<^sup>*\<^sup>* (fl_api (fst (f, ps)), snd (f, ps)) (fl_api (fst (g, ps)), snd (g, ps))"
  using bg_ok bg_server by (simp add: system_ok_def)

lemma system_inv: "system_ok (f, ps) \<Longrightarrow> fleet_inv f"
  by (simp add: system_ok_def)

lemma system_step:
  assumes "fleet_step s t" "system_ok s"
  shows "system_ok t \<and> server_step\<^sup>*\<^sup>* (fl_api (fst s), snd s) (fl_api (fst t), snd t)"
  using assms
proof (induction rule: fleet_step.induct)
  case (request f ps a qs)
  then have "good (ai_coord a) (committing_ids qs)" using server_step_good [OF request(1)] by (simp add: system_ok_def)
  with request show ?case using api_fields [of f a] by (auto simp: system_ok_def good_def)
next
  case (restart t f g ps)
  from restart(2) have ok: "fleet_inv f" "fleet_ok f" and good: "good (fl_coord f) (committing_ids ps)"
    by (simp_all add: system_ok_def fleet_inv_def)
  from restart_ok [OF ok(2), of t] restart(1) have g: "fleet_ok g" "fl_api g = fl_api (new_process (fl_coord f))" by auto
  from restart(1) idle_kept_rehydrate have "idle_kept (new_process (fl_coord f)) g"
    by (auto simp: restart_control_plane_def split: sum.splits)
  with g(1) have "fleet_inv g" by (simp add: fleet_inv_def idle_kept_def new_process_def flight_ok_def)
  moreover have step: "server_step (fl_api f, ps) (fl_api g, [])"
    using server_step.restart [of "fl_api f" ps] by (simp add: g(2) new_process_def)
  ultimately show ?case using server_step_good [OF step] good by (simp add: system_ok_def r_into_rtranclp)
next
  case (killed f ps name country flag now)
  let ?g = "kill_finish name country flag now f"
  have "fleet_inv ?g"
    using killed idle_kept_inv [of f ?g] fleet_ok_fields [of f ?g]
    by (simp add: system_ok_def fleet_inv_def kill_finish_def add_activity_def Let_def idle_kept_def flight_ok_def)
  moreover have "fl_api ?g = fl_api f" by (simp add: kill_finish_def add_activity_def Let_def)
  ultimately show ?case using killed by (simp add: system_ok_def)
next
  case (scan f ps env clock)
  note r = scan_inv [OF system_inv [OF scan], of env clock]
  have "fleet_inv (monitor_scan env clock f)"
    using scan_relD(1,3,9) [OF r] system_inv [OF scan] by (simp add: fleet_inv_def)
  then show ?case by (rule system_bg [OF scan _ scan_relD(2) [OF r]])
next
  case (register f wid i ps h rank now t)
  then show ?case using register_ok [OF system_inv] by (intro system_bg) blast+
next
  case (recover i f ps env now t)
  then show ?case using recover_ok [OF system_inv] by (intro system_bg) blast+
next
  case (thread_ends i f ps ok_at)
  then show ?case using thread_ends_ok [OF system_inv] by (intro system_bg) blast+
next
  case (deregister f ps wid)
  then show ?case using deregister_ok [OF system_inv] by (intro system_bg) blast+
next
  case (heartbeat f ps wid n now t)
  then show ?case using heartbeat_inv [OF system_inv] by (intro system_bg) blast+
next
  case (reconcile f ps env t)
  then show ?case using reconcile_ok [OF system_inv] by (intro system_bg) blast+
next
  case (kill f ps env name k1 k2 now)
  then show ?case using kill_begin_ok [OF system_inv] by (intro system_bg) blast+
qed

end
