(* ===== verification/FleetProperties.thy ===== *)
theory FleetProperties
  imports FleetSystem CheckpointProtocol
begin

text \<open>
  Properties of the control plane with its workers: ranks, the detection of failures and the recovery
  that follows, restarts of the worker group and of the control plane itself, and the heartbeat thread.
\<close>

section \<open>Reachable states\<close>

lemma new_process_inv: "fleet_inv (new_process coord_empty)"
proof -
  have "coord_ok (fl_coord (new_process coord_empty))"
    using coord_reachable_ok [OF coord_reachable.init] by (simp add: new_process_def coord_empty_def)
  then have "fleet_ok (new_process coord_empty)"
    by (simp add: fleet_ok_def index_ok_def leases_ok_def leases_valid_def active_def get_lease_def run_worker_ids_def
        new_process_def coord_empty_def kv_get_def given_def)
  then show ?thesis by (simp add: fleet_inv_def new_process_def flight_ok_def)
qed

lemma server_reachable_steps: "server_step\<^sup>*\<^sup>* s t \<Longrightarrow> server_reachable s \<Longrightarrow> server_reachable t"
  by (induction rule: rtranclp_induct) (auto intro: server_reachable.step)

lemma fleet_reachable_ok: "fleet_reachable s \<Longrightarrow> system_ok s \<and> server_reachable (fl_api (fst s), snd s)"
proof (induction rule: fleet_reachable.induct)
  case init
  have api: "fl_api (new_process coord_empty) = api_init" by (simp add: new_process_def api_init_def coord_empty_def)
  show ?case
    using new_process_inv server_reachable_good [OF server_reachable.init] server_reachable.init
    by (simp add: system_ok_def api)
next
  case (step s t)
  then show ?case using system_step server_reachable_steps by blast
qed

lemma reachable_inv: "fleet_reachable (f, ps) \<Longrightarrow> fleet_inv f"
  using fleet_reachable_ok by (fastforce simp: system_ok_def)

lemma reachable_fleet_ok:
  assumes "fleet_reachable (f, ps)"
  shows "fleet_ok f" "fl_recovering f = []" "flight_ok f" "index_ok f" "leases_ok f" "leases_valid f"
  using reachable_inv [OF assms] fleet_ok_parts by (auto simp: fleet_inv_def)

text \<open>The snapshot that a scan takes.\<close>

lemma scan_snaps: "fleet_ok f \<Longrightarrow> \<forall>e\<in>set (fl_leases f). snap f e"
  using snap_table [OF fleet_ok_parts(3)] fleet_ok_parts(3) by (auto simp: leases_valid_def map_of_eq_Some_iff)

lemma scan_entry:
  assumes "fleet_ok f" "active f v w"
  obtains r where "(v, r) \<in> set (fl_leases f)" "get_lease v f = Some (fl_objects f ! r)" "le_is_alive (fl_objects f ! r)"
proof -
  from fleet_ok_parts(2) [OF assms(1)] assms(2) obtain l where "get_lease v f = Some l" "le_is_alive l"
    unfolding leases_ok_def by blast
  then obtain r where "map_of (fl_leases f) v = Some r" "l = fl_objects f ! r" by (auto simp: get_lease_def)
  with that \<open>get_lease v f = Some l\<close> \<open>le_is_alive l\<close> show thesis by (blast dest: map_of_SomeD)
qed

lemma table_lease:
  "fleet_ok f \<Longrightarrow> (v, r) \<in> set (fl_leases f) \<Longrightarrow> get_lease v f = Some (fl_objects f ! r)"
  using fleet_ok_parts(3) [of f] by (auto simp: leases_valid_def get_lease_def map_of_eq_Some_iff)

lemma scan_blame_lease:
  assumes "fleet_ok f" "fl_recovering f = []" "active f v u" "\<not> active (monitor_scan env clock f) v u"
  shows "\<exists>v' u' l m. active f v' u' \<and> pw_run_id u' = pw_run_id u \<and> get_lease v' f = Some l
    \<and> 15 < seconds_since_heartbeat (snd (clock m)) l \<and> (v' = v \<or> re_auto_restart env)"
proof -
  from scan_blame [OF assms(1,2) scan_snaps [OF assms(1)] assms(3)] assms(4) obtain v' r' u' m where
    b: "(v', r') \<in> set (fl_leases f)" "active f v' u'" "pw_run_id u' = pw_run_id u"
      "silent (snd (clock m)) (fl_objects f ! r')" "v' = v \<or> re_auto_restart env"
    unfolding monitor_scan_def check_workers_def by blast
  with table_lease [OF assms(1) b(1)] show ?thesis by (auto simp: silent_def)
qed

text \<open>A scan does not touch a run without active workers.\<close>

lemma checks_other_run:
  "fleet_ok f \<Longrightarrow> fl_recovering f = [] \<Longrightarrow> \<forall>e\<in>set es. snap f e \<Longrightarrow> \<forall>v u. active f v u \<longrightarrow> pw_run_id u \<noteq> i \<Longrightarrow>
   coord_get_run i (fl_coord (server_checks env clock n es f)) = coord_get_run i (fl_coord f)"
proof (induction es arbitrary: f n)
  case (Cons e es)
  obtain v r where e: "e = (v, r)" by (cases e)
  let ?h = "server_check env (fst (clock n)) (snd (clock n)) e f"
  have h: "scan_rel env f ?h" using Cons.prems by (intro scan_rel_check) simp_all
  have "snap f (v, r)" using Cons.prems(3) e by simp
  then have "coord_get_run i (fl_coord (server_check env (fst (clock n)) (snd (clock n)) (v, r) f)) = coord_get_run i (fl_coord f)"
  proof (rule check_lease_cases [OF Cons.prems(1) _ Cons.prems(2), of v r env "fst (clock n)" "snd (clock n)"])
    fix w let ?g = "server_check env (fst (clock n)) (snd (clock n)) (v, r) f"
    assume d: "death env v w f ?g"
    from d have t: "touches (pw_run_id w) f ?g" and w: "active f v w" unfolding death_def by blast+
    from w Cons.prems(4) have "i \<noteq> pw_run_id w" by blast
    then show "coord_get_run i (fl_coord ?g) = coord_get_run i (fl_coord f)" by (rule touches_handled(1) [OF t])
  qed simp
  then have "coord_get_run i (fl_coord ?h) = coord_get_run i (fl_coord f)" by (simp only: e)
  moreover have "\<forall>e\<in>set es. snap ?h e" using scan_relD(5) [OF h] Cons.prems(3) by simp
  moreover have "\<forall>v u. active ?h v u \<longrightarrow> pw_run_id u \<noteq> i" using scan_relD(4) [OF h] Cons.prems(4) by blast
  ultimately show ?case using Cons.IH [OF scan_relD(1,3) [OF h]] by simp
qed simp

section \<open>A sample\<close>

definition sample_fleet :: fleet where
  "sample_fleet = snd (rest_register_worker (js ''w1'') (js ''r1'') (js ''host'') (Some 0) 2 40
     ((new_process coord_empty)\<lparr>fl_api := sample_api\<rparr>))"

definition sample_worker :: py_worker where
  "sample_worker = new_worker (js ''w1'') (js ''r1'') 0 (js ''host'') 2"

definition sample_env :: restart_env where
  "sample_env = \<lparr>re_auto_restart = True, re_shared_path = [], re_shared_text = None,
     re_worker_containers = js ''ckpt-worker-0,ckpt-worker-1'', re_thread_starts = True\<rparr>"

definition supervised_env :: restart_env where
  "supervised_env = sample_env\<lparr>re_shared_path := js ''/shared/run_id'', re_shared_text := Some (js ''r1 '')\<rparr>"

lemma sample_started_reachable: "fleet_reachable ((new_process coord_empty)\<lparr>fl_api := sample_api\<rparr>, [])"
proof -
  let ?f = "new_process coord_empty" and ?a = "snd (rest_create_run (js ''r1'') sample_config 0 api_init)"
  have api: "fl_api ?f = api_init" by (simp add: new_process_def api_init_def coord_empty_def)
  have kv: "stored (ai_coord ?a) r v = stored (fl_coord ?f) r v" for r v
    by (simp add: api coord_after coord_create_run_def Let_def persist_run_def get_put run_key_def worker_key_def js_simps)
  have "fleet_step (?f, []) (?f\<lparr>fl_api := ?a\<rparr>, [])"
  proof (rule fleet_step.request)
    show "server_step (fl_api ?f, []) (?a, [])"
      unfolding api by (rule server_step.create_run) (simp add: api_init_def coord_empty_def kv_get_def)
  qed (rule kv)
  then have "fleet_reachable (?f\<lparr>fl_api := ?a\<rparr>, [])" by (rule fleet_reachable.step [OF fleet_reachable.init])
  moreover have "fleet_step (?f\<lparr>fl_api := ?a\<rparr>, []) (?f\<lparr>fl_api := ?a\<rparr>\<lparr>fl_api := sample_api\<rparr>, [])"
  proof (rule fleet_step.request)
    show "server_step (fl_api (?f\<lparr>fl_api := ?a\<rparr>), []) (sample_api, [])"
      using server_step.start_run [of ?a "[]" "js ''r1''" 1] by (simp add: sample_api_def)
  qed (simp add: sample_api_def rest_start_run_def coord_after)
  ultimately show ?thesis using fleet_reachable.step by fastforce
qed

lemma sample_fresh: "map_of (fl_workers (new_process c)) v = None" "plain (js ''w1'')" "plain (js ''r1'')" "js ''r1'' \<noteq> []"
  by (simp_all add: new_process_def plain_def js_simps)

lemma sample_reachable: "fleet_reachable (sample_fleet, [])"
  unfolding sample_fleet_def
  by (rule fleet_reachable.step [OF sample_started_reachable], rule fleet_step.register) (simp_all add: sample_fresh)

lemma sample_registered:
  shows sample_active: "active sample_fleet (js ''w1'') sample_worker"
    and sample_lease: "\<exists>l. get_lease (js ''w1'') sample_fleet = Some l \<and> le_last_heartbeat l = 40"
    and sample_bg: "bg ((new_process coord_empty)\<lparr>fl_api := sample_api\<rparr>) sample_fleet"
proof -
  let ?f = "(new_process coord_empty)\<lparr>fl_api := sample_api\<rparr>"
  from register_worker_ok [OF reachable_fleet_ok(1) [OF sample_started_reachable], of "js ''w1''" "js ''r1''" "js ''host''" "Some 0" 2 40]
  obtain r g where g: "wm_register_worker (js ''w1'') (js ''r1'') (js ''host'') (Some 0) 2 40 ?f = (Inr (new_worker (js ''w1'') (js ''r1'') r (js ''host'') 2), g)"
    "r = 0" "bg ?f g" "\<exists>l. get_lease (js ''w1'') g = Some l \<and> le_last_heartbeat l = 40"
    "\<forall>u. active g (js ''w1'') u \<longleftrightarrow> u = new_worker (js ''w1'') (js ''r1'') r (js ''host'') 2"
    by (auto simp: sample_fresh given_def)
  then show "active sample_fleet (js ''w1'') sample_worker" "bg ?f sample_fleet"
    "\<exists>l. get_lease (js ''w1'') sample_fleet = Some l \<and> le_last_heartbeat l = 40"
    by (simp_all add: sample_fleet_def rest_register_worker_def sample_worker_def)
qed

lemma sample_worker_run [simp]: "pw_run_id sample_worker = js ''r1''"
  by (simp add: sample_worker_def new_worker_def)

lemma sample_run: "\<exists>r. coord_get_run (js ''r1'') (fl_coord sample_fleet) = Inr (Some r) \<and> pr_state r = RUNNING"
proof -
  let ?f = "(new_process coord_empty)\<lparr>fl_api := sample_api\<rparr>"
  have "run_worker_ids (js ''r1'') ?f = []" by (simp add: run_worker_ids_def new_process_def given_def)
  then have "kv_get (run_key (js ''r1'')) (co_kv (fl_coord sample_fleet)) = kv_get (run_key (js ''r1'')) (co_kv (ai_coord sample_api))"
    by (simp add: sample_fleet_def rest_register_worker_def wm_register_worker_def coord_register_worker_def Let_def get_put
        worker_key_def run_key_def js_simps)
  with sample_api_run show ?thesis by (auto simp: get_run_iff)
qed

section \<open>Ranks\<close>

lemma run_workers_mem:
  "x \<in> set (get_run_workers i f) \<longleftrightarrow> (\<exists>v\<in>set (run_worker_ids i f). map_of (fl_workers f) v = Some x)"
  by (force simp: get_run_workers_def map_filter_def)

lemma run_workers_distinct:
  assumes ok: "index_ok f"
  shows "distinct (map pw_worker_id (get_run_workers i f))"
proof -
  have "map pw_worker_id (List.map_filter (map_of (fl_workers f)) vs) = filter (\<lambda>v. map_of (fl_workers f) v \<noteq> None) vs" for vs
    using index_ok_worker [OF ok] by (induction vs) (auto simp: map_filter_simps worker_ok_def split: option.split)
  moreover have "distinct (run_worker_ids i f)" using ok by (simp add: index_ok_def)
  ultimately show ?thesis by (simp add: get_run_workers_def)
qed

lemma run_workers_active:
  assumes ok: "index_ok f"
  shows "x \<in> set (get_run_workers i f) \<and> pw_status x = ''ACTIVE'' \<longleftrightarrow> active f (pw_worker_id x) x \<and> pw_run_id x = i"
proof
  assume x: "x \<in> set (get_run_workers i f) \<and> pw_status x = ''ACTIVE''"
  then obtain v where v: "v \<in> set (run_worker_ids i f)" "map_of (fl_workers f) v = Some x" by (auto simp: run_workers_mem)
  from index_ok_ids [OF ok v(1)] index_ok_worker [OF ok v(2)] v(2) x show "active f (pw_worker_id x) x \<and> pw_run_id x = i"
    by (auto simp: active_def worker_ok_def)
next
  assume "active f (pw_worker_id x) x \<and> pw_run_id x = i"
  then have x: "map_of (fl_workers f) (pw_worker_id x) = Some x" "pw_status x = ''ACTIVE''" "pw_run_id x = i"
    by (simp_all add: active_def)
  with index_ok_worker [OF ok x(1)] show "x \<in> set (get_run_workers i f) \<and> pw_status x = ''ACTIVE''"
    by (auto simp: run_workers_mem worker_ok_def)
qed

lemma stored_active:
  assumes ok: "index_ok f"
  shows "stored (fl_coord f) i (pw_worker_id x) = Some (WorkerVal x) \<and> pw_run_id x = i \<and> pw_status x = ''ACTIVE''
    \<longleftrightarrow> active f (pw_worker_id x) x \<and> pw_run_id x = i"
proof
  assume x: "stored (fl_coord f) i (pw_worker_id x) = Some (WorkerVal x) \<and> pw_run_id x = i \<and> pw_status x = ''ACTIVE''"
  with stored_plain(5) [OF ok, of i "pw_worker_id x" x] obtain w where
    w: "map_of (fl_workers f) (pw_worker_id x) = Some w" "agree w x" by blast
  from w(2) x have "w = x" by (auto simp: agree_def intro!: py_worker.equality)
  with w x show "active f (pw_worker_id x) x \<and> pw_run_id x = i" by (simp add: active_def)
next
  assume x: "active f (pw_worker_id x) x \<and> pw_run_id x = i"
  then have m: "map_of (fl_workers f) (pw_worker_id x) = Some x" "pw_status x = ''ACTIVE''" by (simp_all add: active_def)
  from index_ok_stored [OF ok m(1)] obtain y where y: "stored (fl_coord f) (pw_run_id x) (pw_worker_id x) = Some (WorkerVal y)" "agree x y" .
  with m(2) have "y = x" by (auto simp: agree_def intro!: py_worker.equality)
  with x y(1) m(2) show "stored (fl_coord f) i (pw_worker_id x) = Some (WorkerVal x) \<and> pw_run_id x = i \<and> pw_status x = ''ACTIVE''"
    by simp
qed

text \<open>
  C12. In every reachable state the active workers of a run have different ranks, however registrations,
  heartbeats, failures, restarts and requests interleave. The index of the worker manager and the
  store agree on which workers of the run are active, and exactly these have a live lease.
\<close>

theorem active_ranks_unique:
  assumes "fleet_reachable (f, ps)" and "i \<noteq> []"
  shows "distinct (map pw_rank (filter (\<lambda>w. pw_status w = ''ACTIVE'') (get_run_workers i f)))
    \<and> (\<exists>ws. coord_list_workers (Some i) (fl_coord f) = Inr ws
         \<and> set (filter (\<lambda>w. pw_status w = ''ACTIVE'') ws) = set (filter (\<lambda>w. pw_status w = ''ACTIVE'') (get_run_workers i f)))
    \<and> {pw_worker_id w |w. w \<in> set (get_run_workers i f) \<and> pw_status w = ''ACTIVE''}
      = {v. \<exists>l. get_lease v f = Some l \<and> le_is_alive l \<and> le_run_id l = i}"
proof -
  note ok = reachable_fleet_ok [OF assms(1)]
  let ?ws = "get_run_workers i f"
  note mem = run_workers_active [OF ok(4)]
  from run_workers_distinct [OF ok(4), of i] have d: "distinct ?ws" by (simp add: distinct_map)
  have same: "x = y" if "active f (pw_worker_id x) x" "active f (pw_worker_id y) y" "pw_run_id x = i" "pw_run_id y = i"
    "pw_rank x = pw_rank y" for x y
    using index_ok_ranks [OF ok(4) that(1,2)] that by (simp add: active_def)
  have "distinct (map pw_rank (filter (\<lambda>w. pw_status w = ''ACTIVE'') ?ws))"
    using d same mem by (auto simp: distinct_map inj_on_def)
  moreover from list_run_workers [OF ok(4) assms(2)] obtain ws where ws: "coord_list_workers (Some i) (fl_coord f) = Inr ws"
    "set ws = {x. pw_run_id x = i \<and> stored (fl_coord f) i (pw_worker_id x) = Some (WorkerVal x)}" by blast
  have "set (filter (\<lambda>w. pw_status w = ''ACTIVE'') ws) = set (filter (\<lambda>w. pw_status w = ''ACTIVE'') ?ws)"
    using mem stored_active [OF ok(4), of i] by (auto simp: ws(2))
  moreover have "{pw_worker_id w |w. w \<in> set ?ws \<and> pw_status w = ''ACTIVE''}
      = {v. \<exists>l. get_lease v f = Some l \<and> le_is_alive l \<and> le_run_id l = i}"
  proof -
    have "pw_worker_id w = v" if "active f v w" for v w
      using that index_ok_worker [OF ok(4), of v w] by (auto simp: active_def worker_ok_def)
    moreover have "\<exists>l. get_lease v f = Some l \<and> le_is_alive l \<and> le_run_id l = pw_run_id w" if "active f v w" for v w
      using that ok(5) unfolding leases_ok_def by (fastforce simp: active_def)
    moreover have "\<exists>w. active f v w \<and> pw_run_id w = le_run_id l" if "get_lease v f = Some l" "le_is_alive l" for v l
      using that ok(5) unfolding leases_ok_def by blast
    ultimately show ?thesis unfolding mem by fast
  qed
  ultimately show ?thesis using ws(1) by blast
qed

theorem active_ranks_unique_witness:
  "fleet_reachable (sample_fleet, []) \<and> sample_worker \<in> set (get_run_workers (js ''r1'') sample_fleet)
   \<and> distinct (map pw_rank (filter (\<lambda>w. pw_status w = ''ACTIVE'') (get_run_workers (js ''r1'') sample_fleet)))"
  using active_ranks_unique [OF sample_reachable, of "js ''r1''"] sample_reachable sample_fresh(4) sample_active
    run_workers_active [OF reachable_fleet_ok(4) [OF sample_reachable], of sample_worker "js ''r1''"]
  by (simp add: sample_worker_def new_worker_def)

section \<open>Failures\<close>

definition at_clock :: "real \<Rightarrow> nat \<Rightarrow> int \<times> real" where
  "at_clock t m = (60, t)"

text \<open>
  C13. When the lease of an active worker is older than the 15 seconds of the dead threshold at every
  clock reading of a monitor scan, the scan retires the worker. If its run was started and has not
  ended, the scan leaves it RECOVERING (FAILED without automatic restarts), with no checkpoint of
  it PENDING or IN_PROGRESS, and with automatic restarts the newest committed checkpoint of the run,
  if it has one, is selected for the recovery.
\<close>

theorem failure_recovers:
  assumes "fleet_reachable (f, ps)" and "active f wid w" and "get_lease wid f = Some l"
    and "\<forall>m. 15 < seconds_since_heartbeat (snd (clock m)) l"
    and "coord_get_run (pw_run_id w) (fl_coord f) = Inr (Some r)" and "pr_state r \<notin> {CREATED, CANCELLED, COMPLETED}"
  shows "\<not> active (monitor_scan env clock f) wid u
    \<and> (\<exists>q. coord_get_run (pw_run_id w) (fl_coord (monitor_scan env clock f)) = Inr (Some q)
         \<and> pr_state q = (if re_auto_restart env then RECOVERING else FAILED))
    \<and> no_unfinished (fl_coord (monitor_scan env clock f)) (pw_run_id w)
    \<and> (re_auto_restart env \<longrightarrow>
         newest_committed (fl_coord (monitor_scan env clock f)) (pw_run_id w)
           (get_recovery_checkpoint (pw_run_id w) (monitor_scan env clock f)))"
proof -
  note ok = reachable_fleet_ok [OF assms(1)]
  from scan_entry [OF ok(1) assms(2)] assms(3) obtain r' where e: "(wid, r') \<in> set (fl_leases f)" "l = fl_objects f ! r'"
    "le_is_alive (fl_objects f ! r')" by (metis option.inject)
  have late: "silent (snd (clock m)) (fl_objects f ! r')" for m using assms(4) by (simp add: silent_def e(2) [symmetric])
  have "\<not> active (monitor_scan env clock f) wid u"
    unfolding monitor_scan_def check_workers_def by (rule scan_retires [OF ok(1,2) scan_snaps [OF ok(1)] e(1,3) late])
  moreover have "failure_handled env (pw_run_id w) (monitor_scan env clock f)"
    unfolding monitor_scan_def check_workers_def
    by (rule scan_handles [OF ok(1,2) scan_snaps [OF ok(1)] e(1,3) late assms(2,5)]) (use assms(6) in \<open>simp add: run_can_fail_def\<close>)
  ultimately show ?thesis
    by (auto simp: failure_handled_def settled_def failed_def get_recovery_checkpoint_def given_def split: if_splits)
qed

theorem failure_recovers_witness:
  "active sample_fleet (js ''w1'') sample_worker
   \<and> \<not> active (monitor_scan sample_env (at_clock 60) sample_fleet) (js ''w1'') sample_worker
   \<and> (\<exists>q. coord_get_run (js ''r1'') (fl_coord (monitor_scan sample_env (at_clock 60) sample_fleet)) = Inr (Some q)
        \<and> pr_state q = RECOVERING)"
proof -
  obtain l where l: "get_lease (js ''w1'') sample_fleet = Some l" "le_last_heartbeat l = 40" using sample_lease by blast
  obtain r where r: "coord_get_run (js ''r1'') (fl_coord sample_fleet) = Inr (Some r)" "pr_state r = RUNNING"
    using sample_run by blast
  have "\<forall>m. 15 < seconds_since_heartbeat (snd (at_clock 60 m)) l" by (simp add: at_clock_def seconds_since_heartbeat_def l(2))
  from failure_recovers [OF sample_reachable sample_active l(1) this, of r sample_env sample_worker] r sample_active show ?thesis
    by (simp add: sample_env_def)
qed

text \<open>
  C14. A monitor scan never retires a worker of a healthy run: when it takes an active worker out, a
  worker of the same run had a lease older than 15 seconds at one of its clock readings. Without
  automatic restarts of the group it is the retired worker itself.
\<close>

theorem no_false_death:
  assumes "fleet_reachable (f, ps)" and "active f v u" and "\<not> active (monitor_scan env clock f) v u"
  shows "\<exists>v' u' l m. active f v' u' \<and> pw_run_id u' = pw_run_id u \<and> get_lease v' f = Some l
    \<and> 15 < seconds_since_heartbeat (snd (clock m)) l \<and> (v' = v \<or> re_auto_restart env)"
  using scan_blame_lease [OF reachable_fleet_ok(1,2) [OF assms(1)] assms(2,3)] .

text \<open>The worker of the sample is retired by a scan at 60 seconds.\<close>

lemma sample_retired: "\<not> active (monitor_scan sample_env (at_clock 60) sample_fleet) (js ''w1'') sample_worker"
proof -
  note ok = reachable_fleet_ok [OF sample_reachable]
  obtain l where l: "get_lease (js ''w1'') sample_fleet = Some l" "le_last_heartbeat l = 40" using sample_lease by blast
  from scan_entry [OF ok(1) sample_active] l(1) obtain r where
    e: "(js ''w1'', r) \<in> set (fl_leases sample_fleet)" "l = fl_objects sample_fleet ! r" "le_is_alive (fl_objects sample_fleet ! r)"
    by (metis option.inject)
  have "silent (snd (at_clock 60 m)) (fl_objects sample_fleet ! r)" for m
    using l(2) by (simp add: silent_def at_clock_def seconds_since_heartbeat_def flip: e(2))
  from scan_retires [OF ok(1,2) scan_snaps [OF ok(1)] e(1,3) this] show ?thesis
    unfolding monitor_scan_def check_workers_def .
qed

theorem no_false_death_witness:
  "\<not> active (monitor_scan sample_env (at_clock 60) sample_fleet) (js ''w1'') sample_worker
   \<and> (\<exists>v' u' l m. active sample_fleet v' u' \<and> pw_run_id u' = js ''r1'' \<and> get_lease v' sample_fleet = Some l
        \<and> 15 < seconds_since_heartbeat (snd (at_clock 60 m)) l)"
  using no_false_death [OF sample_reachable sample_active sample_retired] sample_retired by fastforce

text \<open>
  C17. The system refines the server of the checkpoint protocol: each of its steps (a worker request, a
  monitor scan with all its callbacks, a recovery, the end of a restart thread, the kill endpoint, a
  request of the protocol, a restart of the process) is a sequence of steps that the protocol allows,
  so that every reachable state of the system shows a reachable state of the server.
\<close>

theorem fleet_refines_server:
  assumes "fleet_reachable s" and "fleet_step s t"
  shows "server_step\<^sup>*\<^sup>* (fl_api (fst s), snd s) (fl_api (fst t), snd t) \<and> server_reachable (fl_api (fst t), snd t)"
  using system_step [OF assms(2)] fleet_reachable_ok [OF assms(1)] server_reachable_steps by blast

theorem fleet_refines_server_witness:
  "fleet_step (sample_fleet, []) (monitor_scan sample_env (at_clock 60) sample_fleet, [])
   \<and> server_reachable (fl_api (monitor_scan sample_env (at_clock 60) sample_fleet), [])"
  using fleet_refines_server [OF sample_reachable fleet_step.scan] fleet_step.scan by simp

section \<open>Restarts of the control plane\<close>

text \<open>
  What the control plane does by itself: a scan of the monitor, a round of the reconciliation loop, the end of a
  restart thread.
\<close>

datatype monitor_pass =
    Scan restart_env "nat \<Rightarrow> int \<times> real"
  | Reconcile restart_env real
  | ThreadEnds jsstring "nat \<Rightarrow> bool"

fun run_pass :: "monitor_pass \<Rightarrow> fleet \<Rightarrow> fleet" where
  "run_pass (Scan env clock) f = monitor_scan env clock f"
| "run_pass (Reconcile env clk) f = reconcile_worker_recovery env clk f"
| "run_pass (ThreadEnds run_id ok_at) f = restart_thread_ends run_id ok_at f"

definition active_ids :: "jsstring \<Rightarrow> fleet \<Rightarrow> jsstring set" where
  "active_ids run_id f = {v. \<exists>u. active f v u \<and> pw_run_id u = run_id}"

text \<open>The run is recovering and has fewer active workers than it is configured for.\<close>

definition short_of_workers :: "jsstring \<Rightarrow> fleet \<Rightarrow> bool" where
  "short_of_workers run_id f =
     (case coord_get_run run_id (fl_coord f) of
        Inr (Some run) \<Rightarrow> pr_state run = RECOVERING \<and> int (card (active_ids run_id f)) < pr_num_workers run
      | _ \<Rightarrow> False)"

lemma listed_active:
  assumes ok: "fleet_ok f" and i: "i \<noteq> []" and ws: "coord_list_workers (Some i) (fl_coord f) = Inr ws"
  shows "length (filter (\<lambda>w. pw_status w = ''ACTIVE'') ws) = card (active_ids i f)"
proof -
  note ix = fleet_ok_parts(1) [OF ok]
  from list_run_workers [OF ix i] ws have
    set: "\<And>x. x \<in> set ws \<longleftrightarrow> pw_run_id x = i \<and> stored (fl_coord f) i (pw_worker_id x) = Some (WorkerVal x)"
    and dist: "distinct (map pw_worker_id ws)" by auto
  have "pw_worker_id ` {x \<in> set ws. pw_status x = ''ACTIVE''} = active_ids i f"
  proof (intro equalityI subsetI)
    fix v assume "v \<in> pw_worker_id ` {x \<in> set ws. pw_status x = ''ACTIVE''}"
    then obtain x where x: "x \<in> set ws" "pw_status x = ''ACTIVE''" "v = pw_worker_id x" by blast
    from x(1) set stored_plain(5) [OF ix, of i "pw_worker_id x" x] obtain w where
      w: "map_of (fl_workers f) v = Some w" "agree w x" "pw_run_id x = i" unfolding x(3) by blast
    then show "v \<in> active_ids i f" using x(2) by (auto simp: active_ids_def active_def agree_def)
  next
    fix v assume "v \<in> active_ids i f"
    then obtain u where u: "active f v u" "pw_run_id u = i" by (auto simp: active_ids_def)
    with index_ok_worker [OF ix, of v u] have "stored (fl_coord f) i v = Some (WorkerVal u)" "pw_worker_id u = v"
      by (auto simp: active_def worker_ok_def agree_def)
    with u set show "v \<in> pw_worker_id ` {x \<in> set ws. pw_status x = ''ACTIVE''}"
      by (intro rev_image_eqI [of u]) (auto simp: active_def)
  qed
  moreover have "distinct (map pw_worker_id (filter (\<lambda>w. pw_status w = ''ACTIVE'') ws))" using dist by (rule distinct_map_filter)
  ultimately show ?thesis using distinct_card by fastforce
qed

text \<open>A scan that finds no lease older than the threshold changes nothing.\<close>

lemma check_leases_fresh:
  assumes "\<And>v r m. (v, r) \<in> set xs \<Longrightarrow> le_is_alive (fl_objects f ! r) \<Longrightarrow>
      seconds_since_heartbeat (snd (clock m)) (fl_objects f ! r) \<le> hc_dead_threshold_seconds cfg"
  shows "check_leases cfg callbacks clock n xs f = f"
  using assms
proof (induction xs arbitrary: n)
  case (Cons x xs)
  obtain v r where x: "x = (v, r)" by fastforce
  have "check_lease cfg callbacks (fst (clock n)) (snd (clock n)) x f = f"
    using Cons.prems [of v r n] by (auto simp: x check_lease_def Let_def)
  moreover have "check_leases cfg callbacks clock (Suc n) xs f = f" by (rule Cons.IH) (use Cons.prems in auto)
  ultimately show ?case by simp
qed simp

text \<open>A round of the reconciliation loop retires the workers of a run only when it is recovering and short of workers.\<close>

lemma reconcile_change:
  assumes ok: "fleet_ok f"
  shows "reconcile_worker_recovery env t f = f
    \<or> (\<exists>i g. get_supervised_run_id env = Some i \<and> short_of_workers i f \<and> reconcile_worker_recovery env t f = g
         \<and> touches i f g \<and> records_kept f g)"
proof (cases "get_supervised_run_id env")
  case (Some i)
  then have i: "i \<noteq> []" by (auto simp: get_supervised_run_id_def split: if_splits option.splits)
  show ?thesis
  proof (cases "\<exists>run. coord_get_run i (fl_coord f) = Inr (Some run) \<and> pr_state run = RECOVERING")
    case True
    then obtain run where run: "coord_get_run i (fl_coord f) = Inr (Some run)" "pr_state run = RECOVERING" by blast
    with coord_ok_run [OF fleet_ok_parts(4) [OF ok], of i] have id: "pr_run_id run = i" by (auto simp: get_run_iff)
    from list_run_workers [OF fleet_ok_parts(1) [OF ok] i] obtain ws where
      ws: "coord_list_workers (Some i) (fl_coord f) = Inr ws" by blast
    show ?thesis
    proof (cases "ws \<noteq> [] \<and> int (card (active_ids i f)) < pr_num_workers run")
      case True
      with run id ws listed_active [OF ok i ws] Some
      have "short_of_workers i f" "reconcile_worker_recovery env t f = snd (schedule_restart env i t f)"
        by (simp_all add: short_of_workers_def reconcile_worker_recovery_def)
      with Some schedule_any(1,2) [OF ok i, of env t] show ?thesis by simp
    next
      case False
      with run id ws listed_active [OF ok i ws] Some have "reconcile_worker_recovery env t f = f"
        by (auto simp: reconcile_worker_recovery_def)
      then show ?thesis ..
    qed
  next
    case False
    with Some show ?thesis by (auto simp: reconcile_worker_recovery_def split: sum.split option.split)
  qed
qed (simp add: reconcile_worker_recovery_def)

text \<open>
  What the passes after a restart keep: leases that have not died count from the restart, the runs are unchanged, and a
  worker is only missing when its run was found short of workers.
\<close>

definition after_restart :: "real \<Rightarrow> fleet \<Rightarrow> (jsstring \<Rightarrow> bool) \<Rightarrow> fleet \<Rightarrow> bool" where
  "after_restart t g lost h =
     (fleet_ok h
      \<and> (\<forall>v r. map_of (fl_leases h) v = Some r \<longrightarrow> le_is_alive (fl_objects h ! r) \<longrightarrow> le_last_heartbeat (fl_objects h ! r) = t)
      \<and> (\<forall>i. coord_get_run i (fl_coord h) = coord_get_run i (fl_coord g))
      \<and> (\<forall>v u. active h v u \<longrightarrow> active g v u)
      \<and> (\<forall>v u. active g v u \<longrightarrow> active h v u \<or> lost (pw_run_id u)))"

lemma after_restart_touches:
  assumes h: "after_restart t g lost h" and k: "touches i h k" "records_kept h k" and i: "lost i"
  shows "after_restart t g lost k"
proof -
  have "le_last_heartbeat (fl_objects k ! r) = t"
    if "map_of (fl_leases k) v = Some r" "le_is_alive (fl_objects k ! r)" for v r
  proof -
    from h have valid: "leases_valid h" by (simp add: after_restart_def fleet_ok_def leases_ok_def)
    note old = touches_leases [OF k(1) that(1)]
    from touches_snap(2) [OF k(1) snap_table [OF valid old]] that(2) have "fl_objects k ! r = fl_objects h ! r" by simp
    with h old that(2) show ?thesis by (simp add: after_restart_def)
  qed
  moreover have "active k v u \<or> lost (pw_run_id u)" if "active g v u" for v u
    using h i touches_active(2) [OF k(1), of v u] that unfolding after_restart_def by metis
  ultimately show ?thesis
    using h touches_ok [OF k(1)] records_kept_settled(1) [OF k(2)] touches_active(1) [OF k(1)]
    by (auto simp: after_restart_def)
qed

lemma after_restart_mono:
  "after_restart t g lost h \<Longrightarrow> (\<And>i. lost i \<Longrightarrow> lost' i) \<Longrightarrow> after_restart t g lost' h"
  unfolding after_restart_def by blast

lemma after_restart_short:
  assumes "after_restart t g lost h" "short_of_workers i h" "\<not> lost i"
  shows "short_of_workers i g"
proof -
  from assms(1,3) have "active h v u \<and> pw_run_id u = i \<longleftrightarrow> active g v u \<and> pw_run_id u = i" for v u
    unfolding after_restart_def by blast
  then have ids: "active_ids i h = active_ids i g" by (simp add: active_ids_def)
  from assms(1) have run: "coord_get_run i (fl_coord h) = coord_get_run i (fl_coord g)" by (simp add: after_restart_def)
  show ?thesis using assms(2) unfolding short_of_workers_def ids run .
qed

lemma after_restart_init:
  "fleet_ok g \<Longrightarrow> (\<And>v l. get_lease v g = Some l \<Longrightarrow> le_last_heartbeat l = t) \<Longrightarrow> after_restart t g lost g"
  by (auto simp: after_restart_def get_lease_def)

lemma scan_after_restart:
  assumes h: "after_restart t g lost h" and clock: "\<And>m. snd (clock m) \<le> t + 15"
  shows "monitor_scan env clock h = h"
  unfolding monitor_scan_def check_workers_def
proof (rule check_leases_fresh)
  fix v r m assume r: "(v, r) \<in> set (fl_leases h)" "le_is_alive (fl_objects h ! r)"
  from h have "distinct (map fst (fl_leases h))"
    by (simp add: after_restart_def fleet_ok_def leases_ok_def leases_valid_def)
  with r h have "le_last_heartbeat (fl_objects h ! r) = t" by (simp add: after_restart_def)
  with clock [of m]
  show "seconds_since_heartbeat (snd (clock m)) (fl_objects h ! r) \<le> hc_dead_threshold_seconds server_heartbeat_config"
    by (simp add: seconds_since_heartbeat_def)
qed

definition excused :: "fleet \<Rightarrow> monitor_pass list \<Rightarrow> jsstring \<Rightarrow> bool" where
  "excused g passes i =
     (short_of_workers i g \<and> (\<exists>env clk. Reconcile env clk \<in> set passes \<and> get_supervised_run_id env = Some i))"

lemma run_passes:
  assumes "after_restart t g (excused g before) h"
    and "\<And>env clock m. Scan env clock \<in> set passes \<Longrightarrow> snd (clock m) \<le> t + 15"
  shows "after_restart t g (excused g (before @ passes)) (fold run_pass passes h)"
  using assms
proof (induction passes arbitrary: before h)
  case (Cons p ps)
  have mono: "after_restart t g (excused g (before @ [p])) h"
    by (rule after_restart_mono [OF Cons.prems(1)]) (auto simp: excused_def)
  then have ok: "fleet_ok h" by (simp add: after_restart_def)
  have "after_restart t g (excused g (before @ [p])) (run_pass p h)"
  proof (cases p)
    case (Scan env clock)
    from Cons.prems(2) [of env clock] Scan have "monitor_scan env clock h = h"
      by (intro scan_after_restart [OF mono]) simp
    with mono Scan show ?thesis by simp
  next
    case (Reconcile env clk)
    show ?thesis
    proof (cases "reconcile_worker_recovery env clk h = h")
      case True
      with mono Reconcile show ?thesis by simp
    next
      case False
      with reconcile_change [OF ok, of env clk] obtain i where
        i: "get_supervised_run_id env = Some i" "short_of_workers i h"
          "touches i h (reconcile_worker_recovery env clk h)" "records_kept h (reconcile_worker_recovery env clk h)" by auto
      have "excused g (before @ [p]) i"
        using after_restart_short [OF mono i(2)] i(1) Reconcile by (auto simp: excused_def)
      from after_restart_touches [OF mono i(3,4) this] Reconcile show ?thesis by simp
    qed
  next
    case (ThreadEnds i ok_at)
    have "fleet_ok (restart_thread_ends i ok_at h)"
      by (rule fleet_ok_fields [OF ok]) (simp_all add: restart_thread_ends_def release_flight_def forget_attempt_def Let_def)
    with mono ThreadEnds show ?thesis
      by (simp add: after_restart_def active_def restart_thread_ends_def release_flight_def forget_attempt_def Let_def)
  qed
  then have "after_restart t g (excused g ((before @ [p]) @ ps)) (fold run_pass ps (run_pass p h))"
    by (rule Cons.IH) (use Cons.prems(2) in auto)
  then show ?case by simp
qed simp

text \<open>
  C18. A control plane that restarts rebuilds its index and its leases from the store without an error:
  the same workers are active with the same records, known identifiers stay known, the stored records
  are unchanged and every lease counts from the restart. Then the background loops run, scans of the monitor,
  rounds of the reconciliation loop and ends of restart threads, in any number and order: as long as the
  scans read clocks in the 15 seconds after the restart, no scan changes anything, and a worker is
  retired only with the group of its run by a reconciliation round for that run, when the run was already
  recovering and had fewer active workers than it is configured for.
\<close>

theorem control_plane_restart:
  assumes "fleet_reachable (f, ps)"
  shows "\<exists>g. restart_control_plane t f = Inr g \<and> fleet_reachable (g, [])
    \<and> (\<forall>v u. active g v u \<longleftrightarrow> active f v u)
    \<and> (\<forall>v. map_of (fl_workers g) v = None \<longleftrightarrow> map_of (fl_workers f) v = None)
    \<and> co_kv (fl_coord g) = co_kv (fl_coord f)
    \<and> (\<forall>v l. get_lease v g = Some l \<longrightarrow> le_last_heartbeat l = t)
    \<and> (\<forall>passes. (\<forall>env clock m. Scan env clock \<in> set passes \<longrightarrow> snd (clock m) \<le> t + 15) \<longrightarrow>
         (\<forall>v u. active f v u \<longrightarrow> active (fold run_pass passes g) v u
            \<or> short_of_workers (pw_run_id u) f
              \<and> (\<exists>env clk. Reconcile env clk \<in> set passes \<and> get_supervised_run_id env = Some (pw_run_id u)))
         \<and> (\<forall>env clock. (\<forall>m. snd (clock m) \<le> t + 15) \<longrightarrow>
              monitor_scan env clock (fold run_pass passes g) = fold run_pass passes g))"
proof -
  from restart_ok [OF reachable_fleet_ok(1) [OF assms], of t] obtain g where
    g: "restart_control_plane t f = Inr g" "fleet_ok g" "fl_api g = fl_api (new_process (fl_coord f))"
      "\<And>v u. active g v u \<longleftrightarrow> active f v u" "\<And>v. map_of (fl_workers g) v = None \<longleftrightarrow> map_of (fl_workers f) v = None"
      "\<And>v l. get_lease v g = Some l \<Longrightarrow> le_last_heartbeat l = t" by blast
  have reach: "fleet_reachable (g, [])" by (rule fleet_reachable.step [OF assms fleet_step.restart [OF g(1)]])
  have kv: "co_kv (fl_coord g) = co_kv (fl_coord f)" by (simp add: g(3) new_process_def)
  have "active_ids i g = active_ids i f" "coord_get_run i (fl_coord g) = coord_get_run i (fl_coord f)" for i
    by (simp_all add: active_ids_def g(4) coord_get_run_def kv)
  then have short: "short_of_workers i g = short_of_workers i f" for i unfolding short_of_workers_def by (simp only:)
  have init: "after_restart t g (excused g []) g" using g(2,6) by (rule after_restart_init)
  have after: "after_restart t g (excused g passes) (fold run_pass passes g)"
    if "\<forall>env clock m. Scan env clock \<in> set passes \<longrightarrow> snd (clock m) \<le> t + 15" for passes
    using run_passes [OF init, of passes] that by simp
  have "active (fold run_pass passes g) v u \<or> excused g passes (pw_run_id u)"
    if "\<forall>env clock m. Scan env clock \<in> set passes \<longrightarrow> snd (clock m) \<le> t + 15" "active f v u" for passes v u
    using after [OF that(1)] that(2) unfolding after_restart_def g(4) by blast
  moreover have "monitor_scan env clock (fold run_pass passes g) = fold run_pass passes g"
    if "\<forall>env clock m. Scan env clock \<in> set passes \<longrightarrow> snd (clock m) \<le> t + 15" "\<And>m. snd (clock m) \<le> t + 15"
    for passes env clock
    using scan_after_restart [OF after [OF that(1)]] that(2) by blast
  ultimately show ?thesis using g(1,4,5,6) reach kv unfolding excused_def short by blast
qed

text \<open>The sample run is running: no round retires its worker.\<close>

theorem control_plane_restart_witness:
  "\<exists>g. restart_control_plane 100 sample_fleet = Inr g \<and> active g (js ''w1'') sample_worker
     \<and> active (fold run_pass [Scan sample_env (at_clock 103), Reconcile supervised_env 105, Scan sample_env (at_clock 106),
         ThreadEnds (js ''r1'') (\<lambda>n. n = 1), Scan sample_env (at_clock 115)] g) (js ''w1'') sample_worker"
proof -
  let ?ps = "[Scan sample_env (at_clock 103), Reconcile supervised_env 105, Scan sample_env (at_clock 106),
    ThreadEnds (js ''r1'') (\<lambda>n. n = 1), Scan sample_env (at_clock 115)]"
  have "\<forall>env clock m. Scan env clock \<in> set ?ps \<longrightarrow> snd (clock m) \<le> 100 + 15" by (simp add: at_clock_def)
  moreover have "\<not> short_of_workers (pw_run_id sample_worker) sample_fleet"
    using sample_run by (auto simp: short_of_workers_def)
  ultimately show ?thesis using control_plane_restart [OF sample_reachable, of 100] sample_active by blast
qed

section \<open>Restarts of the worker group\<close>

text \<open>
  At most one restart of a worker group is under way: in every reachable state the restart threads
  that have not ended are one for the run in flight, and none without such a run. While one is
  under way another request changes nothing, and reports success only for the run in flight.
\<close>

theorem single_restart:
  assumes "fleet_reachable (f, ps)"
  shows "fl_threads f = (case fl_in_flight f of None \<Rightarrow> [] | Some j \<Rightarrow> [j])
    \<and> (\<forall>i j env t. fl_in_flight f = Some j \<longrightarrow>
         snd (schedule_restart env i t f) = f \<and> (fst (schedule_restart env i t f) = Inr True \<longrightarrow> i = j))"
  using reachable_fleet_ok(3) [OF assms] by (auto simp: flight_ok_def schedule_restart_def split: if_splits)

definition sample_restarting :: fleet where
  "sample_restarting = snd (recover_run (restart_worker_group sample_env) (js ''r1'') 61 61
     (snd (kill_begin sample_env (js ''ckpt-worker-0'') (Exited True) (Exited True) 60 sample_fleet)))"

lemma sample_restarting_flight: "fl_in_flight sample_restarting = Some (js ''r1'')"
  by code_simp

lemma sample_restarting_reachable: "fleet_reachable (sample_restarting, [])"
  unfolding sample_restarting_def
  by (rule fleet_reachable.step [OF fleet_reachable.step [OF sample_reachable fleet_step.kill] fleet_step.recover]) (rule sample_fresh)

theorem single_restart_witness:
  "fl_threads sample_restarting = [js ''r1''] \<and> snd (schedule_restart sample_env (js ''r2'') 100 sample_restarting) = sample_restarting"
  using single_restart [OF sample_restarting_reachable] by (simp add: sample_restarting_flight)

text \<open>
  A restart that is due and was not attempted before is dropped while the monotonic clock shows less
  than 30 seconds: \<open>_schedule_worker_group_restart\<close> answers that a restart is scheduled, but starts
  no thread, retires no worker and records no attempt. From 30 seconds on the same call starts the
  thread and retires every worker of the run.
\<close>

theorem first_restart_dropped:
  assumes "fleet_reachable (f, ps)" and "i \<noteq> []" and "map_of (ai_restart_attempts (fl_api f)) i = None" and "fl_in_flight f = None"
    and "container_names env \<noteq> []" and "py_strip (re_shared_path env) = [] \<or> get_supervised_run_id env = Some i"
    and "re_thread_starts env"
  shows "if t < 30 then schedule_restart env i t f = (Inr True, f)
    else \<exists>g. schedule_restart env i t f = (Inr True, g) \<and> fl_threads g = [i] \<and> fl_in_flight g = Some i
      \<and> map_of (ai_restart_attempts (fl_api g)) i = Some t \<and> (\<forall>v u. active g v u \<longleftrightarrow> active f v u \<and> pw_run_id u \<noteq> i)"
proof (cases "t < 30")
  case True
  with assms show ?thesis by (auto simp: schedule_restart_def given_def)
next
  case False
  with assms have due: "restart_due env i t f" by (auto simp: restart_due_def may_restart_def given_def)
  have "fl_threads f = []" using reachable_fleet_ok(3) [OF assms(1)] assms(4) by (simp add: flight_ok_def)
  with schedule_due [OF reachable_fleet_ok(1) [OF assms(1)] due assms(2)] assms(7) False show ?thesis
    by (auto simp: no_active_def)
qed

lemma sample_idle:
  "map_of (ai_restart_attempts (fl_api sample_fleet)) (js ''r1'') = None" "fl_in_flight sample_fleet = None"
  "container_names sample_env \<noteq> []" "py_strip (re_shared_path sample_env) = []" "re_thread_starts sample_env"
  by code_simp+

theorem first_restart_dropped_witness:
  "schedule_restart sample_env (js ''r1'') 20 sample_fleet = (Inr True, sample_fleet) \<and> fl_threads sample_fleet = []
   \<and> fl_threads (snd (schedule_restart sample_env (js ''r1'') 30 sample_fleet)) = [js ''r1'']"
proof -
  have "fl_threads sample_fleet = []" by code_simp
  with first_restart_dropped [OF sample_reachable sample_fresh(4) sample_idle(1,2,3) disjI1 [OF sample_idle(4)] sample_idle(5), of 20]
    first_restart_dropped [OF sample_reachable sample_fresh(4) sample_idle(1,2,3) disjI1 [OF sample_idle(4)] sample_idle(5), of 30]
  show ?thesis by auto
qed

definition sample_replaced :: fleet where
  "sample_replaced = snd (rest_register_worker (js ''w2'') (js ''r1'') (js ''host'') (Some 0) 3 41 sample_fleet)"

lemma sample_replaced_status: "map_option pw_status (map_of (fl_workers sample_replaced) (js ''w1'')) = Some ''SUPERSEDED''"
  by code_simp

lemma sample_replaced_due: "restart_due sample_env (js ''r1'') 60 sample_replaced"
  by code_simp

lemma sample_replaced_reachable: "fleet_reachable (sample_replaced, [])"
proof -
  have "map_of (fl_workers sample_fleet) (js ''w2'') = None" by code_simp
  then have "fleet_step (sample_fleet, []) (sample_replaced, [])"
    unfolding sample_replaced_def by (rule fleet_step.register) (simp_all add: plain_def js_simps)
  then show ?thesis by (rule fleet_reachable.step [OF sample_reachable])
qed

text \<open>The group restart writes DEAD over the status of every listed worker in the index.\<close>

lemma retire_workers_status:
  "retire_workers i ws f = (None, g) \<Longrightarrow>
   map_of (fl_workers g) v = (if v \<in> pw_worker_id ` set ws then map_option (pw_status_update (\<lambda>_. ''DEAD'')) (map_of (fl_workers f) v)
     else map_of (fl_workers f) v)"
proof (induction ws arbitrary: f)
  case (Cons w ws)
  let ?m = "if pw_status w = ''ACTIVE'' then mark_suppressed i (pw_worker_id w) ''DEAD'' f else (None, f)"
  obtain e f1 where m: "?m = (e, f1)" by fastforce
  have f1: "fl_workers f1 = fl_workers f"
    using m by (auto simp: mark_suppressed_def split: if_splits prod.splits sum.splits)
  let ?h = "lease_unregister (pw_worker_id w) (set_status (pw_worker_id w) ''DEAD'' f1)"
  from Cons.prems m have "retire_workers i ws ?h = (None, g)" by (simp split: option.splits)
  from Cons.IH [OF this] show ?case
    by (auto simp: set_status_def f1 AList.update_conv' split: option.splits if_splits)
qed simp

lemma schedule_status:
  assumes ok: "fleet_ok f" and due: "restart_due env i t f" and i: "i \<noteq> []" and w: "map_of (fl_workers f) v = Some w" "pw_run_id w = i"
  shows "\<exists>u. map_of (fl_workers (snd (schedule_restart env i t f))) v = Some u \<and> pw_status u = ''DEAD''"
proof -
  define f1 where "f1 = (with_attempts (AList.update i t (ai_restart_attempts (fl_api f))) f)\<lparr>fl_in_flight := Some i\<rparr>"
  have f1: "fl_coord f1 = fl_coord f" "fl_workers f1 = fl_workers f" by (simp_all add: f1_def)
  note parts = fleet_ok_parts [OF ok]
  from list_run_workers [OF parts(1) i] obtain ws where ws: "coord_list_workers (Some i) (fl_coord f) = Inr ws"
    "set ws = {x. pw_run_id x = i \<and> stored (fl_coord f) i (pw_worker_id x) = Some (WorkerVal x)}" by blast
  obtain e g where g: "retire_workers i ws f1 = (e, g)" by fastforce
  from index_ok_stored [OF parts(1) w(1)] obtain x where x: "stored (fl_coord f) (pw_run_id w) v = Some (WorkerVal x)" "agree w x" .
  with index_ok_worker [OF parts(1) w(1)] w(2) have "x \<in> set ws" "pw_worker_id x = v" by (auto simp: ws(2) agree_def worker_ok_def)
  then have v: "v \<in> pw_worker_id ` set ws" by blast
  from schedule_due [OF ok due i] due g have "e = None"
    by (auto simp: schedule_restart_def restart_due_def may_restart_def f1_def [symmetric] f1 ws(1) Let_def split: option.splits if_splits)
  with retire_workers_status [of i ws f1 g v] g v w f1(2) have "map_of (fl_workers g) v = Some (w\<lparr>pw_status := ''DEAD''\<rparr>)" by simp
  with due g \<open>e = None\<close> show ?thesis
    by (auto simp: schedule_restart_def restart_due_def may_restart_def f1_def [symmetric] f1 ws(1) Let_def split: option.splits)
qed

text \<open>
  C24. A worker that was superseded or deregistered is told so by its heartbeats: 409, on which its thread
  never registers again. After a restart of the worker group of its run it is answered 404 like a
  worker that the control plane has forgotten, because the restart writes DEAD over the status of
  every worker of the run in the index, also of those that were already retired.
\<close>

theorem superseded_answer_changes:
  assumes "fleet_reachable (f, ps)" and "map_of (fl_workers f) wid = Some w" and "pw_status w \<in> {''SUPERSEDED'', ''DEREGISTERED''}"
    and "restart_due env (pw_run_id w) t f"
  shows "rest_worker_heartbeat wid n now clk f = (HttpError 409, f)
    \<and> fst (rest_worker_heartbeat wid n now clk (snd (schedule_restart env (pw_run_id w) t f))) = HttpError 404"
proof -
  note ok = reachable_fleet_ok [OF assms(1)]
  from index_ok_worker [OF ok(4) assms(2)] have "pw_run_id w \<noteq> []" by (simp add: worker_ok_def)
  from schedule_status [OF ok(1) assms(4) this assms(2) refl] obtain u where
    u: "map_of (fl_workers (snd (schedule_restart env (pw_run_id w) t f))) wid = Some u" "pw_status u = ''DEAD''" by blast
  with assms(2,3) show ?thesis by (auto simp: rest_worker_heartbeat_def update_worker_heartbeat_def)
qed

theorem superseded_answer_changes_witness:
  "fst (rest_worker_heartbeat (js ''w1'') 7 60 60 sample_replaced) = HttpError 409
   \<and> fst (rest_worker_heartbeat (js ''w1'') 7 60 60 (snd (schedule_restart sample_env (js ''r1'') 60 sample_replaced))) = HttpError 404"
proof -
  obtain w where w: "map_of (fl_workers sample_replaced) (js ''w1'') = Some w" "pw_status w = ''SUPERSEDED''"
    using sample_replaced_status by auto
  have "map_option pw_run_id (map_of (fl_workers sample_replaced) (js ''w1'')) = Some (js ''r1'')" by code_simp
  with w(1) have r: "pw_run_id w = js ''r1''" by simp
  from superseded_answer_changes [OF sample_replaced_reachable w(1), of sample_env 60 7 60 60] w(2) sample_replaced_due show ?thesis
    by (simp add: r)
qed

section \<open>The heartbeat thread\<close>

text \<open>
  C19. A heartbeat that is answered, together with the registration that follows it when it is refused
  with 404, leaves the worker active with a lease that counts from now, unless the worker was
  superseded or deregistered. A worker that is still active keeps its identifier; one that was declared
  dead, or that a new control plane does not know, is registered with its run and its old rank.
\<close>

theorem heartbeat_thread_reregisters:
  assumes "fleet_reachable (f, ps)" and "map_of (fl_workers f) new_id = None" and "plain new_id"
    and "plain (ht_run_id h)" and "ht_run_id h \<noteq> []"
    and "\<forall>w. map_of (fl_workers f) (ht_worker_id h) = Some w \<longrightarrow> pw_status w \<notin> {''SUPERSEDED'', ''DEREGISTERED''}"
  shows "\<exists>h' g w l. send_heartbeat Answered Answered new_id now clk h f = (h', g) \<and> fleet_reachable (g, ps)
    \<and> active g (ht_worker_id h') w \<and> get_lease (ht_worker_id h') g = Some l \<and> le_is_alive l \<and> le_last_heartbeat l = clk
    \<and> (if \<exists>u. active f (ht_worker_id h) u then h' = h
       else h' = h\<lparr>ht_worker_id := new_id\<rparr> \<and> pw_run_id w = ht_run_id h \<and> pw_rank w = ht_rank h)"
proof -
  note ok = reachable_fleet_ok [OF assms(1)]
  have st: "\<not> (case map_of (fl_workers f) (ht_worker_id h) of Some w \<Rightarrow> pw_status w \<in> {''SUPERSEDED'', ''DEREGISTERED''} | None \<Rightarrow> False)"
    using assms(6) by (auto split: option.split)
  show ?thesis
  proof (cases "\<exists>u. active f (ht_worker_id h) u")
    case True
    then obtain u where u: "active f (ht_worker_id h) u" by blast
    from heartbeat_ok [OF ok(1) u, of "ht_step h" now clk] obtain w g where
      g: "update_worker_heartbeat (ht_worker_id h) (ht_step h) now clk f = (Inr (Some w), g)" "active g (ht_worker_id h) w"
        "get_lease (ht_worker_id h) g = map_option (lease_touch (ht_step h) clk) (get_lease (ht_worker_id h) f)" by auto
    from g(1) st have beat: "rest_worker_heartbeat (ht_worker_id h) (ht_step h) now clk f = (Ok (ht_worker_id h), g)"
      by (simp add: rest_worker_heartbeat_def)
    from scan_entry [OF ok(1) u] obtain l where "get_lease (ht_worker_id h) f = Some l" by blast
    with g(3) have "get_lease (ht_worker_id h) g = Some (lease_touch (ht_step h) clk l)" by simp
    moreover have "fleet_reachable (g, ps)"
      using fleet_reachable.step [OF assms(1) fleet_step.heartbeat [of f ps "ht_worker_id h" "ht_step h" now clk]] beat by simp
    ultimately show ?thesis using True g(2) beat by (auto simp: send_heartbeat_def deliver_def lease_touch_def)
  next
    case False
    with heartbeat_unknown [of f "ht_worker_id h"] st
    have beat: "rest_worker_heartbeat (ht_worker_id h) (ht_step h) now clk f = (HttpError 404, f)"
      by (simp add: rest_worker_heartbeat_def)
    from register_worker_ok [OF ok(1) assms(2-5), of "ht_hostname h" "Some (ht_rank h)" now clk] obtain w g l where
      g: "wm_register_worker new_id (ht_run_id h) (ht_hostname h) (Some (ht_rank h)) now clk f = (Inr w, g)"
        "w = new_worker new_id (ht_run_id h) (ht_rank h) (ht_hostname h) now" "fleet_ok g" "active g new_id w"
        "get_lease new_id g = Some l" "le_last_heartbeat l = clk" by (auto simp: given_def)
    from scan_entry [OF g(3,4)] g(5) have "le_is_alive l" by (metis option.inject)
    moreover have "fleet_reachable (g, ps)"
      using fleet_reachable.step [OF assms(1) fleet_step.register [OF assms(2-5), of ps "ht_hostname h" "Some (ht_rank h)" now clk]] g(1) by (simp add: rest_register_worker_def)
    ultimately show ?thesis
      using False beat g by (auto simp: send_heartbeat_def deliver_def rest_register_worker_def new_worker_def)
  qed
qed

definition sample_thread :: heartbeat_thread where
  "sample_thread = \<lparr>ht_worker_id = js ''w0'', ht_run_id = js ''r1'', ht_hostname = js ''host'', ht_rank = 1, ht_step = 30\<rparr>"

theorem heartbeat_thread_reregisters_witness:
  "\<exists>g w. send_heartbeat Answered Answered (js ''w2'') 50 50 sample_thread sample_fleet = (sample_thread\<lparr>ht_worker_id := js ''w2''\<rparr>, g)
     \<and> active g (js ''w2'') w \<and> pw_rank w = 1"
proof -
  have none: "map_of (fl_workers sample_fleet) (js ''w2'') = None" "map_of (fl_workers sample_fleet) (js ''w0'') = None" by code_simp+
  have "plain (js ''w2'')" "plain (ht_run_id sample_thread)" "ht_run_id sample_thread \<noteq> []"
    by (simp_all add: sample_thread_def plain_def js_simps)
  from heartbeat_thread_reregisters [OF sample_reachable none(1) this, of 50 50] none(2) show ?thesis
    by (auto simp: sample_thread_def active_def)
qed

section \<open>The kill endpoint\<close>

lemma demo_runs_supervised:
  "get_supervised_run_id env = Some i \<Longrightarrow>
   demo_runs env c rs = Inr (filter (\<lambda>r. pr_state r \<in> {RUNNING, CHECKPOINTING, COMMITTED, RECOVERING} \<and> pr_run_id r = i) rs)"
  by (induction rs) (auto simp: demo_run_def)

lemma filter_one: "distinct (map f xs) \<Longrightarrow> x \<in> set xs \<Longrightarrow> P x \<Longrightarrow> filter (\<lambda>y. P y \<and> f y = f x) xs = [x]"
  by (induction xs) (auto simp: filter_empty_conv image_iff)

lemma set_run_error_stored:
  assumes "coord_ok c" "coord_get_run i c = Inr (Some r)" "FAILED \<in> set (VALID_TRANSITIONS (pr_state r))"
  shows "coord_get_run i (snd (set_run_error i msg now c)) =
    Inr (Some (r\<lparr>pr_state := FAILED, pr_error_message := Some msg, pr_updated_at := now\<rparr>))"
  using assms(1) keeps_run_simps(2)
proof (cases rule: move_call_cases [of c FAILED "\<lambda>r. r\<lparr>pr_state := FAILED, pr_error_message := Some msg, pr_updated_at := now\<rparr>" i])
  case (moved q m m' c2)
  with assms(2) show ?thesis by (simp add: set_run_error_move get_run_iff get_put)
qed (use assms(2,3) in \<open>auto simp: get_run_iff can_transition_def\<close>)

text \<open>
  C20. The kill endpoint fails the supervised run at once: whatever else is stored, the run is FAILED with the
  message of the demo, none of its workers is active and none of its leases is left, and a monitor scan
  of this state at any later clock leaves the run as it is, so that the dead threshold does not fail it a second time.
\<close>

theorem kill_fails_supervised_run:
  assumes "fleet_reachable (f, ps)" and "get_supervised_run_id env = Some i"
    and "coord_get_run i (fl_coord f) = Inr (Some r)" and "pr_state r \<in> {RUNNING, CHECKPOINTING, COMMITTED, RECOVERING}"
    and "name \<in> {js ''ckpt-worker-0'', js ''ckpt-worker-1''}"
  shows "\<exists>g. kill_begin env name (Exited True) (Exited b) now f = (Ok True, g) \<and> fleet_reachable (g, ps)
    \<and> coord_get_run i (fl_coord g) = Inr (Some (r\<lparr>pr_state := FAILED,
        pr_error_message := Some (js ''Worker '' @ name @ js '' killed (demo)''), pr_updated_at := now\<rparr>))
    \<and> (\<forall>v u. active g v u \<longleftrightarrow> active f v u \<and> pw_run_id u \<noteq> i)
    \<and> (\<forall>v l. get_lease v g = Some l \<longrightarrow> le_run_id l \<noteq> i)
    \<and> (\<forall>env' clock. coord_get_run i (fl_coord (monitor_scan env' clock g)) = coord_get_run i (fl_coord g))"
proof -
  let ?g = "kill_run i name now f"
  note inv = reachable_inv [OF assms(1)] and ok = reachable_fleet_ok [OF assms(1)]
  have c: "coord_ok (fl_coord f)" by (rule fleet_ok_parts(4) [OF ok(1)])
  from coord_ok_run [OF c] assms(3) have id: "pr_run_id r = i" by (fastforce simp: get_run_iff)
  from list_runs_ok [OF c] assms(3) obtain rs where rs: "coord_list_runs (fl_coord f) = Inr rs" "r \<in> set rs"
    "distinct (map pr_run_id rs)" by blast
  have "demo_runs env (fl_coord f) rs = Inr [r]"
    using demo_runs_supervised [OF assms(2)] filter_one [OF rs(3,2), of "\<lambda>r. pr_state r \<in> {RUNNING, CHECKPOINTING, COMMITTED, RECOVERING}"]
      assms(4) by (simp add: id)
  with rs(1) assms(5) have kill: "kill_begin env name (Exited True) (Exited b) now f = (Ok True, ?g)"
    by (auto simp: kill_begin_def id)
  have reach: "fleet_reachable (?g, ps)"
    using fleet_reachable.step [OF assms(1) fleet_step.kill [of f ps env name "Exited True" "Exited b" now]] by (simp add: kill)
  have "FAILED \<in> set (VALID_TRANSITIONS (pr_state r))" using assms(4) by auto
  note run = kill_run_ok(4) [OF inv, of i name now, unfolded set_run_error_stored [OF c assms(3) this]]
  have act: "active ?g v u \<longleftrightarrow> active f v u \<and> pw_run_id u \<noteq> i" for v u by (rule kill_run_ok(3) [OF inv])
  note ok' = reachable_fleet_ok [OF reach]
  have "coord_get_run i (fl_coord (monitor_scan env' clock ?g)) = coord_get_run i (fl_coord ?g)" for env' clock
    unfolding monitor_scan_def check_workers_def
    by (rule checks_other_run [OF ok'(1,2) scan_snaps [OF ok'(1)]]) (simp add: act)
  with kill reach run act kill_run_ok(5) [OF inv, of _ i name now] show ?thesis by blast
qed

theorem kill_fails_supervised_run_witness:
  "\<exists>g q. kill_begin supervised_env (js ''ckpt-worker-1'') (Exited True) (Exited False) 60 sample_fleet = (Ok True, g)
     \<and> coord_get_run (js ''r1'') (fl_coord (monitor_scan supervised_env (at_clock 90) g)) = Inr (Some q)
     \<and> pr_state q = FAILED \<and> \<not> active g (js ''w1'') sample_worker"
proof -
  have s: "get_supervised_run_id supervised_env = Some (js ''r1'')" by code_simp
  obtain r where r: "coord_get_run (js ''r1'') (fl_coord sample_fleet) = Inr (Some r)" "pr_state r = RUNNING"
    using sample_run by blast
  from kill_fails_supervised_run [OF sample_reachable s r(1), of "js ''ckpt-worker-1''" False 60] r(2) show ?thesis
    by (auto simp: sample_worker_def new_worker_def)
qed

end
