(* ===== verification/DataPlane.thy ===== *)
theory DataPlane
  imports CheckpointApi
begin

text \<open>
  The data plane, \<open>rust-dataplane/src\<close>: the shard writer with its multipart pipeline, the reader, the
  manifests, the garbage collector, the backpressure counter, the retry policy and the handlers of
  the gRPC service.

  The client of the object store calls a service that is not part of the repository. Its operations
  are the record \<open>s3\<close>, an argument of every definition here; what the code relies on is
  \<open>s3_laws\<close> of theory \<open>ShardStore\<close>, the documented behaviour of that service: an operation that succeeds has its effect, one
  that fails has at most changed the object it names. SHA-256 and the JSON library are arguments too.
  A loop that may not end, and an index or a subtraction that may panic, give \<open>None\<close>.
\<close>

type_synonym bytes = "8 word list"

section \<open>The object store\<close>

text \<open>
  An answer \<open>None\<close> or \<open>False\<close> is an error. A part is answered with its tag, which may be missing; a
  page of a listing with its keys, whether it is truncated, and the token of the next page.
\<close>

record 's s3 =
  s3_put :: "jsstring \<Rightarrow> bytes \<Rightarrow> 's \<Rightarrow> bool \<times> 's"
  s3_create_multipart :: "jsstring \<Rightarrow> 's \<Rightarrow> jsstring option \<times> 's"
  s3_upload_part :: "jsstring \<Rightarrow> jsstring \<Rightarrow> nat \<Rightarrow> bytes \<Rightarrow> 's \<Rightarrow> jsstring option option \<times> 's"
  s3_complete_multipart :: "jsstring \<Rightarrow> jsstring \<Rightarrow> (nat \<times> jsstring option) list \<Rightarrow> 's \<Rightarrow> bool \<times> 's"
  s3_abort_multipart :: "jsstring \<Rightarrow> jsstring \<Rightarrow> 's \<Rightarrow> bool \<times> 's"
  s3_copy :: "jsstring \<Rightarrow> jsstring \<Rightarrow> 's \<Rightarrow> bool \<times> 's"
  s3_get :: "jsstring \<Rightarrow> 's \<Rightarrow> bytes option \<times> 's"
  s3_delete :: "jsstring \<Rightarrow> 's \<Rightarrow> bool \<times> 's"
  s3_head :: "jsstring \<Rightarrow> 's \<Rightarrow> bool \<times> 's"
  s3_list_page :: "jsstring \<Rightarrow> jsstring option \<Rightarrow> 's \<Rightarrow> (jsstring list \<times> bool \<times> jsstring option) option \<times> 's"

text \<open>Every error of the request counts as a missing object.\<close>

definition object_exists :: "'s s3 \<Rightarrow> jsstring \<Rightarrow> 's \<Rightarrow> bool \<times> 's" where
  "object_exists s3 key s = s3_head s3 key s"

partial_function (option) list_pages ::
  "'s s3 \<Rightarrow> jsstring \<Rightarrow> jsstring option \<Rightarrow> jsstring list \<Rightarrow> 's \<Rightarrow> (jsstring list option \<times> 's) option" where
  "list_pages s3 pre token keys s =
     (case s3_list_page s3 pre token s of
        (None, s1) \<Rightarrow> Some (None, s1)
      | (Some (page, truncated, next), s1) \<Rightarrow>
          if truncated then list_pages s3 pre next (keys @ page) s1 else Some (Some (keys @ page), s1))"

definition list_objects :: "'s s3 \<Rightarrow> jsstring \<Rightarrow> 's \<Rightarrow> (jsstring list option \<times> 's) option" where
  "list_objects s3 pre s = list_pages s3 pre None [] s"

section \<open>The writer\<close>

definition MULTIPART_PART_SIZE :: nat where
  "MULTIPART_PART_SIZE = 5 * 1024 * 1024"

datatype dp_error = S3Error | StreamError jsstring | EmptyShard | JsonError

definition content_addressed_key :: "jsstring \<Rightarrow> jsstring \<Rightarrow> jsstring \<Rightarrow> jsstring \<Rightarrow> jsstring" where
  "content_addressed_key run_id checkpoint_id shard_id sha256 =
     run_id @ js ''/'' @ checkpoint_id @ js ''/sha256-'' @ take 16 sha256 @ js ''-'' @ shard_id @ js ''.bin''"

text \<open>The loop of \<open>take_part\<close>; an index into no chunks panics.\<close>

partial_function (option) take_loop :: "nat \<Rightarrow> bytes list \<Rightarrow> bytes \<Rightarrow> (bytes \<times> bytes list) option" where
  "take_loop part_size chunks part =
     (if length part < part_size
      then (case chunks of
              [] \<Rightarrow> None
            | c # cs \<Rightarrow>
                let n = min (part_size - length part) (length c)
                in take_loop part_size (if drop n c = [] then cs else drop n c # cs) (part @ take n c))
      else Some (part, chunks))"

definition take_part :: "bytes list \<Rightarrow> nat \<Rightarrow> nat \<Rightarrow> (bytes \<times> bytes list \<times> nat) option" where
  "take_part chunks buffered part_size =
     (if buffered < part_size then None
      else (case chunks of
              [c] \<Rightarrow> if length c = part_size then Some (c, [], buffered - part_size)
                     else map_option (\<lambda>(part, cs). (part, cs, buffered - part_size)) (take_loop part_size chunks [])
            | _ \<Rightarrow> map_option (\<lambda>(part, cs). (part, cs, buffered - part_size)) (take_loop part_size chunks [])))"

record upload_state =
  us_chunks :: "bytes list"
  us_buffered :: nat
  us_parts :: "(nat \<times> jsstring option) list"
  us_number :: nat

definition add_part :: "nat \<Rightarrow> jsstring option \<Rightarrow> bytes list \<Rightarrow> nat \<Rightarrow> upload_state \<Rightarrow> upload_state" where
  "add_part n etag chunks buffered u =
     u\<lparr>us_chunks := chunks, us_buffered := buffered, us_parts := us_parts u @ [(n, etag)], us_number := n + 1\<rparr>"

partial_function (option) flush_parts ::
  "'s s3 \<Rightarrow> jsstring \<Rightarrow> jsstring \<Rightarrow> upload_state \<Rightarrow> 's \<Rightarrow> ((dp_error + upload_state) \<times> 's) option" where
  "flush_parts s3 key uid u s =
     (if MULTIPART_PART_SIZE \<le> us_buffered u
      then (case take_part (us_chunks u) (us_buffered u) MULTIPART_PART_SIZE of
              None \<Rightarrow> None
            | Some (part, chunks, buffered) \<Rightarrow>
                (case s3_upload_part s3 key uid (us_number u) part s of
                   (None, s1) \<Rightarrow> Some (Inl S3Error, s1)
                 | (Some etag, s1) \<Rightarrow> flush_parts s3 key uid (add_part (us_number u) etag chunks buffered u) s1))
      else Some (Inr u, s))"

text \<open>What the channel delivers until it is closed: chunks, or a message that ends the upload.\<close>

fun receive_chunks ::
  "'s s3 \<Rightarrow> jsstring \<Rightarrow> jsstring \<Rightarrow> (jsstring + bytes) list \<Rightarrow> upload_state \<Rightarrow> 's \<Rightarrow> ((dp_error + upload_state) \<times> 's) option" where
  "receive_chunks s3 key uid [] u s = Some (Inr u, s)"
| "receive_chunks s3 key uid (Inl message # items) u s = Some (Inl (StreamError message), s)"
| "receive_chunks s3 key uid (Inr chunk # items) u s =
     (case flush_parts s3 key uid (u\<lparr>us_buffered := us_buffered u + length chunk, us_chunks := us_chunks u @ [chunk]\<rparr>) s of
        None \<Rightarrow> None
      | Some (Inl e, s1) \<Rightarrow> Some (Inl e, s1)
      | Some (Inr u1, s1) \<Rightarrow> receive_chunks s3 key uid items u1 s1)"

definition final_part ::
  "'s s3 \<Rightarrow> jsstring \<Rightarrow> jsstring \<Rightarrow> upload_state \<Rightarrow> 's \<Rightarrow> ((dp_error + upload_state) \<times> 's) option" where
  "final_part s3 key uid u s =
     (if us_buffered u > 0
      then (case take_part (us_chunks u) (us_buffered u) (us_buffered u) of
              None \<Rightarrow> None
            | Some (part, chunks, buffered) \<Rightarrow>
                (case s3_upload_part s3 key uid (us_number u) part s of
                   (None, s1) \<Rightarrow> Some (Inl S3Error, s1)
                 | (Some etag, s1) \<Rightarrow> Some (Inr (add_part (us_number u) etag chunks buffered u), s1)))
      else Some (Inr u, s))"

definition upload_body ::
  "'s s3 \<Rightarrow> jsstring \<Rightarrow> jsstring \<Rightarrow> (jsstring + bytes) list \<Rightarrow> 's \<Rightarrow> (dp_error option \<times> 's) option" where
  "upload_body s3 key uid items s =
     (case receive_chunks s3 key uid items \<lparr>us_chunks = [], us_buffered = 0, us_parts = [], us_number = 1\<rparr> s of
        None \<Rightarrow> None
      | Some (Inl e, s1) \<Rightarrow> Some (Some e, s1)
      | Some (Inr u, s1) \<Rightarrow>
          (case final_part s3 key uid u s1 of
             None \<Rightarrow> None
           | Some (Inl e, s2) \<Rightarrow> Some (Some e, s2)
           | Some (Inr u2, s2) \<Rightarrow>
               if us_parts u2 = [] then Some (Some EmptyShard, s2)
               else (case s3_complete_multipart s3 key uid (us_parts u2) s2 of
                       (ok, s3') \<Rightarrow> Some (if ok then None else Some S3Error, s3'))))"

record write_out =
  wo_shard_id :: jsstring
  wo_total_bytes :: "64 word"
  wo_sha256 :: jsstring
  wo_storage_key :: jsstring

text \<open>The received bytes, which the checksum thread counts and hashes.\<close>

definition received :: "(jsstring + bytes) list \<Rightarrow> bytes" where
  "received items = concat (List.map_filter (\<lambda>i. case i of Inr c \<Rightarrow> Some c | Inl m \<Rightarrow> None) items)"

definition count_bytes :: "(jsstring + bytes) list \<Rightarrow> 64 word" where
  "count_bytes items = fold (\<lambda>i n. case i of Inr c \<Rightarrow> n + of_nat (length c) | Inl m \<Rightarrow> n) items 0"

definition staging_key :: "jsstring \<Rightarrow> jsstring \<Rightarrow> jsstring \<Rightarrow> jsstring \<Rightarrow> jsstring" where
  "staging_key run_id checkpoint_id shard_id uuid =
     run_id @ js ''/'' @ checkpoint_id @ js ''/.multipart-'' @ shard_id @ js ''-'' @ uuid"

definition checksum_key :: "jsstring \<Rightarrow> jsstring \<Rightarrow> jsstring \<Rightarrow> jsstring" where
  "checksum_key run_id checkpoint_id shard_id = run_id @ js ''/'' @ checkpoint_id @ js ''/'' @ shard_id @ js ''.sha256''"

text \<open>From the staging object to the final one, and the file with the checksum; \<open>enc\<close> gives the bytes of a text.\<close>

definition promote ::
  "'s s3 \<Rightarrow> (jsstring \<Rightarrow> bytes) \<Rightarrow> jsstring \<Rightarrow> jsstring \<Rightarrow> jsstring \<Rightarrow> jsstring \<Rightarrow> 's \<Rightarrow> dp_error option \<times> 's" where
  "promote s3 enc staging final sidecar sha s =
     (case (case object_exists s3 final s of
              (True, s1) \<Rightarrow> (True, s1)
            | (False, s1) \<Rightarrow> s3_copy s3 staging final s1) of
        (False, s2) \<Rightarrow> (Some S3Error, s2)
      | (True, s2) \<Rightarrow>
          (case s3_delete s3 staging s2 of
             (False, s4) \<Rightarrow> (Some S3Error, s4)
           | (True, s4) \<Rightarrow>
               (case s3_put s3 sidecar (enc sha) s4 of (ok, s5) \<Rightarrow> (if ok then None else Some S3Error, s5))))"

definition write_shard_stream ::
  "'s s3 \<Rightarrow> (bytes \<Rightarrow> jsstring) \<Rightarrow> (jsstring \<Rightarrow> bytes) \<Rightarrow> jsstring \<Rightarrow> jsstring \<Rightarrow> jsstring \<Rightarrow> jsstring \<Rightarrow>
   (jsstring + bytes) list \<Rightarrow> 's \<Rightarrow> ((dp_error + write_out) \<times> 's) option" where
  "write_shard_stream s3 sha256 enc uuid run_id checkpoint_id shard_id items s =
     (let staging = staging_key run_id checkpoint_id shard_id uuid
      in case s3_create_multipart s3 staging s of
           (None, s1) \<Rightarrow> Some (Inl S3Error, s1)
         | (Some uid, s1) \<Rightarrow>
             (case upload_body s3 staging uid items s1 of
                None \<Rightarrow> None
              | Some (Some e, s2) \<Rightarrow> Some (Inl e, snd (s3_abort_multipart s3 staging uid s2))
              | Some (None, s2) \<Rightarrow>
                  let sha = sha256 (received items);
                      key = content_addressed_key run_id checkpoint_id shard_id sha
                  in (case promote s3 enc staging key (checksum_key run_id checkpoint_id shard_id) sha s2 of
                        (Some e, s4) \<Rightarrow> Some (Inl e, s4)
                      | (None, s4) \<Rightarrow>
                          Some (Inr \<lparr>wo_shard_id = shard_id, wo_total_bytes = count_bytes items, wo_sha256 = sha,
                                     wo_storage_key = key\<rparr>, s4))))"

section \<open>The reader\<close>

text \<open>\<open>slice::chunks\<close>, with a positive size.\<close>

fun rust_chunks :: "nat \<Rightarrow> 'a list \<Rightarrow> 'a list list" where
  "rust_chunks n [] = []"
| "rust_chunks n (x # xs) = (x # take (n - 1) xs) # rust_chunks n (drop (n - 1) xs)"

definition read_shard :: "'s s3 \<Rightarrow> jsstring \<Rightarrow> nat \<Rightarrow> 's \<Rightarrow> bytes list option \<times> 's" where
  "read_shard s3 key n s = (case s3_get s3 key s of (data, s1) \<Rightarrow> (map_option (rust_chunks n) data, s1))"

definition stream_shard :: "'s s3 \<Rightarrow> jsstring \<Rightarrow> nat \<Rightarrow> nat \<Rightarrow> 's \<Rightarrow> bytes list option \<times> 's" where
  "stream_shard s3 dataset_id shard_index n s =
     (case s3_get s3 (js ''datasets/'' @ dataset_id @ js ''/shard-'' @ nat_str shard_index @ js ''.bin'') s of
        (data, s1) \<Rightarrow> (map_option (rust_chunks n) data, s1))"

section \<open>Manifests\<close>

record manifest_shard =
  ms_shard_id :: jsstring
  ms_rank :: "32 word"
  ms_size_bytes :: "64 word"
  ms_sha256 :: jsstring
  ms_storage_key :: jsstring

record dp_manifest =
  mf_checkpoint_id :: jsstring
  mf_run_id :: jsstring
  mf_step :: "64 word"
  mf_created_at :: jsstring
  mf_num_shards :: "32 word"
  mf_total_bytes :: "64 word"
  mf_shards :: "manifest_shard list"
  mf_metadata :: "(jsstring \<times> jsstring) list"

definition manifest_key :: "jsstring \<Rightarrow> jsstring \<Rightarrow> jsstring" where
  "manifest_key run_id checkpoint_id = run_id @ js ''/'' @ checkpoint_id @ js ''/_manifest.json''"

definition write_manifest :: "'s s3 \<Rightarrow> (dp_manifest \<Rightarrow> bytes option) \<Rightarrow> dp_manifest \<Rightarrow> 's \<Rightarrow> (dp_error + jsstring) \<times> 's" where
  "write_manifest s3 to_json m s =
     (let key = manifest_key (mf_run_id m) (mf_checkpoint_id m)
      in case object_exists s3 key s of
           (True, s1) \<Rightarrow> (Inr key, s1)
         | (False, s1) \<Rightarrow>
             (case to_json m of
                None \<Rightarrow> (Inl JsonError, s1)
              | Some json \<Rightarrow> (case s3_put s3 key json s1 of (ok, s2) \<Rightarrow> (if ok then Inr key else Inl S3Error, s2))))"

definition read_manifest ::
  "'s s3 \<Rightarrow> (bytes \<Rightarrow> dp_manifest option) \<Rightarrow> jsstring \<Rightarrow> jsstring \<Rightarrow> 's \<Rightarrow> (dp_error + dp_manifest option) \<times> 's" where
  "read_manifest s3 from_json run_id checkpoint_id s =
     (let key = manifest_key run_id checkpoint_id
      in case object_exists s3 key s of
           (False, s1) \<Rightarrow> (Inr None, s1)
         | (True, s1) \<Rightarrow>
             (case s3_get s3 key s1 of
                (None, s2) \<Rightarrow> (Inl S3Error, s2)
              | (Some data, s2) \<Rightarrow>
                  (case from_json data of None \<Rightarrow> (Inl JsonError, s2) | Some m \<Rightarrow> (Inr (Some m), s2))))"

definition manifest_exists :: "'s s3 \<Rightarrow> jsstring \<Rightarrow> jsstring \<Rightarrow> 's \<Rightarrow> bool \<times> 's" where
  "manifest_exists s3 run_id checkpoint_id s = object_exists s3 (manifest_key run_id checkpoint_id) s"

section \<open>The garbage collector\<close>

text \<open>The keys that \<open>keep\<close> selects are skipped, the others are deleted and counted.\<close>

fun delete_keys :: "'s s3 \<Rightarrow> (jsstring \<Rightarrow> bool) \<Rightarrow> jsstring list \<Rightarrow> 32 word \<Rightarrow> 's \<Rightarrow> (dp_error + 32 word) \<times> 's" where
  "delete_keys s3 keep [] n s = (Inr n, s)"
| "delete_keys s3 keep (key # keys) n s =
     (if keep key then delete_keys s3 keep keys n s
      else (case s3_delete s3 key s of
              (False, s1) \<Rightarrow> (Inl S3Error, s1)
            | (True, s1) \<Rightarrow> delete_keys s3 keep keys (n + 1) s1))"

definition is_manifest_key :: "jsstring \<Rightarrow> bool" where
  "is_manifest_key key = endsWith key (js ''_manifest.json'')"

definition delete_checkpoint_shards ::
  "'s s3 \<Rightarrow> jsstring \<Rightarrow> jsstring \<Rightarrow> 's \<Rightarrow> ((dp_error + 32 word) \<times> 's) option" where
  "delete_checkpoint_shards s3 run_id checkpoint_id s =
     (case list_objects s3 (run_id @ js ''/'' @ checkpoint_id @ js ''/'') s of
        None \<Rightarrow> None
      | Some (None, s1) \<Rightarrow> Some (Inl S3Error, s1)
      | Some (Some objects, s1) \<Rightarrow> Some (delete_keys s3 is_manifest_key objects 0 s1))"

definition add_to_group :: "jsstring \<Rightarrow> (jsstring \<times> jsstring list) list \<Rightarrow> (jsstring \<times> jsstring list) list" where
  "add_to_group key groups =
     (let parts = split_on (Ch (CHR ''/'')) key
      in if 3 \<le> length parts
         then AList.update (parts ! 1) (given (map_of groups (parts ! 1)) [] @ [key]) groups else groups)"

fun delete_orphans ::
  "'s s3 \<Rightarrow> jsstring \<Rightarrow> (jsstring \<times> jsstring list) list \<Rightarrow> 32 word \<Rightarrow> 's \<Rightarrow> (dp_error + 32 word) \<times> 's" where
  "delete_orphans s3 run_id [] n s = (Inr n, s)"
| "delete_orphans s3 run_id ((checkpoint_id, keys) # groups) n s =
     (if manifest_key run_id checkpoint_id \<in> set keys then delete_orphans s3 run_id groups n s
      else (case delete_keys s3 (\<lambda>_. False) keys n s of
              (Inl e, s1) \<Rightarrow> (Inl e, s1)
            | (Inr n1, s1) \<Rightarrow> delete_orphans s3 run_id groups n1 s1))"

text \<open>The hash map is iterated in any order; \<open>arrange\<close> is that order.\<close>

definition collect_orphans ::
  "'s s3 \<Rightarrow> ((jsstring \<times> jsstring list) list \<Rightarrow> (jsstring \<times> jsstring list) list) \<Rightarrow> jsstring \<Rightarrow> 's \<Rightarrow>
   ((dp_error + 32 word) \<times> 's) option" where
  "collect_orphans s3 arrange run_id s =
     (case list_objects s3 (run_id @ js ''/'') s of
        None \<Rightarrow> None
      | Some (None, s1) \<Rightarrow> Some (Inl S3Error, s1)
      | Some (Some objects, s1) \<Rightarrow> Some (delete_orphans s3 run_id (arrange (fold add_to_group objects [])) 0 s1))"

section \<open>The service\<close>

datatype grpc_status = ResourceExhausted | InvalidArgument | InternalError | NotFound

text \<open>The backpressure counter, the health flag and the store.\<close>

record 's dp_service =
  sv_depth :: nat
  sv_healthy :: bool
  sv_store :: 's

text \<open>Accepting a write request, and its end on every path that returns.\<close>

definition accept_write :: "nat \<Rightarrow> 's dp_service \<Rightarrow> 's dp_service option" where
  "accept_write max_depth v = (if max_depth \<le> sv_depth v then None else Some (v\<lparr>sv_depth := sv_depth v + 1\<rparr>))"

definition finish_write :: "'s dp_service \<Rightarrow> 's dp_service" where
  "finish_write v = v\<lparr>sv_depth := sv_depth v - 1\<rparr>"

text \<open>The identifier of the run comes before the first slash of the identifier of the checkpoint.\<close>

definition split_composite :: "jsstring \<Rightarrow> jsstring \<times> jsstring" where
  "split_composite c =
     (if Ch (CHR ''/'') \<in> set c
      then (takeWhile (\<lambda>x. x \<noteq> Ch (CHR ''/'')) c, tl (dropWhile (\<lambda>x. x \<noteq> Ch (CHR ''/'')) c))
      else (c, c))"

text \<open>What the handler sends to the writer: the chunks, until the stream ends, fails or changes its shard.\<close>

fun forward_chunks :: "jsstring \<Rightarrow> jsstring \<Rightarrow> (jsstring + shard_chunk) list \<Rightarrow> (jsstring + bytes) list" where
  "forward_chunks shard_id checkpoint_id [] = []"
| "forward_chunks shard_id checkpoint_id (Inl err # items) = [Inl (js ''Stream error: '' @ err)]"
| "forward_chunks shard_id checkpoint_id (Inr c # items) =
     (if ch_shard_id c \<noteq> shard_id \<or> ch_checkpoint_id c \<noteq> checkpoint_id
      then [Inl (js ''Shard metadata changed within the stream'')]
      else Inr (ch_data c) # forward_chunks shard_id checkpoint_id items)"

definition grpc_write_shard ::
  "nat \<Rightarrow> 's s3 \<Rightarrow> (bytes \<Rightarrow> jsstring) \<Rightarrow> (jsstring \<Rightarrow> bytes) \<Rightarrow> jsstring \<Rightarrow> (jsstring + shard_chunk) list \<Rightarrow>
   's dp_service \<Rightarrow> ((grpc_status + write_result) \<times> 's dp_service) option" where
  "grpc_write_shard max_depth s3 sha256 enc uuid stream v =
     (case accept_write max_depth v of
        None \<Rightarrow> Some (Inl ResourceExhausted, v)
      | Some v1 \<Rightarrow>
          (case stream of
             [] \<Rightarrow> Some (Inl InvalidArgument, finish_write v1)
           | Inl err # rest \<Rightarrow> Some (Inl InternalError, finish_write v1)
           | Inr first # rest \<Rightarrow>
               (case split_composite (ch_checkpoint_id first) of (run_id, checkpoint_id) \<Rightarrow>
                  (case write_shard_stream s3 sha256 enc uuid run_id checkpoint_id (ch_shard_id first)
                          (Inr (ch_data first) # forward_chunks (ch_shard_id first) (ch_checkpoint_id first) rest) (sv_store v1) of
                     None \<Rightarrow> None
                   | Some (Inl e, s) \<Rightarrow> Some (Inl InternalError, finish_write (v1\<lparr>sv_healthy := False, sv_store := s\<rparr>))
                   | Some (Inr w, s) \<Rightarrow>
                       Some (Inr \<lparr>wr_success = True, wr_shard_id = wo_shard_id w, wr_total_bytes = uint (wo_total_bytes w),
                                  wr_sha256_checksum = wo_sha256 w\<rparr>,
                             finish_write (v1\<lparr>sv_healthy := True, sv_store := s\<rparr>))))))"

definition READ_CHUNK_SIZE :: nat where
  "READ_CHUNK_SIZE = 4 * 1024 * 1024"

definition read_chunks :: "jsstring \<Rightarrow> jsstring \<Rightarrow> bytes list \<Rightarrow> shard_chunk list" where
  "read_chunks shard_id checkpoint_id chunks =
     map (\<lambda>(i, data). \<lparr>ch_shard_id = shard_id, ch_checkpoint_id = checkpoint_id, ch_offset = i * READ_CHUNK_SIZE,
                        ch_data = data, ch_is_last = (i = length chunks - 1)\<rparr>)
       (zip [0..<length chunks] chunks)"

definition grpc_read_shard ::
  "'s s3 \<Rightarrow> (bytes \<Rightarrow> dp_manifest option) \<Rightarrow> jsstring \<Rightarrow> jsstring \<Rightarrow> jsstring \<Rightarrow> 's dp_service \<Rightarrow>
   (grpc_status + shard_chunk list) \<times> 's dp_service" where
  "grpc_read_shard s3 from_json run_id checkpoint_id shard_id v =
     (case read_manifest s3 from_json run_id checkpoint_id (sv_store v) of
        (Inl e, s) \<Rightarrow> (Inl InternalError, v\<lparr>sv_store := s\<rparr>)
      | (Inr None, s) \<Rightarrow> (Inl NotFound, v\<lparr>sv_store := s\<rparr>)
      | (Inr (Some m), s) \<Rightarrow>
          (case find (\<lambda>x. ms_shard_id x = shard_id) (mf_shards m) of
             None \<Rightarrow> (Inl NotFound, v\<lparr>sv_store := s\<rparr>)
           | Some x \<Rightarrow>
               (case read_shard s3 (ms_storage_key x) READ_CHUNK_SIZE s of
                  (None, s1) \<Rightarrow> (Inl InternalError, v\<lparr>sv_store := s1\<rparr>)
                | (Some chunks, s1) \<Rightarrow> (Inr (read_chunks shard_id checkpoint_id chunks), v\<lparr>sv_store := s1\<rparr>))))"

definition new_manifest ::
  "jsstring \<Rightarrow> jsstring \<Rightarrow> jsstring \<Rightarrow> 64 word \<Rightarrow> manifest_shard list \<Rightarrow> (jsstring \<times> jsstring) list \<Rightarrow> dp_manifest" where
  "new_manifest now run_id checkpoint_id stp shards metadata =
     \<lparr>mf_checkpoint_id = checkpoint_id, mf_run_id = run_id, mf_step = stp, mf_created_at = now,
      mf_num_shards = of_nat (length shards), mf_total_bytes = sum_list (map ms_size_bytes shards),
      mf_shards = shards, mf_metadata = metadata\<rparr>"

text \<open>The answer is whether the commit succeeded, and the key of the manifest.\<close>

definition grpc_commit_checkpoint ::
  "'s s3 \<Rightarrow> (dp_manifest \<Rightarrow> bytes option) \<Rightarrow> jsstring \<Rightarrow> jsstring \<Rightarrow> jsstring \<Rightarrow> 64 word \<Rightarrow> manifest_shard list \<Rightarrow>
   (jsstring \<times> jsstring) list \<Rightarrow> 's dp_service \<Rightarrow> (bool \<times> jsstring) \<times> 's dp_service" where
  "grpc_commit_checkpoint s3 to_json now run_id checkpoint_id stp shards metadata v =
     (case write_manifest s3 to_json (new_manifest now run_id checkpoint_id stp shards metadata) (sv_store v) of
        (Inl e, s) \<Rightarrow> ((False, []), v\<lparr>sv_healthy := False, sv_store := s\<rparr>)
      | (Inr key, s) \<Rightarrow> ((True, key), v\<lparr>sv_healthy := True, sv_store := s\<rparr>))"

definition grpc_abort_checkpoint ::
  "'s s3 \<Rightarrow> jsstring \<Rightarrow> jsstring \<Rightarrow> 's dp_service \<Rightarrow> ((grpc_status + 32 word) \<times> 's dp_service) option" where
  "grpc_abort_checkpoint s3 run_id checkpoint_id v =
     (case delete_checkpoint_shards s3 run_id checkpoint_id (sv_store v) of
        None \<Rightarrow> None
      | Some (Inl e, s) \<Rightarrow> Some (Inl InternalError, v\<lparr>sv_store := s\<rparr>)
      | Some (Inr n, s) \<Rightarrow> Some (Inr n, v\<lparr>sv_store := s\<rparr>))"

text \<open>The status of a shard, which does not look at the store: existence, size and checksum.\<close>

definition grpc_get_shard_status :: "jsstring \<Rightarrow> jsstring \<times> bool \<times> 64 word \<times> jsstring" where
  "grpc_get_shard_status shard_id = (shard_id, False, 0, [])"

text \<open>Whether the service reports itself as serving, and the depth of its queue.\<close>

definition grpc_health_check :: "'s dp_service \<Rightarrow> bool \<times> nat" where
  "grpc_health_check v = (sv_healthy v, sv_depth v)"

text \<open>The shards of a commit as the client of the control plane sends them; a number that does not fit raises.\<close>

definition proto_shard :: "shard_info \<Rightarrow> manifest_shard option" where
  "proto_shard x =
     (if 0 \<le> sh_rank x \<and> sh_rank x < 2 ^ 32 \<and> 0 \<le> sh_size_bytes x \<and> sh_size_bytes x < 2 ^ 64
      then Some \<lparr>ms_shard_id = sh_shard_id x, ms_rank = of_int (sh_rank x), ms_size_bytes = of_int (sh_size_bytes x),
                 ms_sha256 = sh_sha256 x, ms_storage_key = sh_storage_key x\<rparr>
      else None)"

section \<open>The retry policy\<close>

record retry_policy =
  rp_max_attempts :: "32 word"
  rp_base_ms :: "64 word"

text \<open>The delay after an attempt, without and with the jitter that is drawn.\<close>

definition capped_delay :: "retry_policy \<Rightarrow> 32 word \<Rightarrow> 64 word" where
  "capped_delay p k = min (rp_base_ms p * 2 ^ unat (k - 1)) 30000"

definition compute_delay :: "retry_policy \<Rightarrow> (64 word \<Rightarrow> 64 word) \<Rightarrow> 32 word \<Rightarrow> 64 word" where
  "compute_delay p jitter k = capped_delay p k + jitter (capped_delay p k div 2)"

text \<open>
  The attempts from the given one on: the answers of the operation, in order, and the delays that are
  waited. \<open>None\<close> is the panic of a policy without attempts, whose last error is missing.
\<close>

function execute_from ::
  "retry_policy \<Rightarrow> (64 word \<Rightarrow> 64 word) \<Rightarrow> nat \<Rightarrow> (nat \<Rightarrow> 'e + 'a) \<Rightarrow> 'e option \<Rightarrow> (('e + 'a) \<times> nat \<times> 64 word list) option" where
  "execute_from p jitter k answer last_err =
     (if k \<le> unat (rp_max_attempts p)
      then (case answer k of
              Inr x \<Rightarrow> Some (Inr x, k, [])
            | Inl e \<Rightarrow>
                map_option (\<lambda>(r, n, ds). (r, n, if k = unat (rp_max_attempts p) then ds
                    else compute_delay p jitter (of_nat k) # ds))
                  (execute_from p jitter (k + 1) answer (Some e)))
      else map_option (\<lambda>e. (Inl e, k - 1, [])) last_err)"
  by pat_completeness auto
termination
  by (relation "measure (\<lambda>(p, j, k, a, l). Suc (unat (rp_max_attempts p)) - k)") auto

definition retry_execute ::
  "retry_policy \<Rightarrow> (64 word \<Rightarrow> 64 word) \<Rightarrow> (nat \<Rightarrow> 'e + 'a) \<Rightarrow> (('e + 'a) \<times> nat \<times> 64 word list) option" where
  "retry_execute p jitter answer = execute_from p jitter 1 answer None"

end
