(* ===== verification/ShardStore.thy ===== *)
theory ShardStore
  imports DataPlane CheckpointProtocol
begin

text \<open>
  Properties of the data plane of theory \<open>DataPlane\<close>, and of its composition with the upload, commit and
  download handlers of the control plane: the pipeline makes the same calls to the store, in the same
  order and with the same answers, as a reference that cuts the whole shard into parts at once, it
  always returns, and what is stored after a successful write and a commit is what is read.
\<close>

section \<open>Cutting a shard into parts\<close>

text \<open>Full parts from the front, and what is left.\<close>

function cut_parts :: "nat \<Rightarrow> 'a list \<Rightarrow> 'a list list \<times> 'a list" where
  "cut_parts n xs =
     (if 0 < n \<and> n \<le> length xs then (case cut_parts n (drop n xs) of (ps, r) \<Rightarrow> (take n xs # ps, r)) else ([], xs))"
  by pat_completeness auto
termination
  by (relation "measure (\<lambda>(n, xs). length xs)") auto

declare cut_parts.simps [simp del] chunk_iterator.simps [simp del]

lemma cut_parts_short: "length xs < n \<Longrightarrow> cut_parts n xs = ([], xs)"
  by (simp add: cut_parts.simps [of n xs])

lemma cut_parts_long:
  "0 < n \<Longrightarrow> n \<le> length xs \<Longrightarrow>
   cut_parts n xs = (take n xs # fst (cut_parts n (drop n xs)), snd (cut_parts n (drop n xs)))"
  by (simp add: cut_parts.simps [of n xs] split: prod.split)

lemma cut_parts_append:
  "0 < n \<Longrightarrow> cut_parts n (xs @ ys) =
     (fst (cut_parts n xs) @ fst (cut_parts n (snd (cut_parts n xs) @ ys)), snd (cut_parts n (snd (cut_parts n xs) @ ys)))"
proof (induction n xs rule: cut_parts.induct)
  case (1 n xs)
  show ?case
  proof (cases "n \<le> length xs")
    case True
    with "1.prems" have l: "n \<le> length (xs @ ys)" by simp
    from True have "drop n (xs @ ys) = drop n xs @ ys" "take n (xs @ ys) = take n xs" by simp_all
    with "1.IH" "1.prems" True cut_parts_long [OF "1.prems" l] cut_parts_long [OF "1.prems" True] show ?thesis by simp
  qed (simp add: cut_parts_short)
qed

lemma cut_parts_rest: "0 < n \<Longrightarrow> length (snd (cut_parts n xs)) < n"
proof (induction n xs rule: cut_parts.induct)
  case (1 n xs)
  then show ?case using cut_parts_long [OF "1.prems", of xs] by (cases "n \<le> length xs") (simp_all add: cut_parts_short)
qed

text \<open>The slices of the standard library are the full parts and a shorter last one.\<close>

lemma rust_chunks_step: "0 < n \<Longrightarrow> xs \<noteq> [] \<Longrightarrow> rust_chunks n xs = take n xs # rust_chunks n (drop n xs)"
  by (cases xs; cases n) simp_all

lemma rust_chunks_cut:
  "0 < n \<Longrightarrow> rust_chunks n xs = fst (cut_parts n xs) @ (if snd (cut_parts n xs) = [] then [] else [snd (cut_parts n xs)])"
proof (induction n xs rule: cut_parts.induct)
  case (1 n xs)
  show ?case
  proof (cases "n \<le> length xs")
    case True
    with "1.prems" have "xs \<noteq> []" by auto
    with rust_chunks_step [OF "1.prems" this] cut_parts_long [OF "1.prems" True] "1.IH" "1.prems" True show ?thesis by simp
  next
    case False
    with rust_chunks_step [OF "1.prems", of xs] show ?thesis by (cases "xs = []") (simp_all add: cut_parts_short)
  qed
qed

lemma concat_rust_chunks [simp]: "0 < n \<Longrightarrow> concat (rust_chunks n xs) = xs"
proof (induction n xs rule: cut_parts.induct)
  case (1 n xs)
  show ?case
  proof (cases "xs = []")
    case False
    have "concat (rust_chunks n (drop n xs)) = drop n xs"
      using "1.IH" "1.prems" rust_chunks_step [OF "1.prems", of "drop n xs"] by (cases "n \<le> length xs") simp_all
    with rust_chunks_step [OF "1.prems" False] show ?thesis by simp
  qed simp
qed

lemma rust_chunks_sizes: "0 < n \<Longrightarrow> x \<in> set (rust_chunks n xs) \<Longrightarrow> 0 < length x \<and> length x \<le> n"
proof (induction n xs rule: rust_chunks.induct)
  case (2 n x' xs)
  then show ?case by (cases n) auto
qed simp

section \<open>The pipeline\<close>

lemma take_loop_ok:
  "length part \<le> n \<Longrightarrow> n \<le> length part + length (concat cs) \<Longrightarrow>
   \<exists>cs'. take_loop n cs part = Some (part @ take (n - length part) (concat cs), cs') \<and> concat cs' = drop (n - length part) (concat cs)"
proof (induction cs arbitrary: part)
  case Nil
  then have "take_loop n [] part = Some (part, [])" by (subst take_loop.simps) simp
  with Nil show ?case by simp
next
  case (Cons c cs)
  show ?case
  proof (cases "length part < n")
    case False
    then have "take_loop n (c # cs) part = Some (part, c # cs)" by (subst take_loop.simps) simp
    with False Cons.prems(1) show ?thesis by simp
  next
    case True
    note step = take_loop.simps [of n "c # cs" part]
    show ?thesis
    proof (cases "length c \<le> n - length part")
      case c: True
      with True have "take_loop n (c # cs) part = take_loop n cs (part @ c)" by (simp add: step Let_def min_def)
      moreover have "length (part @ c) \<le> n" "n \<le> length (part @ c) + length (concat cs)" using c Cons.prems True by auto
      ultimately show ?thesis using Cons.IH [of "part @ c"] c by (simp add: add.commute diff_diff_add)
    next
      case c: False
      let ?k = "n - length part"
      from c True have "take_loop n (c # cs) part = take_loop n (drop ?k c # cs) (part @ take ?k c)"
        by (simp add: step Let_def min_def)
      also have "\<dots> = Some (part @ take ?k c, drop ?k c # cs)"
        using c True by (simp add: take_loop.simps [of n "drop ?k c # cs" "part @ take ?k c"] min_def)
      finally show ?thesis using c by simp
    qed
  qed
qed

lemma take_part_ok:
  assumes "n \<le> length (concat cs)"
  shows "\<exists>cs'. take_part cs (length (concat cs)) n = Some (take n (concat cs), cs', length (concat cs) - n) \<and> concat cs' = drop n (concat cs)"
proof -
  from take_loop_ok [of "[]" n cs] assms obtain cs' where
    l: "take_loop n cs [] = Some (take n (concat cs), cs')" "concat cs' = drop n (concat cs)" by auto
  show ?thesis
  proof (cases "\<exists>c. cs = [c] \<and> length c = n")
    case True
    then show ?thesis by (auto simp: take_part_def)
  next
    case False
    with assms l show ?thesis by (auto simp: take_part_def split: list.split)
  qed
qed

text \<open>The reference: the parts one after the other.\<close>

fun upload_parts ::
  "'s s3 \<Rightarrow> jsstring \<Rightarrow> jsstring \<Rightarrow> nat \<Rightarrow> bytes list \<Rightarrow> 's \<Rightarrow> (nat \<times> jsstring option) list option \<times> 's" where
  "upload_parts s3 key uid n [] s = (Some [], s)"
| "upload_parts s3 key uid n (p # ps) s =
     (case s3_upload_part s3 key uid n p s of
        (None, s1) \<Rightarrow> (None, s1)
      | (Some etag, s1) \<Rightarrow>
          (case upload_parts s3 key uid (n + 1) ps s1 of (r, s2) \<Rightarrow> (map_option ((#) (n, etag)) r, s2)))"

definition upload_whole :: "'s s3 \<Rightarrow> jsstring \<Rightarrow> jsstring \<Rightarrow> bytes \<Rightarrow> 's \<Rightarrow> dp_error option \<times> 's" where
  "upload_whole s3 key uid data s =
     (case upload_parts s3 key uid 1 (rust_chunks MULTIPART_PART_SIZE data) s of
        (None, s1) \<Rightarrow> (Some S3Error, s1)
      | (Some parts, s1) \<Rightarrow>
          if parts = [] then (Some EmptyShard, s1)
          else (case s3_complete_multipart s3 key uid parts s1 of (ok, s2) \<Rightarrow> (if ok then None else Some S3Error, s2)))"

lemma upload_parts_length: "upload_parts s3 key uid n ps s = (Some es, s1) \<Longrightarrow> length es = length ps"
  by (induction ps arbitrary: n s es s1) (auto split: prod.splits option.splits)

lemma map_option_prepend: "map_option ((@) []) x = x" "map_option ((@) (a # xs)) x = map_option (\<lambda>ys. a # xs @ ys) x"
  by (cases x; simp)+

lemma upload_parts_append:
  "upload_parts s3 key uid n (ps @ qs) s =
     (case upload_parts s3 key uid n ps s of
        (None, s1) \<Rightarrow> (None, s1)
      | (Some es, s1) \<Rightarrow>
          (case upload_parts s3 key uid (n + length ps) qs s1 of (r, s2) \<Rightarrow> (map_option ((@) es) r, s2)))"
  by (induction ps arbitrary: n s) (auto split: prod.split option.split simp: option.map_comp comp_def map_option_prepend)

lemma part_size_pos [simp]: "0 < MULTIPART_PART_SIZE"
  by (simp add: MULTIPART_PART_SIZE_def)

text \<open>The buffer of the pipeline: its counter is right.\<close>

definition buffer_ok :: "upload_state \<Rightarrow> bool" where
  "buffer_ok u = (us_buffered u = length (concat (us_chunks u)))"

text \<open>The pipeline after the uploads of some parts.\<close>

definition after_parts :: "upload_state \<Rightarrow> bytes list \<Rightarrow> (nat \<times> jsstring option) list option \<times> 's \<Rightarrow> (dp_error + upload_state) \<times> 's" where
  "after_parts u chunks r =
     (case r of
        (None, s1) \<Rightarrow> (Inl S3Error, s1)
      | (Some es, s1) \<Rightarrow>
          (Inr \<lparr>us_chunks = chunks, us_buffered = length (concat chunks), us_parts = us_parts u @ es, us_number = us_number u + length es\<rparr>, s1))"

lemma flush_parts_ok:
  assumes "buffer_ok u"
  shows "\<exists>cs. concat cs = snd (cut_parts MULTIPART_PART_SIZE (concat (us_chunks u)))
    \<and> flush_parts s3 key uid u s =
        Some (after_parts u cs (upload_parts s3 key uid (us_number u) (fst (cut_parts MULTIPART_PART_SIZE (concat (us_chunks u)))) s))"
  using assms
proof (induction "us_buffered u" arbitrary: u s rule: less_induct)
  case less
  let ?n = MULTIPART_PART_SIZE and ?d = "concat (us_chunks u)"
  from less.prems have b: "us_buffered u = length ?d" by (simp add: buffer_ok_def)
  show ?case
  proof (cases "?n \<le> length ?d")
    case False
    then have "flush_parts s3 key uid u s = Some (Inr u, s)" by (subst flush_parts.simps) (simp add: b)
    with False b show ?thesis by (auto simp: cut_parts_short after_parts_def intro!: exI [of _ "us_chunks u"])
  next
    case True
    note cut = cut_parts_long [OF part_size_pos True]
    from take_part_ok [OF True] obtain cs where
      t: "take_part (us_chunks u) (us_buffered u) ?n = Some (take ?n ?d, cs, length ?d - ?n)" "concat cs = drop ?n ?d" by (auto simp: b)
    show ?thesis
    proof (cases "s3_upload_part s3 key uid (us_number u) (take ?n ?d) s")
      case (Pair r s1)
      show ?thesis
      proof (cases r)
        case None
        then have "flush_parts s3 key uid u s = Some (Inl S3Error, s1)"
          using True by (subst flush_parts.simps) (simp add: b t(1) [unfolded b] Pair)
        moreover obtain cs0 :: "bytes list" where "concat cs0 = snd (cut_parts ?n ?d)" by (metis concat.simps append_Nil2)
        ultimately show ?thesis using Pair None by (auto simp: cut after_parts_def)
      next
        case (Some etag)
        let ?u = "add_part (us_number u) etag cs (length ?d - ?n) u"
        have f: "flush_parts s3 key uid u s = flush_parts s3 key uid ?u s1"
          using True by (subst flush_parts.simps) (simp add: b t(1) [unfolded b] Pair Some)
        have u: "us_chunks ?u = cs" "us_number ?u = us_number u + 1" "us_parts ?u = us_parts u @ [(us_number u, etag)]"
          "us_buffered ?u = length ?d - ?n" by (simp_all add: add_part_def)
        have "us_buffered ?u < us_buffered u" "buffer_ok ?u"
          using True part_size_pos by (simp_all add: u b buffer_ok_def t(2) del: part_size_pos)
        from less.hyps [OF this, of s1] obtain cs' where cs': "concat cs' = snd (cut_parts ?n (drop ?n ?d))"
          "flush_parts s3 key uid ?u s1 = Some (after_parts ?u cs' (upload_parts s3 key uid (us_number u + 1) (fst (cut_parts ?n (drop ?n ?d))) s1))"
          unfolding u t(2) by blast
        have "after_parts ?u cs' (upload_parts s3 key uid (us_number u + 1) (fst (cut_parts ?n (drop ?n ?d))) s1) =
          after_parts u cs' (upload_parts s3 key uid (us_number u) (fst (cut_parts ?n ?d)) s)"
          by (auto simp: cut Pair Some after_parts_def u split: prod.split option.split)
        with f cs' show ?thesis by (auto simp: cut)
      qed
    qed
  qed
qed

lemma receive_chunks_ok:
  assumes "buffer_ok u" "length (concat (us_chunks u)) < MULTIPART_PART_SIZE"
  shows "\<exists>cs. concat cs = snd (cut_parts MULTIPART_PART_SIZE (concat (us_chunks u) @ concat ds))
    \<and> receive_chunks s3 key uid (map Inr ds) u s =
        Some (after_parts u cs (upload_parts s3 key uid (us_number u)
          (fst (cut_parts MULTIPART_PART_SIZE (concat (us_chunks u) @ concat ds))) s))"
  using assms
proof (induction ds arbitrary: u s)
  case Nil
  then show ?case by (auto simp: cut_parts_short after_parts_def buffer_ok_def intro!: exI [of _ "us_chunks u"])
next
  case (Cons d ds)
  let ?n = MULTIPART_PART_SIZE and ?d = "concat (us_chunks u) @ d"
  let ?u = "u\<lparr>us_buffered := us_buffered u + length d, us_chunks := us_chunks u @ [d]\<rparr>"
  have "buffer_ok ?u" using Cons.prems(1) by (simp add: buffer_ok_def)
  from flush_parts_ok [OF this, of s3 key uid s] obtain cs where
    cs: "concat cs = snd (cut_parts ?n ?d)"
      "flush_parts s3 key uid ?u s = Some (after_parts ?u cs (upload_parts s3 key uid (us_number u) (fst (cut_parts ?n ?d)) s))" by auto
  let ?rest = "concat cs @ concat ds"
  have all: "cut_parts ?n (concat (us_chunks u) @ d @ concat ds) = (fst (cut_parts ?n ?d) @ fst (cut_parts ?n ?rest), snd (cut_parts ?n ?rest))"
    using cut_parts_append [OF part_size_pos, of ?d "concat ds"] by (simp add: cs(1))
  obtain r s1 where up: "upload_parts s3 key uid (us_number u) (fst (cut_parts ?n ?d)) s = (r, s1)" by fastforce
  show ?case
  proof (cases r)
    case None
    obtain cs0 :: "bytes list" where "concat cs0 = snd (cut_parts ?n ?rest)" by (metis concat.simps append_Nil2)
    with None cs(2) up show ?thesis by (auto simp: all upload_parts_append after_parts_def)
  next
    case (Some es)
    let ?v = "\<lparr>us_chunks = cs, us_buffered = length (concat cs), us_parts = us_parts u @ es, us_number = us_number u + length es\<rparr>"
    have "buffer_ok ?v" "length (concat (us_chunks ?v)) < ?n" using cut_parts_rest [OF part_size_pos] by (simp_all add: buffer_ok_def cs(1))
    from Cons.IH [OF this, of s1] obtain cs' where cs': "concat cs' = snd (cut_parts ?n ?rest)"
      "receive_chunks s3 key uid (map Inr ds) ?v s1 =
         Some (after_parts ?v cs' (upload_parts s3 key uid (us_number u + length es) (fst (cut_parts ?n ?rest)) s1))" by auto
    have rec: "receive_chunks s3 key uid (map Inr (d # ds)) u s = receive_chunks s3 key uid (map Inr ds) ?v s1"
      using cs(2) up Some by (simp add: after_parts_def)
    have "length es = length (fst (cut_parts ?n ?d))" using upload_parts_length [OF up [unfolded Some]] .
    then have "after_parts ?v cs' (upload_parts s3 key uid (us_number u + length es) (fst (cut_parts ?n ?rest)) s1) =
        after_parts u cs' (upload_parts s3 key uid (us_number u) (fst (cut_parts ?n ?d) @ fst (cut_parts ?n ?rest)) s)"
      using up Some by (auto simp: upload_parts_append after_parts_def split: prod.split option.split)
    with rec cs' show ?thesis by (intro exI [of _ cs']) (simp add: all)
  qed
qed

lemma after_parts_cases:
  obtains (failed) s1 where "r = (None, s1)" "after_parts u cs r = (Inl S3Error, s1)"
  | (uploaded) es s1 where "r = (Some es, s1)"
      "after_parts u cs r = (Inr \<lparr>us_chunks = cs, us_buffered = length (concat cs), us_parts = us_parts u @ es, us_number = us_number u + length es\<rparr>, s1)"
  by (cases r; cases "fst r") (auto simp: after_parts_def)

lemma final_part_ok:
  assumes "buffer_ok u"
  shows "\<exists>cs. concat cs = [] \<and> final_part s3 key uid u s =
    Some (after_parts u cs (upload_parts s3 key uid (us_number u) (if concat (us_chunks u) = [] then [] else [concat (us_chunks u)]) s))"
proof (cases "concat (us_chunks u) = []")
  case True
  with assms show ?thesis by (auto simp: final_part_def buffer_ok_def after_parts_def intro!: exI [of _ "us_chunks u"])
next
  case False
  let ?d = "concat (us_chunks u)"
  from take_part_ok [of "length ?d" "us_chunks u"] obtain cs where
    t: "take_part (us_chunks u) (length ?d) (length ?d) = Some (?d, cs, 0)" "concat cs = []" by auto
  from assms have b: "us_buffered u = length ?d" by (simp add: buffer_ok_def)
  from False have "0 < length ?d" by blast
  with t b False show ?thesis
    by (intro exI [of _ cs]) (auto simp: final_part_def after_parts_def add_part_def split: prod.split option.split)
qed

lemma upload_body_ok: "upload_body s3 key uid (map Inr ds) s = Some (upload_whole s3 key uid (concat ds) s)"
proof -
  let ?n = MULTIPART_PART_SIZE and ?u = "\<lparr>us_chunks = [], us_buffered = 0, us_parts = [], us_number = 1\<rparr> :: upload_state"
  let ?full = "fst (cut_parts ?n (concat ds))" and ?rest = "snd (cut_parts ?n (concat ds))"
  have "buffer_ok ?u" "length (concat (us_chunks ?u)) < ?n" by (simp_all add: buffer_ok_def)
  from receive_chunks_ok [OF this, of ds s3 key uid s] obtain cs where
    cs: "concat cs = ?rest" "receive_chunks s3 key uid (map Inr ds) ?u s = Some (after_parts ?u cs (upload_parts s3 key uid 1 ?full s))" by auto
  have chunks: "rust_chunks ?n (concat ds) = ?full @ (if ?rest = [] then [] else [?rest])" by (rule rust_chunks_cut) simp
  show ?thesis
  proof (cases rule: after_parts_cases [of "upload_parts s3 key uid 1 ?full s" ?u cs])
    case (failed s1)
    with cs(2) show ?thesis by (simp add: upload_body_def upload_whole_def chunks upload_parts_append)
  next
    case (uploaded es s1)
    let ?v = "\<lparr>us_chunks = cs, us_buffered = length (concat cs), us_parts = es, us_number = 1 + length es\<rparr> :: upload_state"
    have rec: "receive_chunks s3 key uid (map Inr ds) ?u s = Some (Inr ?v, s1)" using cs(2) uploaded(2) by simp
    have "buffer_ok ?v" by (simp add: buffer_ok_def)
    from final_part_ok [OF this, of s3 key uid s1] obtain cs' where
      f: "final_part s3 key uid ?v s1 = Some (after_parts ?v cs' (upload_parts s3 key uid (1 + length es) (if ?rest = [] then [] else [?rest]) s1))"
      unfolding upload_state.select_convs cs(1) by blast
    have "length es = length ?full" by (rule upload_parts_length [OF uploaded(1)])
    then have whole: "upload_parts s3 key uid 1 (rust_chunks ?n (concat ds)) s =
        (case upload_parts s3 key uid (1 + length es) (if ?rest = [] then [] else [?rest]) s1 of (r, s2) \<Rightarrow> (map_option ((@) es) r, s2))"
      by (simp only: chunks upload_parts_append uploaded(1) prod.case option.case)
    show ?thesis
      unfolding upload_body_def upload_whole_def rec whole option.case prod.case sum.case f
      by (cases rule: after_parts_cases [of "upload_parts s3 key uid (1 + length es) (if ?rest = [] then [] else [?rest]) s1" ?v cs'])
        (simp_all split: prod.split)
  qed
qed

lemma chunk_lengths:
  "0 < n \<Longrightarrow> map length (rust_chunks n xs) = replicate (length xs div n) n @ (if length xs mod n = 0 then [] else [length xs mod n])"
proof (induction n xs rule: cut_parts.induct)
  case (1 n xs)
  show ?case
  proof (cases "n \<le> length xs")
    case True
    with "1.prems" have ne: "xs \<noteq> []" by auto
    from True "1.prems" have d: "length xs div n = Suc ((length xs - n) div n)" "length xs mod n = (length xs - n) mod n"
      by (simp_all add: le_div_geq le_mod_geq)
    from "1.IH" [of] "1.prems" True rust_chunks_step [OF "1.prems" ne] show ?thesis by (simp add: d)
  next
    case False
    then show ?thesis using rust_chunks_step [OF "1.prems", of xs] by (cases "xs = []") simp_all
  qed
qed

text \<open>
  C15. The streaming pipeline equals its reference: whatever the sizes of the received chunks, the store
  sees the same calls, with the same data and in the same order, and the caller gets the same answer,
  as if the whole shard were cut into slices of 5 MiB, these uploaded with the numbers 1, 2, ... until
  one fails, and the upload completed. Every part but the last has exactly 5 MiB, as the store demands.
\<close>

theorem streaming_upload_equiv:
  "upload_body s3 key uid (map Inr ds) s = Some (upload_whole s3 key uid (concat ds) s)
   \<and> map length (rust_chunks MULTIPART_PART_SIZE (concat ds)) =
       replicate (length (concat ds) div MULTIPART_PART_SIZE) (5 * 1024 * 1024)
       @ (if length (concat ds) mod MULTIPART_PART_SIZE = 0 then [] else [length (concat ds) mod MULTIPART_PART_SIZE])"
  using upload_body_ok chunk_lengths [of MULTIPART_PART_SIZE "concat ds"] by (auto simp: MULTIPART_PART_SIZE_def)

text \<open>The loops end for every stream, also one with an error in it.\<close>

lemma receive_returns:
  assumes "buffer_ok u" "length (concat (us_chunks u)) < MULTIPART_PART_SIZE"
  shows "\<exists>r s1. receive_chunks s3 key uid items u s = Some (r, s1) \<and> (\<forall>v. r = Inr v \<longrightarrow> buffer_ok v \<and> (\<exists>ds. items = map Inr ds))"
  using assms
proof (induction items arbitrary: u s)
  case (Cons i items)
  show ?case
  proof (cases i)
    case (Inr d)
    let ?u = "u\<lparr>us_buffered := us_buffered u + length d, us_chunks := us_chunks u @ [d]\<rparr>"
    have "buffer_ok ?u" using Cons.prems(1) by (simp add: buffer_ok_def)
    from flush_parts_ok [OF this, of s3 key uid s] obtain cs where
      cs: "concat cs = snd (cut_parts MULTIPART_PART_SIZE (concat (us_chunks ?u)))"
        "flush_parts s3 key uid ?u s = Some (after_parts ?u cs (upload_parts s3 key uid (us_number ?u) (fst (cut_parts MULTIPART_PART_SIZE (concat (us_chunks ?u)))) s))" by blast
    show ?thesis
    proof (cases rule: after_parts_cases [of "upload_parts s3 key uid (us_number ?u) (fst (cut_parts MULTIPART_PART_SIZE (concat (us_chunks ?u)))) s" ?u cs])
      case (failed s1)
      with cs(2) show ?thesis by (simp add: Inr)
    next
      case (uploaded es s1)
      let ?v = "\<lparr>us_chunks = cs, us_buffered = length (concat cs), us_parts = us_parts u @ es, us_number = us_number u + length es\<rparr> :: upload_state"
      have "buffer_ok ?v" "length (concat (us_chunks ?v)) < MULTIPART_PART_SIZE"
        using cut_parts_rest [OF part_size_pos] by (simp_all add: buffer_ok_def cs(1))
      from Cons.IH [OF this, of s1] obtain r s2 where r: "receive_chunks s3 key uid items ?v s1 = Some (r, s2)"
        "\<forall>v. r = Inr v \<longrightarrow> buffer_ok v \<and> (\<exists>ds. items = map Inr ds)" by blast
      have "receive_chunks s3 key uid (i # items) u s = Some (r, s2)" using cs(2) uploaded(2) r(1) by (simp add: Inr)
      moreover have "\<exists>ds. i # items = map Inr ds" if "items = map Inr ds" for ds using that Inr by (intro exI [of _ "d # ds"]) simp
      ultimately show ?thesis using r(2) by blast
    qed
  qed simp
qed simp

lemma upload_body_returns:
  "\<exists>r s1. upload_body s3 key uid items s = Some (r, s1) \<and> (r = None \<longrightarrow> (\<exists>ds. items = map Inr ds))"
proof -
  let ?u = "\<lparr>us_chunks = [], us_buffered = 0, us_parts = [], us_number = 1\<rparr> :: upload_state"
  have "buffer_ok ?u" "length (concat (us_chunks ?u)) < MULTIPART_PART_SIZE" by (simp_all add: buffer_ok_def)
  from receive_returns [OF this, of s3 key uid items s] obtain r s1 where
    r: "receive_chunks s3 key uid items ?u s = Some (r, s1)" "\<forall>v. r = Inr v \<longrightarrow> buffer_ok v \<and> (\<exists>ds. items = map Inr ds)" by blast
  show ?thesis
  proof (cases r)
    case (Inl e)
    with r(1) show ?thesis by (simp add: upload_body_def)
  next
    case (Inr v)
    with r(2) obtain ds where v: "buffer_ok v" "items = map Inr ds" by blast
    from upload_body_ok [of s3 key uid ds s] v(2) show ?thesis by (cases "upload_whole s3 key uid (concat ds) s") simp
  qed
qed

lemma write_stream_returns:
  "\<exists>r s1. write_shard_stream s3 sha256 enc uuid run_id checkpoint_id shard_id items s = Some (r, s1)"
proof (cases "s3_create_multipart s3 (staging_key run_id checkpoint_id shard_id uuid) s")
  case (Pair uid s1)
  show ?thesis
  proof (cases uid)
    case (Some u)
    from upload_body_returns [of s3 "staging_key run_id checkpoint_id shard_id uuid" u items s1] obtain r s2 where
      "upload_body s3 (staging_key run_id checkpoint_id shard_id uuid) u items s1 = Some (r, s2)" by blast
    with Pair Some show ?thesis
      by (cases r) (auto simp: write_shard_stream_def Let_def split: prod.split option.split)
  qed (use Pair in \<open>simp add: write_shard_stream_def Let_def\<close>)
qed

text \<open>
  C16. A write request to the data plane always returns and gives its place back: for every stream
  of chunks, however large, empty, broken off by an error or changing its shard, and for every
  behaviour of the store, the loops of the pipeline end without an index out of bounds and without a
  counter below zero, the handler answers with a result or a status, and the backpressure counter is
  what it was before the request. The request is refused for backpressure exactly when the counter
  has reached its maximum, and then nothing changes.
\<close>

theorem write_shard_returns:
  "\<exists>answer v1. grpc_write_shard max_depth s3 sha256 enc uuid stream v = Some (answer, v1)
     \<and> sv_depth v1 = sv_depth v
     \<and> (if max_depth \<le> sv_depth v then answer = Inl ResourceExhausted \<and> v1 = v
          else answer \<noteq> Inl ResourceExhausted)"
proof (cases "stream = [] \<or> max_depth \<le> sv_depth v \<or> (\<exists>err rest. stream = Inl err # rest)")
  case True
  then show ?thesis by (auto simp: grpc_write_shard_def accept_write_def finish_write_def)
next
  case False
  then obtain first rest where stream: "stream = Inr first # rest"
    by (cases stream) (metis sumE)+
  obtain run_id k where ids: "split_composite (ch_checkpoint_id first) = (run_id, k)" by fastforce
  from write_stream_returns [of s3 sha256 enc uuid run_id k "ch_shard_id first"
      "Inr (ch_data first) # forward_chunks (ch_shard_id first) (ch_checkpoint_id first) rest" "sv_store v"]
  obtain r s where "write_shard_stream s3 sha256 enc uuid run_id k (ch_shard_id first)
      (Inr (ch_data first) # forward_chunks (ch_shard_id first) (ch_checkpoint_id first) rest) (sv_store v) = Some (r, s)"
    by blast
  with False stream ids show ?thesis
    by (cases r) (simp_all add: grpc_write_shard_def accept_write_def finish_write_def)
qed

section \<open>The laws of the store\<close>

text \<open>
  \<open>obj\<close> gives the objects of a state by their keys, \<open>upl\<close> the parts of an upload that is under way by their
  numbers. Only the named object may change, an operation that succeeds has its effect, and an object
  that is read or found is there.
\<close>

type_synonym 's objects = "'s \<Rightarrow> jsstring \<Rightarrow> bytes option"

type_synonym 's uploads = "'s \<Rightarrow> jsstring \<Rightarrow> jsstring \<Rightarrow> (nat \<Rightarrow> (jsstring option \<times> bytes) option) option"

definition only_changes :: "'s objects \<Rightarrow> jsstring \<Rightarrow> 's \<Rightarrow> 's \<Rightarrow> bool" where
  "only_changes obj k s s' = (\<forall>j. j \<noteq> k \<longrightarrow> obj s' j = obj s j)"

definition object_laws :: "'s s3 \<Rightarrow> 's objects \<Rightarrow> bool" where
  "object_laws s3 obj =
     ((\<forall>k d s. only_changes obj k s (snd (s3_put s3 k d s)) \<and> (fst (s3_put s3 k d s) \<longrightarrow> obj (snd (s3_put s3 k d s)) k = Some d))
      \<and> (\<forall>k l s. only_changes obj l s (snd (s3_copy s3 k l s)) \<and> (fst (s3_copy s3 k l s) \<longrightarrow> obj (snd (s3_copy s3 k l s)) l = obj s k))
      \<and> (\<forall>k s. only_changes obj k s (snd (s3_delete s3 k s)) \<and> (fst (s3_delete s3 k s) \<longrightarrow> obj (snd (s3_delete s3 k s)) k = None))
      \<and> (\<forall>k s. obj (snd (s3_get s3 k s)) = obj s \<and> (fst (s3_get s3 k s) \<noteq> None \<longrightarrow> fst (s3_get s3 k s) = obj s k))
      \<and> (\<forall>k s. obj (snd (s3_head s3 k s)) = obj s \<and> (fst (s3_head s3 k s) \<longrightarrow> obj s k \<noteq> None)))"

definition multipart_laws :: "'s s3 \<Rightarrow> 's objects \<Rightarrow> 's uploads \<Rightarrow> bool" where
  "multipart_laws s3 obj upl =
     ((\<forall>k s r s'. s3_create_multipart s3 k s = (r, s') \<longrightarrow> obj s' = obj s \<and> (\<forall>u. r = Some u \<longrightarrow> upl s' k u = Some Map.empty))
      \<and> (\<forall>k u n d s r s'. s3_upload_part s3 k u n d s = (r, s') \<longrightarrow>
           obj s' = obj s \<and> (\<forall>e m. r = Some e \<longrightarrow> upl s k u = Some m \<longrightarrow> upl s' k u = Some (m(n \<mapsto> (e, d)))))
      \<and> (\<forall>k u ps s ok s'. s3_complete_multipart s3 k u ps s = (ok, s') \<longrightarrow>
           only_changes obj k s s'
           \<and> (\<forall>m ds. ok \<longrightarrow> upl s k u = Some m \<longrightarrow> sorted_wrt (<) (map fst ps) \<longrightarrow>
                list_all2 (\<lambda>(n, e) d. m n = Some (e, d)) ps ds \<longrightarrow> obj s' k = Some (concat ds)))
      \<and> (\<forall>k u s. obj (snd (s3_abort_multipart s3 k u s)) = obj s))"

definition s3_laws :: "'s s3 \<Rightarrow> 's objects \<Rightarrow> 's uploads \<Rightarrow> bool" where
  "s3_laws s3 obj upl = (object_laws s3 obj \<and> multipart_laws s3 obj upl)"

lemma only_changesD: "only_changes obj k s s' \<Longrightarrow> j \<noteq> k \<Longrightarrow> obj s' j = obj s j"
  by (simp add: only_changes_def)

lemma object_lawsD:
  assumes "s3_laws s3 obj upl"
  shows s3_put_law: "only_changes obj k s (snd (s3_put s3 k d s))" "fst (s3_put s3 k d s) \<Longrightarrow> obj (snd (s3_put s3 k d s)) k = Some d"
    and s3_copy_law: "only_changes obj l s (snd (s3_copy s3 k l s))" "fst (s3_copy s3 k l s) \<Longrightarrow> obj (snd (s3_copy s3 k l s)) l = obj s k"
    and s3_delete_law: "only_changes obj k s (snd (s3_delete s3 k s))" "fst (s3_delete s3 k s) \<Longrightarrow> obj (snd (s3_delete s3 k s)) k = None"
    and s3_get_law: "obj (snd (s3_get s3 k s)) = obj s" "fst (s3_get s3 k s) = Some x \<Longrightarrow> obj s k = Some x"
    and s3_head_law: "obj (snd (s3_head s3 k s)) = obj s" "fst (s3_head s3 k s) \<Longrightarrow> obj s k \<noteq> None"
  using assms unfolding s3_laws_def object_laws_def by (auto simp del: not_None_eq)

lemma s3_create_law:
  "s3_laws s3 obj upl \<Longrightarrow> s3_create_multipart s3 k s = (r, s') \<Longrightarrow> obj s' = obj s \<and> (\<forall>u. r = Some u \<longrightarrow> upl s' k u = Some Map.empty)"
  by (simp add: s3_laws_def multipart_laws_def)

lemma s3_part_law:
  "s3_laws s3 obj upl \<Longrightarrow> s3_upload_part s3 k u n d s = (p, s') \<Longrightarrow>
   obj s' = obj s \<and> (\<forall>e m. p = Some e \<longrightarrow> upl s k u = Some m \<longrightarrow> upl s' k u = Some (m(n \<mapsto> (e, d))))"
  unfolding s3_laws_def multipart_laws_def by blast

lemma s3_complete_law:
  assumes "s3_laws s3 obj upl" "s3_complete_multipart s3 k u ps s = (ok, s')"
  shows "only_changes obj k s s'"
    and "ok \<Longrightarrow> upl s k u = Some m \<Longrightarrow> sorted_wrt (<) (map fst ps) \<Longrightarrow> list_all2 (\<lambda>(n, e) d. m n = Some (e, d)) ps ds \<Longrightarrow>
      obj s' k = Some (concat ds)"
  using assms unfolding s3_laws_def multipart_laws_def by blast+

lemma s3_abort_law: "s3_laws s3 obj upl \<Longrightarrow> obj (snd (s3_abort_multipart s3 k u s)) = obj s"
  unfolding s3_laws_def multipart_laws_def by blast

lemma upload_parts_kept:
  "s3_laws s3 obj upl \<Longrightarrow> upload_parts s3 k u n ps s = (r, s') \<Longrightarrow> obj s' = obj s"
proof (induction ps arbitrary: n s r)
  case (Cons p ps)
  obtain a s1 where a: "s3_upload_part s3 k u n p s = (a, s1)" by fastforce
  obtain r1 s2 where r1: "upload_parts s3 k u (n + 1) ps s1 = (r1, s2)" by fastforce
  from s3_part_law [OF Cons.prems(1) a] Cons.IH [OF Cons.prems(1)] Cons.prems(2) a r1 show ?case
    by (auto split: option.splits)
qed simp

lemma upload_parts_stored:
  assumes laws: "s3_laws s3 obj upl" and "upload_parts s3 k u n ps s = (Some es, s')" and "upl s k u = Some m"
  shows "map fst es = [n..<n + length ps] \<and>
    (\<exists>m'. upl s' k u = Some m' \<and> list_all2 (\<lambda>(i, e) d. m' i = Some (e, d)) es ps \<and> (\<forall>i<n. m' i = m i))"
  using assms(2,3)
proof (induction ps arbitrary: n s m es)
  case (Cons p ps)
  obtain a s1 where a: "s3_upload_part s3 k u n p s = (a, s1)" by fastforce
  obtain r1 s2 where r1: "upload_parts s3 k u (n + 1) ps s1 = (r1, s2)" by fastforce
  from Cons.prems(1) a r1 obtain e es1 where e: "a = Some e" "r1 = Some es1" "es = (n, e) # es1" "s' = s2" by (auto split: option.splits)
  with s3_part_law [OF laws a] Cons.prems(2) have m1: "upl s1 k u = Some (m(n \<mapsto> (e, p)))" by blast
  from Cons.IH [OF _ m1, of "n + 1" es1] r1 e obtain m' where
    m': "map fst es1 = [n + 1..<n + 1 + length ps]" "upl s' k u = Some m'" "list_all2 (\<lambda>(i, e) d. m' i = Some (e, d)) es1 ps"
      "\<forall>i<n + 1. m' i = (m(n \<mapsto> (e, p))) i" by auto
  have "m' n = Some (e, p)" "\<forall>i<n. m' i = m i" using m'(4) by auto
  with m' e(3) show ?case by (auto simp: upt_rec [of n])
qed simp

lemma upload_whole_stored:
  assumes laws: "s3_laws s3 obj upl" and up: "upl s k u = Some Map.empty" and w: "upload_whole s3 k u data s = (r, s')"
  shows "only_changes obj k s s'" and "r = None \<Longrightarrow> obj s' k = Some data"
proof -
  let ?ps = "rust_chunks MULTIPART_PART_SIZE data"
  obtain a s1 where a: "upload_parts s3 k u 1 ?ps s = (a, s1)" by fastforce
  note kept = upload_parts_kept [OF laws a]
  show "only_changes obj k s s'"
    using w a kept s3_complete_law(1) [OF laws]
    by (fastforce simp: upload_whole_def only_changes_def split: option.splits if_splits prod.splits)
  assume r: "r = None"
  with w a obtain es where es: "a = Some es" "s3_complete_multipart s3 k u es s1 = (True, s')"
    by (auto simp: upload_whole_def split: option.splits if_splits prod.splits)
  from upload_parts_stored [OF laws a [unfolded es(1)] up] obtain m' where m': "map fst es = [1..<1 + length ?ps]" "upl s1 k u = Some m'"
    "list_all2 (\<lambda>(i, e) d. m' i = Some (e, d)) es ?ps" by blast
  have "sorted_wrt (<) (map fst es)" unfolding m'(1) by (rule sorted_wrt_upt)
  from s3_complete_law(2) [OF laws es(2) _ m'(2) this m'(3)] show "obj s' k = Some data" by simp
qed

section \<open>What a successful write stores\<close>

lemma shard_keys_distinct:
  "staging_key r c i u \<noteq> content_addressed_key r c i h" "staging_key r c i u \<noteq> checksum_key r c i"
  "content_addressed_key r c i h \<noteq> checksum_key r c j"
  "manifest_key r c \<noteq> staging_key r c i u" "manifest_key r c \<noteq> content_addressed_key r c i h" "manifest_key r c \<noteq> checksum_key r c j"
proof -
  show "staging_key r c i u \<noteq> content_addressed_key r c i h" "manifest_key r c \<noteq> staging_key r c i u"
    "manifest_key r c \<noteq> content_addressed_key r c i h"
    by (simp_all add: staging_key_def content_addressed_key_def manifest_key_def js_simps)
  have "length (staging_key r c i u) \<noteq> length (checksum_key r c i)" by (simp add: staging_key_def checksum_key_def js_simps)
  then show "staging_key r c i u \<noteq> checksum_key r c i" by metis
  have l: "last (content_addressed_key r c i h) = Ch (CHR ''n'')" "last (manifest_key r c) = Ch (CHR ''n'')" "last (checksum_key r c j) = Ch (CHR ''6'')"
    by (simp_all add: content_addressed_key_def manifest_key_def checksum_key_def js_simps)
  then show "content_addressed_key r c i h \<noteq> checksum_key r c j" "manifest_key r c \<noteq> checksum_key r c j" by force+
qed

lemma promote_ok:
  assumes laws: "s3_laws s3 obj upl" and p: "promote s3 enc st fin sc sha s = (None, s')"
    and data: "obj s st = Some data" "obj s fin \<in> {None, Some data}" and ne: "st \<noteq> fin" "st \<noteq> sc" "fin \<noteq> sc"
  shows "obj s' fin = Some data \<and> obj s' st = None \<and> obj s' sc = Some (enc sha) \<and> (\<forall>j. j \<notin> {st, fin, sc} \<longrightarrow> obj s' j = obj s j)"
proof -
  let ?r = "case object_exists s3 fin s of (True, s1) \<Rightarrow> (True, s1) | (False, s1) \<Rightarrow> s3_copy s3 st fin s1"
  obtain b s1 where h: "s3_head s3 fin s = (b, s1)" by fastforce
  have s1: "obj s1 = obj s" "b \<Longrightarrow> obj s fin = Some data" using s3_head_law [OF laws, of fin s] h data(2) by auto
  obtain ok s2 where r: "?r = (ok, s2)" by fastforce
  from p r have ok by (auto simp: promote_def split: bool.splits prod.splits)
  have s2: "obj s2 fin = Some data" "\<And>j. j \<noteq> fin \<Longrightarrow> obj s2 j = obj s j"
    using r h s1 \<open>ok\<close> data(1) s3_copy_law [OF laws, where k = st and l = fin and s = s1]
    by (auto simp: object_exists_def only_changes_def split: bool.splits)
  obtain ok3 s3' where d: "s3_delete s3 st s2 = (ok3, s3')" by fastforce
  obtain ok4 s4 where q: "s3_put s3 sc (enc sha) s3' = (ok4, s4)" by fastforce
  from p r d q \<open>ok\<close> have "ok3" "ok4" "s' = s4" by (auto simp: promote_def split: bool.splits if_splits)
  with s3_delete_law [OF laws, where k = st and s = s2] s3_put_law [OF laws, where k = sc and s = s3' and d = "enc sha"] d q s2 ne show ?thesis
    by (auto simp: only_changes_def)
qed

lemma received_map [simp]: "received (map Inr ds) = concat ds"
  by (induction ds) (simp_all add: received_def map_filter_simps)

lemma count_bytes_map: "count_bytes (map Inr ds) = of_nat (length (concat ds))"
proof -
  have "fold (\<lambda>i n. case i of Inr c \<Rightarrow> n + of_nat (length c) | Inl m \<Rightarrow> n) (map Inr ds :: (jsstring + bytes) list) a = (a :: 64 word) + of_nat (length (concat ds))" for a
    by (induction ds arbitrary: a) (simp_all add: add.assoc)
  then show ?thesis by (simp add: count_bytes_def)
qed

text \<open>The objects after a shard was written.\<close>

definition shard_written :: "'s objects \<Rightarrow> (jsstring \<Rightarrow> bytes) \<Rightarrow> jsstring \<Rightarrow> jsstring \<Rightarrow> jsstring \<Rightarrow> jsstring \<Rightarrow> bytes \<Rightarrow> jsstring \<Rightarrow> 's \<Rightarrow> 's \<Rightarrow> bool" where
  "shard_written obj enc uuid run_id checkpoint_id shard_id data sha s s' =
     (obj s' (content_addressed_key run_id checkpoint_id shard_id sha) = Some data
      \<and> obj s' (staging_key run_id checkpoint_id shard_id uuid) = None
      \<and> obj s' (checksum_key run_id checkpoint_id shard_id) = Some (enc sha)
      \<and> (\<forall>j. j \<notin> {content_addressed_key run_id checkpoint_id shard_id sha, staging_key run_id checkpoint_id shard_id uuid,
                    checksum_key run_id checkpoint_id shard_id} \<longrightarrow> obj s' j = obj s j))"

lemma write_shard_ok:
  assumes laws: "s3_laws s3 obj upl"
    and w: "write_shard_stream s3 sha256 enc uuid run_id checkpoint_id shard_id items s = Some (Inr w, s')"
    and dedup: "obj s (content_addressed_key run_id checkpoint_id shard_id (sha256 (received items))) \<in> {None, Some (received items)}"
  shows "(\<exists>ds. items = map Inr ds)
    \<and> w = \<lparr>wo_shard_id = shard_id, wo_total_bytes = of_nat (length (received items)), wo_sha256 = sha256 (received items),
           wo_storage_key = content_addressed_key run_id checkpoint_id shard_id (sha256 (received items))\<rparr>
    \<and> shard_written obj enc uuid run_id checkpoint_id shard_id (received items) (sha256 (received items)) s s'"
proof -
  let ?st = "staging_key run_id checkpoint_id shard_id uuid" and ?sc = "checksum_key run_id checkpoint_id shard_id"
  obtain r s1 where c: "s3_create_multipart s3 ?st s = (r, s1)" by fastforce
  from w c obtain uid where uid: "r = Some uid" by (auto simp: write_shard_stream_def Let_def split: option.splits)
  note created = s3_create_law [OF laws c]
  from upload_body_returns [of s3 ?st uid items s1] obtain e s2 where b: "upload_body s3 ?st uid items s1 = Some (e, s2)"
    "e = None \<longrightarrow> (\<exists>ds. items = map Inr ds)" by blast
  from w c uid b have "e = None" by (auto simp: write_shard_stream_def Let_def split: option.splits)
  with b(2) obtain ds where ds: "items = map Inr ds" by blast
  let ?d = "concat ds" and ?key = "content_addressed_key run_id checkpoint_id shard_id (sha256 (concat ds))"
  have whole: "upload_whole s3 ?st uid ?d s1 = (None, s2)" using upload_body_ok [of s3 ?st uid ds s1] b(1) ds \<open>e = None\<close> by simp
  from created uid have "upl s1 ?st uid = Some Map.empty" by blast
  note up = upload_whole_stored [OF laws this whole]
  have s2: "obj s2 ?st = Some ?d" "\<And>j. j \<noteq> ?st \<Longrightarrow> obj s2 j = obj s j" using up created by (auto simp: only_changes_def)
  obtain e' s4 where p: "promote s3 enc ?st ?key ?sc (sha256 ?d) s2 = (e', s4)" by fastforce
  have out: "e' = None" "s' = s4" "w = \<lparr>wo_shard_id = shard_id, wo_total_bytes = count_bytes items, wo_sha256 = sha256 ?d, wo_storage_key = ?key\<rparr>"
    using w c uid b(1) \<open>e = None\<close> p ds by (auto simp: write_shard_stream_def Let_def split: option.splits)
  have "?key \<noteq> ?st" using shard_keys_distinct(1) by metis
  with dedup s2(2) [of ?key] have "obj s2 ?key \<in> {None, Some ?d}" by (simp add: ds)
  from promote_ok [OF laws p [unfolded out(1)] s2(1) this shard_keys_distinct(1,2,3)] have
    "obj s4 ?key = Some ?d \<and> obj s4 ?st = None \<and> obj s4 ?sc = Some (enc (sha256 ?d)) \<and> (\<forall>j. j \<notin> {?st, ?key, ?sc} \<longrightarrow> obj s4 j = obj s2 j)" .
  then have "shard_written obj enc uuid run_id checkpoint_id shard_id ?d (sha256 ?d) s s4"
    using s2(2) by (auto simp: shard_written_def)
  with ds out show ?thesis by (auto simp: count_bytes_map)
qed

section \<open>A store in memory\<close>

text \<open>A store that obeys the laws and never fails, for concrete runs.\<close>

record mem =
  me_objects :: "(jsstring \<times> bytes) list"
  me_uploads :: "((jsstring \<times> jsstring) \<times> (nat \<times> jsstring option \<times> bytes) list) list"

definition mem_s3 :: "mem s3" where
  "mem_s3 =
     \<lparr>s3_put = (\<lambda>k d s. (True, s\<lparr>me_objects := AList.update k d (me_objects s)\<rparr>)),
      s3_create_multipart = (\<lambda>k s. (Some (js ''upload''), s\<lparr>me_uploads := ((k, js ''upload''), []) # me_uploads s\<rparr>)),
      s3_upload_part = (\<lambda>k u n d s.
        (case map_of (me_uploads s) (k, u) of
           None \<Rightarrow> (None, s)
         | Some m \<Rightarrow> (Some None, s\<lparr>me_uploads := AList.update (k, u) ((n, None, d) # m) (me_uploads s)\<rparr>))),
      s3_complete_multipart = (\<lambda>k u ps s.
        (case map_of (me_uploads s) (k, u) of
           None \<Rightarrow> (False, s)
         | Some m \<Rightarrow> (True, s\<lparr>me_objects := AList.update k (concat (map (\<lambda>p. snd (given (map_of m (fst p)) (None, []))) ps)) (me_objects s)\<rparr>))),
      s3_abort_multipart = (\<lambda>k u s. (True, s)),
      s3_copy = (\<lambda>k l s.
        (case map_of (me_objects s) k of
           None \<Rightarrow> (False, s)
         | Some d \<Rightarrow> (True, s\<lparr>me_objects := AList.update l d (me_objects s)\<rparr>))),
      s3_get = (\<lambda>k s. (map_of (me_objects s) k, s)),
      s3_delete = (\<lambda>k s. (True, s\<lparr>me_objects := AList.delete k (me_objects s)\<rparr>)),
      s3_head = (\<lambda>k s. (map_of (me_objects s) k \<noteq> None, s)),
      s3_list_page = (\<lambda>pre t s. (Some (filter (\<lambda>k. startsWith k pre) (remdups (map fst (me_objects s))), False, None), s))\<rparr>"

definition mem_obj :: "mem objects" where
  "mem_obj s = map_of (me_objects s)"

definition mem_upl :: "mem uploads" where
  "mem_upl s k u = map_option map_of (map_of (me_uploads s) (k, u))"

lemma mem_parts: "list_all2 (\<lambda>(n, e) d. map_of m n = Some (e, d)) ps ds \<Longrightarrow> map (\<lambda>p. snd (given (map_of m (fst p)) (None, []))) ps = ds"
  by (induction rule: list_all2_induct) (auto simp: given_def)

lemma mem_laws: "s3_laws mem_s3 mem_obj mem_upl"
proof -
  have "object_laws mem_s3 mem_obj"
    by (auto simp: object_laws_def mem_s3_def mem_obj_def only_changes_def AList.update_conv' AList.delete_conv' split: option.split)
  moreover have "multipart_laws mem_s3 mem_obj mem_upl"
    unfolding multipart_laws_def
  proof (intro conjI)
    show "\<forall>k u ps s ok s'. s3_complete_multipart mem_s3 k u ps s = (ok, s') \<longrightarrow>
       only_changes mem_obj k s s' \<and> (\<forall>m ds. ok \<longrightarrow> mem_upl s k u = Some m \<longrightarrow> sorted_wrt (<) (map fst ps) \<longrightarrow>
         list_all2 (\<lambda>(n, e) d. m n = Some (e, d)) ps ds \<longrightarrow> mem_obj s' k = Some (concat ds))"
      by (auto simp: mem_s3_def mem_obj_def mem_upl_def only_changes_def AList.update_conv' mem_parts split: option.splits)
  qed (auto simp: mem_s3_def mem_obj_def mem_upl_def AList.update_conv' split: option.splits)
  ultimately show ?thesis by (simp add: s3_laws_def)
qed

text \<open>Reads that are answered.\<close>

definition reads_answered :: "'s s3 \<Rightarrow> 's objects \<Rightarrow> bool" where
  "reads_answered s3 obj = (\<forall>k s. fst (s3_head s3 k s) = (obj s k \<noteq> None) \<and> fst (s3_get s3 k s) = obj s k)"

lemma mem_reads: "reads_answered mem_s3 mem_obj"
  by (simp add: reads_answered_def mem_s3_def mem_obj_def)

section \<open>From the upload to the download\<close>

lemma split_composite_ok: "Ch (CHR ''/'') \<notin> set r \<Longrightarrow> split_composite (r @ js ''/'' @ c) = (r, c)"
proof -
  assume r: "Ch (CHR ''/'') \<notin> set r"
  then have "takeWhile (\<lambda>x. x \<noteq> Ch (CHR ''/'')) (r @ js ''/'' @ c) = r" "dropWhile (\<lambda>x. x \<noteq> Ch (CHR ''/'')) (r @ js ''/'' @ c) = js ''/'' @ c"
    by (simp_all add: takeWhile_append dropWhile_append js_simps)
  then show ?thesis by (simp add: split_composite_def js_simps)
qed

lemma forward_same:
  "list_all (\<lambda>x. ch_shard_id x = sid \<and> ch_checkpoint_id x = cid) cs \<Longrightarrow>
   forward_chunks sid cid (map Inr cs) = map Inr (map ch_data cs)"
  by (induction cs) auto

lemma storage_keys_agree: "storage_key r c sha i = content_addressed_key r c i sha"
  by (simp add: storage_key_def content_addressed_key_def slice_simps)

lemma read_chunks_data: "map ch_data (read_chunks i c chunks) = chunks"
  unfolding read_chunks_def by (rule nth_equalityI) simp_all

lemma chunk_ids: "x \<in> set (upload_chunks r c i body) \<Longrightarrow> ch_shard_id x = i \<and> ch_checkpoint_id x = r @ js ''/'' @ c"
  unfolding upload_chunks_def using chunk_iterator_bounds by blast

text \<open>A body that the control plane sends in chunks reaches the writer as these chunks.\<close>

lemma write_of_chunks:
  assumes "Ch (CHR ''/'') \<notin> set run_id" "body \<noteq> []"
  shows "\<exists>ds. concat ds = body
    \<and> grpc_write_shard max_depth s3 sha256 enc uuid (map Inr (upload_chunks run_id k sid body)) v =
        (if max_depth \<le> sv_depth v then Some (Inl ResourceExhausted, v)
         else (case write_shard_stream s3 sha256 enc uuid run_id k sid (map Inr ds) (sv_store v) of
                 None \<Rightarrow> None
               | Some (Inl e, s) \<Rightarrow> Some (Inl InternalError, v\<lparr>sv_healthy := False, sv_store := s\<rparr>)
               | Some (Inr w, s) \<Rightarrow>
                   Some (Inr \<lparr>wr_success = True, wr_shard_id = wo_shard_id w, wr_total_bytes = uint (wo_total_bytes w),
                              wr_sha256_checksum = wo_sha256 w\<rparr>, v\<lparr>sv_healthy := True, sv_store := s\<rparr>)))"
proof -
  let ?cs = "upload_chunks run_id k sid body"
  have data: "concat (map ch_data ?cs) = body" by (simp add: upload_chunks_def chunk_iterator_data)
  with assms(2) obtain c cs where c: "?cs = c # cs" by (cases ?cs) auto
  have "list_all (\<lambda>x. ch_shard_id x = sid \<and> ch_checkpoint_id x = run_id @ js ''/'' @ k) (c # cs)"
    unfolding list_all_iff c [symmetric] using chunk_ids by blast
  then have ids: "ch_shard_id c = sid" "ch_checkpoint_id c = run_id @ js ''/'' @ k"
    and rest: "list_all (\<lambda>x. ch_shard_id x = sid \<and> ch_checkpoint_id x = run_id @ js ''/'' @ k) cs" by simp_all
  have fwd: "forward_chunks sid (run_id @ js ''/'' @ k) (map Inr cs) = map Inr (map ch_data cs)" by (rule forward_same [OF rest])
  have comp: "split_composite (run_id @ js ''/'' @ k) = (run_id, k)" by (rule split_composite_ok [OF assms(1)])
  have all: "Inr (ch_data c) # map Inr (map ch_data cs) = map Inr (map ch_data ?cs)" by (simp add: c)
  from data show ?thesis
    by (intro exI [of _ "map ch_data ?cs"])
      (simp add: grpc_write_shard_def accept_write_def finish_write_def c ids fwd comp split: option.split prod.split sum.split)
qed

lemma write_of_body:
  assumes "Ch (CHR ''/'') \<notin> set run_id" "body \<noteq> []"
    and "grpc_write_shard max_depth s3 sha256 enc uuid (map Inr (upload_chunks run_id k sid body)) v = Some (Inr res, v1)"
  shows "\<exists>ds w s'. concat ds = body
    \<and> write_shard_stream s3 sha256 enc uuid run_id k sid (map Inr ds) (sv_store v) = Some (Inr w, s')
    \<and> res = \<lparr>wr_success = True, wr_shard_id = wo_shard_id w, wr_total_bytes = uint (wo_total_bytes w), wr_sha256_checksum = wo_sha256 w\<rparr>
    \<and> v1 = v\<lparr>sv_healthy := True, sv_store := s'\<rparr>"
proof -
  from write_of_chunks [OF assms(1,2), of max_depth s3 sha256 enc uuid k sid v] obtain ds where
    ds: "concat ds = body" "Some (Inr res, v1) =
        (if max_depth \<le> sv_depth v then Some (Inl ResourceExhausted, v)
         else (case write_shard_stream s3 sha256 enc uuid run_id k sid (map Inr ds) (sv_store v) of
                 None \<Rightarrow> None
               | Some (Inl e, s) \<Rightarrow> Some (Inl InternalError, v\<lparr>sv_healthy := False, sv_store := s\<rparr>)
               | Some (Inr w, s) \<Rightarrow>
                   Some (Inr \<lparr>wr_success = True, wr_shard_id = wo_shard_id w, wr_total_bytes = uint (wo_total_bytes w),
                              wr_sha256_checksum = wo_sha256 w\<rparr>, v\<lparr>sv_healthy := True, sv_store := s\<rparr>)))"
    unfolding assms(3) by blast
  then show ?thesis by (intro exI [of _ ds]) (auto split: if_splits option.splits prod.splits sum.splits)
qed

lemma read_answered:
  assumes "s3_laws s3 obj upl" "reads_answered s3 obj"
  shows "s3_head s3 k s = (h, s1) \<Longrightarrow> h = (obj s k \<noteq> None) \<and> obj s1 = obj s"
    and "s3_get s3 k s = (g, s1) \<Longrightarrow> g = obj s k \<and> obj s1 = obj s"
  using s3_head_law(1) [OF assms(1), of k s] s3_get_law(1) [OF assms(1), of k s] assms(2) unfolding reads_answered_def
  by (metis fst_conv snd_conv)+

text \<open>Committing: without a manifest one is written, with one nothing is changed.\<close>

lemma commit_stored:
  assumes laws: "s3_laws s3 obj upl" and ans: "reads_answered s3 obj"
    and c: "grpc_commit_checkpoint s3 to_json now r k stp shards md v = ((True, key), v')"
  shows "key = manifest_key r k \<and> (\<forall>j. j \<noteq> key \<longrightarrow> obj (sv_store v') j = obj (sv_store v) j)
    \<and> (if obj (sv_store v) key = None
       then to_json (new_manifest now r k stp shards md) \<noteq> None
         \<and> obj (sv_store v') key = to_json (new_manifest now r k stp shards md)
       else obj (sv_store v') key = obj (sv_store v) key)"
proof -
  let ?m = "new_manifest now r k stp shards md"
  have key: "manifest_key (mf_run_id ?m) (mf_checkpoint_id ?m) = manifest_key r k" by (simp add: new_manifest_def)
  obtain h s1 where h: "s3_head s3 (manifest_key r k) (sv_store v) = (h, s1)" by fastforce
  note head = read_answered(1) [OF laws ans h]
  show ?thesis
  proof (cases h)
    case True
    with c h head show ?thesis by (auto simp: grpc_commit_checkpoint_def write_manifest_def key object_exists_def Let_def)
  next
    case False
    with c h obtain json where j: "to_json ?m = Some json"
      by (cases "to_json ?m") (auto simp: grpc_commit_checkpoint_def write_manifest_def key object_exists_def Let_def)
    obtain ok s2 where p: "s3_put s3 (manifest_key r k) json s1 = (ok, s2)" by fastforce
    from c h False j p have out: "ok" "key = manifest_key r k" "sv_store v' = s2"
      by (auto simp: grpc_commit_checkpoint_def write_manifest_def key object_exists_def Let_def split: if_splits)
    with s3_put_law [OF laws, where k = "manifest_key r k" and d = json and s = s1] p head False j show ?thesis
      by (auto simp: only_changes_def)
  qed
qed

lemma read_of_manifest:
  assumes laws: "s3_laws s3 obj upl" and ans: "reads_answered s3 obj"
    and m: "obj (sv_store v) (manifest_key r k) = Some json" "from_json json = Some m"
  shows "\<exists>v'. grpc_read_shard s3 from_json r k sid v =
    (case find (\<lambda>x. ms_shard_id x = sid) (mf_shards m) of
       None \<Rightarrow> Inl NotFound
     | Some x \<Rightarrow> (case obj (sv_store v) (ms_storage_key x) of
                    None \<Rightarrow> Inl InternalError
                  | Some data \<Rightarrow> Inr (read_chunks sid k (rust_chunks READ_CHUNK_SIZE data))), v')"
proof -
  let ?key = "manifest_key r k"
  obtain h s1 where h: "s3_head s3 ?key (sv_store v) = (h, s1)" by fastforce
  note head = read_answered(1) [OF laws ans h]
  obtain g s2 where g: "s3_get s3 ?key s1 = (g, s2)" by fastforce
  note get = read_answered(2) [OF laws ans g]
  have rm: "read_manifest s3 from_json r k (sv_store v) = (Inr (Some m), s2)"
    using h head g get m by (simp add: read_manifest_def object_exists_def Let_def)
  show ?thesis
  proof (cases "find (\<lambda>x. ms_shard_id x = sid) (mf_shards m)")
    case (Some x)
    obtain d s4 where d: "s3_get s3 (ms_storage_key x) s2 = (d, s4)" by fastforce
    from read_answered(2) [OF laws ans d] get head have "d = obj (sv_store v) (ms_storage_key x)" by simp
    with rm Some d show ?thesis by (auto simp: grpc_read_shard_def read_shard_def split: option.split)
  qed (use rm in \<open>simp add: grpc_read_shard_def\<close>)
qed

text \<open>
  C9. What was uploaded is what is downloaded. When the data plane has answered the upload of a body, sent by
  the control plane in chunks, with success, and then the first commit of its checkpoint, then a read
  of the shard streams chunks that the control plane joins to exactly the body. On the way it passes the
  composite identifier, the multipart pipeline, the promotion to the key that both sides compute
  independently, and the manifest. Before the upload no other content may be stored under that key.
\<close>

theorem upload_commit_download:
  assumes "s3_laws s3 obj upl" and "reads_answered s3 obj" and "Ch (CHR ''/'') \<notin> set run_id" and "body \<noteq> []"
    and "obj (sv_store v) (content_addressed_key run_id k sid (sha256 body)) \<in> {None, Some body}"
    and "obj (sv_store v) (manifest_key run_id k) = None"
    and "grpc_write_shard max_depth s3 sha256 enc uuid (map Inr (upload_chunks run_id k sid body)) v = Some (Inr res, v1)"
    and "find (\<lambda>y. ms_shard_id y = sid) shards = proto_shard (new_shard run_id k sid rank res)"
    and "find (\<lambda>y. ms_shard_id y = sid) shards \<noteq> None"
    and "\<forall>json. to_json (new_manifest now run_id k stp shards md) = Some json \<longrightarrow> from_json json = Some (new_manifest now run_id k stp shards md)"
    and "grpc_commit_checkpoint s3 to_json now run_id k stp shards md v1 = ((True, key), v2)"
  shows "\<exists>chunks v3. grpc_read_shard s3 from_json run_id k sid v2 = (Inr chunks, v3)
    \<and> rest_download_shard True (map ch_data chunks) = Ok body
    \<and> wr_sha256_checksum res = sha256 body \<and> wr_total_bytes res = int (length body) mod 2 ^ 64"
proof -
  from write_of_body [OF assms(3,4,7)] obtain ds w s' where ds: "concat ds = body"
    and w: "write_shard_stream s3 sha256 enc uuid run_id k sid (map Inr ds) (sv_store v) = Some (Inr w, s')"
    and res: "res = \<lparr>wr_success = True, wr_shard_id = wo_shard_id w, wr_total_bytes = uint (wo_total_bytes w), wr_sha256_checksum = wo_sha256 w\<rparr>"
    and v1: "v1 = v\<lparr>sv_healthy := True, sv_store := s'\<rparr>" by blast
  let ?ck = "content_addressed_key run_id k sid (sha256 body)"
  from write_shard_ok [OF assms(1) w] ds assms(5) have
    wo: "w = \<lparr>wo_shard_id = sid, wo_total_bytes = of_nat (length body), wo_sha256 = sha256 body, wo_storage_key = ?ck\<rparr>"
    and written: "shard_written obj enc uuid run_id k sid body (sha256 body) (sv_store v) s'" by auto
  have mk: "manifest_key run_id k \<notin> {?ck, staging_key run_id k sid uuid, checksum_key run_id k sid}"
    using shard_keys_distinct(4-6) by simp
  with written assms(6) have none: "obj (sv_store v1) (manifest_key run_id k) = None" by (simp add: shard_written_def v1)
  note commit = commit_stored [OF assms(1,2,11)]
  let ?m = "new_manifest now run_id k stp shards md"
  from commit none obtain json where json: "to_json ?m = Some json" "obj (sv_store v2) (manifest_key run_id k) = Some json" by auto
  have "?ck \<noteq> key" using commit mk by auto
  with commit have "obj (sv_store v2) ?ck = obj (sv_store v1) ?ck" by blast
  with written have body: "obj (sv_store v2) ?ck = Some body" by (simp add: shard_written_def v1)
  obtain x where x: "find (\<lambda>y. ms_shard_id y = sid) shards = Some x" using assms(9) by blast
  with assms(8) have "ms_storage_key x = ?ck"
    by (auto simp: proto_shard_def new_shard_def storage_keys_agree res wo split: if_splits)
  moreover from assms(10) json(1) have "from_json json = Some ?m" by blast
  note rd = read_of_manifest [OF assms(1,2) json(2), of from_json ?m sid, OF this]
  moreover have "mf_shards ?m = shards" by (simp add: new_manifest_def)
  ultimately obtain v3 where
    read: "grpc_read_shard s3 from_json run_id k sid v2 = (Inr (read_chunks sid k (rust_chunks READ_CHUNK_SIZE body)), v3)"
    using x body by auto
  have pos: "0 < READ_CHUNK_SIZE" by (simp add: READ_CHUNK_SIZE_def)
  then have "rust_chunks READ_CHUNK_SIZE body \<noteq> []" using rust_chunks_step [OF pos assms(4)] by simp
  with pos have "rest_download_shard True (rust_chunks READ_CHUNK_SIZE body) = Ok body" by (simp add: rest_download_shard_def)
  moreover have "wr_total_bytes res = int (length body) mod 2 ^ 64" by (simp add: res wo unsigned_of_nat take_bit_eq_mod zmod_int)
  ultimately show ?thesis using read by (simp add: read_chunks_data res wo)
qed

subsection \<open>A sample\<close>

definition sample_sha :: "bytes \<Rightarrow> jsstring" where
  "sample_sha d = replicate 64 (digit_char (length d mod 10))"

definition sample_service :: "mem dp_service" where
  "sample_service = \<lparr>sv_depth = 0, sv_healthy = True, sv_store = \<lparr>me_objects = [], me_uploads = []\<rparr>\<rparr>"

definition sample_res :: write_result where
  "sample_res = \<lparr>wr_success = True, wr_shard_id = js ''rank-0'', wr_total_bytes = 3, wr_sha256_checksum = sample_sha [1, 2, 3]\<rparr>"

definition sample_upload :: "((grpc_status + write_result) \<times> mem dp_service) option" where
  "sample_upload = grpc_write_shard 4 mem_s3 sample_sha (\<lambda>t. []) (js ''u1'') (map Inr (upload_chunks (js ''r1'') (js ''k1'') (js ''rank-0'') [1, 2, 3])) sample_service"

lemma one_chunk: "body \<noteq> [] \<Longrightarrow> length body \<le> n \<Longrightarrow> rust_chunks n body = [body]"
  by (cases body; cases n) simp_all

lemma sample_chunks: "upload_chunks (js ''r1'') (js ''k1'') (js ''rank-0'') [1, 2, 3] =
    [\<lparr>ch_shard_id = js ''rank-0'', ch_checkpoint_id = js ''r1'' @ js ''/'' @ js ''k1'', ch_offset = 0, ch_data = [1, 2, 3], ch_is_last = True\<rparr>]"
  by (simp add: upload_chunks_def chunk_iterator.simps chunk_size_def)

lemma sample_body: "upload_body s3 key uid [Inr [1, 2, 3]] s =
    Some (case s3_upload_part s3 key uid 1 [1, 2, 3] s of
        (None, s1) \<Rightarrow> (Some S3Error, s1)
      | (Some e, s1) \<Rightarrow> (case s3_complete_multipart s3 key uid [(1, e)] s1 of (ok, s2) \<Rightarrow> (if ok then None else Some S3Error, s2)))"
  using upload_body_ok [of s3 key uid "[[1, 2, 3]]" s]
  by (simp add: upload_whole_def one_chunk MULTIPART_PART_SIZE_def split: prod.split option.split)

lemma sample_uploaded_shard: "\<exists>v. sample_upload = Some (Inr sample_res, v)"
proof -
  have comp: "split_composite (js ''r1'' @ js ''/'' @ js ''k1'') = (js ''r1'', js ''k1'')" by (rule split_composite_ok) (simp add: js_simps)
  have count: "count_bytes [Inr [1, 2, 3]] = (3 :: 64 word)" by (simp add: count_bytes_def)
  have rec: "received [Inr [1, 2, 3]] = [1, 2, 3]" by (simp add: received_def map_filter_simps)
  show ?thesis
    by (simp add: sample_upload_def sample_chunks grpc_write_shard_def accept_write_def sample_service_def comp write_shard_stream_def Let_def
        sample_body mem_s3_def promote_def object_exists_def sample_res_def count rec AList.update_conv' split: option.split)
qed

definition sample_shards :: "manifest_shard list" where
  "sample_shards = List.map_filter proto_shard [new_shard (js ''r1'') (js ''k1'') (js ''rank-0'') 0 sample_res]"

definition sample_manifest :: dp_manifest where
  "sample_manifest = new_manifest (js ''now'') (js ''r1'') (js ''k1'') 50 sample_shards []"

definition sample_to_json :: "dp_manifest \<Rightarrow> bytes option" where
  "sample_to_json m = (if m = sample_manifest then Some [7] else None)"

definition sample_from_json :: "bytes \<Rightarrow> dp_manifest option" where
  "sample_from_json b = (if b = [7] then Some sample_manifest else None)"

lemma sample_committed_manifest:
  "\<exists>v2. grpc_commit_checkpoint mem_s3 sample_to_json (js ''now'') (js ''r1'') (js ''k1'') 50 sample_shards [] v =
     ((True, manifest_key (js ''r1'') (js ''k1'')), v2)"
proof -
  have json: "sample_to_json sample_manifest = Some [7]" by (simp add: sample_to_json_def)
  have key: "manifest_key (mf_run_id sample_manifest) (mf_checkpoint_id sample_manifest) = manifest_key (js ''r1'') (js ''k1'')"
    by (simp add: sample_manifest_def new_manifest_def)
  have "\<exists>s. write_manifest mem_s3 sample_to_json sample_manifest (sv_store v) = (Inr (manifest_key (js ''r1'') (js ''k1'')), s)"
    unfolding write_manifest_def Let_def key json by (simp add: mem_s3_def object_exists_def split: bool.split)
  then show ?thesis by (auto simp: grpc_commit_checkpoint_def simp flip: sample_manifest_def)
qed

theorem upload_commit_download_witness:
  "\<exists>v1 v2 chunks v3. sample_upload = Some (Inr sample_res, v1)
     \<and> grpc_commit_checkpoint mem_s3 sample_to_json (js ''now'') (js ''r1'') (js ''k1'') 50 sample_shards [] v1 =
         ((True, manifest_key (js ''r1'') (js ''k1'')), v2)
     \<and> grpc_read_shard mem_s3 sample_from_json (js ''r1'') (js ''k1'') (js ''rank-0'') v2 = (Inr chunks, v3)
     \<and> rest_download_shard True (map ch_data chunks) = Ok [1, 2, 3]"
proof -
  obtain v1 where v1: "sample_upload = Some (Inr sample_res, v1)" using sample_uploaded_shard by blast
  obtain v2 where v2: "grpc_commit_checkpoint mem_s3 sample_to_json (js ''now'') (js ''r1'') (js ''k1'') 50 sample_shards [] v1 =
     ((True, manifest_key (js ''r1'') (js ''k1'')), v2)" using sample_committed_manifest by blast
  have p: "proto_shard (new_shard (js ''r1'') (js ''k1'') (js ''rank-0'') 0 sample_res) \<noteq> None"
    by (simp add: proto_shard_def new_shard_def sample_res_def)
  then have "find (\<lambda>y. ms_shard_id y = js ''rank-0'') sample_shards = proto_shard (new_shard (js ''r1'') (js ''k1'') (js ''rank-0'') 0 sample_res)"
    by (auto simp: sample_shards_def map_filter_simps proto_shard_def new_shard_def split: option.split if_splits)
  from upload_commit_download [OF mem_laws mem_reads _ _ _ _ v1 [unfolded sample_upload_def] this _ _ v2, of sample_from_json] p v1 v2 this
  show ?thesis
    by (auto simp: js_simps sample_service_def mem_obj_def sample_from_json_def sample_to_json_def sample_manifest_def split: if_splits)
qed

section \<open>Commits\<close>

text \<open>
  C39. A commit of a checkpoint that already has a manifest answers with success and changes nothing,
  whatever shards it lists: a shard that the stored manifest does not have stays unreadable although
  its commit was confirmed.
\<close>

theorem second_commit_ignored:
  assumes "s3_laws s3 obj upl" and "reads_answered s3 obj"
    and "obj (sv_store v) (manifest_key run_id k) = Some json" and "from_json json = Some m"
    and "sid \<notin> ms_shard_id ` set (mf_shards m)"
  shows "\<exists>v1 v2. grpc_commit_checkpoint s3 to_json now run_id k stp shards md v = ((True, manifest_key run_id k), v1)
    \<and> obj (sv_store v1) = obj (sv_store v)
    \<and> grpc_read_shard s3 from_json run_id k sid v1 = (Inl NotFound, v2)"
proof -
  obtain h s1 where h: "s3_head s3 (manifest_key run_id k) (sv_store v) = (h, s1)" by fastforce
  from read_answered(1) [OF assms(1,2) h] assms(3) have hs: "h" "obj s1 = obj (sv_store v)" by simp_all
  let ?v1 = "v\<lparr>sv_healthy := True, sv_store := s1\<rparr>"
  have "grpc_commit_checkpoint s3 to_json now run_id k stp shards md v = ((True, manifest_key run_id k), ?v1)"
    using h hs(1) by (simp add: grpc_commit_checkpoint_def write_manifest_def new_manifest_def object_exists_def Let_def)
  moreover have "find (\<lambda>x. ms_shard_id x = sid) (mf_shards m) = None" using assms(5) by (force simp: find_None_iff)
  moreover have json: "obj (sv_store ?v1) (manifest_key run_id k) = Some json" using assms(3) hs(2) by simp
  note rd = read_of_manifest [OF assms(1,2) json, of from_json m sid, OF assms(4)]
  ultimately show ?thesis using hs(2) by auto
qed

definition sample_committed_service :: "mem dp_service" where
  "sample_committed_service = sample_service\<lparr>sv_store := \<lparr>me_objects = [(manifest_key (js ''r1'') (js ''k1''), [7])], me_uploads = []\<rparr>\<rparr>"

theorem second_commit_ignored_witness:
  "\<exists>v1 v2. grpc_commit_checkpoint mem_s3 sample_to_json (js ''later'') (js ''r1'') (js ''k1'') 50 [] [] sample_committed_service =
       ((True, manifest_key (js ''r1'') (js ''k1'')), v1)
     \<and> grpc_read_shard mem_s3 sample_from_json (js ''r1'') (js ''k1'') (js ''rank-1'') v1 = (Inl NotFound, v2)"
proof -
  have stored: "mem_obj (sv_store sample_committed_service) (manifest_key (js ''r1'') (js ''k1'')) = Some [7]"
    by (simp add: sample_committed_service_def mem_obj_def)
  have json: "sample_from_json [7] = Some sample_manifest" by (simp add: sample_from_json_def)
  have "js ''rank-1'' \<notin> ms_shard_id ` set (mf_shards sample_manifest)"
    by (auto simp: sample_manifest_def new_manifest_def sample_shards_def map_filter_simps proto_shard_def new_shard_def js_simps split: if_splits option.splits)
  from second_commit_ignored [OF mem_laws mem_reads stored, of sample_from_json sample_manifest, OF json this] show ?thesis by blast
qed

end
