(* ===== verification/StorageUpkeep.thy ===== *)
theory StorageUpkeep
  imports ShardStore
begin

text \<open>
  Upkeep of the data plane: what a listing returns, what an abort deletes, and what the garbage collector does.
\<close>

section \<open>Listings\<close>

text \<open>
  A listing of the store comes in pages: \<open>pages\<close> and \<open>tok\<close> give the pages of a prefix and their tokens.
  A page is answered with the next token unless it is the last one, or with an error.
\<close>

type_synonym 's paging = "'s \<Rightarrow> jsstring \<Rightarrow> jsstring list list"

type_synonym 's tokens = "'s \<Rightarrow> jsstring \<Rightarrow> nat \<Rightarrow> jsstring option"

definition same_listing :: "'s objects \<Rightarrow> 's paging \<Rightarrow> 's tokens \<Rightarrow> 's \<Rightarrow> 's \<Rightarrow> bool" where
  "same_listing obj pages tok s s' = (obj s' = obj s \<and> pages s' = pages s \<and> tok s' = tok s)"

definition paging_laws :: "'s s3 \<Rightarrow> 's objects \<Rightarrow> 's paging \<Rightarrow> 's tokens \<Rightarrow> bool" where
  "paging_laws s3 obj pages tok =
     (\<forall>s pre. pages s pre \<noteq> [] \<and> distinct (concat (pages s pre))
        \<and> set (concat (pages s pre)) = {k. startsWith k pre \<and> obj s k \<noteq> None}
        \<and> tok s pre 0 = None
        \<and> (\<forall>i<length (pages s pre).
             same_listing obj pages tok s (snd (s3_list_page s3 pre (tok s pre i) s))
             \<and> (\<forall>page truncated next. fst (s3_list_page s3 pre (tok s pre i) s) = Some (page, truncated, next) \<longrightarrow>
                  page = pages s pre ! i \<and> truncated = (i + 1 < length (pages s pre))
                  \<and> (truncated \<longrightarrow> next = tok s pre (i + 1)))))"

lemma paging_page:
  assumes "paging_laws s3 obj pages tok" "i < length (pages s pre)" "s3_list_page s3 pre (tok s pre i) s = (r, s1)"
  shows "obj s1 = obj s" "pages s1 = pages s" "tok s1 = tok s" and "r = Some (page, truncated, next) \<Longrightarrow>
    page = pages s pre ! i \<and> truncated = (i + 1 < length (pages s pre)) \<and> (truncated \<longrightarrow> next = tok s pre (i + 1))"
proof -
  let ?a = "s3_list_page s3 pre (tok s pre i) s"
  from assms(1,2) have law: "same_listing obj pages tok s (snd ?a)"
    "\<And>page truncated next. fst ?a = Some (page, truncated, next) \<Longrightarrow>
       page = pages s pre ! i \<and> truncated = (i + 1 < length (pages s pre)) \<and> (truncated \<longrightarrow> next = tok s pre (i + 1))"
    unfolding paging_laws_def by blast+
  show "obj s1 = obj s" "pages s1 = pages s" "tok s1 = tok s" using law(1) assms(3) by (simp_all add: same_listing_def)
  show "r = Some (page, truncated, next) \<Longrightarrow>
    page = pages s pre ! i \<and> truncated = (i + 1 < length (pages s pre)) \<and> (truncated \<longrightarrow> next = tok s pre (i + 1))"
    using law(2) [of page truncated "next"] assms(3) by simp
qed

lemma list_pages_ok:
  assumes laws: "paging_laws s3 obj pages tok"
  shows "i < length (pages s pre) \<Longrightarrow>
    \<exists>r s1. list_pages s3 pre (tok s pre i) acc s = Some (r, s1) \<and> obj s1 = obj s
      \<and> (\<forall>keys. r = Some keys \<longrightarrow> keys = acc @ concat (drop i (pages s pre)))"
proof (induction "length (pages s pre) - i" arbitrary: i s acc rule: less_induct)
  case less
  obtain a s1 where a: "s3_list_page s3 pre (tok s pre i) s = (a, s1)" by fastforce
  note page = paging_page [OF laws less.prems a]
  show ?case
  proof (cases a)
    case None
    with a page(1) show ?thesis by (subst list_pages.simps) simp
  next
    case (Some t)
    obtain p tr nx where t: "t = (p, tr, nx)" by (cases t)
    note facts = page(4) [OF Some [unfolded t]]
    have drop: "drop i (pages s pre) = p # drop (Suc i) (pages s pre)" using less.prems facts by (simp add: Cons_nth_drop_Suc)
    show ?thesis
    proof (cases tr)
      case True
      with facts have "i + 1 < length (pages s1 pre)" "nx = tok s1 pre (i + 1)" by (simp_all add: page(2,3))
      with less.hyps [of s1 "i + 1" "acc @ p"] True a Some t drop show ?thesis
        by (subst list_pages.simps) (simp add: page(1,2) less_diff_conv)
    next
      case False
      with facts less.prems have "Suc i = length (pages s pre)" by simp
      with False a Some t drop page(1) show ?thesis by (subst list_pages.simps) simp
    qed
  qed
qed

lemma list_objects_ok:
  assumes laws: "paging_laws s3 obj pages tok"
  shows "\<exists>r s1. list_objects s3 pre s = Some (r, s1) \<and> obj s1 = obj s
    \<and> (\<forall>keys. r = Some keys \<longrightarrow> distinct keys \<and> set keys = {k. startsWith k pre \<and> obj s k \<noteq> None})"
proof -
  from laws have p: "pages s pre \<noteq> []" "distinct (concat (pages s pre))"
    "set (concat (pages s pre)) = {k. startsWith k pre \<and> obj s k \<noteq> None}" "tok s pre 0 = None"
    unfolding paging_laws_def by blast+
  from p(1) have "0 < length (pages s pre)" by blast
  from list_pages_ok [OF laws this, of "[]"] obtain r s1 where
    "list_pages s3 pre None [] s = Some (r, s1)" "obj s1 = obj s" "\<And>keys. r = Some keys \<Longrightarrow> keys = concat (pages s pre)"
    unfolding p(4) by auto
  with p(2,3) show ?thesis unfolding list_objects_def by (intro exI [of _ r] exI [of _ s1]) auto
qed

definition mem_pages :: "mem paging" where
  "mem_pages s pre = [filter (\<lambda>k. startsWith k pre) (remdups (map fst (me_objects s)))]"

definition mem_tok :: "mem tokens" where
  "mem_tok s pre i = None"

lemma mem_paging: "paging_laws mem_s3 mem_obj mem_pages mem_tok"
proof -
  have "(\<exists>d. map_of (me_objects s) k = Some d) \<longleftrightarrow> k \<in> fst ` set (me_objects s)" for s :: mem and k
    by (metis map_of_eq_None_iff not_None_eq)
  then show ?thesis
    by (auto simp: paging_laws_def same_listing_def mem_s3_def mem_obj_def mem_pages_def mem_tok_def image_iff
        dest: map_of_SomeD weak_map_of_SomeI)
qed

section \<open>Deletions\<close>

lemma delete_keys_ok:
  assumes laws: "s3_laws s3 obj upl" and d: "delete_keys s3 keep keys n s = (r, s')"
  shows "j \<notin> set keys \<or> keep j \<Longrightarrow> obj s' j = obj s j"
    and "obj s j = None \<Longrightarrow> r = Inr m \<Longrightarrow> obj s' j = None"
    and "r = Inr m \<Longrightarrow> j \<in> set keys \<Longrightarrow> \<not> keep j \<Longrightarrow> obj s' j = None"
    and "r = Inr m \<Longrightarrow> m = n + of_nat (length (filter (\<lambda>k. \<not> keep k) keys))"
proof -
  have "(j \<notin> set keys \<or> keep j \<longrightarrow> obj s' j = obj s j) \<and> (obj s j = None \<longrightarrow> r = Inr m \<longrightarrow> obj s' j = None)
    \<and> (r = Inr m \<longrightarrow> j \<in> set keys \<longrightarrow> \<not> keep j \<longrightarrow> obj s' j = None)
    \<and> (r = Inr m \<longrightarrow> m = n + of_nat (length (filter (\<lambda>k. \<not> keep k) keys)))"
    using d
  proof (induction keys arbitrary: n s)
    case (Cons k keys)
    show ?case
    proof (cases "keep k")
      case True
      with Cons show ?thesis by auto
    next
      case False
      obtain ok s1 where k: "s3_delete s3 k s = (ok, s1)" by fastforce
      with s3_delete_law [OF laws, where k = k and s = s] have
        s1: "\<And>j. j \<noteq> k \<Longrightarrow> obj s1 j = obj s j" "ok \<Longrightarrow> obj s1 k = None" by (auto simp: only_changes_def)
      show ?thesis
      proof (cases ok)
        case True
        with Cons.prems k False have "delete_keys s3 keep keys (n + 1) s1 = (r, s')" by simp
        from Cons.IH [OF this] s1 True False show ?thesis by (cases "j = k") auto
      next
        case stop: False
        with Cons.prems k False have "r = Inl S3Error" "s' = s1" by auto
        with s1(1) [of j] False show ?thesis by (cases "j = k") auto
      qed
    qed
  qed auto
  then show "j \<notin> set keys \<or> keep j \<Longrightarrow> obj s' j = obj s j" "obj s j = None \<Longrightarrow> r = Inr m \<Longrightarrow> obj s' j = None"
    "r = Inr m \<Longrightarrow> j \<in> set keys \<Longrightarrow> \<not> keep j \<Longrightarrow> obj s' j = None"
    "r = Inr m \<Longrightarrow> m = n + of_nat (length (filter (\<lambda>k. \<not> keep k) keys))" by blast+
qed

lemma abort_effect:
  assumes "s3_laws s3 obj upl" and "paging_laws s3 obj pages tok"
  shows "\<exists>r v1. grpc_abort_checkpoint s3 run_id k v = Some (r, v1)
    \<and> (\<forall>j. \<not> startsWith j (run_id @ js ''/'' @ k @ js ''/'') \<or> is_manifest_key j \<longrightarrow> obj (sv_store v1) j = obj (sv_store v) j)
    \<and> (\<forall>n. r = Inr n \<longrightarrow>
         (\<forall>j. startsWith j (run_id @ js ''/'' @ k @ js ''/'') \<longrightarrow> \<not> is_manifest_key j \<longrightarrow> obj (sv_store v1) j = None)
         \<and> n = of_nat (card {j. startsWith j (run_id @ js ''/'' @ k @ js ''/'') \<and> \<not> is_manifest_key j \<and> obj (sv_store v) j \<noteq> None}))"
proof -
  let ?pre = "run_id @ js ''/'' @ k @ js ''/''" and ?s = "sv_store v"
  from list_objects_ok [OF assms(2), of ?pre ?s] obtain r s1 where
    l: "list_objects s3 ?pre ?s = Some (r, s1)" "obj s1 = obj ?s"
      "\<And>keys. r = Some keys \<Longrightarrow> distinct keys \<and> set keys = {j. startsWith j ?pre \<and> obj ?s j \<noteq> None}" by blast
  show ?thesis
  proof (cases r)
    case None
    with l show ?thesis by (simp add: grpc_abort_checkpoint_def delete_checkpoint_shards_def)
  next
    case (Some keys)
    obtain a s2 where d: "delete_keys s3 is_manifest_key keys 0 s1 = (a, s2)" by fastforce
    note del = delete_keys_ok [OF assms(1) d, unfolded l(2)]
    note keys = l(3) [OF Some]
    have abort: "\<exists>q. grpc_abort_checkpoint s3 run_id k v = Some (q, v\<lparr>sv_store := s2\<rparr>) \<and> (\<forall>n. q = Inr n \<longleftrightarrow> a = Inr n)"
      using l(1) Some d by (cases a) (simp_all add: grpc_abort_checkpoint_def delete_checkpoint_shards_def)
    have "obj s2 j = obj ?s j" if "\<not> startsWith j ?pre \<or> is_manifest_key j" for j
      using del(1) [of j] that keys by auto
    moreover have "obj s2 j = None" if "a = Inr n" "startsWith j ?pre" "\<not> is_manifest_key j" for n j
      using del(2) [of j n] del(3) [of n j] that keys by (cases "obj ?s j") auto
    moreover have "n = of_nat (card {j. startsWith j ?pre \<and> \<not> is_manifest_key j \<and> obj ?s j \<noteq> None})" if "a = Inr n" for n
    proof -
      have "set (filter (\<lambda>k. \<not> is_manifest_key k) keys) = {j. startsWith j ?pre \<and> \<not> is_manifest_key j \<and> obj ?s j \<noteq> None}" using keys by auto
      with distinct_card [of "filter (\<lambda>k. \<not> is_manifest_key k) keys"] keys del(4) [OF that] show ?thesis by simp
    qed
    ultimately show ?thesis using abort by fastforce
  qed
qed

text \<open>
  C22. Aborting a checkpoint always returns. It never touches objects outside the prefix of the checkpoint, nor
  its manifest; when it answers with success every other object of the checkpoint is gone, and the
  answer is their number.
\<close>

theorem abort_deletes_shards:
  assumes "s3_laws s3 obj upl" and "paging_laws s3 obj pages tok"
  shows "\<exists>r v1. grpc_abort_checkpoint s3 run_id k v = Some (r, v1)
    \<and> (\<forall>j. \<not> startsWith j (run_id @ js ''/'' @ k @ js ''/'') \<or> is_manifest_key j \<longrightarrow> obj (sv_store v1) j = obj (sv_store v) j)
    \<and> (\<forall>n. r = Inr n \<longrightarrow>
         (\<forall>j. startsWith j (run_id @ js ''/'' @ k @ js ''/'') \<longrightarrow> \<not> is_manifest_key j \<longrightarrow> obj (sv_store v1) j = None)
         \<and> n = of_nat (card {j. startsWith j (run_id @ js ''/'' @ k @ js ''/'') \<and> \<not> is_manifest_key j \<and> obj (sv_store v) j \<noteq> None}))"
  by (rule abort_effect [OF assms])

definition sample_full_service :: "mem dp_service" where
  "sample_full_service = sample_service\<lparr>sv_store :=
     \<lparr>me_objects = [(js ''r1/k1/a.bin'', [1]), (manifest_key (js ''r1'') (js ''k1''), [7]), (js ''r1/k2/a.bin'', [2])], me_uploads = []\<rparr>\<rparr>"

theorem abort_deletes_shards_witness:
  "\<exists>r v1. grpc_abort_checkpoint mem_s3 (js ''r1'') (js ''k1'') sample_full_service = Some (r, v1)
     \<and> mem_obj (sv_store v1) (js ''r1/k2/a.bin'') = Some [2] \<and> mem_obj (sv_store v1) (manifest_key (js ''r1'') (js ''k1'')) = Some [7]"
proof -
  have k: "\<not> startsWith (js ''r1/k2/a.bin'') (js ''r1'' @ js ''/'' @ js ''k1'' @ js ''/'')"
    "is_manifest_key (manifest_key (js ''r1'') (js ''k1''))"
    by (simp_all add: js_simps startsWith_def is_manifest_key_def manifest_key_def endsWith_def)
  have o: "mem_obj (sv_store sample_full_service) (js ''r1/k2/a.bin'') = Some [2]"
    "mem_obj (sv_store sample_full_service) (manifest_key (js ''r1'') (js ''k1'')) = Some [7]"
    by (simp_all add: sample_full_service_def mem_obj_def js_simps manifest_key_def)
  from abort_deletes_shards [OF mem_laws mem_paging, of "js ''r1''" "js ''k1''" sample_full_service] obtain r v1 where
    "grpc_abort_checkpoint mem_s3 (js ''r1'') (js ''k1'') sample_full_service = Some (r, v1)"
    and kept: "\<And>j. \<not> startsWith j (js ''r1'' @ js ''/'' @ js ''k1'' @ js ''/'') \<or> is_manifest_key j \<Longrightarrow>
      mem_obj (sv_store v1) j = mem_obj (sv_store sample_full_service) j" by blast
  moreover note kept [OF disjI1, OF k(1)] kept [OF disjI2, OF k(2)]
  ultimately show ?thesis unfolding o by blast
qed

section \<open>Orphans\<close>

text \<open>The checkpoint of a key, its second component.\<close>

definition in_group :: "jsstring \<Rightarrow> jsstring \<Rightarrow> bool" where
  "in_group c key = (let parts = split_on (Ch (CHR ''/'')) key in 3 \<le> length parts \<and> parts ! 1 = c)"

lemma in_group_key:
  assumes "Ch (CHR ''/'') \<notin> set run_id" "Ch (CHR ''/'') \<notin> set c"
  shows "in_group d (run_id @ js ''/'' @ c @ js ''/'' @ rest) \<longleftrightarrow> d = c"
proof -
  have "split_on (Ch (CHR ''/'')) (run_id @ js ''/'' @ c @ js ''/'' @ rest) = run_id # c # split_on (Ch (CHR ''/'')) rest"
    using assms by (simp add: js_simps split_on_append)
  moreover have "1 \<le> length (split_on (Ch (CHR ''/'')) rest)" by (cases "split_on (Ch (CHR ''/'')) rest") auto
  ultimately show ?thesis by (auto simp: in_group_def)
qed

lemma add_to_group_lookup:
  "map_of (add_to_group k g) c = (if in_group c k then Some (given (map_of g c) [] @ [k]) else map_of g c)"
  "distinct (map fst g) \<Longrightarrow> distinct (map fst (add_to_group k g))"
  by (auto simp: add_to_group_def in_group_def Let_def update_conv' distinct_update)

lemma group_of_listing:
  "(c, ks) \<in> set (fold add_to_group keys []) \<longleftrightarrow> ks = filter (in_group c) keys \<and> ks \<noteq> []"
proof -
  have "distinct (map fst (fold add_to_group keys [])) \<and>
    map_of (fold add_to_group keys []) c = (if filter (in_group c) keys = [] then None else Some (filter (in_group c) keys))"
    by (induction keys rule: rev_induct) (simp_all add: add_to_group_lookup given_def)
  then show ?thesis using map_of_eq_Some_iff [of "fold add_to_group keys []" c ks] by (auto split: if_splits)
qed

definition orphaned :: "jsstring \<Rightarrow> (jsstring \<times> jsstring list) list \<Rightarrow> jsstring set" where
  "orphaned run_id groups = {j. \<exists>c keys. (c, keys) \<in> set groups \<and> manifest_key run_id c \<notin> set keys \<and> j \<in> set keys}"

lemma orphaned_step:
  "orphaned run_id [] = {}"
  "orphaned run_id ((c, keys) # groups) =
     (if manifest_key run_id c \<in> set keys then orphaned run_id groups else set keys \<union> orphaned run_id groups)"
  by (auto simp: orphaned_def)

lemma delete_orphans_ok:
  assumes laws: "s3_laws s3 obj upl" and d: "delete_orphans s3 run_id groups n s = (r, s')"
  shows "(j \<notin> orphaned run_id groups \<longrightarrow> obj s' j = obj s j)
    \<and> (r = Inr m \<longrightarrow> obj s j = None \<or> j \<in> orphaned run_id groups \<longrightarrow> obj s' j = None)"
  using d
proof (induction groups arbitrary: n s)
  case (Cons g groups)
  obtain c keys where g: "g = (c, keys)" by fastforce
  show ?case
  proof (cases "manifest_key run_id c \<in> set keys")
    case True
    with Cons.prems g have "delete_orphans s3 run_id groups n s = (r, s')" by simp
    from Cons.IH [OF this] True g show ?thesis by (simp only: orphaned_step if_True)
  next
    case False
    obtain a s1 where a: "delete_keys s3 (\<lambda>_. False) keys n s = (a, s1)" by fastforce
    note del = delete_keys_ok [OF laws a]
    show ?thesis
    proof (cases a)
      case (Inl e)
      with Cons.prems g False a have "r = Inl e" "s' = s1" by simp_all
      with del(1) g False show ?thesis by (simp add: orphaned_step)
    next
      case (Inr n1)
      with Cons.prems g False a have "delete_orphans s3 run_id groups n1 s1 = (r, s')" by simp
      from Cons.IH [OF this] del(1) [of j] del(2) [of j n1] del(3) [of n1 j] Inr g False show ?thesis
        by (auto simp: orphaned_step)
    qed
  qed
qed (simp add: orphaned_step)

lemma orphaned_groups:
  assumes "Ch (CHR ''/'') \<notin> set run_id" "Ch (CHR ''/'') \<notin> set c" "set groups = set (fold add_to_group keys [])"
  shows "run_id @ js ''/'' @ c @ js ''/'' @ rest \<in> orphaned run_id groups \<longleftrightarrow>
    run_id @ js ''/'' @ c @ js ''/'' @ rest \<in> set keys \<and> manifest_key run_id c \<notin> set keys"
proof -
  let ?j = "run_id @ js ''/'' @ c @ js ''/'' @ rest"
  have iff: "(d, ks) \<in> set groups \<longleftrightarrow> ks = filter (in_group d) keys \<and> ks \<noteq> []" for d ks
    by (simp only: assms(3) group_of_listing)
  have "in_group c (manifest_key run_id c)"
    using in_group_key [OF assms(1,2), of c "js ''_manifest.json''"] by (simp add: manifest_key_def js_simps)
  moreover have "in_group d ?j \<longleftrightarrow> d = c" for d by (rule in_group_key [OF assms(1,2)])
  ultimately show ?thesis unfolding orphaned_def iff by (auto simp: filter_empty_conv)
qed

lemma orphaned_listed:
  assumes "set groups = set (fold add_to_group keys [])"
  shows "orphaned run_id groups \<subseteq> set keys"
  unfolding orphaned_def assms group_of_listing by auto

text \<open>
  C21. The collection of orphans always returns. It never touches a checkpoint that has a manifest, nor another
  run; when it answers with success, nothing is left of a checkpoint without a manifest.
\<close>

theorem collect_orphans_safe:
  assumes "s3_laws s3 obj upl" and "paging_laws s3 obj pages tok" and "Ch (CHR ''/'') \<notin> set run_id"
    and "\<forall>groups. mset (arrange groups) = mset groups"
  shows "\<exists>r s1. collect_orphans s3 arrange run_id s = Some (r, s1)
    \<and> (\<forall>j. \<not> startsWith j (run_id @ js ''/'') \<longrightarrow> obj s1 j = obj s j)
    \<and> (\<forall>c rest. Ch (CHR ''/'') \<notin> set c \<longrightarrow> obj s (manifest_key run_id c) \<noteq> None \<longrightarrow>
         obj s1 (run_id @ js ''/'' @ c @ js ''/'' @ rest) = obj s (run_id @ js ''/'' @ c @ js ''/'' @ rest))
    \<and> (\<forall>n c rest. r = Inr n \<longrightarrow> Ch (CHR ''/'') \<notin> set c \<longrightarrow> obj s (manifest_key run_id c) = None \<longrightarrow>
         obj s1 (run_id @ js ''/'' @ c @ js ''/'' @ rest) = None)"
proof -
  let ?pre = "run_id @ js ''/''"
  from list_objects_ok [OF assms(2), of ?pre s] obtain r s1 where
    l: "list_objects s3 ?pre s = Some (r, s1)" "obj s1 = obj s"
      "\<And>keys. r = Some keys \<Longrightarrow> distinct keys \<and> set keys = {j. startsWith j ?pre \<and> obj s j \<noteq> None}" by blast
  show ?thesis
  proof (cases r)
    case None
    with l show ?thesis by (simp add: collect_orphans_def)
  next
    case (Some keys)
    let ?groups = "arrange (fold add_to_group keys [])"
    have groups: "set ?groups = set (fold add_to_group keys [])" using assms(4) by (metis set_mset_mset)
    obtain a s2 where d: "delete_orphans s3 run_id ?groups 0 s1 = (a, s2)" by fastforce
    note del = delete_orphans_ok [OF assms(1) d, unfolded l(2)]
    have keys: "j \<in> set keys \<longleftrightarrow> startsWith j ?pre \<and> obj s j \<noteq> None" for j using l(3) [OF Some] by auto
    have under: "startsWith (run_id @ js ''/'' @ rest) ?pre" for rest by (simp add: startsWith_def)
    have mk: "manifest_key run_id c \<in> set keys \<longleftrightarrow> obj s (manifest_key run_id c) \<noteq> None" for c
      by (simp add: keys manifest_key_def under)
    have other: "obj s2 j = obj s j" if "\<not> startsWith j ?pre" for j
      using del [of j] orphaned_listed [OF groups, of run_id] that keys [of j] by auto
    have kept: "obj s2 (run_id @ js ''/'' @ c @ js ''/'' @ rest) = obj s (run_id @ js ''/'' @ c @ js ''/'' @ rest)"
      if "Ch (CHR ''/'') \<notin> set c" "obj s (manifest_key run_id c) \<noteq> None" for c rest
      using del orphaned_groups [OF assms(3) that(1) groups, of rest] mk that(2) by blast
    have gone: "obj s2 (run_id @ js ''/'' @ c @ js ''/'' @ rest) = None"
      if "a = Inr n" "Ch (CHR ''/'') \<notin> set c" "obj s (manifest_key run_id c) = None" for n c rest
    proof -
      let ?j = "run_id @ js ''/'' @ c @ js ''/'' @ rest"
      from orphaned_groups [OF assms(3) that(2) groups, of rest] mk that(3) keys [of ?j] under [of "c @ js ''/'' @ rest"]
      have "obj s ?j = None \<or> ?j \<in> orphaned run_id ?groups" by blast
      with del [of ?j n] that(1) show ?thesis by blast
    qed
    have "collect_orphans s3 arrange run_id s = Some (a, s2)" using l(1) Some d by (simp add: collect_orphans_def)
    with other kept gone show ?thesis by blast
  qed
qed

theorem collect_orphans_safe_witness:
  "\<exists>r s1. collect_orphans mem_s3 (\<lambda>groups. groups) (js ''r1'') (sv_store sample_full_service) = Some (r, s1)
     \<and> mem_obj s1 (js ''r1/k1/a.bin'') = Some [1]"
proof -
  have ns: "Ch (CHR ''/'') \<notin> set (js ''r1'')" "Ch (CHR ''/'') \<notin> set (js ''k1'')" by (simp_all add: js_simps)
  have "\<exists>r s1. collect_orphans mem_s3 (\<lambda>groups. groups) (js ''r1'') (sv_store sample_full_service) = Some (r, s1)
    \<and> (mem_obj (sv_store sample_full_service) (manifest_key (js ''r1'') (js ''k1'')) \<noteq> None \<longrightarrow>
        mem_obj s1 (js ''r1'' @ js ''/'' @ js ''k1'' @ js ''/'' @ js ''a.bin'') =
        mem_obj (sv_store sample_full_service) (js ''r1'' @ js ''/'' @ js ''k1'' @ js ''/'' @ js ''a.bin''))"
    using collect_orphans_safe [OF mem_laws mem_paging ns(1), of "\<lambda>groups. groups" "sv_store sample_full_service"] ns(2) by blast
  then show ?thesis by (simp add: sample_full_service_def mem_obj_def manifest_key_def js_simps)
qed

end
