(* ===== verification/Admission.thy ===== *)
theory Admission
  imports DataPlane
begin

text \<open>
  Concurrent write requests at the data plane, \<open>grpc_service.rs\<close> and \<open>backpressure.rs\<close>, and the bounds of the
  retry policy of \<open>retry.rs\<close>.

  The handler reads the counter and increments it in two atomic steps, without waiting in between, on
  one of the threads of the runtime. From then on it waits for the stream, the writer and the store. It
  decrements the counter on every path that returns; but when the caller goes away the runtime drops the
  handler where it waits, and nothing decrements the counter.
\<close>

section \<open>The counter under concurrent requests\<close>

text \<open>The counter, the requests between its test and its increment, those that wait, and those dropped while waiting.\<close>

record admission =
  ad_depth :: nat
  ad_tested :: nat
  ad_running :: nat
  ad_dropped :: nat

definition no_requests :: admission where
  "no_requests = \<lparr>ad_depth = 0, ad_tested = 0, ad_running = 0, ad_dropped = 0\<rparr>"

definition depth_full :: "nat \<Rightarrow> admission \<Rightarrow> bool" where
  "depth_full max_depth a = (max_depth \<le> ad_depth a)"

definition increment :: "admission \<Rightarrow> admission" where
  "increment a = a\<lparr>ad_depth := ad_depth a + 1, ad_tested := ad_tested a - 1, ad_running := ad_running a + 1\<rparr>"

definition decrement :: "admission \<Rightarrow> admission" where
  "decrement a = a\<lparr>ad_depth := ad_depth a - 1, ad_running := ad_running a - 1\<rparr>"

inductive request_step :: "nat \<Rightarrow> nat \<Rightarrow> admission \<Rightarrow> admission \<Rightarrow> bool" for max_depth threads where
  refuse: "depth_full max_depth a \<Longrightarrow> request_step max_depth threads a a"
| test: "\<not> depth_full max_depth a \<Longrightarrow> ad_tested a < threads \<Longrightarrow>
    request_step max_depth threads a (a\<lparr>ad_tested := ad_tested a + 1\<rparr>)"
| start: "0 < ad_tested a \<Longrightarrow> request_step max_depth threads a (increment a)"
| return: "0 < ad_running a \<Longrightarrow> request_step max_depth threads a (decrement a)"
| drop_handler: "0 < ad_running a \<Longrightarrow>
    request_step max_depth threads a (a\<lparr>ad_running := ad_running a - 1, ad_dropped := ad_dropped a + 1\<rparr>)"

inductive_cases request_step_cases: "request_step max_depth threads a b"

abbreviation requests :: "nat \<Rightarrow> nat \<Rightarrow> admission \<Rightarrow> admission \<Rightarrow> bool" where
  "requests max_depth threads \<equiv> (request_step max_depth threads)\<^sup>*\<^sup>*"

text \<open>The counter is the number of waiting and dropped requests, and the threads bound how far it overshoots.\<close>

definition admission_inv :: "nat \<Rightarrow> nat \<Rightarrow> admission \<Rightarrow> bool" where
  "admission_inv max_depth threads a =
     (ad_depth a = ad_running a + ad_dropped a
      \<and> (max_depth = 0 \<longrightarrow> ad_depth a + ad_tested a = 0)
      \<and> (0 < max_depth \<longrightarrow> ad_depth a + ad_tested a < max_depth + threads))"

lemmas admission_defs = admission_inv_def depth_full_def increment_def decrement_def

lemma request_step_inv:
  "request_step max_depth threads a b \<Longrightarrow> admission_inv max_depth threads a \<Longrightarrow> admission_inv max_depth threads b"
  by (erule request_step_cases) (auto simp: admission_defs)

lemma requests_inv:
  "requests max_depth threads a b \<Longrightarrow> admission_inv max_depth threads a \<Longrightarrow> admission_inv max_depth threads b"
  by (induction rule: rtranclp_induct) (auto intro: request_step_inv)

lemma no_requests_inv: "0 < threads \<Longrightarrow> admission_inv max_depth threads no_requests"
  by (simp add: admission_inv_def no_requests_def)

lemma requests_dropped: "requests max_depth threads a b \<Longrightarrow> ad_dropped a \<le> ad_dropped b"
proof (induction rule: rtranclp_induct)
  case (step b c)
  from step.hyps(2) have "ad_dropped b \<le> ad_dropped c" by cases (auto simp: admission_defs)
  with step.IH show ?case by simp
qed simp

section \<open>Reaching the bounds\<close>

lemma test_many:
  "ad_depth a < max_depth \<Longrightarrow> ad_tested a + n \<le> threads \<Longrightarrow> requests max_depth threads a (a\<lparr>ad_tested := ad_tested a + n\<rparr>)"
proof (induction n)
  case (Suc n)
  then have "requests max_depth threads a (a\<lparr>ad_tested := ad_tested a + n\<rparr>)" by simp
  moreover have "request_step max_depth threads (a\<lparr>ad_tested := ad_tested a + n\<rparr>) (a\<lparr>ad_tested := ad_tested a + Suc n\<rparr>)"
    using request_step.test [of max_depth "a\<lparr>ad_tested := ad_tested a + n\<rparr>" threads] Suc.prems by (simp add: depth_full_def)
  ultimately show ?case by simp
qed simp

lemma start_many:
  "requests max_depth threads \<lparr>ad_depth = d, ad_tested = n, ad_running = r, ad_dropped = k\<rparr>
     \<lparr>ad_depth = d + n, ad_tested = 0, ad_running = r + n, ad_dropped = k\<rparr>"
proof (induction n arbitrary: d r)
  case (Suc n)
  have "request_step max_depth threads \<lparr>ad_depth = d, ad_tested = Suc n, ad_running = r, ad_dropped = k\<rparr>
    \<lparr>ad_depth = Suc d, ad_tested = n, ad_running = Suc r, ad_dropped = k\<rparr>"
    using request_step.start [of "\<lparr>ad_depth = d, ad_tested = Suc n, ad_running = r, ad_dropped = k\<rparr>" max_depth threads]
    by (simp add: increment_def)
  with Suc.IH [of "Suc d" "Suc r"] show ?case by (simp add: converse_rtranclp_into_rtranclp)
qed simp

lemma drop_many:
  "requests max_depth threads \<lparr>ad_depth = d, ad_tested = t, ad_running = n, ad_dropped = k\<rparr>
     \<lparr>ad_depth = d, ad_tested = t, ad_running = 0, ad_dropped = k + n\<rparr>"
proof (induction n arbitrary: k)
  case (Suc n)
  have "request_step max_depth threads \<lparr>ad_depth = d, ad_tested = t, ad_running = Suc n, ad_dropped = k\<rparr>
    \<lparr>ad_depth = d, ad_tested = t, ad_running = n, ad_dropped = Suc k\<rparr>"
    using request_step.drop_handler [of "\<lparr>ad_depth = d, ad_tested = t, ad_running = Suc n, ad_dropped = k\<rparr>" max_depth threads] by simp
  with Suc.IH [of "Suc k"] show ?case by (simp add: converse_rtranclp_into_rtranclp)
qed simp

lemma fill_one_by_one:
  "0 < threads \<Longrightarrow> n \<le> max_depth \<Longrightarrow>
   requests max_depth threads no_requests \<lparr>ad_depth = n, ad_tested = 0, ad_running = n, ad_dropped = 0\<rparr>"
proof (induction n)
  case (Suc n)
  let ?a = "\<lparr>ad_depth = n, ad_tested = 0, ad_running = n, ad_dropped = 0\<rparr>"
  have "requests max_depth threads ?a \<lparr>ad_depth = n, ad_tested = 1, ad_running = n, ad_dropped = 0\<rparr>"
    using test_many [of ?a max_depth 1 threads] Suc.prems by simp
  also have "requests max_depth threads \<dots> \<lparr>ad_depth = n + 1, ad_tested = 0, ad_running = n + 1, ad_dropped = 0\<rparr>" by (rule start_many)
  finally show ?case using Suc by simp
qed (simp add: no_requests_def)

text \<open>
  C23. The limit of the queue holds up to the number of threads: with a limit of at least one, never more than
  the limit plus the threads less one requests are in progress, and that many can be, because the
  test of the counter and its increment are two steps. One thread keeps the limit exactly.
\<close>

theorem backpressure_bound:
  assumes "0 < max_depth" and "0 < threads"
  shows "(\<forall>a. requests max_depth threads no_requests a \<longrightarrow> ad_running a \<le> ad_depth a \<and> ad_depth a \<le> max_depth + threads - 1)
    \<and> (\<exists>a. requests max_depth threads no_requests a \<and> ad_running a = max_depth + threads - 1)"
proof (intro conjI allI impI)
  fix a
  assume "requests max_depth threads no_requests a"
  from requests_inv [OF this no_requests_inv [OF assms(2)]] assms(1)
  show "ad_running a \<le> ad_depth a" "ad_depth a \<le> max_depth + threads - 1" by (auto simp: admission_inv_def)
next
  let ?n = "max_depth - 1"
  let ?a = "\<lparr>ad_depth = ?n, ad_tested = 0, ad_running = ?n, ad_dropped = 0\<rparr>"
  have "requests max_depth threads no_requests ?a" by (rule fill_one_by_one) (use assms in auto)
  also have "requests max_depth threads \<dots> \<lparr>ad_depth = ?n, ad_tested = threads, ad_running = ?n, ad_dropped = 0\<rparr>"
    using test_many [of ?a max_depth threads threads] assms by simp
  also have "requests max_depth threads \<dots> \<lparr>ad_depth = ?n + threads, ad_tested = 0, ad_running = ?n + threads, ad_dropped = 0\<rparr>"
    by (rule start_many)
  finally show "\<exists>a. requests max_depth threads no_requests a \<and> ad_running a = max_depth + threads - 1"
    using assms(1) by (intro exI conjI) (assumption, simp)
qed

theorem backpressure_bound_witness:
  "\<exists>a. requests 32 4 no_requests a \<and> ad_running a = 35"
  using backpressure_bound [of 32 4] by simp

text \<open>
  C38. Requests that are dropped while they wait use up the queue for good: once as many as its limit were
  dropped, the state is such that every later request is refused, although none is running, and
  that state can be reached.
\<close>

theorem backpressure_leak:
  assumes "0 < threads"
  shows "(\<forall>a b. requests max_depth threads no_requests a \<longrightarrow> max_depth \<le> ad_dropped a \<longrightarrow> requests max_depth threads a b \<longrightarrow>
       depth_full max_depth b)
    \<and> (\<exists>a. requests max_depth threads no_requests a \<and> ad_dropped a = max_depth \<and> ad_running a = 0 \<and> ad_tested a = 0)"
proof (intro conjI allI impI)
  fix a b
  assume a: "requests max_depth threads no_requests a" "max_depth \<le> ad_dropped a" "requests max_depth threads a b"
  from requests_inv [OF rtranclp_trans [OF a(1,3)] no_requests_inv [OF assms]] requests_dropped [OF a(3)] a(2)
  show "depth_full max_depth b" by (simp add: admission_defs)
next
  have "requests max_depth threads no_requests \<lparr>ad_depth = max_depth, ad_tested = 0, ad_running = max_depth, ad_dropped = 0\<rparr>"
    by (rule fill_one_by_one) (use assms in auto)
  also have "requests max_depth threads \<dots> \<lparr>ad_depth = max_depth, ad_tested = 0, ad_running = 0, ad_dropped = 0 + max_depth\<rparr>"
    by (rule drop_many)
  finally show "\<exists>a. requests max_depth threads no_requests a \<and> ad_dropped a = max_depth \<and> ad_running a = 0 \<and> ad_tested a = 0"
    by (intro exI conjI) (assumption, simp_all)
qed

theorem backpressure_leak_witness:
  "\<exists>a. requests 32 4 no_requests a \<and> ad_dropped a = 32 \<and> ad_running a = 0 \<and> ad_tested a = 0
     \<and> (\<forall>b. requests 32 4 a b \<longrightarrow> depth_full 32 b)"
  using backpressure_leak [of 4 32] by fastforce

section \<open>Retries\<close>

declare execute_from.simps [simp del]

text \<open>A jitter is drawn between zero and its argument.\<close>

lemma compute_delay_bounds:
  assumes "\<And>n. jitter n \<le> n"
  shows "capped_delay p k \<le> compute_delay p jitter k" "compute_delay p jitter k \<le> 45000"
proof -
  let ?c = "capped_delay p k"
  have "?c \<le> 30000" by (simp add: capped_delay_def)
  then have c: "unat ?c \<le> 30000" by (simp add: word_le_nat_alt)
  have j: "unat (jitter (?c div 2)) \<le> unat ?c div 2" using assms [of "?c div 2"] by (simp add: word_le_nat_alt unat_div)
  with c have s: "unat (compute_delay p jitter k) = unat ?c + unat (jitter (?c div 2))"
    by (simp add: compute_delay_def unat_word_ariths)
  show "?c \<le> compute_delay p jitter k" using s by (simp add: word_le_nat_alt)
  show "compute_delay p jitter k \<le> 45000" using s c j by (simp add: word_le_nat_alt)
qed

lemma execute_from_ok:
  "k \<le> unat (rp_max_attempts p) \<Longrightarrow>
   \<exists>n. k \<le> n \<and> n \<le> unat (rp_max_attempts p) \<and> (\<forall>i. k \<le> i \<longrightarrow> i < n \<longrightarrow> isl (answer i))
     \<and> (n < unat (rp_max_attempts p) \<longrightarrow> \<not> isl (answer n))
     \<and> execute_from p jitter k answer l = Some (answer n, n, map (\<lambda>i. compute_delay p jitter (of_nat i)) [k..<n])"
proof (induction p jitter k answer l rule: execute_from.induct)
  case (1 p jitter k answer l)
  show ?case
  proof (cases "answer k")
    case (Inr x)
    with "1.prems" show ?thesis by (intro exI [of _ k]) (simp add: execute_from.simps [of p jitter k])
  next
    case (Inl e)
    show ?thesis
    proof (cases "k = unat (rp_max_attempts p)")
      case True
      then have "execute_from p jitter (k + 1) answer (Some e) = Some (Inl e, k, [])" by (subst execute_from.simps) simp
      with True Inl have "execute_from p jitter k answer l = Some (Inl e, k, [])" by (subst execute_from.simps) simp
      with True Inl show ?thesis by (intro exI [of _ k]) simp
    next
      case False
      with "1.prems" "1.IH" [OF _ Inl] obtain n where n: "k + 1 \<le> n" "n \<le> unat (rp_max_attempts p)"
        "\<forall>i. k + 1 \<le> i \<longrightarrow> i < n \<longrightarrow> isl (answer i)" "n < unat (rp_max_attempts p) \<longrightarrow> \<not> isl (answer n)"
        "execute_from p jitter (k + 1) answer (Some e) = Some (answer n, n, map (\<lambda>i. compute_delay p jitter (of_nat i)) [k + 1..<n])"
        by auto
      have "isl (answer i)" if "k \<le> i" "i < n" for i using n(3) that Inl by (cases "i = k") auto
      with n False Inl "1.prems" show ?thesis
        by (intro exI [of _ n]) (simp add: execute_from.simps [of p jitter k] upt_rec [of k n])
    qed
  qed
qed

text \<open>
  An operation that is retried is called between one and \<open>max_attempts\<close> times, until its first success,
  and its last answer is returned; before each retry at most 45 seconds are waited. A policy without
  attempts calls nothing and panics.
\<close>

theorem retry_bounds:
  assumes "\<forall>n. jitter n \<le> n"
  shows "if rp_max_attempts p = 0 then retry_execute p jitter answer = None
    else \<exists>n ds. retry_execute p jitter answer = Some (answer n, n, ds) \<and> 1 \<le> n \<and> n \<le> unat (rp_max_attempts p)
      \<and> (\<forall>i. 1 \<le> i \<longrightarrow> i < n \<longrightarrow> isl (answer i)) \<and> (n < unat (rp_max_attempts p) \<longrightarrow> \<not> isl (answer n))
      \<and> length ds = n - 1 \<and> (\<forall>d \<in> set ds. d \<le> 45000)"
proof (cases "rp_max_attempts p = 0")
  case True
  then show ?thesis by (simp add: retry_execute_def execute_from.simps)
next
  case False
  then have "1 \<le> unat (rp_max_attempts p)" by (simp add: unat_gt_0 Suc_le_eq)
  from execute_from_ok [OF this, of answer jitter None] obtain n where
    n: "1 \<le> n" "n \<le> unat (rp_max_attempts p)" "\<forall>i. 1 \<le> i \<longrightarrow> i < n \<longrightarrow> isl (answer i)"
      "n < unat (rp_max_attempts p) \<longrightarrow> \<not> isl (answer n)"
      "retry_execute p jitter answer = Some (answer n, n, map (\<lambda>i. compute_delay p jitter (of_nat i)) [1..<n])"
    unfolding retry_execute_def by blast
  moreover have "compute_delay p jitter k \<le> 45000" for k using compute_delay_bounds(2) assms by blast
  ultimately show ?thesis using False
    by (simp only: if_False)
      (intro exI [of _ n] exI [of _ "map (\<lambda>i. compute_delay p jitter (of_nat i)) [1..<n]"], simp)
qed

theorem retry_bounds_witness:
  "\<exists>n ds. retry_execute \<lparr>rp_max_attempts = 3, rp_base_ms = 100\<rparr> (\<lambda>n. 0) (\<lambda>i. if i < 3 then Inl i else Inr i) =
       Some (if n < 3 then Inl n else Inr n, n, ds) \<and> n \<le> 3 \<and> length ds = n - 1"
proof -
  have "\<forall>n. (0 :: 64 word) \<le> n" by simp
  from retry_bounds [OF this, of "\<lparr>rp_max_attempts = 3, rp_base_ms = 100\<rparr>" "\<lambda>i. if i < 3 then Inl i else Inr i"]
  show ?thesis by (simp split: if_splits) blast
qed

end
