(* ===== verification/Harness.thy ===== *)
theory Harness
  imports StorageUpkeep FleetSystem
begin

text \<open>
  The training harness, \<open>training-harness/train.py\<close>, on top of the control plane and the data plane: how
  rank 0 finds its run, saves and loads checkpoints through the SDK (\<open>sdk/client.py\<close>), and the training
  loop around them.

  The handlers of the control plane that call the data plane are composed with it here: the answer
  that was an argument in theory \<open>CheckpointApi\<close> is now what the data plane does. A call of the SDK whose
  answer is an error raises, and the requests of the harness run one after the other; connections that
  break are not modelled. The model and the optimizer are a value of any type: \<open>ser\<close> and \<open>deser\<close> are the
  serialisation of the tensor library and \<open>batch\<close> the update by a batch.
\<close>

section \<open>Control plane and data plane together\<close>

text \<open>What both planes are given: the store, hashes, JSON and the limit of the queue.\<close>

record 's env =
  en_s3 :: "'s s3"
  en_sha256 :: "bytes \<Rightarrow> jsstring"
  en_enc :: "jsstring \<Rightarrow> bytes"
  en_to_json :: "dp_manifest \<Rightarrow> bytes option"
  en_from_json :: "bytes \<Rightarrow> dp_manifest option"
  en_max_depth :: nat

text \<open>The control plane with its workers, and the data plane.\<close>

record 's world =
  wd_fleet :: fleet
  wd_dp :: "'s dp_service"

abbreviation wd_api :: "'s world \<Rightarrow> api" where
  "wd_api w \<equiv> fl_api (wd_fleet w)"

abbreviation with_api :: "api \<Rightarrow> 's world \<Rightarrow> 's world" where
  "with_api a w \<equiv> w\<lparr>wd_fleet := (wd_fleet w)\<lparr>fl_api := a\<rparr>\<rparr>"

text \<open>After a failed checkpoint was recorded, its partial objects are removed; the answer to that is only logged.\<close>

definition clean_up :: "'s env \<Rightarrow> jsstring \<Rightarrow> jsstring \<Rightarrow> 'a http \<times> api \<Rightarrow> 's world \<Rightarrow> ('a http \<times> 's world) option" where
  "clean_up e run_id checkpoint_id answer w =
     (case answer of (ans, a) \<Rightarrow>
        if ans = HttpError 502
        then map_option (\<lambda>(r, v). (ans, (with_api a w)\<lparr>wd_dp := v\<rparr>)) (grpc_abort_checkpoint (en_s3 e) run_id checkpoint_id (wd_dp w))
        else Some (ans, with_api a w))"

definition serve_upload ::
  "'s env \<Rightarrow> jsstring \<Rightarrow> jsstring \<Rightarrow> jsstring \<Rightarrow> jsstring \<Rightarrow> bytes \<Rightarrow> int option \<Rightarrow> int \<Rightarrow> 's world \<Rightarrow> (write_result http \<times> 's world) option" where
  "serve_upload e uuid run_id checkpoint_id shard_id body rank now w =
     (case upload_check True run_id checkpoint_id (length body) rank (wd_api w) of
        HttpError n \<Rightarrow> Some (HttpError n, w)
      | Ok r \<Rightarrow>
          (case grpc_write_shard (en_max_depth e) (en_s3 e) (en_sha256 e) (en_enc e) uuid
                  (map Inr (upload_chunks run_id checkpoint_id shard_id body)) (wd_dp w) of
             None \<Rightarrow> None
           | Some (answer, v) \<Rightarrow>
               clean_up e run_id checkpoint_id
                 (upload_finish run_id checkpoint_id shard_id r (case answer of Inl st \<Rightarrow> None | Inr res \<Rightarrow> Some res) now (wd_api w)) (w\<lparr>wd_dp := v\<rparr>)))"

text \<open>The call of the data plane raises when a number does not fit into the message.\<close>

definition commit_call ::
  "'s env \<Rightarrow> jsstring \<Rightarrow> jsstring \<Rightarrow> py_checkpoint \<Rightarrow> shard_info list \<Rightarrow> 's dp_service \<Rightarrow> bool option \<times> 's dp_service" where
  "commit_call e stamp run_id cp shards v =
     (case those (map proto_shard shards) of
        None \<Rightarrow> (None, v)
      | Some proto \<Rightarrow>
          if 0 \<le> pk_step cp \<and> pk_step cp < 2 ^ 64
          then (case grpc_commit_checkpoint (en_s3 e) (en_to_json e) stamp run_id (pk_checkpoint_id cp) (of_int (pk_step cp)) proto [] v of
                  ((ok, key), v1) \<Rightarrow> (Some ok, v1))
          else (None, v))"

definition serve_commit ::
  "'s env \<Rightarrow> jsstring \<Rightarrow> jsstring \<Rightarrow> real \<Rightarrow> int \<Rightarrow> 's world \<Rightarrow> (py_run http \<times> 's world) option" where
  "serve_commit e stamp run_id duration now w =
     (case commit_begin True run_id (wd_api w) of
        HttpError n \<Rightarrow> Some (HttpError n, w)
      | Ok (cp, shards) \<Rightarrow>
          (case commit_call e stamp run_id cp shards (wd_dp w) of
             (answer, v) \<Rightarrow> clean_up e run_id (pk_checkpoint_id cp) (commit_finish run_id cp answer duration now (wd_api w)) (w\<lparr>wd_dp := v\<rparr>)))"

text \<open>A status of the data plane is not handled, which is an internal error.\<close>

definition serve_download :: "'s env \<Rightarrow> jsstring \<Rightarrow> jsstring \<Rightarrow> jsstring \<Rightarrow> 's world \<Rightarrow> bytes http \<times> 's world" where
  "serve_download e run_id checkpoint_id shard_id w =
     (case grpc_read_shard (en_s3 e) (en_from_json e) run_id checkpoint_id shard_id (wd_dp w) of
        (Inl st, v) \<Rightarrow> (HttpError 500, w\<lparr>wd_dp := v\<rparr>)
      | (Inr chunks, v) \<Rightarrow> (rest_download_shard True (map ch_data chunks), w\<lparr>wd_dp := v\<rparr>))"

section \<open>Saving and loading\<close>

text \<open>What is drawn or read from clocks during a save: identifiers and times.\<close>

record save_input =
  si_checkpoint_id :: jsstring
  si_uuid :: jsstring
  si_stamp :: jsstring
  si_duration :: real
  si_now :: int

definition rank_shard :: "nat \<Rightarrow> jsstring" where
  "rank_shard rank = js ''rank-'' @ nat_str rank"

text \<open>The result is whether it returns; otherwise it raises. \<open>None\<close> is a call that never ends.\<close>

definition save_checkpoint_runtime ::
  "'s env \<Rightarrow> save_input \<Rightarrow> jsstring \<Rightarrow> nat \<Rightarrow> int \<Rightarrow> bytes \<Rightarrow> 's world \<Rightarrow> (bool \<times> 's world) option" where
  "save_checkpoint_runtime e i run_id rank stp shard_data w =
     (case rest_trigger_checkpoint (si_checkpoint_id i) run_id (Some stp) (si_now i) (wd_api w) of
        (HttpError n, a) \<Rightarrow> Some (False, with_api a w)
      | (Ok info, a) \<Rightarrow>
          (case serve_upload e (si_uuid i) run_id (pk_checkpoint_id info) (rank_shard rank) shard_data (Some (int rank)) (si_now i)
                  (with_api a w) of
             None \<Rightarrow> None
           | Some (HttpError n, w1) \<Rightarrow> Some (False, w1)
           | Some (Ok res, w1) \<Rightarrow>
               (case serve_commit e (si_stamp i) run_id (si_duration i) (si_now i) w1 of
                  None \<Rightarrow> None
                | Some (HttpError n, w2) \<Rightarrow> Some (False, w2)
                | Some (Ok status, w2) \<Rightarrow> Some (True, w2))))"

text \<open>The shard of the rank, and that of rank 0 when it cannot be loaded.\<close>

definition load_shard :: "'s env \<Rightarrow> jsstring \<Rightarrow> jsstring \<Rightarrow> nat \<Rightarrow> 's world \<Rightarrow> bytes option \<times> 's world" where
  "load_shard e run_id checkpoint_id rank w =
     (case serve_download e run_id checkpoint_id (rank_shard rank) w of
        (Ok data, w1) \<Rightarrow> (Some data, w1)
      | (HttpError n, w1) \<Rightarrow>
          if rank \<noteq> 0
          then (case serve_download e run_id checkpoint_id (js ''rank-0'') w1 of
                  (Ok data, w2) \<Rightarrow> (Some data, w2)
                | (HttpError n', w2) \<Rightarrow> (None, w2))
          else (None, w1))"

text \<open>The step to start from and the restored model; without a committed checkpoint the model stays as it is.\<close>

definition load_checkpoint_runtime ::
  "'s env \<Rightarrow> (bytes \<Rightarrow> 'm option) \<Rightarrow> jsstring \<Rightarrow> nat \<Rightarrow> 'm \<Rightarrow> 's world \<Rightarrow> (int \<times> 'm) option \<times> 's world" where
  "load_checkpoint_runtime e deser run_id rank model w =
     (case rest_list_checkpoints run_id (wd_api w) of
        HttpError n \<Rightarrow> (None, w)
      | Ok checkpoints \<Rightarrow>
          (case max_by pk_step (filter (\<lambda>cp. pk_state cp = ''COMMITTED'') checkpoints) of
             None \<Rightarrow> (Some (0, model), w)
           | Some latest \<Rightarrow>
               (case load_shard e run_id (pk_checkpoint_id latest) rank w of
                  (None, w1) \<Rightarrow> (None, w1)
                | (Some data, w1) \<Rightarrow> (map_option (Pair (pk_step latest)) (deser data), w1))))"

section \<open>Finding the run\<close>

definition with_live_worker_count :: "coordinator \<Rightarrow> py_run \<Rightarrow> coord_error + py_run" where
  "with_live_worker_count c status =
     (case coord_list_workers (Some (pr_run_id status)) c of
        Inl e \<Rightarrow> Inl e
      | Inr ws \<Rightarrow> Inr (status\<lparr>pr_active_workers := int (length (filter (\<lambda>x. pw_status x = ''ACTIVE'') ws))\<rparr>))"

definition rest_get_run :: "jsstring \<Rightarrow> api \<Rightarrow> py_run http" where
  "rest_get_run run_id a =
     (case coord_get_run run_id (ai_coord a) of
        Inl e \<Rightarrow> HttpError 500
      | Inr None \<Rightarrow> HttpError 404
      | Inr (Some status) \<Rightarrow>
          (case with_live_worker_count (ai_coord a) status of Inl e \<Rightarrow> HttpError 500 | Inr status' \<Rightarrow> Ok status'))"

definition RESUMABLE_RUN_STATES :: "RunState list" where
  "RESUMABLE_RUN_STATES = [RUNNING, COMMITTED, CHECKPOINTING, FAILED, RECOVERING]"

text \<open>What a process is started with: environment, identifiers that are drawn, and clocks.\<close>

record boot =
  bo_run_id :: jsstring
  bo_new_run_id :: jsstring
  bo_config :: py_config
  bo_worker_id :: jsstring
  bo_hostname :: jsstring
  bo_now :: int
  bo_clock :: real

text \<open>
  Unless the environment names the run, rank 0 reads the shared file, here \<open>shared\<close>, asks for the state of that run, resumes it when it can and else
  creates and starts a run. The result is the run, or \<open>None\<close> when it raises, with the new content of the file.
\<close>

definition start_new_run ::
  "jsstring \<Rightarrow> py_config \<Rightarrow> int \<Rightarrow> jsstring \<Rightarrow> api \<Rightarrow> jsstring option \<times> jsstring \<times> api" where
  "start_new_run new_id config now shared a =
     (case rest_create_run new_id config now a of
        (HttpError n, a1) \<Rightarrow> (None, shared, a1)
      | (Ok status, a1) \<Rightarrow>
          (case rest_start_run (pr_run_id status) now a1 of
             (HttpError n, a2) \<Rightarrow> (None, shared, a2)
           | (Ok status', a2) \<Rightarrow> (Some (pr_run_id status'), pr_run_id status', a2)))"

definition get_or_create_run_id :: "boot \<Rightarrow> jsstring \<Rightarrow> api \<Rightarrow> jsstring option \<times> jsstring \<times> api" where
  "get_or_create_run_id b shared a =
     (let create = start_new_run (bo_new_run_id b) (bo_config b) (bo_now b) shared
      in if bo_run_id b \<noteq> [] then (Some (bo_run_id b), shared, a)
         else if shared = [] then create a
         else
           (case rest_get_run shared a of
              HttpError n \<Rightarrow> if n = 404 then create a else (None, shared, a)
            | Ok status \<Rightarrow>
                if pr_state status \<in> set RESUMABLE_RUN_STATES
                then if pr_state status \<in> {FAILED, COMMITTED, CHECKPOINTING}
                     then (case rest_resume_run shared (bo_now b) a of
                             (Ok status', a1) \<Rightarrow> (Some shared, shared, a1)
                           | (HttpError n, a1) \<Rightarrow> if n = 404 then create a1 else (None, shared, a1))
                     else (Some shared, shared, a)
                else create a))"

text \<open>
  The other ranks look at the file once a second, at most 60 times; a list gives what they find there and
  the control plane at that time. A run that was refused once is not asked for again.
\<close>

fun await_run_id :: "jsstring \<Rightarrow> (jsstring \<times> api) list \<Rightarrow> jsstring option" where
  "await_run_id last_seen [] = None"
| "await_run_id last_seen ((shared, a) # polls) =
     (if shared \<noteq> [] \<and> shared \<noteq> last_seen
      then (case rest_get_run shared a of
              Ok status \<Rightarrow> if pr_state status \<in> set RESUMABLE_RUN_STATES then Some shared else await_run_id shared polls
            | HttpError n \<Rightarrow> await_run_id (if n = 404 then shared else last_seen) polls)
      else await_run_id last_seen polls)"

definition follow_run_id :: "boot \<Rightarrow> (jsstring \<times> api) list \<Rightarrow> jsstring option" where
  "follow_run_id b polls = (if bo_run_id b \<noteq> [] then Some (bo_run_id b) else await_run_id [] (take 60 polls))"

text \<open>The registration of the process, which gives its heartbeat thread.\<close>

definition join_run :: "boot \<Rightarrow> nat \<Rightarrow> jsstring \<Rightarrow> fleet \<Rightarrow> heartbeat_thread option \<times> fleet" where
  "join_run b rank run_id f =
     (case rest_register_worker (bo_worker_id b) run_id (bo_hostname b) (Some (int rank)) (bo_now b) (bo_clock b) f of
        (HttpError n, f1) \<Rightarrow> (None, f1)
      | (Ok w, f1) \<Rightarrow>
          (Some \<lparr>ht_worker_id = pw_worker_id w, ht_run_id = run_id, ht_hostname = bo_hostname b, ht_rank = int rank, ht_step = 0\<rparr>, f1))"

text \<open>Rank 0 up to the training loop: the run, the registration, the restored model, and the run running again.\<close>

definition start_training ::
  "'s env \<Rightarrow> (bytes \<Rightarrow> 'm option) \<Rightarrow> boot \<Rightarrow> 'm \<Rightarrow> jsstring \<Rightarrow> 's world \<Rightarrow>
   (jsstring \<times> heartbeat_thread \<times> int \<times> 'm) option \<times> jsstring \<times> 's world" where
  "start_training e deser b model shared w =
     (case get_or_create_run_id b shared (wd_api w) of
        (None, shared', a) \<Rightarrow> (None, shared', with_api a w)
      | (Some run_id, shared', a) \<Rightarrow>
          (case join_run b 0 run_id (wd_fleet (with_api a w)) of
             (None, f) \<Rightarrow> (None, shared', w\<lparr>wd_fleet := f\<rparr>)
           | (Some h, f) \<Rightarrow>
               (case load_checkpoint_runtime e deser run_id 0 model (w\<lparr>wd_fleet := f\<rparr>) of
                  (None, w1) \<Rightarrow> (None, shared', w1)
                | (Some (stp, m), w1) \<Rightarrow>
                    (case rest_resume_run run_id (bo_now b) (wd_api w1) of
                       (HttpError n, a2) \<Rightarrow> (None, shared', with_api a2 w1)
                     | (Ok status, a2) \<Rightarrow> (Some (run_id, h, stp, m), shared', with_api a2 w1)))))"

section \<open>The training loop\<close>

text \<open>
  The loop of rank 0: step, model, the step of the last successful checkpoint, the sum of the losses since
  the last line of the log, the number of batches so far, the heartbeat thread and the world. What happens
  during the \<open>i\<close>-th batch is given by the plan: the update, the loss, whether a stop was requested before it, the
  heartbeats that are sent before and after the step is counted, and the inputs of a save.
\<close>

record beat =
  be_heartbeat :: delivery
  be_register :: delivery
  be_new_id :: jsstring
  be_now :: int
  be_clock :: real

record ('s, 'm) trainer =
  tr_step :: nat
  tr_model :: 'm
  tr_last :: "nat option"
  tr_running_loss :: real
  tr_iter :: nat
  tr_thread :: heartbeat_thread
  tr_world :: "'s world"

record 'm plan =
  pl_run_id :: jsstring
  pl_steps :: nat
  pl_every :: nat
  pl_log_every :: nat
  pl_batches :: nat
  pl_ser :: "nat \<Rightarrow> real \<Rightarrow> 'm \<Rightarrow> bytes"
  pl_batch :: "nat \<Rightarrow> 'm \<Rightarrow> 'm"
  pl_loss :: "nat \<Rightarrow> real"
  pl_stop :: "nat \<Rightarrow> bool"
  pl_early_beats :: "nat \<Rightarrow> beat list"
  pl_late_beats :: "nat \<Rightarrow> beat list"
  pl_save :: "nat \<Rightarrow> save_input"
  pl_now :: int

fun heartbeats :: "beat list \<Rightarrow> heartbeat_thread \<Rightarrow> fleet \<Rightarrow> heartbeat_thread \<times> fleet" where
  "heartbeats [] h f = (h, f)"
| "heartbeats (b # bs) h f =
     (case send_heartbeat (be_heartbeat b) (be_register b) (be_new_id b) (be_now b) (be_clock b) h f of (h1, f1) \<Rightarrow> heartbeats bs h1 f1)"

definition beat_trainer :: "beat list \<Rightarrow> ('s, 'm) trainer \<Rightarrow> ('s, 'm) trainer" where
  "beat_trainer bs t =
     (case heartbeats bs (tr_thread t) (wd_fleet (tr_world t)) of
        (h, f) \<Rightarrow> t\<lparr>tr_thread := h, tr_world := (tr_world t)\<lparr>wd_fleet := f\<rparr>\<rparr>)"

text \<open>The state at the head of the loop.\<close>

definition loop_start :: "heartbeat_thread \<Rightarrow> nat \<Rightarrow> 'm \<Rightarrow> 's world \<Rightarrow> ('s, 'm) trainer" where
  "loop_start h start_step model w =
     \<lparr>tr_step = start_step, tr_model = model, tr_last = (if 0 < start_step then Some start_step else None), tr_running_loss = 0,
      tr_iter = 0, tr_thread = h, tr_world = w\<rparr>"

definition save_now :: "'s env \<Rightarrow> 'm plan \<Rightarrow> real \<Rightarrow> ('s, 'm) trainer \<Rightarrow> (bool \<times> ('s, 'm) trainer) option" where
  "save_now e p loss t =
     map_option (\<lambda>(ok, w). (ok, t\<lparr>tr_last := (if ok then Some (tr_step t) else tr_last t), tr_world := w\<rparr>))
       (save_checkpoint_runtime e (pl_save p (tr_iter t)) (pl_run_id p) 0 (int (tr_step t)) (pl_ser p (tr_step t) loss (tr_model t)) (tr_world t))"

text \<open>The optimizer step, the new step for the heartbeat thread, and the sum of the losses, which a line of the log resets.\<close>

definition count_step :: "'m plan \<Rightarrow> ('s, 'm) trainer \<Rightarrow> ('s, 'm) trainer" where
  "count_step p t =
     t\<lparr>tr_model := pl_batch p (tr_iter t) (tr_model t), tr_step := tr_step t + 1,
       tr_running_loss := (if (tr_step t + 1) mod pl_log_every p = 0 then 0 else tr_running_loss t + pl_loss p (tr_iter t)),
       tr_iter := tr_iter t + 1, tr_thread := (tr_thread t)\<lparr>ht_step := int (tr_step t + 1)\<rparr>\<rparr>"

text \<open>A batch up to the question whether a checkpoint is due, with the heartbeats that are sent meanwhile.\<close>

definition advance :: "'m plan \<Rightarrow> ('s, 'm) trainer \<Rightarrow> ('s, 'm) trainer" where
  "advance p t = beat_trainer (pl_late_beats p (tr_iter t)) (count_step p (beat_trainer (pl_early_beats p (tr_iter t)) t))"

text \<open>One batch; the result is whether the training goes on or an exception was raised.\<close>

definition train_batch :: "'s env \<Rightarrow> 'm plan \<Rightarrow> ('s, 'm) trainer \<Rightarrow> (bool \<times> ('s, 'm) trainer) option" where
  "train_batch e p t =
     (let t1 = advance p t
      in if pl_log_every p = 0 then Some (False, t1)
         else if 0 < pl_every p \<and> tr_step t1 mod pl_every p = 0 then save_now e p (pl_loss p (tr_iter t)) t1
         else Some (True, t1))"

definition keep_going :: "'m plan \<Rightarrow> ('s, 'm) trainer \<Rightarrow> bool" where
  "keep_going p t = (tr_step t < pl_steps p \<and> \<not> pl_stop p (tr_iter t))"

fun train_epoch :: "'s env \<Rightarrow> 'm plan \<Rightarrow> nat \<Rightarrow> ('s, 'm) trainer \<Rightarrow> (bool \<times> ('s, 'm) trainer) option" where
  "train_epoch e p 0 t = Some (True, t)"
| "train_epoch e p (Suc n) t =
     (if keep_going p t
      then (case train_batch e p t of
              None \<Rightarrow> None
            | Some (ok, t1) \<Rightarrow> if ok then train_epoch e p n t1 else Some (False, t1))
      else Some (True, t))"

partial_function (option) train_loop :: "'s env \<Rightarrow> 'm plan \<Rightarrow> ('s, 'm) trainer \<Rightarrow> (bool \<times> ('s, 'm) trainer) option" where
  "train_loop e p t =
     (if keep_going p t
      then (case train_epoch e p (pl_batches p) t of
              None \<Rightarrow> None
            | Some (ok, t1) \<Rightarrow> if ok then train_loop e p t1 else Some (False, t1))
      else Some (True, t))"

text \<open>The last checkpoint, unless the step was just saved, and the completion of the run, whose failure is only logged.\<close>

definition finish_training :: "'s env \<Rightarrow> 'm plan \<Rightarrow> ('s, 'm) trainer \<Rightarrow> (bool \<times> ('s, 'm) trainer) option" where
  "finish_training e p t =
     (case (if tr_last t \<noteq> Some (tr_step t) then save_now e p (tr_running_loss t) t else Some (True, t)) of
        None \<Rightarrow> None
      | Some (False, t1) \<Rightarrow> Some (False, t1)
      | Some (True, t1) \<Rightarrow>
          Some (True, t1\<lparr>tr_world := with_api (snd (rest_complete_run (pl_run_id p) (pl_now p) (wd_api (tr_world t1)))) (tr_world t1)\<rparr>))"

definition train :: "'s env \<Rightarrow> 'm plan \<Rightarrow> ('s, 'm) trainer \<Rightarrow> (bool \<times> ('s, 'm) trainer) option" where
  "train e p t =
     (case train_loop e p t of
        None \<Rightarrow> None
      | Some (False, t1) \<Rightarrow> Some (False, t1)
      | Some (True, t1) \<Rightarrow> finish_training e p t1)"

end
