(* ===== verification/Training.thy ===== *)
theory Training
  imports Harness
begin

text \<open>
  Properties of the harness with the control plane and the data plane: a save that returns is the newest
  committed checkpoint and can be loaded by every rank, and a save that raises leaves the previous one.
\<close>

section \<open>The objects of a checkpoint\<close>

definition in_ckpt :: "jsstring \<Rightarrow> jsstring \<Rightarrow> jsstring \<Rightarrow> bool" where
  "in_ckpt run_id k j = startsWith j (run_id @ js ''/'' @ k @ js ''/'')"

lemma first_slash: "Ch (CHR ''/'') \<notin> set k \<Longrightarrow> takeWhile (\<lambda>x. x \<noteq> Ch (CHR ''/'')) (k @ js ''/'' @ t) = k"
  by (simp add: takeWhile_append js_simps)

lemma in_ckpt_distinct:
  assumes "Ch (CHR ''/'') \<notin> set k" "Ch (CHR ''/'') \<notin> set k'" "in_ckpt r k j" "in_ckpt r k' j"
  shows "k = k'"
proof -
  from assms(3,4) obtain t t' where "k @ js ''/'' @ t = k' @ js ''/'' @ t'" by (auto simp: in_ckpt_def startsWith_iff)
  with first_slash [OF assms(1), of t] first_slash [OF assms(2), of t'] show ?thesis by metis
qed

lemma in_ckpt_keys:
  "in_ckpt r k (manifest_key r k)" "in_ckpt r k (content_addressed_key r k i h)" "in_ckpt r k (staging_key r k i u)" "in_ckpt r k (checksum_key r k i)"
  by (simp_all add: in_ckpt_def startsWith_iff manifest_key_def content_addressed_key_def staging_key_def checksum_key_def js_simps)

text \<open>Only objects of the checkpoint may change.\<close>

definition outside_kept :: "'s objects \<Rightarrow> jsstring \<Rightarrow> jsstring \<Rightarrow> 's \<Rightarrow> 's \<Rightarrow> bool" where
  "outside_kept obj r k s s' = (\<forall>j. \<not> in_ckpt r k j \<longrightarrow> obj s' j = obj s j)"

lemma outside_kept_refl [simp]: "outside_kept obj r k s s"
  by (simp add: outside_kept_def)

lemma outside_kept_eq: "obj s' = obj s \<Longrightarrow> outside_kept obj r k s s'"
  by (simp add: outside_kept_def)

lemma outside_kept_trans: "outside_kept obj r k s s' \<Longrightarrow> outside_kept obj r k s' s'' \<Longrightarrow> outside_kept obj r k s s''"
  by (simp add: outside_kept_def)

lemma outside_kept_changes: "only_changes obj j s s' \<Longrightarrow> in_ckpt r k j \<Longrightarrow> outside_kept obj r k s s'"
  by (auto simp: outside_kept_def only_changes_def)

lemma promote_outside:
  assumes laws: "s3_laws s3 obj upl" and p: "promote s3 enc st fin sc sha s = (e, s')"
    and u: "in_ckpt r k st" "in_ckpt r k fin" "in_ckpt r k sc"
  shows "outside_kept obj r k s s'"
proof -
  let ?r = "case object_exists s3 fin s of (True, s1) \<Rightarrow> (True, s1) | (False, s1) \<Rightarrow> s3_copy s3 st fin s1"
  obtain b s1 where h: "s3_head s3 fin s = (b, s1)" by fastforce
  have s1: "outside_kept obj r k s s1" using s3_head_law(1) [OF laws, of fin s] h by (simp add: outside_kept_eq)
  obtain ok s2 where r: "?r = (ok, s2)" by fastforce
  have "s2 = s1 \<or> s2 = snd (s3_copy s3 st fin s1)" using r h by (auto simp: object_exists_def split: bool.splits)
  then have "outside_kept obj r k s1 s2" using outside_kept_changes [OF s3_copy_law(1) [OF laws] u(2)] by auto
  note s2 = outside_kept_trans [OF s1 this]
  obtain ok3 s3' where d: "s3_delete s3 st s2 = (ok3, s3')" by fastforce
  have s3': "outside_kept obj r k s s3'"
    using outside_kept_trans [OF s2 outside_kept_changes [OF s3_delete_law(1) [OF laws, where k = st and s = s2] u(1)]] d by simp
  obtain ok4 s4 where q: "s3_put s3 sc (enc sha) s3' = (ok4, s4)" by fastforce
  have s4: "outside_kept obj r k s s4"
    using outside_kept_trans [OF s3' outside_kept_changes [OF s3_put_law(1) [OF laws, where k = sc and s = s3' and d = "enc sha"] u(3)]] q by simp
  from p r d q have "s' = s2 \<or> s' = s3' \<or> s' = s4" by (auto simp: promote_def split: bool.splits)
  with s2 s3' s4 show ?thesis by blast
qed

lemma write_stream_outside:
  assumes laws: "s3_laws s3 obj upl"
    and w: "write_shard_stream s3 sha256 enc uuid r k sid (map Inr ds) s = Some (a, s')"
  shows "outside_kept obj r k s s'"
proof -
  let ?st = "staging_key r k sid uuid"
  obtain u s1 where c: "s3_create_multipart s3 ?st s = (u, s1)" by fastforce
  note created = s3_create_law [OF laws c]
  have s1: "outside_kept obj r k s s1" using created by (simp add: outside_kept_eq)
  show ?thesis
  proof (cases u)
    case None
    with w c s1 show ?thesis by (simp add: write_shard_stream_def Let_def)
  next
    case (Some uid)
    obtain e s2 where b: "upload_whole s3 ?st uid (concat ds) s1 = (e, s2)" by fastforce
    from created Some have "upl s1 ?st uid = Some Map.empty" by blast
    from upload_whole_stored(1) [OF laws this b] have "outside_kept obj r k s1 s2" by (rule outside_kept_changes) (rule in_ckpt_keys(3))
    note s2 = outside_kept_trans [OF s1 this]
    show ?thesis
    proof (cases e)
      case (Some x)
      with w c \<open>u = Some uid\<close> upload_body_ok [of s3 ?st uid ds s1] b
      have "s' = snd (s3_abort_multipart s3 ?st uid s2)" by (simp add: write_shard_stream_def Let_def)
      with s2 s3_abort_law [OF laws] show ?thesis by (simp add: outside_kept_def)
    next
      case None
      let ?sha = "sha256 (concat ds)"
      obtain e' s4 where p: "promote s3 enc ?st (content_addressed_key r k sid ?sha) (checksum_key r k sid) ?sha s2 = (e', s4)" by fastforce
      with w c \<open>u = Some uid\<close> upload_body_ok [of s3 ?st uid ds s1] b None have "s' = s4"
        by (auto simp: write_shard_stream_def Let_def split: option.splits)
      with outside_kept_trans [OF s2 promote_outside [OF laws p in_ckpt_keys(3,2,4)]] show ?thesis by simp
    qed
  qed
qed

section \<open>The calls of the data plane\<close>

lemma write_outcome:
  assumes laws: "s3_laws s3 obj upl" and r: "Ch (CHR ''/'') \<notin> set r" and body: "body \<noteq> []"
    and fresh: "\<And>j. in_ckpt r k j \<Longrightarrow> obj (sv_store v) j = None"
  shows "\<exists>answer v1. grpc_write_shard max_depth s3 sha256 enc uuid (map Inr (upload_chunks r k sid body)) v = Some (answer, v1)
    \<and> outside_kept obj r k (sv_store v) (sv_store v1)
    \<and> (\<forall>res. answer = Inr res \<longrightarrow> wr_success res \<and> 0 \<le> wr_total_bytes res \<and> wr_total_bytes res < 2 ^ 64
         \<and> obj (sv_store v1) (content_addressed_key r k sid (wr_sha256_checksum res)) = Some body
         \<and> obj (sv_store v1) (manifest_key r k) = None)"
proof -
  from write_of_chunks [OF r body, of max_depth s3 sha256 enc uuid k sid v] obtain ds where ds: "concat ds = body"
    and g: "grpc_write_shard max_depth s3 sha256 enc uuid (map Inr (upload_chunks r k sid body)) v =
        (if max_depth \<le> sv_depth v then Some (Inl ResourceExhausted, v)
         else (case write_shard_stream s3 sha256 enc uuid r k sid (map Inr ds) (sv_store v) of
                 None \<Rightarrow> None
               | Some (Inl e, s) \<Rightarrow> Some (Inl InternalError, v\<lparr>sv_healthy := False, sv_store := s\<rparr>)
               | Some (Inr w, s) \<Rightarrow>
                   Some (Inr \<lparr>wr_success = True, wr_shard_id = wo_shard_id w, wr_total_bytes = uint (wo_total_bytes w),
                              wr_sha256_checksum = wo_sha256 w\<rparr>, v\<lparr>sv_healthy := True, sv_store := s\<rparr>)))" by blast
  obtain a s where w: "write_shard_stream s3 sha256 enc uuid r k sid (map Inr ds) (sv_store v) = Some (a, s)"
    using write_stream_returns [of s3 sha256 enc uuid r k sid "map Inr ds" "sv_store v"] by auto
  note out = write_stream_outside [OF laws w]
  show ?thesis
  proof (cases "max_depth \<le> sv_depth v \<or> isl a")
    case True
    with g w out show ?thesis by (cases a) auto
  next
    case False
    then obtain wo where a: "a = Inr wo" by (cases a) auto
    have "obj (sv_store v) (content_addressed_key r k sid (sha256 (received (map Inr ds)))) \<in> {None, Some (received (map Inr ds))}"
      using fresh [OF in_ckpt_keys(2)] by simp
    from write_shard_ok [OF laws w [unfolded a] this] ds have
      wo: "wo = \<lparr>wo_shard_id = sid, wo_total_bytes = of_nat (length body), wo_sha256 = sha256 body, wo_storage_key = content_addressed_key r k sid (sha256 body)\<rparr>"
      and written: "shard_written obj enc uuid r k sid body (sha256 body) (sv_store v) s" by auto
    have "manifest_key r k \<notin> {content_addressed_key r k sid (sha256 body), staging_key r k sid uuid, checksum_key r k sid}"
      using shard_keys_distinct(4-6) by simp
    with written fresh [OF in_ckpt_keys(1)] have "obj s (manifest_key r k) = None" by (simp add: shard_written_def)
    moreover have "uint (of_nat (length body) :: 64 word) < 2 ^ 64" using uint_lt2p [of "of_nat (length body) :: 64 word"] by simp
    ultimately show ?thesis using g w a False out written by (simp add: wo shard_written_def)
  qed
qed

lemma abort_outside:
  assumes "s3_laws s3 obj upl" "paging_laws s3 obj pages tok"
  shows "\<exists>a v1. grpc_abort_checkpoint s3 r k v = Some (a, v1) \<and> outside_kept obj r k (sv_store v) (sv_store v1)"
  using abort_effect [OF assms, of r k v] by (fastforce simp: outside_kept_def in_ckpt_def)

lemma manifest_outside:
  assumes laws: "s3_laws s3 obj upl" and c: "grpc_commit_checkpoint s3 to_json now r k stp shards md v = (a, v1)"
  shows "outside_kept obj r k (sv_store v) (sv_store v1)"
proof -
  let ?m = "new_manifest now r k stp shards md" and ?key = "manifest_key r k"
  have key: "manifest_key (mf_run_id ?m) (mf_checkpoint_id ?m) = ?key" by (simp add: new_manifest_def)
  obtain h s1 where h: "s3_head s3 ?key (sv_store v) = (h, s1)" by fastforce
  have s1: "outside_kept obj r k (sv_store v) s1" using s3_head_law(1) [OF laws, of ?key "sv_store v"] h by (simp add: outside_kept_eq)
  have put: "outside_kept obj r k (sv_store v) (snd (s3_put s3 ?key json s1))" for json
    by (rule outside_kept_trans [OF s1 outside_kept_changes [OF s3_put_law(1) [OF laws] in_ckpt_keys(1)]])
  have "sv_store v1 = s1 \<or> (\<exists>json. sv_store v1 = snd (s3_put s3 ?key json s1))"
    using c h by (cases h; cases "to_json ?m")
      (auto simp: grpc_commit_checkpoint_def write_manifest_def key object_exists_def Let_def split: prod.splits if_splits, (metis snd_conv)+)
  with s1 put show ?thesis by auto
qed

section \<open>What a checkpoint holds\<close>

text \<open>Its manifest lists the shard of rank 0 alone, which is stored with the data.\<close>

definition holds :: "'s env \<Rightarrow> 's objects \<Rightarrow> jsstring \<Rightarrow> jsstring \<Rightarrow> bytes \<Rightarrow> 's \<Rightarrow> bool" where
  "holds e obj r k d s =
     (\<exists>json m x. obj s (manifest_key r k) = Some json \<and> en_from_json e json = Some m \<and> mf_shards m = [x]
        \<and> ms_shard_id x = rank_shard 0 \<and> in_ckpt r k (ms_storage_key x) \<and> obj s (ms_storage_key x) = Some d)"

lemma holds_kept:
  assumes "holds e obj r k d s" "outside_kept obj r k' s s'"
    "Ch (CHR ''/'') \<notin> set k" "Ch (CHR ''/'') \<notin> set k'" "k \<noteq> k'"
  shows "holds e obj r k d s'"
proof -
  have "obj s' j = obj s j" if "in_ckpt r k j" for j
    using assms(2) in_ckpt_distinct [OF assms(3,4) that] assms(5) by (auto simp: outside_kept_def)
  with assms(1) in_ckpt_keys(1) [of r k] show ?thesis unfolding holds_def by metis
qed

lemma read_keeps:
  assumes laws: "s3_laws s3 obj upl"
  shows "obj (sv_store (snd (grpc_read_shard s3 from_json r k sid v))) = obj (sv_store v)"
proof -
  obtain h s1 where h: "s3_head s3 (manifest_key r k) (sv_store v) = (h, s1)" by fastforce
  obtain g s2 where g: "s3_get s3 (manifest_key r k) s1 = (g, s2)" by fastforce
  have s: "obj s1 = obj (sv_store v)" "obj s2 = obj (sv_store v)"
    using s3_head_law(1) [OF laws, of "manifest_key r k" "sv_store v"] s3_get_law(1) [OF laws, of "manifest_key r k" s1] h g by simp_all
  have get: "obj (snd (s3_get s3 j s2)) = obj (sv_store v)" for j using s3_get_law(1) [OF laws] s by metis
  show ?thesis
    using get by (auto simp: grpc_read_shard_def read_manifest_def object_exists_def h g s read_shard_def Let_def
        split: option.splits prod.splits bool.splits sum.splits if_splits) (metis snd_conv)+
qed

text \<open>What is relied on of the environment: the laws of the store, answered reads, and JSON that is read back.\<close>

definition env_ok :: "'s env \<Rightarrow> 's objects \<Rightarrow> 's uploads \<Rightarrow> 's paging \<Rightarrow> 's tokens \<Rightarrow> bool" where
  "env_ok e obj upl pages tok =
     (s3_laws (en_s3 e) obj upl \<and> reads_answered (en_s3 e) obj \<and> paging_laws (en_s3 e) obj pages tok
      \<and> (\<forall>m json. en_to_json e m = Some json \<longrightarrow> en_from_json e json = Some m))"

lemma env_laws:
  assumes "env_ok e obj upl pages tok"
  shows "s3_laws (en_s3 e) obj upl" "reads_answered (en_s3 e) obj" "paging_laws (en_s3 e) obj pages tok"
    "en_to_json e m = Some json \<Longrightarrow> en_from_json e json = Some m"
  using assms by (simp_all add: env_ok_def)

lemma rank_shard_0: "rank_shard 0 = js ''rank-0''"
  by code_simp

lemma rank_shard_inject [simp]: "rank_shard m = rank_shard n \<longleftrightarrow> m = n"
  by (simp add: rank_shard_def)

lemma download_holds:
  assumes env: "env_ok e obj upl pages tok" and h: "holds e obj r k d (sv_store (wd_dp w))" and d: "d \<noteq> []"
  shows "\<exists>v. serve_download e r k sid w = (if sid = rank_shard 0 then Ok d else HttpError 500, w\<lparr>wd_dp := v\<rparr>)
    \<and> obj (sv_store v) = obj (sv_store (wd_dp w))"
proof -
  note laws = env_laws [OF env]
  from h obtain json m x where m: "obj (sv_store (wd_dp w)) (manifest_key r k) = Some json" "en_from_json e json = Some m"
    "mf_shards m = [x]" "ms_shard_id x = rank_shard 0" "obj (sv_store (wd_dp w)) (ms_storage_key x) = Some d" by (auto simp: holds_def)
  from read_of_manifest [OF laws(1,2) m(1), of "en_from_json e" m sid, OF m(2)] m(3-5) obtain v where
    v: "grpc_read_shard (en_s3 e) (en_from_json e) r k sid (wd_dp w) =
      (if sid = rank_shard 0 then Inr (read_chunks sid k (rust_chunks READ_CHUNK_SIZE d)) else Inl NotFound, v)" by (auto split: if_splits)
  have "obj (sv_store v) = obj (sv_store (wd_dp w))" using read_keeps [OF laws(1), of "en_from_json e" r k sid "wd_dp w"] v by simp
  moreover have "0 < READ_CHUNK_SIZE" by (simp add: READ_CHUNK_SIZE_def)
  moreover from this have "rust_chunks READ_CHUNK_SIZE d \<noteq> []" using rust_chunks_step [OF _ d] by simp
  ultimately show ?thesis by (intro exI [of _ v]) (simp add: serve_download_def v read_chunks_data rest_download_shard_def)
qed

lemma load_holds:
  assumes env: "env_ok e obj upl pages tok" and h: "holds e obj r k d (sv_store (wd_dp w))" and d: "d \<noteq> []"
  shows "\<exists>v. load_shard e r k rank w = (Some d, w\<lparr>wd_dp := v\<rparr>) \<and> obj (sv_store v) = obj (sv_store (wd_dp w))"
proof -
  from download_holds [OF env h d, of "rank_shard rank"] obtain v where
    v: "serve_download e r k (rank_shard rank) w = (if rank = 0 then Ok d else HttpError 500, w\<lparr>wd_dp := v\<rparr>)"
      "obj (sv_store v) = obj (sv_store (wd_dp w))" by auto
  let ?w = "w\<lparr>wd_dp := v\<rparr>"
  have "holds e obj r k d (sv_store (wd_dp ?w))" using h v(2) by (simp add: holds_def)
  from download_holds [OF env this d, of "rank_shard 0"] obtain v' where
    "serve_download e r k (js ''rank-0'') ?w = (Ok d, w\<lparr>wd_dp := v'\<rparr>)" "obj (sv_store v') = obj (sv_store v)" by (auto simp: rank_shard_0)
  with v show ?thesis by (cases "rank = 0") (auto simp: load_shard_def)
qed

section \<open>The newest checkpoint\<close>

definition committed :: "'s world \<Rightarrow> jsstring \<Rightarrow> jsstring \<Rightarrow> py_checkpoint \<Rightarrow> bool" where
  "committed w r k x = (kv_get (checkpoint_key k) (co_kv (ai_coord (wd_api w))) = Some (CheckpointVal x) \<and> pk_run_id x = r \<and> pk_state x = ''COMMITTED'')"

text \<open>The newest committed checkpoint of a run: its step and data, all others are older.\<close>

definition newest_saved :: "'s env \<Rightarrow> 's objects \<Rightarrow> jsstring \<Rightarrow> 's world \<Rightarrow> (int \<times> bytes) option \<Rightarrow> bool" where
  "newest_saved e obj r w s =
     (case s of
        None \<Rightarrow> \<forall>k x. \<not> committed w r k x
      | Some (n, d) \<Rightarrow>
          \<exists>k x. committed w r k x \<and> pk_step x = n \<and> Ch (CHR ''/'') \<notin> set k \<and> holds e obj r k d (sv_store (wd_dp w))
            \<and> (\<forall>k' x'. committed w r k' x' \<longrightarrow> k' \<noteq> k \<longrightarrow> pk_step x' < n))"

lemma list_committed:
  assumes "coord_ok (ai_coord (wd_api w))" "kv_get (run_key r) (co_kv (ai_coord (wd_api w))) = Some (RunVal q)"
  shows "\<exists>ks. rest_list_checkpoints r (wd_api w) = Ok ks \<and>
    set (filter (\<lambda>cp. pk_state cp = ''COMMITTED'') ks) = {x. committed w r (pk_checkpoint_id x) x}"
proof -
  obtain ks where ks: "coord_list_checkpoints r (ai_coord (wd_api w)) = Inr ks" using list_checkpoints_ok [OF assms(1)] by blast
  have "rest_list_checkpoints r (wd_api w) = Ok ks" using assms(2) ks by (simp add: rest_list_checkpoints_def get_run_iff [symmetric])
  moreover have "set (filter (\<lambda>cp. pk_state cp = ''COMMITTED'') ks) = {x. committed w r (pk_checkpoint_id x) x}"
    using list_checkpoints_mem [OF assms(1) ks] by (auto simp: committed_def get_checkpoint_iff)
  ultimately show ?thesis by blast
qed

lemma committed_id: "coord_ok (ai_coord (wd_api w)) \<Longrightarrow> committed w r k x \<Longrightarrow> pk_checkpoint_id x = k"
  using coord_ok_checkpoint by (fastforce simp: committed_def)

text \<open>Loading gives the newest checkpoint to every rank and changes nothing.\<close>

lemma load_newest:
  assumes env: "env_ok e obj upl pages tok" and ok: "coord_ok (ai_coord (wd_api w))"
    and q: "kv_get (run_key r) (co_kv (ai_coord (wd_api w))) = Some (RunVal q)"
    and new: "newest_saved e obj r w s" and ne: "\<And>n d. s = Some (n, d) \<Longrightarrow> d \<noteq> []"
  shows "\<exists>v. load_checkpoint_runtime e deser r rank m w =
      (case s of None \<Rightarrow> Some (0, m) | Some (n, d) \<Rightarrow> map_option (Pair n) (deser d), w\<lparr>wd_dp := v\<rparr>)
    \<and> obj (sv_store v) = obj (sv_store (wd_dp w))"
proof -
  from list_committed [OF ok q] obtain ks where ks: "rest_list_checkpoints r (wd_api w) = Ok ks"
    "set (filter (\<lambda>cp. pk_state cp = ''COMMITTED'') ks) = {x. committed w r (pk_checkpoint_id x) x}" by blast
  let ?com = "filter (\<lambda>cp. pk_state cp = ''COMMITTED'') ks"
  show ?thesis
  proof (cases s)
    case None
    with new have "?com = []" using ks(2) by (auto simp: newest_saved_def simp flip: set_empty)
    then have "load_checkpoint_runtime e deser r rank m w = (Some (0, m), w)" by (simp add: load_checkpoint_runtime_def ks(1))
    with None show ?thesis by (intro exI [of _ "wd_dp w"]) simp
  next
    case (Some nd)
    obtain n d where nd: "nd = (n, d)" by fastforce
    from new Some nd obtain k x where x: "committed w r k x" "pk_step x = n" "holds e obj r k d (sv_store (wd_dp w))"
      "\<And>k' x'. committed w r k' x' \<Longrightarrow> k' \<noteq> k \<Longrightarrow> pk_step x' < n" by (auto simp: newest_saved_def)
    note id = committed_id [OF ok]
    have mem: "x \<in> set ?com" using x(1) id [OF x(1)] by (simp only: ks(2)) simp
    then obtain y where y: "max_by pk_step ?com = Some y" by (metis max_by_None not_None_eq list.set(1) empty_iff)
    from max_by_in [OF y] mem have "y \<in> set ?com" "n \<le> pk_step y" using x(2) by auto
    then have cy: "committed w r (pk_checkpoint_id y) y" using ks(2) by blast
    with x(4) [OF cy] \<open>n \<le> pk_step y\<close> have "pk_checkpoint_id y = k" by fastforce
    with cy x(1) have "y = x" by (simp add: committed_def)
    moreover from load_holds [OF env x(3) ne, of n rank] Some nd obtain v where
      "load_shard e r k rank w = (Some d, w\<lparr>wd_dp := v\<rparr>)" "obj (sv_store v) = obj (sv_store (wd_dp w))" by blast
    ultimately show ?thesis using y ks(1) Some nd id [OF x(1)] x(2) by (intro exI [of _ v]) (simp add: load_checkpoint_runtime_def)
  qed
qed

section \<open>Saving\<close>

abbreviation checkpoint_at :: "'s world \<Rightarrow> jsstring \<Rightarrow> kv_value option" where
  "checkpoint_at w k \<equiv> kv_get (checkpoint_key k) (co_kv (ai_coord (wd_api w)))"

definition idle :: "jsstring \<Rightarrow> 's world \<Rightarrow> bool" where
  "idle r w = (\<forall>k x. checkpoint_at w k = Some (CheckpointVal x) \<longrightarrow> pk_run_id x = r \<longrightarrow> pk_state x \<noteq> ''IN_PROGRESS'')"

text \<open>A run in one of the states, with no checkpoint in progress.\<close>

definition run_in :: "RunState set \<Rightarrow> jsstring \<Rightarrow> 's world \<Rightarrow> bool" where
  "run_in S r w = (coord_ok (ai_coord (wd_api w)) \<and> idle r w
     \<and> (\<exists>q. kv_get (run_key r) (co_kv (ai_coord (wd_api w))) = Some (RunVal q) \<and> pr_state q \<in> S))"

text \<open>An identifier that nothing is stored under.\<close>

definition unused :: "'s objects \<Rightarrow> jsstring \<Rightarrow> jsstring \<Rightarrow> 's world \<Rightarrow> bool" where
  "unused obj r k w = (Ch (CHR ''/'') \<notin> set k \<and> checkpoint_at w k = None \<and> shards_of k (wd_api w) = []
     \<and> (\<forall>j. in_ckpt r k j \<longrightarrow> obj (sv_store (wd_dp w)) j = None))"

definition others_kept :: "'s objects \<Rightarrow> jsstring \<Rightarrow> jsstring \<Rightarrow> 's world \<Rightarrow> 's world \<Rightarrow> bool" where
  "others_kept obj r k w w' = ((\<forall>j. j \<noteq> k \<longrightarrow> checkpoint_at w' j = checkpoint_at w j \<and> shards_of j (wd_api w') = shards_of j (wd_api w))
     \<and> outside_kept obj r k (sv_store (wd_dp w)) (sv_store (wd_dp w')))"

lemma others_kept_trans: "others_kept obj r k w w' \<Longrightarrow> others_kept obj r k w' w'' \<Longrightarrow> others_kept obj r k w w''"
  by (auto simp: others_kept_def intro: outside_kept_trans)

lemma unused_kept:
  assumes "others_kept obj r k w w'" "unused obj r k' w" "k' \<noteq> k" "Ch (CHR ''/'') \<notin> set k"
  shows "unused obj r k' w'"
  using assms in_ckpt_distinct [of k' k r] by (fastforce simp: others_kept_def unused_def outside_kept_def)

lemma newest_kept:
  assumes kept: "others_kept obj r k w w'" and u: "unused obj r k w" and new: "newest_saved e obj r w s"
    and k: "\<And>x. \<not> committed w' r k x"
  shows "newest_saved e obj r w' s"
proof -
  have com: "committed w' r j x \<longleftrightarrow> committed w r j x" for j x
    using kept u k by (cases "j = k") (auto simp: committed_def others_kept_def unused_def)
  have hold: "holds e obj r j d (sv_store (wd_dp w'))" if "committed w r j x" "Ch (CHR ''/'') \<notin> set j" "holds e obj r j d (sv_store (wd_dp w))" for j x d
  proof (rule holds_kept [OF that(3) _ that(2)])
    show "outside_kept obj r k (sv_store (wd_dp w)) (sv_store (wd_dp w'))" "Ch (CHR ''/'') \<notin> set k" "j \<noteq> k"
      using kept u that(1) by (auto simp: others_kept_def unused_def committed_def)
  qed
  show ?thesis
  proof (cases s)
    case None
    with new com show ?thesis by (simp add: newest_saved_def)
  next
    case (Some nd)
    obtain n d where nd: "nd = (n, d)" by fastforce
    from new Some nd obtain j x where x: "committed w r j x" "pk_step x = n" "Ch (CHR ''/'') \<notin> set j" "holds e obj r j d (sv_store (wd_dp w))"
      "\<forall>k' x'. committed w r k' x' \<longrightarrow> k' \<noteq> j \<longrightarrow> pk_step x' < n" by (auto simp: newest_saved_def)
    with hold [OF x(1,3,4)] com Some nd show ?thesis unfolding newest_saved_def by auto
  qed
qed

lemma newest_new:
  assumes kept: "others_kept obj r k w w'" and k: "committed w' r k x" "Ch (CHR ''/'') \<notin> set k"
    and h: "holds e obj r k d (sv_store (wd_dp w'))"
    and old: "newest_saved e obj r w s" "\<And>n' d'. s = Some (n', d') \<Longrightarrow> n' < pk_step x"
  shows "newest_saved e obj r w' (Some (pk_step x, d))"
proof -
  have "pk_step y < pk_step x" if "committed w' r j y" "j \<noteq> k" for j y
  proof -
    from that kept have y: "committed w r j y" by (simp add: committed_def others_kept_def)
    then obtain n' d' where s: "s = Some (n', d')" using old(1) by (cases s) (auto simp: newest_saved_def)
    then have "pk_step y \<le> n'" using old(1) y by (auto simp: newest_saved_def committed_def) (metis option.inject kv_value.inject(2) order.refl order_less_imp_le)
    with old(2) [OF s] show ?thesis by simp
  qed
  with k h show ?thesis unfolding newest_saved_def by auto
qed

lemma idle_kept:
  assumes "others_kept obj r k w w'" "idle r w" "\<And>x. checkpoint_at w' k = Some (CheckpointVal x) \<Longrightarrow> pk_state x \<noteq> ''IN_PROGRESS''"
  shows "idle r w'"
  unfolding idle_def
proof (intro allI impI)
  fix j x
  assume "checkpoint_at w' j = Some (CheckpointVal x)" "pk_run_id x = r"
  with assms show "pk_state x \<noteq> ''IN_PROGRESS''" by (cases "j = k") (auto simp: others_kept_def idle_def)
qed

subsection \<open>Frames of the handlers\<close>

lemma shards_of_other: "j \<noteq> k \<Longrightarrow> shards_of j (a\<lparr>ai_shards := AList.update k l (ai_shards a)\<rparr>) = shards_of j a"
  "j \<noteq> k \<Longrightarrow> shards_of j (a\<lparr>ai_shards := AList.delete k (ai_shards a)\<rparr>) = shards_of j a"
  "shards_of j (a\<lparr>ai_coord := c\<rparr>) = shards_of j a" "shards_of j (publish_event i m a) = shards_of j a"
  by (simp_all add: shards_of_def AList.update_conv' AList.delete_conv' publish_event_def)

lemma fail_with_other:
  assumes ok: "coord_ok (ai_coord a)" and f: "(fail_with i k msg now a :: 'a http \<times> api) = (ans, a')"
  shows "coord_ok (ai_coord a')"
    "j \<noteq> k \<Longrightarrow> kv_get (checkpoint_key j) (co_kv (ai_coord a')) = kv_get (checkpoint_key j) (co_kv (ai_coord a)) \<and> shards_of j a' = shards_of j a"
proof -
  obtain r1 c1 where c1: "update_checkpoint_state k ''FAILED'' None None None now (ai_coord a) = (r1, c1)" by fastforce
  obtain r2 c2 where c2: "set_run_error i (js msg) now c1 = (r2, c2)" by fastforce
  have ok1: "coord_ok c1" using coord_ok_checkpoint_updates(1) [OF ok] c1 by (metis snd_conv)
  have ok2: "coord_ok c2" using transition_run_ok(2) [OF ok1] c2 by (metis snd_conv)
  have a': "a' \<in> {a\<lparr>ai_coord := c1\<rparr>, a\<lparr>ai_coord := c2\<rparr>, a\<lparr>ai_coord := c2, ai_shards := AList.delete k (ai_shards a)\<rparr>}"
    using f c1 c2 by (auto simp: fail_with_def abort_failed_checkpoint_def split: if_splits)
  with ok1 ok2 show "coord_ok (ai_coord a')" by auto
  assume j: "j \<noteq> k"
  have "kv_get (checkpoint_key j) (co_kv c1) = kv_get (checkpoint_key j) (co_kv (ai_coord a))"
    using update_state_other [OF j] c1 by (metis snd_conv)
  moreover have "kv_get (checkpoint_key j) (co_kv c2) = kv_get (checkpoint_key j) (co_kv c1)"
    using transition_run_checkpoint(2) [OF ok1] c2 by (metis snd_conv)
  moreover have "shards_of j a' = shards_of j a" using a' j by (auto simp: shards_of_def AList.delete_conv')
  ultimately show "kv_get (checkpoint_key j) (co_kv (ai_coord a')) = kv_get (checkpoint_key j) (co_kv (ai_coord a)) \<and> shards_of j a' = shards_of j a"
    using a' by auto
qed

lemma commit_finish_other:
  assumes ok: "coord_ok (ai_coord a)" and f: "commit_finish i x res d now a = (ans, a')" and k: "pk_checkpoint_id x = k"
  shows "coord_ok (ai_coord a')"
    "j \<noteq> k \<Longrightarrow> kv_get (checkpoint_key j) (co_kv (ai_coord a')) = kv_get (checkpoint_key j) (co_kv (ai_coord a)) \<and> shards_of j a' = shards_of j a"
proof -
  have "coord_ok (ai_coord a') \<and>
    (j \<noteq> k \<longrightarrow> kv_get (checkpoint_key j) (co_kv (ai_coord a')) = kv_get (checkpoint_key j) (co_kv (ai_coord a)) \<and> shards_of j a' = shards_of j a)"
  proof (cases "res = Some True")
    case False
    then obtain msg where "fail_with i k msg now a = (ans, a')" using f k by (cases res) (auto simp: commit_finish_def split: bool.splits)
    with fail_with_other [OF ok this] show ?thesis by blast
  next
    case True
    let ?a1 = "a\<lparr>ai_durations := ai_durations a @ [d], ai_shards := AList.delete k (ai_shards a)\<rparr>"
    obtain r1 c1 where c1: "update_checkpoint_state k ''COMMITTED'' None None None now (ai_coord a) = (r1, c1)" by fastforce
    obtain r2 c2 where c2: "transition_run i COMMITTED now c1 = (r2, c2)" by fastforce
    obtain r3 c3 where c3: "transition_run i RUNNING now c2 = (r3, c3)" by fastforce
    have ok1: "coord_ok c1" using coord_ok_checkpoint_updates(1) [OF ok] c1 by (metis snd_conv)
    have ok2: "coord_ok c2" using transition_run_ok(1) [OF ok1] c2 by (metis snd_conv)
    have ok3: "coord_ok c3" using transition_run_ok(1) [OF ok2] c3 by (metis snd_conv)
    have a': "a' \<in> {?a1\<lparr>ai_coord := c1\<rparr>, ?a1\<lparr>ai_coord := c2\<rparr>, ?a1\<lparr>ai_coord := c3\<rparr>,
        publish_event i ''checkpoint_committed'' (?a1\<lparr>ai_coord := c3, ai_commits := ai_commits a + 1\<rparr>)}"
      using f True k c1 c2 c3 by (auto simp: commit_finish_def Let_def split: sum.splits)
    have "kv_get (checkpoint_key j) (co_kv c1) = kv_get (checkpoint_key j) (co_kv (ai_coord a))" if "j \<noteq> k"
      using update_state_other [OF that] c1 by (metis snd_conv)
    moreover have "kv_get (checkpoint_key j) (co_kv c2) = kv_get (checkpoint_key j) (co_kv c1)"
      using transition_run_checkpoint(1) [OF ok1] c2 by (metis snd_conv)
    moreover have "kv_get (checkpoint_key j) (co_kv c3) = kv_get (checkpoint_key j) (co_kv c2)"
      using transition_run_checkpoint(1) [OF ok2] c3 by (metis snd_conv)
    ultimately show ?thesis using a' ok1 ok2 ok3 by (auto simp: shards_of_def AList.delete_conv' publish_event_def)
  qed
  then show "coord_ok (ai_coord a')"
    "j \<noteq> k \<Longrightarrow> kv_get (checkpoint_key j) (co_kv (ai_coord a')) = kv_get (checkpoint_key j) (co_kv (ai_coord a)) \<and> shards_of j a' = shards_of j a"
    by blast+
qed

text \<open>A checkpoint whose failure was recorded.\<close>

definition ckpt_failed :: "jsstring \<Rightarrow> jsstring \<Rightarrow> 's world \<Rightarrow> bool" where
  "ckpt_failed r k w = (coord_ok (ai_coord (wd_api w))
     \<and> (\<exists>q. kv_get (run_key r) (co_kv (ai_coord (wd_api w))) = Some (RunVal q) \<and> pr_state q = FAILED)
     \<and> (\<exists>x. checkpoint_at w k = Some (CheckpointVal x) \<and> pk_state x = ''FAILED''))"

lemma clean_up_failed:
  assumes env: "env_ok e obj upl pages tok" and up: "uploading r k n a0 us (wd_api w)"
    and kept: "outside_kept obj r k (sv_store (wd_dp w)) (sv_store v)"
  shows "\<exists>w'. clean_up e r k (fail_with r k msg now (wd_api w) :: 'a http \<times> api) (w\<lparr>wd_dp := v\<rparr>) = Some (HttpError 502, w')
    \<and> others_kept obj r k w w' \<and> ckpt_failed r k w'"
proof -
  note laws = env_laws [OF env]
  obtain q x where ok: "coord_ok (ai_coord (wd_api w))" and q: "kv_get (run_key r) (co_kv (ai_coord (wd_api w))) = Some (RunVal q)" "pr_state q = CHECKPOINTING"
    and x: "kv_get (checkpoint_key k) (co_kv (ai_coord (wd_api w))) = Some (CheckpointVal x)" using up by (auto simp: uploading_def)
  obtain ans a where f: "(fail_with r k msg now (wd_api w) :: 'a http \<times> api) = (ans, a)" by fastforce
  from fail_with_effect [OF ok q(1) x, of msg now, where 'a = 'a] f q(2) have eff: "ans = HttpError 502"
    "kv_get (checkpoint_key k) (co_kv (ai_coord a)) = Some (CheckpointVal (x\<lparr>pk_state := ''FAILED''\<rparr>))"
    "\<exists>q. kv_get (run_key r) (co_kv (ai_coord a)) = Some (RunVal q) \<and> pr_state q = FAILED" by auto
  note other = fail_with_other [OF ok f]
  from abort_outside [OF laws(1,3), of r k v] obtain b v1 where v1: "grpc_abort_checkpoint (en_s3 e) r k v = Some (b, v1)"
    "outside_kept obj r k (sv_store v) (sv_store v1)" by blast
  let ?w = "(with_api a w)\<lparr>wd_dp := v1\<rparr>"
  have "clean_up e r k (ans, a) (w\<lparr>wd_dp := v\<rparr>) = Some (HttpError 502, ?w)" by (simp add: clean_up_def eff(1) v1(1))
  moreover have "others_kept obj r k w ?w" using other(2) outside_kept_trans [OF kept v1(2)] by (simp add: others_kept_def)
  moreover have "ckpt_failed r k ?w" using other(1) eff(2,3) by (simp add: ckpt_failed_def)
  ultimately show ?thesis unfolding f by blast
qed

lemma upload_check_uploading:
  "uploading r k n a0 us a \<Longrightarrow> 0 < len \<Longrightarrow> upload_check True r k len (Some rank) a = Ok rank"
  by (auto simp: uploading_def upload_check_def ckpt_uploaded_def simp flip: get_checkpoint_iff)

lemma upload_finish_uploading:
  assumes up: "uploading r k n a0 us a" and ok: "wr_success res" "0 < len"
  shows "\<exists>a'. upload_finish r k sid rank (Some res) now a = (Ok res, a') \<and> uploading r k n a0 (us @ [(sid, len, rank, res)]) a'
    \<and> (\<forall>j. j \<noteq> k \<longrightarrow> shards_of j a' = shards_of j a)"
proof -
  obtain ans a' where f: "upload_finish r k sid rank (Some res) now a = (ans, a')" by fastforce
  have "upload_accepted (sid, len, rank, res)" using ok by (simp add: upload_accepted_def upload_answer_def)
  from upload_uploading [OF up this, of now] upload_check_uploading [OF up ok(2), of rank] f
  have "uploading r k n a0 (us @ [(sid, len, rank, res)]) a'" by (simp add: do_upload_def rest_upload_shard_def)
  moreover obtain x where "coord_get_checkpoint k (ai_coord a) = Inr (Some x)" using up by (auto simp: uploading_def get_checkpoint_iff)
  with f ok(1) have "ans = Ok res" "\<forall>j. j \<noteq> k \<longrightarrow> shards_of j a' = shards_of j a"
    by (auto simp: upload_finish_def Let_def update_checkpoint_state_def shards_of_def AList.update_conv')
  ultimately show ?thesis using f by blast
qed

subsection \<open>The three requests of a save\<close>

lemma trigger_ok:
  assumes ok: "coord_ok (ai_coord a)" and q: "kv_get (run_key r) (co_kv (ai_coord a)) = Some (RunVal q)" "pr_state q = RUNNING"
    and none: "shards_of k a = []"
  shows "\<exists>info a'. rest_trigger_checkpoint k r (Some n) now a = (Ok info, a') \<and> pk_checkpoint_id info = k \<and> uploading r k n a [] a'
    \<and> (\<forall>j. shards_of j a' = shards_of j a)"
proof -
  obtain ans a' where f: "rest_trigger_checkpoint k r (Some n) now a = (ans, a')" by fastforce
  with trigger_uploading [OF ok q none, of "Some n" now] have up: "uploading r k n a [] a'" by (simp add: given_def)
  have "CHECKPOINTING \<in> set (VALID_TRANSITIONS (pr_state q))" by (simp add: q(2))
  from transition_run_valid [OF ok q(1) this, of now] obtain c where
    c: "transition_run r CHECKPOINTING now (ai_coord a) = (Inr (q\<lparr>pr_state := CHECKPOINTING, pr_updated_at := now\<rparr>), c)" "coord_ok c"
      "co_kv c = kv_put (run_key r) (RunVal (q\<lparr>pr_state := CHECKPOINTING, pr_updated_at := now\<rparr>)) (co_kv (ai_coord a))" by blast
  have "require_run r c = Inr (q\<lparr>pr_state := CHECKPOINTING, pr_updated_at := now\<rparr>)" using c(2,3) by (simp add: require_run_ok get_put)
  with f c(1) have "\<exists>info. ans = Ok info \<and> pk_checkpoint_id info = k" "\<forall>j. shards_of j a' = shards_of j a"
    by (auto simp: rest_trigger_checkpoint_def coord_create_checkpoint_def Let_def shards_of_other)
  with f up show ?thesis by blast
qed

lemma uploading_other: "uploading r k n a0 us a \<Longrightarrow> j \<noteq> k \<Longrightarrow> kv_get (checkpoint_key j) (co_kv (ai_coord a)) = kv_get (checkpoint_key j) (co_kv (ai_coord a0))"
  by (simp add: uploading_def)

lemma upload_outcome:
  assumes env: "env_ok e obj upl pages tok" and r: "Ch (CHR ''/'') \<notin> set r" and d: "d \<noteq> []"
    and up: "uploading r k n a0 [] (wd_api w)" and fresh: "\<And>j. in_ckpt r k j \<Longrightarrow> obj (sv_store (wd_dp w)) j = None"
  shows "\<exists>ans w'. serve_upload e uuid r k sid d (Some rank) now w = Some (ans, w') \<and> others_kept obj r k w w'
    \<and> (case ans of
         HttpError c \<Rightarrow> ckpt_failed r k w'
       | Ok res \<Rightarrow> uploading r k n a0 [(sid, length d, rank, res)] (wd_api w') \<and> 0 \<le> wr_total_bytes res \<and> wr_total_bytes res < 2 ^ 64
           \<and> obj (sv_store (wd_dp w')) (content_addressed_key r k sid (wr_sha256_checksum res)) = Some d
           \<and> obj (sv_store (wd_dp w')) (manifest_key r k) = None)"
proof -
  note laws = env_laws [OF env]
  have len: "0 < length d" using d by simp
  note check = upload_check_uploading [OF up len, of rank]
  from write_outcome [OF laws(1) r d fresh, of k "en_max_depth e" "en_sha256 e" "en_enc e" uuid sid] obtain answer v where
    v: "grpc_write_shard (en_max_depth e) (en_s3 e) (en_sha256 e) (en_enc e) uuid (map Inr (upload_chunks r k sid d)) (wd_dp w) = Some (answer, v)"
      "outside_kept obj r k (sv_store (wd_dp w)) (sv_store v)"
      "\<And>res. answer = Inr res \<Longrightarrow> wr_success res \<and> 0 \<le> wr_total_bytes res \<and> wr_total_bytes res < 2 ^ 64
         \<and> obj (sv_store v) (content_addressed_key r k sid (wr_sha256_checksum res)) = Some d \<and> obj (sv_store v) (manifest_key r k) = None" by blast
  show ?thesis
  proof (cases answer)
    case (Inl st)
    from clean_up_failed [OF env up v(2), of "''Checkpoint shard upload failed''" now, where 'a = write_result] obtain w' where
      "clean_up e r k (fail_with r k ''Checkpoint shard upload failed'' now (wd_api w) :: write_result http \<times> api) (w\<lparr>wd_dp := v\<rparr>) = Some (HttpError 502, w')"
      "others_kept obj r k w w'" "ckpt_failed r k w'" by blast
    with Inl check v(1) show ?thesis by (intro exI [of _ "HttpError 502"] exI [of _ w']) (simp add: serve_upload_def upload_finish_def)
  next
    case (Inr res)
    note res = v(3) [OF Inr]
    from upload_finish_uploading [OF up _ len, of res sid rank now] res obtain a' where
      a': "upload_finish r k sid rank (Some res) now (wd_api w) = (Ok res, a')" "uploading r k n a0 [(sid, length d, rank, res)] a'"
        "\<forall>j. j \<noteq> k \<longrightarrow> shards_of j a' = shards_of j (wd_api w)" by auto
    let ?w = "(with_api a' w)\<lparr>wd_dp := v\<rparr>"
    have "serve_upload e uuid r k sid d (Some rank) now w = Some (Ok res, ?w)" using check v(1) Inr a'(1) by (simp add: serve_upload_def clean_up_def)
    moreover have "others_kept obj r k w ?w" using a'(3) v(2) uploading_other [OF a'(2)] uploading_other [OF up] by (simp add: others_kept_def)
    ultimately show ?thesis using a'(2) res by auto
  qed
qed

lemma commit_call_outcome:
  assumes env: "env_ok e obj upl pages tok" and x: "pk_checkpoint_id x = k"
    and res: "0 \<le> wr_total_bytes res" "wr_total_bytes res < 2 ^ 64"
    and st: "obj (sv_store v) (content_addressed_key r k (rank_shard 0) (wr_sha256_checksum res)) = Some d" "obj (sv_store v) (manifest_key r k) = None"
    and c: "commit_call e stamp r x [new_shard r k (rank_shard 0) 0 res] v = (answer, v')"
  shows "outside_kept obj r k (sv_store v) (sv_store v')" and "answer = Some True \<Longrightarrow> holds e obj r k d (sv_store v')"
proof -
  note laws = env_laws [OF env]
  let ?key = "content_addressed_key r k (rank_shard 0) (wr_sha256_checksum res)"
  obtain y where y: "proto_shard (new_shard r k (rank_shard 0) 0 res) = Some y" "ms_shard_id y = rank_shard 0" "ms_storage_key y = ?key"
    using res by (simp add: proto_shard_def new_shard_def storage_keys_agree)
  show out: "outside_kept obj r k (sv_store v) (sv_store v')"
    using c x y(1) manifest_outside [OF laws(1)] by (auto simp: commit_call_def split: if_splits prod.splits)
  assume "answer = Some True"
  with c x y(1) obtain key where
    g: "grpc_commit_checkpoint (en_s3 e) (en_to_json e) stamp r k (of_int (pk_step x)) [y] [] v = ((True, key), v')"
    by (auto simp: commit_call_def split: if_splits prod.splits)
  let ?m = "new_manifest stamp r k (of_int (pk_step x)) [y] []"
  note commit = commit_stored [OF laws(1,2) g]
  have "?key \<noteq> manifest_key r k" using shard_keys_distinct(5) by metis
  with commit st obtain json where "en_to_json e ?m = Some json" "obj (sv_store v') (manifest_key r k) = Some json"
    "obj (sv_store v') ?key = Some d" by auto
  moreover from this(1) have "en_from_json e json = Some ?m" by (rule laws(4))
  moreover have "mf_shards ?m = [y]" by (simp add: new_manifest_def)
  ultimately show "holds e obj r k d (sv_store v')" unfolding holds_def using y(2,3) in_ckpt_keys(2) by metis
qed

lemma commit_outcome:
  assumes env: "env_ok e obj upl pages tok" and up: "uploading r k n a0 [(rank_shard 0, len, 0, res)] (wd_api w)"
    and only: "\<And>j x. kv_get (checkpoint_key j) (co_kv (ai_coord a0)) = Some (CheckpointVal x) \<Longrightarrow> pk_run_id x = r \<Longrightarrow> pk_state x \<noteq> ''IN_PROGRESS''"
    and res: "0 \<le> wr_total_bytes res" "wr_total_bytes res < 2 ^ 64"
    and st: "obj (sv_store (wd_dp w)) (content_addressed_key r k (rank_shard 0) (wr_sha256_checksum res)) = Some d"
      "obj (sv_store (wd_dp w)) (manifest_key r k) = None"
  shows "\<exists>ans w'. serve_commit e stamp r dur now w = Some (ans, w') \<and> others_kept obj r k w w'
    \<and> (case ans of
         HttpError c \<Rightarrow> ckpt_failed r k w'
       | Ok status \<Rightarrow> coord_ok (ai_coord (wd_api w')) \<and> (\<exists>q. kv_get (run_key r) (co_kv (ai_coord (wd_api w'))) = Some (RunVal q) \<and> pr_state q = RUNNING)
           \<and> (\<exists>x. committed w' r k x \<and> pk_step x = n) \<and> holds e obj r k d (sv_store (wd_dp w')))"
proof -
  obtain x where x: "commit_begin True r (wd_api w) = Ok (x, [new_shard r k (rank_shard 0) 0 res])" "pk_checkpoint_id x = k"
    "kv_get (checkpoint_key k) (co_kv (ai_coord (wd_api w))) = Some (CheckpointVal x)"
    "ckpt_uploaded r n [(rank_shard 0, len, 0, res)] x"
  proof (rule commit_begin_uploaded [OF up])
    show "pk_state y \<noteq> ''IN_PROGRESS''" if "kv_get (checkpoint_key j) (co_kv (ai_coord a0)) = Some (CheckpointVal y)" "pk_run_id y = r" for j y
      using only that by blast
  qed (auto simp: shard_of_upload_def intro: that)
  have ok: "coord_ok (ai_coord (wd_api w))" using up by (simp add: uploading_def)
  obtain answer v where c: "commit_call e stamp r x [new_shard r k (rank_shard 0) 0 res] (wd_dp w) = (answer, v)" by fastforce
  note call = commit_call_outcome [OF env x(2) res st c]
  have serve: "serve_commit e stamp r dur now w = clean_up e r k (commit_finish r x answer dur now (wd_api w)) (w\<lparr>wd_dp := v\<rparr>)"
    by (simp add: serve_commit_def x(1,2) c)
  show ?thesis
  proof (cases "answer = Some True")
    case False
    then obtain msg where "commit_finish r x answer dur now (wd_api w) = fail_with r k msg now (wd_api w)"
      using x(2) by (cases answer) (auto simp: commit_finish_def split: bool.splits)
    with clean_up_failed [OF env up call(1), of msg now, where 'a = py_run] serve show ?thesis by force
  next
    case True
    have "pk_committed_at x = None" using x(4) by (simp add: ckpt_uploaded_def)
    from commit_finish_uploaded [OF up x(3,2) this, of dur now] obtain status c where
      f: "commit_finish r x (Some True) dur now (wd_api w) = (Ok status, publish_event r ''checkpoint_committed''
         ((wd_api w)\<lparr>ai_durations := ai_durations (wd_api w) @ [dur], ai_shards := AList.delete k (ai_shards (wd_api w)), ai_coord := c,
            ai_commits := ai_commits (wd_api w) + 1\<rparr>))"
        "pr_state status = RUNNING" "coord_get_run r c = Inr (Some status)"
        "coord_get_checkpoint k c = Inr (Some (x\<lparr>pk_state := ''COMMITTED'', pk_committed_at := Some now\<rparr>))" by blast
    let ?a = "publish_event r ''checkpoint_committed''
         ((wd_api w)\<lparr>ai_durations := ai_durations (wd_api w) @ [dur], ai_shards := AList.delete k (ai_shards (wd_api w)), ai_coord := c,
            ai_commits := ai_commits (wd_api w) + 1\<rparr>)"
    let ?w = "(with_api ?a w)\<lparr>wd_dp := v\<rparr>"
    note other = commit_finish_other [OF ok f(1) x(2)]
    have "serve_commit e stamp r dur now w = Some (Ok status, ?w)" using serve True f(1) by (simp add: clean_up_def)
    moreover have "others_kept obj r k w ?w" using other(2) call(1) by (simp add: others_kept_def)
    moreover have coord: "ai_coord (wd_api ?w) = c" by (simp add: publish_event_def)
    moreover have "committed ?w r k (x\<lparr>pk_state := ''COMMITTED'', pk_committed_at := Some now\<rparr>)"
      using f(4) x(4) coord by (simp add: committed_def get_checkpoint_iff ckpt_uploaded_def)
    moreover have "kv_get (run_key r) (co_kv (ai_coord (wd_api ?w))) = Some (RunVal status)" using f(3) coord by (simp add: get_run_iff)
    ultimately show ?thesis using f(2) other(1) call(2) [OF True] x(4) by (intro exI [of _ "Ok status"] exI [of _ ?w]) (auto simp: ckpt_uploaded_def)
  qed
qed

text \<open>
  A save by rank 0 of a running run returns or raises. In the first case the run is running and the
  saved data are its newest checkpoint; in the second the run has failed and the newest checkpoint is the one before.
\<close>

lemma save_outcome:
  assumes env: "env_ok e obj upl pages tok" and r: "Ch (CHR ''/'') \<notin> set r" and d: "d \<noteq> []"
    and run: "run_in {RUNNING} r w" and k: "unused obj r (si_checkpoint_id i) w"
    and new: "newest_saved e obj r w s" "\<And>n' d'. s = Some (n', d') \<Longrightarrow> n' < n"
  shows "\<exists>ok w'. save_checkpoint_runtime e i r 0 n d w = Some (ok, w') \<and> others_kept obj r (si_checkpoint_id i) w w'
    \<and> run_in (if ok then {RUNNING} else {FAILED}) r w' \<and> newest_saved e obj r w' (if ok then Some (n, d) else s)"
proof -
  let ?k = "si_checkpoint_id i" and ?now = "si_now i"
  from run obtain q where coord: "coord_ok (ai_coord (wd_api w))" "idle r w"
    and q: "kv_get (run_key r) (co_kv (ai_coord (wd_api w))) = Some (RunVal q)" "pr_state q = RUNNING" by (auto simp: run_in_def)
  have none: "shards_of ?k (wd_api w) = []" and slash: "Ch (CHR ''/'') \<notin> set ?k" using k by (simp_all add: unused_def)
  from trigger_ok [OF coord(1) q none, of n ?now] obtain info a where
    a: "rest_trigger_checkpoint ?k r (Some n) ?now (wd_api w) = (Ok info, a)" "pk_checkpoint_id info = ?k"
      "uploading r ?k n (wd_api w) [] a" "\<forall>j. shards_of j a = shards_of j (wd_api w)" by blast
  let ?w1 = "with_api a w"
  have kept1: "others_kept obj r ?k w ?w1" using a(4) uploading_other [OF a(3)] by (simp add: others_kept_def)
  have up: "uploading r ?k n (wd_api w) [] (wd_api ?w1)" using a(3) by simp
  have fresh: "obj (sv_store (wd_dp ?w1)) j = None" if "in_ckpt r ?k j" for j using k that by (simp add: unused_def)
  from upload_outcome [OF env r d up fresh, of "si_uuid i" "rank_shard 0" 0 ?now] obtain ans w2 where
    u: "serve_upload e (si_uuid i) r ?k (rank_shard 0) d (Some 0) ?now ?w1 = Some (ans, w2)" "others_kept obj r ?k ?w1 w2"
      "case ans of HttpError c \<Rightarrow> ckpt_failed r ?k w2
       | Ok res \<Rightarrow> uploading r ?k n (wd_api w) [(rank_shard 0, length d, 0, res)] (wd_api w2) \<and> 0 \<le> wr_total_bytes res \<and> wr_total_bytes res < 2 ^ 64
           \<and> obj (sv_store (wd_dp w2)) (content_addressed_key r ?k (rank_shard 0) (wr_sha256_checksum res)) = Some d
           \<and> obj (sv_store (wd_dp w2)) (manifest_key r ?k) = None" by blast
  note kept2 = others_kept_trans [OF kept1 u(2)]
  have failed: "run_in {FAILED} r w' \<and> newest_saved e obj r w' s" if "others_kept obj r ?k w w'" "ckpt_failed r ?k w'" for w'
  proof -
    from that(2) have "\<not> committed w' r ?k x" "checkpoint_at w' ?k = Some (CheckpointVal x) \<Longrightarrow> pk_state x \<noteq> ''IN_PROGRESS''" for x
      by (auto simp: ckpt_failed_def committed_def)
    with idle_kept [OF that(1) coord(2)] newest_kept [OF that(1) k new(1)] that(2) show ?thesis
      by (auto simp: ckpt_failed_def run_in_def)
  qed
  show ?thesis
  proof (cases ans)
    case (HttpError c)
    with a(1,2) u(1) have "save_checkpoint_runtime e i r 0 n d w = Some (False, w2)" by (simp add: save_checkpoint_runtime_def)
    with failed [OF kept2] u(3) HttpError kept2 show ?thesis by auto
  next
    case (Ok res)
    from u(3) Ok have up2: "uploading r ?k n (wd_api w) [(rank_shard 0, length d, 0, res)] (wd_api w2)"
      and rest: "0 \<le> wr_total_bytes res" "wr_total_bytes res < 2 ^ 64"
        "obj (sv_store (wd_dp w2)) (content_addressed_key r ?k (rank_shard 0) (wr_sha256_checksum res)) = Some d"
        "obj (sv_store (wd_dp w2)) (manifest_key r ?k) = None" by auto
    from commit_outcome [OF env up2 _ rest, of "si_stamp i" "si_duration i" ?now] coord(2) obtain ans3 w3 where
      c: "serve_commit e (si_stamp i) r (si_duration i) ?now w2 = Some (ans3, w3)" "others_kept obj r ?k w2 w3"
        "case ans3 of HttpError c \<Rightarrow> ckpt_failed r ?k w3
         | Ok status \<Rightarrow> coord_ok (ai_coord (wd_api w3)) \<and> (\<exists>q. kv_get (run_key r) (co_kv (ai_coord (wd_api w3))) = Some (RunVal q) \<and> pr_state q = RUNNING)
             \<and> (\<exists>x. committed w3 r ?k x \<and> pk_step x = n) \<and> holds e obj r ?k d (sv_store (wd_dp w3))" unfolding idle_def by blast
    note kept3 = others_kept_trans [OF kept2 c(2)]
    have save: "save_checkpoint_runtime e i r 0 n d w = Some (case ans3 of Ok st \<Rightarrow> True | HttpError n \<Rightarrow> False, w3)"
      using a(1,2) u(1) Ok c(1) by (simp add: save_checkpoint_runtime_def split: http.split)
    show ?thesis
    proof (cases ans3)
      case (HttpError code)
      with save failed [OF kept3] c(3) kept3 show ?thesis by auto
    next
      case ok: (Ok status)
      with c(3) obtain x where x: "committed w3 r ?k x" "pk_step x = n" "holds e obj r ?k d (sv_store (wd_dp w3))" by auto
      have "newest_saved e obj r w3 (Some (pk_step x, d))"
        by (rule newest_new [OF kept3 x(1) slash x(3) new(1)]) (use new(2) x(2) in simp)
      moreover have "idle r w3" by (rule idle_kept [OF kept3 coord(2)]) (use x(1) in \<open>auto simp: committed_def\<close>)
      ultimately show ?thesis using save ok c(3) kept3 x(2) by (auto simp: run_in_def)
    qed
  qed
qed

end
