(* ===== verification/CrashSafety.thy ===== *)
theory CrashSafety
  imports Training
begin

text \<open>
  The training loop of the harness over whole executions: it returns, a process that dies at any point, also
  inside a save, loses at most the interval between checkpoints when it is started again, and a training
  that ends normally has completed its run with the final model saved.
\<close>

section \<open>Resuming a run\<close>

text \<open>Two worlds with the same checkpoints and objects.\<close>

definition same_saved :: "'s objects \<Rightarrow> 's world \<Rightarrow> 's world \<Rightarrow> bool" where
  "same_saved obj w w' = ((\<forall>j. checkpoint_at w' j = checkpoint_at w j \<and> shards_of j (wd_api w') = shards_of j (wd_api w))
     \<and> obj (sv_store (wd_dp w')) = obj (sv_store (wd_dp w)))"

lemma same_saved_refl [simp]: "same_saved obj w w"
  by (simp add: same_saved_def)

lemma same_saved_trans: "same_saved obj w w' \<Longrightarrow> same_saved obj w' w'' \<Longrightarrow> same_saved obj w w''"
  by (simp add: same_saved_def)

lemma same_saved_facts:
  assumes "same_saved obj w w'"
  shows "newest_saved e obj r w' s \<longleftrightarrow> newest_saved e obj r w s" "unused obj r k w' \<longleftrightarrow> unused obj r k w" "idle r w' \<longleftrightarrow> idle r w"
proof -
  have com: "committed w' r k x \<longleftrightarrow> committed w r k x" for k x using assms by (simp add: same_saved_def committed_def)
  have "holds e obj r k d (sv_store (wd_dp w')) \<longleftrightarrow> holds e obj r k d (sv_store (wd_dp w))" for k d using assms by (simp add: same_saved_def holds_def)
  with com show "newest_saved e obj r w' s \<longleftrightarrow> newest_saved e obj r w s" by (cases s) (auto simp: newest_saved_def)
  show "unused obj r k w' \<longleftrightarrow> unused obj r k w" "idle r w' \<longleftrightarrow> idle r w" using assms by (simp_all add: same_saved_def unused_def idle_def)
qed

lemma get_run_ok:
  assumes "coord_ok (ai_coord a)" "kv_get (run_key r) (co_kv (ai_coord a)) = Some (RunVal q)"
  shows "\<exists>status. rest_get_run r a = Ok status \<and> pr_state status = pr_state q"
proof -
  from list_workers_total [OF assms(1), of "Some (pr_run_id q)"] obtain ws where "coord_list_workers (Some (pr_run_id q)) (ai_coord a) = Inr ws" by blast
  moreover have "coord_get_run r (ai_coord a) = Inr (Some q)" using assms(2) by (simp add: get_run_iff)
  ultimately show ?thesis by (simp add: rest_get_run_def with_live_worker_count_def)
qed

text \<open>A run in one of the states; a checkpoint of it may still be in progress.\<close>

definition run_at :: "RunState set \<Rightarrow> jsstring \<Rightarrow> 's world \<Rightarrow> bool" where
  "run_at S r w = (coord_ok (ai_coord (wd_api w))
     \<and> (\<exists>q. kv_get (run_key r) (co_kv (ai_coord (wd_api w))) = Some (RunVal q) \<and> pr_state q \<in> S))"

lemma run_in_at: "run_in S r w \<longleftrightarrow> run_at S r w \<and> idle r w"
  by (auto simp: run_in_def run_at_def)

lemma run_at_mono: "run_at S r w \<Longrightarrow> S \<subseteq> T \<Longrightarrow> run_at T r w"
  by (auto simp: run_at_def)

lemma run_at_cases: "run_at S r w \<Longrightarrow> \<exists>st \<in> S. run_at {st} r w"
  by (auto simp: run_at_def)

lemma run_at_state: "run_at {st} r w \<Longrightarrow> run_at {st'} r w \<longleftrightarrow> st' = st"
  by (auto simp: run_at_def)

definition resumed :: "RunState \<Rightarrow> RunState" where
  "resumed st = (if st = FAILED then RECOVERING else RUNNING)"

lemma resume_ok:
  assumes run: "run_at {st} r w" and st: "st \<in> set RESUMABLE_RUN_STATES"
  shows "\<exists>status a. rest_resume_run r now (wd_api w) = (Ok status, a) \<and> run_at {resumed st} r (with_api a w)
    \<and> same_saved obj w (with_api a w)"
proof -
  from run obtain q where ok: "coord_ok (ai_coord (wd_api w))"
    and q: "kv_get (run_key r) (co_kv (ai_coord (wd_api w))) = Some (RunVal q)" "pr_state q = st" by (auto simp: run_at_def)
  have req: "require_run r (ai_coord (wd_api w)) = Inr q" using ok q(1) by (simp add: require_run_ok)
  have id: "pr_run_id q = r" using require_run_id [OF ok req] .
  obtain q' c where c: "resume_call q now (ai_coord (wd_api w)) = (Inr q', c)" "coord_ok c" "kv_get (run_key r) (co_kv c) = Some (RunVal q')"
    "pr_state q' = resumed st" "\<And>j. kv_get (checkpoint_key j) (co_kv c) = kv_get (checkpoint_key j) (co_kv (ai_coord (wd_api w)))"
  proof (cases "st = RUNNING")
    case True
    with that [of q "ai_coord (wd_api w)"] q ok show ?thesis by (simp add: resume_call_def resumed_def)
  next
    case False
    have "resumed st \<in> set (VALID_TRANSITIONS (pr_state q))" using st q(2) False by (auto simp: RESUMABLE_RUN_STATES_def resumed_def)
    from transition_run_valid [OF ok q(1) this, of now] obtain c where
      c: "transition_run r (resumed st) now (ai_coord (wd_api w)) = (Inr (q\<lparr>pr_state := resumed st, pr_updated_at := now\<rparr>), c)" "coord_ok c"
        "co_kv c = kv_put (run_key r) (RunVal (q\<lparr>pr_state := resumed st, pr_updated_at := now\<rparr>)) (co_kv (ai_coord (wd_api w)))" by blast
    have "resume_call q now (ai_coord (wd_api w)) = transition_run r (resumed st) now (ai_coord (wd_api w))"
      using st q(2) False id by (auto simp: resume_call_def resumed_def RESUMABLE_RUN_STATES_def)
    with c that show ?thesis by (simp add: get_put)
  qed
  obtain a where a: "rest_resume_run r now (wd_api w) = (Ok q', a)" "ai_coord a = c" "\<And>j. shards_of j a = shards_of j (wd_api w)"
    using c(1) req by (simp add: rest_resume_run_def Let_def publish_event_def shards_of_def)
  have "same_saved obj w (with_api a w)" using a(2,3) c(5) by (simp add: same_saved_def)
  moreover have "run_at {resumed st} r (with_api a w)" using a(2) c(2-4) by (simp add: run_at_def)
  ultimately show ?thesis using a(1) by blast
qed

lemma complete_ok:
  assumes run: "run_in {RUNNING} r w"
  shows "run_in {COMPLETED} r (with_api (snd (rest_complete_run r now (wd_api w))) w)
    \<and> same_saved obj w (with_api (snd (rest_complete_run r now (wd_api w))) w)"
proof -
  from run obtain q where ok: "coord_ok (ai_coord (wd_api w))" and idle: "idle r w"
    and q: "kv_get (run_key r) (co_kv (ai_coord (wd_api w))) = Some (RunVal q)" "pr_state q = RUNNING" by (auto simp: run_in_def)
  have "COMPLETED \<in> set (VALID_TRANSITIONS (pr_state q))" by (simp add: q(2))
  from transition_run_valid [OF ok q(1) this, of now] obtain c where
    c: "transition_run r COMPLETED now (ai_coord (wd_api w)) = (Inr (q\<lparr>pr_state := COMPLETED, pr_updated_at := now\<rparr>), c)" "coord_ok c"
      "co_kv c = kv_put (run_key r) (RunVal (q\<lparr>pr_state := COMPLETED, pr_updated_at := now\<rparr>)) (co_kv (ai_coord (wd_api w)))" by blast
  let ?w = "with_api (snd (rest_complete_run r now (wd_api w))) w"
  have w: "ai_coord (wd_api ?w) = c" "\<And>j. shards_of j (wd_api ?w) = shards_of j (wd_api w)"
    using c(1) by (simp_all add: rest_complete_run_def rest_transition_def publish_event_def shards_of_def)
  have "same_saved obj w ?w" using w c(3) by (simp add: same_saved_def get_put)
  moreover have "run_in {COMPLETED} r ?w"
    using same_saved_facts(3) [OF calculation, of r] idle w(1) c(2,3) by (simp add: run_in_def get_put)
  ultimately show ?thesis by blast
qed

section \<open>Saves that are interrupted\<close>

text \<open>
  The world that a process leaves when it dies after \<open>n\<close> of the three requests of a save; a request that
  was sent is handled to its end, and after one that is refused no other follows.
\<close>

definition interrupted_save ::
  "nat \<Rightarrow> 's env \<Rightarrow> save_input \<Rightarrow> jsstring \<Rightarrow> nat \<Rightarrow> int \<Rightarrow> bytes \<Rightarrow> 's world \<Rightarrow> 's world option" where
  "interrupted_save n e i run_id rank stp shard_data w =
     (if n = 0 then Some w
      else
        (case rest_trigger_checkpoint (si_checkpoint_id i) run_id (Some stp) (si_now i) (wd_api w) of
           (HttpError c, a) \<Rightarrow> Some (with_api a w)
         | (Ok info, a) \<Rightarrow>
             if n = 1 then Some (with_api a w)
             else
               (case serve_upload e (si_uuid i) run_id (pk_checkpoint_id info) (rank_shard rank) shard_data (Some (int rank)) (si_now i)
                       (with_api a w) of
                  None \<Rightarrow> None
                | Some (HttpError c, w1) \<Rightarrow> Some w1
                | Some (Ok res, w1) \<Rightarrow>
                    if n = 2 then Some w1
                    else map_option snd (serve_commit e (si_stamp i) run_id (si_duration i) (si_now i) w1))))"

text \<open>After all three requests the save is complete.\<close>

lemma interrupted_save_all:
  "3 \<le> n \<Longrightarrow> interrupted_save n e i r rank stp d w = map_option snd (save_checkpoint_runtime e i r rank stp d w)"
  by (simp add: interrupted_save_def save_checkpoint_runtime_def split: prod.split http.split option.split)

lemma uploading_left:
  assumes up: "uploading r k n a0 us (wd_api w')" and kept: "others_kept obj r k w w'" and k: "unused obj r k w" and new: "newest_saved e obj r w s"
  shows "run_at {CHECKPOINTING} r w' \<and> newest_saved e obj r w' s"
proof -
  have "\<not> committed w' r k x" for x using up by (auto simp: uploading_def committed_def ckpt_uploaded_def split: if_splits)
  from newest_kept [OF kept k new this] up show ?thesis by (auto simp: uploading_def run_at_def)
qed

lemma failed_left:
  assumes f: "ckpt_failed r k w'" and kept: "others_kept obj r k w w'" and k: "unused obj r k w" and new: "newest_saved e obj r w s"
  shows "run_at {FAILED} r w' \<and> newest_saved e obj r w' s"
proof -
  have "\<not> committed w' r k x" for x using f by (auto simp: ckpt_failed_def committed_def)
  from newest_kept [OF kept k new this] f show ?thesis by (auto simp: ckpt_failed_def run_at_def)
qed

text \<open>Wherever a save ends, the newest checkpoint is the one before or the one that was being saved.\<close>

lemma interrupted_outcome:
  assumes env: "env_ok e obj upl pages tok" and r: "Ch (CHR ''/'') \<notin> set r" and d: "d \<noteq> []"
    and run: "run_in {RUNNING} r w" and k: "unused obj r (si_checkpoint_id i) w"
    and new: "newest_saved e obj r w s" "\<And>n' d'. s = Some (n', d') \<Longrightarrow> n' < stp"
  shows "\<exists>w' s'. interrupted_save n e i r 0 stp d w = Some w' \<and> run_at {RUNNING, CHECKPOINTING, FAILED} r w'
    \<and> newest_saved e obj r w' s' \<and> s' \<in> {s, Some (stp, d)}"
proof (cases "n = 0 \<or> 3 \<le> n")
  case True
  then show ?thesis
  proof
    assume "n = 0"
    with run new(1) show ?thesis by (intro exI [of _ w] exI [of _ s]) (auto simp: interrupted_save_def run_in_at intro: run_at_mono)
  next
    assume n: "3 \<le> n"
    from save_outcome [OF env r d run k new(1), of stp] new(2) obtain ok w' where "save_checkpoint_runtime e i r 0 stp d w = Some (ok, w')"
      "run_in (if ok then {RUNNING} else {FAILED}) r w'" "newest_saved e obj r w' (if ok then Some (stp, d) else s)" by blast
    then show ?thesis unfolding interrupted_save_all [OF n]
      by (intro exI [of _ w'] exI [of _ "if ok then Some (stp, d) else s"]) (auto simp: run_in_at run_at_def split: if_splits)
  qed
next
  case False
  let ?k = "si_checkpoint_id i"
  from run obtain q where coord: "coord_ok (ai_coord (wd_api w))"
    and q: "kv_get (run_key r) (co_kv (ai_coord (wd_api w))) = Some (RunVal q)" "pr_state q = RUNNING" by (auto simp: run_in_def)
  have none: "shards_of ?k (wd_api w) = []" using k by (simp add: unused_def)
  from trigger_ok [OF coord q none, of stp "si_now i"] obtain info a where
    a: "rest_trigger_checkpoint ?k r (Some stp) (si_now i) (wd_api w) = (Ok info, a)" "pk_checkpoint_id info = ?k"
      "uploading r ?k stp (wd_api w) [] a" "\<forall>j. shards_of j a = shards_of j (wd_api w)" by blast
  let ?w1 = "with_api a w"
  have kept1: "others_kept obj r ?k w ?w1" using a(4) uploading_other [OF a(3)] by (simp add: others_kept_def)
  have up: "uploading r ?k stp (wd_api w) [] (wd_api ?w1)" using a(3) by simp
  have fresh: "obj (sv_store (wd_dp ?w1)) j = None" if "in_ckpt r ?k j" for j using k that by (simp add: unused_def)
  from upload_outcome [OF env r d up fresh, of "si_uuid i" "rank_shard 0" 0 "si_now i"] obtain ans w2 where
    u: "serve_upload e (si_uuid i) r ?k (rank_shard 0) d (Some 0) (si_now i) ?w1 = Some (ans, w2)" "others_kept obj r ?k ?w1 w2"
      "case ans of HttpError c \<Rightarrow> ckpt_failed r ?k w2
       | Ok res \<Rightarrow> uploading r ?k stp (wd_api w) [(rank_shard 0, length d, 0, res)] (wd_api w2) \<and> 0 \<le> wr_total_bytes res \<and> wr_total_bytes res < 2 ^ 64
           \<and> obj (sv_store (wd_dp w2)) (content_addressed_key r ?k (rank_shard 0) (wr_sha256_checksum res)) = Some d
           \<and> obj (sv_store (wd_dp w2)) (manifest_key r ?k) = None" by blast
  note kept2 = others_kept_trans [OF kept1 u(2)]
  have two: "run_at {CHECKPOINTING, FAILED} r w2 \<and> newest_saved e obj r w2 s"
    using u(3) uploading_left [OF _ kept2 k new(1)] failed_left [OF _ kept2 k new(1)]
    by (cases ans) (auto intro: run_at_mono)
  show ?thesis
  proof (cases "n = 1")
    case True
    with a(1) uploading_left [OF up kept1 k new(1)] show ?thesis
      by (intro exI [of _ ?w1] exI [of _ s]) (auto simp: interrupted_save_def intro: run_at_mono)
  next
    case one: False
    with False have n: "n = 2" by simp
    have "interrupted_save n e i r 0 stp d w = Some w2" using a(1,2) u(1) by (simp add: n interrupted_save_def split: http.split)
    with two show ?thesis by (intro exI [of _ w2] exI [of _ s]) (auto intro: run_at_mono)
  qed
qed

section \<open>Requests of the workers\<close>

text \<open>Registrations and heartbeats leave the checkpoints and the states of the runs alone.\<close>

definition quiet :: "fleet \<Rightarrow> fleet \<Rightarrow> bool" where
  "quiet f g = (ai_shards (fl_api g) = ai_shards (fl_api f)
     \<and> (\<forall>j. kv_get (checkpoint_key j) (co_kv (fl_coord g)) = kv_get (checkpoint_key j) (co_kv (fl_coord f)))
     \<and> (coord_ok (fl_coord f) \<longrightarrow> coord_ok (fl_coord g) \<and>
          (\<forall>i q. kv_get (run_key i) (co_kv (fl_coord f)) = Some (RunVal q) \<longrightarrow>
             (\<exists>q'. kv_get (run_key i) (co_kv (fl_coord g)) = Some (RunVal q') \<and> pr_state q' = pr_state q))))"

lemma quiet_refl [simp]: "quiet f f"
  by (simp add: quiet_def)

lemma quiet_trans: "quiet f g \<Longrightarrow> quiet g h \<Longrightarrow> quiet f h"
  unfolding quiet_def by metis

lemma quiet_api: "quiet f g \<Longrightarrow> fl_api f' = fl_api f \<Longrightarrow> fl_api g' = fl_api g \<Longrightarrow> quiet f' g'"
  by (simp add: quiet_def)

lemma quiet_worker:
  assumes "c = fl_coord f \<or> (\<exists>x. c = coord_put (worker_key i w) (WorkerVal x) (fl_coord f))" "coord_ok (fl_coord f) \<Longrightarrow> coord_ok c"
  shows "quiet f (with_coord c f)"
  using assms by (auto simp: quiet_def with_coord_def get_put)

lemma quiet_mark: "quiet f (with_coord (snd (mark_worker_dead i w st (fl_coord f))) f)"
  by (rule quiet_worker [of _ _ i w])
    (auto simp: mark_worker_dead_def update_worker_def coord_ok_workers(3) [unfolded mark_worker_dead_def update_worker_def] split: option.splits)

lemma mark_ok: "coord_ok (fl_coord f) \<Longrightarrow> fst (mark_suppressed i w st f) = None"
  using worker_entry [of "fl_coord f"]
  by (fastforce simp: mark_suppressed_def mark_worker_dead_def update_worker_def worker_of_def worker_key_def split: option.splits kv_value.splits)

lemma quiet_mark_suppressed: "quiet f (snd (mark_suppressed i w st f))"
  using quiet_mark [of f i w st] by (cases "mark_worker_dead i w st (fl_coord f)") (simp add: mark_suppressed_def split: sum.split)

lemma supersede_quiet: "quiet f (snd (supersede i rank olds f)) \<and> (coord_ok (fl_coord f) \<longrightarrow> fst (supersede i rank olds f) = None)"
proof (induction olds arbitrary: f)
  case (Cons old olds)
  obtain e f1 where m: "mark_suppressed i old ''SUPERSEDED'' (set_status old ''SUPERSEDED'' f) = (e, f1)" by fastforce
  have q: "quiet f f1" using quiet_api [OF quiet_mark_suppressed, of f "set_status old ''SUPERSEDED'' f" f1 i old "''SUPERSEDED''"] m by simp
  let ?g = "lease_unregister old f1"
  have g: "quiet f ?g" by (rule quiet_api [OF q]) simp_all
  have rest: "quiet f (snd (supersede i rank olds ?g))" by (rule quiet_trans [OF g]) (use Cons [of ?g] in blast)
  have "coord_ok (fl_coord f) \<longrightarrow> fst (supersede i rank olds ?g) = None" using g Cons [of ?g] unfolding quiet_def by blast
  moreover
  have "coord_ok (fl_coord f) \<longrightarrow> e = None" using mark_ok [of "set_status old ''SUPERSEDED'' f" i old "''SUPERSEDED''"] m by simp
  ultimately show ?case using q rest Cons [of f] m by (auto split: option.split)
qed simp

lemma register_quiet:
  shows "quiet f (snd (rest_register_worker wid i h (Some rank) now t f))"
    and "coord_ok (fl_coord f) \<Longrightarrow> \<exists>w. fst (rest_register_worker wid i h (Some rank) now t f) = Ok w"
proof -
  obtain e f1 where f1: "supersede i rank (run_worker_ids i f) (raise_counter i rank f) = (e, f1)" by fastforce
  with supersede_quiet [where f = "raise_counter i rank f" and i = i and rank = rank and olds = "run_worker_ids i f"]
  have q: "quiet f f1" "coord_ok (fl_coord f) \<Longrightarrow> e = None" by (auto intro: quiet_api)
  obtain w c where c: "coord_register_worker wid i rank h now (fl_coord f1) = (w, c)" by fastforce
  have "quiet f1 (with_coord c f1)"
    using c coord_ok_workers(1) [of "fl_coord f1" wid i rank h now] by (intro quiet_worker [of _ _ i wid]) (auto simp: coord_register_worker_def Let_def)
  then have "quiet f1 (lease_register wid i t (index_worker w (with_coord c f1)))" by (rule quiet_api) simp_all
  from quiet_trans [OF q(1) this] q(1) f1 c show "quiet f (snd (rest_register_worker wid i h (Some rank) now t f))"
    by (cases e) (simp_all add: rest_register_worker_def wm_register_worker_def)
  show "\<exists>w. fst (rest_register_worker wid i h (Some rank) now t f) = Ok w" if "coord_ok (fl_coord f)"
    using q(2) [OF that] f1 c by (simp add: rest_register_worker_def wm_register_worker_def)
qed

lemma propagate_quiet: "quiet f (propagate_step i n now f)"
proof -
  have "quiet f (with_coord (snd (update_run_step i n now (fl_coord f))) f)"
  proof (cases "require_run i (fl_coord f)")
    case (Inr r)
    then show ?thesis
      using require_run_SomeD [OF Inr] coord_ok_update_run_step [of "fl_coord f" i n now] require_run_id [OF _ Inr]
      by (auto simp: quiet_def with_coord_def update_run_step_def persist_run_def Let_def get_put)
  qed (simp add: update_run_step_def with_coord_def)
  then show ?thesis by (auto simp: propagate_step_def split: sum.split option.split)
qed

lemma heartbeat_quiet: "quiet f (snd (rest_worker_heartbeat wid n now t f))"
proof -
  have hb: "quiet f (with_coord c f)" if "coord_heartbeat i wid n now (fl_coord f) = (ans, c)" for i ans c
    using that coord_ok_workers(2) [of "fl_coord f" i wid n now] 
    by (intro quiet_worker [of _ _ i wid]) (auto simp: coord_heartbeat_def update_worker_def split: option.splits)
  have "quiet f (snd (record_heartbeat wid n t (propagate_step i n now ((with_coord c f)\<lparr>fl_workers := ws\<rparr>))))"
    if "coord_heartbeat i wid n now (fl_coord f) = (ans, c)" for i ans c ws
    by (rule quiet_trans [OF _ quiet_api [OF propagate_quiet]], rule quiet_api [OF hb [OF that]]) simp_all
  with hb show ?thesis
    by (simp add: rest_worker_heartbeat_def update_worker_heartbeat_def Let_def split: option.split prod.split sum.split)
qed

lemma heartbeats_quiet: "quiet f (snd (heartbeats bs h f))"
proof (induction bs arbitrary: h f)
  case (Cons b bs)
  have "quiet f (snd (send_heartbeat d1 d2 new_id now t h f))" for d1 d2 new_id now t
  proof -
    have d: "quiet f (snd (deliver d1 (rest_worker_heartbeat (ht_worker_id h) (ht_step h) now t) f))"
      using heartbeat_quiet by (cases d1) (auto simp: deliver_def split: prod.split, metis snd_conv)
    have r: "quiet f1 (snd (deliver d2 (rest_register_worker new_id (ht_run_id h) (ht_hostname h) (Some (ht_rank h)) now t) f1))" for f1
      using register_quiet(1) by (cases d2) (auto simp: deliver_def split: prod.split, metis snd_conv)
    show ?thesis using d r quiet_trans
      by (auto simp: send_heartbeat_def split: prod.splits option.splits http.splits) (metis snd_conv)+
  qed
  with Cons show ?case by (auto split: prod.split) (metis quiet_trans snd_conv)
qed simp

lemma quiet_saved:
  assumes "quiet (wd_fleet w) f"
  shows "same_saved obj w (w\<lparr>wd_fleet := f\<rparr>)" and "run_at S r w \<Longrightarrow> run_at S r (w\<lparr>wd_fleet := f\<rparr>)"
    and "run_in S r w \<Longrightarrow> run_in S r (w\<lparr>wd_fleet := f\<rparr>)"
proof -
  show s: "same_saved obj w (w\<lparr>wd_fleet := f\<rparr>)" for obj :: "'a objects" using assms by (simp add: same_saved_def quiet_def shards_of_def)
  show at: "run_at S r (w\<lparr>wd_fleet := f\<rparr>)" if "run_at S r w" using that assms by (fastforce simp: run_at_def quiet_def)
  show "run_in S r (w\<lparr>wd_fleet := f\<rparr>)" if "run_in S r w"
    using that at same_saved_facts(3) [OF s, of r] by (simp add: run_in_at)
qed

section \<open>Starting a process\<close>

text \<open>What the newest checkpoint gives to a process: its step and model, or the initial ones.\<close>

definition restored :: "(bytes \<Rightarrow> 'm option) \<Rightarrow> 'm \<Rightarrow> (int \<times> bytes) option \<Rightarrow> (int \<times> 'm) option" where
  "restored deser m s = (case s of None \<Rightarrow> Some (0, m) | Some (n, d) \<Rightarrow> map_option (Pair n) (deser d))"

definition intact :: "(bytes \<Rightarrow> 'm option) \<Rightarrow> (int \<times> bytes) option \<Rightarrow> bool" where
  "intact deser s = (\<forall>n d. s = Some (n, d) \<longrightarrow> d \<noteq> [] \<and> deser d \<noteq> None)"

lemma load_ok:
  assumes env: "env_ok e obj upl pages tok" and run: "run_at S r w" and new: "newest_saved e obj r w s" "intact deser s"
  shows "\<exists>w'. load_checkpoint_runtime e deser r rank m w = (restored deser m s, w') \<and> run_at S r w' \<and> same_saved obj w w'"
proof -
  from run obtain q where ok: "coord_ok (ai_coord (wd_api w))" and q: "kv_get (run_key r) (co_kv (ai_coord (wd_api w))) = Some (RunVal q)"
    by (auto simp: run_at_def)
  from load_newest [OF env ok q new(1), of deser rank m] new(2) obtain v where
    v: "load_checkpoint_runtime e deser r rank m w = (restored deser m s, w\<lparr>wd_dp := v\<rparr>)" "obj (sv_store v) = obj (sv_store (wd_dp w))"
    unfolding restored_def intact_def by blast
  have "same_saved obj w (w\<lparr>wd_dp := v\<rparr>)" using v(2) by (simp add: same_saved_def)
  moreover have "run_at S r (w\<lparr>wd_dp := v\<rparr>)" using run by (simp add: run_at_def)
  ultimately show ?thesis using v(1) by blast
qed

text \<open>A process that is told the run by the environment, or finds it in the shared file.\<close>

definition boot_for :: "jsstring \<Rightarrow> boot \<Rightarrow> jsstring \<Rightarrow> bool" where
  "boot_for r b shared = (bo_run_id b = r \<or> bo_run_id b = [] \<and> shared = r)"

lemma get_or_create_resumes:
  assumes run: "run_at {st} r w" and st: "st \<in> set RESUMABLE_RUN_STATES" and r: "r \<noteq> []" and b: "boot_for r b shared"
  shows "\<exists>a st'. get_or_create_run_id b shared (wd_api w) = (Some r, shared, a) \<and> same_saved obj w (with_api a w)
    \<and> run_at {st'} r (with_api a w) \<and> st' \<in> set RESUMABLE_RUN_STATES \<and> resumed st' = (if bo_run_id b = [] then RUNNING else resumed st)"
proof (cases "bo_run_id b = []")
  case False
  with b run st show ?thesis by (intro exI [of _ "wd_api w"] exI [of _ st]) (simp add: boot_for_def get_or_create_run_id_def Let_def)
next
  case True
  with b r have shared: "shared = r" by (auto simp: boot_for_def)
  from run obtain q where "coord_ok (ai_coord (wd_api w))" "kv_get (run_key r) (co_kv (ai_coord (wd_api w))) = Some (RunVal q)" "pr_state q = st"
    by (auto simp: run_at_def)
  from get_run_ok [OF this(1,2)] this(3) obtain status where status: "rest_get_run r (wd_api w) = Ok status" "pr_state status = st" by auto
  show ?thesis
  proof (cases "st \<in> {FAILED, COMMITTED, CHECKPOINTING}")
    case again: True
    from resume_ok [OF run st, of "bo_now b" obj] obtain status' a where a: "rest_resume_run r (bo_now b) (wd_api w) = (Ok status', a)"
      "run_at {resumed st} r (with_api a w)" "same_saved obj w (with_api a w)" by blast
    with status again st r True shared show ?thesis
      by (intro exI [of _ a] exI [of _ "resumed st"]) (auto simp: get_or_create_run_id_def resumed_def RESUMABLE_RUN_STATES_def)
  next
    case False
    with st have "st = RUNNING \<or> st = RECOVERING" by (auto simp: RESUMABLE_RUN_STATES_def)
    with status st r True run shared show ?thesis
      by (intro exI [of _ "wd_api w"] exI [of _ st]) (auto simp: get_or_create_run_id_def resumed_def)
  qed
qed

lemma joined:
  assumes "coord_ok (fl_coord f)"
  shows "\<exists>h g. join_run b rank r f = (Some h, g) \<and> quiet f g"
proof -
  from register_quiet(2) [OF assms] register_quiet(1) [of f]
  obtain w g where "rest_register_worker (bo_worker_id b) r (bo_hostname b) (Some (int rank)) (bo_now b) (bo_clock b) f = (Ok w, g)" "quiet f g"
    by (metis prod.collapse)
  then show ?thesis by (simp add: join_run_def)
qed

lemma start_ok:
  assumes env: "env_ok e obj upl pages tok" and run: "run_at {st} r w" "st \<in> set RESUMABLE_RUN_STATES" and r: "r \<noteq> []" and b: "boot_for r b shared"
    and new: "newest_saved e obj r w s" "intact deser s"
  shows "\<exists>h w'. start_training e deser b m shared w = (map_option (\<lambda>nm. (r, h, nm)) (restored deser m s), shared, w')
    \<and> run_at {if bo_run_id b = [] then RUNNING else resumed st} r w' \<and> same_saved obj w w'"
proof -
  from get_or_create_resumes [OF run r b, of obj] obtain a st1 where
    a: "get_or_create_run_id b shared (wd_api w) = (Some r, shared, a)" "same_saved obj w (with_api a w)" "run_at {st1} r (with_api a w)"
      "st1 \<in> set RESUMABLE_RUN_STATES" "resumed st1 = (if bo_run_id b = [] then RUNNING else resumed st)" by blast
  let ?f = "wd_fleet (with_api a w)"
  have "coord_ok (fl_coord ?f)" using a(3) by (simp add: run_at_def)
  from joined [OF this, of b 0 r] obtain h f where f: "join_run b 0 r ?f = (Some h, f)" "quiet ?f f" by blast
  let ?w = "w\<lparr>wd_fleet := f\<rparr>"
  have "(with_api a w)\<lparr>wd_fleet := f\<rparr> = ?w" by simp
  with quiet_saved(1,2) [OF f(2)] a(2,3) have w: "same_saved obj w ?w" "run_at {st1} r ?w" by (metis same_saved_trans)+
  have "newest_saved e obj r ?w s" using same_saved_facts(1) [OF w(1)] new(1) by blast
  from load_ok [OF env w(2) this new(2), of 0 m] obtain w1 where
    w1: "load_checkpoint_runtime e deser r 0 m ?w = (restored deser m s, w1)" "run_at {st1} r w1" "same_saved obj ?w w1" by blast
  from resume_ok [OF w1(2) a(4), of "bo_now b" obj] obtain status a2 where
    a2: "rest_resume_run r (bo_now b) (wd_api w1) = (Ok status, a2)" "run_at {resumed st1} r (with_api a2 w1)" "same_saved obj w1 (with_api a2 w1)" by blast
  obtain nm where nm: "restored deser m s = Some nm" using new(2) by (cases s) (auto simp: restored_def intact_def)
  have "start_training e deser b m shared w = (map_option (\<lambda>nm. (r, h, nm)) (restored deser m s), shared, with_api a2 w1)"
    using a(1) f(1) w1(1) a2(1) nm by (cases nm) (simp add: start_training_def)
  with a2(2) [unfolded a(5)] same_saved_trans [OF same_saved_trans [OF w(1) w1(3)] a2(3)] show ?thesis by blast
qed

text \<open>A nonzero rank that is told the run, or looks at the shared file then, gets the same run.\<close>

lemma follower_ok:
  assumes "run_at (set RESUMABLE_RUN_STATES) r w" "r \<noteq> []" "boot_for r b shared"
  shows "follow_run_id b ((shared, wd_api w) # polls) = Some r"
proof -
  from assms(1) obtain q where "coord_ok (ai_coord (wd_api w))" "kv_get (run_key r) (co_kv (ai_coord (wd_api w))) = Some (RunVal q)"
    "pr_state q \<in> set RESUMABLE_RUN_STATES" by (auto simp: run_at_def)
  with get_run_ok [OF this(1,2)] assms(2,3) show ?thesis by (auto simp: follow_run_id_def boot_for_def)
qed

section \<open>The training loop\<close>

text \<open>The model after a number of batches.\<close>

definition models :: "'m plan \<Rightarrow> 'm \<Rightarrow> nat \<Rightarrow> 'm" where
  "models p m j = fold (pl_batch p) [0..<j] m"

lemma models_simps [simp]: "models p m 0 = m" "models p m (Suc j) = pl_batch p j (models p m j)"
  by (simp_all add: models_def)

text \<open>Serialised states are never empty and are read back; the identifiers of checkpoints are never repeated; the log has an interval.\<close>

definition plan_ok :: "(bytes \<Rightarrow> 'm option) \<Rightarrow> 'm plan \<Rightarrow> bool" where
  "plan_ok deser p = ((\<forall>n l m. pl_ser p n l m \<noteq> [] \<and> deser (pl_ser p n l m) = Some m)
     \<and> inj (\<lambda>i. si_checkpoint_id (pl_save p i)) \<and> Ch (CHR ''/'') \<notin> set (pl_run_id p) \<and> pl_run_id p \<noteq> []
     \<and> 0 < pl_log_every p)"

definition last_saved :: "('s, 'm) trainer \<Rightarrow> nat" where
  "last_saved t = (case tr_last t of None \<Rightarrow> 0 | Some c \<Rightarrow> c)"

text \<open>
  The trainer that started with model \<open>m0\<close> at step \<open>s0\<close>: its newest checkpoint is the one it remembers and
  has the model of that step.
\<close>

definition newest_is :: "'s env \<Rightarrow> 's objects \<Rightarrow> 'm plan \<Rightarrow> nat \<Rightarrow> 'm \<Rightarrow> nat option \<Rightarrow> 's world \<Rightarrow> bool" where
  "newest_is e obj p s0 m0 l w =
     (case l of
        None \<Rightarrow> s0 = 0 \<and> newest_saved e obj (pl_run_id p) w None
      | Some c \<Rightarrow> s0 \<le> c \<and> (\<exists>x. newest_saved e obj (pl_run_id p) w (Some (int c, pl_ser p c x (models p m0 (c - s0))))))"

definition trainer_at :: "RunState set \<Rightarrow> 's env \<Rightarrow> 's objects \<Rightarrow> 'm plan \<Rightarrow> nat \<Rightarrow> 'm \<Rightarrow> ('s, 'm) trainer \<Rightarrow> bool" where
  "trainer_at S e obj p s0 m0 t =
     (run_in S (pl_run_id p) (tr_world t) \<and> tr_step t = s0 + tr_iter t \<and> tr_model t = models p m0 (tr_iter t)
      \<and> last_saved t \<le> tr_step t \<and> newest_is e obj p s0 m0 (tr_last t) (tr_world t))"

definition trainer_inv :: "'s env \<Rightarrow> 's objects \<Rightarrow> 'm plan \<Rightarrow> nat \<Rightarrow> 'm \<Rightarrow> ('s, 'm) trainer \<Rightarrow> bool" where
  "trainer_inv e obj p s0 m0 t =
     (trainer_at {RUNNING} e obj p s0 m0 t \<and> tr_step t div pl_every p * pl_every p \<le> last_saved t
      \<and> (\<forall>i. tr_iter t < i \<or> i = tr_iter t \<and> tr_last t \<noteq> Some (tr_step t) \<longrightarrow>
           unused obj (pl_run_id p) (si_checkpoint_id (pl_save p i)) (tr_world t)))"

text \<open>A trainer that raised: the run has failed, and all but the last interval below the step is saved.\<close>

definition trainer_raised :: "'s env \<Rightarrow> 's objects \<Rightarrow> 'm plan \<Rightarrow> nat \<Rightarrow> 'm \<Rightarrow> ('s, 'm) trainer \<Rightarrow> bool" where
  "trainer_raised e obj p s0 m0 t = (trainer_at {FAILED} e obj p s0 m0 t \<and> (tr_step t - 1) div pl_every p * pl_every p \<le> last_saved t)"

lemma newest_is_saved:
  assumes "newest_is e obj p s0 m0 l w"
  shows "\<exists>s. newest_saved e obj (pl_run_id p) w s \<and> (\<forall>n d. s = Some (n, d) \<longrightarrow> (\<exists>c. l = Some c \<and> n = int c))
    \<and> (plan_ok deser p \<longrightarrow> intact deser s \<and> restored deser m0 s = Some (int (case l of None \<Rightarrow> 0 | Some c \<Rightarrow> c), models p m0 ((case l of None \<Rightarrow> 0 | Some c \<Rightarrow> c) - s0)))
    \<and> (\<forall>w'. newest_saved e obj (pl_run_id p) w' s \<longrightarrow> newest_is e obj p s0 m0 l w')"
proof (cases l)
  case None
  with assms show ?thesis by (intro exI [of _ None]) (simp add: newest_is_def intact_def restored_def)
next
  case (Some c)
  with assms obtain x where "s0 \<le> c" "newest_saved e obj (pl_run_id p) w (Some (int c, pl_ser p c x (models p m0 (c - s0))))" by (auto simp: newest_is_def)
  with Some show ?thesis
    by (intro exI [of _ "Some (int c, pl_ser p c x (models p m0 (c - s0)))"]) (auto simp: newest_is_def intact_def restored_def plan_ok_def)
qed

lemma newest_before:
  assumes t: "trainer_at S e obj p s0 m0 t" "tr_last t \<noteq> Some (tr_step t)"
  obtains s where "newest_saved e obj (pl_run_id p) (tr_world t) s" "\<And>n d. s = Some (n, d) \<Longrightarrow> n < int (tr_step t)"
    "\<And>w. newest_saved e obj (pl_run_id p) w s \<Longrightarrow> newest_is e obj p s0 m0 (tr_last t) w"
proof -
  from t(1) have new: "newest_is e obj p s0 m0 (tr_last t) (tr_world t)" and last: "last_saved t \<le> tr_step t" by (simp_all add: trainer_at_def)
  from newest_is_saved [OF new, where deser = "\<lambda>_. None"] obtain s where s: "newest_saved e obj (pl_run_id p) (tr_world t) s"
    "\<And>n d. s = Some (n, d) \<Longrightarrow> \<exists>c. tr_last t = Some c \<and> n = int c"
    "\<And>w. newest_saved e obj (pl_run_id p) w s \<Longrightarrow> newest_is e obj p s0 m0 (tr_last t) w" by blast
  have "n < int (tr_step t)" if "s = Some (n, d)" for n d
  proof -
    from s(2) [OF that] obtain c where "tr_last t = Some c" "n = int c" by blast
    with t(2) last show ?thesis by (simp add: last_saved_def)
  qed
  with s(1,3) that show thesis by blast
qed

text \<open>A save at the current step, with an identifier that was not used.\<close>

lemma save_now_ok:
  assumes env: "env_ok e obj upl pages tok" and p: "plan_ok deser p"
    and t: "trainer_at {RUNNING} e obj p s0 m0 t" "tr_last t \<noteq> Some (tr_step t)"
    and u: "\<And>i. tr_iter t \<le> i \<Longrightarrow> unused obj (pl_run_id p) (si_checkpoint_id (pl_save p i)) (tr_world t)"
  shows "\<exists>ok t'. save_now e p x t = Some (ok, t') \<and> tr_step t' = tr_step t \<and> tr_iter t' = tr_iter t
    \<and> (if ok then trainer_inv e obj p s0 m0 t' \<and> tr_last t' = Some (tr_step t)
       else trainer_at {FAILED} e obj p s0 m0 t' \<and> tr_last t' = tr_last t)"
proof -
  let ?r = "pl_run_id p" and ?i = "pl_save p (tr_iter t)" and ?d = "pl_ser p (tr_step t) x (tr_model t)" and ?w = "tr_world t"
  have r: "Ch (CHR ''/'') \<notin> set ?r" and d: "?d \<noteq> []" and inj: "inj (\<lambda>i. si_checkpoint_id (pl_save p i))" using p by (simp_all add: plan_ok_def)
  have run: "run_in {RUNNING} ?r ?w" and steps: "tr_step t = s0 + tr_iter t" "tr_model t = models p m0 (tr_iter t)" "last_saved t \<le> tr_step t"
    using t(1) by (simp_all add: trainer_at_def)
  obtain s where s: "newest_saved e obj ?r ?w s" "\<And>n d. s = Some (n, d) \<Longrightarrow> n < int (tr_step t)"
    "\<And>w. newest_saved e obj ?r w s \<Longrightarrow> newest_is e obj p s0 m0 (tr_last t) w" by (rule newest_before [OF t]) blast
  have k: "unused obj ?r (si_checkpoint_id ?i) ?w" by (rule u) simp
  from save_outcome [OF env r d run k s(1), of "int (tr_step t)"] s(2) obtain ok w' where
    w': "save_checkpoint_runtime e ?i ?r 0 (int (tr_step t)) ?d ?w = Some (ok, w')" "others_kept obj ?r (si_checkpoint_id ?i) ?w w'"
      "run_in (if ok then {RUNNING} else {FAILED}) ?r w'" "newest_saved e obj ?r w' (if ok then Some (int (tr_step t), ?d) else s)" by blast
  let ?t = "t\<lparr>tr_last := (if ok then Some (tr_step t) else tr_last t), tr_world := w'\<rparr>"
  have save: "save_now e p x t = Some (ok, ?t)" by (simp add: save_now_def w'(1))
  show ?thesis
  proof (cases ok)
    case True
    have "unused obj ?r (si_checkpoint_id (pl_save p i)) w'" if "tr_iter t < i" for i
    proof (rule unused_kept [OF w'(2) u])
      show "si_checkpoint_id (pl_save p i) \<noteq> si_checkpoint_id ?i" using that injD [OF inj, of i "tr_iter t"] by auto
    qed (use that k in \<open>simp_all add: unused_def\<close>)
    with True save w'(3,4) steps show ?thesis
      by (intro exI [of _ True] exI [of _ ?t]) (auto simp: trainer_inv_def trainer_at_def newest_is_def last_saved_def)
  next
    case False
    with save w'(3) s(3) w'(4) steps show ?thesis
      by (intro exI [of _ False] exI [of _ ?t]) (simp add: trainer_at_def last_saved_def)
  qed
qed

lemma interrupted_now_ok:
  assumes env: "env_ok e obj upl pages tok" and p: "plan_ok deser p"
    and t: "trainer_at {RUNNING} e obj p s0 m0 t" "tr_last t \<noteq> Some (tr_step t)"
    and k: "unused obj (pl_run_id p) (si_checkpoint_id (pl_save p (tr_iter t))) (tr_world t)"
  shows "\<exists>w l. interrupted_save j e (pl_save p (tr_iter t)) (pl_run_id p) 0 (int (tr_step t)) (pl_ser p (tr_step t) x (tr_model t)) (tr_world t) = Some w
    \<and> run_at {RUNNING, CHECKPOINTING, FAILED} (pl_run_id p) w \<and> newest_is e obj p s0 m0 l w \<and> l \<in> {tr_last t, Some (tr_step t)}"
proof -
  let ?r = "pl_run_id p" and ?i = "pl_save p (tr_iter t)" and ?d = "pl_ser p (tr_step t) x (tr_model t)" and ?w = "tr_world t"
  have r: "Ch (CHR ''/'') \<notin> set ?r" and d: "?d \<noteq> []" using p by (simp_all add: plan_ok_def)
  have run: "run_in {RUNNING} ?r ?w" and steps: "tr_step t = s0 + tr_iter t" "tr_model t = models p m0 (tr_iter t)"
    using t(1) by (simp_all add: trainer_at_def)
  obtain s where s: "newest_saved e obj ?r ?w s" "\<And>n d. s = Some (n, d) \<Longrightarrow> n < int (tr_step t)"
    "\<And>w. newest_saved e obj ?r w s \<Longrightarrow> newest_is e obj p s0 m0 (tr_last t) w" by (rule newest_before [OF t]) blast
  from interrupted_outcome [OF env r d run k s(1), of "int (tr_step t)" j] s(2) obtain w s' where
    w: "interrupted_save j e ?i ?r 0 (int (tr_step t)) ?d ?w = Some w" "run_at {RUNNING, CHECKPOINTING, FAILED} ?r w"
      "newest_saved e obj ?r w s'" "s' \<in> {s, Some (int (tr_step t), ?d)}" by blast
  have "\<exists>l \<in> {tr_last t, Some (tr_step t)}. newest_is e obj p s0 m0 l w"
    using w(3,4) s(3) steps by (auto simp: newest_is_def)
  with w(1,2) show ?thesis by blast
qed

lemma div_Suc_same: "0 < n \<Longrightarrow> Suc m mod n \<noteq> 0 \<Longrightarrow> Suc m div n = m div n"
  by (simp add: div_Suc)

text \<open>Heartbeats and the optimizer step.\<close>

lemma beat_trainer_facts [simp]:
  "tr_step (beat_trainer bs t) = tr_step t" "tr_iter (beat_trainer bs t) = tr_iter t" "tr_last (beat_trainer bs t) = tr_last t"
  "tr_model (beat_trainer bs t) = tr_model t" "last_saved (beat_trainer bs t) = last_saved t"
  by (simp_all add: beat_trainer_def last_saved_def split: prod.split)

lemma beat_trainer_world:
  shows "same_saved obj (tr_world t) (tr_world (beat_trainer bs t))"
    and "run_in S r (tr_world t) \<Longrightarrow> run_in S r (tr_world (beat_trainer bs t))"
proof -
  obtain h f where hf: "heartbeats bs (tr_thread t) (wd_fleet (tr_world t)) = (h, f)" by fastforce
  with heartbeats_quiet [where f = "wd_fleet (tr_world t)" and bs = bs and h = "tr_thread t"] have "quiet (wd_fleet (tr_world t)) f" by simp
  from quiet_saved [OF this] hf show "same_saved obj (tr_world t) (tr_world (beat_trainer bs t))"
    "run_in S r (tr_world t) \<Longrightarrow> run_in S r (tr_world (beat_trainer bs t))" by (simp_all add: beat_trainer_def)
qed

lemma count_step_facts [simp]:
  "tr_step (count_step p t) = tr_step t + 1" "tr_iter (count_step p t) = tr_iter t + 1" "tr_last (count_step p t) = tr_last t"
  "tr_model (count_step p t) = pl_batch p (tr_iter t) (tr_model t)" "last_saved (count_step p t) = last_saved t" "tr_world (count_step p t) = tr_world t"
  by (simp_all add: count_step_def last_saved_def)

lemma same_saved_newest_is: "same_saved obj w w' \<Longrightarrow> newest_is e obj p s0 m0 l w' \<longleftrightarrow> newest_is e obj p s0 m0 l w"
  by (simp add: newest_is_def same_saved_facts(1) split: option.split)

lemma trainer_at_moves:
  assumes "trainer_at S e obj p s0 m0 t"
  shows "trainer_at S e obj p s0 m0 (beat_trainer bs t)" and "trainer_at S e obj p s0 m0 (count_step p t)"
  using assms beat_trainer_world(2) [of S "pl_run_id p" t bs] same_saved_newest_is [OF beat_trainer_world(1) [of obj t bs], of e p s0 m0 "tr_last t"]
  by (simp_all add: trainer_at_def)

text \<open>A batch up to the question whether a checkpoint is due.\<close>

lemma advance_facts [simp]:
  "tr_step (advance p t) = tr_step t + 1" "tr_iter (advance p t) = tr_iter t + 1" "tr_last (advance p t) = tr_last t"
  "last_saved (advance p t) = last_saved t"
  by (simp_all add: advance_def)

lemma advance_saved: "same_saved obj (tr_world t) (tr_world (advance p t))"
  unfolding advance_def
  by (rule same_saved_trans [OF _ beat_trainer_world(1)]) (simp add: beat_trainer_world(1))

lemma advance_inv:
  assumes t: "trainer_inv e obj p s0 m0 t"
  shows "trainer_at {RUNNING} e obj p s0 m0 (advance p t)" "tr_last (advance p t) \<noteq> Some (tr_step (advance p t))"
    "tr_iter (advance p t) \<le> j \<Longrightarrow> unused obj (pl_run_id p) (si_checkpoint_id (pl_save p j)) (tr_world (advance p t))"
proof -
  from t have at: "trainer_at {RUNNING} e obj p s0 m0 t" by (simp add: trainer_inv_def)
  then show "trainer_at {RUNNING} e obj p s0 m0 (advance p t)" unfolding advance_def by (intro trainer_at_moves)
  from at show "tr_last (advance p t) \<noteq> Some (tr_step (advance p t))" by (auto simp: trainer_at_def last_saved_def)
  show "unused obj (pl_run_id p) (si_checkpoint_id (pl_save p j)) (tr_world (advance p t))" if "tr_iter (advance p t) \<le> j"
    using t that unfolding same_saved_facts(2) [OF advance_saved] by (simp add: trainer_inv_def)
qed

lemma batch_ok:
  assumes env: "env_ok e obj upl pages tok" and p: "plan_ok deser p" and t: "trainer_inv e obj p s0 m0 t"
  shows "\<exists>ok t'. train_batch e p t = Some (ok, t') \<and> tr_step t' = tr_step t + 1
    \<and> (if ok then trainer_inv e obj p s0 m0 t' else trainer_raised e obj p s0 m0 t')"
proof -
  let ?n = "pl_every p" and ?t = "advance p t"
  have log: "pl_log_every p \<noteq> 0" using p by (simp add: plan_ok_def)
  have bound: "tr_step t div ?n * ?n \<le> last_saved t" using t by (simp add: trainer_inv_def)
  note adv = advance_inv [OF t]
  show ?thesis
  proof (cases "0 < ?n \<and> tr_step ?t mod ?n = 0")
    case True
    have batch: "train_batch e p t = save_now e p (pl_loss p (tr_iter t)) ?t" using True log by (simp add: train_batch_def Let_def)
    from save_now_ok [OF env p adv, of "pl_loss p (tr_iter t)"] obtain ok t' where
      t': "save_now e p (pl_loss p (tr_iter t)) ?t = Some (ok, t')" "tr_step t' = tr_step t + 1"
        "if ok then trainer_inv e obj p s0 m0 t' else trainer_at {FAILED} e obj p s0 m0 t' \<and> tr_last t' = tr_last t" by (auto split: if_splits)
    with bound batch show ?thesis by (intro exI [of _ ok] exI [of _ t']) (simp add: trainer_raised_def last_saved_def split: if_splits)
  next
    case False
    have batch: "train_batch e p t = Some (True, ?t)" using False log by (auto simp: train_batch_def Let_def)
    have "tr_step ?t div ?n = tr_step t div ?n" using False div_Suc_same [of ?n "tr_step t"] by (cases "?n = 0") auto
    with bound have "tr_step ?t div ?n * ?n \<le> last_saved ?t" by simp
    then have "trainer_inv e obj p s0 m0 ?t" using adv by (auto simp: trainer_inv_def)
    with batch show ?thesis by (intro exI [of _ True] exI [of _ ?t]) simp
  qed
qed

lemma epoch_ok:
  assumes env: "env_ok e obj upl pages tok" and p: "plan_ok deser p"
  shows "trainer_inv e obj p s0 m0 t \<Longrightarrow> \<exists>ok t'. train_epoch e p n t = Some (ok, t') \<and> tr_step t \<le> tr_step t'
    \<and> (0 < n \<longrightarrow> keep_going p t \<longrightarrow> tr_step t < tr_step t')
    \<and> (if ok then trainer_inv e obj p s0 m0 t' else trainer_raised e obj p s0 m0 t')"
proof (induction n arbitrary: t)
  case (Suc n)
  show ?case
  proof (cases "keep_going p t")
    case True
    from batch_ok [OF env p Suc.prems] obtain ok t1 where t1: "train_batch e p t = Some (ok, t1)" "tr_step t1 = tr_step t + 1"
      "if ok then trainer_inv e obj p s0 m0 t1 else trainer_raised e obj p s0 m0 t1" by blast
    show ?thesis
    proof (cases ok)
      case ok: True
      with t1(3) Suc.IH [of t1] obtain ok' t' where "train_epoch e p n t1 = Some (ok', t')" "tr_step t1 \<le> tr_step t'"
        "if ok' then trainer_inv e obj p s0 m0 t' else trainer_raised e obj p s0 m0 t'" by auto
      with True ok t1(1,2) show ?thesis by (intro exI [of _ ok'] exI [of _ t']) simp
    qed (use True t1 in auto)
  qed (use Suc.prems in auto)
qed auto

lemma loop_ok:
  assumes env: "env_ok e obj upl pages tok" and p: "plan_ok deser p" and b: "0 < pl_batches p"
  shows "trainer_inv e obj p s0 m0 t \<Longrightarrow> \<exists>ok t'. train_loop e p t = Some (ok, t')
    \<and> (if ok then trainer_inv e obj p s0 m0 t' \<and> \<not> keep_going p t' else trainer_raised e obj p s0 m0 t')"
proof (induction "pl_steps p - tr_step t" arbitrary: t rule: less_induct)
  case less
  show ?case
  proof (cases "keep_going p t")
    case True
    from epoch_ok [OF env p less.prems, of "pl_batches p"] b True obtain ok t1 where
      t1: "train_epoch e p (pl_batches p) t = Some (ok, t1)" "tr_step t < tr_step t1"
        "if ok then trainer_inv e obj p s0 m0 t1 else trainer_raised e obj p s0 m0 t1" by auto
    show ?thesis
    proof (cases ok)
      case ok: True
      have "pl_steps p - tr_step t1 < pl_steps p - tr_step t" using t1(2) True unfolding keep_going_def by linarith
      from less.hyps [OF this] t1(3) ok obtain ok' t' where "train_loop e p t1 = Some (ok', t')"
        "if ok' then trainer_inv e obj p s0 m0 t' \<and> \<not> keep_going p t' else trainer_raised e obj p s0 m0 t'" by auto
      with True ok t1(1) show ?thesis by (subst train_loop.simps) auto
    next
      case False
      with True t1 show ?thesis by (subst train_loop.simps) auto
    qed
  next
    case False
    with less.prems show ?thesis by (subst train_loop.simps) auto
  qed
qed

text \<open>A process at the beginning of its loop, as \<open>start_training\<close> leaves it.\<close>

definition trainer_start :: "'s env \<Rightarrow> 's objects \<Rightarrow> 'm plan \<Rightarrow> ('s, 'm) trainer \<Rightarrow> bool" where
  "trainer_start e obj p t =
     (tr_iter t = 0 \<and> tr_last t = (if 0 < tr_step t then Some (tr_step t) else None) \<and> run_in {RUNNING} (pl_run_id p) (tr_world t)
      \<and> newest_is e obj p (tr_step t) (tr_model t) (tr_last t) (tr_world t)
      \<and> (\<forall>i. unused obj (pl_run_id p) (si_checkpoint_id (pl_save p i)) (tr_world t)))"

lemma start_inv: "trainer_start e obj p t \<Longrightarrow> trainer_inv e obj p (tr_step t) (tr_model t) t"
  by (auto simp: trainer_start_def trainer_inv_def trainer_at_def last_saved_def)

text \<open>A checkpoint of the loop is never one of step 0, which the next process would take for none.\<close>

lemma epoch_last: "train_epoch e p n t = Some (ok, t') \<Longrightarrow> tr_last t \<noteq> Some 0 \<Longrightarrow> tr_last t' \<noteq> Some 0"
proof (induction n arbitrary: t)
  case (Suc n)
  have "tr_last t1 \<noteq> Some 0" if "train_batch e p t = Some (ok1, t1)" for ok1 t1
    using that Suc.prems(2) by (auto simp: train_batch_def save_now_def Let_def split: if_splits)
  with Suc show ?case by (auto split: if_splits option.splits)
qed auto

text \<open>The plan of a later process: same run and serialisation, new identifiers.\<close>

definition later_plan :: "'s objects \<Rightarrow> 'm plan \<Rightarrow> 'm plan \<Rightarrow> 's world \<Rightarrow> bool" where
  "later_plan obj p p' w = (pl_run_id p' = pl_run_id p \<and> pl_ser p' = pl_ser p
     \<and> (\<forall>i. unused obj (pl_run_id p) (si_checkpoint_id (pl_save p' i)) w))"

section \<open>Deaths\<close>

text \<open>
  Where a process may die after a number of batches: there, in the next batch after \<open>j\<close> of its
  events (the heartbeats and the optimizer step, in their order), or in the next save, which is the one that
  follows the next batch or the final one, after \<open>j\<close> of its requests.
\<close>

datatype death = AfterBatches | InBatch nat | InSave nat

definition part_batch :: "nat \<Rightarrow> 'm plan \<Rightarrow> ('s, 'm) trainer \<Rightarrow> ('s, 'm) trainer" where
  "part_batch j p t =
     (let early = pl_early_beats p (tr_iter t); late = pl_late_beats p (tr_iter t)
      in if j \<le> length early then beat_trainer (take j early) t
         else beat_trainer (take (j - length early - 1) late) (count_step p (beat_trainer early t)))"

definition part_save :: "nat \<Rightarrow> 's env \<Rightarrow> 'm plan \<Rightarrow> real \<Rightarrow> ('s, 'm) trainer \<Rightarrow> ('s, 'm) trainer option" where
  "part_save j e p loss t =
     map_option (\<lambda>w. t\<lparr>tr_world := w\<rparr>)
       (interrupted_save j e (pl_save p (tr_iter t)) (pl_run_id p) 0 (int (tr_step t)) (pl_ser p (tr_step t) loss (tr_model t)) (tr_world t))"

definition die :: "'s env \<Rightarrow> 'm plan \<Rightarrow> death \<Rightarrow> ('s, 'm) trainer \<Rightarrow> ('s, 'm) trainer option" where
  "die e p d t =
     (case d of
        AfterBatches \<Rightarrow> Some t
      | InBatch j \<Rightarrow> Some (if keep_going p t then part_batch j p t else t)
      | InSave j \<Rightarrow>
          if keep_going p t
          then (if 0 < pl_every p \<and> tr_step (advance p t) mod pl_every p = 0
                then part_save j e p (pl_loss p (tr_iter t)) (advance p t) else Some (advance p t))
          else (if tr_last t \<noteq> Some (tr_step t) then part_save j e p (tr_running_loss t) t else Some t))"

text \<open>After at most \<open>n\<close> batches; a process whose save raised is dead already.\<close>

definition killed :: "'s env \<Rightarrow> 'm plan \<Rightarrow> nat \<Rightarrow> death \<Rightarrow> ('s, 'm) trainer \<Rightarrow> ('s, 'm) trainer option" where
  "killed e p n d t =
     (case train_epoch e p n t of
        None \<Rightarrow> None
      | Some (ok, t1) \<Rightarrow> if ok then die e p d t1 else Some t1)"

text \<open>All events of a batch are the batch, and all requests of a save are the save.\<close>

lemma part_batch_all: "length (pl_early_beats p (tr_iter t)) + length (pl_late_beats p (tr_iter t)) < j \<Longrightarrow> part_batch j p t = advance p t"
  by (simp add: part_batch_def advance_def)

lemma part_save_all: "3 \<le> j \<Longrightarrow> map_option tr_world (part_save j e p x t) = map_option (tr_world \<circ> snd) (save_now e p x t)"
  by (cases "save_checkpoint_runtime e (pl_save p (tr_iter t)) (pl_run_id p) 0 (int (tr_step t)) (pl_ser p (tr_step t) x (tr_model t)) (tr_world t)")
    (auto simp: part_save_def save_now_def interrupted_save_all)

text \<open>
  What a dead trainer leaves behind: the run can be resumed, and the newest checkpoint is that of step \<open>c\<close>, which is
  not before the last multiple of the interval below the step of the trainer (no checkpoint counts as step 0). It
  is \<open>clean\<close> when no checkpoint is in progress.
\<close>

definition left_behind :: "'s env \<Rightarrow> 's objects \<Rightarrow> 'm plan \<Rightarrow> nat \<Rightarrow> 'm \<Rightarrow> nat \<Rightarrow> ('s, 'm) trainer \<Rightarrow> bool" where
  "left_behind e obj p s0 m0 c t =
     (run_at {RUNNING, CHECKPOINTING, FAILED} (pl_run_id p) (tr_world t)
      \<and> (\<exists>l. newest_is e obj p s0 m0 l (tr_world t) \<and> c = (case l of None \<Rightarrow> 0 | Some n \<Rightarrow> n))
      \<and> c \<le> tr_step t \<and> (tr_step t - 1) div pl_every p * pl_every p \<le> c)"

definition clean :: "'s env \<Rightarrow> 's objects \<Rightarrow> jsstring \<Rightarrow> nat \<Rightarrow> 's world \<Rightarrow> bool" where
  "clean e obj r c w = (idle r w \<and> (0 < c \<or> newest_saved e obj r w None))"

lemma left_behind_at:
  assumes "trainer_at S e obj p s0 m0 t" "S \<subseteq> {RUNNING, CHECKPOINTING, FAILED}" "tr_last t \<noteq> Some 0"
    "(tr_step t - 1) div pl_every p * pl_every p \<le> last_saved t"
  shows "left_behind e obj p s0 m0 (last_saved t) t" "clean e obj (pl_run_id p) (last_saved t) (tr_world t)"
proof -
  show "left_behind e obj p s0 m0 (last_saved t) t" using assms(1,2,4)
    by (auto simp: left_behind_def trainer_at_def last_saved_def run_in_at intro: run_at_mono)
  show "clean e obj (pl_run_id p) (last_saved t) (tr_world t)"
    using assms(1,3) by (cases "tr_last t") (auto simp: clean_def trainer_at_def run_in_at last_saved_def newest_is_def)
qed

lemma div_pred: "(n - 1) div k * k \<le> n div k * (k :: nat)"
  by (simp add: div_le_mono)

lemma part_save_left:
  assumes env: "env_ok e obj upl pages tok" and p: "plan_ok deser p"
    and t: "trainer_at {RUNNING} e obj p s0 m0 t" "tr_last t \<noteq> Some (tr_step t)"
    and k: "unused obj (pl_run_id p) (si_checkpoint_id (pl_save p (tr_iter t))) (tr_world t)"
    and b: "(tr_step t - 1) div pl_every p * pl_every p \<le> last_saved t"
  shows "\<exists>t' c. part_save j e p x t = Some t' \<and> left_behind e obj p s0 m0 c t'"
proof -
  from interrupted_now_ok [OF env p t k, of j x] obtain w l where
    w: "interrupted_save j e (pl_save p (tr_iter t)) (pl_run_id p) 0 (int (tr_step t)) (pl_ser p (tr_step t) x (tr_model t)) (tr_world t) = Some w"
      "run_at {RUNNING, CHECKPOINTING, FAILED} (pl_run_id p) w" "newest_is e obj p s0 m0 l w" "l \<in> {tr_last t, Some (tr_step t)}" by blast
  have last: "last_saved t \<le> tr_step t" using t(1) by (simp add: trainer_at_def)
  have "(tr_step t - 1) div pl_every p * pl_every p \<le> tr_step t" using b last by (rule le_trans)
  with w b last have "left_behind e obj p s0 m0 (case l of None \<Rightarrow> 0 | Some n \<Rightarrow> n) (t\<lparr>tr_world := w\<rparr>)"
    by (auto simp: left_behind_def last_saved_def)
  with w(1) show ?thesis by (auto simp: part_save_def)
qed

lemma part_batch_at:
  assumes t: "trainer_at S e obj p s0 m0 t" and b: "tr_step t div pl_every p * pl_every p \<le> last_saved t"
  shows "trainer_at S e obj p s0 m0 (part_batch j p t)" "tr_last (part_batch j p t) = tr_last t"
    "(tr_step (part_batch j p t) - 1) div pl_every p * pl_every p \<le> last_saved (part_batch j p t)"
proof -
  show "trainer_at S e obj p s0 m0 (part_batch j p t)" by (auto simp: part_batch_def Let_def intro!: trainer_at_moves t)
  show "tr_last (part_batch j p t) = tr_last t" by (simp add: part_batch_def Let_def)
  show "(tr_step (part_batch j p t) - 1) div pl_every p * pl_every p \<le> last_saved (part_batch j p t)"
    using b le_trans [OF div_pred b] by (simp add: part_batch_def Let_def)
qed

lemma die_left:
  assumes env: "env_ok e obj upl pages tok" and p: "plan_ok deser p" and inv: "trainer_inv e obj p s0 m0 t" and last: "tr_last t \<noteq> Some 0"
  shows "\<exists>t' c. die e p d t = Some t' \<and> left_behind e obj p s0 m0 c t'
    \<and> ((\<forall>j. d \<noteq> InSave j) \<longrightarrow> clean e obj (pl_run_id p) c (tr_world t'))
    \<and> (d = AfterBatches \<longrightarrow> tr_step t' div pl_every p * pl_every p \<le> c)"
proof -
  from inv have at: "trainer_at {RUNNING} e obj p s0 m0 t" and b: "tr_step t div pl_every p * pl_every p \<le> last_saved t"
    by (simp_all add: trainer_inv_def)
  note here = left_behind_at [OF at _ last le_trans [OF div_pred b]]
  note adv = advance_inv [OF inv]
  show ?thesis
  proof (cases d)
    case AfterBatches
    with here b show ?thesis by (intro exI [of _ t] exI [of _ "last_saved t"]) (simp add: die_def)
  next
    case (InBatch j)
    note part = part_batch_at [OF at b, of j]
    from left_behind_at [OF part(1) _ _ part(3)] part(2) last here InBatch show ?thesis
      by (cases "keep_going p t") (auto simp: die_def)
  next
    case (InSave j)
    have b': "(tr_step (advance p t) - 1) div pl_every p * pl_every p \<le> last_saved (advance p t)" using b by simp
    show ?thesis
    proof (cases "keep_going p t")
      case True
      with part_save_left [OF env p adv(1,2) adv(3) [OF le_refl] b', of j] left_behind_at(1) [OF adv(1) _ _ b'] last InSave show ?thesis
        by (auto simp: die_def)
    next
      case False
      have "unused obj (pl_run_id p) (si_checkpoint_id (pl_save p (tr_iter t))) (tr_world t)" if "tr_last t \<noteq> Some (tr_step t)"
        using inv that by (simp add: trainer_inv_def)
      with part_save_left [OF env p at _ _ le_trans [OF div_pred b], of j] here(1) False InSave show ?thesis by (auto simp: die_def)
    qed
  qed
qed

text \<open>
  A process that is started after the trainer died, and the other ranks with it: it gets step \<open>c\<close> and model
  \<open>m\<close>. The run is running then; only a run that had failed and is named by the environment is recovering. From a clean
  world the new process is at the start of its loop.
\<close>

definition resumes_at ::
  "nat \<Rightarrow> 'm \<Rightarrow> 's env \<Rightarrow> 's objects \<Rightarrow> (bytes \<Rightarrow> 'm option) \<Rightarrow> boot \<Rightarrow> boot \<Rightarrow> jsstring \<Rightarrow> 'm plan \<Rightarrow> 'm \<Rightarrow> 's world \<Rightarrow> bool" where
  "resumes_at c m e obj deser b b' shared p m0 w =
     (\<exists>h w1. start_training e deser b m0 shared w = (Some (pl_run_id p, h, int c, m), shared, w1)
        \<and> run_at (if bo_run_id b \<noteq> [] \<and> run_at {FAILED} (pl_run_id p) w then {RECOVERING} else {RUNNING}) (pl_run_id p) w1
        \<and> follow_run_id b' [(shared, wd_api w1)] = Some (pl_run_id p)
        \<and> (\<forall>p'. clean e obj (pl_run_id p) c w \<longrightarrow> run_at {RUNNING} (pl_run_id p) w1 \<longrightarrow> later_plan obj p p' w1 \<longrightarrow>
             trainer_start e obj p' (loop_start h c m w1)))"

lemma left_newest:
  assumes p: "plan_ok deser p" and l: "left_behind e obj p s0 m0 c t"
  obtains s where "newest_saved e obj (pl_run_id p) (tr_world t) s" "intact deser s"
    "restored deser m0 s = Some (int c, models p m0 (c - s0))"
proof -
  from l obtain l where new: "newest_is e obj p s0 m0 l (tr_world t)" and c: "c = (case l of None \<Rightarrow> 0 | Some n \<Rightarrow> n)"
    by (auto simp: left_behind_def)
  from newest_is_saved [OF new, of deser] p that show thesis unfolding c by blast
qed

lemma restarted_ok:
  assumes env: "env_ok e obj upl pages tok" and p: "plan_ok deser p" and l: "left_behind e obj p s0 m0 c t"
    and b: "boot_for (pl_run_id p) b shared" "boot_for (pl_run_id p) b' shared"
  shows "resumes_at c (models p m0 (c - s0)) e obj deser b b' shared p m0 (tr_world t)"
    and "\<exists>w. load_checkpoint_runtime e deser (pl_run_id p) rank m0 (tr_world t) = (Some (int c, models p m0 (c - s0)), w)"
proof -
  let ?r = "pl_run_id p" and ?m = "models p m0 (c - s0)" and ?w = "tr_world t"
  have r: "?r \<noteq> []" using p by (simp add: plan_ok_def)
  obtain s where s: "newest_saved e obj ?r ?w s" "intact deser s" "restored deser m0 s = Some (int c, ?m)" by (rule left_newest [OF p l]) blast
  have "run_at {RUNNING, CHECKPOINTING, FAILED} ?r ?w" using l by (simp add: left_behind_def)
  then obtain st where st: "run_at {st} ?r ?w" "st \<in> {RUNNING, CHECKPOINTING, FAILED}" using run_at_cases by blast
  then have res: "st \<in> set RESUMABLE_RUN_STATES" by (auto simp: RESUMABLE_RUN_STATES_def)
  from load_ok [OF env st(1) s(1,2), of rank m0] s(3)
  show "\<exists>w. load_checkpoint_runtime e deser ?r rank m0 ?w = (Some (int c, ?m), w)" by auto
  from start_ok [OF env st(1) res r b(1) s(1,2), of m0] s(3) obtain h w where
    w: "start_training e deser b m0 shared ?w = (Some (?r, h, int c, ?m), shared, w)"
      "run_at {if bo_run_id b = [] then RUNNING else resumed st} ?r w" "same_saved obj ?w w" by auto
  have state: "run_at (if bo_run_id b \<noteq> [] \<and> run_at {FAILED} ?r ?w then {RECOVERING} else {RUNNING}) ?r w"
    using w(2) run_at_state [OF st(1), of FAILED] by (auto simp: resumed_def split: if_splits)
  then have "run_at (set RESUMABLE_RUN_STATES) ?r w" by (rule run_at_mono) (simp add: RESUMABLE_RUN_STATES_def)
  note follow = follower_ok [OF this r b(2), of "[]"]
  have "trainer_start e obj p' (loop_start h c ?m w)" if clean: "clean e obj ?r c ?w" and run: "run_at {RUNNING} ?r w" and later: "later_plan obj p p' w" for p'
  proof -
    have "run_in {RUNNING} ?r w" using run clean same_saved_facts(3) [OF w(3), of ?r] by (simp add: run_in_at clean_def)
    moreover have "newest_is e obj p' c ?m (if 0 < c then Some c else None) w"
    proof (cases "0 < c")
      case True
      with l have "newest_is e obj p s0 m0 (Some c) ?w" by (auto simp: left_behind_def split: option.splits)
      with True later same_saved_newest_is [OF w(3), of e p s0 m0 "Some c"] show ?thesis by (auto simp: newest_is_def later_plan_def)
    next
      case False
      with clean later same_saved_facts(1) [OF w(3)] show ?thesis by (simp add: newest_is_def clean_def later_plan_def)
    qed
    ultimately show ?thesis using later by (simp add: trainer_start_def loop_start_def later_plan_def)
  qed
  with w(1) state follow show "resumes_at c ?m e obj deser b b' shared p m0 ?w" unfolding resumes_at_def by blast
qed

lemma load_last:
  assumes env: "env_ok e obj upl pages tok" and p: "plan_ok deser p" and t: "trainer_at S e obj p s0 m0 t"
  shows "\<exists>w. load_checkpoint_runtime e deser (pl_run_id p) rank m0 (tr_world t) = (Some (int (last_saved t), models p m0 (last_saved t - s0)), w)"
proof -
  from t have run: "run_at S (pl_run_id p) (tr_world t)" and new: "newest_is e obj p s0 m0 (tr_last t) (tr_world t)"
    by (simp_all add: trainer_at_def run_in_at)
  from newest_is_saved [OF new, of deser] p obtain s where s: "newest_saved e obj (pl_run_id p) (tr_world t) s" "intact deser s"
    "restored deser m0 s = Some (int (last_saved t), models p m0 (last_saved t - s0))" unfolding last_saved_def by blast
  from load_ok [OF env run s(1,2), of rank m0] s(3) show ?thesis by auto
qed

lemma interval_bounds:
  fixes c :: nat
  assumes "0 < k" shows "n div k * k \<le> c \<Longrightarrow> n - c < k" and "(n - 1) div k * k \<le> c \<Longrightarrow> n - c \<le> k"
proof -
  show "n - c < k" if "n div k * k \<le> c" using that assms dividend_less_div_times [OF assms, of n] by linarith
  show "n - c \<le> k" if "(n - 1) div k * k \<le> c" using that dividend_less_div_times [OF assms, of "n - 1"] by linarith
qed

text \<open>
  C5. A crash loses at most one interval of work. Let the process of rank 0 die after any number of batches: there, in the
  middle of the next batch, in a save (of the loop or the final one) after any number of its three requests, or
  by the exception of a save that failed. A process that is started again on what it left, whether it finds the run in the
  shared file or is told by \<open>RUN_ID\<close>, gets the step and exactly the model of the newest checkpoint. That checkpoint is
  less than \<open>checkpoint_every\<close> steps behind when the process dies between two batches, and at most
  \<open>checkpoint_every\<close> steps otherwise. The run is running then, or recovering if it had failed and is named
  by \<open>RUN_ID\<close>; the other ranks find it and load the same. When the process did not die in a save, which may leave a
  checkpoint in progress, and the run is running, the new process is at the start of its loop, so that all this holds for it again.
\<close>

theorem crash_loses_at_most_one_interval:
  assumes "env_ok e obj upl pages tok" and "plan_ok deser p" and "0 < pl_every p" and "trainer_start e obj p t0"
    and "boot_for (pl_run_id p) b shared" and "boot_for (pl_run_id p) b' shared"
  shows "\<exists>ok t1 t c. train_epoch e p n t0 = Some (ok, t1) \<and> killed e p n d t0 = Some t
    \<and> c \<le> tr_step t \<and> tr_step t - c \<le> pl_every p \<and> (ok \<and> d = AfterBatches \<longrightarrow> tr_step t - c < pl_every p)
    \<and> resumes_at c (models p (tr_model t0) (c - tr_step t0)) e obj deser b b' shared p (tr_model t0) (tr_world t)
    \<and> (\<forall>rank. \<exists>w. load_checkpoint_runtime e deser (pl_run_id p) rank (tr_model t0) (tr_world t) =
          (Some (int c, models p (tr_model t0) (c - tr_step t0)), w))
    \<and> ((\<forall>j. d \<noteq> InSave j) \<or> \<not> ok \<longrightarrow> clean e obj (pl_run_id p) c (tr_world t))"
proof -
  let ?s0 = "tr_step t0" and ?m0 = "tr_model t0"
  from epoch_ok [OF assms(1,2) start_inv [OF assms(4)], of n] obtain ok t1 where
    t1: "train_epoch e p n t0 = Some (ok, t1)" "if ok then trainer_inv e obj p ?s0 ?m0 t1 else trainer_raised e obj p ?s0 ?m0 t1" by blast
  have last: "tr_last t1 \<noteq> Some 0" by (rule epoch_last [OF t1(1)]) (use assms(4) in \<open>simp add: trainer_start_def\<close>)
  have "\<exists>t c. killed e p n d t0 = Some t \<and> left_behind e obj p ?s0 ?m0 c t
    \<and> ((\<forall>j. d \<noteq> InSave j) \<or> \<not> ok \<longrightarrow> clean e obj (pl_run_id p) c (tr_world t))
    \<and> (ok \<and> d = AfterBatches \<longrightarrow> tr_step t div pl_every p * pl_every p \<le> c)"
  proof (cases ok)
    case True
    with die_left [OF assms(1,2) _ last, of ?s0 ?m0 d] t1 show ?thesis by (simp add: killed_def)
  next
    case False
    then have "trainer_at {FAILED} e obj p ?s0 ?m0 t1" "(tr_step t1 - 1) div pl_every p * pl_every p \<le> last_saved t1"
      using t1(2) by (simp_all add: trainer_raised_def)
    from left_behind_at [OF this(1) _ last this(2)] False t1(1) show ?thesis by (simp add: killed_def) blast
  qed
  then obtain t c where t: "killed e p n d t0 = Some t" "left_behind e obj p ?s0 ?m0 c t"
    "(\<forall>j. d \<noteq> InSave j) \<or> \<not> ok \<longrightarrow> clean e obj (pl_run_id p) c (tr_world t)"
    "ok \<and> d = AfterBatches \<longrightarrow> tr_step t div pl_every p * pl_every p \<le> c" by blast
  from t(2) have c: "c \<le> tr_step t" "(tr_step t - 1) div pl_every p * pl_every p \<le> c" by (simp_all add: left_behind_def)
  have "tr_step t - c \<le> pl_every p" by (rule interval_bounds(2) [OF assms(3) c(2)])
  moreover have "ok \<and> d = AfterBatches \<longrightarrow> tr_step t - c < pl_every p" using interval_bounds(1) [OF assms(3)] t(4) by blast
  ultimately show ?thesis using t1(1) t(1,3) c(1) restarted_ok [OF assms(1,2) t(2) assms(5,6)] by blast
qed

subsection \<open>A sample\<close>

text \<open>A model of one byte that every batch increments, saved every 50 steps into the store in memory.\<close>

definition sample_env :: "mem env" where
  "sample_env = \<lparr>en_s3 = mem_s3, en_sha256 = sample_sha, en_enc = (\<lambda>t. []), en_to_json = sample_to_json, en_from_json = sample_from_json, en_max_depth = 4\<rparr>"

definition sample_save :: "nat \<Rightarrow> save_input" where
  "sample_save i = \<lparr>si_checkpoint_id = js ''k'' @ nat_str i, si_uuid = js ''u1'', si_stamp = js ''now'', si_duration = 1, si_now = 7\<rparr>"

definition sample_beat :: beat where
  "sample_beat = \<lparr>be_heartbeat = Answered, be_register = Answered, be_new_id = js ''w2'', be_now = 8, be_clock = 3\<rparr>"

definition sample_boot :: boot where
  "sample_boot = \<lparr>bo_run_id = [], bo_new_run_id = js ''r2'', bo_config = sample_config, bo_worker_id = js ''w1'', bo_hostname = js ''host'',
     bo_now = 8, bo_clock = 2\<rparr>"

definition sample_plan :: "8 word plan" where
  "sample_plan = \<lparr>pl_run_id = js ''r1'', pl_steps = 100, pl_every = 50, pl_log_every = 10, pl_batches = 10, pl_ser = (\<lambda>n l m. [m]), pl_batch = (\<lambda>i m. m + 1),
     pl_loss = (\<lambda>i. 0), pl_stop = (\<lambda>i. False), 
     pl_early_beats = (\<lambda>i. [sample_beat]), pl_late_beats = (\<lambda>i. []), pl_save = sample_save, pl_now = 9\<rparr>"

definition sample_deser :: "bytes \<Rightarrow> 8 word option" where
  "sample_deser d = (case d of [m] \<Rightarrow> Some m | _ \<Rightarrow> None)"

definition sample_world :: "mem world" where
  "sample_world = \<lparr>wd_fleet = (new_process coord_empty)\<lparr>fl_api := sample_api\<rparr>, wd_dp = sample_service\<rparr>"

definition sample_trainer :: "(mem, 8 word) trainer" where
  "sample_trainer = loop_start \<lparr>ht_worker_id = js ''w1'', ht_run_id = js ''r1'', ht_hostname = js ''host'', ht_rank = 0, ht_step = 0\<rparr> 0 0 sample_world"

lemma sample_env_ok: "env_ok sample_env mem_obj mem_upl mem_pages mem_tok"
  using mem_laws mem_reads mem_paging by (simp add: env_ok_def sample_env_def sample_to_json_def sample_from_json_def split: if_splits)

lemma sample_plan_ok: "plan_ok sample_deser sample_plan"
  by (simp add: plan_ok_def sample_plan_def sample_deser_def sample_save_def inj_def js_simps)

lemma sample_trainer_start: "trainer_start sample_env mem_obj sample_plan sample_trainer"
proof -
  let ?w = sample_world
  have w: "wd_api ?w = sample_api" "wd_dp ?w = sample_service" by (simp_all add: sample_world_def)
  have "\<not> is_digit (Ch (CHR ''/''))" by (simp add: is_digit_def digit_val_def digit_table_def)
  then have "Ch (CHR ''/'') \<notin> set (js ''k'' @ nat_str i)" for i using nat_str_digits by (auto simp: js_simps)
  then have "unused mem_obj (js ''r1'') (si_checkpoint_id (sample_save i)) ?w" for i
    by (simp add: w unused_def sample_api_checkpoints sample_save_def shards_of_def sample_api_shards sample_service_def mem_obj_def)
  moreover have "run_in {RUNNING} (js ''r1'') ?w"
    using sample_api_run server_reachable_ok [OF sample_api_reachable] by (simp add: w run_in_def idle_def sample_api_checkpoints)
  moreover have "newest_saved sample_env mem_obj (js ''r1'') ?w None" by (simp add: w newest_saved_def committed_def sample_api_checkpoints)
  ultimately show ?thesis by (simp add: trainer_start_def sample_trainer_def loop_start_def sample_plan_def newest_is_def)
qed

text \<open>The process dies in the save of step 50 after the upload, and one that finds the run in the shared file takes over.\<close>

theorem crash_loses_at_most_one_interval_witness:
  "\<exists>ok t1 t c. train_epoch sample_env sample_plan 49 sample_trainer = Some (ok, t1)
    \<and> killed sample_env sample_plan 49 (InSave 2) sample_trainer = Some t \<and> c \<le> tr_step t \<and> tr_step t - c \<le> 50
    \<and> resumes_at c (models sample_plan 0 c) sample_env mem_obj sample_deser sample_boot (sample_boot\<lparr>bo_run_id := js ''r1''\<rparr>) (js ''r1'')
        sample_plan 0 (tr_world t)"
proof -
  have p: "0 < pl_every sample_plan" "pl_every sample_plan = 50" by (simp_all add: sample_plan_def)
  have t: "tr_model sample_trainer = 0" "tr_step sample_trainer = 0" by (simp_all add: sample_trainer_def loop_start_def)
  have b: "boot_for (pl_run_id sample_plan) sample_boot (js ''r1'')"
    "boot_for (pl_run_id sample_plan) (sample_boot\<lparr>bo_run_id := js ''r1''\<rparr>) (js ''r1'')"
    by (simp_all add: boot_for_def sample_boot_def sample_plan_def)
  from crash_loses_at_most_one_interval [OF sample_env_ok sample_plan_ok p(1) sample_trainer_start b, of 49 "InSave 2"]
  show ?thesis unfolding p t minus_nat.diff_0 by meson
qed

text \<open>The final checkpoint, and the completion of the run.\<close>

lemma final_save_ok:
  assumes env: "env_ok e obj upl pages tok" and p: "plan_ok deser p" and inv: "trainer_inv e obj p s0 m0 t"
  shows "\<exists>ok t'. (if tr_last t \<noteq> Some (tr_step t) then save_now e p (tr_running_loss t) t else Some (True, t)) = Some (ok, t')
    \<and> tr_step t' = tr_step t \<and> tr_iter t' = tr_iter t
    \<and> (if ok then trainer_at {RUNNING} e obj p s0 m0 t' \<and> tr_last t' = Some (tr_step t') else trainer_at {FAILED} e obj p s0 m0 t')"
proof (cases "tr_last t = Some (tr_step t)")
  case True
  with inv show ?thesis by (intro exI [of _ True] exI [of _ t]) (simp add: trainer_inv_def)
next
  case False
  have at: "trainer_at {RUNNING} e obj p s0 m0 t" using inv by (simp add: trainer_inv_def)
  have "unused obj (pl_run_id p) (si_checkpoint_id (pl_save p i)) (tr_world t)" if "tr_iter t \<le> i" for i
    using inv False that by (cases "i = tr_iter t") (auto simp: trainer_inv_def)
  from save_now_ok [OF env p at False this, of "tr_running_loss t"] obtain ok t' where
    "save_now e p (tr_running_loss t) t = Some (ok, t')" "tr_step t' = tr_step t" "tr_iter t' = tr_iter t"
    "if ok then trainer_inv e obj p s0 m0 t' \<and> tr_last t' = Some (tr_step t) else trainer_at {FAILED} e obj p s0 m0 t' \<and> tr_last t' = tr_last t" by blast
  with False show ?thesis by (intro exI [of _ ok] exI [of _ t']) (simp add: trainer_inv_def split: if_splits)
qed

lemma finish_ok:
  assumes env: "env_ok e obj upl pages tok" and p: "plan_ok deser p" and inv: "trainer_inv e obj p s0 m0 t"
  shows "\<exists>ok t'. finish_training e p t = Some (ok, t') \<and> tr_step t' = tr_step t \<and> tr_iter t' = tr_iter t
    \<and> (if ok then trainer_at {COMPLETED} e obj p s0 m0 t' \<and> tr_last t' = Some (tr_step t') else trainer_at {FAILED} e obj p s0 m0 t')"
proof -
  from final_save_ok [OF assms] obtain ok t2 where
    t2: "(if tr_last t \<noteq> Some (tr_step t) then save_now e p (tr_running_loss t) t else Some (True, t)) = Some (ok, t2)"
      "tr_step t2 = tr_step t" "tr_iter t2 = tr_iter t"
      "if ok then trainer_at {RUNNING} e obj p s0 m0 t2 \<and> tr_last t2 = Some (tr_step t2) else trainer_at {FAILED} e obj p s0 m0 t2" by blast
  show ?thesis
  proof (cases ok)
    case False
    with t2 show ?thesis by (intro exI [of _ False] exI [of _ t2]) (simp add: finish_training_def)
  next
    case True
    let ?w = "with_api (snd (rest_complete_run (pl_run_id p) (pl_now p) (wd_api (tr_world t2)))) (tr_world t2)"
    have at: "trainer_at {RUNNING} e obj p s0 m0 t2" using t2(4) True by simp
    then have "run_in {RUNNING} (pl_run_id p) (tr_world t2)" by (simp add: trainer_at_def)
    from complete_ok [OF this, of "pl_now p" obj] have "run_in {COMPLETED} (pl_run_id p) ?w" and saved: "same_saved obj (tr_world t2) ?w" by simp_all
    with at same_saved_newest_is [OF saved, of e p s0 m0 "tr_last t2"] have "trainer_at {COMPLETED} e obj p s0 m0 (t2\<lparr>tr_world := ?w\<rparr>)"
      by (simp add: trainer_at_def last_saved_def)
    with True t2 show ?thesis by (intro exI [of _ True] exI [of _ "t2\<lparr>tr_world := ?w\<rparr>"]) (simp add: finish_training_def)
  qed
qed

text \<open>
  C6. Training ends. With at least one batch in an epoch the loop of rank 0 returns; when nothing raised, the
  run is completed, all steps were done unless a stop was requested, and the newest checkpoint, which
  every rank can load, is the final model at the final step. Otherwise the run has failed.
\<close>

theorem training_completes:
  assumes "env_ok e obj upl pages tok" and "plan_ok deser p" and "0 < pl_batches p" and "trainer_start e obj p t0"
  shows "\<exists>ok t. train e p t0 = Some (ok, t)
    \<and> (if ok
       then run_in {COMPLETED} (pl_run_id p) (tr_world t) \<and> (pl_steps p \<le> tr_step t \<or> pl_stop p (tr_iter t))
         \<and> tr_model t = models p (tr_model t0) (tr_step t - tr_step t0)
         \<and> (\<forall>rank. \<exists>w. load_checkpoint_runtime e deser (pl_run_id p) rank (tr_model t0) (tr_world t) = (Some (int (tr_step t), tr_model t), w))
       else run_in {FAILED} (pl_run_id p) (tr_world t))"
proof -
  let ?s0 = "tr_step t0" and ?m0 = "tr_model t0"
  from loop_ok [OF assms(1,2,3) start_inv [OF assms(4)]] obtain ok t1 where
    t1: "train_loop e p t0 = Some (ok, t1)"
      "if ok then trainer_inv e obj p ?s0 ?m0 t1 \<and> \<not> keep_going p t1 else trainer_raised e obj p ?s0 ?m0 t1" by blast
  show ?thesis
  proof (cases ok)
    case False
    with t1 show ?thesis by (intro exI [of _ False] exI [of _ t1]) (simp add: train_def trainer_raised_def trainer_at_def)
  next
    case True
    with t1(2) have inv: "trainer_inv e obj p ?s0 ?m0 t1" and stop: "\<not> keep_going p t1" by simp_all
    from finish_ok [OF assms(1,2) inv] obtain ok2 t2 where
      t2: "finish_training e p t1 = Some (ok2, t2)" "tr_step t2 = tr_step t1" "tr_iter t2 = tr_iter t1"
        "if ok2 then trainer_at {COMPLETED} e obj p ?s0 ?m0 t2 \<and> tr_last t2 = Some (tr_step t2) else trainer_at {FAILED} e obj p ?s0 ?m0 t2" by blast
    have train: "train e p t0 = Some (ok2, t2)" using True t1(1) t2(1) by (simp add: train_def)
    show ?thesis
    proof (cases ok2)
      case yes: True
      with t2(4) have at: "trainer_at {COMPLETED} e obj p ?s0 ?m0 t2" and last: "last_saved t2 = tr_step t2" by (simp_all add: last_saved_def)
      then have "tr_step t2 - ?s0 = tr_iter t2" "tr_model t2 = models p ?m0 (tr_iter t2)" "run_in {COMPLETED} (pl_run_id p) (tr_world t2)"
        by (simp_all add: trainer_at_def)
      with train yes last stop t2(2,3) load_last [OF assms(1,2) at] show ?thesis by (intro exI [of _ ok2] exI [of _ t2]) (auto simp: keep_going_def)
    qed (use train t2(4) in \<open>auto simp: trainer_at_def\<close>)
  qed
qed

theorem training_completes_witness:
  "\<exists>ok t. train sample_env sample_plan sample_trainer = Some (ok, t)
    \<and> (if ok then run_in {COMPLETED} (js ''r1'') (tr_world t) else run_in {FAILED} (js ''r1'') (tr_world t))"
proof -
  have p: "0 < pl_batches sample_plan" "pl_run_id sample_plan = js ''r1''" by (simp_all add: sample_plan_def)
  from training_completes [OF sample_env_ok sample_plan_ok p(1) sample_trainer_start] show ?thesis unfolding p(2) by meson
qed

section \<open>Two cases in which training does not go on\<close>

text \<open>
  A process that is told its run by the environment asks only once for the run to resume. A failed run
  is recovering then, not running, and the first checkpoint that the process tries to save is refused.
\<close>

theorem named_run_stays_recovering:
  assumes env: "env_ok e obj upl pages tok" and run: "run_in {FAILED} r w" and b: "bo_run_id b = r" "r \<noteq> []"
    and new: "newest_saved e obj r w s" "intact deser s"
  shows "\<exists>h w'. start_training e deser b m shared w = (map_option (\<lambda>nm. (r, h, nm)) (restored deser m s), shared, w')
    \<and> run_in {RECOVERING} r w' \<and> (\<exists>w''. save_checkpoint_runtime e i r 0 n d w' = Some (False, w''))"
proof -
  have ok: "coord_ok (fl_coord (wd_fleet w))" using run by (simp add: run_in_def)
  from joined [OF ok, of b 0 r] obtain h f where f: "join_run b 0 r (wd_fleet w) = (Some h, f)" "quiet (wd_fleet w) f" by blast
  let ?w = "w\<lparr>wd_fleet := f\<rparr>"
  note w = quiet_saved(1) [OF f(2), of obj] quiet_saved(2) [OF f(2) run [unfolded run_in_at, THEN conjunct1]]
  have "newest_saved e obj r ?w s" using same_saved_facts(1) [OF w(1)] new(1) by blast
  from load_ok [OF env w(2) this new(2), of 0 m] obtain w1 where
    w1: "load_checkpoint_runtime e deser r 0 m ?w = (restored deser m s, w1)" "run_at {FAILED} r w1" "same_saved obj ?w w1" by blast
  from resume_ok [OF w1(2), of "bo_now b" obj] obtain status a where
    a: "rest_resume_run r (bo_now b) (wd_api w1) = (Ok status, a)" "run_at {RECOVERING} r (with_api a w1)" "same_saved obj w1 (with_api a w1)"
    by (auto simp: RESUMABLE_RUN_STATES_def resumed_def)
  have "idle r (with_api a w1)"
    using run same_saved_facts(3) [OF same_saved_trans [OF same_saved_trans [OF w(1) w1(3)] a(3)], of r] by (simp add: run_in_at)
  with a(2) have in_run: "run_in {RECOVERING} r (with_api a w1)" by (simp add: run_in_at)
  obtain nm where nm: "restored deser m s = Some nm" using new(2) by (cases s) (auto simp: restored_def intact_def)
  have "start_training e deser b m shared w = (map_option (\<lambda>nm. (r, h, nm)) (restored deser m s), shared, with_api a w1)"
    using f(1) w1(1) a(1) nm b by (cases nm) (simp add: start_training_def get_or_create_run_id_def Let_def)
  moreover obtain q where q: "coord_ok (ai_coord a)" "kv_get (run_key r) (co_kv (ai_coord a)) = Some (RunVal q)" "pr_state q = RECOVERING"
    using a(2) by (auto simp: run_at_def)
  then have "CHECKPOINTING \<notin> set (VALID_TRANSITIONS (pr_state q))" by simp
  from transition_run_invalid [OF q(1,2) this, of "si_now i"] obtain c where
    "transition_run r CHECKPOINTING (si_now i) (ai_coord a) = (Inl (InvalidTransitionError (pr_state q) CHECKPOINTING), c)" by blast
  then have "\<exists>w''. save_checkpoint_runtime e i r 0 n d (with_api a w1) = Some (False, w'')"
    by (simp add: save_checkpoint_runtime_def rest_trigger_checkpoint_def)
  ultimately show ?thesis using in_run by blast
qed

text \<open>
  A data set that is smaller than one batch gives a loader without batches (\<open>drop_last\<close>), and the outer loop
  spins without end until a stop is requested.
\<close>

theorem empty_loader_spins:
  assumes "pl_batches p = 0" "keep_going p t"
  shows "train_loop e p t = None"
proof -
  have "pl_batches p = 0 \<longrightarrow> \<not> keep_going p t" if "train_loop e p t = Some y" for y
    by (rule train_loop.raw_induct [OF _ that], intro impI notI) (auto split: if_splits)
  with assms show ?thesis by (cases "train_loop e p t") auto
qed

end
