(* ===== verification/Operations.thy ===== *)
theory Operations
  imports Recovery Widgets PerformancePage JsRegex
begin

text \<open>
  What the control plane tells the panels of the frontend: visitors and activity, health, metrics and
  the event streams of runs (\<open>python-controlplane/src/controlplane/api/rest.py\<close>). The answers have the
  record types of the pages that show them, so that the properties go from the stored records to
  the page.

  Times are whole seconds as in the rest of the control plane. The answers of the geolocation service,
  of the data plane and of the clocks are arguments, and real numbers stand for floating point ones.
\<close>

section \<open>Visitors\<close>

record geo =
  ge_country :: jsstring
  ge_country_code :: jsstring
  ge_flag :: jsstring

record visitor =
  vi_geo :: geo
  vi_last_seen :: int
  vi_ip :: jsstring

record visitors =
  vz_visitors :: "(jsstring \<times> visitor) list"
  vz_countries :: "(jsstring \<times> geo) list"

text \<open>U+1F310 and U+1F4BB as code units. A flag is made of two regional indicators; country codes are ASCII.\<close>

definition globe :: jsstring where
  "globe = [Uni 55356, Uni 57104]"

definition laptop :: jsstring where
  "laptop = [Uni 55357, Uni 56507]"

definition letter_index :: "jschar \<Rightarrow> nat" where
  "letter_index x = (case x of Ch c \<Rightarrow> (if of_char c \<ge> (97 :: nat) then of_char c - 97 else of_char c - 65) | Uni n \<Rightarrow> n - 65)"

definition ip_to_flag :: "jsstring \<Rightarrow> jsstring" where
  "ip_to_flag country_code =
     (if length country_code \<noteq> 2 then globe else concat (map (\<lambda>c. [Uni 55356, Uni (56806 + letter_index c)]) country_code))"

definition private_prefixes :: "jsstring list" where
  "private_prefixes = [js ''127.'', js ''10.'', js ''172.'', js ''192.168.'', js ''::1'', js ''0.0.0.0'']"

text \<open>The reply of the service is the country and its code, where given; \<open>None\<close> is a failed request.\<close>

definition lookup_country :: "(jsstring option \<times> jsstring option) option \<Rightarrow> jsstring \<Rightarrow> (jsstring \<times> geo) list \<Rightarrow> geo \<times> (jsstring \<times> geo) list" where
  "lookup_country reply ip cache =
     (case map_of cache ip of
        Some g \<Rightarrow> (g, cache)
      | None \<Rightarrow>
          let g = (if list_ex (startsWith ip) private_prefixes
                   then \<lparr>ge_country = js ''Local'', ge_country_code = [], ge_flag = laptop\<rparr>
                   else (case reply of
                           Some (country, code) \<Rightarrow>
                             \<lparr>ge_country = given country (js ''Unknown''), ge_country_code = given code [], ge_flag = ip_to_flag (given code [])\<rparr>
                         | None \<Rightarrow> \<lparr>ge_country = js ''Unknown'', ge_country_code = [], ge_flag = globe\<rparr>))
          in (g, AList.update ip g cache))"

definition clean_stale_visitors :: "int \<Rightarrow> (jsstring \<times> visitor) list \<Rightarrow> (jsstring \<times> visitor) list" where
  "clean_stale_visitors now vs = filter (\<lambda>(sid, v). \<not> now - vi_last_seen v > 45) vs"

definition code_of :: "visitor \<Rightarrow> jsstring" where
  "code_of v = (if ge_country_code (vi_geo v) = [] then js ''XX'' else ge_country_code (vi_geo v))"

definition count_country :: "visitor \<Rightarrow> (jsstring \<times> CountryInfo) list \<Rightarrow> (jsstring \<times> CountryInfo) list" where
  "count_country v counts =
     (let cc = code_of v;
          old = given (map_of counts cc) \<lparr>cy_country = ge_country (vi_geo v), cy_country_code = cc, cy_flag = ge_flag (vi_geo v), cy_count = 0\<rparr>
      in AList.update cc (old\<lparr>cy_count := cy_count old + 1\<rparr>) counts)"

definition country_list :: "visitor list \<Rightarrow> CountryInfo list" where
  "country_list vs = sort_key (\<lambda>c. - cy_count c) (map snd (fold count_country vs []))"

definition recent_activity :: "fleet \<Rightarrow> ActivityItem list" where
  "recent_activity f = map (\<lambda>(message, flag, t). \<lparr>ac_message = message, ac_flag = flag, ac_timestamp = real_of_int t\<rparr>) (take 20 (fl_activity f))"

text \<open>The address is the first one of the forwarding header, if there is one.\<close>

definition client_ip :: "jsstring \<Rightarrow> jsstring option \<Rightarrow> jsstring" where
  "client_ip forwarded host =
     (if forwarded \<noteq> []
      then (let first = hd (split_on (Ch (CHR '','')) forwarded)
            in rev (dropWhile is_space (rev (dropWhile is_space first))))
      else given host (js ''0.0.0.0''))"

definition demo_visitor_ping ::
  "jsstring \<Rightarrow> (jsstring option \<times> jsstring option) option \<Rightarrow> jsstring \<Rightarrow> jsstring \<Rightarrow> int \<Rightarrow> visitors \<Rightarrow> fleet \<Rightarrow>
   VisitorData \<times> visitors \<times> fleet" where
  "demo_visitor_ping uuid reply ip session now z f =
     (let session_id = (if session = [] then uuid else session);
          (g, cache) = lookup_country reply ip (vz_countries z);
          is_new = (map_of (vz_visitors z) session_id = None);
          vs = AList.update session_id \<lparr>vi_geo = g, vi_last_seen = now, vi_ip = ip\<rparr> (vz_visitors z);
          f1 = (if is_new then add_activity (js ''Someone from '' @ ge_country g @ js '' is watching the demo'') (ge_flag g) now f else f);
          vs1 = clean_stale_visitors now vs
      in (\<lparr>vd_session_id = session_id, vd_total_visitors = int (length vs1), vd_countries = country_list (map snd vs1),
           vd_activity = recent_activity f1\<rparr>,
          \<lparr>vz_visitors = vs1, vz_countries = cache\<rparr>, f1))"

definition demo_activity_feed :: "int \<Rightarrow> visitors \<Rightarrow> fleet \<Rightarrow> (int \<times> ActivityItem list) \<times> visitors" where
  "demo_activity_feed now z f =
     (let vs = clean_stale_visitors now (vz_visitors z)
      in ((int (length vs), recent_activity f), z\<lparr>vz_visitors := vs\<rparr>))"

section \<open>Health and metrics\<close>

text \<open>\<open>round(x, n)\<close>: halves go to the even neighbour.\<close>

definition py_round :: "nat \<Rightarrow> real \<Rightarrow> real" where
  "py_round n x =
     (let y = x * 10 ^ n; k = \<lfloor>y\<rfloor>; d = y - real_of_int k
      in real_of_int (if d < 1 / 2 \<or> d = 1 / 2 \<and> even k then k else k + 1) / 10 ^ n)"

definition active_run_state :: "RunState \<Rightarrow> bool" where
  "active_run_state st = (st \<in> {RUNNING, CHECKPOINTING})"

text \<open>The health of the control plane; \<open>dp\<close> is the reply of a connected data plane.\<close>

record py_health = HealthStatus +
  ph_dataplane_connected :: bool

definition health_check :: "bool \<Rightarrow> bool option \<Rightarrow> real \<Rightarrow> api \<Rightarrow> py_health http" where
  "health_check etcd_connected dp uptime a =
     (case coord_list_runs (ai_coord a) of
        Inl e \<Rightarrow> HttpError 500
      | Inr runs \<Rightarrow>
          let healthy = (dp = Some True)
          in Ok \<lparr>hs_status = (if etcd_connected \<and> healthy then HEALTHY else DEGRADED), hs_version = js ''0.2.0'',
                 hs_uptime_seconds = py_round 2 uptime, hs_active_runs = int (length (filter (\<lambda>r. active_run_state (pr_state r)) runs)),
                 hs_etcd_connected = etcd_connected, ph_dataplane_connected = healthy\<rparr>)"

fun all_checkpoints :: "py_run list \<Rightarrow> coordinator \<Rightarrow> coord_error + py_checkpoint list" where
  "all_checkpoints [] c = Inr []"
| "all_checkpoints (r # rs) c =
     (case coord_list_checkpoints (pr_run_id r) c of
        Inl e \<Rightarrow> Inl e
      | Inr cps \<Rightarrow> (case all_checkpoints rs c of Inl e \<Rightarrow> Inl e | Inr cps' \<Rightarrow> Inr (cps @ cps')))"

definition metrics_summary :: "api \<Rightarrow> MetricsSummary http" where
  "metrics_summary a =
     (case coord_list_runs (ai_coord a) of
        Inl e \<Rightarrow> HttpError 500
      | Inr runs \<Rightarrow>
          (case coord_list_workers None (ai_coord a) of
             Inl e \<Rightarrow> HttpError 500
           | Inr workers \<Rightarrow>
               (case all_checkpoints runs (ai_coord a) of
                  Inl e \<Rightarrow> HttpError 500
                | Inr cps \<Rightarrow>
                    let total = length cps; committed = length (filter (\<lambda>cp. pk_state cp = ''COMMITTED'') cps)
                    in Ok \<lparr>ms_total_runs = int (length runs),
                           ms_active_runs = int (length (filter (\<lambda>r. active_run_state (pr_state r)) runs)),
                           ms_total_checkpoints = int total, ms_total_checkpoint_bytes = sum_list (map pk_total_bytes cps),
                           ms_total_workers = int (length workers),
                           ms_active_workers = int (length (filter (\<lambda>w. pw_status w = ''ACTIVE'') workers)),
                           ms_checkpoint_success_rate = py_round 4 (if total > 0 then real committed / real total else 0)\<rparr>)))"

text \<open>The last 30 saves; \<open>restores\<close> are the durations of all downloads, the oldest first.\<close>

definition performance_metrics :: "real list \<Rightarrow> api \<Rightarrow> PerformanceData http" where
  "performance_metrics restores a =
     (case coord_list_runs (ai_coord a) of
        Inl e \<Rightarrow> HttpError 500
      | Inr runs \<Rightarrow>
          (case all_checkpoints runs (ai_coord a) of
             Inl e \<Rightarrow> HttpError 500
           | Inr cps \<Rightarrow>
               Ok \<lparr>pd_latency = map (\<lambda>(i, duration). \<lparr>lp_index = int i, lp_save = py_round 3 duration,
                                        lp_restore = py_round 3 (if i < length restores then restores ! i else 0)\<rparr>)
                                 (enumerate 0 (lastn 30 (ai_durations a))),
                   pd_total_checkpoint_bytes = sum_list (map pk_total_bytes cps),
                   pd_checkpoint_count = int (length (ai_durations a))\<rparr>))"

section \<open>Event streams\<close>

text \<open>The queues of the open streams with their run, in the order in which they were opened; a full queue drops an event.\<close>

record stream =
  sm_id :: nat
  sm_run_id :: jsstring
  sm_queue :: "string list"

definition open_stream :: "nat \<Rightarrow> jsstring \<Rightarrow> api \<Rightarrow> stream list \<Rightarrow> unit http \<times> stream list" where
  "open_stream n run_id a ss =
     (case coord_get_run run_id (ai_coord a) of
        Inl e \<Rightarrow> (HttpError 500, ss)
      | Inr None \<Rightarrow> (HttpError 404, ss)
      | Inr (Some r) \<Rightarrow> (Ok (), ss @ [\<lparr>sm_id = n, sm_run_id = run_id, sm_queue = []\<rparr>]))"

definition put_event :: "string \<Rightarrow> stream \<Rightarrow> stream" where
  "put_event event s = (if length (sm_queue s) < 256 then s\<lparr>sm_queue := sm_queue s @ [event]\<rparr> else s)"

definition deliver_event :: "jsstring \<Rightarrow> string \<Rightarrow> stream list \<Rightarrow> stream list" where
  "deliver_event run_id event ss = map (\<lambda>s. if sm_run_id s = run_id then put_event event s else s) ss"

definition close_stream :: "nat \<Rightarrow> stream list \<Rightarrow> stream list" where
  "close_stream n ss = filter (\<lambda>s. sm_id s \<noteq> n) ss"

section \<open>Counting\<close>

lemma sum_update:
  "sum_list (map (g \<circ> snd) (AList.update k v xs)) = sum_list (map (g \<circ> snd) xs) + g v - (case map_of xs k of None \<Rightarrow> 0 | Some w \<Rightarrow> (g w :: int))"
  by (induction xs) auto

definition counted :: "visitor list \<Rightarrow> (jsstring \<times> CountryInfo) list \<Rightarrow> bool" where
  "counted vs counts =
     (distinct (map fst counts) \<and> sum_list (map (cy_count \<circ> snd) counts) = int (length vs)
      \<and> (\<forall>cc i. map_of counts cc = Some i \<longrightarrow> cy_country_code i = cc)
      \<and> (\<forall>cc. int (length (filter (\<lambda>v. code_of v = cc) vs)) = (case map_of counts cc of None \<Rightarrow> 0 | Some i \<Rightarrow> cy_count i))
      \<and> (\<forall>cc i. map_of counts cc = Some i \<longrightarrow> 0 < cy_count i))"

lemma counted_step: "counted vs counts \<Longrightarrow> counted (vs @ [v]) (count_country v counts)"
  unfolding counted_def count_country_def Let_def
  by (auto simp: sum_update AList.update_conv' given_def distinct_update split: option.splits) (meson less_imp_le)

lemma counted_all: "counted vs (fold count_country vs [])"
  by (induction vs rule: rev_induct) (simp add: counted_def, simp add: counted_step)

lemma country_list_counts:
  shows "distinct (map cy_country_code (country_list vs))" and "sum_list (map cy_count (country_list vs)) = int (length vs)"
    and "c \<in> set (country_list vs) \<Longrightarrow> 0 < cy_count c \<and> cy_count c = int (length (filter (\<lambda>v. code_of v = cy_country_code c) vs))"
    and "sorted (map (\<lambda>c. - cy_count c) (country_list vs))"
proof -
  let ?xs = "fold count_country vs []"
  note counted = counted_all [of vs, unfolded counted_def]
  have fst: "cy_country_code i = cc" "0 < cy_count i" "cy_count i = int (length (filter (\<lambda>v. code_of v = cc) vs))"
    if "(cc, i) \<in> set ?xs" for cc i
  proof -
    have "map_of ?xs cc = Some i" using counted that by simp
    then show "cy_country_code i = cc" "0 < cy_count i" "cy_count i = int (length (filter (\<lambda>v. code_of v = cc) vs))"
      using counted by (auto split: option.splits)
  qed
  have set: "set (country_list vs) = snd ` set ?xs" by (simp add: country_list_def)
  have m: "mset (map g (country_list vs)) = mset (map g (map snd ?xs))" for g :: "CountryInfo \<Rightarrow> 'x"
    by (simp add: country_list_def flip: map_map)
  have "map cy_country_code (map snd ?xs) = map fst ?xs" using fst(1) by (auto intro: map_cong)
  then show "distinct (map cy_country_code (country_list vs))"
    using counted mset_eq_imp_distinct_iff [OF m, of cy_country_code] by (simp del: map_map)
  have "sum_list (map cy_count (country_list vs)) = sum_list (map cy_count (map snd ?xs))"
    using arg_cong [OF m [of cy_count], where f = sum_mset] by (simp only: sum_mset_sum_list)
  then show "sum_list (map cy_count (country_list vs)) = int (length vs)" using counted by (simp add: o_def)
  show "0 < cy_count c \<and> cy_count c = int (length (filter (\<lambda>v. code_of v = cy_country_code c) vs))" if "c \<in> set (country_list vs)"
    using that fst unfolding set by fastforce
  show "sorted (map (\<lambda>c. - cy_count c) (country_list vs))" by (simp add: country_list_def)
qed

text \<open>
  What a visitor is told: the session it asked for (or a new one), which is counted; all counted visitors
  were seen in the last 45 seconds; the countries add up to the visitors, have different codes, so that
  the tags of the page have different keys, and come by falling counts; the feed keeps its bounds.
\<close>

theorem visitor_reply:
  assumes "demo_visitor_ping uuid reply ip session now z f = (d, z', f')" and "length (fl_activity f) \<le> 50" and "distinct (map fst (vz_visitors z))"
  shows "vd_session_id d = (if session = [] then uuid else session)"
    and "(case map_of (vz_visitors z') (vd_session_id d) of None \<Rightarrow> False | Some v \<Rightarrow> vi_last_seen v = now)"
    and "\<forall>(sid, v) \<in> set (vz_visitors z'). now - vi_last_seen v \<le> 45" and "distinct (map fst (vz_visitors z'))"
    and "vd_total_visitors d = int (length (vz_visitors z'))" and "sum_list (map cy_count (vd_countries d)) = vd_total_visitors d"
    and "distinct (keys_of (map country_tag (vd_countries d)))" and "sorted (map (\<lambda>c. - cy_count c) (vd_countries d))"
    and "length (fl_activity f') \<le> 50" and "length (vd_activity d) \<le> 20"
proof -
  obtain g cache where g: "lookup_country reply ip (vz_countries z) = (g, cache)" by fastforce
  let ?s = "if session = [] then uuid else session" and ?v = "\<lparr>vi_geo = g, vi_last_seen = now, vi_ip = ip\<rparr>"
  let ?vs = "clean_stale_visitors now (AList.update ?s ?v (vz_visitors z))"
  have eq: "vd_session_id d = ?s" "vz_visitors z' = ?vs" "vd_total_visitors d = int (length ?vs)" "vd_countries d = country_list (map snd ?vs)"
    and act: "vd_activity d = recent_activity f'" and f': "f' = f \<or> f' = add_activity (js ''Someone from '' @ ge_country g @ js '' is watching the demo'') (ge_flag g) now f"
    using assms(1) g by (auto simp: demo_visitor_ping_def Let_def)
  note counts = country_list_counts [where vs = "map snd ?vs"]
  show "vd_session_id d = ?s" by (rule eq)
  have upd: "distinct (map fst (AList.update ?s ?v (vz_visitors z)))" using assms(3) by (simp add: distinct_update)
  have dist: "distinct (map fst ?vs)" using upd by (simp add: clean_stale_visitors_def distinct_map_filter)
  have "(?s, ?v) \<in> set (AList.update ?s ?v (vz_visitors z))" using upd by (intro map_of_SomeD) (simp add: AList.update_conv')
  then have "(?s, ?v) \<in> set ?vs" by (simp add: clean_stale_visitors_def)
  with dist have "map_of ?vs ?s = Some ?v" by simp
  then show "case map_of (vz_visitors z') (vd_session_id d) of None \<Rightarrow> False | Some v \<Rightarrow> vi_last_seen v = now" by (simp add: eq)
  show "\<forall>(sid, v) \<in> set (vz_visitors z'). now - vi_last_seen v \<le> 45" unfolding eq by (auto simp: clean_stale_visitors_def)
  show "distinct (map fst (vz_visitors z'))" using dist by (simp add: eq)
  show "vd_total_visitors d = int (length (vz_visitors z'))" by (simp add: eq)
  show "sum_list (map cy_count (vd_countries d)) = vd_total_visitors d" using counts(2) by (simp add: eq)
  show "distinct (keys_of (map country_tag (vd_countries d)))" using counts(1) by (simp add: eq country_tags.keys_distinct)
  show "sorted (map (\<lambda>c. - cy_count c) (vd_countries d))" using counts(4) by (simp add: eq)
  show "length (fl_activity f') \<le> 50" using f' assms(2) by (auto simp: add_activity_def Let_def)
  show "length (vd_activity d) \<le> 20" by (simp add: act recent_activity_def)
qed

section \<open>Metrics\<close>

lemma py_round_unit:
  assumes "0 \<le> x" "x \<le> 1"
  shows "0 \<le> py_round n x" "py_round n x \<le> 1"
proof -
  define y where "y = x * 10 ^ n"
  define k where "k = (if y - real_of_int \<lfloor>y\<rfloor> < 1 / 2 \<or> y - real_of_int \<lfloor>y\<rfloor> = 1 / 2 \<and> even \<lfloor>y\<rfloor> then \<lfloor>y\<rfloor> else \<lfloor>y\<rfloor> + 1)"
  have k: "py_round n x = real_of_int k / 10 ^ n" by (simp add: py_round_def Let_def k_def y_def)
  have y: "0 \<le> y" "y \<le> real_of_int (10 ^ n)" using assms by (simp_all add: y_def mult_le_cancel_right1)
  have "0 \<le> k" using y(1) by (simp add: k_def)
  moreover have "k \<le> 10 ^ n"
  proof (cases "y = real_of_int (10 ^ n)")
    case True
    then show ?thesis unfolding k_def by (simp only: True floor_of_int) simp
  next
    case False
    with y(2) have "\<lfloor>y\<rfloor> < 10 ^ n" by (simp add: floor_less_iff del: of_int_power)
    then show ?thesis by (simp add: k_def)
  qed
  then have "real_of_int k \<le> 10 ^ n" by (metis of_int_le_iff of_int_numeral of_int_power)
  ultimately show "0 \<le> py_round n x" "py_round n x \<le> 1" by (simp_all add: k)
qed

lemma math_round_pct: "0 \<le> x \<Longrightarrow> x \<le> 1 \<Longrightarrow> 0 \<le> math_round (x * 100) \<and> math_round (x * 100) \<le> 100"
  by (auto simp: math_round_def floor_le_iff)

lemma part_pct:
  "0 \<le> ratio_pct (int (length (filter P xs))) (int (length xs))" "ratio_pct (int (length (filter P xs))) (int (length xs)) \<le> 100"
  using ratio_pct_bounds [of "int (length (filter P xs))" "int (length (filter P xs))" "int (length xs)"] by simp_all

lemma all_checkpoints_ok:
  assumes "coord_ok c"
  shows "\<exists>cps. all_checkpoints rs c = Inr cps \<and> set cps = {k. pk_run_id k \<in> pr_run_id ` set rs \<and> (\<exists>j. coord_get_checkpoint j c = Inr (Some k))}
    \<and> (distinct (map pr_run_id rs) \<longrightarrow> distinct cps)"
proof (induction rs)
  case (Cons r rs)
  then obtain cps where cps: "all_checkpoints rs c = Inr cps"
    "set cps = {k. pk_run_id k \<in> pr_run_id ` set rs \<and> (\<exists>j. coord_get_checkpoint j c = Inr (Some k))}" "distinct (map pr_run_id rs) \<longrightarrow> distinct cps" by blast
  from list_checkpoints_ok [OF assms, of "pr_run_id r"] obtain ks where ks: "coord_list_checkpoints (pr_run_id r) c = Inr ks"
    "set ks = {k. pk_run_id k = pr_run_id r \<and> (\<exists>j. coord_get_checkpoint j c = Inr (Some k))}" "distinct (map pk_checkpoint_id ks)" by blast
  with cps show ?case by (intro exI [of _ "ks @ cps"]) (auto simp: distinct_map, metis image_eqI)
qed simp

text \<open>
  The summary is answered for every well-formed store. It counts every stored checkpoint of a stored run
  once, its parts are at most the whole, the success rate is between 0 and 1, and so the bars of the
  page are between 0 and 100 percent wide.
\<close>

theorem summary_consistent:
  assumes "coord_ok (ai_coord a)"
  shows "\<exists>m. metrics_summary a = Ok m \<and> ms_active_runs m \<le> ms_total_runs m \<and> ms_active_workers m \<le> ms_total_workers m
    \<and> ms_total_checkpoints m = int (card {k. (\<exists>j. coord_get_checkpoint j (ai_coord a) = Inr (Some k))
         \<and> (\<exists>i r. coord_get_run i (ai_coord a) = Inr (Some r) \<and> pr_run_id r = pk_run_id k)})
    \<and> 0 \<le> ms_checkpoint_success_rate m \<and> ms_checkpoint_success_rate m \<le> 1
    \<and> (\<forall>p \<in> {ratio_pct (ms_active_workers m) (ms_total_workers m), math_round (ms_checkpoint_success_rate m * 100),
             ratio_pct (ms_active_runs m) (ms_total_runs m)}. 0 \<le> p \<and> p \<le> 100)"
proof -
  let ?c = "ai_coord a"
  obtain rs where rs: "coord_list_runs ?c = Inr rs" "set rs = {r. \<exists>i. coord_get_run i ?c = Inr (Some r)}" "distinct (map pr_run_id rs)"
    using list_runs_ok [OF assms] by blast
  obtain ws where ws: "coord_list_workers None ?c = Inr ws" using list_workers_total [OF assms] by blast
  obtain cps where cps: "all_checkpoints rs ?c = Inr cps" "distinct cps"
    "set cps = {k. pk_run_id k \<in> pr_run_id ` set rs \<and> (\<exists>j. coord_get_checkpoint j ?c = Inr (Some k))}"
    using all_checkpoints_ok [OF assms, of rs] rs(3) by blast
  let ?done = "length (filter (\<lambda>cp. pk_state cp = ''COMMITTED'') cps)"
  let ?rate = "if length cps > 0 then real ?done / real (length cps) else 0"
  have rate: "0 \<le> ?rate" "?rate \<le> 1" by (auto simp: divide_le_eq_1)
  have "set cps = {k. (\<exists>j. coord_get_checkpoint j ?c = Inr (Some k)) \<and> (\<exists>i r. coord_get_run i ?c = Inr (Some r) \<and> pr_run_id r = pk_run_id k)}"
    unfolding cps(3) rs(2) by (auto simp: image_iff) metis+
  then have card: "length cps = card {k. (\<exists>j. coord_get_checkpoint j ?c = Inr (Some k)) \<and> (\<exists>i r. coord_get_run i ?c = Inr (Some r) \<and> pr_run_id r = pk_run_id k)}"
    using distinct_card [OF cps(2)] by simp
  note unit = py_round_unit [OF rate, of 4]
  obtain m where m: "metrics_summary a = Ok m" "ms_total_checkpoints m = int (length cps)" "ms_checkpoint_success_rate m = py_round 4 ?rate"
    "ms_total_runs m = int (length rs)" "ms_active_runs m = int (length (filter (\<lambda>r. active_run_state (pr_state r)) rs))"
    "ms_total_workers m = int (length ws)" "ms_active_workers m = int (length (filter (\<lambda>w. pw_status w = ''ACTIVE'') ws))"
    using rs(1) ws cps(1) by (simp add: metrics_summary_def Let_def)
  have "\<forall>p \<in> {ratio_pct (ms_active_workers m) (ms_total_workers m), math_round (ms_checkpoint_success_rate m * 100),
      ratio_pct (ms_active_runs m) (ms_total_runs m)}. 0 \<le> p \<and> p \<le> 100"
    using math_round_pct [OF unit] by (simp only: m) (auto simp: part_pct)
  moreover have "0 \<le> ms_checkpoint_success_rate m" "ms_checkpoint_success_rate m \<le> 1" unfolding m by (fact unit)+
  moreover have "ms_active_runs m \<le> ms_total_runs m" "ms_active_workers m \<le> ms_total_workers m" unfolding m by simp_all
  ultimately show ?thesis using m(1,2) card by metis
qed

text \<open>The restore times that are shown are always the oldest ones: later downloads never reach the chart.\<close>

theorem later_restores_not_shown:
  assumes "30 \<le> length restores"
  shows "performance_metrics (restores @ later) a = performance_metrics restores a"
proof -
  have "(if i < length (restores @ later) then (restores @ later) ! i else 0) = (if i < length restores then restores ! i else 0)"
    if "(i, d) \<in> set (enumerate 0 (lastn 30 (ai_durations a)))" for i d
  proof -
    from that have "i < 30" by (auto simp: in_set_enumerate_eq)
    with assms show ?thesis by (simp add: nth_append)
  qed
  then show ?thesis by (simp add: performance_metrics_def cong: map_cong) (auto split: sum.split)
qed

section \<open>Events\<close>

text \<open>
  A stream gets the events of its run in their order, as long as at most 256 wait; other streams get nothing.
\<close>

lemma deliver_events:
  "foldl (\<lambda>ss e. deliver_event r e ss) ss es =
     map (\<lambda>s. if sm_run_id s = r then s\<lparr>sm_queue := sm_queue s @ take (256 - length (sm_queue s)) es\<rparr> else s) ss"
proof (induction es arbitrary: ss)
  case (Cons e es)
  have "put_event e s\<lparr>sm_queue := sm_queue (put_event e s) @ take (256 - length (sm_queue (put_event e s))) es\<rparr>
      = s\<lparr>sm_queue := sm_queue s @ take (256 - length (sm_queue s)) (e # es)\<rparr>" for s
    by (cases "length (sm_queue s) < 256") (auto simp: put_event_def take_Cons')
  with Cons show ?case by (auto simp: deliver_event_def put_event_def)
qed (simp add: map_idI)

end
