(* ===== verification/Motion.thy ===== *)
theory Motion
  imports JsText
begin

text \<open>
  The moving parts of the frontend: the animations of the menu at the end of
  \<open>frontend/src/App.tsx\<close>, the hook \<open>hooks/useReveal.ts\<close> that reveals an element when it is scrolled into view,
  and the address of the API (\<open>config/api.ts\<close>).

  An animation library moves each property of an element to the value of the variant that becomes
  active, or through its keyframes.
\<close>

section \<open>Variants of the menu\<close>

datatype css = Px real | Css string | Frames "string list"

record timing =
  tn_duration :: real
  tn_ease :: "real list option"
  tn_delay :: "real option"

record motion =
  mo_values :: "(string \<times> css) list"
  mo_transition :: "timing option"

type_synonym variants = "(string \<times> motion) list"

definition EASE_CURVE :: "real list" where
  "EASE_CURVE = [76 / 100, 0, 24 / 100, 1]"

definition eased :: "real option \<Rightarrow> timing" where
  "eased delay = \<lparr>tn_duration = 8 / 10, tn_ease = Some EASE_CURVE, tn_delay = delay\<rparr>"

definition MENU_SLIDE :: variants where
  "MENU_SLIDE =
     [(''initial'', \<lparr>mo_values = [(''x'', Css ''calc(100% + 100px)'')], mo_transition = None\<rparr>),
      (''enter'', \<lparr>mo_values = [(''x'', Css ''0%'')], mo_transition = Some (eased None)\<rparr>),
      (''exit'', \<lparr>mo_values = [(''x'', Css ''calc(100% + 100px)'')], mo_transition = Some (eased None)\<rparr>)]"

definition LINK_SLIDE :: "nat \<Rightarrow> variants" where
  "LINK_SLIDE i =
     [(''initial'', \<lparr>mo_values = [(''x'', Px 80)], mo_transition = None\<rparr>),
      (''enter'', \<lparr>mo_values = [(''x'', Px 0)], mo_transition = Some (eased (Some (5 / 100 * real i)))\<rparr>),
      (''exit'', \<lparr>mo_values = [(''x'', Px 80)], mo_transition = Some (eased (Some (5 / 100 * real i)))\<rparr>)]"

definition INDICATOR_SCALE :: variants where
  "INDICATOR_SCALE =
     [(''open'', \<lparr>mo_values = [(''scale'', Px 1)], mo_transition = Some \<lparr>tn_duration = 3 / 10, tn_ease = None, tn_delay = None\<rparr>\<rparr>),
      (''closed'', \<lparr>mo_values = [(''scale'', Px 0)], mo_transition = Some \<lparr>tn_duration = 4 / 10, tn_ease = None, tn_delay = None\<rparr>\<rparr>)]"

definition two_states :: "(string \<times> css) list \<Rightarrow> (string \<times> css) list \<Rightarrow> variants" where
  "two_states opened shut =
     [(''open'', \<lparr>mo_values = opened, mo_transition = None\<rparr>), (''closed'', \<lparr>mo_values = shut, mo_transition = None\<rparr>)]"

definition HAMBURGER_VARIANTS :: "(string \<times> variants) list" where
  "HAMBURGER_VARIANTS =
     [(''top'',
       two_states
         [(''rotate'', Frames [''0deg'', ''0deg'', ''45deg'']), (''top'', Frames [''35%'', ''50%'', ''50%''])]
         [(''rotate'', Frames [''45deg'', ''0deg'', ''0deg'']), (''top'', Frames [''50%'', ''50%'', ''35%''])]),
      (''middle'',
       two_states [(''rotate'', Frames [''0deg'', ''0deg'', ''-45deg''])] [(''rotate'', Frames [''-45deg'', ''0deg'', ''0deg''])]),
      (''bottom'',
       two_states
         [(''rotate'', Frames [''0deg'', ''0deg'', ''45deg'']), (''bottom'', Frames [''35%'', ''50%'', ''50%'']), (''left'', Css ''50%'')]
         [(''rotate'', Frames [''45deg'', ''0deg'', ''0deg'']), (''bottom'', Frames [''50%'', ''50%'', ''35%'']),
          (''left'', Css ''calc(50% + 10px)'')])]"

section \<open>Revealing\<close>

text \<open>The classes of the element, and whether an observer looks at it.\<close>

record reveal =
  rv_classes :: "string list"
  rv_observing :: bool

datatype reveal_event =
    Entries "bool list"
  | ThresholdChanged
  | Unmounted

definition reveal_effect :: "reveal \<Rightarrow> reveal" where
  "reveal_effect s = s\<lparr>rv_observing := True\<rparr>"

text \<open>The observer passes all entries that it collected; the callback looks at the first.\<close>

definition reveal_callback :: "bool list \<Rightarrow> reveal \<Rightarrow> reveal" where
  "reveal_callback entries s =
     (case entries of
        [] \<Rightarrow> s
      | isIntersecting # _ \<Rightarrow> if isIntersecting then s\<lparr>rv_classes := List.insert ''visible'' (rv_classes s), rv_observing := False\<rparr> else s)"

fun reveal_step :: "reveal_event \<Rightarrow> reveal \<Rightarrow> reveal" where
  "reveal_step (Entries es) s = (if rv_observing s then reveal_callback es s else s)"
| "reveal_step ThresholdChanged s = reveal_effect (s\<lparr>rv_observing := False\<rparr>)"
| "reveal_step Unmounted s = s\<lparr>rv_observing := False\<rparr>"

section \<open>The address of the API\<close>

text \<open>The variable \<open>VITE_API_URL\<close> is set at build time or missing.\<close>

definition API_BASE :: "jsstring option \<Rightarrow> jsstring" where
  "API_BASE vite_api_url = (case vite_api_url of None \<Rightarrow> [] | Some url \<Rightarrow> url)"

section \<open>Properties\<close>

text \<open>
  The bars of the menu button move without a jump: closing plays every sequence of keyframes of the
  opening backwards, so each animation starts where the other ended.
\<close>

fun backwards :: "string \<times> css \<Rightarrow> (string \<times> css) list" where
  "backwards (k, Frames xs) = [(k, Frames (rev xs))]"
| "backwards (k, v) = []"

theorem hamburger_continuous:
  "list_all (\<lambda>(bar, vs).
     concat (map backwards (mo_values (the (map_of vs ''open'')))) = filter (\<lambda>p. backwards p \<noteq> []) (mo_values (the (map_of vs ''closed''))))
     HAMBURGER_VARIANTS"
  by (simp add: HAMBURGER_VARIANTS_def two_states_def)

text \<open>The panel and its links come from where they went, and a link starts after the one above it.\<close>

theorem menu_slides:
  "mo_values (the (map_of MENU_SLIDE ''initial'')) = mo_values (the (map_of MENU_SLIDE ''exit''))
   \<and> mo_values (the (map_of (LINK_SLIDE i) ''initial'')) = mo_values (the (map_of (LINK_SLIDE i) ''exit''))
   \<and> (i < j \<longrightarrow> (case (map_of (LINK_SLIDE i) ''enter'', map_of (LINK_SLIDE j) ''enter'') of
        (Some a, Some b) \<Rightarrow> the (tn_delay (the (mo_transition a))) < the (tn_delay (the (mo_transition b))) | _ \<Rightarrow> False))"
  by (simp add: MENU_SLIDE_def LINK_SLIDE_def eased_def)

text \<open>An element that was revealed stays so, and is revealed exactly by a batch of entries whose first one intersects.\<close>

lemma reveal_stays: "''visible'' \<in> set (rv_classes s) \<Longrightarrow> ''visible'' \<in> set (rv_classes (fold reveal_step evs s))"
proof (induction evs arbitrary: s)
  case (Cons ev evs)
  have "''visible'' \<in> set (rv_classes (reveal_step ev s))"
    using Cons.prems by (cases ev) (auto simp: reveal_callback_def reveal_effect_def split: list.split)
  with Cons.IH show ?case by simp
qed simp

theorem reveal_by_first_entry:
  assumes "rv_observing s" "''visible'' \<notin> set (rv_classes s)"
  shows "''visible'' \<in> set (rv_classes (fold reveal_step (map Entries ess) s)) \<longleftrightarrow> (\<exists>es \<in> set ess. es \<noteq> [] \<and> hd es)"
  using assms
proof (induction ess)
  case (Cons es ess)
  show ?case
  proof (cases "es \<noteq> [] \<and> hd es")
    case True
    then have "''visible'' \<in> set (rv_classes (reveal_step (Entries es) s))" using Cons.prems by (cases es) (auto simp: reveal_callback_def)
    with True reveal_stays [of "reveal_step (Entries es) s" "map Entries ess"] show ?thesis by simp
  next
    case False
    then have "reveal_step (Entries es) s = s" by (cases es) (auto simp: reveal_callback_def)
    with False Cons show ?thesis by auto
  qed
qed simp

end
