(* ===== verification/SiteParts.thy ===== *)
theory SiteParts
  imports Vdom
begin

text \<open>
  What the public pages of the frontend share: section counters as the reader sees them and the
  enumeration of list items by index, with the lemmas that evaluate them.
\<close>

named_theorems page_simps \<open>definitions of the public pages\<close>

section \<open>Section counters\<close>

fun attr_classes :: "'a attr list \<Rightarrow> string list" where
  "attr_classes [] = []"
| "attr_classes (Cls c # as) = c # attr_classes as"
| "attr_classes (a # as) = attr_classes as"

definition counters :: "'a node list \<Rightarrow> jsstring list" where
  "counters ns =
     map text_of (filter (\<lambda>n. ''section-counter'' \<in> set (attr_classes (attrs n))) (all_nodes ns))"

text \<open>The text of the counter of section \<open>num\<close> of \<open>total\<close>: two digits each.\<close>

definition two_digits :: "nat \<Rightarrow> jsstring" where
  "two_digits n = padStart 2 (Ch (CHR ''0'')) (nat_str n)"

definition counter_text :: "nat \<Rightarrow> nat \<Rightarrow> string \<Rightarrow> jsstring" where
  "counter_text num tot label =
     js ''['' @ two_digits num @ js ''/'' @ two_digits tot @ js '']'' @ [Ch (CHR 0xB7)] @ js label"

text \<open>The counters of a page whose sections have the given labels and are numbered without a gap.\<close>

definition numbered :: "string list \<Rightarrow> jsstring list" where
  "numbered labels =
     map (\<lambda>(i, label). counter_text i (length labels) label) (zip [1..<Suc (length labels)] labels)"

lemma two_digits_length: "n < 100 \<Longrightarrow> length (two_digits n) = 2"
  by (subst two_digits_def, subst nat_str.simps, subst nat_str.simps) (auto simp: padStart_def)

lemma counter_prefix:
  "n < 100 \<Longrightarrow> t < 100 \<Longrightarrow> take 6 (counter_text n t l) = js ''['' @ two_digits n @ js ''/'' @ two_digits t"
  by (simp add: counter_text_def two_digits_length)

lemma numbered_prefixes:
  assumes "length labels < 100"
  shows "map (take 6) (numbered labels) =
    map (\<lambda>i. js ''['' @ two_digits i @ js ''/'' @ two_digits (length labels)) [1..<Suc (length labels)]"
  using assms by (intro nth_equalityI) (auto simp: numbered_def counter_prefix nth_append simp del: upt_Suc)

lemma length_numbered [simp]: "length (numbered labels) = length labels"
  by (simp add: numbered_def del: upt_Suc)

lemma counters_simps [simp]:
  "counters [] = []"
  "counters (Txt s # ns) = counters ns"
  "counters (Elem t as cs # ns) =
     (if ''section-counter'' \<in> set (attr_classes as) then [text_of (Elem t as cs)] else []) @ counters cs @ counters ns"
  "counters (ms @ ns) = counters ms @ counters ns"
  by (simp_all add: counters_def)

lemma counters_map:
  "(\<And>x. counters [f x] = []) \<Longrightarrow> counters (map f xs) = []"
  by (induction xs) (simp_all, simp add: counters_def)

lemma links_map:
  "(\<And>x. links [f x] = []) \<Longrightarrow> links (map f xs) = []"
  by (induction xs) (simp_all, simp add: links_def)

lemma clicks_map_none:
  "(\<And>x. clicks [f x] = []) \<Longrightarrow> clicks (map f xs) = []"
  by (subst clicks_map) simp

lemma distinct_js: "distinct (map (\<lambda>x. js (f x)) xs) \<longleftrightarrow> distinct (map f xs)"
  by (auto simp: distinct_map inj_on_def js_inject)

lemma distinct_nat_str: "distinct xs \<Longrightarrow> distinct (map nat_str xs)"
  by (simp add: distinct_map inj_on_def)

section \<open>Texts of elements\<close>

definition elem_texts :: "string \<Rightarrow> 'a node list \<Rightarrow> jsstring list" where
  "elem_texts t ns = map text_of (filter (is_elem t) (all_nodes ns))"

lemma elem_texts_simps [simp]:
  "elem_texts t [] = []"
  "elem_texts t (Txt s # ns) = elem_texts t ns"
  "elem_texts t (Elem u as cs # ns) =
     (if t = u then [text_of (Elem u as cs)] else []) @ elem_texts t cs @ elem_texts t ns"
  "elem_texts t (ms @ ns) = elem_texts t ms @ elem_texts t ns"
  by (simp_all add: elem_texts_def)

lemma elem_texts_map:
  "(\<And>x. elem_texts t [f x] = []) \<Longrightarrow> elem_texts t (map f xs) = []"
  by (induction xs) (simp_all, simp add: elem_texts_def)

lemma Uni_js [simp]: "Uni n \<notin> set (js s)"
  by (auto simp: js_def)

section \<open>Enumerated items\<close>

definition enumerated :: "(nat \<times> 'x \<Rightarrow> 'a node) \<Rightarrow> 'x list \<Rightarrow> 'a node list" where
  "enumerated item xs = map item (zip [0..<length xs] xs)"

lemma keys_of_enumerated:
  assumes "\<And>i x. attr_keys (attrs (item (i, x))) = [nat_str i]"
  shows "keys_of (enumerated item xs) = map nat_str [0..<length xs]"
proof -
  have "keys_of (map item ps) = map (nat_str \<circ> fst) ps" for ps
    by (induction ps) (auto simp: assms)
  then show ?thesis by (simp add: enumerated_def flip: map_map)
qed

lemma clicks_enumerated:
  assumes "\<And>i x. clicks [item (i, x)] = [f i]"
  shows "clicks (enumerated item xs) = map f [0..<length xs]"
proof -
  have "clicks (map item ps) = map (f \<circ> fst) ps" for ps
    unfolding clicks_map by (induction ps) (auto simp: assms)
  then show ?thesis by (simp add: enumerated_def flip: map_map)
qed

lemma list_all_enumerated:
  "(\<And>i x. P (item (i, x))) \<Longrightarrow> list_all P (enumerated item xs)"
  by (auto simp: enumerated_def list_all_iff set_zip)

text \<open>At most one of the enumerated items is selected by an optional index.\<close>

lemma concat_selected:
  "concat (map (\<lambda>(i, x). if s = Some i then [g x] else []) (zip [0..<length xs] xs)) =
     (case s of Some i \<Rightarrow> if i < length xs then [g (xs ! i)] else [] | None \<Rightarrow> [])"
  by (induction xs rule: rev_induct) (auto simp: nth_append split: option.splits)

end
