(* ===== verification/ArchitectureDiagram.thy ===== *)
theory ArchitectureDiagram
  imports SiteParts
begin

text \<open>The diagram of the services, \<open>frontend/src/components/ArchitectureDiagram.tsx\<close>.\<close>

datatype direction = ArrowRight | ArrowDown

definition ServiceBox :: "string \<Rightarrow> string \<Rightarrow> string \<Rightarrow> 'a node" where
  "ServiceBox label sub color =
     Elem ''div'' [Cls color] [Elem ''div'' [] [T label], Elem ''div'' [] [T sub]]"

text \<open>The two arrows differ in their direction only, which their class names draw.\<close>

definition Arrow :: "direction \<Rightarrow> 'a node" where
  "Arrow direction =
     (if direction = ArrowDown
      then Elem ''div'' [Cls ''flex justify-center py-1''] [Elem ''div'' [] [Elem ''div'' [] []]]
      else Elem ''div'' [Cls ''flex items-center px-1''] [Elem ''div'' [] [Elem ''div'' [] []]])"

definition ArchitectureDiagram :: "'a node" where
  "ArchitectureDiagram =
     Elem ''div'' []
       [Elem ''div'' []
          [Elem ''div'' []
             [ServiceBox ''Worker 0'' ''PyTorch DDP'' ''border-ok/20 bg-ok-muted text-ok'',
              ServiceBox ''Worker 1'' ''PyTorch DDP'' ''border-ok/20 bg-ok-muted text-ok''],
           Arrow ArrowRight,
           Elem ''div'' []
             [ServiceBox ''Control Plane'' ''Python / FastAPI'' ''border-info/20 bg-info-muted text-info'',
              Arrow ArrowDown,
              ServiceBox ''etcd'' ''Coordination'' ''border-brand-violet/20 bg-brand-violet/10 text-brand-violet''],
           Arrow ArrowRight,
           Elem ''div'' []
             [ServiceBox ''Data Plane'' ''Rust / gRPC'' ''border-recover/20 bg-recover-muted text-recover'',
              Arrow ArrowDown,
              ServiceBox ''MinIO'' ''S3 Storage'' ''border-warn/20 bg-warn-muted text-warn''],
           Arrow ArrowRight,
           Elem ''div'' []
             [ServiceBox ''Prometheus'' ''Metrics'' ''border-err/20 bg-err-muted text-err'',
              ServiceBox ''Grafana'' ''Dashboards'' ''border-err/20 bg-err-muted text-err'',
              ServiceBox ''Jaeger'' ''Tracing'' ''border-err/20 bg-err-muted text-err'']],
        Elem ''div'' [] [Elem ''div'' [] [T ''Connected via OpenTelemetry Collector'']]]"

lemmas [page_simps] = ServiceBox_def Arrow_def ArchitectureDiagram_def

end
