(* ===== verification/LandingPage.thy ===== *)
theory LandingPage
  imports ArchitectureDiagram
begin

text \<open>
  The landing page, \<open>frontend/src/pages/LandingPage.tsx\<close>. Its state is the question of the Q&A
  section that is open, if any. A paragraph is a sequence of text children.
\<close>

section \<open>Data\<close>

definition TOTAL :: nat where
  "TOTAL = 9"

definition SectionCounter :: "nat \<Rightarrow> nat \<Rightarrow> string \<Rightarrow> 'a node" where
  "SectionCounter num tot label =
     Elem ''div'' [Cls ''section-counter'']
       [Elem ''span'' [] [T ''[''],
        Elem ''span'' [] [Txt (padStart 2 (Ch (CHR ''0'')) (nat_str num))],
        Elem ''span'' [] [T ''/''],
        Elem ''span'' [] [Txt (padStart 2 (Ch (CHR ''0'')) (nat_str tot))],
        Elem ''span'' [] [T '']''],
        Elem ''span'' [] [Txt [Ch (CHR 0xB7)]],
        Elem ''span'' [] [T label]]"

definition TECH_STACK :: "(string \<times> string) list" where
  "TECH_STACK =
     [(''Rust'', ''bg-recover/10 text-recover border-recover/20''),
      (''Python'', ''bg-info/10 text-info border-info/20''),
      (''TypeScript'', ''bg-info/10 text-info border-info/20''),
      (''PyTorch'', ''bg-err/10 text-err border-err/20''),
      (''React'', ''bg-brand-violet/10 text-brand-violet border-brand-violet/20''),
      (''gRPC'', ''bg-ok/10 text-ok border-ok/20''),
      (''FastAPI'', ''bg-ok/10 text-ok border-ok/20''),
      (''etcd'', ''bg-brand-violet/10 text-brand-violet border-brand-violet/20''),
      (''MinIO / S3'', ''bg-warn/10 text-warn border-warn/20''),
      (''Docker'', ''bg-info/10 text-info border-info/20''),
      (''Kubernetes'', ''bg-info/10 text-info border-info/20''),
      (''Prometheus'', ''bg-err/10 text-err border-err/20''),
      (''Grafana'', ''bg-recover/10 text-recover border-recover/20''),
      (''Jaeger'', ''bg-warn/10 text-warn border-warn/20''),
      (''OpenTelemetry'', ''bg-surface-3 text-txt-2 border-line'')]"

definition QA_ITEMS :: "(jsstring \<times> jsstring) list" where
  "QA_ITEMS =
     [(js ''What would you do differently if you started over?'',
       js ''I'd start with the state machine and etcd coordination layer before writing a single ''
       @ js ''line of training code. I spent a lot of time debugging timing issues because I built ''
       @ js ''the training loop first and bolted coordination on later. The state machine is the ''
       @ js ''heart of the system. Everything else flows from \"what state is the run in right now?\" ''
       @ js ''Starting there would have saved me weeks.''),
      (js ''How does this compare to what companies like Meta actually use?'',
       js ''The architecture pattern is the same: control plane / data plane split, async ''
       @ js ''checkpointing, content-addressed storage. But at a different scale. Meta's systems ''
       @ js ''handle thousands of GPUs across data centers with dedicated hardware for checkpoint ''
       @ js ''storage. My original deployment ran on a single 4-vCPU VPS with 2 CPU-only workers; the ''
       @ js ''paid VPS is now stopped and the real stack runs locally. The engineering principles are ''
       @ js ''identical though: atomic commits, heartbeat-based failure detection, manifest-driven ''
       @ js ''recovery. I built this to prove I understand the architecture, not to compete with ''
       @ js ''their scale.''),
      (js ''What was the hardest bug you ran into?'',
       js ''Worker rank incrementing after kill/restart cycles. After killing and restarting ''
       @ js ''workers, PyTorch DDP would assign new ranks (0,1 '' @ [Uni 8594] @ js '' 2,3 '' @ [Uni 8594]
       @ js '' 5,6) instead of reusing the old ones. The frontend was matching workers by rank index, ''
       @ js ''so after a kill cycle the UI would show the wrong workers. I had to redesign the ''
       @ js ''frontend to sort workers by active status and most recent heartbeat instead of relying ''
       @ js ''on rank numbers.''),
      (js ''Why not just use an existing checkpoint library?'',
       js ''Libraries like PyTorch's built-in checkpointing just serialize model weights to a file. ''
       @ js ''They don't handle the hard parts: When do you save? How do you coordinate multiple ''
       @ js ''workers? What if the save itself fails? How do you detect a dead worker? How do you ''
       @ js ''resume from the right checkpoint? I wanted to build the full coordination system, the ''
       @ js ''orchestration layer that makes checkpointing actually reliable in a distributed setting.''),
      (js ''How would this work at real scale, thousands of GPUs?'',
       js ''The architecture scales horizontally. The control plane would need to be replicated for ''
       @ js ''availability (multiple FastAPI instances behind a load balancer, with etcd handling ''
       @ js ''consensus). The Rust data plane already handles concurrent shard uploads, so you'd run ''
       @ js ''multiple data plane instances close to storage. The biggest change would be sharding ''
       @ js ''strategy. Instead of one shard per rank, you'd want hierarchical checkpointing where ''
       @ js ''each node saves locally first, then async-uploads to durable storage. The state machine ''
       @ js ''and coordination protocol wouldn't change at all.''),
      (js ''What did you learn from building this?'',
       js ''The biggest lesson was that distributed systems fail in ways you can't predict, so you ''
       @ js ''have to design for failure from the start, not as an afterthought. I also learned that ''
       @ js ''the \"boring\" parts (state machines, heartbeats, retry logic) are what make the system ''
       @ js ''actually work. The flashy parts (Rust, gRPC, streaming) are implementation details. If ''
       @ js ''your coordination is wrong, nothing else matters.'')]"

definition landing_services :: "(string \<times> string \<times> string \<times> string) list" where
  "landing_services =
     [(''Control Plane'', ''Python + FastAPI'', ''text-info'', ''bg-info-muted''),
      (''Data Plane'', ''Rust + gRPC'', ''text-recover'', ''bg-recover-muted''),
      (''Worker 0'', ''PyTorch DDP'', ''text-ok'', ''bg-ok-muted''),
      (''Worker 1'', ''PyTorch DDP'', ''text-ok'', ''bg-ok-muted''),
      (''etcd'', ''Coordination'', ''text-brand-violet'', ''bg-brand-violet/10''),
      (''MinIO'', ''S3 Storage'', ''text-warn'', ''bg-warn-muted''),
      (''Prometheus'', ''Metrics'', ''text-err'', ''bg-err-muted''),
      (''Grafana'', ''Dashboards'', ''text-err'', ''bg-err-muted''),
      (''Jaeger'', ''Tracing'', ''text-warn'', ''bg-warn-muted''),
      (''OTEL'', ''Telemetry'', ''text-txt-2'', ''bg-surface-3''),
      (''Frontend'', ''React + Vite'', ''text-brand-violet'', ''bg-brand-violet/10'')]"

section \<open>Items\<close>

datatype landing_action = ToggleQA nat

text \<open>The click handler of a question, with the value of \<open>isOpen\<close> of the rendering it belongs to.\<close>

definition toggle_qa :: "nat option \<Rightarrow> nat \<Rightarrow> nat option" where
  "toggle_qa openQA i = (if openQA = Some i then None else Some i)"

definition qa_item :: "nat option \<Rightarrow> nat \<times> jsstring \<times> jsstring \<Rightarrow> landing_action node" where
  "qa_item openQA = (\<lambda>(i, q, a).
     let isOpen = (openQA = Some i)
     in Elem ''div'' [Key (nat_str i)]
          ([Elem ''button'' [OnClick (ToggleQA i)]
              [Elem ''span'' [] [Txt q], Elem ''svg'' [Cls (if isOpen then ''rotate-180'' else [])] []]]
           @ show_if isOpen [Elem ''div'' [] [Elem ''p'' [] [Txt a]]]))"

definition service_tile :: "string \<times> string \<times> string \<times> string \<Rightarrow> landing_action node" where
  "service_tile = (\<lambda>(name, tech, color, bg).
     Elem ''div'' [Key (js name), Cls bg] [Elem ''p'' [Cls color] [T name], Elem ''p'' [] [T tech]])"

definition tech_badge :: "string \<times> string \<Rightarrow> landing_action node" where
  "tech_badge = (\<lambda>(label, color). Elem ''span'' [Key (js label), Cls color] [T label])"

section \<open>Sections\<close>

definition hero_section :: "landing_action node" where
  "hero_section =
     Elem ''section'' []
       [Elem ''div'' [] [Elem ''div'' [] []],
        Elem ''div'' [] [],
        Elem ''div'' []
          [Elem ''p'' []
             [T ''A Portfolio Project by '',
              Elem ''a'' [Href ''https://www.tasfiqj.com/''] [T ''Tasfiq Jasimuddin'']],
           Elem ''h1'' []
             [T ''I asked myself: what happens'',
              Elem ''br'' [] [],
              Elem ''span'' [] [T ''when a machine crashes mid-training?'']],
           Elem ''p'' []
             [T ''Training AI models can take hours or days across many machines. If one machine dies, '',
              T ''all progress is lost.'',
              T '' '',
              Elem ''span'' []
                [T ''This is my answer: a fault-tolerant checkpoint runtime I designed and built from scratch''],
              T '' that saves progress automatically and recovers instantly.''],
           Elem ''div'' []
             [Elem ''Link'' [To (js ''/demo'')] [T ''Open the Simulation''],
              Elem ''Link'' [To (js ''/how-it-works'')] [T ''How I Built It'']]]]"

definition origin_section :: "landing_action node" where
  "origin_section =
     Elem ''section'' [Prop ''id'' (js ''why-i-built-this'')]
       [SectionCounter 1 TOTAL ''Origin'',
        Elem ''h2'' [] [T ''Why I Built This''],
        Elem ''p'' [] [T ''The problem that made me want to build something real''],
        Elem ''div'' []
          [Elem ''div'' []
             [Elem ''div'' [] [Elem ''div'' [] [], Elem ''h3'' [] [T ''The Problem I Kept Seeing'']],
              Elem ''div'' []
                [Elem ''p'' []
                   [T ''I was reading about how Meta and Google train models across thousands of GPUs, and the '',
                    T ''same problem kept coming up: '',
                    Elem ''span'' [] [T ''hardware fails all the time at scale.'']],
                 Elem ''p'' []
                   [T ''Imagine writing a 50-page essay for 8 hours, then your computer crashes and you never '',
                    T ''saved. You start from page 1. That's what happens during AI training when a machine '',
                    T ''dies without checkpointing.''],
                 Elem ''p'' []
                   [T ''At scale, a single failure can waste thousands of dollars in compute time.'']]],
           Elem ''div'' []
             [Elem ''div'' [] [Elem ''div'' [] [], Elem ''h3'' [] [T ''What I Built to Solve It'']],
              Elem ''div'' []
                [Elem ''p'' []
                   [T ''So I built a system that automatically saves a snapshot of everything the AI has '',
                    T ''learned, every 50 training steps. Like hitting'',
                    T '' '',
                    Elem ''span'' [] [T ''Ctrl+S every few seconds.'']],
                 Elem ''p'' []
                   [T ''When a machine crashes, the system detects it through missed heartbeats, restarts the '',
                    T ''machine, loads the last save from object storage, and'',
                    T '' '',
                    Elem ''span'' [] [T ''picks up right where it left off.'']],
                 Elem ''p'' [] [T ''Zero data loss. Automatic recovery. No human intervention needed.'']]]]]"

definition engineering_section :: "landing_action node" where
  "engineering_section =
     Elem ''section'' [Prop ''id'' (js ''engineering'')]
       [SectionCounter 2 TOTAL ''Engineering'',
        Elem ''h2'' [] [T ''My Engineering Decisions''],
        Elem ''p'' [] [T ''Why I made each technical choice, not just what I used''],
        Elem ''div'' []
          [Elem ''div'' []
             [Elem ''div'' []
                [Elem ''div'' [] [Elem ''span'' [] [T ''1'']],
                 Elem ''div'' []
                   [Elem ''h3'' [] [T ''I split the system into a Control Plane and Data Plane''],
                    Elem ''p'' []
                      [T ''I chose this because it mirrors how real infrastructure at companies like Meta works. '',
                       T ''The '',
                       Elem ''span'' [] [T ''Control Plane''],
                       T '' (Python/FastAPI) is the brain. It decides'',
                       T '' '',
                       Elem ''em'' [] [T ''when''],
                       T '' to save, tracks which machines are alive via etcd leases, and manages the training '',
                       T ''lifecycle through an 8-state machine. The '',
                       Elem ''span'' [] [T ''Data Plane''],
                       T '' (Rust) does the heavy lifting. It'',
                       T '' '',
                       Elem ''em'' [] [T ''actually moves''],
                       T '' checkpoint data to S3 storage via gRPC streaming as fast as possible. Separating these '',
                       T ''concerns means each can be optimized independently.'']]]],
           Elem ''div'' []
             [Elem ''div'' []
                [Elem ''div'' [] [Elem ''span'' [] [T ''2'']],
                 Elem ''div'' []
                   [Elem ''h3'' [] [T ''I wrote the Data Plane in Rust for speed and safety''],
                    Elem ''p'' []
                      [T ''I could have done everything in Python, but the bottleneck in checkpointing is I/O: '',
                       T ''moving gigabytes of model weights to storage. Rust gives me zero-overhead async I/O via '',
                       T ''Tokio and memory safety without a garbage collector. The result: checkpoint data '',
                       T ''streams to S3 storage via gRPC at near-wire speed, with SHA-256 checksums verifying '',
                       T ''every byte. If a write fails, built-in retry logic with exponential backoff and jitter '',
                       T ''handles it automatically.'']]]],
           Elem ''div'' []
             [Elem ''div'' []
                [Elem ''div'' [] [Elem ''span'' [] [T ''3'']],
                 Elem ''div'' []
                   [Elem ''h3'' [] [T ''I used an 8-state machine to coordinate everything''],
                    Elem ''p'' []
                      [T ''The hardest part wasn't writing the training loop. It was coordinating everything '',
                       T ''around it. The system tracks every training run through 8 possible states:'',
                       T '' '',
                       Elem ''code'' []
                         [Txt (js ''CREATED '' @ [Uni 8594] @ js '' RUNNING '' @ [Uni 8594] @ js '' CHECKPOINTING '' @ [Uni 8594] @ js '' COMMITTED'')],
                       T '' '',
                       T ''in a loop. When something goes wrong:'',
                       T '' '',
                       Elem ''code'' []
                         [Txt (js ''FAILED '' @ [Uni 8594] @ js '' RECOVERING '' @ [Uni 8594] @ js '' RUNNING'')],
                       T ''. This state machine lives in etcd (a distributed key-value store), so every component '',
                       T ''always knows exactly what's happening, even across multiple machines.'']]]],
           Elem ''div'' []
             [Elem ''div'' []
                [Elem ''div'' [] [Elem ''span'' [] [T ''4'']],
                 Elem ''div'' []
                   [Elem ''h3'' [] [T ''I built and validated the real stack''],
                    Elem ''p'' []
                      [T ''The full 11-container system previously ran on a Hetzner VPS, where I exercised real '',
                       Txt (js ''PyTorch workers, checkpoint files, failure detection, and recovery. I'' @ [Uni 8217] @ js ''m retiring that ''),
                       T ''paid backend server to avoid an ongoing hosting bill. The hosted Simulation now runs '',
                       T ''entirely in your browser; the same real Docker stack is still available on the Try '',
                       T ''Locally page.'']]]]],
        Elem ''div'' [] [Elem ''Link'' [To (js ''/how-it-works'')] [T ''Exhaustive Details'']]]"

definition simulation_section :: "landing_action node" where
  "simulation_section =
     Elem ''section'' []
       [SectionCounter 3 TOTAL ''Simulation'',
        Elem ''h2'' [] [T ''Explore the Recovery Flow in Your Browser''],
        Elem ''p'' []
          [T ''A browser-only walkthrough of the real system's failure and recovery sequence. No '',
           T ''backend is contacted.''],
        Elem ''div'' []
          [Elem ''div'' []
             [Elem ''div'' [] [Elem ''span'' [] [T ''1'']],
              Elem ''h3'' [] [T ''Training Starts''],
              Elem ''p'' []
                [T ''Two simulated workers begin a representative training run. You'll see the step counter '',
                 T ''climb and checkpoint events appear every 50 steps.'']],
           Elem ''div'' []
             [Elem ''div'' [] [Elem ''span'' [] [T ''2'']],
              Elem ''h3'' [] [T ''You Simulate a Crash''],
              Elem ''p'' []
                [T ''Click the failure control to advance the browser simulation. It models the same event '',
                 T ''that a real'',
                 T '' '',
                 Elem ''code'' [] [T ''docker kill''],
                 T '' '',
                 T ''produced when the hosted stack was online, without touching a server.'']],
           Elem ''div'' []
             [Elem ''div'' [] [Elem ''span'' [] [T ''3'']],
              Elem ''h3'' [] [T ''It Recovers Itself''],
              Elem ''p'' []
                [T ''The simulation visualizes heartbeat expiry, restart, checkpoint restore, and resumed '',
                 T ''training. Run the Docker stack locally to execute that recovery path against real '',
                 T ''containers.'']]],
        Elem ''div'' [] [Elem ''Link'' [To (js ''/demo'')] [T ''Try It Yourself'']]]"

definition infrastructure_section :: "landing_action node" where
  "infrastructure_section =
     Elem ''section'' []
       [SectionCounter 4 TOTAL ''Infrastructure'',
        Elem ''h2'' [] [T ''The Public Site No Longer Needs the Paid Backend''],
        Elem ''p'' []
          [Txt (js ''This system previously ran on a Hetzner VPS. I'' @ [Uni 8217] @ js ''m retiring that paid backend server to ''),
           T ''avoid ongoing cost; the public site is now backend-free, while the real stack remains '',
           T ''runnable locally.''],
        Elem ''div'' []
          [Elem ''div'' []
             [Elem ''div'' [] [Elem ''div'' [] [], Elem ''span'' [] [T ''Hosted Backend Being Retired'']],
              Elem ''div'' []
                [Elem ''span'' [] [T ''Previously: Hetzner CPX31''],
                 Elem ''span'' [] [T ''Public demo: browser-only''],
                 Elem ''span'' [] [T ''Real stack: local Docker'']]],
           Elem ''div'' [] (map service_tile landing_services),
           Elem ''p'' []
             [T ''These are the 11 services in the project. They are not running behind this hosted page; '',
              T ''follow Try Locally to launch them together with Docker Compose on your own machine.'']]]"

definition architecture_section :: "landing_action node" where
  "architecture_section =
     Elem ''section'' [Prop ''id'' (js ''architecture'')]
       [SectionCounter 5 TOTAL ''Architecture'',
        Elem ''h2'' [] [T ''System Architecture''],
        Elem ''p'' [] [T ''How I connected the 11 services together''],
        ArchitectureDiagram]"

definition reliability_section :: "landing_action node" where
  "reliability_section =
     Elem ''section'' []
       [SectionCounter 6 TOTAL ''Reliability'',
        Elem ''h2'' [] [T ''Designing for Failure, Not Perfection''],
        Elem ''p'' [] [T ''The question I kept asking was: what if THIS part fails?''],
        Elem ''div'' []
          [Elem ''div'' []
             [Elem ''div'' [] [Elem ''div'' [] [], Elem ''h3'' [] [T ''Atomic Checkpoint Commits'']],
              Elem ''p'' []
                [T ''What if the system crashes halfway through saving a checkpoint? I solved this with the '',
                 T ''manifest pattern: all data shards are written first, and a manifest file is written '',
                 T ''last as the \"commit signal.\" If the manifest doesn't exist, the checkpoint is '',
                 T ''incomplete and gets ignored. No half-written saves, ever.'']],
           Elem ''div'' []
             [Elem ''div'' [] [Elem ''div'' [] [], Elem ''h3'' [] [T ''Heartbeat-Based Failure Detection'']],
              Elem ''p'' []
                [T ''How do you know a machine is dead vs. just slow? Each worker sends heartbeats to etcd '',
                 T ''with a TTL lease. If heartbeats stop, the lease expires and the control plane knows '',
                 T ''that worker is gone. Not guessing, not polling, just a clean timeout. This is the same '',
                 T ''pattern used in production Kubernetes clusters.'']],
           Elem ''div'' []
             [Elem ''div'' [] [Elem ''div'' [] [], Elem ''h3'' [] [T ''Content-Addressed Storage'']],
              Elem ''p'' []
                [T ''What if the same shard gets uploaded twice? Each file is named by its SHA-256 hash, so '',
                 T ''identical data always maps to the same key. This makes writes idempotent: if a retry '',
                 T ''re-uploads the same shard, it just overwrites with identical content. No duplicates, no '',
                 T ''corruption, no wasted storage.'']],
           Elem ''div'' []
             [Elem ''div'' [] [Elem ''div'' [] [], Elem ''h3'' [] [T ''Backpressure & Flow Control'']],
              Elem ''p'' []
                [T ''What if checkpoints come in faster than storage can handle? The Rust data plane uses a '',
                 T ''bounded queue. If the queue fills up, it pushes back on the control plane to slow down '',
                 T ''instead of crashing with out-of-memory errors. This is the same pattern used in TCP '',
                 T ''flow control and production message queues.'']]]]"

definition proof_section :: "landing_action node" where
  "proof_section =
     Elem ''section'' []
       [SectionCounter 7 TOTAL ''Proof'',
        Elem ''div'' []
          [Elem ''h2'' [] [T ''What is simulated, and what is real?''],
           Elem ''p'' []
             [T ''The public Simulation is intentionally browser-only. Run the project locally for real '',
              T ''execution:''],
           Elem ''div'' []
             [Elem ''div'' []
                [Elem ''p'' []
                   [Elem ''span'' [] [T ''Simulation:''],
                    T '' representative training, checkpoint, failure, and recovery events generated in your '',
                    T ''browser'']],
              Elem ''div'' []
                [Elem ''p'' []
                   [Elem ''span'' [] [T ''Local Docker:''],
                    T '' real MinIO checkpoint shards and SHA-256 hashes appear as the workers write them'']],
              Elem ''div'' []
                [Elem ''p'' []
                   [Elem ''span'' [] [T ''Local Docker:''],
                    T '' inspect real'',
                    T '' '',
                    Elem ''code'' [] [T ''docker ps''],
                    T '' output and watch a killed worker stop and recover'']],
              Elem ''div'' []
                [Elem ''p'' []
                   [Elem ''span'' [] [T ''No hidden backend:''],
                    T '' the hosted page does not contact Hetzner or any replacement compute server'']]]]]"

definition qa_section :: "nat option \<Rightarrow> landing_action node" where
  "qa_section openQA =
     Elem ''section'' []
       [SectionCounter 8 TOTAL ''Q&A'',
        Elem ''h2'' [] [T ''Questions I'd Want to Ask''],
        Elem ''p'' [] [T ''If I were reading someone's project, these are the questions I'd have''],
        Elem ''div'' [] (enumerated (qa_item openQA) QA_ITEMS)]"

definition stack_section :: "landing_action node" where
  "stack_section =
     Elem ''section'' []
       [SectionCounter 9 TOTAL ''Stack'',
        Elem ''h2'' [] [T ''Tech Stack''],
        Elem ''p'' [] [T ''Technologies I used across the system''],
        Elem ''div'' [] (map tech_badge TECH_STACK)]"

definition footer_section :: "landing_action node" where
  "footer_section =
     Elem ''section'' []
       [Elem ''div'' []
          [Elem ''h2'' [] [T ''Want to see it break and recover?''],
           Elem ''p'' []
             [T ''Explore the recovery sequence safely in your browser, or run the real containers on '',
              T ''your machine.''],
           Elem ''div'' []
             [Elem ''Link'' [To (js ''/demo'')] [T ''Open Simulation''],
              Elem ''a'' [Href ''https://github.com/TasfiqJ/checkpoint-runtime''] [T ''View Source Code'']],
           Elem ''p'' []
             [T ''Built by '',
              Elem ''a'' [Href ''https://www.tasfiqj.com/''] [T ''Tasfiq Jasimuddin'']]]]"

definition landing_view :: "nat option \<Rightarrow> landing_action node" where
  "landing_view openQA =
     Elem ''div'' []
       [hero_section,
        origin_section,
        engineering_section,
        simulation_section,
        infrastructure_section,
        architecture_section,
        reliability_section,
        proof_section,
        qa_section openQA,
        stack_section,
        footer_section]"

section \<open>Lemmas\<close>

lemmas landing_defs =
  hero_section_def origin_section_def engineering_section_def simulation_section_def
  infrastructure_section_def architecture_section_def reliability_section_def proof_section_def
  qa_section_def stack_section_def footer_section_def

lemma SectionCounter_text: "text_of (SectionCounter n t l) = counter_text n t l"
  by (simp add: SectionCounter_def counter_text_def two_digits_def)

lemma SectionCounter_simps [simp]:
  "counters (SectionCounter n t l # ns) = counter_text n t l # counters ns"
  "links (SectionCounter n t l # ns) = links ns"
  "clicks (SectionCounter n t l # ns) = clicks ns"
  "attr_keys (attrs (SectionCounter n t l)) = []"
  "keys_ok (SectionCounter n t l)"
  using SectionCounter_text [of n t l] by (simp_all add: SectionCounter_def)

interpretation qa_items: keyed_list "qa_item openQA" "\<lambda>x. nat_str (fst x)"
  by unfold_locales (simp add: qa_item_def Let_def split: prod.split)

interpretation service_tiles: keyed_list service_tile "\<lambda>x. js (fst x)"
  by unfold_locales (simp add: service_tile_def split: prod.split)

interpretation tech_badges: keyed_list tech_badge "\<lambda>x. js (fst x)"
  by unfold_locales (simp add: tech_badge_def split: prod.split)

lemma qa_item_simps [simp]:
  "counters [qa_item openQA x] = []"
  "links [qa_item openQA x] = []"
  "clicks [qa_item openQA x] = [ToggleQA (fst x)]"
  "keys_ok (qa_item openQA x)"
  by (simp_all add: qa_item_def Let_def show_if_def split: prod.split)

lemma list_item_simps [simp]:
  "counters (map service_tile landing_services) = []" "links (map service_tile xs) = []"
  "counters (map tech_badge TECH_STACK) = []" "links (map tech_badge ts) = []"
  "counters (enumerated (qa_item openQA) qs) = []" "links (enumerated (qa_item openQA) qs) = []"
  by (auto simp: enumerated_def service_tile_def tech_badge_def landing_services_def TECH_STACK_def
      intro!: counters_map links_map)

definition landing_labels :: "string list" where
  "landing_labels =
     [''Origin'', ''Engineering'', ''Simulation'', ''Infrastructure'', ''Architecture'', ''Reliability'', ''Proof'', ''Q&A'', ''Stack'']"

lemma section_numbers: "length landing_labels = 9" "[1..<Suc 9] = [1, 2, 3, 4, 5, 6, 7, 8, 9]"
  by (simp_all add: landing_labels_def upt_conv_Cons)

lemma landing_counters: "counters [landing_view x] = numbered landing_labels"
  unfolding numbered_def section_numbers
  by (simp add: landing_view_def landing_defs page_simps TOTAL_def landing_labels_def)

lemma landing_links:
  "links [landing_view openQA] =
     map js [''/demo'', ''/how-it-works'', ''/how-it-works'', ''/demo'', ''/demo'']"
  by (simp add: landing_view_def landing_defs page_simps)

lemma tile_simps [simp]:
  "clicks (map service_tile xs) = []" "clicks (map tech_badge ts) = []"
  "keys_ok (service_tile x)" "keys_ok (tech_badge t)"
  by (auto simp: service_tile_def tech_badge_def intro!: clicks_map_none split: prod.split)

lemma landing_clicks: "clicks [landing_view openQA] = map ToggleQA [0..<length QA_ITEMS]"
  by (simp add: landing_view_def landing_defs page_simps clicks_enumerated)

lemma distinct_tiles: "distinct (map fst landing_services)" "distinct (map fst TECH_STACK)"
  by (simp_all add: landing_services_def TECH_STACK_def)

lemma landing_keys: "keys_ok (landing_view openQA)"
  by (simp add: landing_view_def landing_defs page_simps list_all_enumerated list.pred_map list.pred_True
      o_def keys_of_enumerated qa_items.item_key service_tiles.keys_of_items tech_badges.keys_of_items
      distinct_js distinct_tiles distinct_nat_str)

section \<open>The questions\<close>

text \<open>The answers that the page shows.\<close>

definition shown_answers :: "nat option \<Rightarrow> jsstring list" where
  "shown_answers openQA =
     map text_of (filter (is_elem ''p'') (all_nodes (enumerated (qa_item openQA) QA_ITEMS)))"

lemma shown_answers_open:
  "shown_answers openQA =
     (case openQA of Some i \<Rightarrow> if i < length QA_ITEMS then [snd (QA_ITEMS ! i)] else [] | None \<Rightarrow> [])"
proof -
  have "map text_of (filter (is_elem ''p'') (all_nodes (map (qa_item openQA) ps))) =
      concat (map (\<lambda>(i, x). if openQA = Some i then [snd x] else []) ps)" for ps
    by (induction ps) (auto simp: qa_item_def Let_def show_if_def)
  then show ?thesis by (simp add: shown_answers_def enumerated_def concat_selected)
qed

lemma toggle_qa_open:
  "foldl toggle_qa None cs =
     (if cs \<noteq> [] \<and> odd (length (takeWhile (\<lambda>i. i = last cs) (rev cs))) then Some (last cs) else None)"
proof (induction cs rule: rev_induct)
  case (snoc i cs)
  then show ?case
    by (cases cs rule: rev_cases) (auto simp: toggle_qa_def)
qed simp

text \<open>
  The questions of the landing page are an accordion. After any clicks on questions at most one
  answer is shown: that of the question clicked last, unless it was clicked an even number of
  times in a row. The page offers one click per question and its keys are distinct.
\<close>

theorem qa_accordion:
  assumes "list_all (\<lambda>i. i < length QA_ITEMS) cs"
  shows "shown_answers (foldl toggle_qa None cs) =
       (if cs \<noteq> [] \<and> odd (length (takeWhile (\<lambda>i. i = last cs) (rev cs)))
        then [snd (QA_ITEMS ! last cs)] else [])
    \<and> clicks [landing_view (foldl toggle_qa None cs)] = map ToggleQA [0..<length QA_ITEMS]
    \<and> keys_ok (landing_view (foldl toggle_qa None cs))"
  using assms by (auto simp: shown_answers_open toggle_qa_open landing_clicks landing_keys list_all_iff
      dest: last_in_set)

theorem qa_accordion_witness:
  "shown_answers (foldl toggle_qa None [2, 2, 4, 1]) = [snd (QA_ITEMS ! 1)]
   \<and> shown_answers (foldl toggle_qa None [4, 1, 1]) = []"
proof -
  have "length QA_ITEMS = 6" by (simp add: QA_ITEMS_def)
  then show ?thesis
    using qa_accordion [of "[2, 2, 4, 1]"] qa_accordion [of "[4, 1, 1]"] by simp
qed

end
