(* ===== verification/TryLocallyPage.thy ===== *)
theory TryLocallyPage
  imports SiteParts
begin

text \<open>
  The guide for running the system locally, \<open>frontend/src/pages/TryLocallyPage.tsx\<close>. Each of its code
  blocks has a copy button with a state of its own: whether the label says that the text was copied, and the
  pending timeouts that reset it. The blocks of the page are numbered in the order in which it shows them.

  Time is in milliseconds. All timeouts that are due have run when an event is handled.
\<close>

section \<open>Components\<close>

definition TOTAL :: nat where
  "TOTAL = 7"

definition SectionCounter :: "nat \<Rightarrow> nat \<Rightarrow> string \<Rightarrow> 'a node" where
  "SectionCounter num tot label =
     Elem ''div'' [Cls ''section-counter'']
       [Elem ''span'' [] [T ''[''],
        Elem ''span'' [] [Txt (padStart 2 (Ch (CHR ''0'')) (nat_str num))],
        Elem ''span'' [] [T ''/''],
        Elem ''span'' [] [Txt (padStart 2 (Ch (CHR ''0'')) (nat_str tot))],
        Elem ''span'' [] [T '']''],
        Elem ''span'' [] [Txt [Ch (CHR 0xB7)]],
        Elem ''span'' [] [T label]]"


text \<open>A text of several lines.\<close>

fun code_lines :: "string list \<Rightarrow> jsstring" where
  "code_lines [] = []"
| "code_lines [l] = js l"
| "code_lines (l # ls) = js l @ [Ch (CHR 0x0A)] @ code_lines ls"

subsection \<open>Copying a block\<close>

record code_block =
  cb_copied :: bool
  cb_timers :: "nat list"

definition code_block_init :: code_block where
  "code_block_init = \<lparr>cb_copied = False, cb_timers = []\<rparr>"

text \<open>\<open>children.replace(/\n$/, '')\<close>: one newline at the end is dropped.\<close>

definition strip_newline :: "jsstring \<Rightarrow> jsstring" where
  "strip_newline s = (if s \<noteq> [] \<and> last s = Ch (CHR 0x0A) then butlast s else s)"

text \<open>
  The click handler: it writes the text to the clipboard, sets the flag and starts another timeout.
  Outside secure contexts there is no clipboard and the handler throws at its second line. The first component of the
  result is the text written.
\<close>

definition handleCopy :: "bool \<Rightarrow> nat \<Rightarrow> jsstring \<Rightarrow> code_block \<Rightarrow> jsstring option \<times> code_block" where
  "handleCopy has_clipboard now children s =
     (if has_clipboard
      then (Some (strip_newline children), \<lparr>cb_copied = True, cb_timers = cb_timers s @ [now + 2000]\<rparr>)
      else (None, s))"

text \<open>The timeouts that are due run: each resets the flag.\<close>

definition run_timers :: "nat \<Rightarrow> code_block \<Rightarrow> code_block" where
  "run_timers now s =
     (if list_ex (\<lambda>t. t \<le> now) (cb_timers s)
      then \<lparr>cb_copied = False, cb_timers = filter (\<lambda>t. now < t) (cb_timers s)\<rparr> else s)"

subsection \<open>Blocks\<close>

datatype try_action = CopyBlock nat

definition CodeBlock :: "bool \<Rightarrow> 'a \<Rightarrow> jsstring \<Rightarrow> string option \<Rightarrow> 'a node" where
  "CodeBlock copied onCopy children label =
     Elem ''div'' []
       (show_some label (\<lambda>l. show_if (l \<noteq> [])
          [Elem ''div'' [] [Elem ''span'' [] [], Elem ''span'' [] [], Elem ''span'' [] [], Elem ''span'' [] [T l]]])
        @ [Elem ''pre'' [Cls (if label \<noteq> None \<and> label \<noteq> Some [] then ''rounded-b-xl'' else ''rounded-xl'')] [Txt children],
           Elem ''button'' [OnClick onCopy] [if copied then Txt ([Uni 10003] @ js '' copied'') else T ''copy'']])"

definition TerminalBlock :: "string \<Rightarrow> 'a node list \<Rightarrow> 'a node" where
  "TerminalBlock title children =
     Elem ''div'' []
       [Elem ''div'' [] [Elem ''span'' [] [], Elem ''span'' [] [], Elem ''span'' [] [], Elem ''span'' [] [T title]],
        Elem ''div'' [] children]"

section \<open>Data\<close>

record service =
  sv_name :: string
  sv_port :: jsstring
  sv_desc :: string
  sv_color :: string
  sv_tech :: string

definition SERVICES :: "service list" where
  "SERVICES =
     [\<lparr>sv_name = ''Frontend'', sv_port = js ''3000'',
       sv_desc = ''Operator console you're looking at'', sv_color = ''border-l-info'', sv_tech = ''React + Vite''\<rparr>,
      \<lparr>sv_name = ''Control Plane'', sv_port = js ''8000'',
       sv_desc = ''REST API, SSE streams, orchestration'', sv_color = ''border-l-info'', sv_tech = ''Python / FastAPI''\<rparr>,
      \<lparr>sv_name = ''Data Plane'', sv_port = js ''50051'',
       sv_desc = ''gRPC streaming checkpoint I/O'', sv_color = ''border-l-recover'', sv_tech = ''Rust / Tokio''\<rparr>,
      \<lparr>sv_name = ''Worker 0'', sv_port = [Uni 8212],
       sv_desc = ''PyTorch DDP training (rank 0)'', sv_color = ''border-l-ok'', sv_tech = ''PyTorch''\<rparr>,
      \<lparr>sv_name = ''Worker 1'', sv_port = [Uni 8212],
       sv_desc = ''PyTorch DDP training (rank 1)'', sv_color = ''border-l-ok'', sv_tech = ''PyTorch''\<rparr>,
      \<lparr>sv_name = ''MinIO'', sv_port = js ''9001'',
       sv_desc = ''S3-compatible object storage console'', sv_color = ''border-l-warn'', sv_tech = ''MinIO''\<rparr>,
      \<lparr>sv_name = ''etcd'', sv_port = js ''2379'',
       sv_desc = ''Distributed coordination & leases'', sv_color = ''border-l-brand-violet'', sv_tech = ''etcd''\<rparr>,
      \<lparr>sv_name = ''Prometheus'', sv_port = js ''9091'',
       sv_desc = ''Metrics collection & queries'', sv_color = ''border-l-err'', sv_tech = ''Prometheus''\<rparr>,
      \<lparr>sv_name = ''Grafana'', sv_port = js ''3001'',
       sv_desc = ''Dashboards for checkpoint metrics'', sv_color = ''border-l-recover'', sv_tech = ''Grafana''\<rparr>,
      \<lparr>sv_name = ''Jaeger'', sv_port = js ''16686'',
       sv_desc = ''Distributed tracing UI'', sv_color = ''border-l-warn'', sv_tech = ''Jaeger''\<rparr>,
      \<lparr>sv_name = ''OTel Collector'', sv_port = js ''4317'',
       sv_desc = ''Telemetry pipeline aggregator'', sv_color = ''border-l-surface-4'', sv_tech = ''OpenTelemetry''\<rparr>]"

definition service_card :: "service \<Rightarrow> try_action node" where
  "service_card svc =
     Elem ''div'' [Key (js (sv_name svc)), Cls (sv_color svc)]
       [Elem ''div'' []
          ([Elem ''h4'' [] [T (sv_name svc)]]
           @ show_if (sv_port svc \<noteq> [Uni 8212]) [Elem ''span'' [] [T '':'', Txt (sv_port svc)]]),
        Elem ''p'' [] [T (sv_desc svc)],
        Elem ''p'' [] [T (sv_tech svc)]]"

text \<open>The texts of the code blocks.\<close>

definition block_texts :: "jsstring list" where
  "block_texts =
     [code_lines [''docker --version'',
         ''docker compose version''],
      code_lines [''git --version''],
      code_lines [''git clone https://github.com/TasfiqJ/checkpoint-runtime.git'',
         ''cd checkpoint-runtime'',
         ''docker compose up --build -d''],
      code_lines [''docker compose ps''],
      code_lines [''curl -X POST http://localhost:8000/api/demo/kill-worker/ckpt-worker-0''],
      code_lines [''Invoke-RestMethod -Method Post -Uri http://localhost:8000/api/demo/kill-worker/ckpt-worker-0''],
      code_lines [''# Control plane orchestration'',
         ''docker logs -f ckpt-controlplane'',
         '''',
         ''# Training worker output'',
         ''docker logs -f ckpt-worker-0'',
         '''',
         ''# Rust data plane (checkpoint I/O)'',
         ''docker logs -f ckpt-dataplane''],
      code_lines [''# List all training runs'',
         ''curl http://localhost:8000/api/runs | python -m json.tool'',
         '''',
         ''# Get active workers'',
         ''curl http://localhost:8000/api/workers'',
         '''',
         ''# Browse checkpoint storage'',
         ''curl http://localhost:8000/api/demo/storage''],
      code_lines [''docker compose down -v'']]"

definition block_text :: "nat \<Rightarrow> jsstring" where
  "block_text i = block_texts ! i"

section \<open>Sections\<close>

definition try_hero :: "try_action node" where
  "try_hero =
     Elem ''section'' []
       [Elem ''div'' [] [Elem ''div'' [] []],
        Elem ''div'' []
          [Elem ''p'' [] [T ''Prove it's real''],
           Elem ''h1'' []
             [T ''Don't take my word for it'',
              Elem ''br'' [] [],
              Elem ''span'' [] [Txt ([Uni 8212] @ js '' run it yourself.'')]],
           Elem ''p'' []
             [T ''The hosted page at'',
              T '' '',
              Elem ''Link'' [To (js ''/demo'')] [T ''ckpt.tasfiqj.com''],
              T '' '',
              T ''now provides a clearly labelled browser-only simulation. The paid Hetzner backend is '',
              T ''being retired to avoid ongoing cost. This guide shows how to run the '',
              Elem ''span'' [] [T ''real 11-container Docker stack''],
              T '' on your own machine in about two minutes.'']]]"

definition prerequisites_section :: "(nat \<Rightarrow> bool) \<Rightarrow> try_action node" where
  "prerequisites_section copied =
     Elem ''section'' []
       [SectionCounter 1 TOTAL ''Prerequisites'',
        Elem ''h2'' [] [T ''Two things. That's it.''],
        Elem ''p'' []
          [Txt (js ''Everything else is containerized. No Python, no Rust, no Node '' @ [Uni 8212] @ js '' Docker handles all of ''),
           T ''it.''],
        Elem ''div'' []
          [Elem ''div'' []
             [Elem ''div'' []
                [Elem ''div'' [] [],
                 Elem ''div'' [] [Elem ''h3'' [] [T ''Docker''], Elem ''p'' [] [T ''with Docker Compose'']]],
              CodeBlock (copied 0) (CopyBlock 0) (block_text 0) None,
              Elem ''p'' []
                [Elem ''a'' [Href ''https://docs.docker.com/get-docker/'']
                   [Txt (js ''Get Docker '' @ [Uni 8594])]]],
           Elem ''div'' []
             [Elem ''div'' []
                [Elem ''div'' [] [],
                 Elem ''div'' [] [Elem ''h3'' [] [T ''Git''], Elem ''p'' [] [T ''to clone the repo'']]],
              CodeBlock (copied 1) (CopyBlock 1) (block_text 1) None,
              Elem ''p'' []
                [Elem ''a'' [Href ''https://git-scm.com/downloads''] [Txt (js ''Get Git '' @ [Uni 8594])]]]]]"

definition launch_section :: "(nat \<Rightarrow> bool) \<Rightarrow> try_action node" where
  "launch_section copied =
     Elem ''section'' []
       [SectionCounter 2 TOTAL ''Launch'',
        Elem ''h2'' [] [T ''Three lines. Eleven containers.''],
        Elem ''p'' []
          [T ''Copy, paste, go make coffee. The first build takes a few minutes (Rust compilation), '',
           T ''subsequent launches are instant.''],
        Elem ''div'' []
          [CodeBlock (copied 2) (CopyBlock 2) (block_text 2) (Some ''Terminal''),
           Elem ''p'' []
             [T ''That's it. Docker pulls the base images, builds the Rust data plane from source, '',
              T ''installs the Python control plane, compiles the React frontend, and wires everything '',
              T ''together with a shared network. '',
              Elem ''span'' [] [T ''No environment variables, no config files, no setup scripts.'']],
           TerminalBlock ''What you'll see''
             [Elem ''div'' []
                [Elem ''p'' []
                   [Elem ''span'' [] [Txt [Uni 10004]],
                    T '' Container ckpt-etcd '',
                    Elem ''span'' [] [T ''Started'']],
                 Elem ''p'' []
                   [Elem ''span'' [] [Txt [Uni 10004]],
                    T '' Container ckpt-minio '',
                    Elem ''span'' [] [T ''Started'']],
                 Elem ''p'' []
                   [Elem ''span'' [] [Txt [Uni 10004]],
                    T '' Container ckpt-dataplane '',
                    Elem ''span'' [] [T ''Started'']],
                 Elem ''p'' []
                   [Elem ''span'' [] [Txt [Uni 10004]],
                    T '' Container ckpt-controlplane '',
                    Elem ''span'' [] [T ''Started'']],
                 Elem ''p'' []
                   [Elem ''span'' [] [Txt [Uni 10004]],
                    T '' Container ckpt-worker-0 '',
                    Elem ''span'' [] [T ''Started'']],
                 Elem ''p'' []
                   [Elem ''span'' [] [Txt [Uni 10004]],
                    T '' Container ckpt-worker-1 '',
                    Elem ''span'' [] [T ''Started'']],
                 Elem ''p'' []
                   [Elem ''span'' [] [Txt [Uni 10004]],
                    T '' Container ckpt-frontend '',
                    Elem ''span'' [] [T ''Started'']],
                 Elem ''p'' []
                   [Elem ''span'' [] [Txt [Uni 10004]],
                    T '' Container ckpt-prometheus '',
                    Elem ''span'' [] [T ''Started'']],
                 Elem ''p'' []
                   [Elem ''span'' [] [Txt [Uni 10004]],
                    T '' Container ckpt-grafana '',
                    Elem ''span'' [] [T ''Started'']],
                 Elem ''p'' []
                   [Elem ''span'' [] [Txt [Uni 10004]],
                    T '' Container ckpt-jaeger '',
                    Elem ''span'' [] [T ''Started'']],
                 Elem ''p'' []
                   [Elem ''span'' [] [Txt [Uni 10004]],
                    T '' Container ckpt-otel '',
                    Elem ''span'' [] [T ''Started'']]]]]]"

definition fleet_section :: "(nat \<Rightarrow> bool) \<Rightarrow> try_action node" where
  "fleet_section copied =
     Elem ''section'' []
       [SectionCounter 3 TOTAL ''The Fleet'',
        Elem ''h2'' [] [T ''11 containers. Here's what each one does.''],
        Elem ''p'' []
          [T ''This is the same stack that previously ran on my Hetzner server in Virginia. That paid '',
           T ''backend is being retired; locally, every service maps to localhost.''],
        Elem ''div'' [] (map service_card SERVICES),
        Elem ''div'' []
          [CodeBlock (copied 3) (CopyBlock 3) (block_text 3) (Some ''Verify everything's running'')]]"

definition dashboard_section :: "try_action node" where
  "dashboard_section =
     Elem ''section'' []
       [SectionCounter 4 TOTAL ''Dashboard'',
        Elem ''h2'' [] [T ''Verify the local stack. It's alive.''],
        Elem ''p'' []
          [T ''The workers started training the moment the containers came up. By the time you open '',
           T ''your browser, checkpoints are already being saved.''],
        Elem ''div'' []
          [Elem ''div'' []
             [Elem ''div'' []
                [Elem ''div'' [] [Elem ''span'' [] [T ''1'']],
                 Elem ''div'' []
                   [Elem ''h3'' [] [T ''Open your browser''],
                    Elem ''p'' [] [T ''Go to'', T '' '', Elem ''code'' [] [T ''http://localhost:3000'']],
                    Elem ''p'' []
                      [T ''You'll land on the same frontend served at ckpt.tasfiqj.com. Its '',
                       Elem ''span'' [] [T ''Simulation''],
                       T '' page remains browser-only; use the local endpoints below to inspect the real '',
                       T ''containers.'']]]],
           Elem ''div'' []
             [Elem ''div'' []
                [Elem ''div'' [] [Elem ''span'' [] [T ''2'']],
                 Elem ''div'' []
                   [Elem ''h3'' [] [T ''Check the real local run''],
                    Elem ''p'' []
                      [T ''Open '',
                       Elem ''code'' [] [T ''http://localhost:8000/api/runs''],
                       T '' '',
                       T ''to see the training step advance, then inspect MinIO for checkpoint files written by '',
                       T ''the local workers.'']]]],
           Elem ''div'' []
             [Elem ''div'' []
                [Elem ''div'' [] [Elem ''span'' [] [T ''3'']],
                 Elem ''div'' []
                   [Elem ''h3'' [] [T ''Watch the local proof''],
                    Elem ''p'' []
                      [T ''Use Docker logs, Grafana, Jaeger, and MinIO on localhost to inspect real'',
                       T '' '',
                       Elem ''code'' [] [T ''stdout''],
                       T '', checkpoint files with SHA-256 hashes, container status, and telemetry from your '',
                       T ''machine.'',
                       T '' '',
                       Elem ''span'' [] [T ''That local evidence is not mocked.'']]]]]]]"

definition break_section :: "(nat \<Rightarrow> bool) \<Rightarrow> try_action node" where
  "break_section copied =
     Elem ''section'' []
       [SectionCounter 5 TOTAL ''Break It'',
        Elem ''h2'' [] [T ''Now stop a local worker. On purpose.''],
        Elem ''p'' []
          [T ''This is the whole point. You're about to prove that the system can recover from a real '',
           T ''container crash with zero data loss.''],
        Elem ''div'' []
          [Elem ''div'' []
             [Elem ''div'' []
                [Elem ''div'' [] [],
                 Elem ''div'' []
                   [Elem ''h3'' [] [T ''Kill a worker container''],
                    Elem ''p'' []
                      [T ''Wait until the run has created at least 2 checkpoints, then call the local demo '',
                       T ''endpoint. It stops both DDP workers, marks the run '',
                       Elem ''span'' [] [T ''FAILED''],
                       T '', and schedules the tested restart and recovery path.'']]]],
           CodeBlock (copied 4) (CopyBlock 4) (block_text 4) (Some ''macOS / Linux terminal''),
           CodeBlock (copied 5) (CopyBlock 5) (block_text 5) (Some ''Windows PowerShell''),
           Elem ''div'' []
             [Elem ''div'' []
                [Elem ''div'' [] [Elem ''span'' [] [T ''!'']],
                 Elem ''p'' [] [T ''FAILED''],
                 Elem ''p'' [] [T ''Heartbeat timeout. System detects the crash.'']],
              Elem ''div'' []
                [Elem ''div'' [] [],
                 Elem ''p'' [] [T ''RECOVERING''],
                 Elem ''p'' [] [T ''Loading last checkpoint from S3.'']],
              Elem ''div'' []
                [Elem ''div'' [] [],
                 Elem ''p'' [] [T ''RESUMED''],
                 Elem ''p'' [] [T ''Training continues. Zero data lost.'']]],
           Elem ''p'' []
             [T ''Open '',
              Elem ''code'' [] [T ''http://localhost:3000/runs''],
              T '' '',
              T ''to watch the local operator console, or inspect the control-plane and worker logs. The '',
              T ''restored step should match the latest committed checkpoint, and training should '',
              T ''continue from there.'']]]"

definition hood_section :: "(nat \<Rightarrow> bool) \<Rightarrow> try_action node" where
  "hood_section copied =
     Elem ''section'' []
       [SectionCounter 6 TOTAL ''Under the Hood'',
        Elem ''h2'' [] [T ''Peek behind the curtain.''],
        Elem ''p'' []
          [T ''The frontend is just the tip of the iceberg. Here's how to see what's actually '',
           T ''happening inside each layer of the system.''],
        Elem ''div'' []
          [Elem ''div'' []
             [Elem ''h3'' [] [T ''Watch real-time logs''],
              Elem ''p'' []
                [T ''See heartbeats, checkpoint commits, failure detection, and recovery in real time.''],
              CodeBlock (copied 6) (CopyBlock 6) (block_text 6) (Some ''Terminal'')],
           Elem ''div'' []
             [Elem ''h3'' [] [T ''Query the REST API directly''],
              Elem ''p'' [] [T ''The control plane exposes everything. Hit it with curl and see raw JSON.''],
              CodeBlock (copied 7) (CopyBlock 7) (block_text 7) (Some ''Terminal'')],
           Elem ''div'' []
             [Elem ''h3'' [] [T ''Full observability stack''],
              Elem ''p'' []
                [T ''Prometheus, Grafana, and Jaeger are all running and collecting real telemetry.''],
              Elem ''div'' []
                [Elem ''a'' [Href ''http://localhost:3001'']
                   [Elem ''p'' [] [T ''Grafana''],
                    Elem ''p'' [] [T ''localhost:3001''],
                    Elem ''p'' [] [T ''Checkpoint throughput, shard latency, queue depth'']],
                 Elem ''a'' [Href ''http://localhost:16686'']
                   [Elem ''p'' [] [T ''Jaeger''],
                    Elem ''p'' [] [T ''localhost:16686''],
                    Elem ''p'' [] [T ''Distributed traces across all services'']],
                 Elem ''a'' [Href ''http://localhost:9001'']
                   [Elem ''p'' [] [T ''MinIO''],
                    Elem ''p'' [] [T ''localhost:9001''],
                    Elem ''p'' [] [T ''Browse real checkpoint files in S3'']]]],
           Elem ''div'' []
             [Elem ''h3'' [] [T ''Inspect checkpoint storage directly''],
              Elem ''p'' []
                [T ''Each checkpoint is a real set of files in MinIO: a '',
                 Elem ''code'' [] [T ''.bin''],
                 T '' shard, a '',
                 Elem ''code'' [] [T ''.sha256''],
                 T '' checksum, and a '',
                 Elem ''code'' [] [T ''_manifest.json''],
                 T '' that acts as the atomic commit point.''],
              TerminalBlock ''MinIO file listing''
                [Elem ''p'' []
                   [Elem ''span'' [] [T ''$''],
                    T '' docker exec ckpt-minio mc ls local/checkpoints/ --recursive''],
                 Elem ''p'' []
                   [T ''[2026-03-08 04:12:08]  3.8MiB  a1b2c3d4/f5e6d7c8/sha256-913e9c9d6b30-rank-0.bin''],
                 Elem ''p'' [] [T ''[2026-03-08 04:12:08]     64B  a1b2c3d4/f5e6d7c8/rank-0.sha256''],
                 Elem ''p'' [] [T ''[2026-03-08 04:12:08]    488B  a1b2c3d4/f5e6d7c8/_manifest.json''],
                 Elem ''p'' []
                   [T ''[2026-03-08 04:13:24]  3.8MiB  a1b2c3d4/g9h0i1j2/sha256-edb9b9d6055e-rank-0.bin''],
                 Elem ''p'' [] [T ''[2026-03-08 04:13:24]     64B  a1b2c3d4/g9h0i1j2/rank-0.sha256''],
                 Elem ''p'' [] [T ''[2026-03-08 04:13:24]    488B  a1b2c3d4/g9h0i1j2/_manifest.json''],
                 Elem ''p'' [] [T ''...'']]]]]"

definition cleanup_section :: "(nat \<Rightarrow> bool) \<Rightarrow> try_action node" where
  "cleanup_section copied =
     Elem ''section'' []
       [SectionCounter 7 TOTAL ''Clean Up'',
        Elem ''h2'' [] [T ''Done? One command to clean up.''],
        Elem ''p'' [] [T ''This removes all containers, networks, and volumes. Nothing left behind.''],
        CodeBlock (copied 8) (CopyBlock 8) (block_text 8) (Some ''Terminal''),
        Elem ''p'' []
          [Txt (js ''That's it '' @ [Uni 8212] @ js '' all 11 containers, the MinIO checkpoint data, the etcd state, the ''),
           T ''Prometheus metrics. Gone. Your machine is exactly how it was before you started.'']]"

definition cta_section :: "try_action node" where
  "cta_section =
     Elem ''section'' []
       [Elem ''div'' []
          [Elem ''h2'' [] [T ''Want a quick preview first?''],
           Elem ''p'' []
             [T ''Open the browser-only Simulation to explore the sequence without a backend. Return to '',
              T ''this guide whenever you want to run the real Docker stack locally.''],
           Elem ''div'' []
             [Elem ''Link'' [To (js ''/demo'')] [T ''Open Simulation''],
              Elem ''Link'' [To (js ''/'')] [T ''Back to Home'']]]]"

definition try_view :: "(nat \<Rightarrow> bool) \<Rightarrow> try_action node" where
  "try_view copied =
     Elem ''div'' []
       [try_hero,
        prerequisites_section copied,
        launch_section copied,
        fleet_section copied,
        dashboard_section,
        break_section copied,
        hood_section copied,
        cleanup_section copied,
        cta_section]"

section \<open>Lemmas\<close>

lemmas try_defs =
  try_hero_def prerequisites_section_def launch_section_def fleet_section_def dashboard_section_def
  break_section_def hood_section_def cleanup_section_def cta_section_def

lemma try_SectionCounter_text: "text_of (SectionCounter n t l) = counter_text n t l"
  by (simp add: SectionCounter_def counter_text_def two_digits_def)

lemma try_SectionCounter_simps [simp]:
  "counters (SectionCounter n t l # ns) = counter_text n t l # counters ns"
  "links (SectionCounter n t l # ns) = links ns"
  "buttons (SectionCounter n t l # ns) = buttons ns"
  "attr_keys (attrs (SectionCounter n t l)) = []"
  "keys_ok (SectionCounter n t l)"
  using try_SectionCounter_text [of n t l] by (simp_all add: SectionCounter_def)

definition copy_label :: "bool \<Rightarrow> jsstring" where
  "copy_label copied = (if copied then [Uni 10003] @ js '' copied'' else js ''copy'')"

lemma CodeBlock_simps [simp]:
  "counters (CodeBlock c f t l # ns) = counters ns"
  "links (CodeBlock c f t l # ns) = links ns"
  "buttons (CodeBlock c f t l # ns) = (copy_label c, False, [f]) # buttons ns"
  "attr_keys (attrs (CodeBlock c f t l)) = []"
  "keys_ok (CodeBlock c f t l)"
  by (cases l; simp add: CodeBlock_def copy_label_def show_if_def)+

lemma TerminalBlock_simps [simp]:
  "counters (TerminalBlock t cs # ns) = counters cs @ counters ns"
  "links (TerminalBlock t cs # ns) = links cs @ links ns"
  "buttons (TerminalBlock t cs # ns) = buttons cs @ buttons ns"
  "attr_keys (attrs (TerminalBlock t cs)) = []"
  "keys_ok (TerminalBlock t cs) \<longleftrightarrow> distinct (keys_of cs) \<and> list_all keys_ok cs"
  by (simp_all add: TerminalBlock_def)

interpretation service_cards: keyed_list service_card "\<lambda>x. js (sv_name x)"
  by unfold_locales (simp add: service_card_def)

lemma service_card_simps [simp]:
  "counters (map service_card SERVICES) = []"
  "links (map service_card xs) = []"
  "buttons (map service_card xs) = []"
  "keys_ok (service_card x)"
  by (auto simp: service_card_def show_if_def SERVICES_def buttons_map intro!: links_map)

definition try_labels :: "string list" where
  "try_labels =
     [''Prerequisites'', ''Launch'', ''The Fleet'', ''Dashboard'', ''Break It'', ''Under the Hood'', ''Clean Up'']"

lemma try_section_numbers: "length try_labels = 7" "[1..<Suc 7] = [1, 2, 3, 4, 5, 6, 7]"
  by (simp_all add: try_labels_def upt_conv_Cons)

lemma try_counters: "counters [try_view x] = numbered try_labels"
  unfolding numbered_def try_section_numbers
  by (simp add: try_view_def try_defs TOTAL_def try_labels_def)

lemma try_links: "links [try_view copied] = map js [''/demo'', ''/demo'', ''/'']"
  by (simp add: try_view_def try_defs)

lemma block_numbers: "[0..<length block_texts] = [0, 1, 2, 3, 4, 5, 6, 7, 8]"
  by (simp add: block_texts_def upt_conv_Cons)

lemma try_buttons:
  "buttons [try_view copied] =
     map (\<lambda>i. (copy_label (copied i), False, [CopyBlock i])) [0..<length block_texts]"
  unfolding block_numbers by (simp add: try_view_def try_defs)

lemma distinct_services: "distinct (map sv_name SERVICES)"
  by (simp add: SERVICES_def)

lemma try_keys: "keys_ok (try_view copied)"
  by (simp add: try_view_def try_defs service_cards.keys_of_items distinct_js distinct_services
      list.pred_map list.pred_True o_def)

section \<open>The copy buttons\<close>

lemma block_texts_stripped: "list_all (\<lambda>t. strip_newline t = t) block_texts"
  by code_simp

lemma strip_block_text: "i < length block_texts \<Longrightarrow> strip_newline (block_text i) = block_text i"
  using block_texts_stripped by (simp add: list_all_length block_text_def)

text \<open>A block after clicks at the given times.\<close>

definition clicked :: "jsstring \<Rightarrow> nat list \<Rightarrow> code_block" where
  "clicked children cs = foldl (\<lambda>s now. snd (handleCopy True now children (run_timers now s))) code_block_init cs"

lemma run_timers_timers: "cb_timers (run_timers now s) = filter (\<lambda>t. now < t) (cb_timers s)"
  by (auto simp: run_timers_def list_ex_iff intro!: filter_True [symmetric] leI)

lemma clicked_state:
  "sorted cs \<Longrightarrow> cs \<noteq> [] \<Longrightarrow>
     cb_copied (clicked children cs)
     \<and> cb_timers (clicked children cs) = filter (\<lambda>t. last cs < t) (map (\<lambda>c. c + 2000) cs)"
proof (induction cs rule: rev_induct)
  case (snoc c cs)
  show ?case
  proof (cases "cs = []")
    case True
    then show ?thesis by (simp add: clicked_def handleCopy_def run_timers_timers code_block_init_def)
  next
    case False
    with snoc have "cb_timers (clicked children cs) = filter (\<lambda>t. last cs < t) (map (\<lambda>c. c + 2000) cs)"
      and le: "last cs \<le> c" by (simp_all add: sorted_append)
    moreover have "filter (\<lambda>t. c < t) (filter (\<lambda>t. last cs < t) ts) = filter (\<lambda>t. c < t) ts" for ts :: "nat list"
      using le by (auto intro: filter_cong)
    ultimately show ?thesis
      by (simp add: clicked_def handleCopy_def run_timers_timers)
  qed
qed simp

text \<open>
  Copying. The page has one enabled copy button per code block, labelled by the state of the block, and the
  button writes exactly the text of the block to the clipboard; without a clipboard the click has no effect. When a
  block was clicked at times \<open>cs\<close>, it says at time \<open>t\<close> that it was copied as long as no timeout of these
  clicks that was pending at the last click has run: a click within two seconds of an earlier one is
  forgotten too early.
\<close>

theorem copy_buttons:
  assumes "i < length block_texts" "sorted cs" "\<forall>c\<in>set cs. c \<le> t"
  shows "buttons [try_view copied] ! i = (copy_label (copied i), False, [CopyBlock i])
    \<and> length (buttons [try_view copied]) = length block_texts
    \<and> fst (handleCopy True now (block_text i) s) = Some (block_text i)
    \<and> handleCopy False now (block_text i) s = (None, s)
    \<and> cb_copied (run_timers t (clicked (block_text i) cs)) =
        (cs \<noteq> [] \<and> (\<forall>c\<in>set cs. c + 2000 \<le> last cs \<or> t < c + 2000))"
proof -
  have "cb_copied (run_timers t (clicked (block_text i) cs)) =
      (cs \<noteq> [] \<and> (\<forall>c\<in>set cs. c + 2000 \<le> last cs \<or> t < c + 2000))"
  proof (cases "cs = []")
    case True
    then show ?thesis by (simp add: clicked_def code_block_init_def run_timers_def)
  next
    case False
    with clicked_state [OF assms(2), of "block_text i"] assms(3) show ?thesis
      by (auto simp: run_timers_def list_ex_iff not_le)
  qed
  with assms(1) show ?thesis
    by (simp add: try_buttons handleCopy_def strip_block_text)
qed

theorem copy_buttons_witness:
  "\<not> cb_copied (run_timers 2000 (clicked (block_text 0) [0, 1500]))
   \<and> cb_copied (run_timers 3499 (clicked (block_text 0) [1500]))"
proof -
  have "0 < length block_texts" by (simp add: block_texts_def)
  then show ?thesis
    using copy_buttons [of 0 "[0, 1500]" 2000] copy_buttons [of 0 "[1500]" 3499] by simp
qed

end
