(* ===== verification/BenchmarksPage.thy ===== *)
theory BenchmarksPage
  imports SiteParts
begin

text \<open>
  The page of measured results, \<open>frontend/src/pages/BenchmarksPage.tsx\<close>: the tables of the shard size
  comparison and of its artifacts, and the page that shows them. The page has no state.
\<close>

section \<open>Data\<close>

definition RESULTS_BASE :: string where
  "RESULTS_BASE = ''https://github.com/TasfiqJ/checkpoint-runtime/blob/main/benchmarks/results/shard-size-matrix''"

record shard_result =
  sr_size :: string
  sr_bufferedThroughput :: string
  sr_streamingThroughput :: string
  sr_throughputDelta :: string
  sr_bufferedP95 :: string
  sr_streamingP95 :: string
  sr_latencyDelta :: string

definition shardResults :: "shard_result list" where
  "shardResults =
     [\<lparr>sr_size = ''1 MiB'', sr_bufferedThroughput = ''3.223'', sr_streamingThroughput = ''3.177'', sr_throughputDelta = ''-1.42%'',
       sr_bufferedP95 = ''101.70 ms'', sr_streamingP95 = ''131.60 ms'', sr_latencyDelta = ''+29.40%''\<rparr>,
      \<lparr>sr_size = ''16 MiB'', sr_bufferedThroughput = ''47.093'', sr_streamingThroughput = ''43.508'', sr_throughputDelta = ''-7.61%'',
       sr_bufferedP95 = ''294.65 ms'', sr_streamingP95 = ''516.60 ms'', sr_latencyDelta = ''+75.33%''\<rparr>,
      \<lparr>sr_size = ''64 MiB'', sr_bufferedThroughput = ''123.785'', sr_streamingThroughput = ''111.762'', sr_throughputDelta = ''-9.71%'',
       sr_bufferedP95 = ''1,338.25 ms'', sr_streamingP95 = ''1,538.70 ms'', sr_latencyDelta = ''+14.98%''\<rparr>,
      \<lparr>sr_size = ''256 MiB'', sr_bufferedThroughput = ''179.038'', sr_streamingThroughput = ''137.025'', sr_throughputDelta = ''-23.47%'',
       sr_bufferedP95 = ''7,137.20 ms'', sr_streamingP95 = ''7,581.50 ms'', sr_latencyDelta = ''+6.23%''\<rparr>]"

definition artifacts :: "(string \<times> string) list" where
  "artifacts =
     [(''buffered-1mib-k6-summary.json'',
       ''1686ec99a359eab000be040f6cd36e641fae927e64d75d838cb715fbd0359e70''),
      (''streaming-1mib-k6-summary.json'',
       ''fa8eb2729f3631114ef84dcd223b5037421e4dbfe8dbf0231605e408b9ebed23''),
      (''buffered-16mib-k6-summary.json'',
       ''3f7a32b0598a06aade9910295de263097ece678fa66e883504e80a5dd13170a9''),
      (''streaming-16mib-k6-summary.json'',
       ''996174256166e70557537328650c3ac8a9cbd879b83f61fe65698bf8af4dfa7f''),
      (''buffered-64mib-k6-summary.json'',
       ''286edc325fb2c88974880cb7b170a0f071c687b92e9d7c594331a56a136cb83d''),
      (''streaming-64mib-k6-summary.json'',
       ''6c3c3bd0f888f0aebfb8a5c68dcf4b443a41bae778138b367b3cef74d1a1db72''),
      (''buffered-256mib-k6-summary.json'',
       ''4777a14e22b3ddae75a64a7ab69c053beada9f27a412769a3d413cfd4e823208''),
      (''streaming-256mib-k6-summary.json'',
       ''c6d58701d8f411aff05e9f7f830aa8fccee326c9992b1f4cb16af9f85a106044'')]"

section \<open>View\<close>

definition ExternalLinkIcon :: "'a node" where
  "ExternalLinkIcon = Elem ''svg'' [] []"

definition shard_row :: "shard_result \<Rightarrow> 'a node" where
  "shard_row row =
     Elem ''tr'' [Key (js (sr_size row))]
       [Elem ''td'' [] [T (sr_size row)],
        Elem ''td'' [] [T (sr_bufferedThroughput row)],
        Elem ''td'' [] [T (sr_streamingThroughput row)],
        Elem ''td'' [] [T (sr_throughputDelta row)],
        Elem ''td'' [] [T (sr_bufferedP95 row)],
        Elem ''td'' [] [T (sr_streamingP95 row)],
        Elem ''td'' [] [T (sr_latencyDelta row)]]"

definition promotion_step :: "nat \<times> string \<Rightarrow> 'a node" where
  "promotion_step = (\<lambda>(index, label).
     Elem ''div'' [Key (js label)]
       (show_if (index > 0) [Elem ''span'' [] [Txt [Uni 8594]]] @ [Elem ''span'' [] [T label]]))"

definition artifact_link :: "string \<times> string \<Rightarrow> 'a node" where
  "artifact_link = (\<lambda>(filename, sha256).
     Elem ''a'' [Key (js filename), Href (RESULTS_BASE @ ''/'' @ filename)]
       [Elem ''div'' [] [Elem ''span'' [] [T filename], ExternalLinkIcon],
        Elem ''p'' [] [T ''SHA-256''],
        Elem ''p'' [] [T sha256]])"

definition bench_header :: "'a node" where
  "bench_header =
     Elem ''header'' []
       [Elem ''div'' [Cls ''section-counter'']
          [Elem ''span'' [] [T ''04''],
           Elem ''span'' [] [T ''/''],
           Elem ''span'' [] [T ''Measured evidence'']],
        Elem ''h1'' [] [T ''Benchmarks''],
        Elem ''p'' []
          [T ''The streaming optimization lost. This page publishes the result, the raw artifacts, and '',
           T ''the design cost that likely explains it.'']]"

definition retracted_section :: "'a node" where
  "retracted_section =
     Elem ''section'' []
       [Elem ''div'' []
          [Elem ''span'' [] [T ''Retracted''],
           Elem ''div'' []
             [Elem ''h2'' [] [T ''The earlier +63% throughput / -45% p95 figures were not measured.''],
              Elem ''p'' []
                [T ''They were unmeasured projections for a proposed design and have been retracted. No '',
                 T ''baseline run was recorded for those claims.'']]]]"

definition recovery_section :: "'a node" where
  "recovery_section =
     Elem ''section'' []
       [Elem ''div'' []
          [Elem ''p'' [] [T ''Recovery measurement''],
           Elem ''h2'' [] [T ''Failure recovery, measured over 10 kill trials'']],
        Elem ''div'' []
          [Elem ''div'' [] [Elem ''p'' [] [T ''Kill trials''], Elem ''p'' [] [T ''10'']],
           Elem ''div'' [] [Elem ''p'' [] [T ''Worst case''], Elem ''p'' [] [T ''9.689s'']],
           Elem ''div'' [] [Elem ''p'' [] [T ''Recovery hold''], Elem ''p'' [] [T ''~6s'']]],
        Elem ''div'' []
          [Elem ''p'' []
             [T ''Roughly six seconds is a deliberate '',
              Elem ''code'' [] [T ''RECOVERING''],
              T '' hold. Restarting a dead process is the orchestrator's job; the runtime detects the '',
              T ''failure and coordinates recovery after a replacement process is available.'']]]"

definition matrix_section :: "'a node" where
  "matrix_section =
     Elem ''section'' []
       [Elem ''div'' []
          [Elem ''div'' []
             [Elem ''p'' [] [T ''Shard-size A/B''],
              Elem ''h2'' [] [T ''Streaming was slower at every tested size'']],
           Elem ''span'' [] [T ''No crossover'']],
        Elem ''div'' []
          [Elem ''table'' []
             [Elem ''thead'' []
                [Elem ''tr'' []
                   [Elem ''th'' [Num ''rowSpan'' 2] [T ''Shard''],
                    Elem ''th'' [Num ''colSpan'' 3] [T ''Throughput (MiB/s)''],
                    Elem ''th'' [Num ''colSpan'' 3] [T ''p95 latency'']],
                 Elem ''tr'' []
                   [Elem ''th'' [] [T ''Buffered''],
                    Elem ''th'' [] [T ''Streaming''],
                    Elem ''th'' [] [T ''Change''],
                    Elem ''th'' [] [T ''Buffered''],
                    Elem ''th'' [] [T ''Streaming''],
                    Elem ''th'' [] [T ''Change'']]],
              Elem ''tbody'' [] (map shard_row shardResults)]],
        Elem ''p'' []
          [T ''Negative throughput changes mean the streaming build moved fewer bytes per second; '',
           T ''positive latency changes mean its p95 was worse. There is no shard size in this matrix '',
           T ''where streaming outperformed buffered.'']]"

definition promotion_section :: "'a node" where
  "promotion_section =
     Elem ''section'' []
       [Elem ''div'' []
          [Elem ''p'' [] [T ''Why the pipeline lost''],
           Elem ''h2'' [] [T ''Content addressing adds a promotion step'']],
        Elem ''div'' []
          [Elem ''div'' [] (enumerated promotion_step [''5 MiB parts'', ''staging object'', ''server-side copy'', ''final hash key'']),
           Elem ''p'' []
             [T ''The final object key contains the SHA-256 digest, which is unknown until the full shard '',
              T ''has arrived. The streaming path therefore writes multipart data to a staging key, then '',
              T ''performs a server-side copy to the content-addressed key and deletes the staging '',
              T ''object. That extra write-promotion path likely outweighs the gains from hashing and '',
              T ''uploading in parallel.'']]]"

definition evidence_section :: "'a node" where
  "evidence_section =
     Elem ''section'' []
       [Elem ''div'' []
          [Elem ''div'' [] [Elem ''p'' [] [T ''Raw evidence''], Elem ''h2'' [] [T ''Eight k6 JSON summaries'']],
           Elem ''a'' [Href (RESULTS_BASE @ ''/README.md'')] [T ''Matrix methodology '', ExternalLinkIcon]],
        Elem ''div'' [] (map artifact_link artifacts)]"

definition bench_view :: "'a node" where
  "bench_view =
     Elem ''div'' []
       [bench_header, retracted_section, recovery_section, matrix_section, promotion_section, evidence_section]"

section \<open>Lemmas\<close>

lemmas bench_defs =
  bench_header_def retracted_section_def recovery_section_def matrix_section_def promotion_section_def
  evidence_section_def ExternalLinkIcon_def

interpretation shard_rows: keyed_list shard_row "\<lambda>x. js (sr_size x)"
  by unfold_locales (simp add: shard_row_def)

interpretation artifact_links: keyed_list artifact_link "\<lambda>x. js (fst x)"
  by unfold_locales (simp add: artifact_link_def split: prod.split)

interpretation promotion_steps: keyed_list promotion_step "\<lambda>x. js (snd x)"
  by unfold_locales (simp add: promotion_step_def split: prod.split)

lemma bench_item_simps [simp]:
  "keys_ok (shard_row r)" "keys_ok (artifact_link a)" "keys_ok (promotion_step p)"
  "links (map shard_row rs) = []" "links (map artifact_link as) = []" "links (enumerated promotion_step ps) = []"
  by (auto simp: enumerated_def shard_row_def artifact_link_def promotion_step_def ExternalLinkIcon_def show_if_def
      intro!: links_map split: prod.split)

lemma bench_links: "links [bench_view] = []"
  by (simp add: bench_view_def bench_defs)

lemma bench_names: "distinct (map sr_size shardResults)" "distinct (map fst artifacts)"
  by (simp_all add: shardResults_def artifacts_def)

lemma keys_of_promotion: "keys_of (enumerated promotion_step ps) = map js ps"
proof -
  have "map (\<lambda>x. js (snd x)) qs = map js (map snd qs)" for qs :: "(nat \<times> string) list" by simp
  then show ?thesis by (simp only: enumerated_def promotion_steps.keys_of_items) simp
qed

lemma bench_keys: "keys_ok bench_view"
  by (simp add: bench_view_def bench_defs shard_rows.keys_of_items artifact_links.keys_of_items
      keys_of_promotion distinct_js bench_names list.pred_map list.pred_True o_def list_all_enumerated js_inject)

section \<open>The published figures\<close>

text \<open>The number a cell shows: with a sign, thousands separators and a unit after it.\<close>

definition figure :: "string \<Rightarrow> real" where
  "figure cell =
     (let s = filter (\<lambda>c. c \<notin> {CHR '','', CHR ''+'', CHR ''-''}) cell;
          x = (case parseFloat (js s) of Some v \<Rightarrow> v | None \<Rightarrow> 0)
      in if CHR ''-'' \<in> set cell then - x else x)"

text \<open>
  A change of \<open>d\<close> percent fits figures \<open>b\<close> and \<open>s\<close> that were rounded by at most \<open>e\<close>: the changes of the values
  that round to them reach the values that round to \<open>d\<close>.
\<close>

definition change_fits :: "real \<Rightarrow> real \<Rightarrow> real \<Rightarrow> real \<Rightarrow> bool" where
  "change_fits e b s d \<longleftrightarrow>
     ((s - e) / (b + e) - 1) * 100 \<le> d + 1 / 200 \<and> d - 1 / 200 \<le> ((s + e) / (b - e) - 1) * 100"

definition row_fits :: "shard_result \<Rightarrow> bool" where
  "row_fits r \<longleftrightarrow>
     change_fits (1 / 2000) (figure (sr_bufferedThroughput r)) (figure (sr_streamingThroughput r)) (figure (sr_throughputDelta r))
     \<and> change_fits (1 / 200) (figure (sr_bufferedP95 r)) (figure (sr_streamingP95 r)) (figure (sr_latencyDelta r))
     \<and> figure (sr_streamingThroughput r) < figure (sr_bufferedThroughput r)
     \<and> figure (sr_bufferedP95 r) < figure (sr_streamingP95 r)"

text \<open>The names of the two artifacts of a shard size.\<close>

definition slug :: "string \<Rightarrow> string" where
  "slug sz = map (\<lambda>c. if c = CHR ''M'' then CHR ''m'' else if c = CHR ''B'' then CHR ''b'' else c)
     (filter (\<lambda>c. c \<noteq> CHR '' '') sz)"

definition artifact_names :: "shard_result \<Rightarrow> string list" where
  "artifact_names r =
     map (\<lambda>build. build @ ''-'' @ slug (sr_size r) @ ''-k6-summary.json'') [''buffered'', ''streaming'']"

lemma figure_eval:
  "figure ''3.223'' = 3223 / 1000"  "figure ''3.177'' = 3177 / 1000"
  "figure ''-1.42%'' = - 142 / 100"  "figure ''101.70 ms'' = 10170 / 100"
  "figure ''131.60 ms'' = 13160 / 100"  "figure ''+29.40%'' = 2940 / 100"
  "figure ''47.093'' = 47093 / 1000"  "figure ''43.508'' = 43508 / 1000"
  "figure ''-7.61%'' = - 761 / 100"  "figure ''294.65 ms'' = 29465 / 100"
  "figure ''516.60 ms'' = 51660 / 100"  "figure ''+75.33%'' = 7533 / 100"
  "figure ''123.785'' = 123785 / 1000"  "figure ''111.762'' = 111762 / 1000"
  "figure ''-9.71%'' = - 971 / 100"  "figure ''1,338.25 ms'' = 133825 / 100"
  "figure ''1,538.70 ms'' = 153870 / 100"  "figure ''+14.98%'' = 1498 / 100"
  "figure ''179.038'' = 179038 / 1000"  "figure ''137.025'' = 137025 / 1000"
  "figure ''-23.47%'' = - 2347 / 100"  "figure ''7,137.20 ms'' = 713720 / 100"
  "figure ''7,581.50 ms'' = 758150 / 100"  "figure ''+6.23%'' = 623 / 100"
  by (simp_all add: figure_def parseFloat_def js_def is_digit_def digit_val_def digit_table_def read_nat_def)

text \<open>
  The benchmark page is consistent. In every row the published changes fit the published figures up to the
  rounding of both, and streaming has the lower throughput and the higher latency, as the heading
  says. The artifacts are exactly the two of each row, each with a digest of 64 hexadecimal digits
  that no other has, and the keys of the page are distinct.
\<close>

theorem bench_figures_consistent:
  "list_all row_fits shardResults
   \<and> map fst artifacts = concat (map artifact_names shardResults)
   \<and> list_all (\<lambda>(f, sha). length sha = 64 \<and> set sha \<subseteq> set ''0123456789abcdef'') artifacts
   \<and> distinct (map snd artifacts)
   \<and> keys_ok bench_view"
proof (intro conjI bench_keys)
  show "list_all row_fits shardResults"
    by (simp add: shardResults_def row_fits_def change_fits_def figure_eval)
  show "map fst artifacts = concat (map artifact_names shardResults)" by code_simp
  show "list_all (\<lambda>(f, sha). length sha = 64 \<and> set sha \<subseteq> set ''0123456789abcdef'') artifacts" by code_simp
  show "distinct (map snd artifacts)" by code_simp
qed

end
