(* ===== verification/HowItWorksPage.thy ===== *)
theory HowItWorksPage
  imports SiteParts ControlPlane
begin

text \<open>
  The explanation of the system, \<open>frontend/src/pages/HowItWorksPage.tsx\<close>: its components and sections.
  The page has no state. Its state table is \<open>STATE_TABLE\<close> of \<open>ControlPlane\<close>. The component \<open>P\<close> of the
  source is \<open>Para\<close> here, and a code block is given by its lines.
\<close>

section \<open>Components\<close>

definition Section :: "string \<Rightarrow> 'a node list \<Rightarrow> 'a node" where
  "Section title children = Elem ''section'' [] (Elem ''h2'' [] [T title] # children)"

definition SubSection :: "string \<Rightarrow> 'a node list \<Rightarrow> 'a node" where
  "SubSection title children = Elem ''div'' [] (Elem ''h3'' [] [T title] # children)"

definition Para :: "'a node list \<Rightarrow> 'a node" where
  "Para children = Elem ''p'' [] children"

definition Strong :: "'a node list \<Rightarrow> 'a node" where
  "Strong children = Elem ''strong'' [] children"

definition Code :: "'a node list \<Rightarrow> 'a node" where
  "Code children = Elem ''code'' [] children"

fun join_lines :: "jsstring list \<Rightarrow> jsstring" where
  "join_lines [] = []"
| "join_lines [l] = l"
| "join_lines (l # ls) = l @ [Ch (CHR 0x0A)] @ join_lines ls"

definition CodeBlock :: "jsstring list \<Rightarrow> 'a node" where
  "CodeBlock children = Elem ''pre'' [] [Txt (join_lines children)]"

definition bullet_item :: "nat \<times> string \<Rightarrow> 'a node" where
  "bullet_item = (\<lambda>(i, item).
     Elem ''li'' [Key (nat_str i)] [Elem ''span'' [] [Txt [Uni 9679]], Elem ''span'' [] [T item]])"

definition BulletList :: "string list \<Rightarrow> 'a node" where
  "BulletList items = Elem ''ul'' [] (enumerated bullet_item items)"

definition Step :: "nat \<Rightarrow> string \<Rightarrow> 'a node list \<Rightarrow> 'a node" where
  "Step n title children =
     Elem ''div'' []
       (Elem ''div'' [] [Elem ''span'' [] [Txt (nat_str n)], Elem ''h3'' [] [T title]] # children)"

definition TechChoice :: "string \<Rightarrow> string \<Rightarrow> 'a node" where
  "TechChoice tech reason = Elem ''div'' [] [Elem ''h4'' [] [T tech], Elem ''p'' [] [T reason]]"

section \<open>Tables\<close>

definition state_row :: "string \<times> string \<times> string \<Rightarrow> 'a node" where
  "state_row = (\<lambda>(state, meaning, nxt).
     Elem ''tr'' [Key (js state)] [Elem ''td'' [] [T state], Elem ''td'' [] [T meaning], Elem ''td'' [] [T nxt]])"

definition CONTAINER_TABLE :: "(string \<times> string \<times> string) list" where
  "CONTAINER_TABLE =
     [(''ckpt-etcd'', ''2379'', ''Coordination store for leases, run state, metadata''),
      (''ckpt-minio'', ''9000'', ''S3-compatible object storage for checkpoint files''),
      (''ckpt-dataplane'', ''50051'', ''Rust gRPC server, writes/reads shards to MinIO''),
      (''ckpt-controlplane'', ''8000'', ''Python REST API, orchestrates everything''),
      (''ckpt-worker-0'', ''--'', ''PyTorch DDP worker rank 0 (saves checkpoints)''),
      (''ckpt-worker-1'', ''--'', ''PyTorch DDP worker rank 1 (trains in parallel)''),
      (''ckpt-frontend'', ''3000'', ''React dashboard and this page you're reading''),
      (''ckpt-otel'', ''4317'', ''OpenTelemetry Collector, receives and routes telemetry''),
      (''ckpt-prometheus'', ''9091'', ''Time-series database for metrics''),
      (''ckpt-grafana'', ''3001'', ''Dashboard UI for metrics visualization''),
      (''ckpt-jaeger'', ''16686'', ''Distributed tracing UI'')]"

definition container_row :: "string \<times> string \<times> string \<Rightarrow> 'a node" where
  "container_row = (\<lambda>(name, port, desc).
     Elem ''tr'' [Key (js name)] [Elem ''td'' [] [T name], Elem ''td'' [] [T port], Elem ''td'' [] [T desc]])"

section \<open>Sections\<close>

definition how_header :: "'a node" where
  "how_header =
     Elem ''header'' []
       [Elem ''h1'' [] [T ''How It Works''],
        Elem ''p'' []
          [T ''This is a full on YAP fest covering every itty bitty detail of how this project works. '',
           T ''For all the nerds out there.'']]"

definition problem_section :: "'a node" where
  "problem_section =
     Section ''The Problem: Why This Exists''
       [Para
          [T ''You're training a neural network across 2 machines. It takes 1,000 steps. At step 850, '',
           T ''one machine crashes. The operating system killed it because it ran out of memory. Or '',
           T ''the network dropped. Or someone tripped over a power cable. Doesn't matter, it's dead.''],
        Para
          [T ''Without checkpointing, you start over from step 0. All 850 steps of work? Gone. The '',
           T ''model weights, the optimizer momentum, the learning rate schedule. All of it was in '',
           T ''RAM, and RAM is empty after a crash.''],
        Para
          [T ''Now imagine this at scale. OpenAI, Google, Meta, NVIDIA, Microsoft. They train models '',
           T ''on '',
           Strong [T ''thousands''],
           T '' of GPUs for '',
           Strong [T ''weeks''],
           T ''. A single GPU failure every few hours is normal. Without checkpointing, large-scale '',
           T ''training is literally impossible.''],
        Para
          [T ''This system solves that. Every 50 training steps, it saves the model's brain (the '',
           T ''weights and optimizer state) to storage. When a machine dies, the new machine loads the '',
           T ''last save and picks up right where the dead one left off.'']]"

definition planes_section :: "'a node" where
  "planes_section =
     Section ''The Architecture: Two Planes''
       [Para
          [T ''The system is split into two halves. This is the same pattern used at companies like '',
           T ''OpenAI and Anyscale for their training infrastructure.''],
        SubSection ''Control Plane (Python / FastAPI)''
          [Para
             [T ''The brain. It doesn't touch any training data. It only manages '',
              Strong [T ''state''],
              T '': who's alive, who's dead, what step are we on, is a checkpoint in progress.''],
           BulletList
             [''Written in Python because it coordinates with PyTorch workers (also Python)'',
              ''Runs a FastAPI REST server on port 8000'',
              ''Talks to etcd (a distributed key-value store) to track worker leases and run state'',
              ''Talks to the Rust data plane over gRPC to trigger checkpoint writes and reads'',
              ''Manages an 8-state lifecycle state machine for each training run'']],
        SubSection ''Data Plane (Rust / Tokio / gRPC)''
          [Para
             [T ''The muscle. It handles the actual bytes: receiving checkpoint data over gRPC, computing '',
              T ''SHA-256 checksums, and writing to MinIO (S3-compatible object storage).''],
           BulletList
             [''Written in Rust for speed. No garbage collector pauses during large uploads.'',
              ''Uses Tokio async runtime for concurrent I/O (multiple shards uploading at once)'',
              ''Exposes a gRPC server on port 50051 using the tonic framework'',
              ''Implements backpressure: if the upload queue is full, it tells the control plane to slow down'',
              ''Retries failed S3 uploads with exponential backoff + jitter (random delay to prevent thundering herd)'']],
        SubSection ''Why Split Them?''
          [Para
             [T ''Python is great for orchestration but slow at I/O-heavy work. Rust is great at I/O but '',
              T ''overkill for managing state machines. By splitting them, each part uses the best tool '',
              T ''for the job. The control plane can be restarted without interrupting an in-progress '',
              T ''upload, and the data plane can be scaled independently.'']]]"

definition save_section :: "'a node" where
  "save_section =
     Section ''What Happens When a Checkpoint Saves''
       [Para
          [T ''Let's say training is at step 100 and it's time to save. Here's every single thing that '',
           T ''happens, in order:''],
        Step 1 ''Worker serializes the model''
          [Para
             [T ''The PyTorch worker on rank 0 calls '',
              Code [T ''torch.save()''],
              T '' to convert the model weights and optimizer state into raw bytes. This is a '',
              Code [T ''state_dict''],
              T '', a Python dictionary where keys are layer names and values are tensors.''],
           CodeBlock
             [js ''state = {'',
              js ''    \"model_state_dict\": model.state_dict(),'',
              js ''    \"optimizer_state_dict\": optimizer.state_dict(),'',
              js ''    \"step\": 100,'',
              js ''    \"loss\": 0.234,'',
              js ''}'',
              js ''buffer = io.BytesIO()'',
              js ''torch.save(state, buffer)'',
              js ''shard_data = buffer.getvalue()  # raw bytes, ~3.8 MB'']],
        Step 2 (''Worker tells the control plane: 'start a checkpoint'' @ [CHR 0x27])
          [Para [T ''The worker sends an HTTP POST request to the control plane:''],
           CodeBlock
             [js ''POST /api/runs/{run_id}/checkpoint'',
              js ''Body: {\"step\": 100}'',
              [],
              js ''Response: {\"checkpoint_id\": \"ckpt-a1b2c3d4\"}''],
           Para
             [T ''The control plane changes the run's state from '',
              Code [T ''RUNNING''],
              T '' to'',
              T '' '',
              Code [T ''CHECKPOINTING''],
              T ''. This is stored in etcd so all services know a checkpoint is in progress.'']],
        Step 3 ''Worker uploads the bytes through the control plane to the data plane''
          [Para [T ''The worker sends the raw bytes to the control plane via HTTP:''],
           CodeBlock
             [js ''POST /api/runs/{run_id}/checkpoints/{checkpoint_id}/shards/rank-0'',
              js ''Content-Type: application/octet-stream'',
              js ''Body: <3.8 MB of raw bytes>''],
           Para
             [T ''The control plane doesn't store these bytes. It immediately forwards them to the Rust '',
              T ''data plane over gRPC using '',
              Strong [T ''streaming''],
              T ''. The bytes are split into 4 MB chunks and sent one at a time:''],
           CodeBlock
             [js ''// Python control plane -> Rust data plane (gRPC)'',
              js ''WriteShard(stream of ShardChunk messages)'',
              [],
              js ''Each ShardChunk = {'',
              js ''    checkpoint_id: \"run-xyz/ckpt-a1b2c3d4\",  // composite encoding!'',
              js ''    shard_id: \"rank-0\",'',
              js ''    data: <4 MB chunk>,'',
              js ''    chunk_index: 0,'',
              js ''    total_chunks: 1,'',
              js ''}''],
           Para
             [T ''Notice the '',
              Code [T ''checkpoint_id''],
              T '' field. The gRPC proto doesn't have a separate '',
              Code [T ''run_id''],
              T '' field, so the Python side encodes both as'',
              T '' '',
              Code [T ''\"run_id/checkpoint_id\"''],
              T ''. The Rust side splits on '',
              Code [T ''/''],
              T '' to recover both values. This is a real integration detail that took debugging to get '',
              T ''right.'']],
        Step 4 ''Rust data plane writes to MinIO with content-addressed keys''
          [Para [T ''The Rust service receives the bytes, computes a SHA-256 hash, and uploads to MinIO:''],
           CodeBlock
             [js ''// Rust data plane'',
              js ''let hash = sha256(all_chunks);'',
              js ''let storage_key = format!('',
              js ''    \"{run_id}/{checkpoint_id}/sha256-{hash_prefix}-{shard_id}.bin\"'',
              js '');'',
              js ''// Example: \"run-xyz/ckpt-a1b2/sha256-a1b2c3d4e5f6a7b8-rank-0.bin\"'',
              [],
              js ''s3_client.put_object(bucket, storage_key, bytes).await?;'',
              [],
              js ''// Also writes a checksum sidecar file:'',
              js ''// \"run-xyz/ckpt-a1b2/rank-0.sha256\" containing the full hash''],
           Para
             [T ''The key contains the hash. This means if you upload the exact same bytes twice, you get '',
              T ''the exact same key, so it's '',
              Strong [T ''deduplicated automatically''],
              T ''. This is called content-addressed storage.'']],
        Step 5 (''Worker tells the control plane: 'commit this checkpoint'' @ [CHR 0x27])
          [Para [T ''After all shards are uploaded, the worker sends:''],
           CodeBlock [js ''POST /api/runs/{run_id}/commit''],
           Para
             [T ''The control plane tells the Rust data plane to write a '',
              Code [T ''_manifest.json''],
              T '' file:''],
           CodeBlock
             [js ''// Written to MinIO: run-xyz/ckpt-a1b2/_manifest.json'',
              js ''{'',
              js ''    \"checkpoint_id\": \"ckpt-a1b2c3d4\",'',
              js ''    \"run_id\": \"run-xyz\",'',
              js ''    \"step\": 100,'',
              js ''    \"created_at\": \"2026-03-06T14:35:42Z\",'',
              js ''    \"num_shards\": 1,'',
              js ''    \"total_bytes\": 3985408,'',
              js ''    \"shards\": [{'',
              js ''        \"shard_id\": \"rank-0\",'',
              js ''        \"size_bytes\": 3985408,'',
              js ''        \"sha256\": \"a1b2c3d4e5f6a7b8...\",'',
              js ''        \"storage_key\": \"run-xyz/ckpt-a1b2/sha256-a1b2c3d4e5f6a7b8-rank-0.bin\"'',
              js ''    }]'',
              js ''}''],
           Para
             [T ''The manifest is the '',
              Strong [T ''atomic commit point''],
              T ''. If the manifest file exists in MinIO, the checkpoint is complete. If it doesn't '',
              T ''exist, the checkpoint failed and the shard files are garbage. This is how databases '',
              T ''work too: write the data first, then write a commit record.''],
           Para
             [T ''The run state transitions: '',
              Code [T ''CHECKPOINTING '', Txt [Uni 8594], T '' COMMITTED '', Txt [Uni 8594], T '' RUNNING''],
              T ''. Training continues.'']]]"

definition death_section :: "'a node" where
  "death_section =
     Section ''What Happens When a Worker Dies''
       [Para
          [T ''The hosted Simulation illustrates this sequence entirely in the browser; it does not '',
           T ''call a backend. When you run the real Docker stack locally and kill a worker, here's '',
           T ''every single thing that happens:''],
        Step 1 ''The container is killed''
          [Para
             [T ''In the local setup, call '',
              Code [T ''POST /api/demo/kill-worker/ckpt-worker-0''],
              T '' on'',
              Code [T '' localhost:8000''],
              T ''. The endpoint stops both DDP workers, marks the run failed, and schedules the same '',
              T ''restart path used by the original hosted interface:''],
           CodeBlock [js ''subprocess.run([\"docker\", \"kill\", \"ckpt-worker-0\"])''],
           Para
             [T ''This sends SIGKILL to the container. The process is dead instantly. No graceful '',
              T ''shutdown, no cleanup, just like a real hardware failure.'']],
        Step 2 ''The control plane detects the death (5-15 seconds)''
          [Para
             [T ''Every worker sends a heartbeat to etcd every 5 seconds. Each heartbeat renews a'',
              Strong [T '' lease''],
              T '' with a 10-second TTL (time to live). When the worker dies, the heartbeats stop. After '',
              T ''10 seconds, the etcd lease expires.''],
           Para
             [T ''The control plane's HeartbeatManager polls every 3 seconds. When it sees the expired '',
              T ''lease, it transitions the run state:''],
           CodeBlock
             [js ''RUNNING -> FAILED'',
              [],
              js ''// Log: \"Worker ckpt-worker-0 heartbeat timeout, marking run as FAILED\"'']],
        Step 3 ''The container auto-restarts (3 seconds after kill)''
          [Para [T ''Back when the kill happened, the control plane also scheduled an auto-restart:''],
           CodeBlock
             [js ''async def _restart():'',
              js ''    await asyncio.sleep(5)'',
              js ''    subprocess.run([\"docker\", \"start\", \"ckpt-worker-0\"])'',
              [],
              js ''asyncio.create_task(_restart())''],
           Para
             [T ''Why not use Docker's built-in '',
              Code [T ''restart: always''],
              T '' policy? Because on Docker Desktop for Windows, '',
              Code [T ''docker kill''],
              T '' does NOT trigger the restart policy. This is a real Docker Desktop bug. The workaround '',
              T ''is this manual restart.'']],
        Step 4 ''The restarted worker finds the old run''
          [Para [T ''When the worker starts, it checks for an existing run ID in a shared volume:''],
           CodeBlock
             [js ''# Worker startup (train.py)'',
              js ''run_id = read_file(\"/shared/run_id\")  # from previous run'',
              js ''status = GET /api/runs/{run_id}'',
              [],
              js ''if status.state in (\"FAILED\", \"RECOVERING\"):'',
              js ''    # This is OUR old run, resume it'',
              js ''    POST /api/runs/{run_id}/resume''],
           Para
             [T ''The control plane transitions: '',
              Code [T ''FAILED '', Txt [Uni 8594], T '' RECOVERING '', Txt [Uni 8594], T '' RUNNING'']]],
        Step 5 ''The worker loads the last checkpoint from MinIO''
          [Para
             [T ''The worker asks the control plane for the list of checkpoints, finds the last one with '',
              T ''state '',
              Code [T ''COMMITTED''],
              T '', and downloads the shard bytes:''],
           CodeBlock
             [js ''GET /api/runs/{run_id}/checkpoints'',
              js ''-> [{checkpoint_id: \"ckpt-a1b2\", step: 100, state: \"COMMITTED\"}, ...]'',
              [],
              js ''GET /api/runs/{run_id}/checkpoints/ckpt-a1b2/shards/rank-0'',
              js ''-> <3.8 MB of raw bytes>  (fetched from MinIO via Rust data plane)''],
           Para [T ''The worker deserializes the bytes back into PyTorch tensors:''],
           CodeBlock
             [js ''state = torch.load(io.BytesIO(shard_bytes))'',
              js ''model.load_state_dict(state[\"model_state_dict\"])'',
              js ''optimizer.load_state_dict(state[\"optimizer_state_dict\"])'',
              js ''start_step = state[\"step\"]  # 100, not 0!'']],
        Step 6 ''Training resumes from step 100''
          [Para
             [T ''The training loop starts from '',
              Code [T ''step=100''],
              T '' instead of '',
              Code [T ''step=0''],
              T ''. The model weights are exactly where they were before the crash. The optimizer '',
              T ''momentum is restored. No work was lost.''],
           CodeBlock
             [js ''# Log: \"Restored from checkpoint: step=100, loss=0.234\"'',
              js ''# Training continues: step=101, step=102, step=103...'']]]"

definition state_section :: "'a node" where
  "state_section =
     Section ''The State Machine: 8 States''
       [Para
          [T ''Every training run has a state. The control plane enforces that only valid transitions '',
           T ''happen. You can't go from '',
           Code [T ''COMPLETED''],
           T '' to '',
           Code [T ''RUNNING''],
           T '', for example. Here are all the states:''],
        Elem ''div'' []
          [Elem ''table'' []
             [Elem ''thead'' []
                [Elem ''tr'' []
                   [Elem ''th'' [] [T ''State''],
                    Elem ''th'' [] [T ''Meaning''],
                    Elem ''th'' [] [T ''Next States'']]],
              Elem ''tbody'' [] (map state_row STATE_TABLE)]],
        Para
          [T ''The normal loop is: '',
           Code
             [T ''RUNNING '',
              Txt [Uni 8594],
              T '' CHECKPOINTING '',
              Txt [Uni 8594],
              T '' COMMITTED '',
              Txt [Uni 8594],
              T '' RUNNING''],
           T '' (repeat).''],
        Para
          [T ''The failure/recovery path is: '',
           Code
             [T ''RUNNING '',
              Txt [Uni 8594],
              T '' FAILED '',
              Txt [Uni 8594],
              T '' RECOVERING '',
              Txt [Uni 8594],
              T '' RUNNING''],
           T ''.''],
        Para
          [T ''All transitions are stored in etcd with timestamps, so you get a full audit trail of '',
           T ''everything that happened during training.'']]"

definition etcd_section :: "'a node" where
  "etcd_section =
     Section ''etcd: The Coordination Layer''
       [Para
          [T ''etcd is a distributed key-value store. Think of it as a shared dictionary that multiple '',
           T ''services can read and write to, with strong consistency guarantees (if you write a '',
           T ''value, everyone sees it immediately).''],
        Para [T ''This system uses etcd for three things:''],
        BulletList
          [''Worker leases: each worker holds a lease with a 10-second TTL. If the worker stops renewing it, the lease expires and the control plane knows the worker is dead.'',
           ''Run state: the current state (RUNNING, FAILED, etc.) and metadata (current step, run ID) are stored in etcd keys.'',
           ''Checkpoint metadata: which checkpoints exist, what step they're at, and whether they're committed.''],
        Para
          [T ''Why etcd instead of a regular database? Because etcd has built-in lease TTLs. You '',
           T ''create a lease, attach it to a key, and if the lease isn't renewed within the TTL, the '',
           T ''key is automatically deleted. This is exactly what we need for heartbeat-based failure '',
           T ''detection, no custom timer code needed.'']]"

definition storage_section :: "'a node" where
  "storage_section =
     Section ''MinIO: The Storage Layer''
       [Para
          [T ''MinIO is an open-source S3-compatible object store. It speaks the exact same API as '',
           T ''Amazon S3, so the Rust data plane uses the AWS S3 SDK to talk to it. If you swapped '',
           T ''MinIO for real S3, you'd change one environment variable and everything would still '',
           T ''work.''],
        Para [T ''File layout in the bucket:''],
        CodeBlock
          [js ''checkpoints/'',
           [Uni 9492, Uni 9472, Uni 9472] @ js '' run-abc123/'',
           js ''    '' @ [Uni 9500, Uni 9472, Uni 9472] @ js '' ckpt-001/'',
           js ''    '' @ [Uni 9474] @ js ''   '' @ [Uni 9500, Uni 9472, Uni 9472] @ js '' sha256-a1b2c3d4e5f6a7b8-rank-0.bin  (3.8 MB, model weights)'',
           js ''    '' @ [Uni 9474] @ js ''   '' @ [Uni 9500, Uni 9472, Uni 9472] @ js '' rank-0.sha256                         (64 bytes, checksum)'',
           js ''    '' @ [Uni 9474] @ js ''   '' @ [Uni 9492, Uni 9472, Uni 9472] @ js '' _manifest.json                        (commit proof)'',
           js ''    '' @ [Uni 9492, Uni 9472, Uni 9472] @ js '' ckpt-002/'',
           js ''        '' @ [Uni 9500, Uni 9472, Uni 9472] @ js '' sha256-f7e8d9c0b1a2f3e4-rank-0.bin  (3.8 MB)'',
           js ''        '' @ [Uni 9500, Uni 9472, Uni 9472] @ js '' rank-0.sha256'',
           js ''        '' @ [Uni 9492, Uni 9472, Uni 9472] @ js '' _manifest.json''],
        Para
          [T ''The '',
           Code [T ''.bin''],
           T '' files contain the actual model weights. The filename includes the first 16 characters '',
           T ''of the SHA-256 hash of the contents. The '',
           Code [T ''.sha256''],
           T '' file contains the full 64-character hash for verification. The '',
           Code [T ''_manifest.json''],
           T '' is the commit record that proves the checkpoint completed successfully.'']]"

definition observability_section :: "'a node" where
  "observability_section =
     Section ''Observability: Metrics, Traces, Dashboards''
       [Para
          [T ''The system exports telemetry data through OpenTelemetry, which feeds into three '',
           T ''backends:''],
        SubSection ''Prometheus (Metrics)''
          [Para
             [T ''Numbers over time. The control plane exports metrics in Prometheus format at'',
              T '' '',
              Code [T ''/api/metrics/prometheus''],
              T '':''],
           BulletList
             [''controlplane_checkpoints_total: how many checkpoints have been created'',
              ''controlplane_checkpoint_duration_seconds: how long each checkpoint save takes'',
              ''controlplane_worker_heartbeat_lag_seconds: how stale each worker's last heartbeat is'',
              ''controlplane_active_workers: how many workers are currently alive'']],
        SubSection ''Grafana (Dashboards)''
          [Para
             [T ''Visualizes Prometheus metrics as graphs and charts. There's a pre-built dashboard '',
              T ''showing checkpoint throughput, worker health, and recovery timelines. Accessible on '',
              T ''port 3001.'']],
        SubSection ''Jaeger (Distributed Tracing)''
          [Para
             [T ''Traces show the path of a single request across multiple services. When a checkpoint '',
              T ''saves, you can see the trace: Worker '',
              Txt [Uni 8594],
              T '' Control Plane '',
              Txt [Uni 8594],
              T '' Rust Data Plane '',
              Txt [Uni 8594],
              T '' MinIO, with timing for each hop. This is how you debug latency issues in distributed '',
              T ''systems. Accessible on port 16686.'']]]"

definition ddp_section :: "'a node" where
  "ddp_section =
     Section ''PyTorch DDP: How the Workers Train''
       [Para
          [T ''DDP stands for Distributed Data Parallel. It's PyTorch's built-in way to train one '',
           T ''model across multiple machines. Each worker has a full copy of the model. Each worker '',
           T ''gets a different slice of the training data. After computing gradients, all workers '',
           T ''sync their gradients using '',
           Strong [T ''all-reduce''],
           T '' (every worker sends its gradients to every other worker, and they all average them).''],
        Para
          [T ''This system uses the '',
           Code [T ''gloo''],
           T '' backend (CPU-only) instead of '',
           Code [T ''nccl''],
           T '' (GPU). The previous Hetzner deployment and the default local Docker stack are '',
           T ''CPU-only, so gloo works over regular TCP. The public site no longer relies on the paid '',
           T ''VPS, which is being retired. To switch to GPU training, you'd change one line: '',
           Code [T ''backend=\"nccl\"''],
           T ''.''],
        Para
          [T ''Only rank-0 (the first worker) saves checkpoints. The other workers don't need to save '',
           T ''because in DDP with gloo, all workers have identical model weights after each '',
           T ''all-reduce step. When recovering, non-rank-0 workers fall back to loading rank-0's '',
           T ''shard, and they'll get the same weights.'']]"

definition docker_section :: "'a node" where
  "docker_section =
     Section ''The Docker Stack: 11 Services''
       [Para [T ''Everything runs in Docker Compose. Here's every single container:''],
        Elem ''div'' []
          [Elem ''table'' []
             [Elem ''thead'' []
                [Elem ''tr'' []
                   [Elem ''th'' [] [T ''Container''],
                    Elem ''th'' [] [T ''Port''],
                    Elem ''th'' [] [T ''What It Does'']]],
              Elem ''tbody'' [] (map container_row CONTAINER_TABLE)]]]"

definition choices_section :: "'a node" where
  "choices_section =
     Section ''Why These Technology Choices''
       [Elem ''div'' []
          [TechChoice ''Rust for the Data Plane''
             (''Checkpoint data can be gigabytes. Rust has zero-cost abstractions, no garbage collector ''
              @ ''pauses, and async I/O via Tokio. A Python data plane would add seconds of GC latency ''
              @ ''during large uploads.''),
           TechChoice ''gRPC for Control-Data communication''
             (''gRPC supports streaming: the control plane can send checkpoint bytes as a stream of ''
              @ ''chunks instead of buffering the entire thing in memory. It also generates type-safe ''
              @ ''client/server code from .proto files.''),
           TechChoice ''etcd for coordination''
             (''Built-in lease TTLs make heartbeat-based failure detection trivial. Strong consistency ''
              @ ''means all services see the same state. Used in production by Kubernetes itself.''),
           TechChoice ''MinIO for storage''
             (''API-compatible with Amazon S3. Runs locally in Docker for development. Switch to real ''
              @ ''S3 by changing one environment variable. No vendor lock-in.''),
           TechChoice ''FastAPI for the Control Plane''
             (''Async Python with type hints. Auto-generates OpenAPI docs. Plays well with the PyTorch ''
              @ ''ecosystem (same language as the training workers).''),
           TechChoice ''Content-addressed storage keys''
             (''The filename includes the SHA-256 hash of the content. Upload the same bytes twice? ''
              @ ''Same filename, automatic deduplication. Verify data integrity? Recompute the hash and ''
              @ ''compare.'')]]"

definition how_footer :: "'a node" where
  "how_footer =
     Elem ''footer'' []
       [Elem ''p'' []
          [T ''Built with Rust, Python, React, gRPC, etcd, MinIO, Docker, Prometheus, Grafana, and '',
           T ''Jaeger.'']]"

definition how_view :: "'a node" where
  "how_view =
     Elem ''div'' []
       [how_header, problem_section, planes_section, save_section, death_section, state_section,
        etcd_section, storage_section, observability_section, ddp_section, docker_section, choices_section, how_footer]"

section \<open>Lemmas\<close>

lemmas how_defs =
  how_header_def problem_section_def planes_section_def save_section_def death_section_def
  state_section_def etcd_section_def storage_section_def observability_section_def ddp_section_def
  docker_section_def choices_section_def how_footer_def

lemmas how_components =
  Section_def SubSection_def Para_def Strong_def Code_def CodeBlock_def BulletList_def Step_def TechChoice_def

interpretation state_rows: keyed_list state_row "\<lambda>x. js (fst x)"
  by unfold_locales (simp add: state_row_def split: prod.split)

interpretation container_rows: keyed_list container_row "\<lambda>x. js (fst x)"
  by unfold_locales (simp add: container_row_def split: prod.split)

interpretation bullet_items: keyed_list bullet_item "\<lambda>x. nat_str (fst x)"
  by unfold_locales (simp add: bullet_item_def split: prod.split)

lemma how_item_simps [simp]:
  "keys_ok (state_row x)" "keys_ok (container_row x)" "keys_ok (bullet_item b)"
  "links (map state_row xs) = []" "links (map container_row xs) = []" "links (enumerated bullet_item bs) = []"
  "elem_texts ''code'' (map state_row xs) = []" "elem_texts ''code'' (map container_row xs) = []"
  "elem_texts ''code'' (enumerated bullet_item bs) = []"
  by (auto simp: state_row_def container_row_def bullet_item_def enumerated_def
      intro!: links_map elem_texts_map split: prod.split)

lemma keys_of_bullets: "keys_of (enumerated bullet_item bs) = map nat_str [0..<length bs]"
  by (rule keys_of_enumerated) (simp add: bullet_items.item_key)

lemma how_links: "links [how_view] = []"
  by (simp add: how_view_def how_defs how_components)

lemma how_names: "distinct (map fst STATE_TABLE)" "distinct (map fst CONTAINER_TABLE)"
  by (simp_all add: STATE_TABLE_def CONTAINER_TABLE_def)

lemma how_keys: "keys_ok how_view"
  by (simp add: how_view_def how_defs how_components state_rows.keys_of_items container_rows.keys_of_items
      keys_of_bullets distinct_js distinct_nat_str how_names list.pred_map list.pred_True o_def list_all_enumerated)

text \<open>The code snippets with arrows.\<close>

definition arrow_texts :: "'a node list \<Rightarrow> jsstring list" where
  "arrow_texts ns = filter (\<lambda>c. Uni 8594 \<in> set c) (elem_texts ''code'' ns)"

lemma how_arrow_texts:
  "arrow_texts [how_view] =
     [js ''CHECKPOINTING '' @ Uni 8594 # js '' COMMITTED '' @ Uni 8594 # js '' RUNNING'',
      js ''FAILED '' @ Uni 8594 # js '' RECOVERING '' @ Uni 8594 # js '' RUNNING'',
      js ''RUNNING '' @ Uni 8594 # js '' CHECKPOINTING '' @ Uni 8594 # js '' COMMITTED '' @ Uni 8594 # js '' RUNNING'',
      js ''RUNNING '' @ Uni 8594 # js '' FAILED '' @ Uni 8594 # js '' RECOVERING '' @ Uni 8594 # js '' RUNNING'']"
  by (simp add: arrow_texts_def how_view_def how_defs how_components)

text \<open>The states such a snippet names.\<close>

definition trim_spaces :: "jsstring \<Rightarrow> jsstring" where
  "trim_spaces s =
     (let drop_spaces = dropWhile (\<lambda>c. c = Ch (CHR '' '')) in rev (drop_spaces (rev (drop_spaces s))))"

definition state_path :: "jsstring \<Rightarrow> jsstring list" where
  "state_path s = map trim_spaces (split_on (Uni 8594) s)"

definition follows :: "jsstring \<Rightarrow> jsstring \<Rightarrow> bool" where
  "follows a b \<longleftrightarrow>
     list_ex (\<lambda>s. a = js (run_state_name s) \<and> list_ex (\<lambda>t. b = js (run_state_name t)) (VALID_TRANSITIONS s))
       all_run_states"

end
