(* ===== verification/PublicSite.thy ===== *)
theory PublicSite
  imports DemoView LandingPage TryLocallyPage BenchmarksPage HowItWorksPage App
begin

text \<open>
  Properties of the public pages taken together: where their links lead, how their sections are
  numbered, and whether the state paths and services they describe are those of the system.
\<close>

section \<open>Links\<close>

lemma links_entries [simp]:
  "links (map timeline_entry es) = []" "links (map stored_entry cs) = []" "links (map log_entry ls) = []"
  "links (map (pipeline_stage i) ps) = []" "links (map (sim_worker_card s) ws) = []"
  by (auto simp: timeline_entry_def stored_entry_def log_entry_def pipeline_stage_def sim_worker_card_def Let_def
      show_if_def intro!: links_map split: prod.split)

lemma polyline_links [simp]: "attr_links (concat (map (\<lambda>(x, y). [Num ''x'' x, Num ''y'' y]) ps)) = []"
  by (induction ps) auto

lemma demo_links: "set (links [demo_view s]) = {js ''/try-locally''}"
  by (auto simp: demo_view_def intro_section_def start_section_def outro_section_def started_section_def
      stage_cards_def StageCard_def Let_def workers_card_def metrics_grid_def metric_rows_def loss_panel_def
      timeline_panel_def boundary_panel_def boundary_row_def storage_panel_def stdout_panel_def failure_banner_def
      recovered_banner_def SimulationPipeline_def show_if_def)

text \<open>A path that the routes of the application answer by a page that is not an operator page, whatever the host.\<close>

definition public_path :: "jsstring \<Rightarrow> bool" where
  "public_path p \<longleftrightarrow>
     (\<forall>hostname. list_ex (\<lambda>(pat, e). js pat = p \<and> (case e of Show q \<Rightarrow> \<not> operator_page q | _ \<Rightarrow> False)) (routes hostname))"

lemma public_paths:
  "public_path (js ''/'')" "public_path (js ''/demo'')" "public_path (js ''/how-it-works'')" "public_path (js ''/try-locally'')"
  by (simp_all add: public_path_def routes_def js_inject operator_page_def)

text \<open>
  In every state of the public pages each of their links leads to a public page: a route of the application
  that shows one on every host, so that a visitor of the hosted site never meets the guard of the
  operator pages or an unknown route.
\<close>

theorem public_links_lead_to_pages:
  "list_all public_path (links [landing_view openQA]) \<and> list_all public_path (links [try_view copied])
   \<and> list_all public_path (links [demo_view s]) \<and> list_all public_path (links [how_view])
   \<and> list_all public_path (links [bench_view])"
proof -
  have "list_all public_path (links [demo_view s])"
    by (simp add: list_all_iff demo_links public_paths)
  then show ?thesis
    by (simp add: landing_links try_links how_links bench_links public_paths)
qed

section \<open>Numbering\<close>

text \<open>
  The sections of the landing page and of the guide are numbered without a gap: their counters read 01, 02 and
  so on, up to the total that every counter shows.
\<close>

theorem sections_numbered:
  "map (take 6) (counters [landing_view openQA]) =
     map (\<lambda>i. js ''['' @ two_digits i @ js ''/'' @ two_digits LandingPage.TOTAL) [1..<Suc LandingPage.TOTAL]
   \<and> map (take 6) (counters [try_view copied]) =
     map (\<lambda>i. js ''['' @ two_digits i @ js ''/'' @ two_digits TryLocallyPage.TOTAL) [1..<Suc TryLocallyPage.TOTAL]"
  using numbered_prefixes [of landing_labels] numbered_prefixes [of try_labels]
  unfolding landing_counters try_counters section_numbers(1) try_section_numbers(1)
    LandingPage.TOTAL_def TryLocallyPage.TOTAL_def by simp

section \<open>Descriptions of the system\<close>

lemma landing_item_texts [simp]:
  "elem_texts ''code'' (map service_tile xs) = []" "elem_texts ''code'' (map tech_badge ts) = []"
  "elem_texts ''code'' (enumerated (qa_item openQA) qs) = []"
  by (auto simp: service_tile_def tech_badge_def qa_item_def Let_def show_if_def enumerated_def
      intro!: elem_texts_map split: prod.split)

lemma landing_arrow_texts:
  "arrow_texts [landing_view openQA] =
     [js ''CREATED '' @ Uni 8594 # js '' RUNNING '' @ Uni 8594 # js '' CHECKPOINTING '' @ Uni 8594 # js '' COMMITTED'',
      js ''FAILED '' @ Uni 8594 # js '' RECOVERING '' @ Uni 8594 # js '' RUNNING'']"
  by (simp add: arrow_texts_def landing_view_def landing_defs page_simps LandingPage.SectionCounter_def)

text \<open>
  The state paths that the public pages print, such as \<open>RUNNING, FAILED, RECOVERING, RUNNING\<close> with arrows in
  between, are runs of the state machine of the control plane: every step of each of them is a
  valid transition. There are six of them.
\<close>

theorem documented_paths_valid:
  "list_all (\<lambda>c. successively follows (state_path c)) (arrow_texts [landing_view openQA] @ arrow_texts [how_view])
   \<and> length (arrow_texts [landing_view openQA] @ arrow_texts [how_view]) = 6"
  unfolding landing_arrow_texts how_arrow_texts
  by (simp add: state_path_def trim_spaces_def Let_def js_def follows_def all_run_states_def)

text \<open>The labels of the boxes of the architecture diagram.\<close>

definition box_labels :: "'a node list \<Rightarrow> jsstring list" where
  "box_labels ns = concat (map (\<lambda>n. case n of
       Elem t as (Elem u [] [Txt l] # Elem v [] [Txt sub] # []) \<Rightarrow> if u = ''div'' \<and> v = ''div'' then [l] else []
     | _ \<Rightarrow> []) (all_nodes ns))"

text \<open>
  The diagram of the architecture shows nine of the eleven services that the landing page lists; the
  collector appears in its caption only and the frontend not at all.
\<close>

theorem diagram_services:
  "set (box_labels [ArchitectureDiagram]) = set (map (js \<circ> fst) landing_services) - {js ''OTEL'', js ''Frontend''}
   \<and> length (box_labels [ArchitectureDiagram]) = 9 \<and> length landing_services = 11"
  by code_simp

end
