(* ===== verification/Spec2Isabelle.thy ===== *)
theory Spec2Isabelle
  imports Design JsRegex Simulation DemoView Vdom Ui Fetching ControlPlane RunsPage RunDetailPage
    CheckpointBrowser HealthPage PerformancePage LogParser LogViews StorageBrowser Widgets App
    Coordinator CheckpointApi CheckpointProtocol Retention Fleet Recovery FleetSystem FleetProperties
    DataPlane ShardStore StorageUpkeep Admission Harness Training CrashSafety Operations Motion
    SiteParts ArchitectureDiagram LandingPage TryLocallyPage BenchmarksPage HowItWorksPage PublicSite
begin

text \<open>
  \<^bold>\<open>The checkpoint runtime: control plane, data plane, training harness and web frontend.\<close>

  The repository holds a checkpointing runtime for distributed training: a Python control plane
  (\<open>python-controlplane\<close>) that owns runs, checkpoints and workers, a Rust data plane
  (\<open>rust-dataplane\<close>) that stores shards in an object store, a training harness (\<open>training-harness\<close>)
  and a React frontend (\<open>frontend\<close>). Workers of the harness register, send heartbeats and upload their
  shards to the REST API of the control plane, which passes the chunks to the gRPC service of the
  data plane, commits checkpoints there, detects dead workers and restarts their group. The frontend
  routes to public pages (landing page, explanation, setup guide, benchmarks and a simulation of a
  recovery that runs in the browser) and, on local hosts only, to an operator console that polls the
  control plane and posts run actions to it.

  \<^bold>\<open>Theories of the frontend.\<close> Paths are relative to \<open>frontend/src\<close>.

  \<^item> \<open>Prelude\<close>: slices of arrays, the last \<open>n\<close> elements of a list, and the locale
    \<open>bounded_buffer\<close>, the contract of every capped list of the frontend (events, log lines, markers,
    timeline): it is interpreted for all eight of them.
  \<^item> \<open>JsText\<close>, \<open>JsRegex\<close>: what the source uses of JavaScript strings and numbers (texts are lists
    of characters, \<open>toFixed\<close>, \<open>parseFloat\<close>, \<open>parseInt\<close>, \<open>split\<close>) and of regular expressions (a
    backtracking matcher for sequences of literals and greedy character classes, which is total:
    a pattern is a finite list and every class consumes from a finite text).
  \<^item> \<open>Vdom\<close>: what a component renders, with queries for buttons, possible clicks, links, texts and
    keys; the locale \<open>keyed_list\<close> is the contract of a list item.
  \<^item> \<open>Design\<close> (\<open>types.ts\<close>, \<open>design.ts\<close>): data types, styling tables and formatters.
  \<^item> \<open>Ui\<close> (\<open>components/ui.tsx\<close>, \<open>components/ThemeToggle.tsx\<close>): shared components.
  \<^item> \<open>Simulation\<close> (\<open>pages/DemoPage.tsx\<close>, up to its JSX): state, handlers, effects, intervals and
    timeouts of the simulated run, as a step relation; \<open>DemoView\<close>: its JSX.
  \<^item> \<open>Fetching\<close> (\<open>hooks/usePolling.ts\<close>, \<open>hooks/useEventStream.ts\<close>): one completed request or event
    is one step; the locales \<open>poller\<close> and \<open>atomic_poller\<close> state what a polling round promises and
    are interpreted for the hook and for the five operator pages.
  \<^item> \<open>RunsPage\<close>, \<open>RunDetailPage\<close>, \<open>CheckpointBrowser\<close>, \<open>HealthPage\<close>, \<open>PerformancePage\<close> (the files of
    the same names in \<open>pages\<close>): state, polling, actions, derived values and view of each page.
  \<^item> \<open>LogParser\<close> (\<open>hooks/useLogParser.ts\<close> and the log lines of \<open>training-harness/train.py\<close>),
    \<open>LogViews\<close> (\<open>LogStream.tsx\<close>, \<open>TrainingLossChart.tsx\<close>, \<open>CheckpointProof.tsx\<close>), \<open>StorageBrowser\<close>
    (\<open>StorageBrowser.tsx\<close>), \<open>Widgets\<close> (\<open>DemoWalkthrough.tsx\<close>, \<open>ContainerStatus.tsx\<close>, \<open>SystemInfo.tsx\<close>,
    \<open>TrainingInfo.tsx\<close>, \<open>ActivityFeed.tsx\<close>, \<open>VisitorStats.tsx\<close>).
  \<^item> \<open>App\<close> (\<open>App.tsx\<close>): routes, the guard of the operator pages, navigation, menu, scroll positions;
    \<open>Motion\<close>: the animations of its menu, \<open>hooks/useReveal.ts\<close> and \<open>config/api.ts\<close>.
  \<^item> \<open>SiteParts\<close>, \<open>LandingPage\<close>, \<open>ArchitectureDiagram\<close>, \<open>TryLocallyPage\<close>, \<open>BenchmarksPage\<close>,
    \<open>HowItWorksPage\<close> (the files of the same names): the public pages, section by section, with their
    accordion, copy buttons and timeouts; \<open>PublicSite\<close>: what holds of all of them.

  \<^bold>\<open>Theories of the control plane.\<close> Paths are relative to \<open>python-controlplane/src/controlplane\<close>.

  \<^item> \<open>ControlPlane\<close> (\<open>state_machine.py\<close>, the run actions of \<open>api/rest.py\<close>, and the state table of the
    explanation page).
  \<^item> \<open>Coordinator\<close> (\<open>coordinator.py\<close>, \<open>models.py\<close>): the key-value store and every operation on runs,
    checkpoints and workers.
  \<^item> \<open>CheckpointApi\<close> (run, checkpoint and shard endpoints of \<open>api/rest.py\<close>), split where they wait for
    the data plane; \<open>CheckpointProtocol\<close>: the interleavings of requests and answers as a step relation.
  \<^item> \<open>Retention\<close> (\<open>retention.py\<close>): one pass over the listing of the bucket.
  \<^item> \<open>Fleet\<close> (\<open>heartbeat.py\<close>, \<open>worker_manager.py\<close>, worker endpoints of \<open>api/rest.py\<close>, heartbeat thread of
    the harness), \<open>Recovery\<close> (\<open>recovery.py\<close>, supervisor and kill endpoint of \<open>api/rest.py\<close>), \<open>FleetSystem\<close>:
    the step relation of the whole control plane and its invariant, \<open>FleetProperties\<close>: what follows.
  \<^item> \<open>Operations\<close> (visitors, health, metrics and event streams of \<open>api/rest.py\<close>): what the panels and
    charts of the frontend are sent, in the record types of the pages that show it.

  \<^bold>\<open>Theories of the data plane.\<close> Paths are relative to \<open>rust-dataplane/src\<close>.

  \<^item> \<open>DataPlane\<close> (\<open>checkpoint/writer.rs\<close>, \<open>reader.rs\<close>, \<open>manifest.rs\<close>, \<open>gc.rs\<close>, \<open>storage/s3.rs\<close>,
    \<open>dataset/streamer.rs\<close>, \<open>grpc_service.rs\<close>, \<open>retry.rs\<close>): the writer with its multipart pipeline, reader,
    manifests, garbage collector, handlers and retries over an object store that is an argument.
  \<^item> \<open>ShardStore\<close>: the pipeline against a reference, and uploads, commits and reads composed with the
    control plane; \<open>StorageUpkeep\<close>: listings, aborts and the collection of orphans.
  \<^item> \<open>Admission\<close> (\<open>backpressure.rs\<close>, the steps of \<open>write_shard\<close>): concurrent requests at the counter of
    the queue, and the bounds of the retries.

  \<^bold>\<open>Theories of the training harness.\<close>

  \<^item> \<open>Harness\<close> (\<open>training-harness/train.py\<close>, \<open>sdk/client.py\<close>): the state \<open>world\<close> is the control plane with its
    workers and the data plane; the handlers of \<open>CheckpointApi\<close> are composed with those of \<open>DataPlane\<close>
    (\<open>serve_upload\<close>, \<open>serve_commit\<close>, \<open>serve_download\<close>), and on them run \<open>save_checkpoint_runtime\<close>,
    \<open>load_checkpoint_runtime\<close>, the search for the run, the registration, the heartbeats and the training
    loop of rank 0. What a process is given (\<open>boot\<close>, \<open>plan\<close>) are identifiers, clocks, the update and the loss
    of each batch, stop requests and the heartbeats that are sent.
  \<^item> \<open>Training\<close>: what a save, a load and a failed save do to the stored checkpoints; \<open>CrashSafety\<close>: the
    loop over whole executions, crashes and restarts.

  \<^bold>\<open>What the lemmas show.\<close>

  \<^item> Simulation: an invariant of all reachable states (counter, checkpoints, refs, pending timers,
    failure data), from which follow the bound on lost work, the completeness of the checkpoints,
    that a failed run resumes, that a restart leaves no stale timer, and the refinement of the
    five-phase machine that the page displays. The view offers exactly the operations that have an
    effect, and the keys of its lists are distinct.
  \<^item> Parsing: the log lines of the harness are read back by the patterns of the frontend, with the
    contents of the capped lists after any stream of messages.
  \<^item> Polling: pages show the last known good data and the error of the last round; the exact
    effect of rounds whose bodies fail to parse half-way.
  \<^item> Contracts with the control plane: the displayed state table is the enforced one, which
    offered actions are accepted, and which published events reach the page.
  \<^item> Formatting, grouping, sorting, routing and rounding: functional descriptions of each.
  \<^item> Coordinator and protocol: the stored records and the state machines in memory agree, stored runs
    follow the transition table, the endpoints refine the life cycle of a run, committed checkpoints
    have shards and a commit time in every interleaving, and what a failed upload or commit leaves.
  \<^item> Fleet: active workers have different ranks and exactly they have leases, a silent worker's run
    recovers from its newest committed checkpoint, nobody else is declared dead, restarts of the
    group and of the control plane with the scans and reconciliation rounds that follow, and the refinement of the
    protocol by the whole system.
  \<^item> Retention: what is never deleted, and the exact effect of a pass, also of one that stops at a failed batch.
  \<^item> Data plane: the streaming pipeline makes the calls of its reference, a write request always returns and gives
    its place in the queue back, an uploaded
    and committed shard is read back unchanged, what aborts and the collection of orphans delete,
    and how far the limit of the queue holds.
  \<^item> Harness: over all three planes, whatever the data plane answers, a process that dies is followed by
    one that has the model of the newest checkpoint, less than an interval old after a death between two batches and at
    most an interval old after one inside a batch or a save, all ranks load the same, and with batches in
    every epoch the loop ends with the run completed and the final model saved, or with the run failed. \<open>env_ok\<close> collects
    what is relied on of the store and of JSON, \<open>plan_ok\<close> that serialised models are read back and that
    drawn identifiers are new; a store in memory and a model of one byte satisfy them.
  \<^item> Operations: the counts that visitors and charts get add up and stay within the bounds that the
    pages draw.

  \<^bold>\<open>Modelling decisions.\<close>

  \<^item> A \<open>number\<close> that counts is an \<open>int\<close> or \<open>nat\<close>, any other one a \<open>real\<close>; rounding errors of
    doubles are not modelled. \<open>null\<close> and \<open>undefined\<close> are \<open>None\<close>, not-a-number results of parsers too.
    Numbers of the data plane that are stored or sent have their width as words; the part numbers of an
    upload and the lengths of lists in memory are natural numbers.
  \<^item> React: an event handler, timer or answer runs to its end on the current state, then the effects
    whose dependencies changed run, before the next event. The order of events is arbitrary, as are
    the lengths of the pauses between them.
  \<^item> No run is bounded and no definition uses fuel. The loops of the data plane that may not end are
    partial functions into an option, where \<open>None\<close> is a loop that does not end or a panic; that they
    return is proved.
  \<^item> The handlers of the control plane run on one event loop: they are atomic between the points where
    they wait, and split there. Threads (restart of a worker group, scan of the leases) are steps.
  \<^item> The network, the clock, random identifiers, the locale's date formats, \<open>Date\<close> parsing,
    \<open>JSON.stringify\<close>, the path matching of the router, docker, SHA-256 and the object store are
    parameters or inputs of the definitions. What is relied on of the object store are the named
    hypotheses \<open>s3_laws\<close>, \<open>reads_answered\<close> and \<open>paging_laws\<close>, which a store in memory satisfies.
  \<^item> Views keep everything that depends on the state; constant class names, icons, animations and
    the drawing of charts are left out.

  \<^bold>\<open>Not modelled.\<close> \<open>main.tsx\<close>, which mounts the application, and the configuration of the style sheet
  compiler: they only call libraries. Of the control plane the adapter of etcd, tracing, and the endpoints
  that pass on the output of docker, of host commands and of the bucket or print counters as text. Of the data
  plane the process, its metrics, and the interference of concurrent writers in the object store. Of the
  harness the tensors (the model is a value of any type), checkpoints on the local disk, the barriers
  between the ranks, and connections that break while a request is handled: a process dies between two events of its
  loop (heartbeats, the optimizer step, the requests of a save) or by an exception, and the next one starts on what it left.
  What the monitor does meanwhile with the run and with a checkpoint that a killed save leaves in progress is in theory
  \<open>Recovery\<close>; the step from such a checkpoint to the next save is not composed with it.
\<close>

section \<open>The documented upload\<close>

text \<open>
  The explanation page says that a shard is sent to the data plane in chunks of 4 MB and shows the shard of
  its example, 3985408 bytes, as one chunk. The control plane sends that shard in four chunks of at most one MiB.
\<close>

theorem documented_upload:
  assumes "length body = 3985408"
  shows "T ''. The bytes are split into 4 MB chunks and sent one at a time:'' \<in> set (all_nodes [how_view :: unit node])
    \<and> length (upload_chunks run_id k sid body) = 4
    \<and> (\<forall>c \<in> set (upload_chunks run_id k sid body). length (ch_data c) \<le> 1048576)"
proof -
  have "T ''. The bytes are split into 4 MB chunks and sent one at a time:'' \<in> set (all_nodes [save_section :: unit node])"
    by (simp add: save_section_def how_components js_inject)
  then have "T ''. The bytes are split into 4 MB chunks and sent one at a time:'' \<in> set (all_nodes [how_view :: unit node])"
    by (simp add: how_view_def)
  moreover have "length (upload_chunks run_id k sid body) = 4"
    using assms by (simp add: upload_chunks_def chunk_iterator_length chunk_size_def)
  moreover have "\<forall>c \<in> set (upload_chunks run_id k sid body). length (ch_data c) \<le> 1048576"
    using chunk_iterator_bounds [of _ sid "run_id @ js ''/'' @ k" body 0]
    by (simp add: upload_chunks_def chunk_size_def)
  ultimately show ?thesis by blast
qed

theorem documented_upload_witness:
  "length (upload_chunks (js ''run-xyz'') (js ''ckpt-a1b2c3d4'') (js ''rank-0'') (replicate 3985408 0)) = 4"
  by (rule documented_upload [THEN conjunct2, THEN conjunct1]) simp

section \<open>Checkpoint states\<close>

definition all_ckpt_states :: "CheckpointState list" where
  "all_ckpt_states = [CK_PENDING, CK_IN_PROGRESS, CK_COMMITTED, CK_FAILED]"

text \<open>
  C35. Every checkpoint that the API lists, in every state the server can reach, has a state that the frontend
  declares in its type \<open>CheckpointState\<close>, so that the badges of the pages are defined on it.
\<close>

theorem checkpoint_states_known:
  assumes "server_reachable (a, ps)" and "rest_list_checkpoints run_id a = Ok ks"
  shows "list_all (\<lambda>x. list_ex (\<lambda>st. pk_state x = ckpt_state_name st) all_ckpt_states) ks"
proof -
  have "good (ai_coord a) (committing_ids ps)" using server_reachable_good [OF assms(1)] by simp
  then have ok: "coord_ok (ai_coord a)" and sound: "checkpoints_sound (ai_coord a) (committing_ids ps)"
    by (simp_all add: good_def)
  from assms(2) have ks: "coord_list_checkpoints run_id (ai_coord a) = Inr ks"
    by (auto simp: rest_list_checkpoints_def split: sum.splits option.splits)
  have "pk_state x \<in> {''PENDING'', ''IN_PROGRESS'', ''COMMITTED'', ''FAILED''}" if "x \<in> set ks" for x
  proof -
    from list_checkpoints_ok [OF ok, of run_id] ks that
    obtain j where "coord_get_checkpoint j (ai_coord a) = Inr (Some x)" by auto
    with sound show ?thesis by (auto simp: checkpoints_sound_def checkpoint_ok_def get_checkpoint_iff)
  qed
  then show ?thesis by (fastforce simp: list_all_iff all_ckpt_states_def)
qed

theorem checkpoint_states_known_witness:
  "list_all (\<lambda>x. list_ex (\<lambda>st. pk_state x = ckpt_state_name st) all_ckpt_states) [sample_checkpoint]"
proof (rule checkpoint_states_known [OF sample_uploaded_reachable])
  show "rest_list_checkpoints (js ''r1'') sample_uploaded = Ok [sample_checkpoint]" by code_simp
qed

end
